(* ===== verification/Prelude.thy ===== *)
theory Prelude
  imports Main "HOL-Library.Char_ord"
begin

text \<open>
  What the components share.

  \<^item> The development's fact collections: \<open>js_string\<close> (equations of the string operations),
    \<open>js_frame\<close> (what an operation leaves alone) and \<open>js_inv\<close> (invariant preservation).
  \<^item> The operations of JavaScript's \<open>String\<close> and \<open>Array\<close> that the console uses, over
    \<open>string\<close>, a list of bytes. Text is UTF-8; an operation that looks inside a character
    (\<open>toLowerCase\<close>, \<open>toUpperCase\<close>, \<open>trim\<close>) does what JavaScript does on the ASCII
    characters and leaves every other byte alone.
  \<^item> Two interfaces as locales: \<open>escape_codec\<close>, an escaping of text that can be undone, and
    \<open>machine\<close>, a step function with an invariant. Each component that offers one of
    them interprets the locale on its own definitions.
\<close>

named_theorems js_string \<open>equations of the string operations\<close>
named_theorems js_frame \<open>what an operation leaves alone\<close>
named_theorems js_inv \<open>invariant preservation\<close>

section \<open>Characters\<close>

definition is_upper :: "char \<Rightarrow> bool" where
  "is_upper c \<longleftrightarrow> CHR ''A'' \<le> c \<and> c \<le> CHR ''Z''"

definition is_lower :: "char \<Rightarrow> bool" where
  "is_lower c \<longleftrightarrow> CHR ''a'' \<le> c \<and> c \<le> CHR ''z''"

definition is_digit :: "char \<Rightarrow> bool" where
  "is_digit c \<longleftrightarrow> CHR ''0'' \<le> c \<and> c \<le> CHR ''9''"

definition is_alnum :: "char \<Rightarrow> bool" where
  "is_alnum c \<longleftrightarrow> is_upper c \<or> is_lower c \<or> is_digit c"

definition lower_char :: "char \<Rightarrow> char" where
  "lower_char c = (if is_upper c then char_of (of_char c + 32 :: nat) else c)"

definition upper_char :: "char \<Rightarrow> char" where
  "upper_char c = (if is_lower c then char_of (of_char c - 32 :: nat) else c)"

text \<open>The ASCII part of what \<open>trim\<close> takes off: tab, line feed, vertical tab, form feed,
  carriage return, space.\<close>

definition is_space :: "char \<Rightarrow> bool" where
  "is_space c \<longleftrightarrow> of_char c \<in> {9, 10, 11, 12, 13, 32 :: nat}"

section \<open>Strings\<close>

definition to_lower :: "string \<Rightarrow> string" where
  "to_lower s = map lower_char s"

definition to_upper :: "string \<Rightarrow> string" where
  "to_upper s = map upper_char s"

definition js_trim :: "string \<Rightarrow> string" where
  "js_trim s = rev (dropWhile is_space (rev (dropWhile is_space s)))"

fun js_startsWith :: "string \<Rightarrow> string \<Rightarrow> bool" where
  "js_startsWith s [] = True"
| "js_startsWith [] (p # ps) = False"
| "js_startsWith (c # cs) (p # ps) = (c = p \<and> js_startsWith cs ps)"

fun js_includes :: "string \<Rightarrow> string \<Rightarrow> bool" where
  "js_includes [] p = (p = [])"
| "js_includes (c # cs) p = (js_startsWith (c # cs) p \<or> js_includes cs p)"

text \<open>\<open>indexOf\<close> of one character, with \<open>None\<close> for JavaScript's \<open>-1\<close>.\<close>

fun index_of :: "char \<Rightarrow> string \<Rightarrow> nat option" where
  "index_of x [] = None"
| "index_of x (c # cs) = (if c = x then Some 0 else map_option Suc (index_of x cs))"

text \<open>\<open>split\<close> at a character: never the empty list, and \<open>[[]]\<close> for the empty string.\<close>

fun split_on :: "char \<Rightarrow> string \<Rightarrow> string list" where
  "split_on x [] = [[]]"
| "split_on x (c # cs) =
     (if c = x then [] # split_on x cs
      else (case split_on x cs of [] \<Rightarrow> [[c]] | s # ss \<Rightarrow> (c # s) # ss))"

fun join_with :: "string \<Rightarrow> string list \<Rightarrow> string" where
  "join_with sep [] = []"
| "join_with sep [s] = s"
| "join_with sep (s # t # ss) = s @ sep @ join_with sep (t # ss)"

definition replace_char :: "char \<Rightarrow> char \<Rightarrow> string \<Rightarrow> string" where
  "replace_char a b s = map (\<lambda>c. if c = a then b else c) s"

text \<open>Capital first letter, as \<open>s.charAt(0).toUpperCase() + s.slice(1)\<close>.\<close>

fun capitalise :: "string \<Rightarrow> string" where
  "capitalise [] = []"
| "capitalise (c # cs) = upper_char c # cs"

text \<open>\<open>.filter(Boolean)\<close> on strings: the empty one is the only falsy string.\<close>

definition nonempty :: "string list \<Rightarrow> string list" where
  "nonempty ss = filter (\<lambda>s. s \<noteq> []) ss"

text \<open>Decimal digits, as \<open>String(n)\<close> prints an integer.\<close>

fun show_nat :: "nat \<Rightarrow> string" where
  "show_nat n = (if n < 10 then [char_of (48 + n)] else show_nat (n div 10) @ [char_of (48 + n mod 10)])"

declare show_nat.simps [simp del]

definition show_int :: "int \<Rightarrow> string" where
  "show_int i = (if i < 0 then CHR ''-'' # show_nat (nat (- i)) else show_nat (nat i))"

text \<open>The typographic characters the console prints, as UTF-8.\<close>

definition em_dash :: string where
  "em_dash = [CHR 0xE2, CHR 0x80, CHR 0x94]"

definition middle_dot :: string where
  "middle_dot = [CHR 0xC2, CHR 0xB7]"

definition ellipsis :: string where
  "ellipsis = [CHR 0xE2, CHR 0x80, CHR 0xA6]"

section \<open>Facts about them\<close>

lemma split_on_nonempty [simp]: "split_on x s \<noteq> []"
  by (induction s) (auto split: list.splits)

lemma join_split [js_string]: "join_with [x] (split_on x s) = s"
proof (induction s)
  case Nil
  show ?case by simp
next
  case (Cons c s)
  obtain t ts where t: "split_on x s = t # ts"
    by (cases "split_on x s") auto
  with Cons show ?case by (cases ts) auto
qed

lemma split_no_sep: "x \<notin> set s \<Longrightarrow> split_on x s = [s]"
  by (induction s) auto

lemma split_append_sep: "x \<notin> set s \<Longrightarrow> split_on x (s @ x # t) = s # split_on x t"
  by (induction s) auto

lemma split_join [js_string]:
  assumes "ss \<noteq> []" and "\<And>s. s \<in> set ss \<Longrightarrow> x \<notin> set s"
  shows "split_on x (join_with [x] ss) = ss"
  using assms
proof (induction "[x]" ss rule: join_with.induct)
  case 1
  then show ?case by simp
next
  case (2 s)
  then show ?case by (simp add: split_no_sep)
next
  case (3 s t ss)
  then show ?case by (simp add: split_append_sep)
qed

lemma split_on_pieces: "t \<in> set (split_on x s) \<Longrightarrow> x \<notin> set t"
  by (induction s arbitrary: t) (fastforce split: list.splits if_splits)+

lemma set_join_with: "set (join_with sep ss) \<subseteq> set sep \<union> \<Union> (set ` set ss)"
  by (induction sep ss rule: join_with.induct) auto

lemma nonempty_mem [simp]: "s \<in> set (nonempty ss) \<longleftrightarrow> s \<in> set ss \<and> s \<noteq> []"
  by (auto simp: nonempty_def)

lemma nonempty_id: "[] \<notin> set ss \<Longrightarrow> nonempty ss = ss"
  by (auto simp: nonempty_def intro!: filter_True)

lemma dropWhile_idem [simp]: "dropWhile P (dropWhile P xs) = dropWhile P xs"
  by (induction xs) auto

lemma js_trim_no_space:
  assumes "\<And>c. c \<in> set s \<Longrightarrow> \<not> is_space c"
  shows "js_trim s = s"
proof -
  have "dropWhile is_space s = s"
    using assms by (cases s) auto
  moreover have "dropWhile is_space (rev s) = rev s"
    using assms by (cases "rev s") (auto dest: arg_cong [where f = set])
  ultimately show ?thesis by (simp add: js_trim_def)
qed

lemma js_trim_id:
  assumes "s = [] \<or> (\<not> is_space (hd s) \<and> \<not> is_space (last s))"
  shows "js_trim s = s"
proof (cases "s = []")
  case True
  then show ?thesis by (simp add: js_trim_def)
next
  case False
  with assms have "dropWhile is_space s = s"
    by (cases s) auto
  moreover from False assms have "dropWhile is_space (rev s) = rev s"
    by (cases s rule: rev_cases) auto
  ultimately show ?thesis by (simp add: js_trim_def)
qed

lemma js_trim_space_cons [simp]: "is_space c \<Longrightarrow> js_trim (c # s) = js_trim s"
  by (simp add: js_trim_def)

lemma dropWhile_rev_hd:
  "xs \<noteq> [] \<Longrightarrow> \<not> P (hd xs) \<Longrightarrow> hd (rev (dropWhile P (rev xs))) = hd xs \<and> dropWhile P (rev xs) \<noteq> []"
  by (cases xs) (auto simp: dropWhile_append)

lemma js_trim_ends:
  assumes "js_trim s \<noteq> []"
  shows "\<not> is_space (hd (js_trim s)) \<and> \<not> is_space (last (js_trim s))"
proof -
  let ?l = "dropWhile is_space s"
  have ne: "?l \<noteq> []"
  proof
    assume "?l = []"
    then show False using assms by (simp only: js_trim_def) simp
  qed
  then have h: "\<not> is_space (hd ?l)" by (rule hd_dropWhile)
  from dropWhile_rev_hd [OF ne, of is_space] h
  have "hd (js_trim s) = hd ?l" and ne2: "dropWhile is_space (rev ?l) \<noteq> []"
    by (auto simp: js_trim_def)
  moreover have "last (js_trim s) = hd (dropWhile is_space (rev ?l))"
    using ne2 by (simp add: js_trim_def last_rev)
  ultimately show ?thesis using h ne2 hd_dropWhile by metis
qed

lemma js_trim_idem [simp]: "js_trim (js_trim s) = js_trim s"
  by (rule js_trim_id) (use js_trim_ends in blast)

lemma set_js_trim: "set (js_trim s) \<subseteq> set s"
proof
  fix x
  assume "x \<in> set (js_trim s)"
  then have "x \<in> set (rev (dropWhile is_space s))"
    by (simp add: js_trim_def) (metis set_dropWhileD set_rev)
  then show "x \<in> set s" by (simp add: set_dropWhileD)
qed

lemma js_startsWith_iff: "js_startsWith s p \<longleftrightarrow> (\<exists>t. s = p @ t)"
  by (induction s p rule: js_startsWith.induct) auto

lemma js_includes_iff: "js_includes s p \<longleftrightarrow> (\<exists>a b. s = a @ p @ b)"
proof (induction s)
  case Nil
  show ?case by auto
next
  case (Cons c s)
  show ?case
  proof
    assume "js_includes (c # s) p"
    then consider t where "c # s = p @ t" | a b where "s = a @ p @ b"
      using Cons by (auto simp: js_startsWith_iff)
    then show "\<exists>a b. c # s = a @ p @ b"
    proof cases
      case 1
      then have "c # s = [] @ p @ t" by simp
      then show ?thesis by blast
    next
      case 2
      then have "c # s = (c # a) @ p @ b" by simp
      then show ?thesis by blast
    qed
  next
    assume "\<exists>a b. c # s = a @ p @ b"
    then obtain a b where ab: "c # s = a @ p @ b" by blast
    show "js_includes (c # s) p"
    proof (cases a)
      case Nil
      with ab have "js_startsWith (c # s) p" by (simp add: js_startsWith_iff)
      then show ?thesis by simp
    next
      case (Cons d a')
      with ab have "s = a' @ p @ b" by simp
      with Cons.IH show ?thesis by auto
    qed
  qed
qed

lemma index_of_None: "index_of x s = None \<longleftrightarrow> x \<notin> set s"
  by (induction s) auto

lemma index_of_Some: "index_of x s = Some n \<Longrightarrow> n < length s \<and> s ! n = x \<and> x \<notin> set (take n s)"
  by (induction s arbitrary: n) (auto split: if_splits)

lemma index_of_split: "index_of x s = Some n \<Longrightarrow> s = take n s @ x # drop (Suc n) s"
  using index_of_Some id_take_nth_drop by metis

lemma show_nat_digits: "c \<in> set (show_nat n) \<Longrightarrow> is_digit c"
proof (induction n rule: show_nat.induct)
  case (1 n)
  have d: "is_digit (char_of (48 + m))" if "m < 10" for m :: nat
    using that by (auto simp: is_digit_def less_eq_char_def)
  show ?case
  proof (cases "n < 10")
    case True
    with "1.prems" d show ?thesis by (subst (asm) show_nat.simps) auto
  next
    case False
    with "1.prems" have "c \<in> set (show_nat (n div 10)) \<or> c = char_of (48 + n mod 10)"
      by (subst (asm) show_nat.simps) auto
    then show ?thesis
      using False "1.IH" d [of "n mod 10"] by auto
  qed
qed

lemma show_nat_ne [simp]: "show_nat n \<noteq> []"
  by (subst show_nat.simps) simp

lemma show_int_ne [simp]: "show_int i \<noteq> []"
  by (simp add: show_int_def)

lemma lower_char_idem [simp]: "lower_char (lower_char c) = lower_char c"
proof -
  have "\<not> is_upper (lower_char c)"
    by (cases "is_upper c") (auto simp: lower_char_def is_upper_def less_eq_char_def)
  then show ?thesis by (simp add: lower_char_def)
qed

lemma to_lower_idem [simp]: "to_lower (to_lower s) = to_lower s"
  by (simp add: to_lower_def)

lemma to_lower_append [simp]: "to_lower (s @ t) = to_lower s @ to_lower t"
  by (simp add: to_lower_def)

section \<open>Interfaces\<close>

text \<open>
  An escaping of text: every character becomes a non-empty run of characters of a safe
  alphabet, and one step of the decoder reads a run back whatever follows it.
\<close>

locale escape_codec =
  fixes esc :: "char \<Rightarrow> string"
    and unesc :: "string \<Rightarrow> (char \<times> string) option"
    and safe :: "char \<Rightarrow> bool"
  assumes unesc_esc: "unesc (esc c @ rest) = Some (c, rest)"
    and unesc_nil: "unesc [] = None"
    and esc_safe: "x \<in> set (esc c) \<Longrightarrow> safe x"
begin

lemma esc_ne: "esc c \<noteq> []"
  using unesc_esc [of c "[]"] unesc_nil by auto

lemma encode_safe: "x \<in> set (concat (map esc s)) \<Longrightarrow> safe x"
  using esc_safe by auto

lemma encode_inj: "concat (map esc s) = concat (map esc t) \<Longrightarrow> s = t"
proof (induction s arbitrary: t)
  case Nil
  then show ?case using esc_ne by (cases t) auto
next
  case (Cons c s)
  then obtain d t' where t: "t = d # t'"
    using esc_ne by (cases t) auto
  from Cons.prems t have
    "unesc (esc c @ concat (map esc s)) = unesc (esc d @ concat (map esc t'))"
    by simp
  then have "c = d" and "concat (map esc s) = concat (map esc t')"
    by (simp_all add: unesc_esc)
  with Cons.IH t show ?case by simp
qed

end

text \<open>
  A component with state: its start state, what one event does to it, and the invariant
  its operations keep.
\<close>

locale machine =
  fixes start :: 's
    and step :: "'e \<Rightarrow> 's \<Rightarrow> 's"
    and inv :: "'s \<Rightarrow> bool"
  assumes inv_start: "inv start"
    and inv_step: "inv s \<Longrightarrow> inv (step e s)"
begin

lemma inv_fold: "inv s \<Longrightarrow> inv (fold step es s)"
  by (induction es arbitrary: s) (auto intro: inv_step)

lemma inv_run: "inv (fold step es start)"
  by (rule inv_fold [OF inv_start])

end

end
