(* ===== verification/JsValue.thy ===== *)
theory JsValue
  imports Prelude
begin

text \<open>
  The values the console passes around: JSON values and \<open>undefined\<close>, objects with their
  members in insertion order, the conversions \<open>Boolean(v)\<close> and \<open>String(v)\<close>, object spread,
  and \<open>JSON.stringify\<close>. A number is an integer (\<open>JNum\<close>), another decimal (\<open>JDec m s\<close> is
  m / 10^s, with m not divisible by 10 and s positive) or \<open>NaN\<close>; rounding to a double is not
  modelled. Reading a member that is not there is \<open>undefined\<close>, as in the source.

  The interface \<open>keyed_store\<close> is what the components rely on when they update one member
  of a record of settings and leave the others alone; objects and arrays provide it.
\<close>

datatype (plugins only: code size) jsval =
    JUndef
  | JNull
  | JBool bool
  | JNum int
  | JDec int nat
  | JNaN
  | JStr string
  | JArr "jsval list"
  | JObj "(string \<times> jsval) list"

type_synonym jsobj = "(string \<times> jsval) list"

section \<open>Members\<close>

fun obj_get :: "jsobj \<Rightarrow> string \<Rightarrow> jsval" where
  "obj_get [] k = JUndef"
| "obj_get ((k', v) # ps) k = (if k' = k then v else obj_get ps k)"

text \<open>Assignment keeps a member's place and appends a new one, as \<open>{ ...o, [k]: v }\<close>.\<close>

fun obj_put :: "string \<Rightarrow> jsval \<Rightarrow> jsobj \<Rightarrow> jsobj" where
  "obj_put k v [] = [(k, v)]"
| "obj_put k v ((k', v') # ps) = (if k' = k then (k, v) # ps else (k', v') # obj_put k v ps)"

fun obj_delete :: "string \<Rightarrow> jsobj \<Rightarrow> jsobj" where
  "obj_delete k [] = []"
| "obj_delete k ((k', v') # ps) = (if k' = k then obj_delete k ps else (k', v') # obj_delete k ps)"

definition obj_keys :: "jsobj \<Rightarrow> string list" where
  "obj_keys ps = map fst ps"

text \<open>\<open>{ ...a, ...b }\<close>\<close>

definition obj_spread :: "jsobj \<Rightarrow> jsobj \<Rightarrow> jsobj" where
  "obj_spread a b = fold (\<lambda>(k, v). obj_put k v) b a"

text \<open>Member access on any value; \<open>None\<close> is the TypeError of reading a member of
  \<open>null\<close> or \<open>undefined\<close>.\<close>

fun member :: "jsval \<Rightarrow> string \<Rightarrow> jsval option" where
  "member JUndef k = None"
| "member JNull k = None"
| "member (JObj ps) k = Some (obj_get ps k)"
| "member _ k = Some JUndef"

section \<open>Conversions\<close>

fun truthy :: "jsval \<Rightarrow> bool" where
  "truthy JUndef = False"
| "truthy JNull = False"
| "truthy (JBool b) = b"
| "truthy (JNum n) = (n \<noteq> 0)"
| "truthy (JDec m s) = True"
| "truthy JNaN = False"
| "truthy (JStr s) = (s \<noteq> [])"
| "truthy (JArr vs) = True"
| "truthy (JObj ps) = True"

fun nullish :: "jsval \<Rightarrow> bool" where
  "nullish JUndef = True"
| "nullish JNull = True"
| "nullish _ = False"

text \<open>\<open>a ?? b\<close>\<close>

definition or_else :: "jsval \<Rightarrow> jsval \<Rightarrow> jsval" where
  "or_else a b = (if nullish a then b else a)"

definition show_decimal :: "int \<Rightarrow> nat \<Rightarrow> string" where
  "show_decimal m s =
     (let d = show_nat (nat \<bar>m\<bar>); p = replicate (Suc s - length d) (CHR ''0'') @ d; w = length p - s
      in (if m < 0 then ''-'' else []) @ take w p @ ''.'' @ drop w p)"

fun to_string :: "jsval \<Rightarrow> string" where
  "to_string JUndef = ''undefined''"
| "to_string JNull = ''null''"
| "to_string (JBool b) = (if b then ''true'' else ''false'')"
| "to_string (JNum n) = show_int n"
| "to_string (JDec m s) = show_decimal m s"
| "to_string JNaN = ''NaN''"
| "to_string (JStr s) = s"
| "to_string (JArr vs) = join_with '','' (map (\<lambda>v. if nullish v then [] else to_string v) vs)"
| "to_string (JObj ps) = ''[object Object]''"

text \<open>The element strings of \<open>array.join\<close>: nothing for \<open>null\<close> and \<open>undefined\<close>.\<close>

definition join_item :: "jsval \<Rightarrow> string" where
  "join_item v = (if nullish v then [] else to_string v)"

section \<open>JSON text\<close>

definition hex_lower :: "nat \<Rightarrow> char" where
  "hex_lower n = ''0123456789abcdef'' ! n"

definition json_char :: "char \<Rightarrow> string" where
  "json_char c =
     (let n = of_char c :: nat in
      if n = 34 then [CHR 0x5C, CHR 0x22]
      else if n = 92 then [CHR 0x5C, CHR 0x5C]
      else if n = 8 then [CHR 0x5C, CHR ''b'']
      else if n = 12 then [CHR 0x5C, CHR ''f'']
      else if n = 10 then [CHR 0x5C, CHR ''n'']
      else if n = 13 then [CHR 0x5C, CHR ''r'']
      else if n = 9 then [CHR 0x5C, CHR ''t'']
      else if n < 32 then [CHR 0x5C, CHR ''u'', CHR ''0'', CHR ''0'', hex_lower (n div 16), hex_lower (n mod 16)]
      else [c])"

definition json_quote :: "string \<Rightarrow> string" where
  "json_quote s = CHR 0x22 # concat (map json_char s) @ [CHR 0x22]"

text \<open>\<open>JSON.stringify\<close>: a member whose value is \<open>undefined\<close> is left out, an array
  element that is \<open>undefined\<close> is written \<open>null\<close>.\<close>

fun json_text :: "jsval \<Rightarrow> string" where
  "json_text JUndef = ''null''"
| "json_text JNull = ''null''"
| "json_text (JBool b) = (if b then ''true'' else ''false'')"
| "json_text (JNum n) = show_int n"
| "json_text (JDec m s) = show_decimal m s"
| "json_text JNaN = ''null''"
| "json_text (JStr s) = json_quote s"
| "json_text (JArr vs) = ''['' @ join_with '','' (map json_text vs) @ '']''"
| "json_text (JObj ps) =
     CHR 0x7B # join_with '',''
       (map (\<lambda>(k, t). json_quote k @ '':'' @ t)
         (concat (map (\<lambda>(k, v). if v = JUndef then [] else [(k, json_text v)]) ps))) @ [CHR 0x7D]"

lemma show_decimal_ne [simp]: "show_decimal m s \<noteq> []"
  by (simp add: show_decimal_def Let_def)

lemma json_text_ne [simp]: "json_text v \<noteq> []"
  by (cases v) (auto simp: json_quote_def)

section \<open>The interface of a store\<close>

locale keyed_store =
  fixes get :: "'s \<Rightarrow> 'k \<Rightarrow> 'v"
    and put :: "'k \<Rightarrow> 'v \<Rightarrow> 's \<Rightarrow> 's"
  assumes get_put_same: "get (put k v s) k = v"
    and get_put_other: "k' \<noteq> k \<Longrightarrow> get (put k v s) k' = get s k'"
begin

lemma get_put: "get (put k v s) k' = (if k' = k then v else get s k')"
  using get_put_same get_put_other by auto

lemma put_put_get: "get (put k v (put k w s)) k' = get (put k v s) k'"
  by (simp add: get_put)

lemma put_swap_get: "k \<noteq> l \<Longrightarrow> get (put k v (put l w s)) m = get (put l w (put k v s)) m"
  by (simp add: get_put)

lemma puts_frame: "k \<notin> fst ` set kvs \<Longrightarrow> get (fold (\<lambda>(k, v). put k v) kvs s) k = get s k"
  by (induction kvs arbitrary: s) (auto simp: get_put)

lemma puts_last:
  "distinct (map fst kvs) \<Longrightarrow> (k, v) \<in> set kvs \<Longrightarrow> get (fold (\<lambda>(k, v). put k v) kvs s) k = v"
proof (induction kvs arbitrary: s)
  case Nil
  then show ?case by simp
next
  case (Cons kv kvs)
  then show ?case
    using puts_frame [of k kvs] by (cases kv) (force simp: get_put)
qed

end

lemma obj_get_put_same [simp]: "obj_get (obj_put k v ps) k = v"
  by (induction ps) auto

lemma obj_get_put_other [simp, js_frame]: "k' \<noteq> k \<Longrightarrow> obj_get (obj_put k v ps) k' = obj_get ps k'"
  by (induction ps) auto

interpretation obj: keyed_store obj_get obj_put
  by unfold_locales auto

lemma obj_keys_put: "set (obj_keys (obj_put k v ps)) = insert k (set (obj_keys ps))"
proof (induction ps)
  case Nil
  show ?case by (simp add: obj_keys_def)
next
  case (Cons p ps)
  obtain k' v' where "p = (k', v')" by (cases p)
  with Cons show ?case by (simp add: obj_keys_def insert_commute)
qed

lemma obj_get_mem: "k \<in> set (obj_keys ps) \<Longrightarrow> (k, obj_get ps k) \<in> set ps"
  by (induction ps k rule: obj_get.induct) (auto simp: obj_keys_def)

lemma obj_put_distinct [js_inv]:
  "distinct (obj_keys ps) \<Longrightarrow> distinct (obj_keys (obj_put k v ps))"
proof (induction ps)
  case Nil
  then show ?case by (simp add: obj_keys_def)
next
  case (Cons p ps)
  then show ?case
    using obj_keys_put [of k v ps] by (cases p) (auto simp: obj_keys_def image_iff)
qed

lemma obj_get_absent: "k \<notin> set (obj_keys ps) \<Longrightarrow> obj_get ps k = JUndef"
  by (induction ps) (auto simp: obj_keys_def)

lemma obj_get_delete: "obj_get (obj_delete k ps) k' = (if k' = k then JUndef else obj_get ps k')"
  by (induction ps) auto

lemma obj_spread_get:
  assumes "distinct (obj_keys b)"
  shows "obj_get (obj_spread a b) k = (if k \<in> set (obj_keys b) then obj_get b k else obj_get a k)"
proof (cases "k \<in> set (obj_keys b)")
  case True
  have "(k, obj_get b k) \<in> set b"
    using True by (rule obj_get_mem)
  with assms True show ?thesis
    by (simp add: obj_spread_def obj.puts_last obj_keys_def)
next
  case False
  then show ?thesis
    by (simp add: obj_spread_def obj.puts_frame obj_keys_def)
qed

end
