(* ===== verification/Url.thy ===== *)
theory Url
  imports JsValue
begin

text \<open>
  How the console writes a request's target: \<open>URLSearchParams\<close> and \<open>encodeURIComponent\<close>
  of the platform, and the helper \<^verbatim>\<open>qs\<close> of \<^verbatim>\<open>src/web/src/api.ts\<close> over them. The other end,
  what a server reads out of a query string, is \<open>parse_query\<close>: it is there to state that
  nothing is lost or added on the way.

  Both encodings provide the interface \<open>escape_codec\<close>.
\<close>

section \<open>Percent encoding\<close>

definition hex_upper :: "nat \<Rightarrow> char" where
  "hex_upper n = ''0123456789ABCDEF'' ! n"

definition pct_byte :: "char \<Rightarrow> string" where
  "pct_byte c = (let n = of_char c :: nat in [CHR ''%'', hex_upper (n div 16), hex_upper (n mod 16)])"

definition hex_value :: "char \<Rightarrow> nat option" where
  "hex_value c =
     (let n = of_char c :: nat in
      if 48 \<le> n \<and> n \<le> 57 then Some (n - 48)
      else if 65 \<le> n \<and> n \<le> 70 then Some (n - 55)
      else if 97 \<le> n \<and> n \<le> 102 then Some (n - 87)
      else None)"

text \<open>What the serialiser of \<open>URLSearchParams\<close> leaves as it is, and what
  \<open>encodeURIComponent\<close> does.\<close>

definition form_plain :: "char \<Rightarrow> bool" where
  "form_plain c \<longleftrightarrow> is_alnum c \<or> c \<in> set ''*-._''"

definition form_char :: "char \<Rightarrow> string" where
  "form_char c = (if form_plain c then [c] else if c = CHR '' '' then ''+'' else pct_byte c)"

definition form_encode :: "string \<Rightarrow> string" where
  "form_encode s = concat (map form_char s)"

definition component_plain :: "char \<Rightarrow> bool" where
  "component_plain c \<longleftrightarrow> is_alnum c \<or> c \<in> set ''-_.!~*()'' \<or> c = CHR 0x27"

definition component_char :: "char \<Rightarrow> string" where
  "component_char c = (if component_plain c then [c] else pct_byte c)"

definition encodeURIComponent :: "string \<Rightarrow> string" where
  "encodeURIComponent s = concat (map component_char s)"

text \<open>One step of a decoder: \<open>%XX\<close> is a byte, a \<open>%\<close> that does not start one is itself,
  and \<open>+\<close> is a space where the form encoding is read.\<close>

fun pct_unescape :: "bool \<Rightarrow> string \<Rightarrow> (char \<times> string) option" where
  "pct_unescape sp [] = None"
| "pct_unescape sp (c # s) =
     (if c = CHR ''%'' then
        (case s of
           a # b # t \<Rightarrow>
             (case (hex_value a, hex_value b) of
                (Some x, Some y) \<Rightarrow> Some (char_of (16 * x + y), t)
              | _ \<Rightarrow> Some (c, s))
         | _ \<Rightarrow> Some (c, s))
      else if sp \<and> c = CHR ''+'' then Some (CHR '' '', s)
      else Some (c, s))"

fun decode_with :: "(string \<Rightarrow> (char \<times> string) option) \<Rightarrow> nat \<Rightarrow> string \<Rightarrow> string" where
  "decode_with un 0 s = []"
| "decode_with un (Suc n) s = (case un s of None \<Rightarrow> [] | Some (c, t) \<Rightarrow> c # decode_with un n t)"

definition form_decode :: "string \<Rightarrow> string" where
  "form_decode s = decode_with (pct_unescape True) (length s) s"

definition decodeURIComponent :: "string \<Rightarrow> string" where
  "decodeURIComponent s = decode_with (pct_unescape False) (length s) s"

section \<open>Query strings\<close>

text \<open>\<open>URLSearchParams.set\<close>: the first entry with the name takes the value and any other
  goes; a new name is appended.\<close>

fun usp_set :: "string \<Rightarrow> string \<Rightarrow> (string \<times> string) list \<Rightarrow> (string \<times> string) list" where
  "usp_set k v [] = [(k, v)]"
| "usp_set k v ((k', v') # es) =
     (if k' = k then (k, v) # filter (\<lambda>e. fst e \<noteq> k) es else (k', v') # usp_set k v es)"

definition usp_text :: "(string \<times> string) list \<Rightarrow> string" where
  "usp_text es = join_with ''&'' (map (\<lambda>(k, v). form_encode k @ ''='' @ form_encode v) es)"

text \<open>What \<^verbatim>\<open>qs\<close> sends of its parameters: false is a value, not an absence.\<close>

definition qs_sends :: "jsval \<Rightarrow> bool" where
  "qs_sends v \<longleftrightarrow> v \<noteq> JUndef \<and> v \<noteq> JNull \<and> v \<noteq> JStr []"

definition qs_params :: "jsobj \<Rightarrow> (string \<times> string) list" where
  "qs_params ps = fold (\<lambda>(k, v) es. if qs_sends v then usp_set k (to_string v) es else es) ps []"

definition qs :: "jsobj \<Rightarrow> string" where
  "qs ps = (let query = usp_text (qs_params ps) in if query \<noteq> [] then CHR ''?'' # query else [])"

text \<open>The reading side.\<close>

definition parse_pair :: "string \<Rightarrow> string \<times> string" where
  "parse_pair s =
     (case index_of (CHR ''='') s of
        None \<Rightarrow> (form_decode s, [])
      | Some n \<Rightarrow> (form_decode (take n s), form_decode (drop (Suc n) s)))"

definition parse_query :: "string \<Rightarrow> (string \<times> string) list" where
  "parse_query q =
     (case q of
        c # s \<Rightarrow> if c = CHR ''?'' then map parse_pair (nonempty (split_on (CHR ''&'') s)) else []
      | [] \<Rightarrow> [])"

section \<open>The encodings can be undone\<close>

lemma below_16: "n < 16 \<Longrightarrow> n \<in> set [0, 1, 2, 3, 4, 5, 6, 7, 8, 9, 10, 11, 12, 13, 14, 15 :: nat]"
  by (simp only: list.set insert_iff empty_iff) presburger

lemma hex_roundtrip: "n < 16 \<Longrightarrow> hex_value (hex_upper n) = Some n"
proof -
  have "list_all (\<lambda>n. hex_value (hex_upper n) = Some n) [0, 1, 2, 3, 4, 5, 6, 7, 8, 9, 10, 11, 12, 13, 14, 15]"
    by (simp add: hex_value_def hex_upper_def)
  then show "n < 16 \<Longrightarrow> hex_value (hex_upper n) = Some n" using below_16 [of n] by (auto simp only: list_all_iff)
qed

lemma hex_upper_alnum: "n < 16 \<Longrightarrow> is_alnum (hex_upper n)"
proof -
  have "list_all (\<lambda>n. is_alnum (hex_upper n)) [0, 1, 2, 3, 4, 5, 6, 7, 8, 9, 10, 11, 12, 13, 14, 15]"
    by (simp add: hex_upper_def is_alnum_def is_upper_def is_digit_def less_eq_char_def)
  then show "n < 16 \<Longrightarrow> is_alnum (hex_upper n)" using below_16 [of n] by (auto simp only: list_all_iff)
qed

lemma pct_unescape_byte: "pct_unescape sp (pct_byte c @ rest) = Some (c, rest)"
proof -
  have n: "(of_char c :: nat) < 256" by simp
  then have "(of_char c :: nat) div 16 < 16" by linarith
  with n show ?thesis
    by (simp add: pct_byte_def Let_def hex_roundtrip)
qed

definition form_safe :: "char \<Rightarrow> bool" where
  "form_safe c \<longleftrightarrow> form_plain c \<or> c = CHR ''+'' \<or> c = CHR ''%''"

definition component_safe :: "char \<Rightarrow> bool" where
  "component_safe c \<longleftrightarrow> component_plain c \<or> c = CHR ''%''"

lemma pct_byte_chars: "x \<in> set (pct_byte c) \<Longrightarrow> is_alnum x \<or> x = CHR ''%''"
proof -
  have "(of_char c :: nat) < 256" by simp
  then have "(of_char c :: nat) div 16 < 16" by linarith
  then show "x \<in> set (pct_byte c) \<Longrightarrow> is_alnum x \<or> x = CHR ''%''"
    by (auto simp: pct_byte_def Let_def hex_upper_alnum)
qed

lemma form_plain_not: "form_plain c \<Longrightarrow> c \<noteq> CHR ''%'' \<and> c \<noteq> CHR ''+'' \<and> c \<noteq> CHR ''&'' \<and> c \<noteq> CHR ''=''"
proof -
  have "list_all (\<lambda>x. \<not> form_plain x) ''%+&=''" by code_simp
  then show "form_plain c \<Longrightarrow> c \<noteq> CHR ''%'' \<and> c \<noteq> CHR ''+'' \<and> c \<noteq> CHR ''&'' \<and> c \<noteq> CHR ''=''"
    by auto
qed

lemma component_plain_not: "component_plain c \<Longrightarrow> c \<notin> set ''%/?#&=''"
proof -
  have "list_all (\<lambda>x. \<not> component_plain x) ''%/?#&=''" by code_simp
  then show "component_plain c \<Longrightarrow> c \<notin> set ''%/?#&=''" by auto
qed

interpretation form: escape_codec form_char "pct_unescape True" form_safe
proof
  fix c rest
  show "pct_unescape True (form_char c @ rest) = Some (c, rest)"
    using form_plain_not [of c] by (auto simp: form_char_def pct_unescape_byte)
next
  show "pct_unescape True [] = None" by simp
next
  fix x c
  assume "x \<in> set (form_char c)"
  then show "form_safe x"
    using pct_byte_chars [of x c]
    by (auto simp: form_char_def form_safe_def form_plain_def split: if_splits)
qed

interpretation component: escape_codec component_char "pct_unescape False" component_safe
proof
  fix c rest
  show "pct_unescape False (component_char c @ rest) = Some (c, rest)"
    using component_plain_not [of c] by (auto simp: component_char_def pct_unescape_byte)
next
  show "pct_unescape False [] = None" by simp
next
  fix x c
  assume "x \<in> set (component_char c)"
  then show "component_safe x"
    using pct_byte_chars [of x c]
    by (auto simp: component_char_def component_safe_def component_plain_def split: if_splits)
qed

context escape_codec
begin

lemma decode_encode: "length (concat (map esc s)) \<le> n \<Longrightarrow> decode_with unesc n (concat (map esc s)) = s"
proof (induction s arbitrary: n)
  case Nil
  then show ?case by (cases n) (auto simp: unesc_nil)
next
  case (Cons c s)
  have "1 \<le> length (esc c)" using esc_ne [of c] by (cases "esc c") auto
  moreover have "length (esc c) + length (concat (map esc s)) \<le> n"
    using Cons.prems by simp
  ultimately obtain m where n: "n = Suc m" and m: "length (concat (map esc s)) \<le> m"
    by (cases n) auto
  then show ?case using Cons.IH [OF m] by (simp add: unesc_esc)
qed

end

lemma form_decode_encode [simp]: "form_decode (form_encode s) = s"
  by (simp add: form_decode_def form_encode_def form.decode_encode)

lemma decode_encode_component [simp]: "decodeURIComponent (encodeURIComponent s) = s"
  by (simp add: decodeURIComponent_def encodeURIComponent_def component.decode_encode)

lemma form_encode_chars: "x \<in> set (form_encode s) \<Longrightarrow> form_safe x"
  unfolding form_encode_def by (rule form.encode_safe)

lemma component_chars: "x \<in> set (encodeURIComponent s) \<Longrightarrow> component_safe x"
  unfolding encodeURIComponent_def by (rule component.encode_safe)

lemma form_encode_no_sep: "CHR ''&'' \<notin> set (form_encode s)" "CHR ''='' \<notin> set (form_encode s)"
  using form_encode_chars [of _ s] form_plain_not by (auto simp: form_safe_def)

section \<open>The query string carries exactly the parameters\<close>

lemma usp_set_new: "k \<notin> fst ` set es \<Longrightarrow> usp_set k v es = es @ [(k, v)]"
  by (induction es) auto

lemma qs_params_fold:
  assumes "distinct (map fst ps)" and "fst ` set ps \<inter> fst ` set es = {}"
  shows "fold (\<lambda>(k, v) es. if qs_sends v then usp_set k (to_string v) es else es) ps es
         = es @ map (\<lambda>(k, v). (k, to_string v)) (filter (\<lambda>(k, v). qs_sends v) ps)"
  using assms
proof (induction ps arbitrary: es)
  case Nil
  then show ?case by simp
next
  case (Cons p ps)
  obtain k v where p: "p = (k, v)" by (cases p)
  show ?case
  proof (cases "qs_sends v")
    case True
    have "fst ` set ps \<inter> fst ` set (es @ [(k, to_string v)]) = {}"
      using Cons.prems p by auto
    with Cons.prems Cons.IH [of "es @ [(k, to_string v)]"] p True show ?thesis
      by (simp add: usp_set_new)
  next
    case False
    with Cons.prems Cons.IH [of es] p show ?thesis by simp
  qed
qed

lemma qs_params_distinct:
  "distinct (obj_keys ps) \<Longrightarrow>
   qs_params ps = map (\<lambda>(k, v). (k, to_string v)) (filter (\<lambda>(k, v). qs_sends v) ps)"
  by (simp add: qs_params_def qs_params_fold obj_keys_def)

lemma index_of_append: "x \<notin> set s \<Longrightarrow> index_of x (s @ x # t) = Some (length s)"
  by (induction s) auto

lemma parse_pair_text: "parse_pair (form_encode k @ ''='' @ form_encode v) = (k, v)"
  using form_encode_no_sep by (simp add: parse_pair_def index_of_append)

lemma parse_usp_text:
  assumes "es \<noteq> []"
  shows "parse_query (CHR ''?'' # usp_text es) = es"
proof -
  let ?f = "\<lambda>(k, v). form_encode k @ ''='' @ form_encode v"
  have no: "CHR ''&'' \<notin> set s" if "s \<in> set (map ?f es)" for s
    using that form_encode_no_sep by auto
  have "split_on (CHR ''&'') (usp_text es) = map ?f es"
    unfolding usp_text_def by (rule split_join) (use assms no in simp_all)
  moreover have "nonempty (map ?f es) = map ?f es"
    by (rule nonempty_id) auto
  ultimately have "parse_query (CHR ''?'' # usp_text es) = map parse_pair (map ?f es)"
    by (simp add: parse_query_def)
  also have "\<dots> = es"
    using parse_pair_text by (simp add: comp_def split_beta)
  finally show ?thesis .
qed

lemma usp_text_eq_Nil: "usp_text es = [] \<longleftrightarrow> es = []"
proof (cases es rule: list.exhaust)
  case Nil
  then show ?thesis by (simp add: usp_text_def)
next
  case (Cons e es')
  then show ?thesis by (cases es') (auto simp: usp_text_def split: prod.splits)
qed

lemma parse_query_qs: "parse_query (qs ps) = qs_params ps"
proof (cases "qs_params ps = []")
  case True
  then show ?thesis by (simp add: qs_def usp_text_eq_Nil parse_query_def)
next
  case False
  then show ?thesis by (simp add: qs_def usp_text_eq_Nil parse_usp_text)
qed

definition query_safe :: "char \<Rightarrow> bool" where
  "query_safe c \<longleftrightarrow> form_safe c \<or> c = CHR ''&'' \<or> c = CHR ''=''"

lemma usp_text_safe: "x \<in> set (usp_text es) \<Longrightarrow> query_safe x"
  using set_join_with [of "''&''" "map (\<lambda>(k, v). form_encode k @ ''='' @ form_encode v) es"]
    form_encode_chars
  by (fastforce simp: usp_text_def query_safe_def)

lemma qs_shape: "qs ps = [] \<or> (\<exists>q. qs ps = CHR ''?'' # q \<and> (\<forall>c \<in> set q. query_safe c))"
  using usp_text_safe by (auto simp: qs_def Let_def)

section \<open>The property\<close>

text \<open>C23: What a server reads out of the query string \<open>qs\<close> writes is exactly the parameters that
  are there: one entry for each that is not \<open>undefined\<close>, \<open>null\<close> or empty, in order, under its name
  and with its value, whatever characters either has; \<open>false\<close> and \<open>0\<close> are values.\<close>

theorem qs_carries_parameters:
  assumes "distinct (obj_keys ps)"
  shows "parse_query (qs ps) =
           map (\<lambda>(k, v). (k, to_string v)) (filter (\<lambda>(k, v). v \<noteq> JUndef \<and> v \<noteq> JNull \<and> v \<noteq> JStr []) ps)"
  using assms by (simp add: parse_query_qs qs_params_distinct qs_sends_def)

theorem qs_carries_parameters_witness:
  "parse_query (qs [(''dn'', JStr ''OU=A&B, DC=x''), (''host'', JUndef), (''revoke'', JBool False)]) =
     [(''dn'', ''OU=A&B, DC=x''), (''revoke'', ''false'')]"
  by (subst qs_carries_parameters) (simp_all add: obj_keys_def)

end
