(* ===== verification/Api.thy ===== *)
theory Api
  imports Url
begin

text \<open>
  The request core of \<^verbatim>\<open>src/web/src/api.ts\<close>: the module's \<open>csrfToken\<close>, the function
  \<^verbatim>\<open>request\<close> (what goes out, and what an answer becomes), \<^verbatim>\<open>describeError\<close> with its helpers,
  and the three calls that write the token (\<^verbatim>\<open>login\<close>, \<^verbatim>\<open>session\<close>, \<^verbatim>\<open>logout\<close>).

  The network is not under \<^verbatim>\<open>src/web\<close>: an answer is an argument, \<open>None\<close> where \<open>fetch\<close>
  itself fails. A rejected promise is \<open>Inl\<close>; \<open>TypeErr\<close> is the exception the language raises
  for a member of \<open>undefined\<close> or a missing method.
\<close>

section \<open>Errors and answers\<close>

datatype (plugins only: code size) api_error =
    ApiErr int string  \<comment> \<open>class \<open>ApiError\<close>: status and message\<close>
  | NetworkErr
  | TypeErr

record response =
  status :: int
  statusText :: string
  json_body :: "jsval option"  \<comment> \<open>\<open>None\<close> where \<open>response.json()\<close> rejects\<close>

definition response_ok :: "response \<Rightarrow> bool" where
  "response_ok r \<longleftrightarrow> 200 \<le> status r \<and> status r \<le> 299"

section \<open>What goes out\<close>

text \<open>\<open>Headers\<close>: names are kept in lower case, \<open>set\<close> replaces.\<close>

type_synonym headers = "(string \<times> string) list"

fun headers_get :: "headers \<Rightarrow> string \<Rightarrow> string option" where
  "headers_get [] k = None"
| "headers_get ((k', v) # hs) k = (if k' = to_lower k then Some v else headers_get hs k)"

definition headers_set :: "string \<Rightarrow> string \<Rightarrow> headers \<Rightarrow> headers" where
  "headers_set k v hs = usp_set (to_lower k) v hs"

definition headers_of :: "headers \<Rightarrow> headers" where
  "headers_of hs = fold (\<lambda>(k, v). headers_set k v) hs []"

record init =
  init_method :: "string option"
  init_headers :: headers
  init_body :: "string option"

definition no_init :: init where
  "no_init = \<lparr>init_method = None, init_headers = [], init_body = None\<rparr>"

record http_request =
  rq_target :: string
  rq_method :: string
  rq_headers :: headers
  rq_body :: "string option"

text \<open>The first half of \<^verbatim>\<open>request\<close>, up to the call of \<open>fetch\<close>. An empty body is falsy.\<close>

definition build_request :: "jsval \<Rightarrow> string \<Rightarrow> init \<Rightarrow> http_request" where
  "build_request csrfToken path i =
     (let method = (case init_method i of None \<Rightarrow> ''GET'' | Some m \<Rightarrow> m);
          hs0 = headers_of (init_headers i);
          hs1 = (case init_body i of
                   Some b \<Rightarrow> if b \<noteq> [] then headers_set ''Content-Type'' ''application/json'' hs0 else hs0
                 | None \<Rightarrow> hs0);
          hs2 = (if method \<noteq> ''GET'' \<and> truthy csrfToken
                 then headers_set ''X-ODM-CSRF'' (to_string csrfToken) hs1 else hs1)
      in \<lparr>rq_target = ''/api/v1'' @ path, rq_method = method, rq_headers = hs2, rq_body = init_body i\<rparr>)"

text \<open>\<open>const json = (body) => ({ method: "POST", body: JSON.stringify(body) })\<close>\<close>

definition json_init :: "jsval \<Rightarrow> init" where
  "json_init body = \<lparr>init_method = Some ''POST'', init_headers = [], init_body = Some (json_text body)\<rparr>"

section \<open>What went wrong, as a sentence\<close>

definition FIELD_LABELS :: "(string \<times> string) list" where
  "FIELD_LABELS =
     [(''node_fqdn'', ''server''),
      (''owner_group'', ''owning group''),
      (''unc'', ''share''),
      (''sam_account_name'', ''logon name''),
      (''hw_address'', ''hardware address''),
      (''ip_address'', ''IP address''),
      (''subnet_id'', ''scope''),
      (''for_principal'', ''for user or group''),
      (''mount_point'', ''mount point'')]"

definition fieldLabel :: "string \<Rightarrow> string" where
  "fieldLabel field =
     (let spelled = (case map_of FIELD_LABELS field of
                       Some l \<Rightarrow> l
                     | None \<Rightarrow> replace_char (CHR ''_'') (CHR '' '') field)
      in capitalise spelled)"

definition value_error_prefix :: string where
  "value_error_prefix = ''Value error, ''"

definition strip_value_error :: "string \<Rightarrow> string" where
  "strip_value_error m =
     (if js_startsWith m value_error_prefix then drop (length value_error_prefix) m else m)"

fun loc_names :: "jsval list \<Rightarrow> string list" where
  "loc_names [] = []"
| "loc_names (JStr s # vs) =
     (if s \<noteq> ''body'' \<and> s \<noteq> ''query'' then s # loc_names vs else loc_names vs)"
| "loc_names (v # vs) = loc_names vs"

fun loc_index :: "jsval list \<Rightarrow> int option" where
  "loc_index [] = None"
| "loc_index (JNum n # vs) = Some n"
| "loc_index (v # vs) = loc_index vs"

definition last_name :: "string list \<Rightarrow> string" where
  \<comment> \<open>\<open>names[names.length - 1]\<close>; the caller treats \<open>undefined\<close> and \<open>""\<close> alike\<close>
  "last_name ns = (if ns = [] then [] else last ns)"

text \<open>The sentence for one field, once \<open>loc\<close> and \<open>msg\<close> are read.\<close>

definition validation_sentence :: "jsval list \<Rightarrow> string \<Rightarrow> string" where
  "validation_sentence loc msg =
     (let message = strip_value_error msg;
          field = last_name (loc_names loc);
          place = (case loc_index loc of
                     None \<Rightarrow> []
                   | Some i \<Rightarrow> '' (entry '' @ show_int (i + 1) @ '')'')
      in if field = [] then message
         else fieldLabel field @ place @ '': '' @ (if message = [] then ''is not valid'' else message))"

definition describeValidation :: "jsval \<Rightarrow> string option" where
  "describeValidation entry =
     (case (member entry ''msg'', member entry ''loc'') of
        (Some m, Some l) \<Rightarrow>
          (case (or_else m (JStr []), or_else l (JArr [])) of
             (JStr msg, JArr loc) \<Rightarrow> Some (validation_sentence loc msg)
           | _ \<Rightarrow> None)
      | _ \<Rightarrow> None)"

fun describe_all :: "jsval list \<Rightarrow> string list option" where
  "describe_all [] = Some []"
| "describe_all (e # es) =
     (case describeValidation e of
        None \<Rightarrow> None
      | Some m \<Rightarrow> (case describe_all es of None \<Rightarrow> None | Some ms \<Rightarrow> Some (m # ms)))"

definition describeError :: "jsval \<Rightarrow> string \<Rightarrow> string option" where
  "describeError body fallback =
     (case member body ''detail'' of
        None \<Rightarrow> None
      | Some (JStr s) \<Rightarrow> Some (if s \<noteq> [] then s else fallback)
      | Some (JArr es) \<Rightarrow>
          (case describe_all es of
             None \<Rightarrow> None
           | Some ms \<Rightarrow>
               (let messages = nonempty ms in
                Some (if length messages > 0 then join_with ''. '' messages else fallback)))
      | Some _ \<Rightarrow> Some fallback)"

section \<open>What an answer becomes\<close>

text \<open>The second half of \<^verbatim>\<open>request\<close>.\<close>

definition request_result :: "response option \<Rightarrow> api_error + jsval" where
  "request_result answer =
     (case answer of
        None \<Rightarrow> Inl NetworkErr
      | Some r \<Rightarrow>
          if status r = 204 then Inr JUndef
          else
            (let body = (case json_body r of Some v \<Rightarrow> v | None \<Rightarrow> JObj [])
             in if \<not> response_ok r then
                  (case describeError body (statusText r) of
                     None \<Rightarrow> Inl TypeErr
                   | Some m \<Rightarrow> Inl (ApiErr (status r) m))
                else Inr body))"

section \<open>The token and the calls that write it\<close>

record api_state =
  csrf :: jsval

definition api_start :: api_state where
  "api_start = \<lparr>csrf = JStr []\<rparr>"

text \<open>\<^verbatim>\<open>remember\<close>: \<open>csrfToken = session.csrf_token; return session\<close>.\<close>

definition remember :: "jsval \<Rightarrow> api_state \<Rightarrow> (api_error + jsval) \<times> api_state" where
  "remember session s =
     (case member session ''csrf_token'' of
        None \<Rightarrow> (Inl TypeErr, s)
      | Some t \<Rightarrow> (Inr session, s\<lparr>csrf := t\<rparr>))"

definition then_remember :: "response option \<Rightarrow> api_state \<Rightarrow> (api_error + jsval) \<times> api_state" where
  "then_remember answer s =
     (case request_result answer of Inl e \<Rightarrow> (Inl e, s) | Inr v \<Rightarrow> remember v s)"

definition api_login :: "string \<Rightarrow> string \<Rightarrow> jsval \<Rightarrow> string \<times> init" where
  "api_login username password code =
     (''/auth/login'',
      json_init (JObj [(''username'', JStr username), (''password'', JStr password), (''code'', code)]))"

definition api_session :: "string \<times> init" where
  "api_session = (''/auth/session'', no_init)"

definition api_logout :: "string \<times> init" where
  "api_logout = (''/auth/logout'', no_init\<lparr>init_method := Some ''POST''\<rparr>)"

definition logout_done :: "response option \<Rightarrow> api_state \<Rightarrow> (api_error + jsval) \<times> api_state" where
  "logout_done answer s =
     (case request_result answer of
        Inl e \<Rightarrow> (Inl e, s)
      | Inr _ \<Rightarrow> (Inr JUndef, s\<lparr>csrf := JStr []\<rparr>))"

text \<open>The module's life: the answers these calls got, in order.\<close>

datatype (plugins only: code size) api_event = LoginAnswer "response option" | SessionAnswer "response option" | LogoutAnswer "response option"

fun api_step :: "api_event \<Rightarrow> api_state \<Rightarrow> api_state" where
  "api_step (LoginAnswer a) s = snd (then_remember a s)"
| "api_step (SessionAnswer a) s = snd (then_remember a s)"
| "api_step (LogoutAnswer a) s = snd (logout_done a s)"

section \<open>Facts\<close>

lemma headers_get_set_same [simp]: "to_lower k' = to_lower k \<Longrightarrow> headers_get (headers_set k v hs) k' = Some v"
  unfolding headers_set_def by (induction hs) auto

lemma headers_get_filter: "to_lower k' \<noteq> n \<Longrightarrow> headers_get (filter (\<lambda>e. fst e \<noteq> n) hs) k' = headers_get hs k'"
  by (induction hs) auto

lemma headers_get_set_other [simp, js_frame]:
  "to_lower k' \<noteq> to_lower k \<Longrightarrow> headers_get (headers_set k v hs) k' = headers_get hs k'"
  unfolding headers_set_def by (induction hs) (auto simp: headers_get_filter)

lemma header_names_differ:
  "to_lower ''X-ODM-CSRF'' \<noteq> to_lower ''Content-Type''"
  by (simp add: to_lower_def lower_char_def is_upper_def less_eq_char_def)

lemma build_request_fields [simp]:
  "rq_target (build_request t p i) = ''/api/v1'' @ p"
  "rq_method (build_request t p i) = (case init_method i of None \<Rightarrow> ''GET'' | Some m \<Rightarrow> m)"
  "rq_body (build_request t p i) = init_body i"
  by (simp_all add: build_request_def Let_def)

lemma build_request_csrf:
  "headers_get (rq_headers (build_request t p i)) ''X-ODM-CSRF'' =
     (if rq_method (build_request t p i) \<noteq> ''GET'' \<and> truthy t then Some (to_string t)
      else headers_get (headers_of (init_headers i)) ''X-ODM-CSRF'')"
  using header_names_differ by (auto simp: build_request_def Let_def split: option.split)

lemma build_request_content_type:
  "init_body i = Some b \<Longrightarrow> b \<noteq> [] \<Longrightarrow>
   headers_get (rq_headers (build_request t p i)) ''Content-Type'' = Some ''application/json''"
  using header_names_differ by (auto simp: build_request_def Let_def)

lemma describe_all_Some:
  "describe_all es = Some ms \<Longrightarrow> length ms = length es \<and> (\<forall>i < length es. describeValidation (es ! i) = Some (ms ! i))"
proof (induction es arbitrary: ms)
  case Nil
  then show ?case by simp
next
  case (Cons e es)
  then obtain m ms' where m: "describeValidation e = Some m" "describe_all es = Some ms'" "ms = m # ms'"
    by (auto split: option.splits)
  with Cons.IH [OF m(2)] show ?case by (auto simp: nth_Cons split: nat.split)
qed

lemma describe_all_None: "describe_all es = None \<longleftrightarrow> (\<exists>e \<in> set es. describeValidation e = None)"
  by (induction es) (auto split: option.splits)

lemma join_with_eq_Nil: "join_with sep ss = [] \<longleftrightarrow> ss = [] \<or> ss = [[]] \<or> (sep = [] \<and> (\<forall>s \<in> set ss. s = []))"
  by (induction sep ss rule: join_with.induct) auto

lemma join_with_includes: "s \<in> set ss \<Longrightarrow> js_includes (join_with sep ss) s"
proof (induction sep ss rule: join_with.induct)
  case (3 sep a b ss)
  show ?case
  proof (cases "s = a")
    case True
    then show ?thesis by (auto simp: js_includes_iff)
  next
    case False
    with 3 have "js_includes (join_with sep (b # ss)) s" by simp
    then obtain u v where "join_with sep (b # ss) = u @ s @ v" by (auto simp: js_includes_iff)
    then have "join_with sep (a # b # ss) = (a @ sep @ u) @ s @ v" by simp
    then show ?thesis unfolding js_includes_iff by blast
  qed
next
  case (2 sep t)
  then show ?case by (auto simp: js_includes_iff intro: exI [of _ "[]"])
qed simp

lemma js_includes_trans: "js_includes a b \<Longrightarrow> js_includes b c \<Longrightarrow> js_includes a c"
proof -
  assume "js_includes a b" and "js_includes b c"
  then obtain u v w x where "a = u @ b @ v" and "b = w @ c @ x"
    by (auto simp: js_includes_iff)
  then have "a = (u @ w) @ c @ (x @ v)" by simp
  then show "js_includes a c" unfolding js_includes_iff by blast
qed

text \<open>The shape of a rejected value, as the API's validation answers have it.\<close>

definition validation_entry :: "jsval \<Rightarrow> bool" where
  "validation_entry e =
     (case e of
        JObj ps \<Rightarrow>
          (case (obj_get ps ''msg'', obj_get ps ''loc'') of
             (JStr _, JArr _) \<Rightarrow> True
           | (JUndef, JArr _) \<Rightarrow> True
           | (JStr _, JUndef) \<Rightarrow> True
           | _ \<Rightarrow> False)
      | _ \<Rightarrow> False)"

lemma validation_entry_described: "validation_entry e \<Longrightarrow> \<exists>m. describeValidation e = Some m"
  by (auto simp: validation_entry_def describeValidation_def or_else_def split: jsval.splits)

lemma request_result_cases:
  "request_result answer =
     (case answer of
        None \<Rightarrow> Inl NetworkErr
      | Some r \<Rightarrow>
          if status r = 204 then Inr JUndef
          else if response_ok r then Inr (case json_body r of Some v \<Rightarrow> v | None \<Rightarrow> JObj [])
          else (case describeError (case json_body r of Some v \<Rightarrow> v | None \<Rightarrow> JObj []) (statusText r) of
                  None \<Rightarrow> Inl TypeErr | Some m \<Rightarrow> Inl (ApiErr (status r) m)))"
  by (simp add: request_result_def Let_def split: option.split)

end
