(* ===== verification/Endpoints.thy ===== *)
theory Endpoints
  imports Api
begin

text \<open>
  The calls of the object \<open>api\<close> of \<^verbatim>\<open>src/web/src/api.ts\<close>: one datatype per namespace of the
  object, one constructor per method with the method's arguments, and one function that gives
  the path and the \<open>RequestInit\<close> the method hands to \<^verbatim>\<open>request\<close>. An argument that is an object
  passed on whole is a value, an optional one an option, and an argument with a default is
  explicit. The namespace \<open>servers\<close> is in two parts (\<open>servers\<close>, \<open>machines\<close>). The addresses the
  browser opens by itself (downloads and web sockets) are definitions of their own.
\<close>

section \<open>The shapes of a call\<close>

definition get_call :: "string \<Rightarrow> string \<times> init" where
  "get_call path = (path, no_init)"

definition post_call :: "string \<Rightarrow> jsval \<Rightarrow> string \<times> init" where
  "post_call path body = (path, json_init body)"

text \<open>\<open>{ method, body: JSON.stringify(body) }\<close>, also written \<open>{ ...json(body), method }\<close>.\<close>

definition body_call :: "string \<Rightarrow> string \<Rightarrow> jsval \<Rightarrow> string \<times> init" where
  "body_call method path body = (path, (json_init body)\<lparr>init_method := Some method\<rparr>)"

definition delete_call :: "string \<Rightarrow> string \<times> init" where
  "delete_call path = (path, no_init\<lparr>init_method := Some ''DELETE''\<rparr>)"

text \<open>\<open>{ method: "POST" }\<close>, with no body.\<close>

definition bare_post :: "string \<Rightarrow> string \<times> init" where
  "bare_post path = (path, no_init\<lparr>init_method := Some ''POST''\<rparr>)"

definition opt :: "string option \<Rightarrow> jsval" where
  "opt s = (case s of None \<Rightarrow> JUndef | Some t \<Rightarrow> JStr t)"

definition strs :: "string list \<Rightarrow> jsval" where
  "strs ss = JArr (map JStr ss)"

section \<open>The namespaces\<close>

datatype (plugins only: code size) directory_call =
    Dir_bulk jsval
  | Dir_groupQueries
  | Dir_saveGroupQuery jsval
  | Dir_removeGroupQuery string
  | Dir_tree
  | Dir_list jsobj
  | Dir_get string
  | Dir_membership string
  | Dir_createUser jsval
  | Dir_bulkUsers "jsval list"
  | Dir_createGroup jsval
  | Dir_setGroupKind string string
  | Dir_createComputer jsval
  | Dir_createOu jsval
  | Dir_update string jsobj
  | Dir_move string string "string option"
  | Dir_setEnabled string bool
  | Dir_offboard jsval
  | Dir_setPassword string string bool
  | Dir_secondFactor string
  | Dir_resetSecondFactor string
  | Dir_setPhoto string string
  | Dir_editMembers string "string list" "string list"
  | Dir_remove string

fun directory_request :: "directory_call \<Rightarrow> string \<times> init" where
  "directory_request (Dir_bulk body) =
     post_call ''/directory/objects/bulk'' body"
| "directory_request Dir_groupQueries =
     get_call ''/directory/groups/queries''"
| "directory_request (Dir_saveGroupQuery body) =
     body_call ''PUT'' ''/directory/groups/query'' body"
| "directory_request (Dir_removeGroupQuery group_dn) =
     delete_call (''/directory/groups/query'' @ qs [(''group_dn'', JStr group_dn)])"
| "directory_request Dir_tree =
     get_call ''/directory/tree''"
| "directory_request (Dir_list params) =
     get_call (''/directory/objects'' @ qs params)"
| "directory_request (Dir_get dn) =
     get_call (''/directory/object'' @ qs [(''dn'', JStr dn)])"
| "directory_request (Dir_membership dn) =
     get_call (''/directory/membership'' @ qs [(''dn'', JStr dn)])"
| "directory_request (Dir_createUser body) =
     post_call ''/directory/users'' body"
| "directory_request (Dir_bulkUsers users) =
     post_call ''/directory/users/bulk'' (JObj [(''users'', JArr users)])"
| "directory_request (Dir_createGroup body) =
     post_call ''/directory/groups'' body"
| "directory_request (Dir_setGroupKind dn kind) =
     post_call ''/directory/group/kind'' (JObj [(''dn'', JStr dn), (''kind'', JStr kind)])"
| "directory_request (Dir_createComputer body) =
     post_call ''/directory/computers'' body"
| "directory_request (Dir_createOu body) =
     post_call ''/directory/ous'' body"
| "directory_request (Dir_update dn changes) =
     body_call ''PATCH'' ''/directory/object'' (JObj [(''dn'', JStr dn), (''changes'', JObj changes)])"
| "directory_request (Dir_move dn target_container new_name) =
     post_call ''/directory/object/move'' (JObj [(''dn'', JStr dn), (''target_container'', JStr target_container), (''new_name'', opt new_name)])"
| "directory_request (Dir_setEnabled dn enabled) =
     post_call ''/directory/object/enabled'' (JObj [(''dn'', JStr dn), (''enabled'', JBool enabled)])"
| "directory_request (Dir_offboard body) =
     post_call ''/directory/user/offboard'' body"
| "directory_request (Dir_setPassword dn password must_change) =
     post_call ''/directory/user/password'' (JObj [(''dn'', JStr dn), (''password'', JStr password), (''must_change'', JBool must_change)])"
| "directory_request (Dir_secondFactor dn) =
     get_call (''/directory/user/second-factor'' @ qs [(''dn'', JStr dn)])"
| "directory_request (Dir_resetSecondFactor dn) =
     post_call ''/directory/user/second-factor/reset'' (JObj [(''dn'', JStr dn)])"
| "directory_request (Dir_setPhoto dn photo) =
     post_call ''/directory/user/photo'' (JObj [(''dn'', JStr dn), (''photo'', JStr photo)])"
| "directory_request (Dir_editMembers dn add remove) =
     post_call ''/directory/group/members'' (JObj [(''dn'', JStr dn), (''add'', strs add), (''remove'', strs remove)])"
| "directory_request (Dir_remove dn) =
     delete_call (''/directory/object'' @ qs [(''dn'', JStr dn)])"

datatype (plugins only: code size) policy_call =
    Pol_list
  | Pol_model jsval
  | Pol_revisions string
  | Pol_rollback string
  | Pol_get string
  | Pol_export "string option"
  | Pol_import jsval
  | Pol_create string string
  | Pol_update jsval
  | Pol_remove string
  | Pol_links "string option"
  | Pol_link string string
  | Pol_updateLink jsval
  | Pol_unlink string
  | Pol_setInheritance string bool
  | Pol_effective string
  | Pol_reports "string option"
  | Pol_sessionReports string

fun policy_request :: "policy_call \<Rightarrow> string \<times> init" where
  "policy_request Pol_list =
     get_call ''/policy/gpos''"
| "policy_request (Pol_model body) =
     post_call ''/policy/model'' body"
| "policy_request (Pol_revisions guid) =
     get_call (''/policy/gpo/revisions'' @ qs [(''guid'', JStr guid)])"
| "policy_request (Pol_rollback revision_id) =
     post_call ''/policy/gpo/rollback'' (JObj [(''revision_id'', JStr revision_id)])"
| "policy_request (Pol_get guid) =
     get_call (''/policy/gpo'' @ qs [(''guid'', JStr guid)])"
| "policy_request (Pol_export guid) =
     get_call (''/policy/gpo/export'' @ (case guid of Some g \<Rightarrow> if g \<noteq> [] then qs [(''guid'', JStr g)] else [] | None \<Rightarrow> []))"
| "policy_request (Pol_import body) =
     post_call ''/policy/gpos/import'' body"
| "policy_request (Pol_create display_name description) =
     post_call ''/policy/gpos'' (JObj [(''display_name'', JStr display_name), (''description'', JStr description)])"
| "policy_request (Pol_update body) =
     body_call ''PATCH'' ''/policy/gpo'' body"
| "policy_request (Pol_remove guid) =
     delete_call (''/policy/gpo'' @ qs [(''guid'', JStr guid)])"
| "policy_request (Pol_links target_dn) =
     get_call (''/policy/links'' @ qs [(''target_dn'', opt target_dn)])"
| "policy_request (Pol_link gpo_guid target_dn) =
     post_call ''/policy/links'' (JObj [(''gpo_guid'', JStr gpo_guid), (''target_dn'', JStr target_dn)])"
| "policy_request (Pol_updateLink body) =
     body_call ''PATCH'' ''/policy/link'' body"
| "policy_request (Pol_unlink id') =
     delete_call (''/policy/link'' @ qs [(''id'', JStr id')])"
| "policy_request (Pol_setInheritance ou_dn block_inheritance) =
     post_call ''/policy/inheritance'' (JObj [(''ou_dn'', JStr ou_dn), (''block_inheritance'', JBool block_inheritance)])"
| "policy_request (Pol_effective dn) =
     get_call (''/policy/effective'' @ qs [(''dn'', JStr dn)])"
| "policy_request (Pol_reports computer_dn) =
     get_call (''/policy/reports'' @ qs [(''computer_dn'', opt computer_dn)])"
| "policy_request (Pol_sessionReports username) =
     get_call (''/policy/reports'' @ qs [(''username'', JStr username)])"

datatype (plugins only: code size) admx_call =
    Admx_templates
  | Admx_upload string string "string option"
  | Admx_removeTemplate string
  | Admx_categories
  | Admx_policies "string option" "string option" "bool option"

fun admx_request :: "admx_call \<Rightarrow> string \<times> init" where
  "admx_request Admx_templates =
     get_call ''/admx/templates''"
| "admx_request (Admx_upload file_name admxB64 admlB64) =
     post_call ''/admx/templates'' (JObj [(''file_name'', JStr file_name), (''admx'', JStr admxB64), (''adml'', opt admlB64)])"
| "admx_request (Admx_removeTemplate id') =
     delete_call (''/admx/template'' @ qs [(''id'', JStr id')])"
| "admx_request Admx_categories =
     get_call ''/admx/categories''"
| "admx_request (Admx_policies query category applicable_only) =
     get_call (''/admx/policies'' @ qs [(''query'', opt query), (''category'', opt category), (''applicable_only'', if applicable_only = Some False then JStr ''false'' else JUndef)])"

datatype (plugins only: code size) packages_call =
    Pkg_list
  | Pkg_upload string string string
  | Pkg_remove string

fun packages_request :: "packages_call \<Rightarrow> string \<times> init" where
  "packages_request Pkg_list =
     get_call ''/packages''"
| "packages_request (Pkg_upload name file_name contentB64) =
     post_call ''/packages'' (JObj [(''name'', JStr name), (''file_name'', JStr file_name), (''content'', JStr contentB64)])"
| "packages_request (Pkg_remove id') =
     delete_call (''/packages/'' @ id')"

datatype (plugins only: code size) dns_call =
    Dns_status
  | Dns_zones
  | Dns_zone string
  | Dns_createReverseZone string
  | Dns_createZone string
  | Dns_deleteZone string
  | Dns_addRecord jsval
  | Dns_updateRecord jsval
  | Dns_deleteRecord string string string string

fun dns_request :: "dns_call \<Rightarrow> string \<times> init" where
  "dns_request Dns_status =
     get_call ''/dns/status''"
| "dns_request Dns_zones =
     get_call ''/dns/zones''"
| "dns_request (Dns_zone zone) =
     get_call (''/dns/zone'' @ qs [(''zone'', JStr zone)])"
| "dns_request (Dns_createReverseZone network) =
     post_call ''/dns/zones/reverse'' (JObj [(''network'', JStr network)])"
| "dns_request (Dns_createZone zone) =
     post_call ''/dns/zones'' (JObj [(''zone'', JStr zone)])"
| "dns_request (Dns_deleteZone zone) =
     delete_call (''/dns/zone'' @ qs [(''zone'', JStr zone)])"
| "dns_request (Dns_addRecord body) =
     post_call ''/dns/records'' body"
| "dns_request (Dns_updateRecord body) =
     body_call ''PATCH'' ''/dns/record'' body"
| "dns_request (Dns_deleteRecord zone name typ data') =
     delete_call (''/dns/record'' @ qs [(''zone'', JStr zone), (''name'', JStr name), (''type'', JStr typ), (''data'', JStr data')])"

datatype (plugins only: code size) dhcp_call =
    Dhcp_status
  | Dhcp_scopes
  | Dhcp_defaults
  | Dhcp_createScope jsval
  | Dhcp_updateScope jsval
  | Dhcp_deleteScope int
  | Dhcp_addReservation jsval
  | Dhcp_deleteReservation int string
  | Dhcp_leases

fun dhcp_request :: "dhcp_call \<Rightarrow> string \<times> init" where
  "dhcp_request Dhcp_status =
     get_call ''/dhcp/status''"
| "dhcp_request Dhcp_scopes =
     get_call ''/dhcp/scopes''"
| "dhcp_request Dhcp_defaults =
     get_call ''/dhcp/defaults''"
| "dhcp_request (Dhcp_createScope body) =
     post_call ''/dhcp/scopes'' body"
| "dhcp_request (Dhcp_updateScope body) =
     body_call ''PATCH'' ''/dhcp/scope'' body"
| "dhcp_request (Dhcp_deleteScope id') =
     delete_call (''/dhcp/scope'' @ qs [(''id'', JNum id')])"
| "dhcp_request (Dhcp_addReservation body) =
     post_call ''/dhcp/reservations'' body"
| "dhcp_request (Dhcp_deleteReservation subnet_id hw_address) =
     delete_call (''/dhcp/reservation'' @ qs [(''subnet_id'', JNum subnet_id), (''hw_address'', JStr hw_address)])"
| "dhcp_request Dhcp_leases =
     get_call ''/dhcp/leases''"

datatype (plugins only: code size) recyclebin_call =
    Bin_list "string option" "string option" "bool option"
  | Bin_item string
  | Bin_restore string "string option"
  | Bin_purge string

fun recyclebin_request :: "recyclebin_call \<Rightarrow> string \<times> init" where
  "recyclebin_request (Bin_list query object_type include_restored) =
     get_call (''/recyclebin'' @ qs [(''query'', opt query), (''object_type'', opt object_type), (''include_restored'', if include_restored = Some True then JStr ''true'' else JUndef)])"
| "recyclebin_request (Bin_item id') =
     get_call (''/recyclebin/item'' @ qs [(''id'', JStr id')])"
| "recyclebin_request (Bin_restore id' container) =
     post_call ''/recyclebin/restore'' (JObj [(''id'', JStr id'), (''container'', opt container)])"
| "recyclebin_request (Bin_purge id') =
     delete_call (''/recyclebin/item'' @ qs [(''id'', JStr id')])"

datatype (plugins only: code size) roles_call =
    Role_list
  | Role_instance string
  | Role_install string string jsobj
  | Role_remove string

fun roles_request :: "roles_call \<Rightarrow> string \<times> init" where
  "roles_request Role_list =
     get_call ''/roles''"
| "roles_request (Role_instance id') =
     get_call (''/roles/instance'' @ qs [(''id'', JStr id')])"
| "roles_request (Role_install role node_fqdn config) =
     post_call ''/roles/install'' (JObj [(''role'', JStr role), (''node_fqdn'', JStr node_fqdn), (''config'', JObj config)])"
| "roles_request (Role_remove id') =
     delete_call (''/roles/instance'' @ qs [(''id'', JStr id')])"

datatype (plugins only: code size) controllers_call =
    Ctl_list
  | Ctl_joinCommand string bool string
  | Ctl_replication "string option"
  | Ctl_agents
  | Ctl_setAgents jsval
  | Ctl_joinSettings
  | Ctl_setJoinSettings jsval

fun controllers_request :: "controllers_call \<Rightarrow> string \<times> init" where
  "controllers_request Ctl_list =
     get_call ''/controllers''"
| "controllers_request (Ctl_joinCommand hostname read_only site) =
     get_call (''/controllers/join-command'' @ qs [(''hostname'', JStr hostname), (''read_only'', JBool read_only), (''site'', JStr site)])"
| "controllers_request (Ctl_replication server) =
     get_call (''/controllers/replication'' @ qs [(''server'', opt server)])"
| "controllers_request Ctl_agents =
     get_call ''/controllers/agents''"
| "controllers_request (Ctl_setAgents body) =
     body_call ''PUT'' ''/controllers/agents'' body"
| "controllers_request Ctl_joinSettings =
     get_call ''/controllers/join-settings''"
| "controllers_request (Ctl_setJoinSettings body) =
     body_call ''PUT'' ''/controllers/join-settings'' body"

datatype (plugins only: code size) radius_call =
    Radius_overview
  | Radius_preview
  | Radius_addClient jsval
  | Radius_removeClient string
  | Radius_addPolicy jsval
  | Radius_removePolicy string

fun radius_request :: "radius_call \<Rightarrow> string \<times> init" where
  "radius_request Radius_overview =
     get_call ''/radius''"
| "radius_request Radius_preview =
     get_call ''/radius/preview''"
| "radius_request (Radius_addClient body) =
     post_call ''/radius/clients'' body"
| "radius_request (Radius_removeClient id') =
     delete_call (''/radius/clients'' @ qs [(''id'', JStr id')])"
| "radius_request (Radius_addPolicy body) =
     post_call ''/radius/policies'' body"
| "radius_request (Radius_removePolicy id') =
     delete_call (''/radius/policies'' @ qs [(''id'', JStr id')])"

datatype (plugins only: code size) auth2fa_call =
    Auth_state
  | Auth_begin
  | Auth_confirm string
  | Auth_remove string
  | Auth_pushState
  | Auth_pushBegin
  | Auth_pushTest
  | Auth_pushRemove string

fun auth2fa_request :: "auth2fa_call \<Rightarrow> string \<times> init" where
  "auth2fa_request Auth_state =
     get_call ''/auth/second-factor''"
| "auth2fa_request Auth_begin =
     post_call ''/auth/second-factor'' (JObj [])"
| "auth2fa_request (Auth_confirm code) =
     post_call ''/auth/second-factor/confirm'' (JObj [(''code'', JStr code)])"
| "auth2fa_request (Auth_remove code) =
     body_call ''DELETE'' ''/auth/second-factor'' (JObj [(''code'', JStr code)])"
| "auth2fa_request Auth_pushState =
     get_call ''/auth/second-factor/push''"
| "auth2fa_request Auth_pushBegin =
     post_call ''/auth/second-factor/push'' (JObj [])"
| "auth2fa_request Auth_pushTest =
     post_call ''/auth/second-factor/push/test'' (JObj [])"
| "auth2fa_request (Auth_pushRemove code) =
     body_call ''DELETE'' ''/auth/second-factor/push'' (JObj [(''code'', JStr code)])"

datatype (plugins only: code size) sites_call =
    Site_list
  | Site_create string string
  | Site_remove string
  | Site_addSubnet string string string
  | Site_removeSubnet string
  | Site_assign string string string

fun sites_request :: "sites_call \<Rightarrow> string \<times> init" where
  "sites_request Site_list =
     get_call ''/controllers/sites''"
| "sites_request (Site_create name description) =
     post_call ''/controllers/sites'' (JObj [(''name'', JStr name), (''description'', JStr description)])"
| "sites_request (Site_remove name) =
     delete_call (''/controllers/sites'' @ qs [(''name'', JStr name)])"
| "sites_request (Site_addSubnet cidr site_name description) =
     post_call ''/controllers/sites/subnets'' (JObj [(''cidr'', JStr cidr), (''site_name'', JStr site_name), (''description'', JStr description)])"
| "sites_request (Site_removeSubnet cidr) =
     delete_call (''/controllers/sites/subnets'' @ qs [(''cidr'', JStr cidr)])"
| "sites_request (Site_assign controller_dn site_name hostname) =
     post_call ''/controllers/sites/controllers'' (JObj [(''controller_dn'', JStr controller_dn), (''site_name'', JStr site_name), (''hostname'', JStr hostname)])"

datatype (plugins only: code size) rd_call =
    Rd_list
  | Rd_sessions
  | Rd_create jsval
  | Rd_update jsval
  | Rd_remove string
  | Rd_addHost string string
  | Rd_removeHost string string
  | Rd_drain string string bool
  | Rd_profiles string
  | Rd_manageProfile jsval

fun rd_request :: "rd_call \<Rightarrow> string \<times> init" where
  "rd_request Rd_list =
     get_call ''/rd''"
| "rd_request Rd_sessions =
     get_call ''/rd/sessions''"
| "rd_request (Rd_create body) =
     post_call ''/rd'' body"
| "rd_request (Rd_update body) =
     body_call ''PATCH'' ''/rd'' body"
| "rd_request (Rd_remove id') =
     delete_call (''/rd'' @ qs [(''id'', JStr id')])"
| "rd_request (Rd_addHost collection_id node_fqdn) =
     post_call ''/rd/hosts'' (JObj [(''collection_id'', JStr collection_id), (''node_fqdn'', JStr node_fqdn)])"
| "rd_request (Rd_removeHost collection_id node_fqdn) =
     delete_call (''/rd/hosts'' @ qs [(''collection_id'', JStr collection_id), (''node_fqdn'', JStr node_fqdn)])"
| "rd_request (Rd_drain collection_id node_fqdn accepts_new) =
     body_call ''PATCH'' ''/rd/hosts/drain'' (JObj [(''collection_id'', JStr collection_id), (''node_fqdn'', JStr node_fqdn), (''accepts_new'', JBool accepts_new)])"
| "rd_request (Rd_profiles node) =
     get_call (''/rd/profiles'' @ qs [(''node'', JStr node)])"
| "rd_request (Rd_manageProfile body) =
     post_call ''/rd/profiles'' body"

datatype (plugins only: code size) printers_call =
    Prn_discover string
  | Prn_devices string
  | Prn_list
  | Prn_create jsval
  | Prn_update jsval
  | Prn_remove string
  | Prn_test string
  | Prn_testResult string

fun printers_request :: "printers_call \<Rightarrow> string \<times> init" where
  "printers_request (Prn_discover node) =
     get_call (''/printers/discover'' @ qs [(''node'', JStr node)])"
| "printers_request (Prn_devices node_fqdn) =
     get_call (''/printers/devices'' @ qs [(''node_fqdn'', JStr node_fqdn)])"
| "printers_request Prn_list =
     get_call ''/printers''"
| "printers_request (Prn_create body) =
     post_call ''/printers'' body"
| "printers_request (Prn_update body) =
     body_call ''PATCH'' ''/printers'' body"
| "printers_request (Prn_remove id') =
     delete_call (''/printers'' @ qs [(''id'', JStr id')])"
| "printers_request (Prn_test id') =
     bare_post (''/printers/test'' @ qs [(''id'', JStr id')])"
| "printers_request (Prn_testResult task_id) =
     get_call (''/printers/test'' @ qs [(''task_id'', JStr task_id)])"

datatype (plugins only: code size) vpn_call =
    Vpn_list
  | Vpn_create jsval
  | Vpn_update jsval
  | Vpn_remove string
  | Vpn_peers string
  | Vpn_addPeer jsval
  | Vpn_removePeer string

fun vpn_request :: "vpn_call \<Rightarrow> string \<times> init" where
  "vpn_request Vpn_list =
     get_call ''/vpn''"
| "vpn_request (Vpn_create body) =
     post_call ''/vpn'' body"
| "vpn_request (Vpn_update body) =
     body_call ''PATCH'' ''/vpn'' body"
| "vpn_request (Vpn_remove id') =
     delete_call (''/vpn'' @ qs [(''id'', JStr id')])"
| "vpn_request (Vpn_peers tunnel_id) =
     get_call (''/vpn/peers'' @ qs [(''tunnel_id'', JStr tunnel_id)])"
| "vpn_request (Vpn_addPeer body) =
     post_call ''/vpn/peers'' body"
| "vpn_request (Vpn_removePeer id') =
     delete_call (''/vpn/peers'' @ qs [(''id'', JStr id')])"

datatype (plugins only: code size) servers_call =
    Srv_list
  | Srv_computer string
  | Srv_localAdministrator string
  | Srv_logs string int
  | Srv_bulkAction "string list" string "string option"
  | Srv_browse string string bool bool
  | Srv_action string string "string option" jsval "string option"
  | Srv_encryption string
  | Srv_escrowKey string string string
  | Srv_recoveryKey string string
  | Srv_setPermissions jsval

fun servers_request :: "servers_call \<Rightarrow> string \<times> init" where
  "servers_request Srv_list =
     get_call ''/servers''"
| "servers_request (Srv_computer dn) =
     get_call (''/servers/computer'' @ qs [(''dn'', JStr dn)])"
| "servers_request (Srv_localAdministrator dn) =
     get_call (''/servers/computer/localadmin'' @ qs [(''dn'', JStr dn)])"
| "servers_request (Srv_logs dn hours) =
     get_call (''/servers/computer/logs'' @ qs [(''dn'', JStr dn), (''hours'', JNum hours)])"
| "servers_request (Srv_bulkAction dns' action pkg) =
     post_call ''/servers/computers/action'' (JObj [(''dns'', strs dns'), (''action'', JStr action), (''package'', opt pkg)])"
| "servers_request (Srv_browse node path' mk files) =
     get_call (''/servers/computer/browse'' @ qs [(''node'', JStr node), (''path'', JStr path'), (''make'', if mk then JStr ''true'' else JUndef), (''files'', if files then JStr ''true'' else JUndef)])"
| "servers_request (Srv_action dn action pkg localUser version) =
     post_call ''/servers/computer/action'' (JObj [(''dn'', JStr dn), (''action'', JStr action), (''package'', opt pkg), (''local_user'', localUser), (''version'', opt version)])"
| "servers_request (Srv_encryption dn) =
     get_call (''/servers/computer/encryption'' @ qs [(''dn'', JStr dn)])"
| "servers_request (Srv_escrowKey dn device passphrase) =
     post_call ''/servers/computer/encryption/escrow'' (JObj [(''dn'', JStr dn), (''device'', JStr device), (''passphrase'', JStr passphrase)])"
| "servers_request (Srv_recoveryKey dn device) =
     get_call (''/servers/computer/encryption/key'' @ qs [(''dn'', JStr dn), (''device'', JStr device)])"
| "servers_request (Srv_setPermissions body) =
     post_call ''/servers/computer/permissions'' body"

datatype (plugins only: code size) machines_call =
    Mach_assist string string int
  | Mach_message "string list" string string string
  | Mach_assistSession string
  | Mach_shell string string string int
  | Mach_openTerminal string int int

fun machines_request :: "machines_call \<Rightarrow> string \<times> init" where
  "machines_request (Mach_assist dn username minutes) =
     post_call ''/servers/computer/assist'' (JObj [(''dn'', JStr dn), (''username'', JStr username), (''minutes'', JNum minutes)])"
| "machines_request (Mach_message dns' title text' urgency) =
     post_call ''/servers/computer/message'' (JObj [(''dns'', strs dns'), (''title'', JStr title), (''text'', JStr text'), (''urgency'', JStr urgency)])"
| "machines_request (Mach_assistSession session) =
     get_call (''/servers/computer/assist/session/'' @ encodeURIComponent session)"
| "machines_request (Mach_shell dn command cwd timeoutSeconds) =
     post_call ''/servers/computer/shell'' (JObj [(''dn'', JStr dn), (''command'', JStr command), (''cwd'', JStr cwd), (''timeout_seconds'', JNum timeoutSeconds)])"
| "machines_request (Mach_openTerminal dn cols rows) =
     post_call ''/servers/computer/shell/session'' (JObj [(''dn'', JStr dn), (''cols'', JNum cols), (''rows'', JNum rows)])"

datatype (plugins only: code size) passwords_call =
    Pwd_status
  | Pwd_setup jsval
  | Pwd_seats jsval
  | Pwd_apply
  | Pwd_createCollection string
  | Pwd_renameCollection string string
  | Pwd_removeCollection string
  | Pwd_grant string string bool
  | Pwd_revoke string string

fun passwords_request :: "passwords_call \<Rightarrow> string \<times> init" where
  "passwords_request Pwd_status =
     get_call ''/passwords''"
| "passwords_request (Pwd_setup body) =
     post_call ''/passwords/setup'' body"
| "passwords_request (Pwd_seats body) =
     body_call ''PUT'' ''/passwords/seats'' body"
| "passwords_request Pwd_apply =
     post_call ''/passwords/apply'' (JObj [])"
| "passwords_request (Pwd_createCollection name) =
     post_call ''/passwords/collections'' (JObj [(''name'', JStr name)])"
| "passwords_request (Pwd_renameCollection id' name) =
     body_call ''PUT'' (''/passwords/collections'' @ qs [(''id'', JStr id')]) (JObj [(''name'', JStr name)])"
| "passwords_request (Pwd_removeCollection id') =
     delete_call (''/passwords/collections'' @ qs [(''id'', JStr id')])"
| "passwords_request (Pwd_grant id' group_name read_only) =
     body_call ''PUT'' (''/passwords/collections/access'' @ qs [(''id'', JStr id')]) (JObj [(''group_name'', JStr group_name), (''read_only'', JBool read_only)])"
| "passwords_request (Pwd_revoke id' group_name) =
     delete_call (''/passwords/collections/access'' @ qs [(''id'', JStr id'), (''group'', JStr group_name)])"

datatype (plugins only: code size) monitor_call =
    Mon_overview
  | Mon_hosts
  | Mon_series jsobj
  | Mon_alerts string "string option"
  | Mon_groups
  | Mon_createGroup jsval
  | Mon_updateGroup string jsval
  | Mon_deleteGroup string
  | Mon_probes
  | Mon_createProbe jsval
  | Mon_updateProbe string jsval
  | Mon_deleteProbe string
  | Mon_channels
  | Mon_createChannel jsval
  | Mon_testChannel string
  | Mon_deleteChannel string
  | Mon_rules
  | Mon_createRule jsval
  | Mon_updateRule string jsval
  | Mon_deleteRule string
  | Mon_maintenance
  | Mon_createMaintenance jsval
  | Mon_deleteMaintenance string
  | Mon_dashboards
  | Mon_dashboardData string
  | Mon_createDashboard jsval
  | Mon_updateDashboard string jsval
  | Mon_shareDashboard string bool
  | Mon_deleteDashboard string
  | Mon_publicDashboard string

fun monitor_request :: "monitor_call \<Rightarrow> string \<times> init" where
  "monitor_request Mon_overview =
     get_call ''/monitor/overview''"
| "monitor_request Mon_hosts =
     get_call ''/monitor/hosts''"
| "monitor_request (Mon_series params) =
     get_call (''/monitor/series'' @ qs params)"
| "monitor_request (Mon_alerts state host) =
     get_call (''/monitor/alerts'' @ qs [(''state'', JStr state), (''host'', opt host)])"
| "monitor_request Mon_groups =
     get_call ''/monitor/groups''"
| "monitor_request (Mon_createGroup body) =
     post_call ''/monitor/groups'' body"
| "monitor_request (Mon_updateGroup id' body) =
     body_call ''PUT'' (''/monitor/groups'' @ qs [(''id'', JStr id')]) body"
| "monitor_request (Mon_deleteGroup id') =
     delete_call (''/monitor/groups'' @ qs [(''id'', JStr id')])"
| "monitor_request Mon_probes =
     get_call ''/monitor/probes''"
| "monitor_request (Mon_createProbe body) =
     post_call ''/monitor/probes'' body"
| "monitor_request (Mon_updateProbe id' body) =
     body_call ''PUT'' (''/monitor/probes'' @ qs [(''id'', JStr id')]) body"
| "monitor_request (Mon_deleteProbe id') =
     delete_call (''/monitor/probes'' @ qs [(''id'', JStr id')])"
| "monitor_request Mon_channels =
     get_call ''/monitor/channels''"
| "monitor_request (Mon_createChannel body) =
     post_call ''/monitor/channels'' body"
| "monitor_request (Mon_testChannel id') =
     bare_post (''/monitor/channels/test'' @ qs [(''id'', JStr id')])"
| "monitor_request (Mon_deleteChannel id') =
     delete_call (''/monitor/channels'' @ qs [(''id'', JStr id')])"
| "monitor_request Mon_rules =
     get_call ''/monitor/rules''"
| "monitor_request (Mon_createRule body) =
     post_call ''/monitor/rules'' body"
| "monitor_request (Mon_updateRule id' body) =
     body_call ''PUT'' (''/monitor/rules'' @ qs [(''id'', JStr id')]) body"
| "monitor_request (Mon_deleteRule id') =
     delete_call (''/monitor/rules'' @ qs [(''id'', JStr id')])"
| "monitor_request Mon_maintenance =
     get_call ''/monitor/maintenance''"
| "monitor_request (Mon_createMaintenance body) =
     post_call ''/monitor/maintenance'' body"
| "monitor_request (Mon_deleteMaintenance id') =
     delete_call (''/monitor/maintenance'' @ qs [(''id'', JStr id')])"
| "monitor_request Mon_dashboards =
     get_call ''/monitor/dashboards''"
| "monitor_request (Mon_dashboardData id') =
     get_call (''/monitor/dashboard/data'' @ qs [(''id'', JStr id')])"
| "monitor_request (Mon_createDashboard body) =
     post_call ''/monitor/dashboards'' body"
| "monitor_request (Mon_updateDashboard id' body) =
     body_call ''PUT'' (''/monitor/dashboards'' @ qs [(''id'', JStr id')]) body"
| "monitor_request (Mon_shareDashboard id' revoke) =
     bare_post (''/monitor/dashboards/share'' @ qs [(''id'', JStr id'), (''revoke'', JBool revoke)])"
| "monitor_request (Mon_deleteDashboard id') =
     delete_call (''/monitor/dashboards'' @ qs [(''id'', JStr id')])"
| "monitor_request (Mon_publicDashboard token) =
     get_call (''/monitor/public/'' @ encodeURIComponent token)"

datatype (plugins only: code size) activity_call =
    Act_list jsobj
  | Act_kinds
  | Act_summary int "string option"

fun activity_request :: "activity_call \<Rightarrow> string \<times> init" where
  "activity_request (Act_list params) =
     get_call (''/activity'' @ qs params)"
| "activity_request Act_kinds =
     get_call ''/activity/kinds''"
| "activity_request (Act_summary hours dn) =
     get_call (''/activity/summary'' @ qs [(''hours'', JNum hours), (''dn'', opt dn)])"

datatype (plugins only: code size) shares_call =
    Shr_list
  | Shr_create jsval
  | Shr_update jsval
  | Shr_remove string bool

fun shares_request :: "shares_call \<Rightarrow> string \<times> init" where
  "shares_request Shr_list =
     get_call ''/shares''"
| "shares_request (Shr_create body) =
     post_call ''/shares'' body"
| "shares_request (Shr_update body) =
     body_call ''PATCH'' ''/shares'' body"
| "shares_request (Shr_remove id' contents) =
     delete_call (''/shares'' @ qs [(''id'', JStr id'), (''contents'', if contents then JStr ''true'' else JUndef)])"

datatype (plugins only: code size) rbac_call =
    Rbac_permissions
  | Rbac_roles
  | Rbac_saveRole string string "string list"
  | Rbac_deleteRole string
  | Rbac_assignments
  | Rbac_assign jsval
  | Rbac_unassign string

fun rbac_request :: "rbac_call \<Rightarrow> string \<times> init" where
  "rbac_request Rbac_permissions =
     get_call ''/rbac/permissions''"
| "rbac_request Rbac_roles =
     get_call ''/rbac/roles''"
| "rbac_request (Rbac_saveRole name description permissions) =
     post_call ''/rbac/roles'' (JObj [(''name'', JStr name), (''description'', JStr description), (''permissions'', strs permissions)])"
| "rbac_request (Rbac_deleteRole name) =
     delete_call (''/rbac/role'' @ qs [(''name'', JStr name)])"
| "rbac_request Rbac_assignments =
     get_call ''/rbac/assignments''"
| "rbac_request (Rbac_assign body) =
     post_call ''/rbac/assignments'' body"
| "rbac_request (Rbac_unassign id') =
     delete_call (''/rbac/assignment'' @ qs [(''id'', JStr id')])"

datatype (plugins only: code size) ca_call =
    Ca_status
  | Ca_initialise "string option" bool
  | Ca_profiles
  | Ca_saveProfile jsval
  | Ca_deleteProfile string
  | Ca_certificates bool
  | Ca_issue jsval
  | Ca_revoke string string
  | Ca_publish
  | Ca_trusted
  | Ca_trust jsval
  | Ca_untrust string
  | Ca_consoleCertificate jsval
  | Ca_consoleCertificateRequest jsval
  | Ca_consoleCertificateUpload jsval
  | Ca_sign jsval

fun ca_request :: "ca_call \<Rightarrow> string \<times> init" where
  "ca_request Ca_status =
     get_call ''/ca/status''"
| "ca_request (Ca_initialise common_name publish_root) =
     post_call ''/ca/initialise'' (JObj [(''common_name'', opt common_name), (''publish_root'', JBool publish_root)])"
| "ca_request Ca_profiles =
     get_call ''/ca/profiles''"
| "ca_request (Ca_saveProfile body) =
     post_call ''/ca/profiles'' body"
| "ca_request (Ca_deleteProfile name) =
     delete_call (''/ca/profiles'' @ qs [(''name'', JStr name)])"
| "ca_request (Ca_certificates include_revoked) =
     get_call (''/ca/certificates'' @ qs [(''include_revoked'', if include_revoked then JStr ''true'' else JUndef)])"
| "ca_request (Ca_issue body) =
     post_call ''/ca/issue'' body"
| "ca_request (Ca_revoke serial reason) =
     post_call ''/ca/revoke'' (JObj [(''serial'', JStr serial), (''reason'', JStr reason)])"
| "ca_request Ca_publish =
     post_call ''/ca/publish'' (JObj [])"
| "ca_request Ca_trusted =
     get_call ''/ca/trusted''"
| "ca_request (Ca_trust body) =
     post_call ''/ca/trusted'' body"
| "ca_request (Ca_untrust id') =
     delete_call (''/ca/trusted'' @ qs [(''id'', JStr id')])"
| "ca_request (Ca_consoleCertificate body) =
     post_call ''/ca/console-certificate'' body"
| "ca_request (Ca_consoleCertificateRequest body) =
     post_call ''/ca/console-certificate/request'' body"
| "ca_request (Ca_consoleCertificateUpload body) =
     post_call ''/ca/console-certificate/upload'' body"
| "ca_request (Ca_sign body) =
     post_call ''/ca/sign'' body"

datatype (plugins only: code size) operations_call =
    Ops_health
  | Ops_replication
  | Ops_replicate string string string
  | Ops_backups
  | Ops_takeBackup
  | Ops_baseline
  | Ops_resetAllSecondFactors
  | Ops_importDomain string bool

fun operations_request :: "operations_call \<Rightarrow> string \<times> init" where
  "operations_request Ops_health =
     get_call ''/health''"
| "operations_request Ops_replication =
     get_call ''/replication''"
| "operations_request (Ops_replicate destination source' naming_context) =
     post_call ''/replication/replicate'' (JObj [(''destination'', JStr destination), (''source'', JStr source'), (''naming_context'', JStr naming_context)])"
| "operations_request Ops_backups =
     get_call ''/backups''"
| "operations_request Ops_takeBackup =
     post_call ''/backups'' (JObj [])"
| "operations_request Ops_baseline =
     get_call ''/domain/baseline''"
| "operations_request Ops_resetAllSecondFactors =
     post_call ''/operations/second-factor/reset-all'' (JObj [])"
| "operations_request (Ops_importDomain body apply') =
     (''/domain/import'' @ qs [(''apply'', if apply' then JStr ''true'' else JUndef)],
      \<lparr>init_method = Some ''POST'', init_headers = [(''Content-Type'', ''application/json'')], init_body = Some body\<rparr>)"

datatype (plugins only: code size) join_call =
    Join_tokens
  | Join_createToken jsval
  | Join_revokeToken string

fun join_request :: "join_call \<Rightarrow> string \<times> init" where
  "join_request Join_tokens =
     get_call ''/join/tokens''"
| "join_request (Join_createToken body) =
     post_call ''/join/tokens'' body"
| "join_request (Join_revokeToken id') =
     delete_call (''/join/token'' @ qs [(''id'', JStr id')])"

datatype (plugins only: code size) audit_call =
    Aud_list jsobj
  | Aud_actions

fun audit_request :: "audit_call \<Rightarrow> string \<times> init" where
  "audit_request (Aud_list params) =
     get_call (''/audit'' @ qs params)"
| "audit_request Aud_actions =
     get_call ''/audit/actions''"
section \<open>The whole object\<close>

datatype (plugins only: code size) api_call =
    Call_directory directory_call
  | Call_policy policy_call
  | Call_admx admx_call
  | Call_packages packages_call
  | Call_dns dns_call
  | Call_dhcp dhcp_call
  | Call_recyclebin recyclebin_call
  | Call_roles roles_call
  | Call_controllers controllers_call
  | Call_radius radius_call
  | Call_auth2fa auth2fa_call
  | Call_sites sites_call
  | Call_rd rd_call
  | Call_printers printers_call
  | Call_vpn vpn_call
  | Call_servers servers_call
  | Call_machines machines_call
  | Call_passwords passwords_call
  | Call_monitor monitor_call
  | Call_activity activity_call
  | Call_shares shares_call
  | Call_rbac rbac_call
  | Call_ca ca_call
  | Call_operations operations_call
  | Call_join join_call
  | Call_audit audit_call

fun call_request :: "api_call \<Rightarrow> string \<times> init" where
  "call_request (Call_directory c) = directory_request c"
| "call_request (Call_policy c) = policy_request c"
| "call_request (Call_admx c) = admx_request c"
| "call_request (Call_packages c) = packages_request c"
| "call_request (Call_dns c) = dns_request c"
| "call_request (Call_dhcp c) = dhcp_request c"
| "call_request (Call_recyclebin c) = recyclebin_request c"
| "call_request (Call_roles c) = roles_request c"
| "call_request (Call_controllers c) = controllers_request c"
| "call_request (Call_radius c) = radius_request c"
| "call_request (Call_auth2fa c) = auth2fa_request c"
| "call_request (Call_sites c) = sites_request c"
| "call_request (Call_rd c) = rd_request c"
| "call_request (Call_printers c) = printers_request c"
| "call_request (Call_vpn c) = vpn_request c"
| "call_request (Call_servers c) = servers_request c"
| "call_request (Call_machines c) = machines_request c"
| "call_request (Call_passwords c) = passwords_request c"
| "call_request (Call_monitor c) = monitor_request c"
| "call_request (Call_activity c) = activity_request c"
| "call_request (Call_shares c) = shares_request c"
| "call_request (Call_rbac c) = rbac_request c"
| "call_request (Call_ca c) = ca_request c"
| "call_request (Call_operations c) = operations_request c"
| "call_request (Call_join c) = join_request c"
| "call_request (Call_audit c) = audit_request c"

section \<open>Addresses the browser opens\<close>

definition rd_connectionUrl :: "string \<Rightarrow> string \<Rightarrow> string" where
  "rd_connectionUrl id' username =
     ''/api/v1/rd/rdp'' @ qs [(''id'', JStr id'), (''username'', JStr username)]"

definition vpn_configurationUrl :: "string \<Rightarrow> string" where
  "vpn_configurationUrl id' = ''/api/v1/vpn/peers/configuration'' @ qs [(''id'', JStr id')]"

definition activity_exportUrl :: "jsobj \<Rightarrow> string" where
  "activity_exportUrl params = ''/api/v1/activity/export'' @ qs params"

text \<open>A socket's address, and the first frame it sends once open: the CSRF token.\<close>

definition socket_scheme :: "string \<Rightarrow> string" where
  "socket_scheme protocol = (if protocol = ''https:'' then ''wss'' else ''ws'')"

definition csrf_frame :: "jsval \<Rightarrow> string" where
  "csrf_frame token = json_text (JObj [(''csrf'', token)])"

definition assistSocket :: "string \<Rightarrow> string \<Rightarrow> jsval \<Rightarrow> string \<Rightarrow> string \<times> string" where
  "assistSocket protocol host token session =
     (socket_scheme protocol @ ''://'' @ host @ ''/api/v1/servers/computer/assist/session/'' @ session,
      csrf_frame token)"

definition terminalSocket :: "string \<Rightarrow> string \<Rightarrow> jsval \<Rightarrow> string \<Rightarrow> string \<times> string" where
  "terminalSocket protocol host token session =
     (socket_scheme protocol @ ''://'' @ host @ ''/api/v1/servers/computer/shell/session/'' @ session,
      csrf_frame token)"

text \<open>\<open>ca.root\<close> reads text, past \<^verbatim>\<open>request\<close>: a refusal carries the status text alone.\<close>

definition ca_root_result :: "(response \<times> string) option \<Rightarrow> api_error + string" where
  "ca_root_result answer =
     (case answer of
        None \<Rightarrow> Inl NetworkErr
      | Some (r, body) \<Rightarrow> if \<not> response_ok r then Inl (ApiErr (status r) (statusText r)) else Inr body)"

section \<open>A call is well formed\<close>

text \<open>A route is made of letters, digits and \<open>/-_.!~*'()%\<close>: what a caller passes is inside it
  only percent encoded, and is otherwise in the query, which cannot hold a second \<open>?\<close>, a
  \<open>#\<close> or a space.\<close>

definition route_char :: "char \<Rightarrow> bool" where
  "route_char c \<longleftrightarrow> component_safe c \<or> c = CHR ''/''"

fun path_tail :: "string \<Rightarrow> bool" where
  "path_tail [] = True"
| "path_tail (c # s) =
     (if c = CHR ''?'' then list_all query_safe s else route_char c \<and> path_tail s)"

definition path_safe :: "string \<Rightarrow> bool" where
  "path_safe p \<longleftrightarrow> (case p of [] \<Rightarrow> False | c # s \<Rightarrow> c = CHR ''/'' \<and> path_tail s)"

text \<open>\<open>fetch\<close> refuses a GET with a body; every other method is one the API routes.\<close>

definition method_ok :: "init \<Rightarrow> bool" where
  "method_ok i \<longleftrightarrow>
     (case init_method i of
        None \<Rightarrow> init_body i = None
      | Some m \<Rightarrow> m \<in> {''POST'', ''PUT'', ''PATCH'', ''DELETE''})"

text \<open>The call leaves the CSRF header to \<^verbatim>\<open>request\<close>.\<close>

definition csrf_untouched :: "init \<Rightarrow> bool" where
  "csrf_untouched i \<longleftrightarrow> headers_get (headers_of (init_headers i)) ''X-ODM-CSRF'' = None"

definition call_ok :: "string \<times> init \<Rightarrow> bool" where
  "call_ok c \<longleftrightarrow> path_safe (fst c) \<and> method_ok (snd c) \<and> csrf_untouched (snd c)"

section \<open>Every call is\<close>

named_theorems call_wf \<open>well-formedness of calls, by shape and by path\<close>

lemma route_chars [call_wf]:
  "route_char CHR ''a''"
  "route_char CHR ''b''"
  "route_char CHR ''c''"
  "route_char CHR ''d''"
  "route_char CHR ''e''"
  "route_char CHR ''f''"
  "route_char CHR ''g''"
  "route_char CHR ''h''"
  "route_char CHR ''i''"
  "route_char CHR ''j''"
  "route_char CHR ''k''"
  "route_char CHR ''l''"
  "route_char CHR ''m''"
  "route_char CHR ''n''"
  "route_char CHR ''o''"
  "route_char CHR ''p''"
  "route_char CHR ''q''"
  "route_char CHR ''r''"
  "route_char CHR ''s''"
  "route_char CHR ''t''"
  "route_char CHR ''u''"
  "route_char CHR ''v''"
  "route_char CHR ''w''"
  "route_char CHR ''x''"
  "route_char CHR ''y''"
  "route_char CHR ''z''"
  "route_char CHR ''-''"
  "route_char CHR ''/''"
  "route_char CHR ''0''"
  "route_char CHR ''1''"
  "route_char CHR ''2''"
  "route_char CHR ''3''"
  "route_char CHR ''4''"
  "route_char CHR ''5''"
  "route_char CHR ''6''"
  "route_char CHR ''7''"
  "route_char CHR ''8''"
  "route_char CHR ''9''"
  by code_simp+

lemma path_tail_qs [call_wf]: "path_tail (qs ps)"
  using qs_shape [of ps] by (auto simp: list_all_iff)

lemma path_tail_chars: "(\<And>c. c \<in> set s \<Longrightarrow> component_safe c) \<Longrightarrow> path_tail s"
  using component_plain_not [of "CHR ''?''"]
  by (induction s) (auto simp: route_char_def component_safe_def)

lemma path_tail_component [call_wf]: "path_tail (encodeURIComponent s)"
  by (rule path_tail_chars) (rule component_chars)

lemma path_tail_plain: "(\<And>c. c \<in> set s \<Longrightarrow> component_plain c) \<Longrightarrow> path_tail s"
  by (rule path_tail_chars) (simp add: component_safe_def)

lemma path_safe_slash [call_wf]: "path_safe (CHR ''/'' # s) = path_tail s"
  by (simp add: path_safe_def)

lemma call_shapes [call_wf]:
  "call_ok (get_call p) = path_safe p"
  "call_ok (post_call p b) = path_safe p"
  "call_ok (delete_call p) = path_safe p"
  "call_ok (bare_post p) = path_safe p"
  "call_ok (body_call ''PUT'' p b) = path_safe p"
  "call_ok (body_call ''PATCH'' p b) = path_safe p"
  "call_ok (body_call ''DELETE'' p b) = path_safe p"
  by (auto simp: call_ok_def get_call_def post_call_def delete_call_def bare_post_def body_call_def
      no_init_def json_init_def method_ok_def csrf_untouched_def headers_of_def)

lemma directory_ok: "call_ok (directory_request c)"
  by (cases c) (simp_all add: call_wf)

lemma policy_ok: "call_ok (policy_request c)"
  by (cases c) (simp_all add: call_wf split: option.split)

lemma admx_ok: "call_ok (admx_request c)"
  by (cases c) (simp_all add: call_wf)

lemma dns_ok: "call_ok (dns_request c)"
  by (cases c) (simp_all add: call_wf)

lemma dhcp_ok: "call_ok (dhcp_request c)"
  by (cases c) (simp_all add: call_wf)

lemma recyclebin_ok: "call_ok (recyclebin_request c)"
  by (cases c) (simp_all add: call_wf)

lemma roles_ok: "call_ok (roles_request c)"
  by (cases c) (simp_all add: call_wf)

lemma controllers_ok: "call_ok (controllers_request c)"
  by (cases c) (simp_all add: call_wf)

lemma radius_ok: "call_ok (radius_request c)"
  by (cases c) (simp_all add: call_wf)

lemma auth2fa_ok: "call_ok (auth2fa_request c)"
  by (cases c) (simp_all add: call_wf)

lemma sites_ok: "call_ok (sites_request c)"
  by (cases c) (simp_all add: call_wf)

lemma rd_ok: "call_ok (rd_request c)"
  by (cases c) (simp_all add: call_wf)

lemma printers_ok: "call_ok (printers_request c)"
  by (cases c) (simp_all add: call_wf)

lemma vpn_ok: "call_ok (vpn_request c)"
  by (cases c) (simp_all add: call_wf)

lemma servers_ok: "call_ok (servers_request c)"
  by (cases c) (simp_all add: call_wf)

lemma machines_ok: "call_ok (machines_request c)"
  by (cases c) (simp_all add: call_wf)

lemma passwords_ok: "call_ok (passwords_request c)"
  by (cases c) (simp_all add: call_wf)

lemma monitor_ok: "call_ok (monitor_request c)"
  by (cases c) (simp_all add: call_wf)

lemma activity_ok: "call_ok (activity_request c)"
  by (cases c) (simp_all add: call_wf)

lemma shares_ok: "call_ok (shares_request c)"
  by (cases c) (simp_all add: call_wf)

lemma rbac_ok: "call_ok (rbac_request c)"
  by (cases c) (simp_all add: call_wf)

lemma ca_ok: "call_ok (ca_request c)"
  by (cases c) (simp_all add: call_wf)

lemma join_ok: "call_ok (join_request c)"
  by (cases c) (simp_all add: call_wf)

lemma audit_ok: "call_ok (audit_request c)"
  by (cases c) (simp_all add: call_wf)

lemma packages_ok:
  "(\<And>i. c = Pkg_remove i \<Longrightarrow> path_tail i) \<Longrightarrow> call_ok (packages_request c)"
  by (cases c) (simp_all add: call_wf)

lemma import_headers: "csrf_untouched \<lparr>init_method = m, init_headers = [(''Content-Type'', j)], init_body = b\<rparr>"
  using header_names_differ by (simp add: csrf_untouched_def headers_of_def headers_set_def)

lemma operations_ok: "call_ok (operations_request c)"
  by (cases c) (simp_all add: call_wf, simp add: call_ok_def method_ok_def call_wf import_headers)

lemmas namespaces_ok =
  directory_ok policy_ok admx_ok dns_ok dhcp_ok recyclebin_ok
  roles_ok controllers_ok radius_ok auth2fa_ok sites_ok rd_ok
  printers_ok vpn_ok servers_ok machines_ok passwords_ok monitor_ok
  activity_ok shares_ok rbac_ok ca_ok operations_ok join_ok
  audit_ok

lemma call_request_ok:
  assumes "\<And>i. c = Call_packages (Pkg_remove i) \<Longrightarrow> path_tail i"
  shows "call_ok (call_request c)"
  using assms by (cases c) (simp_all add: namespaces_ok packages_ok)

end
