(* ===== verification/Client.thy ===== *)
theory Client
  imports Endpoints
begin

text \<open>
  What the client of \<^verbatim>\<open>api.ts\<close> promises, over every call of the object \<open>api\<close>: the targets it
  writes, the CSRF header over a session's life, and what a refusal is reported as.
\<close>

section \<open>A call as it is sent\<close>


lemma call_init_ok: "method_ok (snd (call_request c)) \<and> csrf_untouched (snd (call_request c))"
proof (cases "\<exists>i. c = Call_packages (Pkg_remove i)")
  case True
  then show ?thesis
    by (auto simp: method_ok_def csrf_untouched_def delete_call_def no_init_def headers_of_def)
next
  case False
  then show ?thesis using call_request_ok [of c] by (auto simp: call_ok_def)
qed

definition sent :: "jsval \<Rightarrow> api_call \<Rightarrow> http_request" where
  "sent token c = build_request token (fst (call_request c)) (snd (call_request c))"

lemma sent_fields [simp]:
  "rq_target (sent t c) = ''/api/v1'' @ fst (call_request c)"
  "rq_body (sent t c) = init_body (snd (call_request c))"
  by (simp_all add: sent_def)

lemma sent_method: "rq_method (sent t c) \<in> {''GET'', ''POST'', ''PUT'', ''PATCH'', ''DELETE''}"
  "rq_method (sent t c) = ''GET'' \<Longrightarrow> rq_body (sent t c) = None"
  using call_init_ok [of c] by (auto simp: sent_def method_ok_def split: option.splits)

lemma sent_csrf:
  "headers_get (rq_headers (sent t c)) ''X-ODM-CSRF'' =
     (if rq_method (sent t c) \<noteq> ''GET'' \<and> truthy t then Some (to_string t) else None)"
  using call_init_ok [of c] by (simp add: sent_def build_request_csrf csrf_untouched_def)

text \<open>C1: Whatever the caller passes, a call of the console's API client has a target made of one
  route and one query, with no character in either that would end it early; its method is one
  of the five the API routes, and a GET has no body. The one argument that goes into a path as
  it is, a package's id, has to be a plain one.\<close>

theorem every_call_well_formed:
  assumes "\<And>i x. c = Call_packages (Pkg_remove i) \<Longrightarrow> x \<in> set i \<Longrightarrow> component_plain x"
  shows "path_safe (fst (call_request c)) \<and>
         rq_method (sent t c) \<in> {''GET'', ''POST'', ''PUT'', ''PATCH'', ''DELETE''} \<and>
         (rq_method (sent t c) = ''GET'' \<longrightarrow> rq_body (sent t c) = None)"
proof -
  have "call_ok (call_request c)"
    by (rule call_request_ok) (rule path_tail_plain, use assms in blast)
  then show ?thesis using sent_method by (simp add: call_ok_def)
qed

theorem every_call_well_formed_witness:
  "path_safe (fst (call_request (Call_packages (Pkg_remove ''a1-2'')))) \<and>
   path_safe (fst (call_request (Call_dns (Dns_zone ''a b&c?d''))))"
proof -
  have "list_all component_plain ''a1-2''" by code_simp
  then have plain: "x \<in> set i \<Longrightarrow> component_plain x" if "i = ''a1-2''" for i x
    by (simp only: list_all_iff that)
  have "path_safe (fst (call_request (Call_packages (Pkg_remove ''a1-2''))))"
    by (rule every_call_well_formed [of _ JUndef, THEN conjunct1], rule plain) simp_all
  moreover have "path_safe (fst (call_request (Call_dns (Dns_zone ''a b&c?d''))))"
    by (rule every_call_well_formed [of _ JUndef, THEN conjunct1]) simp_all
  ultimately show ?thesis by blast
qed

text \<open>C6: Every call that changes something carries the session's CSRF token, whatever call it is
  and whatever headers it brings; a read never carries it, and without a token none does.\<close>

theorem csrf_header_on_changes_only:
  "headers_get (rq_headers (sent (csrf s) c)) ''X-ODM-CSRF'' =
     (if rq_method (sent (csrf s) c) \<noteq> ''GET'' \<and> truthy (csrf s) then Some (to_string (csrf s)) else None)"
  by (rule sent_csrf)

section \<open>The token over a session\<close>

text \<open>The token an event puts in place, if it does.\<close>

definition session_token :: "response option \<Rightarrow> jsval option" where
  "session_token a = (case request_result a of Inl _ \<Rightarrow> None | Inr v \<Rightarrow> member v ''csrf_token'')"

fun event_token :: "api_event \<Rightarrow> jsval option" where
  "event_token (LoginAnswer a) = session_token a"
| "event_token (SessionAnswer a) = session_token a"
| "event_token (LogoutAnswer a) = (case request_result a of Inl _ \<Rightarrow> None | Inr _ \<Rightarrow> Some (JStr []))"

lemma api_step_csrf: "csrf (api_step e s) = (case event_token e of None \<Rightarrow> csrf s | Some t \<Rightarrow> t)"
  by (cases e) (auto simp: then_remember_def remember_def logout_done_def session_token_def
      split: sum.split option.split)

text \<open>The last token put in place over a run, abstractly.\<close>

fun last_token :: "api_event list \<Rightarrow> jsval \<Rightarrow> jsval" where
  "last_token [] t = t"
| "last_token (e # es) t = last_token es (case event_token e of None \<Rightarrow> t | Some u \<Rightarrow> u)"

lemma run_csrf: "csrf (fold api_step es s) = last_token es (csrf s)"
  by (induction es arbitrary: s) (auto simp: api_step_csrf)

lemma last_token_append: "last_token (es @ fs) t = last_token fs (last_token es t)"
  by (induction es arbitrary: t) auto

lemma last_token_quiet: "(\<And>e. e \<in> set es \<Longrightarrow> event_token e = None) \<Longrightarrow> last_token es t = t"
  by (induction es) auto

text \<open>C7: Over the life of the page, the token a change carries is the one of the last answer that
  set it: signing in or reading the session puts the answer's token in place, a successful sign-out
  takes it away, and a call that failed leaves the one before.\<close>

theorem changes_carry_the_last_token:
  assumes "event_token e = Some (JStr tok)"
    and "\<And>f. f \<in> set later \<Longrightarrow> event_token f = None"
  shows "headers_get (rq_headers (sent (csrf (fold api_step (earlier @ e # later) api_start)) c)) ''X-ODM-CSRF'' =
           (if rq_method (sent (JStr tok) c) \<noteq> ''GET'' \<and> tok \<noteq> [] then Some tok else None)"
proof -
  have "csrf (fold api_step (earlier @ e # later) api_start) = JStr tok"
    using assms by (simp only: run_csrf last_token_append) (simp add: last_token_quiet)
  then show ?thesis by (simp add: sent_csrf)
qed

theorem changes_carry_the_last_token_witness:
  "headers_get (rq_headers (sent (csrf (fold api_step
     ([LogoutAnswer None] @ LoginAnswer (Some \<lparr>status = 200, statusText = ''OK'', json_body = Some (JObj [(''csrf_token'', JStr ''t1'')])\<rparr>)
        # [SessionAnswer None]) api_start)) (Call_vpn (Vpn_remove ''7'')))) ''X-ODM-CSRF'' = Some ''t1''"
  by (subst changes_carry_the_last_token [where tok = "''t1''"])
    (auto simp: session_token_def request_result_def response_ok_def sent_def delete_call_def no_init_def)

section \<open>Errors\<close>

lemma nonempty_join: "ms \<noteq> [] \<Longrightarrow> (\<And>m. m \<in> set ms \<Longrightarrow> m \<noteq> []) \<Longrightarrow> join_with sep ms \<noteq> []"
  by (auto simp: join_with_eq_Nil)

lemma describeError_ne: "describeError b fb = Some m \<Longrightarrow> fb \<noteq> [] \<Longrightarrow> m \<noteq> []"
proof -
  assume d: "describeError b fb = Some m" and fb: "fb \<noteq> []"
  have j: "join_with ''. '' (nonempty ms) \<noteq> []" if "nonempty ms \<noteq> []" for ms
    by (rule nonempty_join) (use that in auto)
  from d fb j show "m \<noteq> []"
    by (auto simp: describeError_def Let_def split: option.splits jsval.splits if_splits)
qed

text \<open>C24: An \<open>ApiError\<close> is raised for a refused request only, with the refusal's own status, and it
  always says something where the status line does.\<close>

theorem api_error_says_something:
  assumes "request_result answer = Inl (ApiErr n m)"
  shows "\<exists>r. answer = Some r \<and> status r = n \<and> \<not> (200 \<le> n \<and> n \<le> 299) \<and> (statusText r \<noteq> [] \<longrightarrow> m \<noteq> [])"
  using assms describeError_ne
  by (fastforce simp: request_result_def Let_def response_ok_def split: option.splits if_splits)

theorem api_error_says_something_witness:
  "\<exists>m. request_result (Some \<lparr>status = 422, statusText = ''Unprocessable'', json_body = Some (JObj [(''detail'', JArr [JObj []])])\<rparr>)
        = Inl (ApiErr 422 m) \<and> m \<noteq> []"
proof -
  let ?a = "Some \<lparr>status = 422, statusText = ''Unprocessable'', json_body = Some (JObj [(''detail'', JArr [JObj []])])\<rparr>"
  have "request_result ?a = Inl (ApiErr 422 ''Unprocessable'')" by code_simp
  with api_error_says_something [OF this] show ?thesis by auto
qed

lemma describe_all_entries: "(\<And>e. e \<in> set es \<Longrightarrow> validation_entry e) \<Longrightarrow> describe_all es \<noteq> None"
  using describe_all_None [of es] validation_entry_described by (metis option.distinct(1))

lemma js_includes_Nil [simp]: "js_includes s []"
  by (cases s) auto

text \<open>A request refused with a list of rejected values becomes an \<open>ApiError\<close> whose message holds
  the sentence of every one of them; no entry is lost and none makes the handler itself fail.\<close>

theorem rejected_fields_are_named:
  assumes "\<not> response_ok r" and "status r \<noteq> 204"
    and "json_body r = Some (JObj ps)" and "obj_get ps ''detail'' = JArr es"
    and "\<And>e. e \<in> set es \<Longrightarrow> validation_entry e" and "es \<noteq> []"
  shows "\<exists>m. request_result (Some r) = Inl (ApiErr (status r) m) \<and>
             (\<forall>e \<in> set es. \<exists>s. describeValidation e = Some s \<and> js_includes m s)"
proof -
  obtain ms where ms: "describe_all es = Some ms"
    using describe_all_entries assms(5) by blast
  let ?m = "if length (nonempty ms) > 0 then join_with ''. '' (nonempty ms) else statusText r"
  have "request_result (Some r) = Inl (ApiErr (status r) ?m)"
    using assms ms by (simp add: request_result_def describeError_def Let_def)
  moreover have "\<exists>s. describeValidation e = Some s \<and> js_includes ?m s" if "e \<in> set es" for e
  proof -
    from that obtain i where i: "i < length es" "e = es ! i" by (metis in_set_conv_nth)
    with describe_all_Some [OF ms] have d: "describeValidation e = Some (ms ! i)" and mem: "ms ! i \<in> set ms"
      by auto
    have "js_includes ?m (ms ! i)"
    proof (cases "ms ! i = []")
      case True
      then show ?thesis by simp
    next
      case False
      with mem have n: "ms ! i \<in> set (nonempty ms)" by simp
      then have "length (nonempty ms) > 0" by (metis length_pos_if_in_set)
      with n show ?thesis by (simp add: join_with_includes)
    qed
    with d show ?thesis by blast
  qed
  ultimately show ?thesis by blast
qed

theorem rejected_fields_are_named_witness:
  "\<exists>m. request_result (Some \<lparr>status = 422, statusText = [], json_body = Some (JObj [(''detail'',
       JArr [JObj [(''loc'', JArr [JStr ''body'', JStr ''entries'', JNum 0, JStr ''unc'']), (''msg'', JStr ''too long'')]])])\<rparr>)
     = Inl (ApiErr 422 m) \<and> js_includes m ''Share (entry 1): too long''"
proof -
  let ?e = "JObj [(''loc'', JArr [JStr ''body'', JStr ''entries'', JNum 0, JStr ''unc'']), (''msg'', JStr ''too long'')]"
  let ?r = "\<lparr>status = 422, statusText = [], json_body = Some (JObj [(''detail'', JArr [?e])])\<rparr>"
  have "describeValidation ?e = Some ''Share (entry 1): too long''" by code_simp
  moreover have "\<exists>m. request_result (Some ?r) = Inl (ApiErr (status ?r) m) \<and>
      (\<forall>e \<in> set [?e]. \<exists>s. describeValidation e = Some s \<and> js_includes m s)"
    by (rule rejected_fields_are_named [where ps = "[(''detail'', JArr [?e])]"])
      (simp_all add: response_ok_def validation_entry_def)
  ultimately show ?thesis by auto
qed

end
