(* ===== verification/Live.thy ===== *)
theory Live
  imports JsValue
begin

text \<open>
  The change stream of \<^verbatim>\<open>src/web/src/live.ts\<close>: one \<open>EventSource\<close> for every subscription of the
  console, reconnecting with a back-off, and the reloads a change asks for, coalesced.

  The module's variables are the fields of \<open>live\<close>; a subscription is one run of the effect of
  \<^verbatim>\<open>useLive\<close>. A timer is the time it is due. The browser's part is in the events: frames and
  errors of the stream arrive only while it is open, and \<open>advance\<close> lets time pass, which runs
  the timers that have come due. \<open>reloads\<close> records the calls of the pages' \<open>reload\<close>.
\<close>

record sub =
  names :: "string list"
  pending :: "nat option"

record live =
  listeners :: "(nat \<times> sub) list"
  source :: bool
  retry :: nat
  reconnect :: "nat option"
  reloads :: "(nat \<times> nat) list"

definition live_start :: live where
  "live_start = \<lparr>listeners = [], source = False, retry = 0, reconnect = None, reloads = []\<rparr>"

section \<open>The module's functions\<close>

definition open_stream :: "live \<Rightarrow> live" where
  "open_stream s = (if source s \<or> length (listeners s) = 0 then s else s\<lparr>source := True\<rparr>)"

definition close_stream :: "live \<Rightarrow> live" where
  "close_stream s = (if length (listeners s) > 0 then s else s\<lparr>reconnect := None, source := False\<rparr>)"

text \<open>The table a frame names: nothing for one that does not parse, is \<open>null\<close>, or names none.\<close>

definition frame_table :: "jsval option \<Rightarrow> string option" where
  "frame_table data =
     (case data of
        None \<Rightarrow> None
      | Some v \<Rightarrow>
          (case member v ''table'' of
             Some (JStr t) \<Rightarrow> if t \<noteq> [] then Some t else None
           | _ \<Rightarrow> None))"

definition notify_sub :: "nat \<Rightarrow> string \<Rightarrow> sub \<Rightarrow> sub" where
  "notify_sub now table u = (if table \<in> set (names u) then u\<lparr>pending := Some (now + 400)\<rparr> else u)"

definition on_message :: "nat \<Rightarrow> jsval option \<Rightarrow> live \<Rightarrow> live" where
  "on_message now data s =
     (let s' = s\<lparr>retry := 0\<rparr> in
      case frame_table data of
        None \<Rightarrow> s'
      | Some t \<Rightarrow> s'\<lparr>listeners := map (\<lambda>(i, u). (i, notify_sub now t u)) (listeners s')\<rparr>)"

definition backoff :: "nat \<Rightarrow> nat" where
  "backoff n = min (1000 * 2 ^ n) 30000"

definition on_error :: "nat \<Rightarrow> live \<Rightarrow> live" where
  "on_error now s =
     (let s' = s\<lparr>source := False\<rparr> in
      if length (listeners s') = 0 then s'
      else (let r = min (retry s' + 1) 6
            in s'\<lparr>retry := r, reconnect := Some (now + backoff r)\<rparr>))"

text \<open>\<^verbatim>\<open>useLive\<close>: \<open>tables.join(",")\<close>, split again, and the effect's two ends.\<close>

definition wanted :: "string list \<Rightarrow> string list" where
  "wanted tables = nonempty (split_on (CHR '','') (join_with '','' tables))"

definition subscribe :: "nat \<Rightarrow> string list \<Rightarrow> live \<Rightarrow> live" where
  "subscribe i tables s =
     open_stream (s\<lparr>listeners := listeners s @ [(i, \<lparr>names = wanted tables, pending = None\<rparr>)]\<rparr>)"

definition unsubscribe :: "nat \<Rightarrow> live \<Rightarrow> live" where
  "unsubscribe i s = close_stream (s\<lparr>listeners := filter (\<lambda>e. fst e \<noteq> i) (listeners s)\<rparr>)"

section \<open>Timers\<close>

definition due :: "nat \<Rightarrow> nat option \<Rightarrow> bool" where
  "due now t = (case t of None \<Rightarrow> False | Some d \<Rightarrow> d \<le> now)"

definition run_pending :: "nat \<Rightarrow> live \<Rightarrow> live" where
  "run_pending now s =
     s\<lparr>reloads := reloads s @ map (\<lambda>(i, u). (i, the (pending u))) (filter (\<lambda>(i, u). due now (pending u)) (listeners s)),
       listeners := map (\<lambda>(i, u). (i, if due now (pending u) then u\<lparr>pending := None\<rparr> else u)) (listeners s)\<rparr>"

definition run_reconnect :: "nat \<Rightarrow> live \<Rightarrow> live" where
  "run_reconnect now s =
     (if due now (reconnect s) then open_stream (s\<lparr>reconnect := None\<rparr>) else s)"

definition advance :: "nat \<Rightarrow> live \<Rightarrow> live" where
  "advance now s = run_reconnect now (run_pending now s)"

datatype (plugins only: code size) live_event =
    Subscribe nat "string list"
  | Unsubscribe nat
  | Frame nat "jsval option"
  | StreamError nat
  | Advance nat

fun live_step :: "live_event \<Rightarrow> live \<Rightarrow> live" where
  "live_step (Subscribe i tables) s = subscribe i tables s"
| "live_step (Unsubscribe i) s = unsubscribe i s"
| "live_step (Frame now data) s = (if source s then on_message now data s else s)"
| "live_step (StreamError now) s = (if source s then on_error now s else s)"
| "live_step (Advance now) s = advance now s"

text \<open>The tables each part of the console is looking at.\<close>

definition WATCH :: "(string \<times> string list) list" where
  "WATCH =
     [(''directory'', [''audit_log'', ''computer_fact'', ''rbac_assignment'']),
      (''policy'', [''gpo'', ''gpo_link'', ''audit_log'']),
      (''roles'', [''server_role'', ''node_task'']),
      (''servers'', [''computer_fact'', ''agent_report'', ''node_task'', ''server_role'']),
      (''shares'', [''share'', ''node_task'']),
      (''printers'', [''printer'', ''node_task'']),
      (''remoteDesktop'', [''rd_collection'', ''rd_host'', ''node_task'', ''computer_fact'']),
      (''vpn'', [''vpn_peer'', ''node_task'']),
      (''certificates'', [''certificate'', ''audit_log'']),
      (''audit'', [''audit_log'']),
      (''recycleBin'', [''deleted_object'']),
      (''dhcp'', [''dhcp_scope'', ''node_task'', ''audit_log'']),
      (''dns'', [''audit_log'']),
      (''overview'', [''computer_fact'', ''server_role'', ''audit_log'', ''agent_report'']),
      (''delegation'', [''rbac_assignment'', ''audit_log''])]"

section \<open>The invariant\<close>

text \<open>The stream is open only while somebody listens; while somebody listens it is open or a
  reconnection is due; and the back-off is bounded.\<close>

definition live_inv :: "live \<Rightarrow> bool" where
  "live_inv s \<longleftrightarrow>
     (source s \<longrightarrow> listeners s \<noteq> []) \<and>
     (listeners s \<noteq> [] \<longrightarrow> source s \<or> reconnect s \<noteq> None) \<and>
     (listeners s = [] \<longrightarrow> reconnect s = None) \<and>
     retry s \<le> 6"

lemma live_inv_start: "live_inv live_start"
  by (simp add: live_inv_def live_start_def)

lemma live_inv_open [js_inv]:
  "retry s \<le> 6 \<Longrightarrow> (source s \<longrightarrow> listeners s \<noteq> []) \<Longrightarrow> (listeners s = [] \<longrightarrow> reconnect s = None) \<Longrightarrow>
   live_inv (open_stream s)"
  by (auto simp: live_inv_def open_stream_def)

lemma live_inv_subscribe [js_inv]: "live_inv s \<Longrightarrow> live_inv (subscribe i tables s)"
  unfolding subscribe_def by (rule live_inv_open) (auto simp: live_inv_def)

lemma live_inv_unsubscribe [js_inv]: "live_inv s \<Longrightarrow> live_inv (unsubscribe i s)"
  by (auto simp: live_inv_def unsubscribe_def close_stream_def filter_empty_conv)

lemma live_inv_message [js_inv]: "live_inv s \<Longrightarrow> live_inv (on_message now data s)"
  by (auto simp: live_inv_def on_message_def Let_def split: option.split)

lemma live_inv_error [js_inv]: "live_inv s \<Longrightarrow> source s \<Longrightarrow> live_inv (on_error now s)"
  by (auto simp: live_inv_def on_error_def Let_def)

lemma live_inv_pending [js_inv]: "live_inv s \<Longrightarrow> live_inv (run_pending now s)"
  by (auto simp: live_inv_def run_pending_def)

lemma live_inv_reconnect [js_inv]: "live_inv s \<Longrightarrow> live_inv (run_reconnect now s)"
  by (auto simp: run_reconnect_def live_inv_def open_stream_def)

lemma live_inv_step: "live_inv s \<Longrightarrow> live_inv (live_step e s)"
  by (cases e) (auto simp: advance_def intro: js_inv)

interpretation live: machine live_start live_step live_inv
  by unfold_locales (rule live_inv_start, rule live_inv_step)

section \<open>What a subscription hears\<close>

lemma wanted_id:
  assumes "\<And>t. t \<in> set tables \<Longrightarrow> t \<noteq> [] \<and> CHR '','' \<notin> set t"
  shows "wanted tables = tables"
proof (cases "tables = []")
  case True
  then show ?thesis by (simp add: wanted_def nonempty_def)
next
  case False
  then have "split_on (CHR '','') (join_with '','' tables) = tables"
    by (rule split_join) (use assms in auto)
  then show ?thesis using assms by (auto simp: wanted_def intro: nonempty_id)
qed

lemma WATCH_plain: "(p, ts) \<in> set WATCH \<Longrightarrow> wanted ts = ts \<and> ts \<noteq> []"
proof -
  have "list_all (\<lambda>(p, ts). wanted ts = ts \<and> ts \<noteq> []) WATCH" by code_simp
  then show "(p, ts) \<in> set WATCH \<Longrightarrow> wanted ts = ts \<and> ts \<noteq> []"
    by (auto simp: list_all_iff)
qed

fun times_close :: "nat \<Rightarrow> nat list \<Rightarrow> bool" where
  "times_close t [] = True"
| "times_close t (u # us) = (t \<le> u \<and> u < t + 400 \<and> times_close u us)"

definition change :: "string \<Rightarrow> jsval option" where
  "change table = Some (JObj [(''table'', JStr table)])"

text \<open>Time passes up to a change and the change arrives.\<close>

definition hear :: "string \<Rightarrow> nat \<Rightarrow> live \<Rightarrow> live" where
  "hear table t s = live_step (Frame t (change table)) (live_step (Advance t) s)"

text \<open>One subscription among the others, and the reloads it has asked for.\<close>

definition of_sub :: "nat \<Rightarrow> (nat \<times> 'a) list \<Rightarrow> (nat \<times> 'a) list" where
  "of_sub i xs = filter (\<lambda>e. fst e = i) xs"

definition holds_sub :: "nat \<Rightarrow> sub \<Rightarrow> live \<Rightarrow> bool" where
  "holds_sub i u s \<longleftrightarrow> source s \<and> of_sub i (listeners s) = [(i, u)]"

definition reloads_of :: "nat \<Rightarrow> live \<Rightarrow> nat list" where
  "reloads_of i s = map snd (of_sub i (reloads s))"

lemma of_sub_map [simp]: "of_sub i (map (\<lambda>(j, u). (j, f u)) xs) = map (\<lambda>(j, u). (j, f u)) (of_sub i xs)"
  by (induction xs) (auto simp: of_sub_def)

lemma of_sub_filter: "of_sub i (filter P xs) = filter P (of_sub i xs)"
  by (auto simp: of_sub_def intro: filter_cong)

lemma of_sub_append [simp]: "of_sub i (xs @ ys) = of_sub i xs @ of_sub i ys"
  by (simp add: of_sub_def)

lemma advance_sub:
  assumes "holds_sub i u s"
  shows "holds_sub i (if due now (pending u) then u\<lparr>pending := None\<rparr> else u) (live_step (Advance now) s) \<and>
         reloads_of i (live_step (Advance now) s) =
           reloads_of i s @ (if due now (pending u) then [the (pending u)] else [])"
  using assms
  by (simp add: holds_sub_def advance_def run_reconnect_def run_pending_def open_stream_def reloads_of_def
      of_sub_filter)

lemma change_sub:
  assumes "holds_sub i u s" and "table \<in> set (names u)" and "table \<noteq> []"
  shows "holds_sub i (u\<lparr>pending := Some (t + 400)\<rparr>) (live_step (Frame t (change table)) s) \<and>
         reloads_of i (live_step (Frame t (change table)) s) = reloads_of i s"
  using assms
  by (auto simp: holds_sub_def on_message_def change_def frame_table_def notify_sub_def reloads_of_def)

lemma hear_pending:
  assumes "holds_sub i u s" and "table \<in> set (names u)" and "table \<noteq> []"
    and "\<not> due t (pending u)"
  shows "holds_sub i (u\<lparr>pending := Some (t + 400)\<rparr>) (hear table t s) \<and>
         reloads_of i (hear table t s) = reloads_of i s"
  using advance_sub [OF assms(1), of t] change_sub [of i u "live_step (Advance t) s" table t] assms
  by (simp add: hear_def)

lemma hear_burst:
  assumes "holds_sub i u s" and "table \<in> set (names u)" and "table \<noteq> []"
    and "pending u = Some (t + 400)" and "times_close t ts"
  shows "holds_sub i (u\<lparr>pending := Some (last (t # ts) + 400)\<rparr>) (fold (hear table) ts s) \<and>
         reloads_of i (fold (hear table) ts s) = reloads_of i s"
  using assms
proof (induction ts arbitrary: t s u)
  case Nil
  then show ?case by (cases u) simp
next
  case (Cons v vs)
  let ?u = "u\<lparr>pending := Some (v + 400)\<rparr>"
  have h: "holds_sub i ?u (hear table v s)" "reloads_of i (hear table v s) = reloads_of i s"
    using hear_pending [OF Cons.prems(1-3), of v] Cons.prems(4,5) by (auto simp: due_def)
  have "holds_sub i (?u\<lparr>pending := Some (last (v # vs) + 400)\<rparr>) (fold (hear table) vs (hear table v s)) \<and>
        reloads_of i (fold (hear table) vs (hear table v s)) = reloads_of i (hear table v s)"
    by (rule Cons.IH) (use h Cons.prems in auto)
  with h show ?case by simp
qed

lemma backoff_bounds: "1 \<le> n \<Longrightarrow> n \<le> 6 \<Longrightarrow> 2000 \<le> backoff n \<and> backoff n \<le> 30000"
proof -
  assume n: "1 \<le> n" "n \<le> 6"
  then have "(2::nat) ^ 1 \<le> 2 ^ n" by (intro power_increasing) auto
  then show "2000 \<le> backoff n \<and> backoff n \<le> 30000" by (simp add: backoff_def)
qed

section \<open>Properties\<close>

text \<open>C8: Whatever subscribes, leaves, arrives or fails, in any order: the stream is open only
  while something is subscribed, and while something is, the stream is open or a reconnection is
  scheduled, so a page that shows a table is never left deaf to it.\<close>

theorem stream_follows_subscriptions:
  "let s = fold live_step es live_start
   in (source s \<longrightarrow> listeners s \<noteq> []) \<and> (listeners s \<noteq> [] \<longrightarrow> source s \<or> reconnect s \<noteq> None) \<and>
      (listeners s = [] \<longrightarrow> \<not> source s \<and> reconnect s = None)"
  using live.inv_run [of es] by (auto simp: live_inv_def Let_def)

theorem stream_follows_subscriptions_witness:
  "source (fold live_step [Subscribe 1 [''gpo'']] live_start) \<and>
   \<not> source (fold live_step [Subscribe 1 [''gpo''], Unsubscribe 1] live_start)"
proof -
  have "source (fold live_step [Subscribe 1 [''gpo'']] live_start)" by code_simp
  moreover have "listeners (fold live_step [Subscribe 1 [''gpo''], Unsubscribe 1] live_start) = []"
    by code_simp
  ultimately show ?thesis
    using stream_follows_subscriptions [of "[Subscribe 1 [''gpo''], Unsubscribe 1]"]
    unfolding Let_def by blast
qed

text \<open>C9: Every failure of an open stream schedules the next attempt between two and thirty
  seconds later, however often it has failed before.\<close>

theorem reconnect_backs_off_within_bounds:
  assumes "s = fold live_step es live_start" and "source s"
  shows "\<exists>d. reconnect (live_step (StreamError now) s) = Some (now + d) \<and> 2000 \<le> d \<and> d \<le> 30000"
proof -
  have inv: "live_inv s" using assms(1) live.inv_run by simp
  then have "listeners s \<noteq> []" using assms(2) by (simp add: live_inv_def)
  moreover have "2000 \<le> backoff (min (retry s + 1) 6) \<and> backoff (min (retry s + 1) 6) \<le> 30000"
    by (rule backoff_bounds) auto
  ultimately show ?thesis using assms(2) by (simp add: on_error_def Let_def)
qed

theorem reconnect_backs_off_within_bounds_witness:
  "\<exists>d. reconnect (live_step (StreamError 5) (fold live_step [Subscribe 1 [''gpo'']] live_start)) = Some (5 + d) \<and>
       2000 \<le> d \<and> d \<le> 30000"
proof (rule reconnect_backs_off_within_bounds [OF refl])
  show "source (fold live_step [Subscribe 1 [''gpo'']] live_start)" by code_simp
qed

text \<open>Changes to a watched table that follow each other by less than 400 ms are one reload of
  the page, whatever else is subscribed: none while they keep coming, and exactly one, 400 ms after
  the last.\<close>

theorem bulk_change_is_one_reload:
  assumes "holds_sub i u s" and "pending u = None" and "table \<in> set (names u)" and "table \<noteq> []"
    and "times_close t ts"
  shows "reloads_of i (fold (hear table) (t # ts) s) = reloads_of i s \<and>
         reloads_of i (live_step (Advance (last (t # ts) + 400)) (fold (hear table) (t # ts) s))
           = reloads_of i s @ [last (t # ts) + 400]"
proof -
  let ?u = "u\<lparr>pending := Some (t + 400)\<rparr>"
  have h: "holds_sub i ?u (hear table t s)" "reloads_of i (hear table t s) = reloads_of i s"
    using hear_pending [OF assms(1,3,4), of t] assms(2) by (auto simp: due_def)
  have b: "holds_sub i (?u\<lparr>pending := Some (last (t # ts) + 400)\<rparr>) (fold (hear table) (t # ts) s)"
    "reloads_of i (fold (hear table) (t # ts) s) = reloads_of i s"
    using hear_burst [OF h(1), of table t ts] h(2) assms by auto
  from advance_sub [OF b(1), of "last (t # ts) + 400"] b(2) show ?thesis by (simp add: due_def)
qed

theorem bulk_change_is_one_reload_witness:
  "reloads_of 3 (live_step (Advance 1000) (fold (hear ''gpo'') [100, 350, 600]
     (fold live_step [Subscribe 3 [''gpo''], Subscribe 4 [''gpo'', ''share'']] live_start))) = [1000]"
proof -
  let ?s = "fold live_step [Subscribe 3 [''gpo''], Subscribe 4 [''gpo'', ''share'']] live_start"
  have h: "holds_sub 3 \<lparr>names = [''gpo''], pending = None\<rparr> ?s" by code_simp
  have r: "reloads_of 3 ?s = []" by code_simp
  from bulk_change_is_one_reload [OF h, of "''gpo''" 100 "[350, 600]"] r show ?thesis by simp
qed

end
