(* ===== verification/SettingsTable.thy ===== *)
theory SettingsTable
  imports JsValue
begin

text \<open>
  The two tables of \<^verbatim>\<open>components/SettingsEditor.tsx\<close>: \<^verbatim>\<open>CATEGORIES\<close>, the settings that are lists of
  entries, one \<open>category_spec\<close> each with its fields and its blank entry, and \<^verbatim>\<open>SPECIAL\<close>, the
  settings configured once. Every entry is written out as the source has it; a text is the bytes
  of its UTF-8 form.
\<close>

section \<open>What an entry says\<close>

datatype (plugins only: code size) field_kind = KText | KNumber | KTextarea | KSelect | KCheckbox | KImage

datatype (plugins only: code size) resource_pick = PickPrinter | PickShare | PickCollection

record field_spec =
  f_key :: string
  f_label :: string
  f_kind :: "field_kind option"
  f_options :: "string list"
  f_optionsFrom :: bool
  f_fill :: bool
  f_placeholder :: "string option"
  f_hint :: "string option"
  f_width :: "string option"
  f_pick :: "resource_pick option"
  f_picker :: "string option"
  f_pickerValue :: "string option"
  f_pickerMultiple :: bool
  f_pickerLocal :: bool
  f_suggestions :: "(string \<times> string) list"
  f_suggestionsAppend :: bool

definition field_spec :: "string \<Rightarrow> string \<Rightarrow> field_spec" where
  "field_spec k l = \<lparr>f_key = k, f_label = l, f_kind = None, f_options = [], f_optionsFrom = False,
     f_fill = False, f_placeholder = None, f_hint = None, f_width = None, f_pick = None,
     f_picker = None, f_pickerValue = None, f_pickerMultiple = False, f_pickerLocal = False,
     f_suggestions = [], f_suggestionsAppend = False\<rparr>"

datatype (plugins only: code size) half = Computer | User

datatype (plugins only: code size) setting_group =
  SystemConfiguration | Security | SoftwareAndDrivers | DesktopAndLogin | UserEnvironment |
  RemoteAccess | AdministrativeTemplates

definition GROUP_ORDER :: "setting_group list" where
  "GROUP_ORDER = [SystemConfiguration, Security, SoftwareAndDrivers, DesktopAndLogin,
     UserEnvironment, RemoteAccess, AdministrativeTemplates]"

record category_spec =
  c_key :: string
  c_id :: "string option"
  c_only :: "(string \<times> string list) option"
  c_title :: string
  c_half :: half
  c_group :: setting_group
  c_identity :: "string option"
  c_help :: string
  c_doc :: string
  c_docPage :: "string option"
  c_note :: "string option"
  c_fields :: "field_spec list"
  c_blank :: jsobj

record special_spec =
  s_key :: string
  s_title :: string
  s_half :: half
  s_group :: setting_group
  s_help :: string
  s_doc :: string
  s_docPage :: "string option"

definition special_spec ::
  "string \<Rightarrow> string \<Rightarrow> half \<Rightarrow> setting_group \<Rightarrow> string \<Rightarrow> string \<Rightarrow> string option \<Rightarrow> special_spec" where
  "special_spec k t h g hl d p = \<lparr>s_key = k, s_title = t, s_half = h, s_group = g, s_help = hl,
     s_doc = d, s_docPage = p\<rparr>"

definition right_arrow :: string where
  "right_arrow = [CHR 0xE2, CHR 0x86, CHR 0x92]"

section \<open>The tables\<close>

definition COMMON_SUDO_COMMANDS :: "(string \<times> string) list" where
  "COMMON_SUDO_COMMANDS =
           [(''ALL'', ''Everything (full sudo)''),
            (''/usr/bin/systemctl'', (''Manage services '' @ em_dash @ '' systemctl'')),
            (''/usr/bin/journalctl'', (''Read logs '' @ em_dash @ '' journalctl'')),
            (''/usr/bin/apt, /usr/bin/apt-get'', (''Install packages '' @ em_dash @ '' apt'')),
            (''/usr/bin/dpkg'', (''Install packages '' @ em_dash @ '' dpkg'')),
            (''/usr/sbin/reboot, /usr/sbin/shutdown'', ''Restart and shut down''),
            (''/usr/bin/mount, /usr/bin/umount'', ''Mount and unmount''),
            (''/usr/sbin/odm-agent'', (''Re-apply policy '' @ em_dash @ '' odm-agent'')),
            (''/usr/bin/passwd'', (''Change local passwords '' @ em_dash @ '' passwd'')),
            (''/usr/sbin/ufw, /usr/sbin/nft'', (''Firewall '' @ em_dash @ '' ufw, nft''))]"

definition category_files :: category_spec where
  "category_files = \<lparr>
     c_key = ''files'', c_id = None, c_only = None,
     c_title = ''File deployment'', c_half = Computer, c_group = SystemConfiguration, c_identity = Some ''path'',
     c_help = ''A file written to every machine the policy reaches, with the owner and mode it should have.'',
     c_doc = ''file-deployment'', c_docPage = None, c_note = None,
     c_fields =
      [(field_spec ''path'' ''Path'')\<lparr>f_placeholder := Some ''/etc/motd''\<rparr>,
       (field_spec ''content'' ''Content'')\<lparr>f_kind := Some KTextarea\<rparr>,
       (field_spec ''mode'' ''Mode'')\<lparr>f_width := Some ''90px''\<rparr>,
       (field_spec ''owner'' ''Owner'')\<lparr>f_width := Some ''150px'', f_picker := Some ''user''\<rparr>,
       (field_spec ''group'' ''Group'')\<lparr>f_width := Some ''150px'', f_picker := Some ''group''\<rparr>],
     c_blank = [(''path'', JStr []), (''content'', JStr []), (''mode'', JStr ''0644''), (''owner'', JStr ''root''), (''group'', JStr ''root'')]\<rparr>"

definition category_scripts_computer :: category_spec where
  "category_scripts_computer = \<lparr>
     c_key = ''scripts'', c_id = Some ''scripts-computer'', c_only = Some (''trigger'', [''startup'', ''shutdown'']),
     c_title = ''Startup and shutdown scripts'', c_half = Computer, c_group = SystemConfiguration, c_identity = Some ''name'',
     c_help = ''A script the machine runs as root when it starts or as it shuts down.'',
     c_doc = ''scripts'', c_docPage = None, c_note = None,
     c_fields =
      [(field_spec ''trigger'' ''Trigger'')\<lparr>f_kind := Some KSelect, f_options := [''startup'', ''shutdown''], f_width := Some ''130px''\<rparr>,
       (field_spec ''name'' ''Name'')\<lparr>f_width := Some ''160px''\<rparr>,
       (field_spec ''interpreter'' ''Interpreter'')\<lparr>f_width := Some ''140px'', 
         f_suggestions := [(''/bin/sh'', (''Shell '' @ em_dash @ '' /bin/sh'')),
            (''/bin/bash'', (''Bash '' @ em_dash @ '' /bin/bash'')),
            (''/usr/bin/python3'', ''Python 3'')]\<rparr>,
       (field_spec ''content'' ''Script'')\<lparr>f_kind := Some KTextarea\<rparr>],
     c_blank = [(''trigger'', JStr ''startup''), (''name'', JStr []), (''interpreter'', JStr ''/bin/sh''), (''content'', JStr [])]\<rparr>"

definition category_scripts_user :: category_spec where
  "category_scripts_user = \<lparr>
     c_key = ''scripts'', c_id = Some ''scripts-user'', c_only = Some (''trigger'', [''logon'', ''logoff'']),
     c_title = ''Logon and logoff scripts'', c_half = User, c_group = SystemConfiguration, c_identity = Some ''name'',
     c_help = ''A script that runs as the person signing in or out, in their own session.'',
     c_doc = ''scripts'', c_docPage = None, c_note = None,
     c_fields =
      [(field_spec ''trigger'' ''Trigger'')\<lparr>f_kind := Some KSelect, f_options := [''logon'', ''logoff''], f_width := Some ''130px''\<rparr>,
       (field_spec ''name'' ''Name'')\<lparr>f_width := Some ''160px''\<rparr>,
       (field_spec ''interpreter'' ''Interpreter'')\<lparr>f_width := Some ''140px'', 
         f_suggestions := [(''/bin/sh'', (''Shell '' @ em_dash @ '' /bin/sh'')),
            (''/bin/bash'', (''Bash '' @ em_dash @ '' /bin/bash'')),
            (''/usr/bin/python3'', ''Python 3'')]\<rparr>,
       (field_spec ''content'' ''Script'')\<lparr>f_kind := Some KTextarea\<rparr>],
     c_blank = [(''trigger'', JStr ''logon''), (''name'', JStr []), (''interpreter'', JStr ''/bin/sh''), (''content'', JStr [])]\<rparr>"

definition category_systemd_units :: category_spec where
  "category_systemd_units = \<lparr>
     c_key = ''systemd_units'', c_id = None, c_only = None,
     c_title = ''systemd units'', c_half = Computer, c_group = SystemConfiguration, c_identity = Some ''unit'',
     c_help = ''The state a service, socket or timer is held in: enabled, disabled, masked, started or stopped.'',
     c_doc = ''systemd-units'', c_docPage = None, c_note = None,
     c_fields =
      [(field_spec ''unit'' ''Unit'')\<lparr>f_placeholder := Some ''telnet.socket''\<rparr>,
       (field_spec ''state'' ''State'')\<lparr>f_kind := Some KSelect, 
         f_options := [''enabled'', ''disabled'', ''masked'', ''started'', ''stopped''], 
         f_width := Some ''140px''\<rparr>],
     c_blank = [(''unit'', JStr []), (''state'', JStr ''enabled'')]\<rparr>"

definition category_cron :: category_spec where
  "category_cron = \<lparr>
     c_key = ''cron'', c_id = None, c_only = None,
     c_title = ''Scheduled tasks'', c_half = Computer, c_group = SystemConfiguration, c_identity = Some ''name'',
     c_help = ''A command run on a schedule, written into the machine's cron. Five cron fields, or an @keyword such as @daily.'',
     c_doc = ''scheduled-tasks'', c_docPage = None, c_note = None,
     c_fields =
      [(field_spec ''name'' ''Name'')\<lparr>f_width := Some ''160px''\<rparr>,
       (field_spec ''schedule'' ''Schedule'')\<lparr>f_placeholder := Some ''0 3 * * 0'', f_width := Some ''150px'', 
         f_suggestions := [(''@daily'', (''Every day at midnight '' @ em_dash @ '' @daily'')),
            (''@hourly'', (''Every hour '' @ em_dash @ '' @hourly'')),
            (''@weekly'', (''Every week '' @ em_dash @ '' @weekly'')),
            (''@reboot'', (''At every boot '' @ em_dash @ '' @reboot'')),
            (''0 3 * * *'', ''Every day at 03:00''),
            (''*/15 * * * *'', ''Every quarter of an hour'')]\<rparr>,
       field_spec ''command'' ''Command'',
       (field_spec ''user'' ''Run as'')\<lparr>f_width := Some ''150px'', f_picker := Some ''user''\<rparr>],
     c_blank = [(''name'', JStr []), (''schedule'', JStr ''0 3 * * 0''), (''command'', JStr []), (''user'', JStr ''root'')]\<rparr>"

definition category_drive_maps :: category_spec where
  "category_drive_maps = \<lparr>
     c_key = ''drive_maps'', c_id = None, c_only = None,
     c_title = ''Drive maps'', c_half = User, c_group = UserEnvironment, c_identity = Some ''name'',
     c_help = ''A share mounted for the person signing in, with their own Kerberos ticket.'',
     c_doc = ''drive-maps'', c_docPage = None, c_note = None,
     c_fields =
      [(field_spec ''name'' ''Name'')\<lparr>f_width := Some ''140px''\<rparr>,
       (field_spec ''unc'' ''Share'')\<lparr>f_placeholder := Some ''//fs01/shared'', 
         f_hint := Some ''The share as the file server publishes it'', f_pick := Some PickShare\<rparr>,
       (field_spec ''mount_point'' ''Mount point'')\<lparr>f_placeholder := Some ''/mnt/shared''\<rparr>,
       (field_spec ''display_name'' ''Shown as'')\<lparr>f_placeholder := Some ''The name above'', f_width := Some ''160px''\<rparr>,
       (field_spec ''for_principal'' ''For user or group'')\<lparr>f_placeholder := Some ''%Engineers'', f_picker := Some ''principal'', 
         f_pickerValue := Some ''principal''\<rparr>,
       field_spec ''options'' ''Options''],
     c_blank = [(''name'', JStr []), (''unc'', JStr []), (''mount_point'', JStr []), (''display_name'', JStr []), (''for_principal'', JStr []), (''options'', JStr [])]\<rparr>"

definition category_sudo_rules :: category_spec where
  "category_sudo_rules = \<lparr>
     c_key = ''sudo_rules'', c_id = None, c_only = None,
     c_title = ''Sudo rules'', c_half = Computer, c_group = Security, c_identity = Some ''name'',
     c_help = ''Who may run which commands as another user on the machines this policy reaches. Written to the directory as a sudoRole.'',
     c_doc = ''sudo-rules'', c_docPage = None, c_note = Some ''Users and commands are comma separated.'',
     c_fields =
      [(field_spec ''name'' ''Name'')\<lparr>f_width := Some ''140px''\<rparr>,
       (field_spec ''users'' ''Users and groups'')\<lparr>f_placeholder := Some ''%Helpdesk'', f_picker := Some ''principal'', 
         f_pickerValue := Some ''principal'', f_pickerMultiple := True, f_pickerLocal := True\<rparr>,
       (field_spec ''commands'' ''Commands'')\<lparr>f_placeholder := Some ''/usr/bin/systemctl'', f_suggestions := COMMON_SUDO_COMMANDS, 
         f_suggestionsAppend := True\<rparr>,
       (field_spec ''run_as'' ''Run as'')\<lparr>f_width := Some ''140px'', f_picker := Some ''user''\<rparr>,
       (field_spec ''nopasswd'' ''NOPASSWD'')\<lparr>f_kind := Some KCheckbox, f_width := Some ''110px''\<rparr>],
     c_blank = [(''name'', JStr []), (''users'', JArr []), (''commands'', JArr []), (''run_as'', JStr ''ALL''), (''nopasswd'', JBool False)]\<rparr>"

definition category_hbac_rules :: category_spec where
  "category_hbac_rules = \<lparr>
     c_key = ''hbac_rules'', c_id = None, c_only = None,
     c_title = ''HBAC rules'', c_half = Computer, c_group = Security, c_identity = Some ''principal'',
     c_help = ''Who may open a session, and how: locally, over SSH, or over remote desktop. Deny beats allow.'',
     c_doc = ''hbac-rules'', c_docPage = None, c_note = Some (''A group is written with a leading % '' @ em_dash @ '' Select'' @ ellipsis @ '' does that for you.''),
     c_fields =
      [(field_spec ''principal'' ''User, or %group'')\<lparr>f_placeholder := Some ''%Engineers'', f_picker := Some ''principal'', 
         f_pickerValue := Some ''principal'', f_pickerLocal := True\<rparr>,
       (field_spec ''service'' ''Service'')\<lparr>f_kind := Some KSelect, f_options := [''all'', ''local'', ''ssh'', ''rdp''], 
         f_width := Some ''120px''\<rparr>,
       (field_spec ''access'' ''Access'')\<lparr>f_kind := Some KSelect, f_options := [''allow'', ''deny''], f_width := Some ''110px''\<rparr>],
     c_blank = [(''principal'', JStr []), (''service'', JStr ''all''), (''access'', JStr ''allow'')]\<rparr>"

definition category_packages :: category_spec where
  "category_packages = \<lparr>
     c_key = ''packages'', c_id = None, c_only = None,
     c_title = ''Software deployment'', c_half = Computer, c_group = SoftwareAndDrivers, c_identity = Some ''name'',
     c_help = ''Packages the machine should have, keep current, or not have, installed with apt from its own sources.'',
     c_doc = ''software-deployment'', c_docPage = None, c_note = None,
     c_fields =
      [(field_spec ''name'' ''Package'')\<lparr>f_placeholder := Some ''cifs-utils''\<rparr>,
       (field_spec ''state'' ''State'')\<lparr>f_kind := Some KSelect, f_options := [''present'', ''latest'', ''absent''], 
         f_width := Some ''130px''\<rparr>],
     c_blank = [(''name'', JStr []), (''state'', JStr ''present'')]\<rparr>"

definition category_trusted_certificates :: category_spec where
  "category_trusted_certificates = \<lparr>
     c_key = ''trusted_certificates'', c_id = None, c_only = None,
     c_title = ''Trusted certificates'', c_half = Computer, c_group = Security, c_identity = Some ''name'',
     c_help = ''Authorities every machine trusts, installed into the system trust store.'',
     c_doc = ''trusted-certificates'', c_docPage = None, c_note = Some (''Certificates '' @ right_arrow @ '' Publish to domain writes this one; editing it here is unusual.''),
     c_fields =
      [(field_spec ''name'' ''Name'')\<lparr>f_placeholder := Some ''internal-root-ca''\<rparr>,
       (field_spec ''certificate_pem'' ''PEM'')\<lparr>f_kind := Some KTextarea, 
         f_hint := Some ''Paste an authority to trust, or fill in this domain's own'', 
         f_fill := True\<rparr>],
     c_blank = [(''name'', JStr []), (''certificate_pem'', JStr [])]\<rparr>"

definition category_certificate_enrolment :: category_spec where
  "category_certificate_enrolment = \<lparr>
     c_key = ''certificate_enrolment'', c_id = None, c_only = None,
     c_title = ''Certificates'', c_half = Computer, c_group = Security, c_identity = Some ''profile'',
     c_help = ''Certificates the machine requests for itself and renews before they expire.'',
     c_doc = ''certificate-enrolment'', c_docPage = None, c_note = None,
     c_fields =
      [(field_spec ''profile'' ''Kind'')\<lparr>f_kind := Some KSelect, f_options := [''server'', ''client''], f_optionsFrom := True, 
         f_width := Some ''130px''\<rparr>,
       (field_spec ''path'' ''Written to'')\<lparr>f_placeholder := Some ''/etc/ssl/odm''\<rparr>,
       (field_spec ''validity_days'' ''Valid for (days)'')\<lparr>f_kind := Some KNumber, f_width := Some ''150px''\<rparr>,
       (field_spec ''renew_before_days'' ''Renew with (days) left'')\<lparr>f_kind := Some KNumber, f_width := Some ''180px''\<rparr>],
     c_blank = [(''profile'', JStr ''server''), (''path'', JStr ''/etc/ssl/odm''), (''validity_days'', JNum 365), (''renew_before_days'', JNum 30)]\<rparr>"

definition category_wifi_networks :: category_spec where
  "category_wifi_networks = \<lparr>
     c_key = ''wifi_networks'', c_id = None, c_only = None,
     c_title = ''Wi-Fi networks'', c_half = Computer, c_group = SystemConfiguration, c_identity = Some ''ssid'',
     c_help = (''Wireless networks the machine joins on its own, before anyone signs in '' @ em_dash @ '' with 802.1X and its own certificate from the domain authority, or a pre-shared key.''),
     c_doc = ''wi-fi-networks'', c_docPage = None, c_note = Some (''For wpa-eap, turn on Certificates '' @ right_arrow @ '' machine certificate in a policy that reaches the machine, and install the RADIUS role: it checks the certificate against the domain authority.''),
     c_fields =
      [(field_spec ''ssid'' ''SSID'')\<lparr>f_placeholder := Some ''Corp''\<rparr>,
       (field_spec ''security'' ''Security'')\<lparr>f_kind := Some KSelect, f_options := [''wpa-eap'', ''wpa-psk'', ''open''], 
         f_width := Some ''120px''\<rparr>,
       (field_spec ''psk'' ''Pre-shared key'')\<lparr>f_hint := Some ''wpa-psk only; at least 8 characters''\<rparr>,
       (field_spec ''server_name'' ''RADIUS server name'')\<lparr>f_hint := Some ''wpa-eap: the server's certificate must carry this name; empty checks the chain only'', 
         f_placeholder := Some ''radius.corp.example.internal''\<rparr>,
       (field_spec ''certificate_path'' ''Machine certificate at'')\<lparr>f_placeholder := Some ''/etc/ssl/odm''\<rparr>,
       (field_spec ''hidden'' ''Hidden'')\<lparr>f_kind := Some KCheckbox, f_width := Some ''80px''\<rparr>,
       (field_spec ''autoconnect'' ''Join automatically'')\<lparr>f_kind := Some KCheckbox, f_width := Some ''90px''\<rparr>,
       (field_spec ''priority'' ''Priority'')\<lparr>f_kind := Some KNumber, f_width := Some ''90px''\<rparr>],
     c_blank = [(''ssid'', JStr []), (''security'', JStr ''wpa-eap''), (''eap'', JStr ''tls''), (''psk'', JStr []), (''server_name'', JStr []), (''certificate_path'', JStr ''/etc/ssl/odm''), (''hidden'', JBool False), (''autoconnect'', JBool True), (''priority'', JNum 0)]\<rparr>"

definition category_logon_hours :: category_spec where
  "category_logon_hours = \<lparr>
     c_key = ''logon_hours'', c_id = None, c_only = None,
     c_title = ''Logon hours'', c_half = Computer, c_group = Security, c_identity = Some ''principal'',
     c_help = (''When a person or a group may sign in at the machine '' @ em_dash @ '' at the screen, over SSH or over remote desktop. Somebody named by no rule is not restricted; somebody named by several may sign in during any of their windows.''),
     c_doc = ''logon-hours'', c_docPage = None, c_note = Some ''Enforced at sign-in only: sudo, cron and a session already open are untouched unless the rule also signs people out when their window closes. Local accounts are not restricted.'',
     c_fields =
      [(field_spec ''principal'' ''User or group'')\<lparr>f_placeholder := Some ''%Sales'', f_picker := Some ''principal'', 
         f_pickerValue := Some ''principal''\<rparr>,
       (field_spec ''days'' ''Days'')\<lparr>f_placeholder := Some ''mon, tue, wed, thu, fri'', 
         f_hint := Some (''mon, tue, wed, thu, fri, sat, sun '' @ em_dash @ '' separated by commas''), 
         f_suggestions := [(''mon, tue, wed, thu, fri'', ''Weekdays''),
            (''sat, sun'', ''Weekend''),
            (''mon, tue, wed, thu, fri, sat, sun'', ''Every day'')]\<rparr>,
       (field_spec ''start'' ''From'')\<lparr>f_placeholder := Some ''07:00'', f_width := Some ''90px''\<rparr>,
       (field_spec ''end'' ''Until'')\<lparr>f_placeholder := Some ''19:00'', f_width := Some ''90px'', 
         f_hint := Some ''Earlier than From means the window crosses midnight''\<rparr>,
       (field_spec ''sign_out'' ''Sign out when it ends'')\<lparr>f_kind := Some KCheckbox, f_width := Some ''120px''\<rparr>,
       (field_spec ''message'' ''Message when refused'')\<lparr>f_placeholder := Some ''Sales signs in during office hours.''\<rparr>],
     c_blank = [(''principal'', JStr []), (''days'', JArr [JStr ''mon'', JStr ''tue'', JStr ''wed'', JStr ''thu'', JStr ''fri'']), (''start'', JStr ''07:00''), (''end'', JStr ''19:00''), (''sign_out'', JBool False), (''message'', JStr [])]\<rparr>"

definition category_web_apps :: category_spec where
  "category_web_apps = \<lparr>
     c_key = ''web_apps'', c_id = None, c_only = None,
     c_title = ''Web applications'', c_half = Computer, c_group = SoftwareAndDrivers, c_identity = Some ''name'',
     c_help = (''A web site installed as if it were a program: a launcher with an icon that opens the site in a window of its own, without an address bar '' @ em_dash @ '' what '' @ [CHR 0x22] @ ''Install as app'' @ [CHR 0x22] @ '' does in the browser, for everybody on the machine. Outlook on the web, Teams, an intranet application.''),
     c_doc = ''web-applications'', c_docPage = None, c_note = Some ''Chromium's application mode is used where Chromium is installed; otherwise Firefox opens the site in a window of its own with the tab strip and toolbar hidden, under a profile of its own per application. Pin the launcher with Dash and taskbar: its entry is odm-webapp-<name>.desktop.'',
     c_fields =
      [(field_spec ''name'' ''Name'')\<lparr>f_placeholder := Some ''Outlook'', f_width := Some ''180px''\<rparr>,
       (field_spec ''url'' ''Address'')\<lparr>f_placeholder := Some ''https://outlook.office.com/mail/''\<rparr>,
       (field_spec ''icon_url'' ''Icon'')\<lparr>f_kind := Some KImage, 
         f_placeholder := Some (''https://'' @ ellipsis @ ''/icon.png, or choose a file''), 
         f_hint := Some ''A picture file (drawn at 256 px), or the address of a PNG or SVG the machine fetches once; empty reads the site for the largest icon it declares''\<rparr>,
       (field_spec ''browser'' ''Browser'')\<lparr>f_kind := Some KSelect, f_options := [''auto'', ''chromium'', ''firefox''], 
         f_width := Some ''120px''\<rparr>,
       (field_spec ''categories'' ''Menu categories'')\<lparr>f_placeholder := Some ''Office, Network'', 
         f_hint := Some (''Office, Network, Utility, Development, Graphics, AudioVideo '' @ em_dash @ '' separated by commas'')\<rparr>,
       (field_spec ''comment'' ''Description'')\<lparr>f_placeholder := Some ''Mail and calendar''\<rparr>],
     c_blank = [(''name'', JStr []), (''url'', JStr []), (''icon_url'', JStr []), (''browser'', JStr ''auto''), (''categories'', JArr []), (''comment'', JStr [])]\<rparr>"

definition category_remote_desktop_files :: category_spec where
  "category_remote_desktop_files = \<lparr>
     c_key = ''remote_desktop_files'', c_id = None, c_only = None,
     c_title = ''Remote desktop files'', c_half = User, c_group = UserEnvironment, c_identity = Some ''name'',
     c_help = ''A connection file on the desktop of everybody in a group, for one remote desktop collection. It goes when the membership or the link does.'',
     c_doc = ''remote-desktop-files'', c_docPage = Some ''remote-desktop'', c_note = None,
     c_fields =
      [(field_spec ''name'' ''Name'')\<lparr>f_width := Some ''180px'', f_placeholder := Some ''Terminal Server'', 
         f_hint := Some ''What the icon is called on the desktop'', f_pick := Some PickCollection\<rparr>,
       (field_spec ''address'' ''Broker'')\<lparr>f_placeholder := Some ''rd.corp.example.internal'', 
         f_hint := Some ''The collection's broker. Clients connect here, never to a host.'', 
         f_pick := Some PickCollection\<rparr>,
       (field_spec ''application'' ''Published application'')\<lparr>f_placeholder := Some ''Empty for a whole desktop'', 
         f_hint := Some ''From the collection: empty unless it publishes an application'', 
         f_pick := Some PickCollection\<rparr>,
       (field_spec ''for_principal'' ''For user or group'')\<lparr>f_placeholder := Some ''%Finance'', f_picker := Some ''principal'', 
         f_pickerValue := Some ''principal''\<rparr>,
       (field_spec ''full_screen'' ''Full screen'')\<lparr>f_kind := Some KCheckbox, f_width := Some ''110px''\<rparr>],
     c_blank = [(''name'', JStr []), (''address'', JStr []), (''collection'', JStr []), (''application'', JStr []), (''for_principal'', JStr []), (''full_screen'', JBool True)]\<rparr>"

definition category_default_applications :: category_spec where
  "category_default_applications = \<lparr>
     c_key = ''default_applications'', c_id = None, c_only = None,
     c_title = ''Default applications'', c_half = Computer, c_group = DesktopAndLogin, c_identity = Some ''mime_type'',
     c_help = ''Which program opens which kind of file. Give the extensions too for a type the machine does not already know, such as .rdp.'',
     c_doc = ''default-applications'', c_docPage = None, c_note = None,
     c_fields =
      [(field_spec ''mime_type'' ''File type'')\<lparr>f_width := Some ''220px'', f_placeholder := Some ''application/x-rdp'', 
         f_hint := Some ''The MIME type, as the desktop names it'', 
         f_suggestions := [(''application/x-rdp'', (''Remote desktop connection '' @ em_dash @ '' .rdp'')),
            (''application/pdf'', ''PDF''),
            (''text/html'', ''Web page''),
            (''text/plain'', ''Plain text''),
            (''application/zip'', ''Zip archive''),
            (''x-scheme-handler/http'', (''Links '' @ em_dash @ '' http'')),
            (''x-scheme-handler/https'', (''Links '' @ em_dash @ '' https'')),
            (''x-scheme-handler/mailto'', (''Mail links '' @ em_dash @ '' mailto''))]\<rparr>,
       (field_spec ''application'' ''Opened by'')\<lparr>f_placeholder := Some ''org.remmina.Remmina.desktop'', 
         f_hint := Some ''The desktop entry, as it is named under /usr/share/applications'', 
         f_suggestions := [(''org.remmina.Remmina.desktop'', (''Remmina '' @ em_dash @ '' remote desktop'')),
            (''firefox-esr.desktop'', ''Firefox ESR''),
            (''chromium.desktop'', ''Chromium''),
            (''org.gnome.Evince.desktop'', (''Evince '' @ em_dash @ '' documents'')),
            (''org.gnome.TextEditor.desktop'', ''Text Editor''),
            (''libreoffice-writer.desktop'', ''LibreOffice Writer''),
            (''org.gnome.FileRoller.desktop'', ''Archive Manager'')]\<rparr>,
       (field_spec ''extensions'' ''Extensions'')\<lparr>f_width := Some ''150px'', f_placeholder := Some ''rdp'', 
         f_hint := Some ''Only for a type the machine has never heard of. Comma separated, no dot.''\<rparr>],
     c_blank = [(''mime_type'', JStr []), (''application'', JStr []), (''extensions'', JStr [])]\<rparr>"

definition category_dash :: category_spec where
  "category_dash = \<lparr>
     c_key = ''dash'', c_id = None, c_only = None,
     c_title = ''Dash and taskbar'', c_half = User, c_group = DesktopAndLogin, c_identity = Some ''name'',
     c_help = ''What is pinned to the dash, and in what order, for the people this entry names. GNOME Shell; other desktops keep their launchers elsewhere.'',
     c_doc = ''dash-and-taskbar'', c_docPage = None, c_note = None,
     c_fields =
      [(field_spec ''name'' ''Name'')\<lparr>f_width := Some ''160px'', f_placeholder := Some ''Finance layout''\<rparr>,
       (field_spec ''applications'' ''Pinned, in order'')\<lparr>f_placeholder := Some ''firefox-esr.desktop, org.remmina.Remmina.desktop'', 
         f_hint := Some ''Desktop entries, comma separated. The order here is the order on screen.'', 
         f_suggestionsAppend := True, 
         f_suggestions := [(''firefox-esr.desktop'', ''Firefox ESR''),
            (''chromium.desktop'', ''Chromium''),
            (''org.gnome.Nautilus.desktop'', ''Files''),
            (''org.gnome.Terminal.desktop'', ''Terminal''),
            (''org.remmina.Remmina.desktop'', (''Remmina '' @ em_dash @ '' remote desktop'')),
            (''libreoffice-startcenter.desktop'', ''LibreOffice''),
            (''org.gnome.Software.desktop'', ''Software''),
            (''org.gnome.Settings.desktop'', ''Settings'')]\<rparr>,
       (field_spec ''for_principal'' ''For user or group'')\<lparr>f_width := Some ''180px'', f_placeholder := Some ''%Finance'', f_picker := Some ''principal'', 
         f_pickerValue := Some ''principal''\<rparr>,
       (field_spec ''allow_user_change'' ''User may change it'')\<lparr>f_kind := Some KCheckbox, f_width := Some ''140px'', 
         f_hint := Some ''Off, this layout is put back at every sign-in. On, it is only a starting point: rearranged after that, it is left alone until this entry itself changes.''\<rparr>],
     c_blank = [(''name'', JStr []), (''applications'', JStr []), (''for_principal'', JStr []), (''allow_user_change'', JBool False)]\<rparr>"

definition category_sysctl :: category_spec where
  "category_sysctl = \<lparr>
     c_key = ''sysctl'', c_id = None, c_only = None,
     c_title = ''Kernel parameters'', c_half = Computer, c_group = SystemConfiguration, c_identity = Some ''key'',
     c_help = ''Kernel settings, as sysctl names them. Written to /etc/sysctl.d and applied without a restart.'',
     c_doc = ''kernel-parameters'', c_docPage = None, c_note = None,
     c_fields =
      [(field_spec ''key'' ''Parameter'')\<lparr>f_width := Some ''320px'', f_placeholder := Some ''net.ipv4.conf.all.rp_filter'', 
         f_suggestions := [(''net.ipv4.conf.all.rp_filter'', ''Reject spoofed source addresses''),
            (''net.ipv4.conf.all.accept_redirects'', ''Ignore ICMP redirects''),
            (''net.ipv4.conf.all.send_redirects'', ''Do not send ICMP redirects''),
            (''net.ipv4.tcp_syncookies'', ''SYN cookies''),
            (''kernel.randomize_va_space'', ''Address space randomisation''),
            (''kernel.kptr_restrict'', ''Hide kernel pointers''),
            (''kernel.dmesg_restrict'', ''Restrict the kernel log''),
            (''fs.protected_hardlinks'', ''Protect hard links''),
            (''fs.protected_symlinks'', ''Protect symbolic links''),
            (''net.ipv4.ip_forward'', ''Route between interfaces''),
            (''vm.swappiness'', ''How readily it swaps'')]\<rparr>,
       (field_spec ''value'' ''Value'')\<lparr>f_width := Some ''160px'', f_placeholder := Some ''1''\<rparr>],
     c_blank = [(''key'', JStr []), (''value'', JStr [])]\<rparr>"

definition category_shortcuts :: category_spec where
  "category_shortcuts = \<lparr>
     c_key = ''shortcuts'', c_id = None, c_only = None,
     c_title = ''Shortcuts and bookmarks'', c_half = User, c_group = DesktopAndLogin, c_identity = Some ''name'',
     c_help = ''An icon on the desktop, an entry in the menu, or a place in the file manager's sidebar, for the people this entry names.'',
     c_doc = ''shortcuts-and-bookmarks'', c_docPage = None, c_note = None,
     c_fields =
      [(field_spec ''name'' ''Name'')\<lparr>f_width := Some ''180px'', f_placeholder := Some ''Intranet''\<rparr>,
       (field_spec ''kind'' ''Kind'')\<lparr>f_kind := Some KSelect, f_options := [''link'', ''application'', ''place''], 
         f_width := Some ''140px'', 
         f_hint := Some ''A link opens a URL, an application runs a program, a place appears in the file manager''\<rparr>,
       (field_spec ''target'' ''Opens'')\<lparr>f_placeholder := Some ''https://intranet.example.org'', 
         f_hint := Some ''A URL for a link, an absolute path for an application, a path or smb:// for a place''\<rparr>,
       (field_spec ''icon'' ''Icon'')\<lparr>f_width := Some ''150px'', f_placeholder := Some ''web-browser''\<rparr>,
       (field_spec ''where'' ''Shown in'')\<lparr>f_kind := Some KSelect, f_options := [''desktop'', ''menu'', ''both''], f_width := Some ''130px''\<rparr>,
       (field_spec ''for_principal'' ''For user or group'')\<lparr>f_width := Some ''170px'', f_placeholder := Some ''%Finance'', f_picker := Some ''principal'', 
         f_pickerValue := Some ''principal''\<rparr>],
     c_blank = [(''name'', JStr []), (''kind'', JStr ''link''), (''target'', JStr []), (''icon'', JStr []), (''where'', JStr ''desktop''), (''for_principal'', JStr [])]\<rparr>"

definition category_printers :: category_spec where
  "category_printers = \<lparr>
     c_key = ''printers'', c_id = None, c_only = None,
     c_title = ''Printers'', c_half = User, c_group = UserEnvironment, c_identity = Some ''name'',
     c_help = ''Printers the person signing in should have, from a machine carrying the print-server role.'',
     c_doc = ''printers'', c_docPage = None, c_note = None,
     c_fields =
      [(field_spec ''name'' ''Printer'')\<lparr>f_width := Some ''180px'', f_placeholder := Some ''odm-prt-01'', 
         f_hint := Some (''The queue on the print server, as listed under Printers '' @ em_dash @ '' not the device address''), 
         f_pick := Some PickPrinter\<rparr>,
       (field_spec ''server'' ''Print server'')\<lparr>f_picker := Some ''computer'', f_pickerValue := Some ''host'', 
         f_hint := Some ''Filled in by choosing a printer above''\<rparr>,
       (field_spec ''for_principal'' ''For user or group'')\<lparr>f_placeholder := Some ''%Finance'', f_picker := Some ''principal'', 
         f_pickerValue := Some ''principal''\<rparr>,
       (field_spec ''default'' ''Default'')\<lparr>f_kind := Some KCheckbox, f_width := Some ''90px''\<rparr>],
     c_blank = [(''name'', JStr []), (''server'', JStr []), (''for_principal'', JStr []), (''default'', JBool False)]\<rparr>"

definition category_firewall :: category_spec where
  "category_firewall = \<lparr>
     c_key = ''firewall'', c_id = None, c_only = None,
     c_title = ''Firewall rules'', c_half = Computer, c_group = Security, c_identity = Some ''name'',
     c_help = ''Rules applied to the machine's firewall. Anything not named here is left as it is.'',
     c_doc = ''firewall-rules'', c_docPage = None, c_note = None,
     c_fields =
      [(field_spec ''name'' ''Name'')\<lparr>f_width := Some ''140px''\<rparr>,
       (field_spec ''action'' ''Action'')\<lparr>f_kind := Some KSelect, f_options := [''allow'', ''deny''], f_width := Some ''110px''\<rparr>,
       (field_spec ''direction'' ''Direction'')\<lparr>f_kind := Some KSelect, f_options := [''in'', ''out''], f_width := Some ''110px''\<rparr>,
       (field_spec ''protocol'' ''Protocol'')\<lparr>f_kind := Some KSelect, f_options := [''tcp'', ''udp'', ''icmp'', ''any''], 
         f_width := Some ''110px''\<rparr>,
       (field_spec ''port'' ''Port'')\<lparr>f_kind := Some KNumber, f_width := Some ''100px''\<rparr>,
       (field_spec ''source'' ''Source'')\<lparr>f_placeholder := Some ''10.0.0.0/8''\<rparr>],
     c_blank = [(''name'', JStr []), (''action'', JStr ''allow''), (''direction'', JStr ''in''), (''protocol'', JStr ''tcp''), (''port'', JNull), (''source'', JStr ''any'')]\<rparr>"

definition CATEGORIES :: "category_spec list" where
  "CATEGORIES =
     [category_files, category_scripts_computer, category_scripts_user, category_systemd_units,
      category_cron, category_drive_maps, category_sudo_rules, category_hbac_rules,
      category_packages, category_trusted_certificates, category_certificate_enrolment, category_wifi_networks,
      category_logon_hours, category_web_apps, category_remote_desktop_files, category_default_applications,
      category_dash, category_sysctl, category_shortcuts, category_printers,
      category_firewall]"

definition SPECIAL_1 :: "special_spec list" where
  "SPECIAL_1 =
     [special_spec ''certificates'' ''Domain authority'' Computer Security
        (''The domain's own certificate authority on every machine the policy reaches '' @ em_dash @ '' trusted by the system and the browsers '' @ em_dash @ '' and a certificate of the machine's own for 802.1X.'')
        ''domain-authority'' None,
      special_spec ''updates'' ''System updates'' Computer SoftwareAndDrivers
        ''Which updates the machine installs unattended, on what schedule, and whether it may restart to finish them.''
        ''system-updates'' None,
      special_spec ''login_screen'' ''Login screen'' Computer DesktopAndLogin
        ''The greeter, before anybody has signed in: its message, its background, and whether it lists accounts. Separate from the desktop background, which belongs to whoever is signed in.''
        ''login-screen-and-desktop-background'' None,
      special_spec ''always_on_vpn'' ''Always-on VPN'' Computer RemoteAccess
        ''Holds a WireGuard tunnel up on the machine, optionally refusing to route the networks it carries until it is up.''
        ''always-on-vpn'' None,
      special_spec ''local_administrator'' ''Local administrator'' Computer Security
        ''A local account with a password the machine generates, rotates on a schedule and reports back. Different on every machine.''
        ''local-administrator'' None,
      special_spec ''graphics_drivers'' ''Graphics drivers'' Computer SoftwareAndDrivers
        (''Which GPU driver a machine should have '' @ em_dash @ '' detected from its hardware, or named directly. Never uninstalled by removing this setting.'')
        ''graphics-drivers'' None,
      special_spec ''grub'' ''Boot loader'' Computer SystemConfiguration
        (''How long GRUB waits, and whether it shows its menu at all, before starting Debian '' @ em_dash @ '' and, past the menu, a graphical boot splash in place of the boot messages.'')
        ''boot-loader'' None,
      special_spec ''remote_desktop_session'' ''Remote desktop session'' Computer RemoteAccess
        ''What a remote desktop session carries between client and host: clipboard, printers, drives, audio, microphone. Set here and linked where it applies, rather than on a collection.''
        ''remote-desktop-session'' None,
      special_spec ''agent_update'' ''Agent updates'' Computer SoftwareAndDrivers
        ''Whether machines take the ODM agent this console hands out. Off keeps every agent where it is; notify only reports how far behind a machine is.''
        ''agent-updates'' None,
      special_spec ''power'' ''Power and suspend'' Computer DesktopAndLogin
        ''When the screen turns off, when the machine suspends, and what the lid and the power button do. Enforced by logind as well as the desktop, so a laptop closed at the login screen behaves the same way.''
        ''power-and-suspend'' None]"

definition SPECIAL_2 :: "special_spec list" where
  "SPECIAL_2 =
     [special_spec ''regional'' ''Regional settings'' Computer SystemConfiguration
        (''Language, formats, keyboard layout and time zone '' @ em_dash @ '' for the login screen, the console and every desktop session on the machine.'')
        ''regional-settings'' None,
      special_spec ''firmware_updates'' ''Firmware updates'' Computer SoftwareAndDrivers
        ''Firmware from the Linux Vendor Firmware Service through fwupd: the BIOS, the dock, the SSD. Listed on each machine's page, and installed when the policy says so.''
        ''firmware-updates'' None,
      special_spec ''firefox_policy'' ''Firefox'' Computer SoftwareAndDrivers
        (''Firefox, in plain settings: start page, bookmarks, extensions, the password manager, history, proxy, sites '' @ em_dash @ '' written to Firefox's own policies.json on every machine.'')
        ''firefox'' None,
      special_spec ''chromium_policy'' ''Chromium and Chrome'' Computer SoftwareAndDrivers
        (''Chromium and Chrome, in plain settings: start page, bookmarks, extensions, the password manager, history, proxy, sites '' @ em_dash @ '' written to the browsers' managed-policy directory.'')
        ''chromium-and-chrome'' None,
      special_spec ''computer_names'' ''Computer names'' Computer SystemConfiguration
        (''What the machines this policy reaches are called: a template with a number in it, or the hardware serial. A machine whose name does not fit is handed the next free number and renamed '' @ em_dash @ '' account, keytab and DNS record with it.'')
        ''computer-names'' None,
      special_spec ''password_manager'' ''Password manager'' Computer SoftwareAndDrivers
        (''The domain's vault on the machine: Bitwarden's browser extension in Firefox and Chromium, its desktop app, or both '' @ em_dash @ '' installed, pointed at the vault the password-manager role runs, and removed again when the setting goes. People sign in with their domain account.'')
        ''password-manager'' None,
      special_spec ''device_control'' ''Peripherals'' Computer Security
        ''Whether Bluetooth, cameras and microphones may be used on the machine. Radios and cameras are refused at the kernel, microphones in the sound server; a device named by id is let through regardless.''
        ''peripherals'' None,
      special_spec ''screen_lock'' ''Screen lock'' Computer DesktopAndLogin
        ''When an idle screen locks itself, how long the grace period is, and whether somebody may turn it off.''
        ''screen-lock'' None,
      special_spec ''removable_storage'' ''Removable storage'' Computer Security
        ''What may be done with a disk somebody plugs in: nothing, read it, or use it. Named groups can be exempted.''
        ''removable-storage'' None,
      special_spec ''fonts'' ''Fonts'' Computer DesktopAndLogin
        ''Font files installed for everybody on the machine. A font removed here is removed from the machine.''
        ''fonts'' None]"

definition SPECIAL_3 :: "special_spec list" where
  "SPECIAL_3 =
     [special_spec ''custom_packages'' ''Custom packages'' Computer SoftwareAndDrivers
        (''A .deb uploaded directly, for software with no apt repository this domain can reach '' @ em_dash @ '' installed the way apt-get install ./file.deb would.'')
        ''custom-packages'' None,
      special_spec ''desktop_theme'' ''Desktop theme'' Computer DesktopAndLogin
        ''Theme, icons, cursor and the interface fonts. Deploy the fonts themselves under Fonts, or name ones the machine already has.''
        ''desktop-theme'' None,
      special_spec ''second_factor'' ''Second factor'' Computer Security
        ''A code as well as a password, at the machine. The same enrolment as the console's, so one QR code covers both, and people who have not enrolled are walked through it when they sign in.''
        ''second-factor'' None,
      special_spec ''software_control'' ''Software control'' Computer SoftwareAndDrivers
        ''Which packages may be installed. Anything not on the list is refused; upgrading what is already installed is always allowed.''
        ''software-control'' None,
      special_spec ''first_run'' ''First sign-in'' Computer DesktopAndLogin
        (''What somebody is shown the first time they sign in '' @ em_dash @ '' the distribution's welcome tour, and a message of the day if you want one.'')
        ''first-sign-in'' None,
      special_spec ''local_password_policy'' ''Local password policy'' Computer Security
        ''What a password on the machine itself has to be, and how long it lasts. Accounts in the domain keep the domain's own rules.''
        ''local-password-policy'' None,
      special_spec ''roaming_profile'' ''Roaming profile'' User UserEnvironment
        ''Where a person's home directory lives, so it follows them from machine to machine.''
        ''roaming-profile'' None,
      special_spec ''wallpaper'' ''Desktop background'' User DesktopAndLogin
        ''The picture behind the desktop, and whether the person signing in may change it.''
        ''desktop-background'' None,
      special_spec ''admx'' ''Administrative templates'' Computer AdministrativeTemplates
        ''Settings from imported ADMX templates. Import a template under Group Policy, then configure its policies here.''
        ''quickstart'' (Some ''administrative-templates'')]"

definition SPECIAL :: "special_spec list" where
  "SPECIAL = SPECIAL_1 @ SPECIAL_2 @ SPECIAL_3"

end
