(* ===== verification/JsNumber.thy ===== *)
theory JsNumber
  imports JsValue
begin

text \<open>
  \<open>Number(text)\<close>, which the forms apply to what is typed in a number field: a decimal literal
  with an optional sign, fraction and exponent, blanks around it, and the empty text, which is 0;
  anything else is \<open>NaN\<close>. Hexadecimal, octal and binary literals and \<open>Infinity\<close> are left out: a
  number field never holds one.
\<close>

definition digits_value :: "string \<Rightarrow> nat" where
  "digits_value s = foldl (\<lambda>a c. 10 * a + (of_char c - 48)) 0 s"

fun strip_zeros :: "int \<Rightarrow> nat \<Rightarrow> jsval" where
  "strip_zeros m 0 = JNum m"
| "strip_zeros m (Suc s) = (if m mod 10 = 0 then strip_zeros (m div 10) s else JDec m (Suc s))"

text \<open>The value m * 10^e.\<close>

definition scaled :: "int \<Rightarrow> int \<Rightarrow> jsval" where
  "scaled m e = (if 0 \<le> e then JNum (m * 10 ^ nat e) else strip_zeros m (nat (- e)))"

definition cut_at :: "(char \<Rightarrow> bool) \<Rightarrow> string \<Rightarrow> string \<times> string option" where
  "cut_at p s = (takeWhile (\<lambda>c. \<not> p c) s,
     (case dropWhile (\<lambda>c. \<not> p c) s of [] \<Rightarrow> None | _ # t \<Rightarrow> Some t))"

definition signed_text :: "string \<Rightarrow> bool \<times> string" where
  "signed_text s = (case s of c # t \<Rightarrow> if c = CHR ''-'' then (True, t) else if c = CHR ''+'' then (False, t) else (False, s)
                    | [] \<Rightarrow> (False, s))"

definition exponent_value :: "string option \<Rightarrow> int option" where
  "exponent_value e = (case e of None \<Rightarrow> Some 0
     | Some t \<Rightarrow> (let (neg, d) = signed_text t in
         if d \<noteq> [] \<and> list_all is_digit d
         then Some (if neg then - int (digits_value d) else int (digits_value d)) else None))"

definition js_Number :: "string \<Rightarrow> jsval" where
  "js_Number s =
     (let t = js_trim s in
      if t = [] then JNum 0
      else (let (neg, u) = signed_text t;
                (mantissa, expo) = cut_at (\<lambda>c. c = CHR ''e'' \<or> c = CHR ''E'') u;
                (whole, frac) = cut_at (\<lambda>c. c = CHR ''.'') mantissa;
                f = (case frac of None \<Rightarrow> [] | Some f \<Rightarrow> f)
            in if whole @ f \<noteq> [] \<and> list_all is_digit (whole @ f)
               then (case exponent_value expo of None \<Rightarrow> JNaN
                     | Some e \<Rightarrow> scaled ((if neg then -1 else 1) * int (digits_value (whole @ f))) (e - int (length f)))
               else JNaN))"

section \<open>What is shown reads back\<close>

lemma digits_value_snoc: "digits_value (s @ [c]) = 10 * digits_value s + (of_char c - 48)"
  by (simp add: digits_value_def)

lemma of_char_digit: "m < 10 \<Longrightarrow> (of_char (char_of (48 + m :: nat) :: char) :: nat) = 48 + m"
  by simp

lemma digits_value_show [simp]: "digits_value (show_nat n) = n"
proof (induction n rule: show_nat.induct)
  case (1 n)
  show ?case
  proof (cases "n < 10")
    case True
    then show ?thesis by (subst show_nat.simps) (simp add: digits_value_def of_char_digit)
  next
    case False
    then show ?thesis
      using "1.IH" of_char_digit [of "n mod 10"]
      by (subst show_nat.simps) (simp add: digits_value_snoc)
  qed
qed

lemma digit_not:
  "is_digit c \<Longrightarrow> \<not> is_space c \<and> c \<noteq> CHR ''-'' \<and> c \<noteq> CHR ''+'' \<and> c \<noteq> CHR ''.'' \<and> c \<noteq> CHR ''e'' \<and> c \<noteq> CHR ''E'' \<and>
   c \<noteq> CHR '',''"
proof -
  have "list_all (\<lambda>c. \<not> is_space c \<and> c \<notin> set ''-+.eE,'') ''0123456789''"
    by code_simp
  moreover have "is_digit c \<Longrightarrow> c \<in> set ''0123456789''"
  proof -
    assume "is_digit c"
    then have "48 \<le> (of_char c :: nat)" "of_char c \<le> (57 :: nat)"
      by (simp_all add: is_digit_def less_eq_char_def)
    then have "of_char c = (48 :: nat) \<or> of_char c = (49 :: nat) \<or> of_char c = (50 :: nat) \<or> of_char c = (51 :: nat) \<or>
        of_char c = (52 :: nat) \<or> of_char c = (53 :: nat) \<or> of_char c = (54 :: nat) \<or> of_char c = (55 :: nat) \<or>
        of_char c = (56 :: nat) \<or> of_char c = (57 :: nat)" by presburger
    then have "of_char c \<in> set [48 :: nat, 49, 50, 51, 52, 53, 54, 55, 56, 57]" by simp
    then have "char_of (of_char c :: nat) \<in> char_of ` set [48 :: nat, 49, 50, 51, 52, 53, 54, 55, 56, 57]" by blast
    then have "c \<in> set (map char_of [48 :: nat, 49, 50, 51, 52, 53, 54, 55, 56, 57])" by simp
    moreover have "map char_of [48 :: nat, 49, 50, 51, 52, 53, 54, 55, 56, 57] = ''0123456789''" by code_simp
    ultimately show ?thesis by simp
  qed
  ultimately show "is_digit c \<Longrightarrow> \<not> is_space c \<and> c \<noteq> CHR ''-'' \<and> c \<noteq> CHR ''+'' \<and> c \<noteq> CHR ''.'' \<and> c \<noteq> CHR ''e'' \<and> c \<noteq> CHR ''E'' \<and>
   c \<noteq> CHR '',''"
    unfolding list_all_iff by fastforce
qed

lemma show_nat_number: "list_all is_digit (show_nat n)"
  using show_nat_digits by (auto simp: list_all_iff)

lemma cut_at_none: "list_all (\<lambda>c. \<not> p c) s \<Longrightarrow> cut_at p s = (s, None)"
  by (simp add: cut_at_def list_all_iff dropWhile_eq_Nil_conv [THEN iffD2] takeWhile_eq_all_conv [THEN iffD2])

lemma show_int_trim: "js_trim (show_int i) = show_int i"
proof (rule js_trim_no_space)
  fix c assume "c \<in> set (show_int i)"
  then have "c = CHR ''-'' \<or> is_digit c"
    using show_nat_digits by (auto simp: show_int_def split: if_splits)
  moreover have "\<not> is_space (CHR ''-'')" by (simp add: is_space_def)
  ultimately show "\<not> is_space c" using digit_not by blast
qed

lemma signed_show: "signed_text (show_nat n) = (False, show_nat n)"
proof -
  obtain c t where c: "show_nat n = c # t" using show_nat_ne [of n] by (cases "show_nat n") auto
  then have "is_digit c" using show_nat_digits [of c n] by simp
  with c digit_not show ?thesis by (simp add: signed_text_def)
qed

lemma js_Number_show [simp]: "js_Number (show_int i) = JNum i"
proof -
  define n where "n = nat \<bar>i\<bar>"
  have s: "signed_text (show_int i) = (i < 0, show_nat n)"
  proof (cases "i < 0")
    case True
    then show ?thesis by (simp add: show_int_def n_def signed_text_def)
  next
    case False
    then have "show_int i = show_nat n" by (simp add: show_int_def n_def)
    with False signed_show [of n] show ?thesis by simp
  qed
  have d: "list_all is_digit (show_nat n)" by (rule show_nat_number)
  have e: "cut_at (\<lambda>c. c = CHR ''e'' \<or> c = CHR ''E'') (show_nat n) = (show_nat n, None)"
    using d digit_not by (intro cut_at_none) (auto simp: list_all_iff)
  have f: "cut_at (\<lambda>c. c = CHR ''.'') (show_nat n) = (show_nat n, None)"
    using d digit_not by (intro cut_at_none) (auto simp: list_all_iff)
  have ne: "show_int i \<noteq> []" by (simp add: show_int_def)
  have v: "(if i < 0 then -1 else 1) * int n = i" by (simp add: n_def)
  show ?thesis
    using v by (simp add: js_Number_def show_int_trim ne s e f d exponent_value_def scaled_def)
qed

end
