(* ===== verification/Settings.thy ===== *)
theory Settings
  imports SettingsTable JsNumber
begin

text \<open>
  The settings of a policy object, as \<^verbatim>\<open>components/SettingsEditor.tsx\<close> edits them: the entries of the
  tree and what they count, the rows of a category and the dialog one row is edited in, the
  conversions between a value and the line it is typed as, targeting, and the pictures a setting
  carries. A policy's settings are one object; every operation takes and gives a whole one.
\<close>

section \<open>Categories and their rows\<close>

definition categoryId :: "category_spec \<Rightarrow> string" where
  "categoryId c = (case c_id c of None \<Rightarrow> c_key c | Some i \<Rightarrow> i)"

definition settings_list :: "jsobj \<Rightarrow> string \<Rightarrow> jsval list" where
  "settings_list settings k = (case obj_get settings k of JArr rows \<Rightarrow> rows | _ \<Rightarrow> [])"

definition row_get :: "jsval \<Rightarrow> string \<Rightarrow> jsval" where
  "row_get row k = (case row of JObj ps \<Rightarrow> obj_get ps k | _ \<Rightarrow> JUndef)"

text \<open>The rows of a category, and of its list the rows that belong to the other half.\<close>

definition row_mine :: "category_spec \<Rightarrow> jsval \<Rightarrow> bool" where
  "row_mine c row = (case c_only c of None \<Rightarrow> True
     | Some (field, values) \<Rightarrow> to_string (row_get row field) \<in> set values)"

definition rowsOf :: "jsobj \<Rightarrow> category_spec \<Rightarrow> jsval list \<times> jsval list" where
  "rowsOf settings c =
     (let all = settings_list settings (c_key c)
      in case c_only c of None \<Rightarrow> (all, [])
         | Some _ \<Rightarrow> (filter (row_mine c) all, filter (\<lambda>r. \<not> row_mine c r) all))"

definition rows_update :: "category_spec \<Rightarrow> jsval list \<Rightarrow> jsobj \<Rightarrow> jsobj" where
  "rows_update c new_rows settings =
     obj_put (c_key c) (JArr (snd (rowsOf settings c) @ new_rows)) settings"

definition set_at :: "nat \<Rightarrow> jsval \<Rightarrow> jsval list \<Rightarrow> jsval list" where
  "set_at i v rows = (if i < length rows then rows[i := v] else rows @ replicate (i - length rows) JUndef @ [v])"

definition remove_at :: "nat \<Rightarrow> jsval list \<Rightarrow> jsval list" where
  "remove_at i rows = take i rows @ drop (Suc i) rows"

section \<open>The tree of settings\<close>

definition single_keys :: "string list" where
  "single_keys =
     [''updates'', ''login_screen'', ''always_on_vpn'', ''certificates'', ''local_administrator'',
      ''graphics_drivers'', ''grub'', ''remote_desktop_session'', ''agent_update'',
      ''local_password_policy'', ''roaming_profile'', ''power'', ''screen_lock'', ''regional'',
      ''device_control'', ''password_manager'', ''computer_names'', ''firefox_policy'',
      ''chromium_policy'', ''firmware_updates'', ''removable_storage'', ''desktop_theme'',
      ''second_factor'', ''software_control'', ''first_run'']"

text \<open>\<open>v?.length ?? 0\<close>, \<open>v?.k\<close> and \<open>Object.keys(v ?? {}).length\<close>.\<close>

definition array_length :: "jsval \<Rightarrow> nat" where
  "array_length v = (case v of JArr vs \<Rightarrow> length vs | _ \<Rightarrow> 0)"

definition opt_member :: "jsval \<Rightarrow> string \<Rightarrow> jsval" where
  "opt_member v k = (case member v k of None \<Rightarrow> JUndef | Some w \<Rightarrow> w)"

definition keys_count :: "jsval \<Rightarrow> nat" where
  "keys_count v = (case v of JObj ps \<Rightarrow> length ps | _ \<Rightarrow> 0)"

definition countOf :: "jsobj \<Rightarrow> string \<Rightarrow> nat" where
  "countOf settings key =
     (if key \<in> set single_keys then (if truthy (obj_get settings key) then 1 else 0)
      else if key = ''fonts'' \<or> key = ''custom_packages'' then array_length (obj_get settings key)
      else if key = ''wallpaper''
      then (if truthy (opt_member (obj_get settings key) ''uri'') \<or> truthy (opt_member (obj_get settings key) ''image'')
            then 1 else 0)
      else if key = ''browser''
      then (if \<not> truthy (obj_get settings key) then 0
            else keys_count (opt_member (obj_get settings key) ''chromium'') +
                 keys_count (opt_member (obj_get settings key) ''firefox''))
      else case find (\<lambda>c. c_id c = Some key) CATEGORIES of
             Some split \<Rightarrow> length (fst (rowsOf settings split))
           | None \<Rightarrow> array_length (obj_get settings key))"

record tree_entry =
  te_key :: string
  te_title :: string
  te_half :: half
  te_group :: setting_group

definition tree_entries :: "jsobj \<Rightarrow> tree_entry list" where
  "tree_entries settings =
     map (\<lambda>c. \<lparr>te_key = categoryId c, te_title = c_title c, te_half = c_half c, te_group = c_group c\<rparr>) CATEGORIES @
     map (\<lambda>s. \<lparr>te_key = s_key s, te_title = s_title s, te_half = s_half s, te_group = s_group s\<rparr>) SPECIAL @
     (if countOf settings ''browser'' > 0
      then [\<lparr>te_key = ''browser'', te_title = ''Browser policy'', te_half = Computer, te_group = SoftwareAndDrivers\<rparr>]
      else [])"

definition tree_folders :: "jsobj \<Rightarrow> half \<Rightarrow> (setting_group \<times> tree_entry list) list" where
  "tree_folders settings h =
     (let for_half = filter (\<lambda>e. te_half e = h) (tree_entries settings)
      in filter (\<lambda>f. snd f \<noteq> [])
           (map (\<lambda>g. (g, filter (\<lambda>e. te_group e = g) for_half)) GROUP_ORDER))"

definition tree_shown :: "jsobj \<Rightarrow> tree_entry list" where
  "tree_shown settings =
     concat (map (\<lambda>h. concat (map snd (tree_folders settings h))) [Computer, User])"

text \<open>Which halves an object configures, as the link dialogs warn about.\<close>

definition halvesConfigured :: "jsobj \<Rightarrow> half list" where
  "halvesConfigured settings =
     (let halves = map c_half (filter (\<lambda>c. countOf settings (categoryId c) > 0) CATEGORIES) @
                   map s_half (filter (\<lambda>s. countOf settings (s_key s) > 0) SPECIAL)
      in filter (\<lambda>h. h \<in> set halves) [Computer, User])"

text \<open>Open folders, kept by the browser under one key.\<close>

definition toggleFolder :: "string \<Rightarrow> bool \<Rightarrow> jsobj \<Rightarrow> jsobj" where
  "toggleFolder name is_open prev = obj_put name (JBool is_open) prev"

definition folder_open :: "jsobj \<Rightarrow> string \<Rightarrow> bool" where
  "folder_open folders name = truthy (or_else (obj_get folders name) (JBool True))"

section \<open>Values and the lines they are typed as\<close>

definition LIST_FIELDS :: "string list" where
  "LIST_FIELDS = [''users'', ''commands'', ''days'', ''categories'', ''additional_locales'']"

definition toInput :: "jsval \<Rightarrow> string" where
  "toInput v = (case v of JArr vs \<Rightarrow> join_with '', '' (map join_item vs)
     | JNull \<Rightarrow> [] | JUndef \<Rightarrow> [] | _ \<Rightarrow> to_string v)"

definition split_trim :: "string \<Rightarrow> string list" where
  "split_trim raw = nonempty (map js_trim (split_on (CHR '','') raw))"

definition fromInput :: "field_spec \<Rightarrow> string \<Rightarrow> jsval" where
  "fromInput f raw =
     (if f_key f \<in> set LIST_FIELDS then JArr (map JStr (split_trim raw))
      else if f_kind f = Some KNumber then (if raw = [] then JNull else js_Number raw)
      else JStr raw)"

text \<open>\<open>replace(/\s+/g, " ").trim()\<close>\<close>

fun collapse_from :: "bool \<Rightarrow> string \<Rightarrow> string" where
  "collapse_from in_space [] = []"
| "collapse_from in_space (c # s) =
     (if is_space c then (if in_space then collapse_from True s else CHR '' '' # collapse_from True s)
      else c # collapse_from False s)"

definition collapse_spaces :: "string \<Rightarrow> string" where
  "collapse_spaces s = collapse_from False s"

definition describe_value :: "jsval \<Rightarrow> nat \<Rightarrow> string" where
  "describe_value v limit =
     (if v = JUndef \<or> v = JNull \<or> v = JStr [] then em_dash
      else case v of
        JBool b \<Rightarrow> if b then ''yes'' else ''no''
      | JArr vs \<Rightarrow> if vs \<noteq> [] then join_with '', '' (map join_item vs) else em_dash
      | _ \<Rightarrow>
          (if (case v of JStr t \<Rightarrow> js_startsWith ''data:image/'' t | _ \<Rightarrow> False) then ''uploaded picture''
           else (let t = js_trim (collapse_spaces (to_string v))
                 in if length t > limit then take (limit - 1) t @ ellipsis else t)))"

definition identityField :: "category_spec \<Rightarrow> field_spec" where
  "identityField c = (case find (\<lambda>f. Some (f_key f) = c_identity c) (c_fields c) of
     Some f \<Rightarrow> f | None \<Rightarrow> hd (c_fields c))"

definition identityOf :: "category_spec \<Rightarrow> jsval \<Rightarrow> string" where
  "identityOf c row =
     (let v = describe_value (row_get row (f_key (identityField c))) 60
      in if v = em_dash then ''Unnamed'' else v)"

definition summarise :: "category_spec \<Rightarrow> jsval \<Rightarrow> string" where
  "summarise c row =
     (let t = join_with ('' '' @ middle_dot @ '' '')
                (map (\<lambda>f. f_label f @ '': '' @ describe_value (row_get row (f_key f)) 40)
                  (filter (\<lambda>f. f_key f \<noteq> f_key (identityField c)) (c_fields c)))
      in if t = [] then em_dash else t)"

section \<open>The dialog of one entry\<close>

datatype (plugins only: code size) cell_event =
    Typed string
  | Ticked bool
  | Chosen string
  | PickedPrinter string string
  | PickedCollection string string string
  | PickedShare string string
  | FilledRoot string
  | ChosenPicture string

text \<open>What one field's control changes of the entry. A control that the field does not have
  changes nothing.\<close>

definition BrowseField :: "field_spec \<Rightarrow> resource_pick \<Rightarrow> jsobj \<Rightarrow> cell_event \<Rightarrow> jsobj" where
  "BrowseField f pick entry ev =
     (case ev of
        Typed t \<Rightarrow> [(f_key f, JStr t)]
      | PickedPrinter name server \<Rightarrow>
          if pick = PickPrinter then obj_put ''server'' (JStr server) [(f_key f, JStr name)] else []
      | PickedCollection name address application \<Rightarrow>
          if pick = PickCollection
          then [(''name'', JStr (if truthy (obj_get entry ''name'') then to_string (obj_get entry ''name'') else name)),
                (''collection'', JStr name), (''address'', JStr address), (''application'', JStr application)]
          else []
      | PickedShare unc name \<Rightarrow>
          if pick = PickShare
          then obj_spread (obj_spread [(f_key f, JStr unc)]
                 (if truthy (obj_get entry ''name'') then [] else [(''name'', JStr name)]))
                 (if truthy (obj_get entry ''mount_point'') then [] else [(''mount_point'', JStr (''/mnt/'' @ name))])
          else []
      | _ \<Rightarrow> [])"

definition add_suggestion :: "string \<Rightarrow> string \<Rightarrow> string" where
  "add_suggestion line chosen =
     (let current = split_trim line
      in join_with '', '' (if chosen \<in> set current then current else current @ [chosen]))"

definition Cell :: "field_spec \<Rightarrow> jsobj \<Rightarrow> cell_event \<Rightarrow> jsobj" where
  "Cell f entry ev =
     (case f_pick f of Some pick \<Rightarrow> BrowseField f pick entry ev
      | None \<Rightarrow>
        (if f_kind f = Some KCheckbox then (case ev of Ticked b \<Rightarrow> [(f_key f, JBool b)] | _ \<Rightarrow> [])
         else if f_kind f = Some KSelect then (case ev of Chosen v \<Rightarrow> [(f_key f, JStr v)] | _ \<Rightarrow> [])
         else if f_kind f = Some KTextarea \<and> f_fill f
         then (case ev of Typed t \<Rightarrow> [(f_key f, JStr t)] | FilledRoot pem \<Rightarrow> [(f_key f, JStr (js_trim pem @ [CHR 0x0A]))] | _ \<Rightarrow> [])
         else if f_kind f = Some KImage
         then (case ev of Typed t \<Rightarrow> [(f_key f, JStr t)] | ChosenPicture u \<Rightarrow> [(f_key f, JStr u)] | _ \<Rightarrow> [])
         else if f_kind f = Some KTextarea then (case ev of Typed t \<Rightarrow> [(f_key f, JStr t)] | _ \<Rightarrow> [])
         else if f_picker f \<noteq> None then (case ev of Typed t \<Rightarrow> [(f_key f, fromInput f t)] | _ \<Rightarrow> [])
         else if f_suggestions f \<noteq> []
         then (case ev of
                 Typed t \<Rightarrow> [(f_key f, fromInput f t)]
               | Chosen v \<Rightarrow>
                   if v = [] then []
                   else if \<not> f_suggestionsAppend f then [(f_key f, fromInput f v)]
                   else [(f_key f, fromInput f (add_suggestion (toInput (obj_get entry (f_key f))) v))]
               | _ \<Rightarrow> [])
         else (case ev of Typed t \<Rightarrow> [(f_key f, fromInput f t)] | _ \<Rightarrow> [])))"

definition select_options :: "field_spec \<Rightarrow> string list option \<Rightarrow> string \<Rightarrow> string list" where
  "select_options f fetched v =
     (let options = (case fetched of Some (p # ps) \<Rightarrow> p # ps | _ \<Rightarrow> f_options f)
      in if v \<noteq> [] \<and> v \<notin> set options then options @ [v] else options)"

text \<open>Targeting of one entry.\<close>

definition TARGETABLE :: "string list" where
  "TARGETABLE = [''files'', ''scripts'', ''systemd_units'', ''cron'', ''drive_maps'', ''printers'', ''packages'',
     ''default_applications'', ''dash'', ''sysctl'', ''shortcuts'']"

definition targeting_set :: "jsval \<Rightarrow> jsobj \<Rightarrow> jsval" where
  "targeting_set v changes =
     (let new_value = obj_spread (case v of JObj ps \<Rightarrow> ps | _ \<Rightarrow> []) changes
      in if array_length (obj_get new_value ''os'') = 0 \<and> \<not> truthy (obj_get new_value ''hostname_pattern'') \<and>
            array_length (obj_get new_value ''security_groups'') = 0 \<and> array_length (obj_get new_value ''ip_ranges'') = 0
         then JNull else JObj new_value)"

datatype (plugins only: code size) targeting_event = TickOs string bool | HostPattern string | Groups "string list" | Ranges string

definition targeting_changes :: "jsval \<Rightarrow> targeting_event \<Rightarrow> jsobj" where
  "targeting_changes v ev =
     (case ev of
        TickOs release ticked \<Rightarrow>
          (let os = (case opt_member v ''os'' of JArr vs \<Rightarrow> vs | _ \<Rightarrow> [])
           in [(''os'', JArr (if ticked then os @ [JStr release] else filter (\<lambda>e. e \<noteq> JStr release) os))])
      | HostPattern t \<Rightarrow> [(''hostname_pattern'', if t = [] then JUndef else JStr t)]
      | Groups gs \<Rightarrow> [(''security_groups'', JArr (map JStr gs))]
      | Ranges t \<Rightarrow> [(''ip_ranges'', JArr (map JStr (split_trim (replace_char (CHR 0x0A) (CHR '','') t))))])"

datatype (plugins only: code size) entry_event = CellEvent field_spec cell_event | Target targeting_event

definition EntryDialog :: "entry_event \<Rightarrow> jsobj \<Rightarrow> jsobj" where
  "EntryDialog ev draft =
     (case ev of
        CellEvent f e \<Rightarrow> obj_spread draft (Cell f draft e)
      | Target t \<Rightarrow>
          (let v = or_else (obj_get draft ''targeting'') JNull; w = targeting_set v (targeting_changes v t)
           in obj_put ''targeting'' (if w = JNull then JUndef else w) draft))"

datatype (plugins only: code size) editing = NotEditing | EditingNew | Editing nat

definition entry_draft :: "category_spec \<Rightarrow> editing \<Rightarrow> jsobj \<Rightarrow> jsobj" where
  "entry_draft c e settings =
     (case e of
        Editing i \<Rightarrow>
          (let rows = fst (rowsOf settings c)
           in if i < length rows then (case rows ! i of JObj ps \<Rightarrow> ps | _ \<Rightarrow> []) else [])
      | _ \<Rightarrow> c_blank c)"

text \<open>The editor of a category: its table of rows, and the dialog one of them is edited in. The
  dialog keeps a draft of its own until it is submitted.\<close>

record rows_editor =
  re_settings :: jsobj
  re_editing :: editing
  re_draft :: jsobj

datatype (plugins only: code size) rows_action =
  AddEntry | EditEntry nat | InDialog entry_event | CloseDialog | SubmitEntry | RemoveEntry nat

definition RowsEditor :: "category_spec \<Rightarrow> rows_action \<Rightarrow> rows_editor \<Rightarrow> rows_editor" where
  "RowsEditor c a s =
     (let rows = fst (rowsOf (re_settings s) c); draft = JObj (re_draft s) in
      case a of
        AddEntry \<Rightarrow> s\<lparr>re_editing := EditingNew, re_draft := entry_draft c EditingNew (re_settings s)\<rparr>
      | EditEntry i \<Rightarrow> s\<lparr>re_editing := Editing i, re_draft := entry_draft c (Editing i) (re_settings s)\<rparr>
      | InDialog ev \<Rightarrow> if re_editing s = NotEditing then s else s\<lparr>re_draft := EntryDialog ev (re_draft s)\<rparr>
      | CloseDialog \<Rightarrow> s\<lparr>re_editing := NotEditing\<rparr>
      | SubmitEntry \<Rightarrow>
          (case re_editing s of
             NotEditing \<Rightarrow> s
           | EditingNew \<Rightarrow> s\<lparr>re_settings := rows_update c (rows @ [draft]) (re_settings s), re_editing := NotEditing\<rparr>
           | Editing i \<Rightarrow> s\<lparr>re_settings := rows_update c (set_at i draft rows) (re_settings s), re_editing := NotEditing\<rparr>)
      | RemoveEntry i \<Rightarrow> s\<lparr>re_settings := rows_update c (remove_at i rows) (re_settings s)\<rparr>)"

text \<open>What the page offers: the table behind the dialog takes no clicks while it is open, and a
  list of choices offers its options and what is configured.\<close>

definition offered :: "category_spec \<Rightarrow> string list option \<Rightarrow> jsobj \<Rightarrow> entry_event \<Rightarrow> bool" where
  "offered c fetched draft ev =
     (case ev of
        CellEvent f e \<Rightarrow> f \<in> set (c_fields c) \<and>
          (case e of
             Chosen v \<Rightarrow> f_kind f = Some KSelect \<longrightarrow>
               v \<in> set (select_options f (if f_optionsFrom f then fetched else None) (toInput (obj_get draft (f_key f))))
           | _ \<Rightarrow> True)
      | Target t \<Rightarrow> c_key c \<in> set TARGETABLE)"

inductive rows_step :: "category_spec \<Rightarrow> rows_editor \<Rightarrow> rows_action \<Rightarrow> rows_editor \<Rightarrow> bool" for c where
  Add: "re_editing s = NotEditing \<Longrightarrow> rows_step c s AddEntry (RowsEditor c AddEntry s)"
| Edit: "re_editing s = NotEditing \<Longrightarrow> i < length (fst (rowsOf (re_settings s) c)) \<Longrightarrow>
         rows_step c s (EditEntry i) (RowsEditor c (EditEntry i) s)"
| Dialog: "re_editing s \<noteq> NotEditing \<Longrightarrow> offered c fetched (re_draft s) ev \<Longrightarrow>
           rows_step c s (InDialog ev) (RowsEditor c (InDialog ev) s)"
| Close: "re_editing s \<noteq> NotEditing \<Longrightarrow> rows_step c s CloseDialog (RowsEditor c CloseDialog s)"
| Submit: "re_editing s \<noteq> NotEditing \<Longrightarrow> rows_step c s SubmitEntry (RowsEditor c SubmitEntry s)"
| Remove: "re_editing s = NotEditing \<Longrightarrow> i < length (fst (rowsOf (re_settings s) c)) \<Longrightarrow>
           rows_step c s (RemoveEntry i) (RowsEditor c (RemoveEntry i) s)"

inductive rows_reach :: "category_spec \<Rightarrow> rows_editor \<Rightarrow> rows_editor \<Rightarrow> bool" for c s0 where
  Start: "re_editing s0 = NotEditing \<Longrightarrow> rows_reach c s0 s0"
| Step: "rows_reach c s0 s \<Longrightarrow> rows_step c s a s' \<Longrightarrow> rows_reach c s0 s'"

inductive_cases rows_stepE: "rows_step c s a s'"

section \<open>The tables are consistent\<close>

lemma tree_keys_distinct: "distinct (map categoryId CATEGORIES @ map s_key SPECIAL @ [''browser''])"
  by code_simp

definition only_consistent :: "category_spec \<Rightarrow> bool" where
  "only_consistent c =
     (case c_only c of None \<Rightarrow> True
      | Some (field, values) \<Rightarrow>
          field \<noteq> ''targeting'' \<and> to_string (obj_get (c_blank c) field) \<in> set values \<and> list_all (\<lambda>v. CHR '','' \<notin> set v) values \<and>
          list_all (\<lambda>f. f_pick f = None \<and>
            (f_key f = field \<longrightarrow> f_kind f = Some KSelect \<and> \<not> f_optionsFrom f \<and> list_all (\<lambda>v. v \<in> set values) (f_options f)))
            (c_fields c))"

definition halves_apart :: "category_spec \<Rightarrow> category_spec \<Rightarrow> bool" where
  "halves_apart c d =
     (categoryId c = categoryId d \<or> c_key c \<noteq> c_key d \<or>
      (case (c_only c, c_only d) of
         (Some (f, vs), Some (g, ws)) \<Rightarrow> f = g \<and> list_all (\<lambda>v. v \<notin> set ws) vs
       | _ \<Rightarrow> False))"

lemma all_only_consistent: "list_all only_consistent CATEGORIES"
  by code_simp

lemma plain_keys_distinct: "distinct (map c_key (filter (\<lambda>c. c_only c = None) CATEGORIES))"
  by code_simp

lemma scripts_not_plain: "list_all (\<lambda>c. c_only c = None \<longrightarrow> c_key c \<noteq> ''scripts'') CATEGORIES"
  by code_simp

lemma split_ones:
  "list_all (\<lambda>c. c_only c = None \<or> c_key c = ''scripts'' \<and>
     (categoryId c = ''scripts-computer'' \<and> c_only c = Some (''trigger'', [''startup'', ''shutdown'']) \<or>
      categoryId c = ''scripts-user'' \<and> c_only c = Some (''trigger'', [''logon'', ''logoff'']))) CATEGORIES"
  by code_simp

lemma distinct_map_same: "distinct (map f xs) \<Longrightarrow> x \<in> set xs \<Longrightarrow> y \<in> set xs \<Longrightarrow> f x = f y \<Longrightarrow> x = y"
  by (auto simp: distinct_map dest: inj_onD)

lemma all_halves_apart:
  assumes "c \<in> set CATEGORIES" and "d \<in> set CATEGORIES"
  shows "halves_apart c d"
proof (cases "c_only c = None \<or> c_only d = None")
  case True
  then show ?thesis
  proof (cases "c_only c = None \<and> c_only d = None")
    case True
    then show ?thesis
      using assms distinct_map_same [OF plain_keys_distinct, of c d] by (auto simp: halves_apart_def)
  next
    case False
    then have "c_key c \<noteq> c_key d"
      using True assms scripts_not_plain split_ones unfolding list_all_iff by metis
    then show ?thesis by (simp add: halves_apart_def)
  qed
next
  case False
  then show ?thesis
    using bspec [OF split_ones [unfolded list_all_iff] assms(1)]
      bspec [OF split_ones [unfolded list_all_iff] assms(2)]
    by (auto simp: halves_apart_def)
qed

section \<open>Writing the rows of one half\<close>

locale list_view =
  fixes rows :: "'s \<Rightarrow> 'r list"
    and write_rows :: "'r list \<Rightarrow> 's \<Rightarrow> 's"
    and own :: "'r \<Rightarrow> bool"
  assumes rows_write: "list_all own rs \<Longrightarrow> rows (write_rows rs s) = rs"
    and rows_own: "list_all own (rows s)"
begin

lemma rows_append: "own r \<Longrightarrow> rows (write_rows (rows s @ [r]) s) = rows s @ [r]"
  using rows_own [of s] by (simp add: rows_write)

lemma rows_update_at: "own r \<Longrightarrow> rows (write_rows ((rows s)[i := r]) s) = (rows s)[i := r]"
  using rows_own [of s] set_update_subset_insert [of "rows s" i r]
  by (intro rows_write) (auto simp: list_all_iff)

lemma rows_sub: "set rs \<subseteq> set (rows s) \<Longrightarrow> rows (write_rows rs s) = rs"
  using rows_own [of s] by (intro rows_write) (auto simp: list_all_iff)

end

lemma settings_list_put [simp]:
  "settings_list (obj_put k (JArr rs) s) k' = (if k' = k then rs else settings_list s k')"
  by (simp add: settings_list_def obj.get_put)

lemma rowsOf_eq:
  "fst (rowsOf s c) = filter (row_mine c) (settings_list s (c_key c))"
  "snd (rowsOf s c) = filter (\<lambda>r. \<not> row_mine c r) (settings_list s (c_key c))"
  by (auto simp: rowsOf_def row_mine_def Let_def split: option.splits)

interpretation category: list_view "\<lambda>s. fst (rowsOf s c)" "rows_update c" "row_mine c" for c
proof
  fix rs s
  assume "list_all (row_mine c) rs"
  then show "fst (rowsOf (rows_update c rs s) c) = rs"
    by (auto simp: rowsOf_eq rows_update_def list_all_iff filter_id_conv filter_empty_conv)
next
  fix s
  show "list_all (row_mine c) (fst (rowsOf s c))"
    by (simp add: rowsOf_eq list_all_iff)
qed

lemma apart_rows:
  assumes "halves_apart c d" and "categoryId c \<noteq> categoryId d" and "list_all (row_mine c) rs"
  shows "fst (rowsOf (rows_update c rs s) d) = fst (rowsOf s d)"
proof (cases "c_key c = c_key d")
  case False
  then show ?thesis by (simp add: rowsOf_eq rows_update_def)
next
  case True
  with assms(1,2) obtain f vs ws where
    o: "c_only c = Some (f, vs)" "c_only d = Some (f, ws)" and dis: "\<And>v. v \<in> set vs \<Longrightarrow> v \<notin> set ws"
    by (fastforce simp: halves_apart_def list_all_iff split: option.splits)
  have no: "row_mine c r \<Longrightarrow> \<not> row_mine d r" for r
    using o dis by (auto simp: row_mine_def)
  have "filter (row_mine d) rs = []"
    using assms(3) no by (auto simp: list_all_iff filter_empty_conv)
  moreover have "filter (row_mine d) (filter (\<lambda>r. \<not> row_mine c r) xs) = filter (row_mine d) xs" for xs
    using no by (auto intro!: filter_cong)
  ultimately show ?thesis using True by (simp add: rowsOf_eq rows_update_def)
qed

section \<open>An entry stays in its half\<close>

lemma toInput_plain:
  assumes "CHR '','' \<notin> set (to_string v)" and "toInput v \<noteq> []"
  shows "toInput v = to_string v"
proof (cases v)
  case (JArr vs)
  show ?thesis
  proof (cases vs rule: remdups_adj.cases)
    case 1
    then show ?thesis using JArr assms by (simp add: toInput_def)
  next
    case (2 x)
    then show ?thesis using JArr by (simp add: toInput_def join_item_def)
  next
    case (3 x y xs)
    then have "CHR '','' \<in> set (to_string v)" using JArr by simp
    with assms show ?thesis by simp
  qed
qed (use assms in \<open>auto simp: toInput_def\<close>)

lemma Cell_own_field:
  assumes "f_pick f = None"
  shows "Cell f draft e = [] \<or> (\<exists>v. Cell f draft e = [(f_key f, v)])"
  using assms by (auto simp: Cell_def split: cell_event.splits)

lemma Cell_select:
  assumes "f_pick f = None" and "f_kind f = Some KSelect"
  shows "Cell f draft e = (case e of Chosen v \<Rightarrow> [(f_key f, JStr v)] | _ \<Rightarrow> [])"
  using assms by (simp add: Cell_def split: cell_event.splits)

lemma spread_one [simp]: "obj_spread d [(k, v)] = obj_put k v d" "obj_spread d [] = d"
  by (simp_all add: obj_spread_def)

lemma own_entry:
  assumes "only_consistent c" and "row_mine c (JObj draft)" and "offered c fetched draft ev"
  shows "row_mine c (JObj (EntryDialog ev draft))"
proof (cases "c_only c")
  case None
  then show ?thesis by (simp add: row_mine_def)
next
  case (Some p)
  then obtain field vs where o: "c_only c = Some (field, vs)" by (cases p) auto
  have own: "to_string (obj_get draft field) \<in> set vs"
    using assms(2) o by (simp add: row_mine_def row_get_def)
  have plain: "CHR '','' \<notin> set v" if "v \<in> set vs" for v
    using assms(1) o that by (simp add: only_consistent_def list_all_iff)
  have "to_string (obj_get (EntryDialog ev draft) field) \<in> set vs"
  proof (cases ev)
    case (Target t)
    have "field \<noteq> ''targeting''" using assms(1) o by (simp add: only_consistent_def)
    then show ?thesis using Target own by (simp add: EntryDialog_def Let_def obj.get_put)
  next
    case (CellEvent f e)
    have f: "f \<in> set (c_fields c)" using assms(3) CellEvent by (simp add: offered_def)
    then have np: "f_pick f = None"
      and key: "f_key f = field \<longrightarrow> f_kind f = Some KSelect \<and> \<not> f_optionsFrom f \<and> set (f_options f) \<subseteq> set vs"
      using assms(1) o by (auto simp: only_consistent_def list_all_iff)
    show ?thesis
    proof (cases "f_key f = field")
      case False
      then show ?thesis
        using Cell_own_field [OF np, of draft e] own CellEvent by (auto simp: EntryDialog_def obj.get_put)
    next
      case True
      then have k: "f_kind f = Some KSelect" "\<not> f_optionsFrom f" "set (f_options f) \<subseteq> set vs"
        using key by auto
      show ?thesis
      proof (cases e)
        case (Chosen v)
        have "v \<in> set (select_options f None (toInput (obj_get draft field)))"
          using assms(3) CellEvent Chosen k True by (simp add: offered_def)
        then have "v \<in> set (f_options f) \<or> (v = toInput (obj_get draft field) \<and> v \<noteq> [])"
          by (auto simp: select_options_def Let_def split: if_splits)
        then have "v \<in> set vs"
          using k(3) toInput_plain [OF plain [OF own]] own by auto
        then show ?thesis
          using CellEvent Chosen True Cell_select [OF np k(1)] by (simp add: EntryDialog_def obj.get_put)
      qed (use CellEvent own Cell_select [OF np k(1)] in \<open>auto simp: EntryDialog_def\<close>)
    qed
  qed
  then show ?thesis using o by (simp add: row_mine_def row_get_def)
qed

lemma own_draft:
  assumes "only_consistent c" and "\<And>i. e = Editing i \<Longrightarrow> i < length (fst (rowsOf s c))"
  shows "row_mine c (JObj (entry_draft c e s))"
proof (cases "\<exists>i. e = Editing i")
  case False
  then have "entry_draft c e s = c_blank c"
    by (cases e) (auto simp: entry_draft_def)
  with assms(1) show ?thesis
    by (auto simp: only_consistent_def row_mine_def row_get_def split: option.splits)
next
  case True
  then obtain i where i: "e = Editing i" "i < length (fst (rowsOf s c))" using assms(2) by auto
  then have "row_mine c (fst (rowsOf s c) ! i)"
    using category.rows_own [of c s] by (simp add: list_all_iff)
  then show ?thesis
    using i by (auto simp: entry_draft_def Let_def row_mine_def row_get_def split: jsval.splits option.splits)
qed

definition rows_ok :: "category_spec \<Rightarrow> rows_editor \<Rightarrow> bool" where
  "rows_ok c s \<longleftrightarrow>
     (re_editing s = NotEditing \<or> row_mine c (JObj (re_draft s))) \<and>
     (case re_editing s of Editing i \<Rightarrow> i < length (fst (rowsOf (re_settings s) c)) | _ \<Rightarrow> True)"

lemma rows_ok_step:
  assumes "only_consistent c" and "rows_ok c s" and "rows_step c s a s'"
  shows "rows_ok c s'"
  using assms(3)
proof (cases rule: rows_step.cases)
  case Add
  then show ?thesis using own_draft [OF assms(1), of EditingNew] by (simp add: rows_ok_def RowsEditor_def Let_def)
next
  case (Edit i)
  then show ?thesis using own_draft [OF assms(1), of "Editing i"] by (simp add: rows_ok_def RowsEditor_def Let_def)
next
  case (Dialog fetched ev)
  then show ?thesis
    using assms(2) own_entry [OF assms(1)] by (cases "re_editing s") (auto simp: rows_ok_def RowsEditor_def Let_def)
next
  case Close
  then show ?thesis by (simp add: rows_ok_def RowsEditor_def Let_def)
next
  case Submit
  then show ?thesis by (cases "re_editing s") (simp_all add: rows_ok_def RowsEditor_def Let_def)
next
  case (Remove i)
  then show ?thesis by (simp add: rows_ok_def RowsEditor_def Let_def)
qed

text \<open>The rows a step leaves, and that it writes only rows of the category's own half.\<close>

definition rows_after :: "rows_action \<Rightarrow> editing \<Rightarrow> jsobj \<Rightarrow> jsval list \<Rightarrow> jsval list" where
  "rows_after a e draft rows =
     (case a of
        SubmitEntry \<Rightarrow> (case e of EditingNew \<Rightarrow> rows @ [JObj draft] | Editing i \<Rightarrow> rows[i := JObj draft] | NotEditing \<Rightarrow> rows)
      | RemoveEntry i \<Rightarrow> take i rows @ drop (Suc i) rows
      | _ \<Rightarrow> rows)"

lemma rows_step_writes:
  assumes "rows_ok c s" and "rows_step c s a s'"
  obtains "re_settings s' = re_settings s" and "rows_after a (re_editing s) (re_draft s) (fst (rowsOf (re_settings s) c)) = fst (rowsOf (re_settings s) c)"
  | rs where "re_settings s' = rows_update c rs (re_settings s)" and "list_all (row_mine c) rs"
      and "rows_after a (re_editing s) (re_draft s) (fst (rowsOf (re_settings s) c)) = rs"
  using assms(2)
proof (cases rule: rows_step.cases)
  case Submit
  let ?rows = "fst (rowsOf (re_settings s) c)"
  have own: "row_mine c (JObj (re_draft s))" using assms(1) Submit by (auto simp: rows_ok_def)
  have all: "list_all (row_mine c) ?rows" by (rule category.rows_own)
  show ?thesis
  proof (cases "re_editing s")
    case (Editing i)
    then have "i < length ?rows" using assms(1) by (simp add: rows_ok_def)
    moreover have "list_all (row_mine c) (?rows[i := JObj (re_draft s)])"
      using own all set_update_subset_insert [of ?rows i "JObj (re_draft s)"] by (auto simp: list_all_iff)
    ultimately show ?thesis
      using that(2) Submit Editing by (simp add: RowsEditor_def Let_def rows_after_def set_at_def)
  next
    case EditingNew
    then show ?thesis
      using that(2) [of "?rows @ [JObj (re_draft s)]"] Submit own all by (simp add: RowsEditor_def Let_def rows_after_def)
  qed (use Submit in simp)
next
  case (Remove i)
  have "list_all (row_mine c) (remove_at i (fst (rowsOf (re_settings s) c)))"
    using category.rows_own [of c "re_settings s"] set_take_subset set_drop_subset
    unfolding list_all_iff remove_at_def by fastforce
  then show ?thesis
    using that(2) [of "remove_at i (fst (rowsOf (re_settings s) c))"] Remove
    by (simp add: RowsEditor_def Let_def rows_after_def remove_at_def)
qed (use that(1) in \<open>auto simp: RowsEditor_def Let_def rows_after_def\<close>)

lemma rows_reach_ok:
  "rows_reach c s0 s \<Longrightarrow> only_consistent c \<Longrightarrow> rows_ok c s"
  by (induction rule: rows_reach.induct) (auto simp: rows_ok_def [of c s0] intro: rows_ok_step)

lemma consistent: "c \<in> set CATEGORIES \<Longrightarrow> only_consistent c"
  using all_only_consistent by (simp add: list_all_iff)

section \<open>Properties\<close>

text \<open>C3: Editing the list of one setting is editing that list and nothing else. However long an
  operator works in the table of a category, starting with no dialog open, every step changes its rows
  exactly as asked: a submitted new entry is appended, a submitted edit replaces the row it was opened
  on, a removal takes out one row, everything else (opening, typing, cancelling) changes none.\<close>

theorem rows_change_as_asked:
  assumes "c \<in> set CATEGORIES" and "rows_reach c s0 s" and "rows_step c s a s'"
  shows "fst (rowsOf (re_settings s') c) = rows_after a (re_editing s) (re_draft s) (fst (rowsOf (re_settings s) c))"
  using rows_step_writes [OF rows_reach_ok [OF assms(2) consistent [OF assms(1)]] assms(3)]
  by (metis category.rows_write)

theorem rows_change_as_asked_witness:
  "let e = \<lparr>re_settings = [], re_editing = NotEditing, re_draft = []\<rparr>;
       s = RowsEditor category_cron AddEntry e
   in fst (rowsOf (re_settings (RowsEditor category_cron SubmitEntry s)) category_cron) = [JObj (c_blank category_cron)]"
proof -
  let ?e = "\<lparr>re_settings = [], re_editing = NotEditing, re_draft = []\<rparr>"
  let ?s = "RowsEditor category_cron AddEntry ?e"
  have c: "category_cron \<in> set CATEGORIES" by (simp add: CATEGORIES_def)
  have r: "rows_reach category_cron ?e ?s"
    by (rule rows_reach.Step [OF rows_reach.Start rows_step.Add]) simp_all
  have "re_editing ?s \<noteq> NotEditing" by (simp add: RowsEditor_def Let_def)
  from rows_change_as_asked [OF c r rows_step.Submit [OF this]] show ?thesis
    by (simp add: RowsEditor_def Let_def rows_after_def entry_draft_def rowsOf_def settings_list_def category_cron_def)
qed

text \<open>C2: The two halves of a setting that is split between computers and users are edited apart: no
  sequence of steps in one category's table, its dialog's list of choices included, changes what any
  other entry of the tree shows, nor any other member of the policy's settings.\<close>

theorem other_settings_untouched:
  assumes "rows_reach c s0 s" and "c \<in> set CATEGORIES"
  shows "(\<forall>d \<in> set CATEGORIES. categoryId d \<noteq> categoryId c \<longrightarrow>
            fst (rowsOf (re_settings s) d) = fst (rowsOf (re_settings s0) d)) \<and>
         (\<forall>k. k \<noteq> c_key c \<longrightarrow> obj_get (re_settings s) k = obj_get (re_settings s0) k)"
  using assms(1)
proof (induction rule: rows_reach.induct)
  case Start
  then show ?case by simp
next
  case (Step s a s')
  have ok: "rows_ok c s" by (rule rows_reach_ok [OF Step.hyps(1) consistent [OF assms(2)]])
  from rows_step_writes [OF ok Step.hyps(2)] show ?case
  proof cases
    case 1
    with Step.IH show ?thesis by simp
  next
    case (2 rs)
    have "fst (rowsOf (re_settings s') d) = fst (rowsOf (re_settings s) d)"
      if "d \<in> set CATEGORIES" "categoryId d \<noteq> categoryId c" for d
      using 2 apart_rows [OF all_halves_apart [OF assms(2) that(1)]] that(2) by simp
    moreover have "obj_get (re_settings s') k = obj_get (re_settings s) k" if "k \<noteq> c_key c" for k
      using 2 that by (simp add: rows_update_def)
    ultimately show ?thesis using Step.IH by simp
  qed
qed

theorem other_settings_untouched_witness:
  "let logon = JObj [(''trigger'', JStr ''logon'')];
       e = \<lparr>re_settings = [(''scripts'', JArr [logon])], re_editing = NotEditing, re_draft = []\<rparr>;
       s = RowsEditor category_scripts_computer SubmitEntry (RowsEditor category_scripts_computer AddEntry e)
   in fst (rowsOf (re_settings s) category_scripts_user) = [logon]"
proof -
  let ?c = category_scripts_computer
  let ?logon = "JObj [(''trigger'', JStr ''logon'')]"
  let ?e = "\<lparr>re_settings = [(''scripts'', JArr [?logon])], re_editing = NotEditing, re_draft = []\<rparr>"
  let ?s = "RowsEditor ?c AddEntry ?e"
  have c: "?c \<in> set CATEGORIES" and d: "category_scripts_user \<in> set CATEGORIES" by (simp_all add: CATEGORIES_def)
  have r: "rows_reach ?c ?e ?s"
    by (rule rows_reach.Step [OF rows_reach.Start rows_step.Add]) simp_all
  have "re_editing ?s \<noteq> NotEditing" by (simp add: RowsEditor_def Let_def)
  from rows_reach.Step [OF r rows_step.Submit [OF this]] have "rows_reach ?c ?e (RowsEditor ?c SubmitEntry ?s)" .
  from other_settings_untouched [OF this c] d
  have "fst (rowsOf (re_settings (RowsEditor ?c SubmitEntry ?s)) category_scripts_user) = fst (rowsOf (re_settings ?e) category_scripts_user)"
    by (simp add: categoryId_def category_scripts_computer_def category_scripts_user_def)
  also have "\<dots> = [?logon]" by code_simp
  finally show ?thesis by simp
qed

end
