(* ===== verification/SettingsTree.thy ===== *)
theory SettingsTree
  imports Settings "HOL-Library.Multiset"
begin

text \<open>
  What the tree of settings shows and counts, which halves a policy object configures, and what a
  form line makes of a value (\<^verbatim>\<open>toInput\<close>, \<^verbatim>\<open>fromInput\<close>): the lemmas and properties of the tables in
  \<open>Settings\<close> that are not about one category's rows.
\<close>

section \<open>The tree shows each entry once\<close>

lemma concat_partition:
  assumes "distinct gs" and "\<And>x. x \<in> set xs \<Longrightarrow> f x \<in> set gs"
  shows "mset (concat (map (\<lambda>g. filter (\<lambda>x. f x = g) xs) gs)) = mset xs"
  using assms
proof (induction gs arbitrary: xs)
  case Nil
  then show ?case by (cases xs) auto
next
  case (Cons g gs)
  let ?rest = "filter (\<lambda>x. f x \<noteq> g) xs"
  have "map (\<lambda>h. filter (\<lambda>x. f x = h) xs) gs = map (\<lambda>h. filter (\<lambda>x. f x = h) ?rest) gs"
    using Cons.prems(1) by (auto intro!: filter_cong)
  moreover have "mset (concat (map (\<lambda>h. filter (\<lambda>x. f x = h) ?rest) gs)) = mset ?rest"
    by (rule Cons.IH) (use Cons.prems in auto)
  ultimately have "mset (concat (map (\<lambda>g. filter (\<lambda>x. f x = g) xs) (g # gs))) =
      mset (filter (\<lambda>x. f x = g) xs) + mset ?rest" by (simp only: list.map concat.simps mset_append)
  moreover have "mset (filter (\<lambda>x. f x = g) ys) + mset (filter (\<lambda>x. f x \<noteq> g) ys) = mset ys" for ys
    by (induction ys) auto
  ultimately show ?case by (simp only:)
qed

lemma concat_folders: "concat (map snd (filter (\<lambda>f. snd f \<noteq> []) fs)) = concat (map snd fs)"
  by (induction fs) auto

lemma in_group_order: "g \<in> set GROUP_ORDER"
  by (cases g) (simp_all add: GROUP_ORDER_def)

lemma tree_shown_all: "mset (tree_shown s) = mset (tree_entries s)"
proof -
  have folder: "mset (concat (map snd (tree_folders s h))) = mset (filter (\<lambda>e. te_half e = h) (tree_entries s))" for h
  proof -
    have d: "distinct GROUP_ORDER" by (simp add: GROUP_ORDER_def)
    show ?thesis
      unfolding tree_folders_def Let_def concat_folders
      using concat_partition [OF d, of "filter (\<lambda>e. te_half e = h) (tree_entries s)" te_group] in_group_order
      by (simp add: comp_def)
  qed
  have "mset (filter (\<lambda>e. te_half e = Computer) xs) + mset (filter (\<lambda>e. te_half e = User) xs) = mset xs" for xs :: "tree_entry list"
    by (induction xs) (auto intro: half.exhaust)
  then show ?thesis by (simp add: tree_shown_def folder)
qed

lemma tree_entries_keys:
  "map te_key (tree_entries s) = map categoryId CATEGORIES @ map s_key SPECIAL @ (if countOf s ''browser'' > 0 then [''browser''] else [])"
  by (simp add: tree_entries_def comp_def)

lemma tree_entries_distinct: "distinct (map te_key (tree_entries s))"
  using tree_keys_distinct by (auto simp: tree_entries_keys)

lemma browser_key: "''browser'' \<notin> categoryId ` set CATEGORIES \<and> ''browser'' \<notin> s_key ` set SPECIAL"
  using tree_keys_distinct by simp

lemma halves_of_entries:
  "h \<in> set (halvesConfigured s) \<longleftrightarrow>
   (\<exists>e \<in> set (tree_entries s). te_key e \<noteq> ''browser'' \<and> te_half e = h \<and> 0 < countOf s (te_key e))"
proof -
  have n: "categoryId c \<noteq> ''browser''" if "c \<in> set CATEGORIES" for c
    using browser_key that by (metis imageI)
  have m: "s_key c \<noteq> ''browser''" if "c \<in> set SPECIAL" for c
    using browser_key that by (metis imageI)
  have "h \<in> set [Computer, User]" by (cases h) simp_all
  then have "h \<in> set (halvesConfigured s) \<longleftrightarrow>
      h \<in> set (map c_half (filter (\<lambda>c. countOf s (categoryId c) > 0) CATEGORIES) @
               map s_half (filter (\<lambda>s'. countOf s (s_key s') > 0) SPECIAL))"
    unfolding halvesConfigured_def Let_def set_filter by blast
  also have "\<dots> \<longleftrightarrow>
      (\<exists>c \<in> set CATEGORIES. c_half c = h \<and> 0 < countOf s (categoryId c)) \<or>
      (\<exists>c \<in> set SPECIAL. s_half c = h \<and> 0 < countOf s (s_key c))"
    unfolding set_append set_map set_filter by blast
  also have "\<dots> \<longleftrightarrow> (\<exists>e \<in> set (tree_entries s). te_key e \<noteq> ''browser'' \<and> te_half e = h \<and> 0 < countOf s (te_key e))"
    using n m unfolding tree_entries_def by (auto simp: bex_Un)
  finally show ?thesis .
qed

section \<open>Lines and the values they stand for\<close>

definition clean_piece :: "string \<Rightarrow> bool" where
  "clean_piece s \<longleftrightarrow> s \<noteq> [] \<and> CHR '','' \<notin> set s \<and> \<not> is_space (hd s) \<and> \<not> is_space (last s)"

lemma join_items: "map join_item (map JStr vs) = vs"
  by (induction vs) (simp_all add: join_item_def)

lemma toInput_strs: "toInput (JArr (map JStr vs)) = join_with '', '' vs"
  by (simp only: toInput_def jsval.case join_items)

lemma split_join_space:
  assumes "\<And>v. v \<in> set vs \<Longrightarrow> CHR '','' \<notin> set v"
  shows "split_on (CHR '','') (join_with '', '' vs) =
           (case vs of [] \<Rightarrow> [[]] | v # ws \<Rightarrow> v # map (\<lambda>w. CHR '' '' # w) ws)"
  using assms
proof (induction vs rule: remdups_adj.induct)
  case (3 x y xs)
  have "split_on (CHR '','') (join_with '', '' (x # y # xs)) =
        x # split_on (CHR '','') (CHR '' '' # join_with '', '' (y # xs))"
    using 3(3) split_append_sep [of "CHR '',''" x] by simp
  moreover have "split_on (CHR '','') (join_with '', '' (y # xs)) = y # map (\<lambda>w. CHR '' '' # w) xs"
    using 3 by (cases "x = y") auto
  ultimately show ?case by simp
qed (auto simp: split_no_sep)

lemma clean_trim: "clean_piece s \<Longrightarrow> js_trim s = s \<and> js_trim (CHR '' '' # s) = s \<and> s \<noteq> []"
  using js_trim_id [of s] js_trim_space_cons [of "CHR '' ''" s] by (auto simp: clean_piece_def is_space_def)

lemma split_trim_join:
  assumes "\<And>v. v \<in> set vs \<Longrightarrow> clean_piece v"
  shows "split_trim (join_with '', '' vs) = vs"
proof -
  have "map js_trim (split_on (CHR '','') (join_with '', '' vs)) = (case vs of [] \<Rightarrow> [[]] | _ \<Rightarrow> vs)"
    using assms split_join_space [of vs] clean_trim
    by (cases vs) (auto simp: clean_piece_def js_trim_def intro!: map_idI)
  then show ?thesis
    using assms clean_trim by (cases vs) (auto simp: split_trim_def nonempty_def intro!: filter_True)
qed

lemma split_on_snoc: "split_on x (s @ [x]) = split_on x s @ [[]]"
  by (induction s) (auto split: list.splits)

lemma split_trim_comma: "split_trim (s @ '','') = split_trim s"
  by (simp add: split_trim_def split_on_snoc nonempty_def js_trim_def)

lemma split_trim_clean:
  assumes "v \<in> set (split_trim raw)"
  shows "clean_piece v"
proof -
  obtain t where t: "t \<in> set (split_on (CHR '','') raw)" "v = js_trim t" "v \<noteq> []"
    using assms by (auto simp: split_trim_def)
  then have "CHR '','' \<notin> set v" using split_on_pieces set_js_trim [of t] by auto
  with t js_trim_ends [of t] show ?thesis by (simp add: clean_piece_def)
qed

lemma split_trim_again: "split_trim (join_with '', '' (split_trim raw)) = split_trim raw"
  by (rule split_trim_join) (rule split_trim_clean)

section \<open>The blank entries fit their fields\<close>

definition field_fits :: "field_spec \<Rightarrow> jsval \<Rightarrow> bool" where
  "field_fits f v =
     (if f_kind f = Some KCheckbox then (case v of JBool b \<Rightarrow> True | _ \<Rightarrow> False)
      else if f_kind f = Some KSelect then (case v of JStr t \<Rightarrow> t \<in> set (f_options f) | _ \<Rightarrow> False)
      else if f_kind f = Some KNumber then (case v of JNum n \<Rightarrow> True | JNull \<Rightarrow> True | _ \<Rightarrow> False)
      else if f_key f \<in> set LIST_FIELDS
      then (case v of JArr vs \<Rightarrow> list_all (\<lambda>w. case w of JStr t \<Rightarrow> clean_piece t | _ \<Rightarrow> False) vs | _ \<Rightarrow> False)
      else (case v of JStr t \<Rightarrow> True | _ \<Rightarrow> False))"

definition category_fits :: "category_spec \<Rightarrow> bool" where
  "category_fits c =
     (c_fields c \<noteq> [] \<and> list_ex (\<lambda>f. Some (f_key f) = c_identity c) (c_fields c) \<and>
      distinct (map f_key (c_fields c)) \<and> distinct (obj_keys (c_blank c)) \<and>
      list_all (\<lambda>f. field_fits f (obj_get (c_blank c) (f_key f))) (c_fields c))"

lemma legacy_counts:
  assumes "k \<noteq> ''browser''"
  shows "countOf [(''browser'', b)] k = 0"
proof -
  have key: "list_all (\<lambda>c. c_key c \<noteq> ''browser'') CATEGORIES" by code_simp
  have none: "obj_get [(''browser'', b)] k' = JUndef" if "k' \<noteq> ''browser''" for k'
    using that by simp
  have "length (fst (rowsOf [(''browser'', b)] c)) = 0" if "find (\<lambda>c. c_id c = Some k) CATEGORIES = Some c" for c
  proof -
    have "c \<in> set CATEGORIES" using that by (auto simp: find_Some_iff)
    then have "c_key c \<noteq> ''browser''" using key by (simp add: list_all_iff)
    then show ?thesis by (simp add: rowsOf_eq settings_list_def)
  qed
  then show ?thesis
    using assms by (simp add: countOf_def array_length_def opt_member_def none split: option.splits)
qed

section \<open>Properties\<close>

text \<open>C10: The tree of a policy's settings shows every setting once: each category and each setting
  configured once, under one half and in one folder, and the retired browser policy exactly when the
  object still carries one. No two entries open the same editor.\<close>

theorem tree_shows_every_setting_once:
  "mset (tree_shown s) = mset (tree_entries s) \<and> distinct (map te_key (tree_shown s)) \<and>
   set (map te_key (tree_shown s)) =
     set (map categoryId CATEGORIES) \<union> set (map s_key SPECIAL) \<union> (if 0 < countOf s ''browser'' then {''browser''} else {})"
proof -
  have m: "mset (map te_key (tree_shown s)) = mset (map te_key (tree_entries s))"
    using tree_shown_all by (simp only: mset_map)
  then have "distinct (map te_key (tree_shown s))"
    using tree_entries_distinct mset_eq_imp_distinct_iff by blast
  moreover have "set (map te_key (tree_shown s)) = set (map te_key (tree_entries s))"
    using m mset_eq_setD by blast
  ultimately show ?thesis
    using tree_shown_all by (simp only: tree_entries_keys set_append) auto
qed

text \<open>C11: An object is said to configure a half of Group Policy exactly when some entry the tree files
  under that half, the retired browser policy apart, counts at least one value.\<close>

theorem halves_are_those_with_a_count:
  "h \<in> set (halvesConfigured s) \<longleftrightarrow>
   (\<exists>e \<in> set (tree_shown s). te_key e \<noteq> ''browser'' \<and> te_half e = h \<and> 0 < countOf s (te_key e))"
  using halves_of_entries tree_shown_all mset_eq_setD by metis

text \<open>A policy object that carries only the retired browser policy shows it in the tree, counted,
  under the computer half, and is said to configure no half at all.\<close>

theorem retired_browser_policy_configures_no_half:
  assumes "ps \<noteq> []"
  shows "halvesConfigured [(''browser'', JObj [(''chromium'', JObj ps)])] = [] \<and>
         (\<exists>e \<in> set (tree_shown [(''browser'', JObj [(''chromium'', JObj ps)])]).
            te_half e = Computer \<and> countOf [(''browser'', JObj [(''chromium'', JObj ps)])] (te_key e) = length ps)"
proof -
  let ?s = "[(''browser'', JObj [(''chromium'', JObj ps)])]"
  have "h \<notin> set (halvesConfigured ?s)" for h
    using halves_of_entries [of h ?s] legacy_counts by auto
  then have none: "halvesConfigured ?s = []" by (metis list.set_intros(1) neq_Nil_conv)
  have b: "countOf ?s ''browser'' = length ps"
    by (simp add: countOf_def single_keys_def opt_member_def keys_count_def)
  then have "\<lparr>te_key = ''browser'', te_title = ''Browser policy'', te_half = Computer, te_group = SoftwareAndDrivers\<rparr> \<in> set (tree_entries ?s)"
    using assms by (simp add: tree_entries_def)
  then have "\<exists>e \<in> set (tree_shown ?s). te_half e = Computer \<and> countOf ?s (te_key e) = length ps"
    using b mset_eq_setD [OF tree_shown_all [of ?s]] by force
  with none show ?thesis by blast
qed

theorem retired_browser_policy_configures_no_half_witness:
  "halvesConfigured [(''browser'', JObj [(''chromium'', JObj [(''HomepageLocation'', JStr ''x'')])])] = []"
  using retired_browser_policy_configures_no_half [of "[(''HomepageLocation'', JStr ''x'')]"] by simp

text \<open>What is stored reads back from the line that shows it: storing a typed line, showing it and
  storing what is shown gives the same value, for every field but a number, and an integer shows as
  itself.\<close>

theorem shown_line_reads_back:
  "if f_kind f = Some KNumber \<and> f_key f \<notin> set LIST_FIELDS
   then fromInput f (toInput (JNum n)) = JNum n
   else fromInput f (toInput (fromInput f raw)) = fromInput f raw"
proof (cases "f_key f \<in> set LIST_FIELDS")
  case True
  then show ?thesis by (simp add: fromInput_def toInput_strs split_trim_again)
next
  case False
  then show ?thesis by (auto simp: fromInput_def toInput_def)
qed

text \<open>In a field that is a list typed as a line, a separator at the end of the line is taken away
  as soon as it is typed: the line shows as before, so a second item cannot be started after it.\<close>

theorem typed_separator_is_taken_away:
  assumes "f_key f \<in> set LIST_FIELDS" and "f_pick f = None" and "f_kind f = None"
  shows "let line = toInput (fromInput f typed);
             entry = obj_spread draft (Cell f draft (Typed (line @ '','')))
         in toInput (obj_get entry (f_key f)) = line"
proof -
  have "Cell f draft (Typed t) = [(f_key f, fromInput f t)]" for t
    using assms by (simp add: Cell_def)
  then show ?thesis
    using assms(1) by (simp add: Let_def fromInput_def toInput_strs split_trim_comma split_trim_again)
qed

theorem typed_separator_is_taken_away_witness:
  "toInput (obj_get (obj_spread [] (Cell (field_spec ''commands'' ''Commands'') []
     (Typed ''/usr/bin/apt,''))) ''commands'') = ''/usr/bin/apt''"
proof -
  let ?f = "field_spec ''commands'' ''Commands''"
  have f: "f_key ?f \<in> set LIST_FIELDS" "f_pick ?f = None" "f_kind ?f = None" "f_key ?f = ''commands''"
    by (simp_all add: field_spec_def LIST_FIELDS_def)
  have e: "toInput (fromInput ?f ''/usr/bin/apt'') = ''/usr/bin/apt''" by code_simp
  from typed_separator_is_taken_away [OF f(1-3), of "''/usr/bin/apt''" "[]"] show ?thesis
    by (simp add: Let_def e f(4))
qed

text \<open>A filter on one entry is kept exactly while it filters on something: a change sets its own
  criterion, leaves the other three alone, and when all four are empty the entry carries no filter.\<close>

theorem targeting_is_kept_while_it_filters:
  assumes "\<And>ps. obj_get draft ''targeting'' = JObj ps \<Longrightarrow> distinct (obj_keys ps)"
  shows "let old = (case obj_get draft ''targeting'' of JObj ps \<Rightarrow> ps | _ \<Rightarrow> []);
             changes = targeting_changes (or_else (obj_get draft ''targeting'') JNull) t;
             new = obj_get (EntryDialog (Target t) draft) ''targeting'';
             value = (\<lambda>k. if k \<in> set (obj_keys changes) then obj_get changes k else obj_get old k);
             nothing = (array_length (value ''os'') = 0 \<and> \<not> truthy (value ''hostname_pattern'') \<and>
                        array_length (value ''security_groups'') = 0 \<and> array_length (value ''ip_ranges'') = 0)
         in if nothing then new = JUndef
            else \<exists>ps. new = JObj ps \<and> (\<forall>k \<in> set [''os'', ''hostname_pattern'', ''security_groups'', ''ip_ranges''].
                         obj_get ps k = value k)"
proof -
  let ?changes = "targeting_changes (or_else (obj_get draft ''targeting'') JNull) t"
  let ?old = "case obj_get draft ''targeting'' of JObj ps \<Rightarrow> ps | _ \<Rightarrow> []"
  have d: "distinct (obj_keys ?changes)"
    by (cases t) (simp_all add: targeting_changes_def obj_keys_def Let_def)
  have o: "(case or_else (obj_get draft ''targeting'') JNull of JObj ps \<Rightarrow> ps | _ \<Rightarrow> []) = ?old"
    by (cases "obj_get draft ''targeting''") (simp_all add: or_else_def)
  show ?thesis
    by (simp add: EntryDialog_def targeting_set_def Let_def o obj.get_put obj_spread_get [OF d])
qed

theorem targeting_is_kept_while_it_filters_witness:
  "obj_get (EntryDialog (Target (Groups [])) [(''targeting'', JObj [(''security_groups'', JArr [JStr ''CN=g''])])])
     ''targeting'' = JUndef"
proof -
  let ?d = "[(''targeting'', JObj [(''security_groups'', JArr [JStr ''CN=g''])])]"
  have d: "\<And>ps. obj_get ?d ''targeting'' = JObj ps \<Longrightarrow> distinct (obj_keys ps)"
    by (auto simp: obj_keys_def)
  from targeting_is_kept_while_it_filters [where draft = ?d and t = "Groups []", OF d] show ?thesis
    by (simp add: Let_def targeting_changes_def obj_keys_def array_length_def or_else_def)
qed

text \<open>Every category's entry is well formed before anybody types: the field that names an entry is
  one of its fields, no field appears twice, and the blank entry holds for each field a value its control
  can show: a list for a list, a boolean for a tick box, one of the choices for a choice.\<close>

theorem blank_entries_fit:
  "list_all category_fits CATEGORIES \<and> list_all (\<lambda>k. k \<in> set (map c_key CATEGORIES)) TARGETABLE"
proof
  show "list_all category_fits CATEGORIES" by code_simp
  show "list_all (\<lambda>k. k \<in> set (map c_key CATEGORIES)) TARGETABLE" by code_simp
qed

end
