(* ===== verification/SettingEditors.thy ===== *)
theory SettingEditors
  imports SettingsTree Endpoints
begin

text \<open>
  The editors of the settings that are configured once (\<^verbatim>\<open>components/SettingsEditor.tsx\<close>): one
  \<open>single_editor\<close> for each, with the defaults its \<^verbatim>\<open>set\<close> fills in and its controls, each with the field it
  changes, how what it holds becomes a value, and when it is offered. The editors of the background picture, the
  retired browser policy, the fonts and the uploaded packages have a shape of their own and follow.
  A file is read while the page goes on; \<open>page_step\<close> has the settings its editor saw when it was chosen.
\<close>

section \<open>Controls\<close>

datatype (plugins only: code size) control =
    Text string
  | Trimmed string
  | Number string
  | Tick string
  | TickNot string
  | Either string string
  | TextClearing string string
  | ListOf string
  | Lines string
  | Commas string
  | Toggle string
  | Bookmarks
  | Document string
  | Picture string string jsobj

datatype (plugins only: code size) control_event =
  Enter string | Tap bool | Choose_list "string list" | Switch string bool | Parsed jsval | FileRead string string

definition split_lines :: "string \<Rightarrow> string list" where
  "split_lines raw = nonempty (map js_trim (split_on (CHR 0x0A) raw))"

definition bookmark_of :: "string \<Rightarrow> jsval" where
  "bookmark_of line =
     (let pieces = split_on (CHR ''='') line
      in JObj [(''name'', JStr (js_trim (hd pieces))), (''url'', JStr (js_trim (join_with ''='' (tl pieces))))])"

definition bookmarks_of :: "string \<Rightarrow> jsval list" where
  "bookmarks_of raw =
     filter (\<lambda>b. truthy (row_get b ''name'') \<and> truthy (row_get b ''url'')) (map bookmark_of (split_lines raw))"

definition bookmarks_text :: "jsval list \<Rightarrow> string" where
  "bookmarks_text bs = join_with [CHR 0x0A]
     (map (\<lambda>b. to_string (row_get b ''name'') @ '' = '' @ to_string (row_get b ''url'')) bs)"

text \<open>\<open>[...new Set(xs)]\<close>, after \<open>add\<close> or \<open>delete\<close>.\<close>

definition js_set :: "'a list \<Rightarrow> 'a list" where
  "js_set xs = rev (remdups (rev xs))"

definition toggled :: "jsval list \<Rightarrow> string \<Rightarrow> bool \<Rightarrow> jsval list" where
  "toggled xs x on =
     (let s = js_set xs
      in if on then (if JStr x \<in> set s then s else s @ [JStr x]) else filter (\<lambda>y. y \<noteq> JStr x) s)"

definition safe_name_char :: "char \<Rightarrow> bool" where
  "safe_name_char c \<longleftrightarrow> is_alnum c \<or> c \<in> set ''._-''"

definition safeFileName :: "string \<Rightarrow> string" where
  "safeFileName name =
     (let cleaned = map (\<lambda>c. if safe_name_char c then c else CHR ''-'') name;
          last_part = drop (length cleaned - 128) cleaned
      in if last_part = [] then ''background'' else last_part)"

text \<open>What a control sets, given the value the setting has now. A control ignores what is not its own
  kind of event. \<open>FileRead\<close> is the encoded picture and the name of its file.\<close>

definition on_enter :: "control_event \<Rightarrow> (string \<Rightarrow> jsobj) \<Rightarrow> jsobj option" where
  "on_enter ev f = (case ev of Enter t \<Rightarrow> Some (f t) | _ \<Rightarrow> None)"

definition on_tap :: "control_event \<Rightarrow> (bool \<Rightarrow> jsobj) \<Rightarrow> jsobj option" where
  "on_tap ev f = (case ev of Tap b \<Rightarrow> Some (f b) | _ \<Rightarrow> None)"

definition control_changes :: "control \<Rightarrow> jsobj \<Rightarrow> control_event \<Rightarrow> jsobj option" where
  "control_changes c cur ev =
     (case c of
        Text k \<Rightarrow> on_enter ev (\<lambda>t. [(k, JStr t)])
      | Trimmed k \<Rightarrow> on_enter ev (\<lambda>t. [(k, JStr (js_trim t))])
      | Number k \<Rightarrow> on_enter ev (\<lambda>t. [(k, js_Number t)])
      | Tick k \<Rightarrow> on_tap ev (\<lambda>b. [(k, JBool b)])
      | TickNot k \<Rightarrow> on_tap ev (\<lambda>b. [(k, JBool (\<not> b))])
      | Either k yes \<Rightarrow> on_enter ev (\<lambda>t. [(k, JBool (t = yes))])
      | TextClearing k other \<Rightarrow> on_enter ev (\<lambda>t. [(k, JStr t), (other, JStr [])])
      | ListOf k \<Rightarrow> (case ev of Choose_list ts \<Rightarrow> Some [(k, strs ts)] | _ \<Rightarrow> None)
      | Lines k \<Rightarrow> on_enter ev (\<lambda>t. [(k, strs (split_lines t))])
      | Commas k \<Rightarrow> on_enter ev (\<lambda>t. [(k, strs (split_trim t))])
      | Toggle k \<Rightarrow>
          (case ev of
             Switch x on \<Rightarrow> Some [(k, JArr (toggled (case obj_get cur k of JArr xs \<Rightarrow> xs | _ \<Rightarrow> []) x on))]
           | _ \<Rightarrow> None)
      | Bookmarks \<Rightarrow> on_enter ev (\<lambda>t. [(''bookmarks'', JArr (bookmarks_of t))])
      | Document k \<Rightarrow> (case ev of Parsed v \<Rightarrow> Some [(k, v)] | _ \<Rightarrow> None)
      | Picture k name clear \<Rightarrow>
          (case ev of
             FileRead d file \<Rightarrow> Some ([(k, JStr d), (name, JStr (safeFileName file))] @ clear)
           | _ \<Rightarrow> None))"

datatype (plugins only: code size) condition = Always | When string | Unless string | WhenIs string string | UnlessIs string string

definition always :: "control \<Rightarrow> control \<times> condition" where
  "always c = (c, Always)"

fun offered_when :: "condition \<Rightarrow> jsobj \<Rightarrow> bool" where
  "offered_when Always cur = True"
| "offered_when (When k) cur = truthy (obj_get cur k)"
| "offered_when (Unless k) cur = (\<not> truthy (obj_get cur k))"
| "offered_when (WhenIs k v) cur = (obj_get cur k = JStr v)"
| "offered_when (UnlessIs k v) cur = (obj_get cur k \<noteq> JStr v)"

section \<open>Editors\<close>

text \<open>What a change is written over: the defaults and what is set, what is set, or nothing.\<close>

datatype (plugins only: code size) refill = WithDefaults | CurrentOnly | Replacing

record single_editor =
  e_key :: string
  e_refill :: refill
  e_defaults :: jsobj
  e_controls :: "(control \<times> condition) list"

datatype (plugins only: code size) single_event = AddSetting | RemoveSetting | Change control control_event

definition fields_of :: "jsval \<Rightarrow> jsobj" where
  "fields_of v = (case v of JObj ps \<Rightarrow> ps | _ \<Rightarrow> [])"

definition refilled :: "single_editor \<Rightarrow> jsobj \<Rightarrow> jsobj" where
  "refilled e cur = (case e_refill e of
     WithDefaults \<Rightarrow> obj_spread (e_defaults e) cur | CurrentOnly \<Rightarrow> cur | Replacing \<Rightarrow> [])"

text \<open>Add and the controls are never on the page together: Add is there while the setting is not
  configured, the controls and Remove once it is.\<close>

definition edit_single :: "single_editor \<Rightarrow> single_event \<Rightarrow> jsobj \<Rightarrow> jsobj" where
  "edit_single e ev settings =
     (let v = obj_get settings (e_key e); cur = fields_of v in
      case ev of
        AddSetting \<Rightarrow> if truthy v then settings else obj_put (e_key e) (JObj (e_defaults e)) settings
      | RemoveSetting \<Rightarrow> if truthy v then obj_put (e_key e) JUndef settings else settings
      | Change c cev \<Rightarrow>
          (if truthy v \<and> (\<exists>(d, w) \<in> set (e_controls e). d = c \<and> offered_when w cur)
           then (case control_changes c cur cev of
                   None \<Rightarrow> settings
                 | Some ch \<Rightarrow> obj_put (e_key e) (JObj (obj_spread (refilled e cur) ch)) settings)
           else settings))"

section \<open>The editors\<close>

definition UpdatesEditor :: single_editor where
  "UpdatesEditor = \<lparr>e_key = ''updates'', e_refill = WithDefaults,
     e_defaults =
      [(''enabled'', JBool True), (''security_only'', JBool True),
       (''schedule'', JStr ''daily''), (''auto_reboot'', JBool False),
       (''reboot_time'', JStr ''03:00''), (''remove_unused'', JBool True)],
     e_controls = map always
      [Tick ''enabled'', Either ''security_only'' ''security'', Text ''schedule'',
       Tick ''remove_unused'', Tick ''auto_reboot''] @
      [(Text ''reboot_time'', When ''auto_reboot'')]\<rparr>"

definition LoginScreenEditor :: single_editor where
  "LoginScreenEditor = \<lparr>e_key = ''login_screen'', e_refill = WithDefaults,
     e_defaults =
      [(''banner_text'', JStr []), (''background_uri'', JStr []),
       (''background_fit'', JStr ''zoom''), (''allow_user_background'', JBool True),
       (''disable_user_list'', JBool False)],
     e_controls = map always
      [Text ''banner_text'',
       Picture ''background_image'' ''background_image_name'' [(''background_uri'', JStr [])],
       Text ''background_uri'', Text ''background_fit'', Tick ''allow_user_background'',
       Tick ''disable_user_list'']\<rparr>"

definition AlwaysOnVpnEditor :: single_editor where
  "AlwaysOnVpnEditor = \<lparr>e_key = ''always_on_vpn'', e_refill = CurrentOnly,
     e_defaults =
      [(''tunnel'', JStr []), (''block_until_connected'', JBool False)],
     e_controls = map always
      [Text ''tunnel'', Tick ''block_until_connected'']\<rparr>"

definition LocalAdministratorEditor :: single_editor where
  "LocalAdministratorEditor = \<lparr>e_key = ''local_administrator'', e_refill = WithDefaults,
     e_defaults =
      [(''account'', JStr ''odmadmin''), (''rotate_days'', JNum 30), (''length'', JNum 20),
       (''administrator'', JBool True)],
     e_controls = map always
      [Text ''account'', Number ''rotate_days'', Number ''length'', Tick ''administrator'']\<rparr>"

definition GraphicsDriversEditor :: single_editor where
  "GraphicsDriversEditor = \<lparr>e_key = ''graphics_drivers'', e_refill = Replacing,
     e_defaults =
      [(''mode'', JStr ''auto'')],
     e_controls = map always
      [Text ''mode'']\<rparr>"

definition CertificatesEditor :: single_editor where
  "CertificatesEditor = \<lparr>e_key = ''certificates'', e_refill = WithDefaults,
     e_defaults =
      [(''trust_domain_authority'', JBool True), (''browsers'', JBool True),
       (''machine_certificate'', JBool False),
       (''machine_certificate_path'', JStr ''/etc/ssl/odm'')],
     e_controls = map always
      [Tick ''trust_domain_authority'', Tick ''machine_certificate''] @
      [(Tick ''browsers'', When ''trust_domain_authority''),
       (Text ''machine_certificate_path'', When ''machine_certificate'')]\<rparr>"

definition GrubEditor :: single_editor where
  "GrubEditor = \<lparr>e_key = ''grub'', e_refill = WithDefaults,
     e_defaults =
      [(''timeout_seconds'', JNum 0), (''hide_menu'', JBool True),
       (''boot_splash'', JBool False), (''splash_message'', JStr []),
       (''splash_image'', JStr []), (''splash_image_name'', JStr []),
       (''splash_background'', JStr []), (''splash_background_name'', JStr [])],
     e_controls = map always
      [Tick ''boot_splash''] @
      [(Number ''timeout_seconds'', Unless ''boot_splash''),
       (Tick ''hide_menu'', Unless ''boot_splash''), (Tick ''silent'', When ''boot_splash''),
       (Text ''splash_message'', When ''boot_splash''),
       (Picture ''splash_background'' ''splash_background_name'' [], When ''boot_splash''),
       (Picture ''splash_image'' ''splash_image_name'' [], When ''boot_splash'')]\<rparr>"

definition RemoteDesktopSessionEditor :: single_editor where
  "RemoteDesktopSessionEditor = \<lparr>e_key = ''remote_desktop_session'', e_refill = WithDefaults,
     e_defaults =
      [(''allow_clipboard'', JBool True), (''allow_printers'', JBool True),
       (''allow_drives'', JBool False), (''allow_audio'', JBool True),
       (''allow_microphone'', JBool False), (''max_colour_depth'', JNum 32)],
     e_controls = map always
      [Tick ''allow_clipboard'', Tick ''allow_printers'', Tick ''allow_drives'',
       Tick ''allow_audio'', Tick ''allow_microphone'', Number ''max_colour_depth'']\<rparr>"

definition AgentUpdateEditor :: single_editor where
  "AgentUpdateEditor = \<lparr>e_key = ''agent_update'', e_refill = WithDefaults,
     e_defaults =
      [(''mode'', JStr ''notify''), (''version'', JStr [])],
     e_controls = map always
      [Text ''mode'', Trimmed ''version'']\<rparr>"

definition LocalPasswordEditor :: single_editor where
  "LocalPasswordEditor = \<lparr>e_key = ''local_password_policy'', e_refill = WithDefaults,
     e_defaults =
      [(''minimum_length'', JNum 12), (''require_uppercase'', JBool False),
       (''require_lowercase'', JBool False), (''require_digit'', JBool False),
       (''require_symbol'', JBool False), (''maximum_age_days'', JNum 0),
       (''minimum_age_days'', JNum 0), (''warn_days'', JNum 7), (''accounts'', JArr [])],
     e_controls = map always
      [Number ''minimum_length'', Number ''maximum_age_days'', Number ''minimum_age_days'',
       Number ''warn_days'', Tick ''require_uppercase'', Tick ''require_lowercase'',
       Tick ''require_digit'', Tick ''require_symbol'', ListOf ''accounts'']\<rparr>"

definition RoamingProfileEditor :: single_editor where
  "RoamingProfileEditor = \<lparr>e_key = ''roaming_profile'', e_refill = WithDefaults,
     e_defaults =
      [(''path'', JStr []), (''kind'', JStr ''disk''), (''disk_gb'', JNum 10)],
     e_controls = map always
      [Text ''path'', Text ''kind''] @
      [(Number ''disk_gb'', WhenIs ''kind'' ''disk'')]\<rparr>"

definition PowerEditor :: single_editor where
  "PowerEditor = \<lparr>e_key = ''power'', e_refill = WithDefaults,
     e_defaults =
      [(''screen_off_ac_minutes'', JNum 10), (''screen_off_battery_minutes'', JNum 5),
       (''suspend_ac_minutes'', JNum 0), (''suspend_battery_minutes'', JNum 30),
       (''login_screen_screen_off_minutes'', JNum 15),
       (''login_screen_suspend_minutes'', JNum 0), (''lid_close_action'', JStr ''suspend''),
       (''lid_close_action_external_power'', JStr []),
       (''lid_close_action_docked'', JStr ''ignore''),
       (''power_button_action'', JStr ''suspend''),
       (''suspend_key_action'', JStr ''suspend''),
       (''hibernate_key_action'', JStr ''hibernate''), (''idle_action'', JStr ''ignore''),
       (''idle_action_minutes'', JNum 0), (''allow_suspend'', JBool True),
       (''allow_hibernate'', JBool True), (''critical_battery_action'', JStr []),
       (''critical_battery_percent'', JNum 2), (''dim_screen'', JBool True),
       (''idle_brightness_percent'', JNum 30), (''power_saver_on_low_battery'', JBool True),
       (''allow_user_change'', JBool False)],
     e_controls = map always
      [Number ''screen_off_ac_minutes'', Number ''screen_off_battery_minutes'',
       Number ''suspend_ac_minutes'', Number ''suspend_battery_minutes'',
       Either ''dim_screen'' ''yes'', Number ''idle_brightness_percent'',
       Either ''power_saver_on_low_battery'' ''yes'',
       Number ''login_screen_screen_off_minutes'', Number ''login_screen_suspend_minutes'',
       Text ''lid_close_action'', Text ''lid_close_action_external_power'',
       Text ''lid_close_action_docked'', Text ''power_button_action'',
       Text ''suspend_key_action'', Text ''hibernate_key_action'', Text ''idle_action'',
       Number ''idle_action_minutes'', TickNot ''allow_suspend'', TickNot ''allow_hibernate'',
       Text ''critical_battery_action'', Number ''critical_battery_percent'',
       Tick ''allow_user_change'']\<rparr>"

definition RegionalEditor :: single_editor where
  "RegionalEditor = \<lparr>e_key = ''regional'', e_refill = WithDefaults,
     e_defaults =
      [(''locale'', JStr ''en_US.UTF-8''), (''formats_locale'', JStr []),
       (''additional_locales'', JArr []), (''keyboard_layout'', JStr ''us''),
       (''keyboard_variant'', JStr []), (''timezone'', JStr ''Etc/UTC''),
       (''allow_user_change'', JBool True)],
     e_controls = map always
      [Text ''locale'', Text ''formats_locale'', ListOf ''additional_locales'',
       TextClearing ''keyboard_layout'' ''keyboard_variant'', Text ''keyboard_variant'',
       Text ''timezone'', Tick ''allow_user_change'']\<rparr>"

definition DeviceControlEditor :: single_editor where
  "DeviceControlEditor = \<lparr>e_key = ''device_control'', e_refill = WithDefaults,
     e_defaults =
      [(''bluetooth'', JStr ''allow''), (''camera'', JStr ''allow''),
       (''microphone'', JStr ''allow''), (''allowed_usb'', JArr [])],
     e_controls = map always
      [Text ''bluetooth'', Text ''camera'', Text ''microphone'', Commas ''allowed_usb'']\<rparr>"

definition PasswordManagerEditor :: single_editor where
  "PasswordManagerEditor = \<lparr>e_key = ''password_manager'', e_refill = WithDefaults,
     e_defaults =
      [(''vault_url'', JStr []), (''browser_extension'', JBool True),
       (''firefox'', JBool True), (''chromium'', JBool True), (''desktop_app'', JBool False),
       (''disable_browser_managers'', JBool True)],
     e_controls = map always
      [Text ''vault_url'', Tick ''browser_extension'', Tick ''desktop_app'',
       Tick ''disable_browser_managers''] @
      [(Tick ''firefox'', When ''browser_extension''),
       (Tick ''chromium'', When ''browser_extension'')]\<rparr>"

definition ComputerNamesEditor :: single_editor where
  "ComputerNamesEditor = \<lparr>e_key = ''computer_names'', e_refill = Replacing,
     e_defaults =
      [(''template'', JStr ''WS-{n:4}'')],
     e_controls = map always
      [Text ''template'']\<rparr>"

definition FirmwareUpdatesEditor :: single_editor where
  "FirmwareUpdatesEditor = \<lparr>e_key = ''firmware_updates'', e_refill = WithDefaults,
     e_defaults =
      [(''enabled'', JBool True), (''mode'', JStr ''report''),
       (''include_testing'', JBool False), (''reboot_when_needed'', JBool False)],
     e_controls = map always
      [Tick ''enabled'', Text ''mode'', Tick ''reboot_when_needed'', Tick ''include_testing'']\<rparr>"

definition ScreenLockEditor :: single_editor where
  "ScreenLockEditor = \<lparr>e_key = ''screen_lock'', e_refill = WithDefaults,
     e_defaults =
      [(''idle_minutes'', JNum 10), (''lock_delay_seconds'', JNum 0),
       (''lock_enabled'', JBool True), (''lock_on_suspend'', JBool True),
       (''show_notifications'', JBool False), (''allow_user_change'', JBool False)],
     e_controls = map always
      [Number ''idle_minutes'', Number ''lock_delay_seconds'', Tick ''lock_enabled'',
       Tick ''lock_on_suspend'', Tick ''show_notifications'', Tick ''allow_user_change'']\<rparr>"

definition RemovableStorageEditor :: single_editor where
  "RemovableStorageEditor = \<lparr>e_key = ''removable_storage'', e_refill = WithDefaults,
     e_defaults =
      [(''mode'', JStr ''read_only''), (''exempt_principals'', JArr []), (''message'', JStr [])],
     e_controls = map always
      [Text ''mode''] @
      [(ListOf ''exempt_principals'', UnlessIs ''mode'' ''allow'')]\<rparr>"

definition DesktopThemeEditor :: single_editor where
  "DesktopThemeEditor = \<lparr>e_key = ''desktop_theme'', e_refill = WithDefaults,
     e_defaults =
      [(''gtk_theme'', JStr []), (''icon_theme'', JStr []), (''cursor_theme'', JStr []),
       (''interface_font'', JStr []), (''document_font'', JStr []),
       (''monospace_font'', JStr []), (''colour_scheme'', JStr []),
       (''allow_user_change'', JBool True)],
     e_controls = map always
      [Text ''gtk_theme'', Text ''icon_theme'', Text ''cursor_theme'',
       Text ''interface_font'', Text ''document_font'', Text ''monospace_font'',
       Text ''colour_scheme'', Tick ''allow_user_change'']\<rparr>"

definition SecondFactorEditor :: single_editor where
  "SecondFactorEditor = \<lparr>e_key = ''second_factor'', e_refill = WithDefaults,
     e_defaults =
      [(''enabled'', JBool True), (''self_enrol'', JBool True),
       (''services'', JArr [JStr ''login'', JStr ''ssh'']), (''require_principals'', JArr []),
       (''exempt_principals'', JArr []), (''grace_days'', JNum 14)],
     e_controls = map always
      [Tick ''enabled'', Text ''method'', Toggle ''services'', Tick ''self_enrol'',
       Number ''grace_days'', ListOf ''require_principals'', ListOf ''exempt_principals''] @
      [(Text ''push_server_url'', WhenIs ''method'' ''push'')]\<rparr>"

definition SoftwareControlEditor :: single_editor where
  "SoftwareControlEditor = \<lparr>e_key = ''software_control'', e_refill = WithDefaults,
     e_defaults =
      [(''enabled'', JBool True), (''allowed'', JArr []), (''block_flatpak'', JBool True),
       (''block_snap'', JBool True), (''message'', JStr [])],
     e_controls = map always
      [Tick ''enabled'', Lines ''allowed'', Tick ''block_flatpak'', Tick ''block_snap'',
       Text ''message'']\<rparr>"

definition FirstRunEditor :: single_editor where
  "FirstRunEditor = \<lparr>e_key = ''first_run'', e_refill = WithDefaults,
     e_defaults =
      [(''disable_tour'', JBool True), (''disable_welcome_dialog'', JBool True),
       (''message'', JStr [])],
     e_controls = map always
      [Tick ''disable_tour'', Tick ''disable_welcome_dialog'', Text ''message'']\<rparr>"

definition BLANK_BROWSER :: jsobj where
  "BLANK_BROWSER =
      [(''start_page'', JStr ''unset''), (''homepage'', JStr []),
       (''homepage_locked'', JBool True), (''bookmarks_folder'', JStr []),
       (''bookmarks'', JArr []), (''bookmarks_bar'', JStr ''unset''),
       (''extensions_install'', JArr []), (''extensions_block'', JArr []),
       (''extensions_user_install'', JStr ''unset''), (''password_manager'', JStr ''unset''),
       (''autofill'', JStr ''unset''), (''history'', JStr ''unset''),
       (''private_browsing'', JStr ''unset''), (''developer_tools'', JStr ''unset''),
       (''telemetry'', JStr ''unset''), (''sync_accounts'', JStr ''unset''),
       (''popups'', JStr ''unset''), (''default_search'', JStr []),
       (''default_search_url'', JStr []), (''download_directory'', JStr []),
       (''proxy_mode'', JStr ''unset''), (''proxy_server'', JStr []),
       (''proxy_pac_url'', JStr []), (''proxy_bypass'', JArr []),
       (''blocked_sites'', JArr []), (''allowed_sites'', JArr []),
       (''first_run_pages'', JStr ''unset''), (''default_browser_check'', JStr ''unset''),
       (''extra'', JObj [])]"

definition browser_controls :: "(control \<times> condition) list" where
  "browser_controls = map always
      [Text ''start_page'', Text ''homepage'', Text ''bookmarks_bar'',
       Text ''bookmarks_folder'', Tick ''homepage_locked'', Bookmarks,
       Lines ''extensions_install'', Lines ''extensions_block'',
       Text ''extensions_user_install'', Text ''password_manager'', Text ''autofill'',
       Text ''history'', Text ''private_browsing'', Text ''developer_tools'',
       Text ''telemetry'', Text ''sync_accounts'', Text ''popups'', Text ''default_search'',
       Text ''default_search_url'', Text ''download_directory'', Text ''proxy_mode'',
       Text ''proxy_server'', Text ''proxy_pac_url'', Lines ''proxy_bypass'',
       Lines ''blocked_sites'', Lines ''allowed_sites'', Text ''first_run_pages'',
       Text ''default_browser_check'', Document ''extra'']"

definition BrowserSettingsEditor :: "string \<Rightarrow> single_editor" where
  "BrowserSettingsEditor which = \<lparr>e_key = which, e_refill = WithDefaults,
     e_defaults = BLANK_BROWSER, e_controls = browser_controls\<rparr>"

definition single_editors :: "single_editor list" where
  "single_editors =
      [UpdatesEditor, LoginScreenEditor, AlwaysOnVpnEditor, LocalAdministratorEditor,
       GraphicsDriversEditor, CertificatesEditor, GrubEditor, RemoteDesktopSessionEditor,
       AgentUpdateEditor, LocalPasswordEditor, RoamingProfileEditor, PowerEditor,
       RegionalEditor, DeviceControlEditor, PasswordManagerEditor, ComputerNamesEditor,
       FirmwareUpdatesEditor, ScreenLockEditor, RemovableStorageEditor, DesktopThemeEditor,
       SecondFactorEditor, SoftwareControlEditor, FirstRunEditor,
       BrowserSettingsEditor ''firefox_policy'', BrowserSettingsEditor ''chromium_policy'']"

section \<open>Editors of their own shape\<close>

datatype (plugins only: code size) wallpaper_event =
  WallpaperPicture string string | WallpaperLocation string | WallpaperFit string |
  WallpaperUserChange bool | WallpaperRemove

definition WallpaperEditor :: "wallpaper_event \<Rightarrow> jsobj \<Rightarrow> jsobj" where
  "WallpaperEditor ev settings =
     (let w = obj_get settings ''wallpaper''; cur = fields_of w;
          fit = or_else (opt_member w ''picture_options'') (JStr ''zoom'') in
      case ev of
        WallpaperPicture d file \<Rightarrow>
          obj_put ''wallpaper'' (JObj (obj_spread cur
            [(''image'', JStr d), (''image_name'', JStr (safeFileName file)), (''uri'', JStr []),
             (''picture_options'', fit)])) settings
      | WallpaperLocation uri \<Rightarrow>
          obj_put ''wallpaper''
            (if uri \<noteq> [] \<or> truthy (opt_member w ''image'')
             then JObj (obj_spread cur [(''uri'', JStr uri), (''picture_options'', fit)]) else JUndef) settings
      | WallpaperFit v \<Rightarrow>
          obj_put ''wallpaper'' (if truthy w then JObj (obj_spread cur [(''picture_options'', JStr v)]) else JUndef) settings
      | WallpaperUserChange b \<Rightarrow>
          if truthy w then obj_put ''wallpaper'' (JObj (obj_spread cur [(''allow_user_change'', JBool b)])) settings
          else settings
      | WallpaperRemove \<Rightarrow> if truthy w then obj_put ''wallpaper'' JUndef settings else settings)"

datatype (plugins only: code size) browser_event = BrowserChromium jsval | BrowserFirefox jsval | BrowserRemove

definition BrowserEditor :: "browser_event \<Rightarrow> jsobj \<Rightarrow> jsobj" where
  "BrowserEditor ev settings =
     (let b = obj_get settings ''browser'' in
      case ev of
        BrowserChromium v \<Rightarrow> obj_put ''browser'' (JObj [(''chromium'', v),
          (''firefox'', or_else (opt_member b ''firefox'') (JObj []))]) settings
      | BrowserFirefox v \<Rightarrow> obj_put ''browser'' (JObj [(''chromium'', or_else (opt_member b ''chromium'') (JObj [])),
          (''firefox'', v)]) settings
      | BrowserRemove \<Rightarrow> obj_put ''browser'' JUndef settings)"

text \<open>Fonts: a file is refused by its name or its size, and replaces one of the same name.\<close>

definition ends_with :: "string \<Rightarrow> string \<Rightarrow> bool" where
  "ends_with s e = js_startsWith (rev s) (rev e)"

definition font_file :: "string \<Rightarrow> bool" where
  "font_file name = list_ex (\<lambda>e. ends_with (to_lower name) e) [''.ttf'', ''.otf'', ''.ttc'', ''.woff2'']"

definition font_name :: "jsval \<Rightarrow> jsval" where
  "font_name f = row_get f ''name''"

definition add_font :: "string \<Rightarrow> nat \<Rightarrow> string \<Rightarrow> jsobj \<Rightarrow> jsobj" where
  "add_font file bytes content settings =
     (if \<not> font_file file \<or> 5000000 < bytes then settings
      else (let fonts = settings_list settings ''fonts''; name = JStr (safeFileName file)
            in obj_put ''fonts'' (JArr (filter (\<lambda>f. font_name f \<noteq> name) fonts @
                 [JObj [(''name'', name), (''content'', JStr content)]])) settings))"

definition remove_font :: "jsval \<Rightarrow> jsobj \<Rightarrow> jsobj" where
  "remove_font name settings =
     obj_put ''fonts'' (JArr (filter (\<lambda>f. font_name f \<noteq> name) (settings_list settings ''fonts''))) settings"

text \<open>Uploaded packages: entries that name a file kept by the console.\<close>

definition MAX_PACKAGE_BYTES :: nat where
  "MAX_PACKAGE_BYTES = 200 * 1024 * 1024"

definition package_refused :: "string \<Rightarrow> nat \<Rightarrow> bool" where
  "package_refused file bytes \<longleftrightarrow> \<not> ends_with file ''.deb'' \<or> MAX_PACKAGE_BYTES < bytes"

definition package_upload :: "string \<Rightarrow> nat \<Rightarrow> string \<Rightarrow> api_call option" where
  "package_upload file bytes content =
     (if package_refused file bytes then None
      else Some (Call_packages (Pkg_upload
        (safeFileName (if ends_with (to_lower file) ''.deb'' then take (length file - 4) file else file)) file content)))"

definition package_entry :: "string \<Rightarrow> string \<Rightarrow> jsval" where
  "package_entry name id' = JObj [(''name'', JStr name), (''package_id'', JStr id'), (''state'', JStr ''present'')]"

datatype (plugins only: code size) package_event =
  PackageUploaded string string | PackageExisting string | PackageState nat string | PackageKeep nat bool | PackageRemove nat

definition CustomPackagesEditor :: "(string \<times> string) list \<Rightarrow> package_event \<Rightarrow> jsobj \<Rightarrow> jsobj" where
  "CustomPackagesEditor library ev settings =
     (let entries = settings_list settings ''custom_packages'';
          store = (\<lambda>es. obj_put ''custom_packages'' (JArr es) settings);
          change = (\<lambda>i k v. store (if i < length entries
             then entries[i := JObj (obj_put k v (fields_of (entries ! i)))] else entries)) in
      case ev of
        PackageUploaded name id' \<Rightarrow> store (entries @ [package_entry name id'])
      | PackageExisting id' \<Rightarrow>
          (case if id' = [] then None else find (\<lambda>p. fst p = id') library of
             None \<Rightarrow> settings | Some p \<Rightarrow> store (entries @ [package_entry (snd p) id']))
      | PackageState i v \<Rightarrow> change i ''state'' (JStr v)
      | PackageKeep i b \<Rightarrow> change i ''keep_when_unlinked'' (JBool b)
      | PackageRemove i \<Rightarrow> store (remove_at i entries))"

definition package_unused :: "(string \<times> string) list \<Rightarrow> jsobj \<Rightarrow> (string \<times> string) list" where
  "package_unused library settings =
     filter (\<lambda>p. \<not> list_ex (\<lambda>e. row_get e ''package_id'' = JStr (fst p)) (settings_list settings ''custom_packages'')) library"

section \<open>A page with files being read\<close>

text \<open>The handler that reads a file keeps the settings of the moment it was chosen, and writes the
  whole of them back with its own change when it is done.\<close>

record settings_page =
  page_settings :: jsobj
  page_reading :: "(single_editor \<times> control \<times> jsobj) list"

datatype (plugins only: code size) page_event =
  Edited single_editor single_event | ChoseFile single_editor control | FinishedFile nat string string

definition page_step :: "page_event \<Rightarrow> settings_page \<Rightarrow> settings_page" where
  "page_step ev s =
     (case ev of
        Edited e v \<Rightarrow> s\<lparr>page_settings := edit_single e v (page_settings s)\<rparr>
      | ChoseFile e c \<Rightarrow> s\<lparr>page_reading := page_reading s @ [(e, c, page_settings s)]\<rparr>
      | FinishedFile i d file \<Rightarrow>
          (if i < length (page_reading s)
           then (let (e, c, seen) = page_reading s ! i
                 in s\<lparr>page_settings := edit_single e (Change c (FileRead d file)) seen\<rparr>)
           else s))"


section \<open>The editors and the tree\<close>

lemma editor_keys_single: "list_all (\<lambda>e. e_key e \<in> set single_keys) single_editors"
  by code_simp

lemma editor_keys_apart: "list_all (\<lambda>e. e_key e \<notin> set (map c_key CATEGORIES)) single_editors"
  by code_simp

lemma edit_single_frame [js_frame]: "k \<noteq> e_key e \<Longrightarrow> obj_get (edit_single e ev s) k = obj_get s k"
  by (auto simp: edit_single_def Let_def split: single_event.splits option.splits)

lemma countOf_frame:
  assumes "obj_get s k = obj_get s' k"
    and "\<And>c. c \<in> set CATEGORIES \<Longrightarrow> obj_get s (c_key c) = obj_get s' (c_key c)"
  shows "countOf s k = countOf s' k"
proof -
  have "fst (rowsOf s c) = fst (rowsOf s' c)" if "c \<in> set CATEGORIES" for c
    using assms(2) [OF that] by (simp add: rowsOf_eq settings_list_def)
  then have "length (fst (rowsOf s c)) = length (fst (rowsOf s' c))" if "find (\<lambda>c. c_id c = Some k) CATEGORIES = Some c" for c
    using that by (metis find_Some_iff nth_mem)
  then have "(case find (\<lambda>c. c_id c = Some k) CATEGORIES of
      Some split \<Rightarrow> length (fst (rowsOf s split)) | None \<Rightarrow> array_length (obj_get s k)) =
    (case find (\<lambda>c. c_id c = Some k) CATEGORIES of
      Some split \<Rightarrow> length (fst (rowsOf s' split)) | None \<Rightarrow> array_length (obj_get s k))"
    by (auto split: option.split)
  then show ?thesis by (simp only: countOf_def assms(1))
qed

lemma json_text_put_undef:
  assumes "distinct (obj_keys s)"
  shows "json_text (JObj (obj_put k JUndef s)) = json_text (JObj (filter (\<lambda>p. fst p \<noteq> k) s))"
proof -
  have id: "k \<notin> set (obj_keys t) \<Longrightarrow> filter (\<lambda>p. fst p \<noteq> k) t = t" for t :: jsobj
    by (rule filter_True) (auto simp: obj_keys_def)
  have "concat (map (\<lambda>(k, v). if v = JUndef then [] else [(k, json_text v)]) (obj_put k JUndef s)) =
        concat (map (\<lambda>(k, v). if v = JUndef then [] else [(k, json_text v)]) (filter (\<lambda>p. fst p \<noteq> k) s))"
    using assms
  proof (induction s)
    case Nil
    then show ?case by simp
  next
    case (Cons p s)
    obtain l v where p: "p = (l, v)" by (cases p)
    show ?case
    proof (cases "l = k")
      case True
      then have "k \<notin> set (obj_keys s)" using Cons.prems p by (simp add: obj_keys_def)
      with True p id [of s] show ?thesis by simp
    next
      case False
      with Cons p show ?thesis by (simp add: obj_keys_def)
    qed
  qed
  then show ?thesis by simp
qed

section \<open>What typing leaves\<close>

definition control_text :: "control \<Rightarrow> jsobj \<Rightarrow> string" where
  "control_text c cur =
     (case c of
        Lines k \<Rightarrow> join_with [CHR 0x0A] (case obj_get cur k of JArr vs \<Rightarrow> map join_item vs | _ \<Rightarrow> [])
      | Commas k \<Rightarrow> toInput (obj_get cur k)
      | Bookmarks \<Rightarrow> bookmarks_text (case obj_get cur ''bookmarks'' of JArr vs \<Rightarrow> vs | _ \<Rightarrow> [])
      | Text k \<Rightarrow> to_string (obj_get cur k)
      | _ \<Rightarrow> [])"

definition type_char :: "control \<Rightarrow> char \<Rightarrow> jsobj \<Rightarrow> jsobj" where
  "type_char c x cur =
     (case control_changes c cur (Enter (control_text c cur @ [x])) of None \<Rightarrow> cur | Some ch \<Rightarrow> obj_spread cur ch)"

lemma one_piece:
  assumes "sep \<notin> set t"
  shows "length (nonempty (map js_trim (split_on sep (t @ [x])))) \<le> 1"
proof (cases "x = sep")
  case True
  then show ?thesis
    using split_no_sep [OF assms] by (simp add: split_on_snoc nonempty_def js_trim_def)
next
  case False
  then have "split_on sep (t @ [x]) = [t @ [x]]" using assms by (intro split_no_sep) auto
  then show ?thesis by (simp add: nonempty_def)
qed

lemma pieces_no_sep: "v \<in> set (nonempty (map js_trim (split_on sep t))) \<Longrightarrow> sep \<notin> set v"
  using set_js_trim split_on_pieces by fastforce

lemma strs_eq: "strs ts = JArr (map JStr ts)"
  by (simp add: strs_def)

text \<open>At most one item, with no separator in it.\<close>

definition one_item :: "char \<Rightarrow> jsval \<Rightarrow> bool" where
  "one_item sep v \<longleftrightarrow> (\<exists>ts. v = JArr (map JStr ts) \<and> length ts \<le> 1 \<and> (\<forall>t \<in> set ts. sep \<notin> set t))"

lemma join_one: "length ts \<le> 1 \<Longrightarrow> join_with s ts = (case ts of [] \<Rightarrow> [] | t # _ \<Rightarrow> t)"
  by (cases ts) auto

lemma one_item_typed:
  assumes "one_item sep (JArr (map JStr ts))"
  shows "one_item sep (JArr (map JStr (nonempty (map js_trim (split_on sep (join_with s ts @ [x]))))))"
proof -
  have "map JStr ts = map JStr us \<Longrightarrow> ts = us" for us
    using inj_map_eq_map [of JStr] by (simp add: inj_def)
  then have ts: "length ts \<le> 1" "\<forall>t \<in> set ts. sep \<notin> set t" using assms by (auto simp: one_item_def)
  then have "sep \<notin> set (join_with s ts)" by (cases ts) (auto simp: join_one)
  with one_piece [of sep "join_with s ts" x] pieces_no_sep show ?thesis
    unfolding one_item_def by blast
qed

lemma type_line:
  assumes "one_item (CHR 0x0A) (obj_get cur k)"
  shows "one_item (CHR 0x0A) (obj_get (type_char (Lines k) x cur) k)"
proof -
  obtain ts where ts: "obj_get cur k = JArr (map JStr ts)" using assms by (auto simp: one_item_def)
  have "obj_get (type_char (Lines k) x cur) k =
      JArr (map JStr (nonempty (map js_trim (split_on (CHR 0x0A) (join_with [CHR 0x0A] ts @ [x])))))"
    by (simp only: type_char_def control_changes_def control.case on_enter_def control_event.case option.case
        control_text_def ts jsval.case join_items split_lines_def strs_eq spread_one obj_get_put_same)
  with one_item_typed [of "CHR 0x0A" ts] assms ts show ?thesis by simp
qed

lemma type_comma:
  assumes "one_item (CHR '','') (obj_get cur k)"
  shows "one_item (CHR '','') (obj_get (type_char (Commas k) x cur) k)"
proof -
  obtain ts where ts: "obj_get cur k = JArr (map JStr ts)" using assms by (auto simp: one_item_def)
  have "obj_get (type_char (Commas k) x cur) k =
      JArr (map JStr (nonempty (map js_trim (split_on (CHR '','') (join_with '', '' ts @ [x])))))"
    by (simp only: type_char_def control_changes_def control.case on_enter_def control_event.case option.case
        control_text_def ts toInput_strs split_trim_def strs_eq spread_one obj_get_put_same)
  with one_item_typed [of "CHR '',''" ts] assms ts show ?thesis by simp
qed

lemma no_bookmark: "bookmarks_of [x] = []"
proof (cases "split_lines [x] = []")
  case False
  have "length (split_lines [x]) \<le> 1"
    using one_piece [of "CHR 0x0A" "[]" x] by (simp add: split_lines_def)
  with False obtain t where t: "split_lines [x] = [t]" by (cases "split_lines [x]") auto
  then have "t \<in> set (split_lines [x])" by simp
  then obtain p where "t = js_trim p" "p \<in> set (split_on (CHR 0x0A) [x])" by (auto simp: split_lines_def)
  then have "length t \<le> 1"
    using set_js_trim [of p] by (auto simp: js_trim_def is_space_def split: if_splits)
  then have "bookmark_of t = JObj [(''name'', JStr []), (''url'', JStr [])] \<or>
      (\<exists>n. bookmark_of t = JObj [(''name'', n), (''url'', JStr [])])"
    by (cases t) (auto simp: bookmark_of_def Let_def js_trim_def)
  then show ?thesis by (auto simp: bookmarks_of_def t row_get_def)
qed (simp add: bookmarks_of_def)

lemma type_bookmark:
  "obj_get cur ''bookmarks'' = JArr [] \<Longrightarrow> obj_get (type_char Bookmarks x cur) ''bookmarks'' = JArr []"
  by (simp add: type_char_def control_changes_def on_enter_def control_text_def bookmarks_text_def no_bookmark)

section \<open>File names\<close>

lemma safeFileName_safe:
  "list_all safe_name_char (safeFileName n) \<and> length (safeFileName n) \<le> 128 \<and> safeFileName n \<noteq> []"
proof -
  define m where "m = map (\<lambda>c. if safe_name_char c then c else CHR ''-'') n"
  define p where "p = drop (length m - 128) m"
  have f: "safeFileName n = (if p = [] then ''background'' else p)"
    by (simp only: safeFileName_def Let_def p_def m_def)
  have d: "safe_name_char (CHR ''-'')" by (simp add: safe_name_char_def)
  then have "list_all safe_name_char m" by (auto simp: m_def list_all_iff)
  then have "list_all safe_name_char p" using in_set_dropD unfolding p_def list_all_iff by metis
  moreover have "length p \<le> 128" by (simp add: p_def)
  moreover have "list_all safe_name_char ''background''" by code_simp
  ultimately show ?thesis by (cases "p = []") (simp_all add: f)
qed

lemma refilled_keeps:
  assumes "e_refill e \<noteq> Replacing" and "distinct (obj_keys cur)" and "f \<in> set (obj_keys cur)"
  shows "obj_get (refilled e cur) f = obj_get cur f"
  using assms by (cases "e_refill e") (simp_all add: refilled_def obj_spread_get)

lemma spread_frame: "f \<notin> set (obj_keys ch) \<Longrightarrow> obj_get (obj_spread a ch) f = obj_get a f"
  by (simp add: obj_spread_def obj.puts_frame obj_keys_def)

section \<open>Properties\<close>



text \<open>Adding a setting that is not configured writes its defaults and counts one in the tree; removing
  one counts none, and the document sent is the one without the setting: removing is not turning off.\<close>

theorem added_with_defaults_removed_without_trace:
  assumes "e \<in> set single_editors" and "distinct (obj_keys s)"
  shows "if truthy (obj_get s (e_key e))
         then countOf (edit_single e RemoveSetting s) (e_key e) = 0 \<and>
              json_text (JObj (edit_single e RemoveSetting s)) = json_text (JObj (filter (\<lambda>p. fst p \<noteq> e_key e) s))
         else countOf (edit_single e AddSetting s) (e_key e) = 1 \<and>
              obj_get (edit_single e AddSetting s) (e_key e) = JObj (e_defaults e)"
proof -
  have key: "e_key e \<in> set single_keys" using editor_keys_single assms(1) by (simp add: list_all_iff)
  show ?thesis
  proof (cases "truthy (obj_get s (e_key e))")
    case True
    then have "edit_single e RemoveSetting s = obj_put (e_key e) JUndef s" by (simp add: edit_single_def)
    with True show ?thesis
      by (simp only: if_True countOf_def key obj_get_put_same truthy.simps if_False json_text_put_undef [OF assms(2)])
  next
    case False
    then have "edit_single e AddSetting s = obj_put (e_key e) (JObj (e_defaults e)) s" by (simp add: edit_single_def)
    with False show ?thesis
      by (simp only: if_False countOf_def key obj_get_put_same truthy.simps if_True)
  qed
qed

theorem added_with_defaults_removed_without_trace_witness:
  "obj_get (edit_single FirmwareUpdatesEditor AddSetting []) ''firmware_updates'' = JObj (e_defaults FirmwareUpdatesEditor)"
proof -
  have e: "FirmwareUpdatesEditor \<in> set single_editors" by (simp add: single_editors_def)
  have k: "e_key FirmwareUpdatesEditor = ''firmware_updates''" by (simp add: FirmwareUpdatesEditor_def)
  have d: "distinct (obj_keys ([] :: jsobj))" by (simp add: obj_keys_def)
  from added_with_defaults_removed_without_trace [OF e d] show ?thesis by (simp add: k)
qed

text \<open>The settings configured once are exactly those the table files in the tree, each with one
  editor; each editor's defaults name a field once, and what the tree counts as set or unset is what
  these editors add and remove.\<close>

theorem every_special_setting_has_one_editor:
  "distinct (map e_key single_editors @ [''wallpaper'', ''fonts'', ''custom_packages'', ''admx'']) \<and>
   list_all (\<lambda>k. k \<in> set (map s_key SPECIAL)) (map e_key single_editors @ [''wallpaper'', ''fonts'', ''custom_packages'', ''admx'']) \<and>
   list_all (\<lambda>k. k \<in> set (map e_key single_editors @ [''wallpaper'', ''fonts'', ''custom_packages'', ''admx''])) (map s_key SPECIAL) \<and>
   list_all (\<lambda>k. k \<in> set (map e_key single_editors)) single_keys \<and>
   list_all (\<lambda>e. distinct (obj_keys (e_defaults e))) single_editors"
proof (intro conjI)
  show "distinct (map e_key single_editors @ [''wallpaper'', ''fonts'', ''custom_packages'', ''admx''])" by code_simp
  show "list_all (\<lambda>k. k \<in> set (map s_key SPECIAL)) (map e_key single_editors @ [''wallpaper'', ''fonts'', ''custom_packages'', ''admx''])"
    by code_simp
  show "list_all (\<lambda>k. k \<in> set (map e_key single_editors @ [''wallpaper'', ''fonts'', ''custom_packages'', ''admx''])) (map s_key SPECIAL)"
    by code_simp
  show "list_all (\<lambda>k. k \<in> set (map e_key single_editors)) single_keys" by code_simp
  show "list_all (\<lambda>e. distinct (obj_keys (e_defaults e))) single_editors" by code_simp
qed

text \<open>A list typed one character after the other at the end of its box never gets a second item:
  the box shows what is stored, and the separator just typed is not part of it. The managed bookmarks
  never get a first one, since a line without its address is not stored at all.\<close>

theorem typing_starts_no_second_item:
  "one_item (CHR 0x0A) (obj_get (fold (type_char (Lines k)) typed [(k, JArr [])]) k) \<and>
   one_item (CHR '','') (obj_get (fold (type_char (Commas k)) typed [(k, JArr [])]) k) \<and>
   obj_get (fold (type_char Bookmarks) typed [(''bookmarks'', JArr [])]) ''bookmarks'' = JArr []"
proof (intro conjI)
  have start: "one_item sep (obj_get [(k, JArr [])] k)" for sep by (simp add: one_item_def)
  have l: "one_item (CHR 0x0A) (obj_get cur k) \<Longrightarrow> one_item (CHR 0x0A) (obj_get (fold (type_char (Lines k)) typed cur) k)" for cur
    by (induction typed arbitrary: cur) (simp_all add: type_line)
  show "one_item (CHR 0x0A) (obj_get (fold (type_char (Lines k)) typed [(k, JArr [])]) k)"
    using start by (rule l)
  have c: "one_item (CHR '','') (obj_get cur k) \<Longrightarrow> one_item (CHR '','') (obj_get (fold (type_char (Commas k)) typed cur) k)" for cur
    by (induction typed arbitrary: cur) (simp_all add: type_comma)
  show "one_item (CHR '','') (obj_get (fold (type_char (Commas k)) typed [(k, JArr [])]) k)"
    using start by (rule c)
  have b: "obj_get cur ''bookmarks'' = JArr [] \<Longrightarrow> obj_get (fold (type_char Bookmarks) typed cur) ''bookmarks'' = JArr []" for cur
    by (induction typed arbitrary: cur) (simp_all add: type_bookmark)
  show "obj_get (fold (type_char Bookmarks) typed [(''bookmarks'', JArr [])]) ''bookmarks'' = JArr []"
    by (rule b) simp
qed

text \<open>A picture that finishes being read puts back every setting as it was when the file was chosen,
  with the picture in it: what was edited in between is lost.\<close>

theorem finished_picture_undoes_later_edits:
  "page_settings (fold page_step
      (ChoseFile e c # map (\<lambda>(e', v). Edited e' v) edits @ [FinishedFile (length (page_reading s)) picture file]) s)
   = edit_single e (Change c (FileRead picture file)) (page_settings s)"
proof -
  have r: "page_reading (fold page_step (map (\<lambda>(e', v). Edited e' v) edits) t) = page_reading t" for t
    by (induction edits arbitrary: t) (auto simp: page_step_def)
  show ?thesis
    by (simp add: fold_append page_step_def [of "FinishedFile _ _ _"] r) (simp add: page_step_def)
qed

text \<open>Fonts are kept one to a name, under names a machine can use: adding a font file of at most 5 MB
  stores its content under its cleaned name, in place of an older one of that name, and leaves the others;
  anything else is refused and changes nothing.\<close>

lemma fonts_one_to_a_name:
  assumes "distinct (map font_name (settings_list s ''fonts''))"
  shows "let s' = add_font file bytes content s; new = JObj [(''name'', JStr (safeFileName file)), (''content'', JStr content)]
         in distinct (map font_name (settings_list s' ''fonts'')) \<and>
            (if font_file file \<and> bytes \<le> 5000000
             then (\<forall>f. f \<in> set (settings_list s' ''fonts'') \<longleftrightarrow>
                     f = new \<or> f \<in> set (settings_list s ''fonts'') \<and> font_name f \<noteq> JStr (safeFileName file))
             else s' = s) \<and>
            list_all safe_name_char (safeFileName file) \<and> length (safeFileName file) \<le> 128"
proof (cases "font_file file \<and> bytes \<le> 5000000")
  case True
  have "distinct (map font_name (filter P (settings_list s ''fonts'')))" for P
    using assms by (rule distinct_map_filter)
  with True safeFileName_safe [of "file"] show ?thesis
    by (auto simp: add_font_def Let_def font_name_def row_get_def)
next
  case False
  then have "add_font file bytes content s = s" by (auto simp: add_font_def)
  with False assms safeFileName_safe [of "file"] show ?thesis by (auto simp: Let_def)
qed

end
