(* ===== verification/Directory.thy ===== *)
theory Directory
  imports Endpoints
begin

text \<open>
  Names and the tree of the directory: \<^verbatim>\<open>components/directoryTree.ts\<close>, \<^verbatim>\<open>components/Breadcrumb.tsx\<close>,
  the tree, moves, renames and bulk changes of \<^verbatim>\<open>pages/Directory.tsx\<close> and
  \<^verbatim>\<open>components/DirectoryDialogs.tsx\<close>, and how \<^verbatim>\<open>components/Picker.tsx\<close> and
  \<^verbatim>\<open>components/ChoiceList.tsx\<close> write a chosen object.

  A node is its name, its type and its other attributes; the tree a page draws is the list of
  the rows it draws, every folder open. Distinguished names are RFC 4514 text, in which a comma
  inside a value is written with a backslash: \<open>rdn_text\<close> writes one, to state what the readers
  make of it.
\<close>

section \<open>Directory objects\<close>

record dirobj =
  distinguishedName :: string
  objectType :: string
  attributes :: jsobj

definition attr :: "dirobj \<Rightarrow> string \<Rightarrow> jsval" where
  "attr n k = obj_get (attributes n) k"

definition SYSTEM_CONTAINERS :: "string list" where
  "SYSTEM_CONTAINERS =
     [''keys'', ''foreignsecurityprincipals'', ''managed service accounts'', ''program data'',
      ''system'', ''ntds quotas'', ''infrastructure'', ''lostandfound'', ''tpm devices'',
      ''deleted objects'']"

definition parentOf :: "string \<Rightarrow> string" where
  "parentOf dn = (case index_of (CHR '','') dn of None \<Rightarrow> [] | Some comma \<Rightarrow> drop (comma + 1) dn)"

definition label :: "dirobj \<Rightarrow> string" where
  "label n =
     to_string (or_else (attr n ''ou'') (or_else (attr n ''cn'')
       (or_else (attr n ''name'') (JStr (distinguishedName n)))))"

definition isSystemContainer :: "dirobj \<Rightarrow> bool" where
  "isSystemContainer n \<longleftrightarrow> to_lower (label n) \<in> set SYSTEM_CONTAINERS"

section \<open>The path of an object\<close>

record dn_part =
  attribute :: string
  part_value :: string
  part_dn :: string

text \<open>The loop of \<^verbatim>\<open>splitDn\<close>: \<open>current\<close> and what is left to read.\<close>

fun dn_parts :: "string \<Rightarrow> string \<Rightarrow> string list" where
  "dn_parts current [] = (if current = [] then [] else [current])"
| "dn_parts current (c # s) =
     (if c = CHR 0x5C then
        (case s of d # t \<Rightarrow> dn_parts (current @ [c, d]) t | [] \<Rightarrow> dn_parts (current @ [c]) s)
      else if c = CHR '','' then current # dn_parts [] s
      else dn_parts (current @ [c]) s)"

text \<open>\<open>replace(/\\(.)/g, "$1")\<close>; the dot does not match a line break.\<close>

definition line_break :: "char \<Rightarrow> bool" where
  "line_break c \<longleftrightarrow> of_char c \<in> {10, 13 :: nat}"

fun rdn_unescape :: "string \<Rightarrow> string" where
  "rdn_unescape [] = []"
| "rdn_unescape (c # s) =
     (if c = CHR 0x5C then
        (case s of
           d # t \<Rightarrow> if line_break d then c # rdn_unescape s else d # rdn_unescape t
         | [] \<Rightarrow> [c])
      else c # rdn_unescape s)"

definition dn_part_of :: "string list \<Rightarrow> nat \<Rightarrow> dn_part" where
  "dn_part_of parts i =
     (let pieces = split_on (CHR ''='') (parts ! i)
      in \<lparr>attribute = to_upper (js_trim (hd pieces)),
          part_value = js_trim (rdn_unescape (join_with ''='' (tl pieces))),
          part_dn = join_with '','' (drop i parts)\<rparr>)"

definition splitDn :: "string \<Rightarrow> dn_part list" where
  "splitDn dn = (let parts = dn_parts [] dn in map (dn_part_of parts) [0..<length parts])"

text \<open>What the breadcrumb shows: the domain's link and name, the containers from the top with
  their links, and the object itself.\<close>

record crumbs =
  crumb_domain :: "string \<times> string"
  crumb_containers :: "(string \<times> string) list"
  crumb_leaf :: "string option"

definition breadcrumb :: "string \<Rightarrow> crumbs" where
  "breadcrumb dn =
     (let parts = splitDn dn;
          domain = filter (\<lambda>p. attribute p = ''DC'') parts;
          containers = rev (filter (\<lambda>p. attribute p \<noteq> ''DC'') parts);
          domainDn = join_with '','' (map (\<lambda>p. attribute p @ ''='' @ part_value p) domain);
          link = (\<lambda>d. ''/directory?container='' @ encodeURIComponent d)
      in \<lparr>crumb_domain = (link domainDn, case domain of p # _ \<Rightarrow> to_upper (part_value p) | [] \<Rightarrow> ''domain''),
          crumb_containers = map (\<lambda>p. (link (part_dn p), part_value p)) (butlast containers),
          crumb_leaf = (if containers = [] then None else Some (part_value (last containers)))\<rparr>)"

section \<open>The tree\<close>

definition BUILTIN_OUS :: "string list" where
  "BUILTIN_OUS = [''domain controllers'']"

definition isBuiltin :: "dirobj \<Rightarrow> string \<Rightarrow> bool" where
  "isBuiltin n baseDn =
     (if objectType n = ''container'' \<or> objectType n = ''domain'' then True
      else if objectType n \<noteq> ''ou'' then False
      else to_lower (parentOf (distinguishedName n)) = to_lower baseDn \<and>
           to_lower (label n) \<in> set BUILTIN_OUS)"

definition visible :: "bool \<Rightarrow> dirobj list \<Rightarrow> dirobj list" where
  "visible showPlumbing nodes = (if showPlumbing then nodes else filter (\<lambda>n. \<not> isSystemContainer n) nodes)"

definition children :: "dirobj list \<Rightarrow> string \<Rightarrow> dirobj list" where
  "children nodes dn = filter (\<lambda>n. to_lower (parentOf (distinguishedName n)) = to_lower dn) nodes"

text \<open>The names of the rows \<^verbatim>\<open>TreeNode\<close> draws from \<open>dn\<close> down, to a depth.\<close>

fun tree_rows :: "nat \<Rightarrow> dirobj list \<Rightarrow> string \<Rightarrow> string list" where
  "tree_rows 0 nodes dn = []"
| "tree_rows (Suc depth) nodes dn =
     (if find (\<lambda>n. distinguishedName n = dn) nodes = None then []
      else dn # concat (map (\<lambda>n. tree_rows depth nodes (distinguishedName n)) (children nodes dn)))"

text \<open>Where a reload of the tree leaves the operator.\<close>

definition kept_container :: "string \<Rightarrow> dirobj list \<Rightarrow> string \<Rightarrow> string" where
  "kept_container base_dn nodes current =
     (if current \<noteq> [] \<and>
         (to_lower current = to_lower base_dn \<or>
          (\<exists>n \<in> set nodes. to_lower (distinguishedName n) = to_lower current))
      then current else base_dn)"

text \<open>The listing the page asks for.\<close>

definition list_params :: "string \<Rightarrow> string \<Rightarrow> string \<Rightarrow> string \<Rightarrow> jsobj" where
  "list_params container baseDn typeFilter search =
     [(''container'', JStr (if search \<noteq> [] then baseDn else container)),
      (''object_type'', if typeFilter \<noteq> [] then JStr typeFilter else JUndef),
      (''query'', if search \<noteq> [] then JStr search else JUndef),
      (''scope'', JStr (if search \<noteq> [] then ''subtree'' else ''level''))]"

section \<open>Moves, renames and bulk changes\<close>

definition moveTo :: "string \<Rightarrow> string \<Rightarrow> api_call option" where
  "moveTo sourceDn targetDn =
     (if to_lower sourceDn = to_lower targetDn \<or> to_lower (parentOf sourceDn) = to_lower targetDn
      then None else Some (Call_directory (Dir_move sourceDn targetDn None)))"

definition currentName :: "dirobj \<Rightarrow> string" where
  "currentName n = to_string (or_else (attr n ''ou'') (or_else (attr n ''cn'')
     (or_else (attr n ''name'') (JStr []))))"

definition rename_call :: "dirobj \<Rightarrow> string \<Rightarrow> api_call" where
  "rename_call n name =
     Call_directory (Dir_move (distinguishedName n) (parentOf (distinguishedName n)) (Some (js_trim name)))"

record bulk_form =
  bulk_field :: string
  bulk_value :: string
  bulk_add :: string
  bulk_remove :: string
  bulk_move :: string
  bulk_enabled :: string
  bulk_busy :: bool

definition bulk_nothing :: "bulk_form \<Rightarrow> bool" where
  "bulk_nothing f \<longleftrightarrow>
     bulk_value f = [] \<and> bulk_add f = [] \<and> bulk_remove f = [] \<and> bulk_move f = [] \<and> bulk_enabled f = []"

definition bulk_submit :: "string list \<Rightarrow> bulk_form \<Rightarrow> api_call option" where
  "bulk_submit dns' f =
     (if bulk_nothing f \<or> bulk_busy f then None
      else Some (Call_directory (Dir_bulk (JObj
        [(''dns'', strs dns'),
         (''changes'', JObj (if bulk_value f \<noteq> [] then [(bulk_field f, JStr (bulk_value f))] else [])),
         (''add_groups'', strs (if bulk_add f \<noteq> [] then [bulk_add f] else [])),
         (''remove_groups'', strs (if bulk_remove f \<noteq> [] then [bulk_remove f] else [])),
         (''move_to'', if bulk_move f \<noteq> [] then JStr (bulk_move f) else JNull),
         (''enabled'', if bulk_enabled f = [] then JNull else JBool (bulk_enabled f = ''yes''))]))))"

section \<open>How a chosen object is written\<close>

datatype (plugins only: code size) picker_value = AsName | AsDn | AsPrincipal | AsHost

definition picker_render :: "dirobj \<Rightarrow> picker_value \<Rightarrow> string" where
  "picker_render n form =
     (if form = AsDn then distinguishedName n
      else if form = AsHost then to_string (or_else (attr n ''dNSHostName'') (JStr (label n)))
      else (let account = to_string (or_else (attr n ''sAMAccountName'') (JStr (label n)))
            in if form = AsPrincipal \<and> objectType n = ''group'' then CHR ''%'' # account else account))"

definition choice_add :: "dirobj \<Rightarrow> string list \<Rightarrow> string list" where
  "choice_add n values = (if distinguishedName n \<in> set values then values else values @ [distinguishedName n])"

definition choice_remove :: "string \<Rightarrow> string list \<Rightarrow> string list" where
  "choice_remove v values = filter (\<lambda>e. e \<noteq> v) values"

definition choice_name :: "string \<Rightarrow> string" where
  "choice_name dn =
     (let first = hd (split_on (CHR '','') dn)
      in case index_of (CHR ''='') first of None \<Rightarrow> first | Some i \<Rightarrow> drop (i + 1) first)"

section \<open>Names as the directory writes them\<close>

definition rdn_special :: "char \<Rightarrow> bool" where
  "rdn_special c \<longleftrightarrow> c \<in> set ([CHR 0x22, CHR 0x23, CHR 0x5C] @ '',+<>;='')"

definition rdn_escape :: "string \<Rightarrow> string" where
  "rdn_escape v = concat (map (\<lambda>c. if rdn_special c then [CHR 0x5C, c] else [c]) v)"

definition rdn_text :: "string \<times> string \<Rightarrow> string" where
  "rdn_text r = fst r @ ''='' @ rdn_escape (snd r)"

definition dn_text :: "(string \<times> string) list \<Rightarrow> string" where
  "dn_text rs = join_with '','' (map rdn_text rs)"

definition attribute_ok :: "string \<Rightarrow> bool" where
  "attribute_ok a \<longleftrightarrow> a \<noteq> [] \<and> list_all is_alnum a"

section \<open>Reading them back\<close>

lemma backslash_special: "rdn_special (CHR 0x5C)" "rdn_special (CHR '','')" "rdn_special (CHR ''='')"
  by (simp_all add: rdn_special_def)

lemma special_not_break: "rdn_special c \<Longrightarrow> \<not> line_break c"
proof -
  have "list_all (\<lambda>c. \<not> line_break c) ([CHR 0x22, CHR 0x23, CHR 0x5C] @ '',+<>;='')"
    by (simp add: line_break_def)
  then show "rdn_special c \<Longrightarrow> \<not> line_break c"
    unfolding rdn_special_def list_all_iff by blast
qed

lemma rdn_escape_Cons [simp]:
  "rdn_escape (c # v) = (if rdn_special c then CHR 0x5C # c # rdn_escape v else c # rdn_escape v)"
  by (simp add: rdn_escape_def)

lemma rdn_escape_Nil [simp]: "rdn_escape [] = []"
  by (simp add: rdn_escape_def)

lemma rdn_unescape_escape [simp]: "rdn_unescape (rdn_escape v) = v"
  by (induction v) (use special_not_break backslash_special in auto)

lemma dn_parts_escape:
  "dn_parts current (rdn_escape v @ s) = dn_parts (current @ rdn_escape v) s"
proof (induction v arbitrary: current)
  case Nil
  show ?case by simp
next
  case (Cons c v)
  then show ?case
    using backslash_special by (cases "rdn_special c") auto
qed

lemma dn_parts_plain:
  "list_all (\<lambda>c. c \<noteq> CHR 0x5C \<and> c \<noteq> CHR '','') a \<Longrightarrow> dn_parts current (a @ s) = dn_parts (current @ a) s"
  by (induction a arbitrary: current) auto

lemma alnum_not: "is_alnum c \<Longrightarrow> c \<noteq> CHR 0x5C \<and> c \<noteq> CHR '','' \<and> c \<noteq> CHR ''=''"
proof -
  have "list_all (\<lambda>c. \<not> is_alnum c) [CHR 0x5C, CHR '','', CHR ''='']"
    by (simp add: is_alnum_def is_upper_def is_lower_def is_digit_def less_eq_char_def)
  then show "is_alnum c \<Longrightarrow> c \<noteq> CHR 0x5C \<and> c \<noteq> CHR '','' \<and> c \<noteq> CHR ''=''" by auto
qed

lemma dn_parts_rdn:
  assumes "attribute_ok a"
  shows "dn_parts current (rdn_text (a, v) @ s) = dn_parts (current @ rdn_text (a, v)) s"
proof -
  have "list_all (\<lambda>c. c \<noteq> CHR 0x5C \<and> c \<noteq> CHR '','') (a @ ''='')"
    using assms alnum_not by (auto simp: attribute_ok_def list_all_iff)
  then have "dn_parts current ((a @ ''='') @ rdn_escape v @ s) = dn_parts (current @ a @ ''='') (rdn_escape v @ s)"
    by (subst dn_parts_plain) auto
  then show ?thesis by (simp add: rdn_text_def dn_parts_escape)
qed

lemma rdn_text_ne [simp]: "rdn_text r \<noteq> []"
  by (simp add: rdn_text_def)

lemma dn_parts_text:
  "list_all (\<lambda>r. attribute_ok (fst r)) rs \<Longrightarrow> dn_parts [] (dn_text rs) = map rdn_text rs"
proof (induction rs)
  case Nil
  show ?case by (simp add: dn_text_def)
next
  case (Cons r rs)
  obtain a v where r: "r = (a, v)" by (cases r)
  with Cons.prems have ok: "attribute_ok a" by simp
  show ?case
  proof (cases rs)
    case Nil
    have "dn_parts [] (rdn_text r @ []) = [rdn_text r]"
      using dn_parts_rdn [OF ok, of "[]" v "[]"] r by simp
    with Nil show ?thesis by (simp add: dn_text_def)
  next
    case (Cons q qs)
    then have "dn_text (r # rs) = rdn_text r @ CHR '','' # dn_text rs"
      by (simp add: dn_text_def)
    then have "dn_parts [] (dn_text (r # rs)) = dn_parts (rdn_text r) (CHR '','' # dn_text rs)"
      using dn_parts_rdn [OF ok, of "[]" v] r by simp
    with Cons.IH Cons.prems show ?thesis by simp
  qed
qed

lemma split_escape_join:
  "join_with [x] (split_on x s) = s" by (rule join_split)

lemma rdn_pieces:
  assumes "attribute_ok a"
  shows "hd (split_on (CHR ''='') (rdn_text (a, v))) = a \<and>
         join_with ''='' (tl (split_on (CHR ''='') (rdn_text (a, v)))) = rdn_escape v"
proof -
  have "CHR ''='' \<notin> set a"
    using assms alnum_not by (auto simp: attribute_ok_def list_all_iff)
  then have "split_on (CHR ''='') (rdn_text (a, v)) = a # split_on (CHR ''='') (rdn_escape v)"
    by (simp add: rdn_text_def split_append_sep)
  then show ?thesis by (simp add: join_split)
qed

lemma attribute_trim: "attribute_ok a \<Longrightarrow> js_trim a = a"
proof (rule js_trim_no_space)
  fix c assume "attribute_ok a" "c \<in> set a"
  then have "is_alnum c" by (simp add: attribute_ok_def list_all_iff)
  then show "\<not> is_space c"
    by (auto simp: is_alnum_def is_upper_def is_lower_def is_digit_def is_space_def less_eq_char_def)
qed


lemma dn_part_of_text:
  assumes "list_all (\<lambda>r. attribute_ok (fst r)) rs" and "i < length rs"
  shows "dn_part_of (map rdn_text rs) i =
           \<lparr>attribute = to_upper (fst (rs ! i)), part_value = js_trim (snd (rs ! i)), part_dn = dn_text (drop i rs)\<rparr>"
proof -
  obtain a v where r: "rs ! i = (a, v)" by (cases "rs ! i")
  have "attribute_ok (fst (rs ! i))"
    using assms nth_mem by (auto simp: list_all_iff)
  then have ok: "attribute_ok a" using r by simp
  show ?thesis
    using rdn_pieces [OF ok, of v] attribute_trim [OF ok] assms(2) r
    by (simp add: dn_part_of_def Let_def dn_text_def drop_map)
qed

lemma splitDn_text:
  assumes "list_all (\<lambda>r. attribute_ok (fst r)) rs"
  shows "splitDn (dn_text rs) =
           map (\<lambda>i. \<lparr>attribute = to_upper (fst (rs ! i)), part_value = js_trim (snd (rs ! i)),
                     part_dn = dn_text (drop i rs)\<rparr>) [0..<length rs]"
  using dn_part_of_text [OF assms] by (simp add: splitDn_def Let_def dn_parts_text [OF assms])

text \<open>\<^verbatim>\<open>parentOf\<close> looks for the first comma, escaped or not.\<close>

lemma parentOf_rdn:
  assumes "attribute_ok a" and "CHR '','' \<notin> set v"
  shows "parentOf (rdn_text (a, v) @ CHR '','' # rest) = rest"
proof -
  have "CHR '','' \<notin> set (rdn_escape v)"
    using assms(2) by (induction v) auto
  moreover have "CHR '','' \<notin> set a"
    using assms(1) alnum_not by (auto simp: attribute_ok_def list_all_iff)
  ultimately have "CHR '','' \<notin> set (rdn_text (a, v))" by (simp add: rdn_text_def)
  then show ?thesis by (simp add: parentOf_def index_of_append)
qed

lemma index_of_prefix: "x \<in> set p \<Longrightarrow> \<exists>n. index_of x (p @ s) = Some n \<and> n < length p"
  by (induction p) auto

lemma parentOf_escaped:
  assumes "CHR '','' \<in> set v"
  shows "length rest < length (parentOf (rdn_text (a, v) @ CHR '','' # rest))"
proof -
  have "CHR '','' \<in> set (rdn_escape v)"
    using assms by (induction v) auto
  then have "CHR '','' \<in> set (rdn_text (a, v))" by (simp add: rdn_text_def)
  from index_of_prefix [OF this, of "CHR '','' # rest"] show ?thesis
    by (auto simp: parentOf_def)
qed

lemma length_to_lower [simp]: "length (to_lower s) = length s"
  by (simp add: to_lower_def)

lemma parentOf_shorter: "dn \<noteq> [] \<Longrightarrow> length (parentOf dn) < length dn"
  by (auto simp: parentOf_def split: option.split dest: index_of_Some)

section \<open>What the tree draws\<close>

lemma tree_rows_known: "d \<in> set (tree_rows k nodes dn) \<Longrightarrow> \<exists>n \<in> set nodes. distinguishedName n = d"
proof (induction k arbitrary: dn)
  case 0
  then show ?case by simp
next
  case (Suc k)
  show ?case
  proof (cases "find (\<lambda>n. distinguishedName n = dn) nodes")
    case None
    with Suc.prems show ?thesis by simp
  next
    case (Some m)
    then have "m \<in> set nodes \<and> distinguishedName m = dn"
      by (auto simp: find_Some_iff)
    with Suc Some show ?thesis by auto
  qed
qed

text \<open>A row other than the root has its parent, as \<^verbatim>\<open>parentOf\<close> reads it, drawn above it.\<close>

lemma tree_rows_parent:
  "d \<in> set (tree_rows k nodes dn) \<Longrightarrow>
   d = dn \<or> (\<exists>p \<in> set (tree_rows k nodes dn). to_lower (parentOf d) = to_lower p)"
proof (induction k arbitrary: dn)
  case 0
  then show ?case by simp
next
  case (Suc k)
  show ?case
  proof (cases "d = dn")
    case False
    from Suc.prems False obtain n where
      f: "find (\<lambda>n. distinguishedName n = dn) nodes \<noteq> None" and
      n: "n \<in> set (children nodes dn)" "d \<in> set (tree_rows k nodes (distinguishedName n))"
      by (auto split: if_splits)
    have sub: "set (tree_rows k nodes (distinguishedName n)) \<subseteq> set (tree_rows (Suc k) nodes dn)"
      using f n(1) by auto
    from Suc.IH [OF n(2)] show ?thesis
    proof
      assume "d = distinguishedName n"
      with n(1) f show ?thesis by (auto simp: children_def)
    next
      assume "\<exists>p \<in> set (tree_rows k nodes (distinguishedName n)). to_lower (parentOf d) = to_lower p"
      with sub show ?thesis by blast
    qed
  qed simp
qed

text \<open>A chain of nodes from the root down, each the next one's parent.\<close>

fun chain :: "dirobj list \<Rightarrow> string \<Rightarrow> dirobj list \<Rightarrow> bool" where
  "chain nodes dn [] = True"
| "chain nodes dn (n # ns) =
     (n \<in> set nodes \<and> to_lower (parentOf (distinguishedName n)) = to_lower dn \<and>
      chain nodes (distinguishedName n) ns)"

lemma find_own: "n \<in> set nodes \<Longrightarrow> find (\<lambda>m. distinguishedName m = distinguishedName n) nodes \<noteq> None"
  by (auto simp: find_None_iff)

lemma chain_drawn:
  assumes "find (\<lambda>m. distinguishedName m = dn) nodes \<noteq> None" and "chain nodes dn ns" and "length ns < k"
  shows "\<forall>n \<in> set ns. distinguishedName n \<in> set (tree_rows k nodes dn)"
  using assms
proof (induction ns arbitrary: dn k)
  case Nil
  then show ?case by simp
next
  case (Cons n ns)
  then obtain j where k: "k = Suc j" by (cases k) auto
  have n: "n \<in> set (children nodes dn)" using Cons.prems(2) by (simp add: children_def)
  have own: "find (\<lambda>m. distinguishedName m = distinguishedName n) nodes \<noteq> None"
    using Cons.prems(2) by (intro find_own) simp
  have "\<forall>m \<in> set ns. distinguishedName m \<in> set (tree_rows j nodes (distinguishedName n))"
    by (rule Cons.IH) (use Cons.prems own k in auto)
  moreover have "distinguishedName n \<in> set (tree_rows j nodes (distinguishedName n))"
    using own Cons.prems(3) k by (cases j) auto
  ultimately show ?case using n Cons.prems(1) k by auto
qed

section \<open>Properties\<close>

text \<open>C12: The path shown for an object is the name read back: for any name written with its
  special characters escaped, \<open>splitDn\<close> gives one part per component, in order, with the component's
  attribute in capitals, its value with the escapes taken out (and blanks at its ends dropped), and the
  exact name of the container it stands for.\<close>

theorem splitDn_reads_the_name:
  assumes "\<And>a v. (a, v) \<in> set rs \<Longrightarrow> attribute_ok a"
  shows "length (splitDn (dn_text rs)) = length rs \<and>
         (\<forall>i < length rs. splitDn (dn_text rs) ! i =
            \<lparr>attribute = to_upper (fst (rs ! i)), part_value = js_trim (snd (rs ! i)),
             part_dn = dn_text (drop i rs)\<rparr>)"
proof -
  have "list_all (\<lambda>r. attribute_ok (fst r)) rs" using assms by (auto simp: list_all_iff)
  then show ?thesis by (simp add: splitDn_text)
qed

theorem splitDn_reads_the_name_witness:
  "splitDn (dn_text [(''CN'', ''Smith, J''), (''OU'', ''R=D'')]) ! 0 =
     \<lparr>attribute = ''CN'', part_value = ''Smith, J'', part_dn = dn_text [(''CN'', ''Smith, J''), (''OU'', ''R=D'')]\<rparr>"
proof -
  let ?rs = "[(''CN'', ''Smith, J''), (''OU'', ''R=D'')]"
  have ok: "\<And>a v. (a, v) \<in> set ?rs \<Longrightarrow> attribute_ok a"
    by (auto simp: attribute_ok_def is_alnum_def is_upper_def less_eq_char_def)
  have e: "to_upper ''CN'' = ''CN''" "js_trim ''Smith, J'' = ''Smith, J''" by code_simp+
  from splitDn_reads_the_name [OF ok] have "splitDn (dn_text ?rs) ! 0 =
     \<lparr>attribute = to_upper ''CN'', part_value = js_trim ''Smith, J'', part_dn = dn_text ?rs\<rparr>"
    by fastforce
  with e show ?thesis by simp
qed

text \<open>The tree and the dialogs find an object's container by its name's first comma. For a name
  whose first component has no comma that is the container; for one that has, it is not: the tree never
  draws the object under its container, and a rename of it is asked for in a container that is not its
  own.\<close>

theorem parent_of_a_name_with_a_comma:
  assumes "attribute_ok a" and "distinguishedName n = rdn_text (a, v) @ CHR '','' # rest"
  shows "(CHR '','' \<notin> set v \<longrightarrow> parentOf (distinguishedName n) = rest) \<and>
         (CHR '','' \<in> set v \<longrightarrow>
            n \<notin> set (children nodes rest) \<and>
            (\<forall>name. rename_call n name \<noteq>
               Call_directory (Dir_move (distinguishedName n) rest (Some (js_trim name)))))"
proof (intro conjI impI)
  assume "CHR '','' \<notin> set v"
  then show "parentOf (distinguishedName n) = rest" using assms parentOf_rdn by simp
next
  assume c: "CHR '','' \<in> set v"
  have l: "length (parentOf (distinguishedName n)) \<noteq> length rest"
    using parentOf_escaped [OF c, of rest a] assms(2) by simp
  then have "to_lower (parentOf (distinguishedName n)) \<noteq> to_lower rest"
    using length_to_lower by metis
  then show "n \<notin> set (children nodes rest)" by (simp add: children_def)
  show "\<forall>name. rename_call n name \<noteq>
      Call_directory (Dir_move (distinguishedName n) rest (Some (js_trim name)))"
    using l by (auto simp: rename_call_def)
qed

theorem parent_of_a_name_with_a_comma_witness:
  "let ou = \<lparr>distinguishedName = rdn_text (''OU'', ''Sales, EU'') @ '',DC=x'', objectType = ''ou'', attributes = []\<rparr>
   in ou \<notin> set (children [ou] ''DC=x'')"
proof -
  let ?ou = "\<lparr>distinguishedName = rdn_text (''OU'', ''Sales, EU'') @ '',DC=x'', objectType = ''ou'', attributes = []\<rparr>"
  have "attribute_ok ''OU''" by (simp add: attribute_ok_def is_alnum_def is_upper_def less_eq_char_def)
  then show ?thesis
    using parent_of_a_name_with_a_comma [of "''OU''" ?ou "''Sales, EU''" "''DC=x''" "[?ou]"]
    by simp
qed

text \<open>The tree draws only nodes it was given, and hiding a container hides all it holds: with the
  system containers out of the way, no row other than the domain's own is a system container or has
  one for a parent.\<close>

theorem tree_draws_what_is_visible:
  assumes "d \<in> set (tree_rows k (visible False nodes) baseDn)"
    and "\<And>n m. n \<in> set nodes \<Longrightarrow> m \<in> set nodes \<Longrightarrow>
           to_lower (distinguishedName n) = to_lower (distinguishedName m) \<Longrightarrow> n = m"
    and "h \<in> set nodes" and "isSystemContainer h"
  shows "d \<noteq> distinguishedName h \<and>
         (d \<noteq> baseDn \<longrightarrow> to_lower (parentOf d) \<noteq> to_lower (distinguishedName h)) \<and>
         (\<exists>n \<in> set nodes. distinguishedName n = d \<and> \<not> isSystemContainer n)"
proof -
  have shown: "\<exists>n \<in> set nodes. distinguishedName n = e \<and> \<not> isSystemContainer n"
    if "e \<in> set (tree_rows k (visible False nodes) baseDn)" for e
    using tree_rows_known [OF that] by (auto simp: visible_def)
  have differ: "to_lower e \<noteq> to_lower (distinguishedName h)"
    if "e \<in> set (tree_rows k (visible False nodes) baseDn)" for e
    using shown [OF that] assms(2-4) by metis
  have "to_lower (parentOf d) \<noteq> to_lower (distinguishedName h)" if "d \<noteq> baseDn"
    using tree_rows_parent [OF assms(1)] that differ by metis
  with differ [OF assms(1)] shown [OF assms(1)] show ?thesis by metis
qed

theorem tree_draws_what_is_visible_witness:
  "let dc = \<lparr>distinguishedName = ''DC=x'', objectType = ''domain'', attributes = []\<rparr>;
       sys = \<lparr>distinguishedName = ''CN=System,DC=x'', objectType = ''container'', attributes = [(''cn'', JStr ''System'')]\<rparr>
   in ''DC=x'' \<in> set (tree_rows 3 (visible False [dc, sys]) ''DC=x'') \<and> ''DC=x'' \<noteq> distinguishedName sys"
proof -
  let ?dc = "\<lparr>distinguishedName = ''DC=x'', objectType = ''domain'', attributes = []\<rparr>"
  let ?sys = "\<lparr>distinguishedName = ''CN=System,DC=x'', objectType = ''container'', attributes = [(''cn'', JStr ''System'')]\<rparr>"
  have d: "''DC=x'' \<in> set (tree_rows 3 (visible False [?dc, ?sys]) ''DC=x'')" by code_simp
  have h: "isSystemContainer ?sys" by code_simp
  have ne: "to_lower ''DC=x'' \<noteq> to_lower ''CN=System,DC=x''" by code_simp
  have "''DC=x'' \<noteq> distinguishedName ?sys \<and> (''DC=x'' \<noteq> ''DC=x'' \<longrightarrow> to_lower (parentOf ''DC=x'') \<noteq> to_lower (distinguishedName ?sys)) \<and>
      (\<exists>n \<in> set [?dc, ?sys]. distinguishedName n = ''DC=x'' \<and> \<not> isSystemContainer n)"
    by (rule tree_draws_what_is_visible [OF d _ _ h]) (use ne in auto)
  with d show ?thesis by simp
qed

text \<open>Every node that the tree's own reading connects to the domain head is drawn.\<close>

theorem tree_draws_every_connected_node:
  assumes "\<exists>n \<in> set nodes. distinguishedName n = baseDn" and "chain nodes baseDn ns" and "n \<in> set ns"
    and "length ns < depth"
  shows "distinguishedName n \<in> set (tree_rows depth nodes baseDn)"
proof -
  have "find (\<lambda>m. distinguishedName m = baseDn) nodes \<noteq> None"
    using assms(1) by (auto simp: find_None_iff)
  from chain_drawn [OF this assms(2,4)] assms(3) show ?thesis by blast
qed

theorem tree_draws_every_connected_node_witness:
  "let dc = \<lparr>distinguishedName = ''DC=x'', objectType = ''domain'', attributes = []\<rparr>;
       ou = \<lparr>distinguishedName = ''OU=a,DC=x'', objectType = ''ou'', attributes = []\<rparr>
   in ''OU=a,DC=x'' \<in> set (tree_rows 2 [ou, dc] ''DC=x'')"
proof -
  let ?dc = "\<lparr>distinguishedName = ''DC=x'', objectType = ''domain'', attributes = []\<rparr>"
  let ?ou = "\<lparr>distinguishedName = ''OU=a,DC=x'', objectType = ''ou'', attributes = []\<rparr>"
  have c: "chain [?ou, ?dc] ''DC=x'' [?ou]" by code_simp
  have "distinguishedName ?ou \<in> set (tree_rows 2 [?ou, ?dc] ''DC=x'')"
    by (rule tree_draws_every_connected_node [OF _ c]) auto
  then show ?thesis by simp
qed

text \<open>A bulk change is sent only when something was chosen, and it says exactly that: a value left
  empty changes no attribute, no group, no place and no account state.\<close>

theorem bulk_change_leaves_the_rest_alone:
  assumes "bulk_submit objs f = Some c"
  shows "\<exists>ps. c = Call_directory (Dir_bulk (JObj ps)) \<and> obj_get ps ''dns'' = strs objs \<and>
           (bulk_value f = [] \<longrightarrow> obj_get ps ''changes'' = JObj []) \<and>
           (bulk_add f = [] \<longrightarrow> obj_get ps ''add_groups'' = strs []) \<and>
           (bulk_remove f = [] \<longrightarrow> obj_get ps ''remove_groups'' = strs []) \<and>
           (bulk_move f = [] \<longrightarrow> obj_get ps ''move_to'' = JNull) \<and>
           (bulk_enabled f = [] \<longrightarrow> obj_get ps ''enabled'' = JNull) \<and>
           \<not> (bulk_value f = [] \<and> bulk_add f = [] \<and> bulk_remove f = [] \<and> bulk_move f = [] \<and> bulk_enabled f = [])"
proof -
  have n: "\<not> (bulk_nothing f \<or> bulk_busy f)" using assms unfolding bulk_submit_def by (metis option.distinct(1))
  from assms have c: "c = Call_directory (Dir_bulk (JObj
        [(''dns'', strs objs),
         (''changes'', JObj (if bulk_value f \<noteq> [] then [(bulk_field f, JStr (bulk_value f))] else [])),
         (''add_groups'', strs (if bulk_add f \<noteq> [] then [bulk_add f] else [])),
         (''remove_groups'', strs (if bulk_remove f \<noteq> [] then [bulk_remove f] else [])),
         (''move_to'', if bulk_move f \<noteq> [] then JStr (bulk_move f) else JNull),
         (''enabled'', if bulk_enabled f = [] then JNull else JBool (bulk_enabled f = ''yes''))]))"
    unfolding bulk_submit_def if_not_P [OF n] option.inject by (rule sym)
  show ?thesis unfolding c using n by (intro exI conjI) (simp_all only: bulk_nothing_def obj_get.simps char.inject list.inject list.distinct if_False if_True simp_thms de_Morgan_conj refl, auto)
qed

theorem bulk_change_leaves_the_rest_alone_witness:
  "\<exists>ps. bulk_submit [''CN=a''] \<lparr>bulk_field = ''title'', bulk_value = [], bulk_add = [], bulk_remove = [],
          bulk_move = [], bulk_enabled = ''no'', bulk_busy = False\<rparr>
        = Some (Call_directory (Dir_bulk (JObj ps))) \<and> obj_get ps ''move_to'' = JNull"
proof -
  let ?f = "\<lparr>bulk_field = ''title'', bulk_value = [], bulk_add = [], bulk_remove = [],
          bulk_move = [], bulk_enabled = ''no'', bulk_busy = False\<rparr>"
  obtain c where c: "bulk_submit [''CN=a''] ?f = Some c" by (simp add: bulk_submit_def bulk_nothing_def)
  from bulk_change_leaves_the_rest_alone [OF c] c show ?thesis by auto
qed

end
