(* ===== verification/Uploads.thy ===== *)
theory Uploads
  imports Prelude
begin

text \<open>
  The upload counter (\<^verbatim>\<open>uploadTracker.ts\<close>) and the file inputs that move it
  (\<^verbatim>\<open>components/FileInput.tsx\<close>). A page's Save button reads the counter through
  \<^verbatim>\<open>useUploadsPending\<close>: a watcher, which shows what it was last told.

  A file input calls its \<^verbatim>\<open>onChoose\<close> and awaits what that returns. \<open>fi_waits\<close> says whether this is the
  promise of the work: the editors that write \<^verbatim>\<open>(file) => void add(file)\<close> return nothing, so there
  is nothing to wait for while the file is still being read. Inputs and watchers are numbered in the
  order they are mounted.
\<close>

section \<open>State\<close>

record file_input =
  fi_waits :: bool
  fi_reading :: bool
  fi_file :: string
  fi_chosen :: "string option"
  fi_error :: "string option"
  fi_working :: nat

record uploads =
  up_pending :: nat
  up_watchers :: "nat option list"
  up_inputs :: "file_input list"

definition uploads_start :: uploads where
  "uploads_start = \<lparr>up_pending = 0, up_watchers = [], up_inputs = []\<rparr>"

definition new_input :: "bool \<Rightarrow> file_input" where
  "new_input waits = \<lparr>fi_waits = waits, fi_reading = False, fi_file = [], fi_chosen = None,
     fi_error = None, fi_working = 0\<rparr>"

section \<open>Operations\<close>

definition notify :: "uploads \<Rightarrow> uploads" where
  "notify s = s\<lparr>up_watchers := map (map_option (\<lambda>_. up_pending s)) (up_watchers s)\<rparr>"

definition beginUpload :: "uploads \<Rightarrow> uploads" where
  "beginUpload s = notify (s\<lparr>up_pending := up_pending s + 1\<rparr>)"

text \<open>\<open>Math.max(0, pending - 1)\<close>: subtraction on natural numbers stops at 0.\<close>

definition endUpload :: "uploads \<Rightarrow> uploads" where
  "endUpload s = notify (s\<lparr>up_pending := up_pending s - 1\<rparr>)"

definition watch :: "uploads \<Rightarrow> uploads" where
  "watch s = s\<lparr>up_watchers := up_watchers s @ [Some (up_pending s)]\<rparr>"

definition unwatch :: "nat \<Rightarrow> uploads \<Rightarrow> uploads" where
  "unwatch i s = s\<lparr>up_watchers := (up_watchers s)[i := None]\<rparr>"

definition set_input :: "nat \<Rightarrow> (file_input \<Rightarrow> file_input) \<Rightarrow> uploads \<Rightarrow> uploads" where
  "set_input i f s = s\<lparr>up_inputs := (up_inputs s)[i := f (up_inputs s ! i)]\<rparr>"

text \<open>Choosing a file: nothing while one is being read, and nothing when the dialog was
  cancelled. The upload begins, and ends when what \<^verbatim>\<open>onChoose\<close> returned settles.\<close>

definition settle :: "nat \<Rightarrow> string option \<Rightarrow> uploads \<Rightarrow> uploads" where
  "settle i err s =
     endUpload (set_input i (\<lambda>fi. case err of
         None \<Rightarrow> fi\<lparr>fi_chosen := Some (fi_file fi), fi_reading := False\<rparr>
       | Some e \<Rightarrow> fi\<lparr>fi_error := Some e, fi_reading := False\<rparr>) s)"

definition choose_file :: "nat \<Rightarrow> string option \<Rightarrow> uploads \<Rightarrow> uploads" where
  "choose_file i name s =
     (case name of
        None \<Rightarrow> s
      | Some n \<Rightarrow>
          if i < length (up_inputs s) \<and> \<not> fi_reading (up_inputs s ! i)
          then (let s' = beginUpload (set_input i (\<lambda>fi. fi\<lparr>fi_reading := True, fi_error := None, fi_file := n,
                                                    fi_working := fi_working fi + 1\<rparr>) s)
                in if fi_waits (up_inputs s ! i) then s' else settle i None s')
          else s)"

text \<open>The work of an input ends, with an error message or without. An input that does not wait
  has settled long before.\<close>

definition finish_work :: "nat \<Rightarrow> string option \<Rightarrow> uploads \<Rightarrow> uploads" where
  "finish_work i err s =
     (if i < length (up_inputs s) \<and> 0 < fi_working (up_inputs s ! i)
      then (let s' = set_input i (\<lambda>fi. fi\<lparr>fi_working := fi_working fi - 1\<rparr>) s
            in if fi_waits (up_inputs s ! i) then settle i err s' else s')
      else s)"

datatype (plugins only: code size) upload_event =
  MountInput bool | Watch | Unwatch nat | ChooseFile nat "string option" | FinishWork nat "string option"

definition upload_step :: "upload_event \<Rightarrow> uploads \<Rightarrow> uploads" where
  "upload_step e s =
     (case e of
        MountInput waits \<Rightarrow> s\<lparr>up_inputs := up_inputs s @ [new_input waits]\<rparr>
      | Watch \<Rightarrow> watch s
      | Unwatch i \<Rightarrow> unwatch i s
      | ChooseFile i name \<Rightarrow> choose_file i name s
      | FinishWork i err \<Rightarrow> finish_work i err s)"

text \<open>What an input shows beside its button, and when Save may be pressed.\<close>

definition shown_text :: "string \<Rightarrow> file_input \<Rightarrow> string" where
  "shown_text placeholder fi =
     (if fi_reading fi then ''Reading'' @ ellipsis
      else case fi_error fi of Some e \<Rightarrow> e
         | None \<Rightarrow> (case fi_chosen fi of Some c \<Rightarrow> c | None \<Rightarrow> placeholder))"

definition save_enabled :: "bool \<Rightarrow> nat option \<Rightarrow> bool" where
  "save_enabled busy count = (\<not> busy \<and> count = Some 0)"

section \<open>The counter counts what is being read\<close>

definition input_ok :: "file_input \<Rightarrow> bool" where
  "input_ok fi = (if fi_waits fi then fi_working fi = (if fi_reading fi then 1 else 0) else \<not> fi_reading fi)"

definition uploads_ok :: "uploads \<Rightarrow> bool" where
  "uploads_ok s \<longleftrightarrow>
     up_pending s = length (filter fi_reading (up_inputs s)) \<and>
     list_all (\<lambda>w. w = None \<or> w = Some (up_pending s)) (up_watchers s) \<and>
     list_all input_ok (up_inputs s)"

lemma readings_update:
  "i < length xs \<Longrightarrow>
   length (filter P (xs[i := y])) + (if P (xs ! i) then 1 else 0) = length (filter P xs) + (if P y then 1 else 0)"
proof (induction xs arbitrary: i)
  case (Cons x xs)
  then show ?case by (cases i) auto
qed simp

lemma readings_set:
  assumes "i < length xs"
  shows "P (xs ! i) \<Longrightarrow> \<not> P y \<Longrightarrow> length (filter P (xs[i := y])) = length (filter P xs) - 1"
    and "\<not> P (xs ! i) \<Longrightarrow> P y \<Longrightarrow> length (filter P (xs[i := y])) = Suc (length (filter P xs))"
    and "P (xs ! i) = P y \<Longrightarrow> length (filter P (xs[i := y])) = length (filter P xs)"
  using readings_update [OF assms, of P y] by auto

lemma all_update: "list_all P xs \<Longrightarrow> P y \<Longrightarrow> list_all P (xs[i := y])"
  by (auto simp: list_all_iff dest: set_update_subset_insert [THEN subsetD])

lemma watchers_told:
  "list_all (\<lambda>w. w = None \<or> w = Some n) (map (map_option (\<lambda>_. n)) ws)"
  "list_all (\<lambda>w. w = None \<or> w = Some n) (map (map_option (\<lambda>_. n) \<circ> map_option f) ws)"
  by (auto simp: list_all_iff)

lemmas upload_defs = beginUpload_def endUpload_def notify_def set_input_def settle_def Let_def

lemma uploads_ok_choose:
  assumes "uploads_ok s"
  shows "uploads_ok (choose_file i name s)"
proof (cases "\<exists>n. name = Some n \<and> i < length (up_inputs s) \<and> \<not> fi_reading (up_inputs s ! i)")
  case False
  then have "choose_file i name s = s" by (auto simp: choose_file_def split: option.splits)
  with assms show ?thesis by simp
next
  case True
  then obtain n where n: "name = Some n" and i: "i < length (up_inputs s)" "\<not> fi_reading (up_inputs s ! i)" by blast
  have own: "input_ok (up_inputs s ! i)"
    using assms i(1) by (simp add: uploads_ok_def list_all_length)
  show ?thesis
  proof (cases "fi_waits (up_inputs s ! i)")
    case True
    then show ?thesis
      using assms n i own readings_set [OF i(1), of fi_reading]
      by (auto simp: choose_file_def uploads_ok_def upload_defs input_ok_def watchers_told intro!: all_update)
  next
    case False
    then show ?thesis
      using assms n i own readings_set [OF i(1), of fi_reading]
      by (auto simp: choose_file_def uploads_ok_def upload_defs input_ok_def watchers_told intro!: all_update)
  qed
qed

lemma uploads_ok_finish:
  assumes "uploads_ok s"
  shows "uploads_ok (finish_work i err s)"
proof (cases "i < length (up_inputs s) \<and> 0 < fi_working (up_inputs s ! i)")
  case False
  then have "finish_work i err s = s" by (auto simp: finish_work_def)
  with assms show ?thesis by simp
next
  case True
  then have i: "i < length (up_inputs s)" by simp
  have own: "input_ok (up_inputs s ! i)"
    using assms i by (simp add: uploads_ok_def list_all_length)
  show ?thesis
  proof (cases "fi_waits (up_inputs s ! i)")
    case w: True
    then have r: "fi_reading (up_inputs s ! i)" "fi_working (up_inputs s ! i) = 1"
      using own True by (auto simp: input_ok_def split: if_splits)
    then show ?thesis
      using assms True w readings_set [OF i, of fi_reading]
      by (cases err) (auto simp: finish_work_def uploads_ok_def upload_defs input_ok_def watchers_told intro!: all_update)
  next
    case False
    then have "\<not> fi_reading (up_inputs s ! i)" using own by (simp add: input_ok_def)
    then show ?thesis
      using assms True False readings_set [OF i, of fi_reading]
      by (auto simp: finish_work_def uploads_ok_def upload_defs input_ok_def intro!: all_update)
  qed
qed

interpretation uploads: machine uploads_start upload_step uploads_ok
proof
  show "uploads_ok uploads_start" by (simp add: uploads_ok_def uploads_start_def)
next
  fix s e
  assume ok: "uploads_ok s"
  show "uploads_ok (upload_step e s)"
  proof (cases e)
    case (Unwatch i)
    with ok show ?thesis
      by (auto simp: upload_step_def unwatch_def uploads_ok_def intro: all_update)
  next
    case (ChooseFile i name)
    with ok show ?thesis by (simp add: upload_step_def uploads_ok_choose)
  next
    case (FinishWork i err)
    with ok show ?thesis by (simp add: upload_step_def uploads_ok_finish)
  qed (use ok in \<open>auto simp: upload_step_def watch_def uploads_ok_def new_input_def input_ok_def\<close>)
qed

section \<open>Properties\<close>



text \<open>An input whose editor starts its work and returns nothing does not hold Save back: choosing
  a file with it leaves every count as it was and names the file as chosen at once, while its work is
  still in hand. The font and package editors are written so.\<close>

theorem unwaited_work_leaves_save_enabled:
  assumes "uploads_ok s" and "i < length (up_inputs s)" and "\<not> fi_waits (up_inputs s ! i)"
  shows "let s' = choose_file i (Some name) s in
           up_pending s' = up_pending s \<and> up_watchers s' = up_watchers s \<and>
           0 < fi_working (up_inputs s' ! i) \<and> shown_text [] (up_inputs s' ! i) = name"
proof -
  have r: "\<not> fi_reading (up_inputs s ! i)"
    using assms by (auto simp: uploads_ok_def list_all_length input_ok_def)
  have "map (map_option (\<lambda>_. up_pending s)) (up_watchers s) = up_watchers s"
    using assms(1) by (intro map_idI) (auto simp: uploads_ok_def list_all_iff)
  then show ?thesis
    using assms(2,3) r by (simp add: choose_file_def upload_defs shown_text_def comp_def option.map_comp)
qed

theorem unwaited_work_leaves_save_enabled_witness:
  "let s = fold upload_step [Watch, MountInput False] uploads_start;
       s' = choose_file 0 (Some ''a.ttf'') s
   in save_enabled False (up_watchers s' ! 0) \<and> 0 < fi_working (up_inputs s' ! 0)"
proof -
  let ?s = "fold upload_step [Watch, MountInput False] uploads_start"
  have ok: "uploads_ok ?s" by (rule uploads.inv_run)
  have i: "0 < length (up_inputs ?s)" "\<not> fi_waits (up_inputs ?s ! 0)" "up_watchers ?s ! 0 = Some 0" by code_simp+
  from unwaited_work_leaves_save_enabled [OF ok i(1,2), of "''a.ttf''"] i(3) show ?thesis
    by (simp add: Let_def save_enabled_def)
qed

end
