(* ===== verification/Policy.thy ===== *)
theory Policy
  imports SettingEditors Directory Uploads
begin

text \<open>
  One policy object on the page of group policy (\<^verbatim>\<open>pages/Policy.tsx\<close>): what opening it fills the form
  with, what saving it sends, its security filter and item-level targeting, the summary of the
  folded targeting, where a link to it reaches, and the order of its links.
\<close>

section \<open>The form of one object\<close>

record gpo =
  g_guid :: string
  g_display_name :: string
  g_description :: string
  g_enabled :: bool
  g_settings :: jsobj
  g_security_filter :: "string list"
  g_os :: "string list"
  g_hostname_pattern :: "string option"
  g_security_groups :: "string list"
  g_ip_ranges :: "string list"

record gpo_form =
  gf_settings :: jsobj
  gf_name :: string
  gf_description :: string
  gf_enabled :: bool
  gf_filter :: string
  gf_hostname :: string
  gf_osList :: string
  gf_ipRanges :: string
  gf_groups :: string

definition gpo_open :: "gpo \<Rightarrow> gpo_form" where
  "gpo_open g = \<lparr>gf_settings = g_settings g, gf_name = g_display_name g, gf_description = g_description g,
     gf_enabled = g_enabled g, gf_filter = join_with [CHR 0x0A] (g_security_filter g),
     gf_hostname = (case g_hostname_pattern g of None \<Rightarrow> [] | Some h \<Rightarrow> h),
     gf_osList = join_with '', '' (g_os g), gf_ipRanges = join_with '', '' (g_ip_ranges g),
     gf_groups = join_with [CHR 0x0A] (g_security_groups g)\<rparr>"

text \<open>\<open>value.split(/[\n,]/)\<close>, trimmed, without the empty pieces.\<close>

definition policy_lines :: "string \<Rightarrow> string list" where
  "policy_lines v = split_trim (replace_char (CHR 0x0A) (CHR '','') v)"

definition gpo_save :: "string \<Rightarrow> gpo_form \<Rightarrow> api_call" where
  "gpo_save guid f =
     Call_policy (Pol_update (JObj
       [(''guid'', JStr guid), (''display_name'', JStr (gf_name f)), (''description'', JStr (gf_description f)),
        (''enabled'', JBool (gf_enabled f)), (''settings'', JObj (gf_settings f)),
        (''security_filter'', strs (policy_lines (gf_filter f))),
        (''targeting'', JObj
          [(''os'', strs (policy_lines (gf_osList f))),
           (''hostname_pattern'', if gf_hostname f = [] then JUndef else JStr (gf_hostname f)),
           (''security_groups'', strs (policy_lines (gf_groups f))),
           (''ip_ranges'', strs (policy_lines (gf_ipRanges f)))])]))"

definition gpo_save_enabled :: "bool \<Rightarrow> nat \<Rightarrow> bool" where
  "gpo_save_enabled busy uploads_pending = (\<not> (busy \<or> 0 < uploads_pending))"

text \<open>The lists of the scope tab are shown and changed through the same reading of the text.\<close>

definition filter_add :: "dirobj \<Rightarrow> gpo_form \<Rightarrow> gpo_form" where
  "filter_add n f = f\<lparr>gf_filter := join_with [CHR 0x0A] (choice_add n (policy_lines (gf_filter f)))\<rparr>"

definition filter_remove :: "string \<Rightarrow> gpo_form \<Rightarrow> gpo_form" where
  "filter_remove v f = f\<lparr>gf_filter := join_with [CHR 0x0A] (choice_remove v (policy_lines (gf_filter f)))\<rparr>"

definition group_add :: "dirobj \<Rightarrow> gpo_form \<Rightarrow> gpo_form" where
  "group_add n f = f\<lparr>gf_groups := join_with [CHR 0x0A] (choice_add n (policy_lines (gf_groups f)))\<rparr>"

definition group_remove :: "string \<Rightarrow> gpo_form \<Rightarrow> gpo_form" where
  "group_remove v f = f\<lparr>gf_groups := join_with [CHR 0x0A] (choice_remove v (policy_lines (gf_groups f)))\<rparr>"

definition os_toggle :: "string \<Rightarrow> bool \<Rightarrow> gpo_form \<Rightarrow> gpo_form" where
  "os_toggle release checked f =
     (let current = policy_lines (gf_osList f)
      in f\<lparr>gf_osList := join_with '', ''
             (if checked then current @ [release] else filter (\<lambda>e. e \<noteq> release) current)\<rparr>)"

datatype (plugins only: code size) gpo_event =
    SetSettings jsobj | SetName string | SetDescription string | SetEnabled bool
  | FilterAdd dirobj | FilterRemove string | GroupAdd dirobj | GroupRemove string
  | OsToggle string bool | SetHostname string | SetIpRanges string

definition gpo_step :: "gpo_event \<Rightarrow> gpo_form \<Rightarrow> gpo_form" where
  "gpo_step ev f =
     (case ev of
        SetSettings s \<Rightarrow> f\<lparr>gf_settings := s\<rparr>
      | SetName t \<Rightarrow> f\<lparr>gf_name := t\<rparr>
      | SetDescription t \<Rightarrow> f\<lparr>gf_description := t\<rparr>
      | SetEnabled b \<Rightarrow> f\<lparr>gf_enabled := b\<rparr>
      | FilterAdd n \<Rightarrow> filter_add n f
      | FilterRemove v \<Rightarrow> filter_remove v f
      | GroupAdd n \<Rightarrow> group_add n f
      | GroupRemove v \<Rightarrow> group_remove v f
      | OsToggle r b \<Rightarrow> os_toggle r b f
      | SetHostname t \<Rightarrow> f\<lparr>gf_hostname := t\<rparr>
      | SetIpRanges t \<Rightarrow> f\<lparr>gf_ipRanges := t\<rparr>)"

section \<open>What the page says of it\<close>

definition SUPPORTED_RELEASES :: "(string \<times> string) list" where
  "SUPPORTED_RELEASES = [(''debian-13'', ''Debian 13 (trixie)''), (''debian-12'', ''Debian 12 (bookworm)'')]"

definition release_label :: "string \<Rightarrow> string" where
  "release_label v = (case find (\<lambda>r. fst r = v) SUPPORTED_RELEASES of None \<Rightarrow> v | Some r \<Rightarrow> snd r)"

definition targetingSummary :: "string list \<Rightarrow> string \<Rightarrow> string list \<Rightarrow> string list \<Rightarrow> string" where
  "targetingSummary os hostname ipRanges groups =
     (let parts =
        (if os \<noteq> [] then [join_with '', '' (map release_label os)] else []) @
        (if hostname \<noteq> [] then [''hosts '' @ hostname] else []) @
        (if ipRanges \<noteq> [] then [join_with '', '' ipRanges] else []) @
        (case groups of [] \<Rightarrow> [] | [g] \<Rightarrow> [g] | _ \<Rightarrow> [show_nat (length groups) @ '' groups''])
      in if parts \<noteq> [] then ''Only '' @ join_with ('' '' @ middle_dot @ '' '') parts
         else ''Every machine the links reach'')"

definition half_name :: "half \<Rightarrow> string" where
  "half_name h = (case h of Computer \<Rightarrow> ''Computer'' | User \<Rightarrow> ''User'')"

definition LinkScope :: "jsobj \<Rightarrow> string" where
  "LinkScope settings =
     (let halves = halvesConfigured settings in
      if halves = [] then ''This policy object configures nothing yet.''
      else join_with '' and '' (map (\<lambda>h. half_name h @ '' Configuration'') halves) @ '' '' @ em_dash @
           '' this applies to '' @
           join_with '' and '' (map (\<lambda>h. if h = Computer then ''the computers'' else ''the users'') halves) @
           '' in each container it is linked to.'')"

text \<open>Links: an order is raised only while there is a higher place.\<close>

datatype (plugins only: code size) link_event = Enforce bool | EnableLink bool | RaiseLink | LowerLink | Unlink

definition link_call :: "string \<Rightarrow> int \<Rightarrow> link_event \<Rightarrow> api_call option" where
  "link_call id' order ev =
     (case ev of
        Enforce b \<Rightarrow> Some (Call_policy (Pol_updateLink (JObj [(''id'', JStr id'), (''enforced'', JBool b)])))
      | EnableLink b \<Rightarrow> Some (Call_policy (Pol_updateLink (JObj [(''id'', JStr id'), (''enabled'', JBool b)])))
      | RaiseLink \<Rightarrow> if order \<le> 1 then None
          else Some (Call_policy (Pol_updateLink (JObj [(''id'', JStr id'), (''link_order'', JNum (order - 1))])))
      | LowerLink \<Rightarrow> Some (Call_policy (Pol_updateLink (JObj [(''id'', JStr id'), (''link_order'', JNum (order + 1))])))
      | Unlink \<Rightarrow> Some (Call_policy (Pol_unlink id')))"

text \<open>Deleting: an object that is gone already counts as deleted.\<close>

datatype (plugins only: code size) remove_outcome = Closed | Failed string | FailedWith api_error

definition remove_result :: "api_error + jsval \<Rightarrow> remove_outcome" where
  "remove_result r =
     (case r of
        Inr _ \<Rightarrow> Closed
      | Inl (ApiErr code message) \<Rightarrow> if code = 404 then Closed else Failed message
      | Inl other \<Rightarrow> FailedWith other)"

section \<open>Reading the lists\<close>

lemma policy_lines_no_comma: "v \<in> set (policy_lines t) \<Longrightarrow> CHR '','' \<notin> set v"
  unfolding policy_lines_def split_trim_def by (rule pieces_no_sep)

definition plain_piece :: "string \<Rightarrow> bool" where
  "plain_piece v \<longleftrightarrow> clean_piece v \<and> CHR 0x0A \<notin> set v"

lemma replace_char_id: "a \<notin> set s \<Longrightarrow> replace_char a b s = s"
  by (auto simp: replace_char_def intro!: map_idI)

lemma replace_char_append: "replace_char a b (s @ t) = replace_char a b s @ replace_char a b t"
  by (simp add: replace_char_def)

lemma policy_lines_commas:
  assumes "\<And>v. v \<in> set vs \<Longrightarrow> plain_piece v"
  shows "policy_lines (join_with '', '' vs) = vs"
proof -
  have "set (join_with '', '' vs) \<subseteq> set '', '' \<union> \<Union> (set ` set vs)" by (rule set_join_with)
  then have "CHR 0x0A \<notin> set (join_with '', '' vs)" using assms by (auto simp: plain_piece_def)
  then have "policy_lines (join_with '', '' vs) = split_trim (join_with '', '' vs)"
    by (simp add: policy_lines_def replace_char_id)
  also have "\<dots> = vs" by (rule split_trim_join) (use assms in \<open>auto simp: plain_piece_def\<close>)
  finally show ?thesis .
qed

lemma replace_join:
  assumes "\<And>v. v \<in> set vs \<Longrightarrow> a \<notin> set v"
  shows "replace_char a b (join_with [a] vs) = join_with [b] vs"
  using assms
proof (induction vs rule: remdups_adj.induct)
  case (3 x y xs)
  have "replace_char a b (join_with [a] (y # xs)) = join_with [b] (y # xs)"
    using 3 by (cases "x = y") auto
  then show ?case
    using 3(3) by (simp add: replace_char_append replace_char_id) (simp add: replace_char_def)
qed (auto simp: replace_char_def intro!: map_idI)

lemma split_trim_join_tight:
  assumes "\<And>v. v \<in> set vs \<Longrightarrow> clean_piece v"
  shows "split_trim (join_with '','' vs) = vs"
proof (cases vs)
  case Nil
  then show ?thesis by (simp add: split_trim_def nonempty_def js_trim_def)
next
  case (Cons v ws)
  then have "split_on (CHR '','') (join_with '','' vs) = vs"
    using assms by (intro split_join) (auto simp: clean_piece_def)
  moreover have "map js_trim vs = vs" using assms clean_trim by (auto intro!: map_idI)
  moreover have "[] \<notin> set vs" using assms by (auto simp: clean_piece_def)
  ultimately show ?thesis by (simp add: split_trim_def nonempty_id)
qed

lemma policy_lines_newlines:
  assumes "\<And>v. v \<in> set vs \<Longrightarrow> plain_piece v"
  shows "policy_lines (join_with [CHR 0x0A] vs) = vs"
proof -
  have "replace_char (CHR 0x0A) (CHR '','') (join_with [CHR 0x0A] vs) = join_with '','' vs"
    by (rule replace_join) (use assms in \<open>auto simp: plain_piece_def\<close>)
  then show ?thesis
    using split_trim_join_tight [of vs] assms by (simp add: policy_lines_def plain_piece_def)
qed

text \<open>What a save sends, member by member.\<close>

definition saved :: "api_call \<Rightarrow> string \<Rightarrow> jsval" where
  "saved c k = (case c of Call_policy (Pol_update (JObj ps)) \<Rightarrow> obj_get ps k | _ \<Rightarrow> JUndef)"

lemma saved_filter [simp]: "saved (gpo_save guid f) ''security_filter'' = strs (policy_lines (gf_filter f))"
  by (simp add: saved_def gpo_save_def)

lemma saved_groups [simp]:
  "opt_member (saved (gpo_save guid f) ''targeting'') ''security_groups'' = strs (policy_lines (gf_groups f))"
  by (simp add: saved_def gpo_save_def opt_member_def)

section \<open>Properties\<close>



text \<open>No distinguished name survives a save: whatever was done to the form, no entry of the security
  filter or of the targeted groups that is sent has a comma in it, so a user or group that was chosen in the scope
  tab, or was there when the object was opened, is not among them.\<close>

theorem saved_filters_hold_no_distinguished_name:
  assumes "CHR '','' \<in> set dn"
  shows "(\<forall>vs. saved (gpo_save guid f) ''security_filter'' = strs vs \<longrightarrow> dn \<notin> set vs) \<and>
         (\<forall>vs. opt_member (saved (gpo_save guid f) ''targeting'') ''security_groups'' = strs vs \<longrightarrow> dn \<notin> set vs) \<and>
         (dn \<in> set (g_security_filter g) \<longrightarrow>
            saved (gpo_save (g_guid g) (gpo_open g)) ''security_filter'' \<noteq> strs (g_security_filter g)) \<and>
         (distinguishedName n = dn \<longrightarrow>
            dn \<notin> set (policy_lines (gf_filter (gpo_step (FilterAdd n) f))))"
proof -
  have inj: "strs vs = strs ws \<Longrightarrow> vs = ws" for vs ws
    using inj_map_eq_map [of JStr] by (simp add: strs_def inj_def)
  have "dn \<notin> set (policy_lines t)" for t
    using assms policy_lines_no_comma by blast
  moreover have "policy_lines (gf_filter (gpo_open g)) \<noteq> g_security_filter g" if "dn \<in> set (g_security_filter g)"
    using that calculation by metis
  ultimately show ?thesis by (auto dest!: inj)
qed

theorem saved_filters_hold_no_distinguished_name_witness:
  "let g = \<lparr>g_guid = ''g'', g_display_name = ''Base'', g_description = [], g_enabled = True, g_settings = [],
            g_security_filter = [''CN=Helpdesk,DC=corp''], g_os = [], g_hostname_pattern = None,
            g_security_groups = [], g_ip_ranges = []\<rparr>
   in saved (gpo_save (g_guid g) (gpo_open g)) ''security_filter'' \<noteq> strs (g_security_filter g) \<and>
      saved (gpo_save (g_guid g) (gpo_open g)) ''security_filter'' = strs [''CN=Helpdesk'', ''DC=corp'']"
proof -
  let ?g = "\<lparr>g_guid = ''g'', g_display_name = ''Base'', g_description = [], g_enabled = True, g_settings = [],
            g_security_filter = [''CN=Helpdesk,DC=corp''], g_os = [], g_hostname_pattern = None,
            g_security_groups = [], g_ip_ranges = []\<rparr>"
  have c: "CHR '','' \<in> set ''CN=Helpdesk,DC=corp''" by simp
  have m: "''CN=Helpdesk,DC=corp'' \<in> set (g_security_filter ?g)" by simp
  have l: "policy_lines (gf_filter (gpo_open ?g)) = [''CN=Helpdesk'', ''DC=corp'']" by code_simp
  have "saved (gpo_save (g_guid ?g) (gpo_open ?g)) ''security_filter'' \<noteq> strs (g_security_filter ?g)"
    using saved_filters_hold_no_distinguished_name [OF c, where g = ?g] m by blast
  then show ?thesis using l by (simp add: Let_def)
qed

text \<open>The folded targeting says that every machine is reached exactly when no criterion is set, and
  the sentence under the links says that the object configures nothing exactly when it configures no half.\<close>

theorem summaries_say_what_is_set:
  "(targetingSummary os hostname ipRanges groups = ''Every machine the links reach'' \<longleftrightarrow>
     os = [] \<and> hostname = [] \<and> ipRanges = [] \<and> groups = []) \<and>
   (LinkScope s = ''This policy object configures nothing yet.'' \<longleftrightarrow> halvesConfigured s = [])"
proof
  show "targetingSummary os hostname ipRanges groups = ''Every machine the links reach'' \<longleftrightarrow>
     os = [] \<and> hostname = [] \<and> ipRanges = [] \<and> groups = []"
    by (auto simp: targetingSummary_def Let_def split: list.splits if_splits)
  have "hd (join_with s (map (\<lambda>h. half_name h @ t) hs) @ u) \<noteq> CHR ''T''" if "hs \<noteq> []" for s t u hs
    using that by (cases hs; cases "tl hs") (auto simp: half_name_def split: half.splits)
  then have "LinkScope s \<noteq> ''This policy object configures nothing yet.''" if "halvesConfigured s \<noteq> []"
    using that by (auto simp: LinkScope_def Let_def)
  moreover have "LinkScope s = ''This policy object configures nothing yet.''" if "halvesConfigured s = []"
    using that by (simp add: LinkScope_def)
  ultimately show "LinkScope s = ''This policy object configures nothing yet.'' \<longleftrightarrow> halvesConfigured s = []"
    by blast
qed

end
