(* ===== verification/Csv.thy ===== *)
theory Csv
  imports Endpoints
begin

text \<open>
  Creating directory objects (\<^verbatim>\<open>components/CreateDialog.tsx\<close>): what the dialog of one object sends, the
  CSV reader, and the import of many users from a file. To state what the reader makes of a file,
  \<open>csv_text\<close> writes one as spreadsheets do, quoting a cell where it has to be.
\<close>

section \<open>One object\<close>

datatype (plugins only: code size) object_type = UserObject | GroupObject | ComputerObject | OuObject

record create_form =
  cf_fields :: jsobj
  cf_must_change :: bool
  cf_scope :: string
  cf_kind :: string

text \<open>\<open>a ?? ""\<close>, \<open>a || b\<close>\<close>

definition or_empty :: "jsval \<Rightarrow> jsval" where
  "or_empty v = or_else v (JStr [])"

definition js_or :: "jsval \<Rightarrow> jsval \<Rightarrow> jsval" where
  "js_or a b = (if truthy a then a else b)"

definition create_call :: "object_type \<Rightarrow> string \<Rightarrow> create_form \<Rightarrow> api_call" where
  "create_call type container f =
     (let field = obj_get (cf_fields f) in
      Call_directory
       (case type of
          UserObject \<Rightarrow> Dir_createUser (JObj
            [(''container'', JStr container), (''sam_account_name'', or_empty (field ''sam'')),
             (''name'', js_or (field ''name'') (field ''sam'')), (''given_name'', field ''given''),
             (''surname'', field ''surname''), (''mail'', field ''mail''),
             (''password'', js_or (field ''password'') JUndef),
             (''must_change_password'', JBool (cf_must_change f))])
        | GroupObject \<Rightarrow> Dir_createGroup (JObj
            [(''container'', JStr container), (''name'', or_empty (field ''name'')), (''kind'', JStr (cf_kind f)),
             (''scope'', JStr (cf_scope f)), (''description'', field ''description'')])
        | ComputerObject \<Rightarrow> Dir_createComputer (JObj
            [(''container'', JStr container), (''name'', or_empty (field ''name'')), (''dns_host_name'', field ''dns'')])
        | OuObject \<Rightarrow> Dir_createOu (JObj
            [(''container'', JStr container), (''name'', or_empty (field ''name'')), (''description'', field ''description'')])))"

section \<open>The CSV reader\<close>

text \<open>The loop of \<^verbatim>\<open>parseCsv\<close>: whether inside quotes, the field and the row so far, the rows done, and
  what is left to read.\<close>

fun csv_go :: "bool \<Rightarrow> string \<Rightarrow> string list \<Rightarrow> string list list \<Rightarrow> string \<Rightarrow> string list list" where
  "csv_go q field row rows [] = (if field \<noteq> [] \<or> row \<noteq> [] then rows @ [row @ [field]] else rows)"
| "csv_go q field row rows (c # s) =
     (if q then
        (if c = CHR 0x22 then
           (case s of
              d # t \<Rightarrow> if d = CHR 0x22 then csv_go True (field @ [CHR 0x22]) row rows t
                       else csv_go False field row rows s
            | [] \<Rightarrow> csv_go False field row rows s)
         else csv_go True (field @ [c]) row rows s)
      else if c = CHR 0x22 then csv_go True field row rows s
      else if c = CHR '','' then csv_go False [] (row @ [field]) rows s
      else if c = CHR 0x0A then csv_go False [] [] (rows @ [row @ [field]]) s
      else if c = CHR 0x0D then
        (case s of
           d # t \<Rightarrow> if d = CHR 0x0A then csv_go False [] [] (rows @ [row @ [field]]) t
                    else csv_go False [] [] (rows @ [row @ [field]]) s
         | [] \<Rightarrow> csv_go False [] [] (rows @ [row @ [field]]) s)
      else csv_go False (field @ [c]) row rows s)"

definition csv_blank :: "string list \<Rightarrow> bool" where
  "csv_blank row = list_all (\<lambda>cell. js_trim cell = []) row"

definition parseCsv :: "string \<Rightarrow> string list list" where
  "parseCsv input = filter (\<lambda>r. \<not> csv_blank r) (csv_go False [] [] [] input)"

section \<open>Importing users\<close>

definition CSV_FIELDS :: "string list" where
  "CSV_FIELDS = [''sam_account_name'', ''name'', ''given_name'', ''surname'', ''display_name'', ''mail'',
     ''description'', ''password'']"

text \<open>\<open>replace(/\s+/g, "_")\<close>\<close>

fun underscored :: "bool \<Rightarrow> string \<Rightarrow> string" where
  "underscored in_space [] = []"
| "underscored in_space (c # s) =
     (if is_space c then (if in_space then underscored True s else CHR ''_'' # underscored True s)
      else c # underscored False s)"

definition csv_column :: "string \<Rightarrow> string" where
  "csv_column h = underscored False (to_lower (js_trim h))"

definition csv_record :: "string list \<Rightarrow> string list \<Rightarrow> jsobj" where
  "csv_record columns cells =
     fold (\<lambda>(column, i) record.
             if column \<in> set CSV_FIELDS \<and> i < length cells \<and> cells ! i \<noteq> []
             then obj_put column (JStr (js_trim (cells ! i))) record else record)
       (zip columns [0..<length columns]) []"

definition csv_user :: "string \<Rightarrow> string list \<Rightarrow> string list \<Rightarrow> jsobj" where
  "csv_user container columns cells = obj_spread [(''container'', JStr container)] (csv_record columns cells)"

record bulk_import =
  bi_rows :: "jsobj list"
  bi_problems :: "string list"
  bi_results :: "jsval list"
  bi_busy :: bool
  bi_error :: "api_error option"

definition bulk_import_start :: bulk_import where
  "bulk_import_start = \<lparr>bi_rows = [], bi_problems = [], bi_results = [], bi_busy = False, bi_error = None\<rparr>"

definition named_user :: "jsobj \<Rightarrow> bool" where
  "named_user r = truthy (obj_get r ''sam_account_name'')"

definition bulk_read :: "string \<Rightarrow> string \<Rightarrow> bulk_import \<Rightarrow> bulk_import" where
  "bulk_read container input s =
     (case parseCsv input of
        [] \<Rightarrow> s\<lparr>bi_problems := [''The file is empty.'']\<rparr>
      | header # body \<Rightarrow>
          (let columns = map csv_column header;
               unknown = filter (\<lambda>c. c \<notin> set CSV_FIELDS) columns;
               parsed = map (csv_user container columns) body;
               users = filter named_user parsed
           in s\<lparr>bi_rows := users,
               bi_problems := (if unknown \<noteq> [] then [''Ignored columns: '' @ join_with '', '' unknown] else []) @
                 (if length parsed \<noteq> length users then [''Rows without sam_account_name were skipped.''] else [])\<rparr>))"

definition bulk_submit_call :: "bulk_import \<Rightarrow> api_call option" where
  "bulk_submit_call s = (if bi_rows s = [] then None else Some (Call_directory (Dir_bulkUsers (map JObj (bi_rows s)))))"

text \<open>The answer of the import: its results, and whether the page behind reloads.\<close>

definition bulk_answer :: "api_error + jsval \<Rightarrow> bulk_import \<Rightarrow> bulk_import \<times> bool" where
  "bulk_answer r s =
     (case r of
        Inr (JObj ps) \<Rightarrow>
          (s\<lparr>bi_results := (case obj_get ps ''results'' of JArr rs \<Rightarrow> rs | _ \<Rightarrow> []), bi_busy := False\<rparr>,
           (case obj_get ps ''created'' of JNum n \<Rightarrow> 0 < n | _ \<Rightarrow> False))
      | Inr _ \<Rightarrow> (s\<lparr>bi_error := Some TypeErr, bi_busy := False\<rparr>, False)
      | Inl e \<Rightarrow> (s\<lparr>bi_error := Some e, bi_busy := False\<rparr>, False))"

section \<open>Writing a file\<close>

definition csv_special :: "char \<Rightarrow> bool" where
  "csv_special c \<longleftrightarrow> c = CHR 0x22 \<or> c = CHR '','' \<or> c = CHR 0x0A \<or> c = CHR 0x0D"

definition csv_quoted :: "string \<Rightarrow> string" where
  "csv_quoted cell = concat (map (\<lambda>c. if c = CHR 0x22 then [CHR 0x22, CHR 0x22] else [c]) cell)"

definition csv_cell :: "string \<Rightarrow> string" where
  "csv_cell cell = (if list_ex csv_special cell then CHR 0x22 # csv_quoted cell @ [CHR 0x22] else cell)"

definition csv_row :: "string list \<Rightarrow> string" where
  "csv_row row = join_with '','' (map csv_cell row)"

definition csv_text :: "string \<Rightarrow> string list list \<Rightarrow> string" where
  "csv_text eol rows = concat (map (\<lambda>row. csv_row row @ eol) rows)"

lemma csv_go_quoted:
  "(case s of d # t \<Rightarrow> d \<noteq> CHR 0x22 | [] \<Rightarrow> True) \<Longrightarrow>
   csv_go True field row rows (csv_quoted cell @ CHR 0x22 # s) = csv_go False (field @ cell) row rows s"
proof (induction cell arbitrary: field)
  case Nil
  then show ?case by (cases s) (simp_all add: csv_quoted_def)
next
  case (Cons c cell)
  then show ?case by (cases "c = CHR 0x22") (simp_all add: csv_quoted_def)
qed

lemma csv_go_plain:
  "list_all (\<lambda>c. \<not> csv_special c) cell \<Longrightarrow> csv_go False field row rows (cell @ s) = csv_go False (field @ cell) row rows s"
  by (induction cell arbitrary: field) (simp_all add: csv_special_def)

lemma csv_go_cell:
  assumes "case s of d # t \<Rightarrow> d \<noteq> CHR 0x22 | [] \<Rightarrow> True"
  shows "csv_go False [] row rows (csv_cell cell @ s) = csv_go False cell row rows s"
proof (cases "list_ex csv_special cell")
  case True
  then show ?thesis using csv_go_quoted [OF assms, of "[]"] by (simp add: csv_cell_def)
next
  case False
  then have "list_all (\<lambda>c. \<not> csv_special c) cell" by (simp add: list_all_iff list_ex_iff)
  then show ?thesis using False csv_go_plain [of cell "[]" row rows s] by (simp add: csv_cell_def)
qed

definition line_end :: "string \<Rightarrow> bool" where
  "line_end eol \<longleftrightarrow> eol = [CHR 0x0A] \<or> eol = [CHR 0x0D, CHR 0x0A]"

lemma csv_go_row:
  assumes "line_end eol" and "cells \<noteq> []"
  shows "csv_go False [] row rows (csv_row cells @ eol @ s) = csv_go False [] [] (rows @ [row @ cells]) s"
  using assms(2)
proof (induction cells arbitrary: row)
  case Nil
  then show ?case by simp
next
  case (Cons cell cells)
  show ?case
  proof (cases cells)
    case Nil
    have "csv_go False [] row rows (csv_cell cell @ eol @ s) = csv_go False cell row rows (eol @ s)"
      by (rule csv_go_cell) (use assms(1) in \<open>auto simp: line_end_def\<close>)
    then show ?thesis using assms(1) Nil by (auto simp: csv_row_def line_end_def)
  next
    case (Cons d ds)
    have "csv_go False [] row rows (csv_cell cell @ CHR '','' # csv_row cells @ eol @ s) =
          csv_go False cell row rows (CHR '','' # csv_row cells @ eol @ s)"
      by (rule csv_go_cell) simp
    also have "\<dots> = csv_go False [] (row @ [cell]) rows (csv_row cells @ eol @ s)" by simp
    finally show ?thesis using Cons Cons.IH [of "row @ [cell]"] by (simp add: csv_row_def)
  qed
qed

lemma csv_go_rows:
  assumes "line_end eol" and "\<And>r. r \<in> set rs \<Longrightarrow> r \<noteq> []"
  shows "csv_go False [] [] rows (csv_text eol rs) = rows @ rs"
  using assms(2)
proof (induction rs arbitrary: rows)
  case Nil
  then show ?case by (simp add: csv_text_def)
next
  case (Cons r rs)
  have "csv_go False [] [] rows (csv_row r @ eol @ csv_text eol rs) = csv_go False [] [] (rows @ [r]) (csv_text eol rs)"
    using csv_go_row [OF assms(1), of r "[]"] Cons.prems by simp
  then show ?case using Cons by (simp add: csv_text_def)
qed

section \<open>What a row becomes\<close>

lemma fold_keys:
  assumes "\<And>p acc. set (obj_keys acc) \<subseteq> K \<Longrightarrow> set (obj_keys (f p acc)) \<subseteq> K" and "set (obj_keys acc) \<subseteq> K"
  shows "set (obj_keys (fold f ps acc)) \<subseteq> K"
  using assms(2) by (induction ps arbitrary: acc) (use assms(1) in auto)

lemma csv_record_keys: "set (obj_keys (csv_record columns cells)) \<subseteq> set CSV_FIELDS"
  unfolding csv_record_def by (rule fold_keys) (auto simp: obj_keys_put obj_keys_def [of "[]"] split: if_splits)

lemma spread_keys: "set (obj_keys (obj_spread a b)) \<subseteq> set (obj_keys a) \<union> set (obj_keys b)"
proof (induction b rule: rev_induct)
  case Nil
  then show ?case by (simp add: obj_spread_def)
next
  case (snoc p b)
  obtain k v where p: "p = (k, v)" by (cases p)
  have "obj_spread a (b @ [p]) = obj_put k v (obj_spread a b)" by (simp add: obj_spread_def p)
  moreover have "set (obj_keys (b @ [p])) = insert k (set (obj_keys b))" by (simp add: obj_keys_def p)
  ultimately show ?case using snoc by (auto simp: obj_keys_put)
qed

lemma csv_user_keys:
  "set (obj_keys (csv_user container columns cells)) \<subseteq> insert ''container'' (set CSV_FIELDS)"
proof -
  have "set (obj_keys [(''container'', JStr container)]) = {''container''}" by (simp add: obj_keys_def)
  then show ?thesis
    using spread_keys [of "[(''container'', JStr container)]" "csv_record columns cells"] csv_record_keys [of columns cells]
    unfolding csv_user_def by blast
qed

lemma csv_user_container: "obj_get (csv_user container columns cells) ''container'' = JStr container"
proof -
  have "''container'' \<notin> set CSV_FIELDS" by (simp add: CSV_FIELDS_def)
  then have "''container'' \<notin> set (obj_keys (csv_record columns cells))" using csv_record_keys by blast
  then show ?thesis by (simp add: csv_user_def obj_spread_def obj.puts_frame obj_keys_def)
qed

section \<open>Properties\<close>

text \<open>C39: The CSV reader reads back what a spreadsheet writes: quoted or not, with commas, quotes and line
  breaks inside cells, with either line end, every row comes out as it went in, and only rows with
  nothing in them are left out.\<close>

theorem csv_reads_back:
  assumes "line_end eol" and "\<And>r. r \<in> set rows \<Longrightarrow> r \<noteq> []"
  shows "parseCsv (csv_text eol rows) = filter (\<lambda>r. \<not> csv_blank r) rows"
  using csv_go_rows [where eol = eol and rs = rows and rows = "[]"] assms by (simp add: parseCsv_def)

theorem csv_reads_back_witness:
  "parseCsv (csv_text [CHR 0x0D, CHR 0x0A] [[''name'', ''mail''], [''Smith, J'', [CHR 0x22]], [[], []]]) =
     [[''name'', ''mail''], [''Smith, J'', [CHR 0x22]]]"
proof -
  let ?rows = "[[''name'', ''mail''], [''Smith, J'', [CHR 0x22]], [[], []]]"
  have e: "line_end [CHR 0x0D, CHR 0x0A]" by (simp add: line_end_def)
  have ne: "\<And>r. r \<in> set ?rows \<Longrightarrow> r \<noteq> []" by auto
  have f: "filter (\<lambda>r. \<not> csv_blank r) ?rows = [[''name'', ''mail''], [''Smith, J'', [CHR 0x22]]]" by code_simp
  from csv_reads_back [OF e ne] show ?thesis by (simp only: f)
qed

text \<open>A file decides who is created, not where or as what: every user an import sends goes to the
  container the dialog was opened on, has a logon name, and carries no member but the eight columns an
  import knows.\<close>

theorem import_sends_only_known_columns:
  assumes "parseCsv input \<noteq> []"
    and "bulk_submit_call (bulk_read container input s) = Some (Call_directory (Dir_bulkUsers users))"
    and "u \<in> set users"
  shows "\<exists>ps. u = JObj ps \<and> obj_get ps ''container'' = JStr container \<and> truthy (obj_get ps ''sam_account_name'') \<and>
              set (obj_keys ps) \<subseteq> insert ''container'' (set CSV_FIELDS)"
proof -
  obtain header body where p: "parseCsv input = header # body" using assms(1) by (cases "parseCsv input") auto
  then have "users = map JObj (filter named_user (map (csv_user container (map csv_column header)) body))"
    using assms(2) by (auto simp: bulk_submit_call_def bulk_read_def Let_def split: if_splits)
  then obtain cells where "u = JObj (csv_user container (map csv_column header) cells)"
      "named_user (csv_user container (map csv_column header) cells)"
    using assms(3) by auto
  then show ?thesis
    using csv_user_container csv_user_keys by (auto simp: named_user_def)
qed

theorem import_sends_only_known_columns_witness:
  "\<exists>ps. bulk_submit_call (bulk_read ''OU=x'' (csv_text [CHR 0x0A] [[''Sam Account Name'', ''container''], [''ada'', ''OU=y'']]) bulk_import_start)
        = Some (Call_directory (Dir_bulkUsers [JObj ps])) \<and> obj_get ps ''container'' = JStr ''OU=x''"
proof -
  let ?input = "csv_text [CHR 0x0A] [[''Sam Account Name'', ''container''], [''ada'', ''OU=y'']]"
  let ?u = "JObj [(''container'', JStr ''OU=x''), (''sam_account_name'', JStr ''ada'')]"
  have p: "parseCsv ?input \<noteq> []" by code_simp
  have c: "bulk_submit_call (bulk_read ''OU=x'' ?input bulk_import_start) = Some (Call_directory (Dir_bulkUsers [?u]))"
    by code_simp
  from import_sends_only_known_columns [OF p c, of ?u] c show ?thesis by auto
qed

text \<open>A file with nothing in it is reported as empty and the users read from the file before it
  stay ready to be created: submitting then creates them.\<close>

theorem empty_file_keeps_the_users_before_it:
  assumes "parseCsv input = []"
  shows "bulk_submit_call (bulk_read container input s) = bulk_submit_call s \<and>
         bi_problems (bulk_read container input s) = [''The file is empty.'']"
  using assms by (simp add: bulk_read_def bulk_submit_call_def)

theorem empty_file_keeps_the_users_before_it_witness:
  "bulk_submit_call (bulk_read ''OU=x'' [CHR 0x0A] (bulk_read ''OU=x'' (csv_text [CHR 0x0A] [[''sam_account_name''], [''ada'']]) bulk_import_start))
     \<noteq> None"
proof -
  let ?s = "bulk_read ''OU=x'' (csv_text [CHR 0x0A] [[''sam_account_name''], [''ada'']]) bulk_import_start"
  have e: "parseCsv [CHR 0x0A] = []" by code_simp
  have c: "bulk_submit_call ?s = Some (Call_directory (Dir_bulkUsers [JObj [(''container'', JStr ''OU=x''), (''sam_account_name'', JStr ''ada'')]]))"
    by code_simp
  from empty_file_keeps_the_users_before_it [OF e, of "''OU=x''" ?s] c show ?thesis by simp
qed

end
