(* ===== verification/Widgets.thy ===== *)
theory Widgets
  imports Prelude
begin

text \<open>
  The form widgets: the drawn drop-down of \<^verbatim>\<open>components/Select.tsx\<close>, the searching one of
  \<^verbatim>\<open>components/SearchSelect.tsx\<close>, the dialog of \<^verbatim>\<open>components/Modal.tsx\<close> and the stepped form of
  \<^verbatim>\<open>components/Wizard.tsx\<close>, each as its state and what an event makes of it. Where a widget calls its
  \<^verbatim>\<open>onChange\<close> or \<^verbatim>\<open>onSubmit\<close>, the step gives what it is called with.
\<close>

section \<open>Select\<close>

record option_item =
  o_value :: string
  o_text :: string
  o_disabled :: bool

record select_state =
  sel_open :: bool
  sel_active :: int

definition select_start :: select_state where
  "select_start = \<lparr>sel_open = False, sel_active = 0\<rparr>"

fun find_index :: "('a \<Rightarrow> bool) \<Rightarrow> 'a list \<Rightarrow> int" where
  "find_index p [] = -1"
| "find_index p (x # xs) = (if p x then 0 else (let i = find_index p xs in if i < 0 then -1 else i + 1))"

definition selected_index :: "option_item list \<Rightarrow> string \<Rightarrow> int" where
  "selected_index items v = find_index (\<lambda>x. o_value x = v) items"

definition item_at :: "option_item list \<Rightarrow> int \<Rightarrow> option_item option" where
  "item_at items i = (if 0 \<le> i \<and> nat i < length items then Some (items ! nat i) else None)"

definition disabled_at :: "option_item list \<Rightarrow> int \<Rightarrow> bool" where
  "disabled_at items i = (case item_at items i of None \<Rightarrow> True | Some o' \<Rightarrow> o_disabled o')"

text \<open>The loop of \<^verbatim>\<open>move\<close>, at most once round the list.\<close>

fun move_tries :: "nat \<Rightarrow> option_item list \<Rightarrow> int \<Rightarrow> int \<Rightarrow> int" where
  "move_tries 0 items step i = i"
| "move_tries (Suc tries) items step i =
     (let j = (i + step + int (length items)) mod int (length items)
      in if \<not> disabled_at items j then j else move_tries tries items step j)"

definition move :: "option_item list \<Rightarrow> int \<Rightarrow> select_state \<Rightarrow> select_state" where
  "move items step s = s\<lparr>sel_active := move_tries (length items) items step (sel_active s)\<rparr>"

definition choose_item :: "option_item list \<Rightarrow> string \<Rightarrow> int \<Rightarrow> select_state \<Rightarrow> select_state \<times> string option" where
  "choose_item items v i s =
     (case item_at items i of
        None \<Rightarrow> (s, None)
      | Some o' \<Rightarrow>
          if o_disabled o' then (s, None)
          else (s\<lparr>sel_open := False\<rparr>, if o_value o' \<noteq> v then Some (o_value o') else None))"

datatype (plugins only: code size) key = KEnter | KSpace | KDown | KUp | KHome | KEnd | KEscape | KBackspace | KOther

definition open_at_value :: "option_item list \<Rightarrow> string \<Rightarrow> select_state \<Rightarrow> select_state" where
  "open_at_value items v s =
     s\<lparr>sel_active := (let i = selected_index items v in if i < 0 then 0 else i), sel_open := True\<rparr>"

definition select_key :: "option_item list \<Rightarrow> string \<Rightarrow> key \<Rightarrow> select_state \<Rightarrow> select_state \<times> string option" where
  "select_key items v k s =
     (if \<not> sel_open s
      then (if k \<in> {KEnter, KSpace, KDown, KUp} then (open_at_value items v s, None) else (s, None))
      else case k of
        KEscape \<Rightarrow> (s\<lparr>sel_open := False\<rparr>, None)
      | KDown \<Rightarrow> (move items 1 s, None)
      | KUp \<Rightarrow> (move items (-1) s, None)
      | KHome \<Rightarrow> (s\<lparr>sel_active := 0\<rparr>, None)
      | KEnd \<Rightarrow> (s\<lparr>sel_active := int (length items) - 1\<rparr>, None)
      | KEnter \<Rightarrow> choose_item items v (sel_active s) s
      | KSpace \<Rightarrow> choose_item items v (sel_active s) s
      | _ \<Rightarrow> (s, None))"

datatype (plugins only: code size) select_event = SelectKey key | SelectToggle | SelectHover nat | SelectClick nat | SelectOutside

definition Select :: "option_item list \<Rightarrow> string \<Rightarrow> select_event \<Rightarrow> select_state \<Rightarrow> select_state \<times> string option" where
  "Select items v ev s =
     (case ev of
        SelectKey k \<Rightarrow> select_key items v k s
      | SelectToggle \<Rightarrow> ((open_at_value items v s)\<lparr>sel_open := \<not> sel_open s\<rparr>, None)
      | SelectHover i \<Rightarrow> (if sel_open s \<and> i < length items then s\<lparr>sel_active := int i\<rparr> else s, None)
      | SelectClick i \<Rightarrow> if sel_open s then choose_item items v (int i) s else (s, None)
      | SelectOutside \<Rightarrow> (s\<lparr>sel_open := False\<rparr>, None))"

section \<open>SearchSelect\<close>

record search_option =
  so_value :: string
  so_label :: string
  so_hint :: string
  so_keywords :: string

record search_state =
  ss_open :: bool
  ss_query :: string
  ss_active :: int

definition search_text :: "search_option \<Rightarrow> string" where
  "search_text o' = to_lower (so_label o' @ '' '' @ so_value o' @ '' '' @ so_hint o' @ '' '' @ so_keywords o')"

definition search_shown :: "search_option list \<Rightarrow> bool \<Rightarrow> bool \<Rightarrow> string list \<Rightarrow> string \<Rightarrow> search_option list" where
  "search_shown options multiple allowCustom chosen query =
     (let typed = js_trim query; needle = to_lower typed;
          candidates = (if multiple then filter (\<lambda>x. so_value x \<notin> set chosen) options else options);
          matches = (if needle \<noteq> [] then filter (\<lambda>x. js_includes (search_text x) needle) candidates else candidates)
      in take 200 matches @
         (if allowCustom \<and> needle \<noteq> [] \<and> typed \<notin> so_value ` set options \<and> typed \<notin> set chosen
          then [\<lparr>so_value = typed, so_label = ''Use '' @ [CHR 0xE2, CHR 0x80, CHR 0x9C] @ typed @ [CHR 0xE2, CHR 0x80, CHR 0x9D], so_hint = [], so_keywords = []\<rparr>] else []))"

text \<open>What is chosen afterwards: one more of several, or the one.\<close>

definition search_pick :: "bool \<Rightarrow> string list \<Rightarrow> search_option \<Rightarrow> string list" where
  "search_pick multiple chosen o' = (if multiple then chosen @ [so_value o'] else [so_value o'])"

definition search_remove :: "bool \<Rightarrow> string list \<Rightarrow> string \<Rightarrow> string list" where
  "search_remove multiple chosen item = (if multiple then filter (\<lambda>e. e \<noteq> item) chosen else [])"

text \<open>A change of the query or of whether the list is open puts the mark back on the first row.\<close>

definition search_reset :: "search_state \<Rightarrow> search_state \<Rightarrow> search_state" where
  "search_reset old new =
     (if ss_query new \<noteq> ss_query old \<or> ss_open new \<noteq> ss_open old then new\<lparr>ss_active := 0\<rparr> else new)"

definition search_picked :: "bool \<Rightarrow> search_state \<Rightarrow> search_state" where
  "search_picked multiple s = (if multiple then s\<lparr>ss_query := []\<rparr> else s\<lparr>ss_open := False, ss_query := []\<rparr>)"

datatype (plugins only: code size) search_event =
  SearchToggle | SearchOutside | SearchQuery string | SearchKey key | SearchHover nat | SearchClick nat | SearchClear | SearchDrop string

definition SearchSelect ::
  "search_option list \<Rightarrow> bool \<Rightarrow> bool \<Rightarrow> search_event \<Rightarrow> search_state \<times> string list \<Rightarrow> search_state \<times> string list" where
  "SearchSelect options multiple allowCustom ev st =
     (let (s, chosen) = st; shown = search_shown options multiple allowCustom chosen (ss_query s);
          pick = (\<lambda>i. if 0 \<le> i \<and> nat i < length shown
                      then (search_reset s (search_picked multiple s), search_pick multiple chosen (shown ! nat i))
                      else (s, chosen)) in
      case ev of
        SearchToggle \<Rightarrow> (search_reset s (s\<lparr>ss_open := \<not> ss_open s\<rparr>), chosen)
      | SearchOutside \<Rightarrow> (search_reset s (s\<lparr>ss_open := False\<rparr>), chosen)
      | SearchQuery q \<Rightarrow> (if ss_open s then search_reset s (s\<lparr>ss_query := q\<rparr>) else s, chosen)
      | SearchHover i \<Rightarrow> (if ss_open s \<and> i < length shown then s\<lparr>ss_active := int i\<rparr> else s, chosen)
      | SearchClear \<Rightarrow> if ss_open s \<and> \<not> multiple \<and> ss_query s = [] then (search_reset s (s\<lparr>ss_open := False\<rparr>), []) else (s, chosen)
      | SearchClick i \<Rightarrow> if ss_open s then pick (int i) else (s, chosen)
      | SearchDrop item \<Rightarrow> (s, search_remove multiple chosen item)
      | SearchKey k \<Rightarrow>
          if \<not> ss_open s then
            (if k \<in> {KEnter, KSpace, KDown} then (search_reset s (s\<lparr>ss_open := True\<rparr>), chosen) else (s, chosen))
          else (case k of
             KEscape \<Rightarrow> (search_reset s (s\<lparr>ss_open := False\<rparr>), chosen)
           | KDown \<Rightarrow> (s\<lparr>ss_active := min (ss_active s + 1) (int (length shown) - 1)\<rparr>, chosen)
           | KUp \<Rightarrow> (s\<lparr>ss_active := max (ss_active s - 1) 0\<rparr>, chosen)
           | KEnter \<Rightarrow> pick (ss_active s)
           | KBackspace \<Rightarrow>
               if multiple \<and> ss_query s = [] \<and> chosen \<noteq> [] then (s, search_remove multiple chosen (last chosen)) else (s, chosen)
           | _ \<Rightarrow> (s, chosen)))"

text \<open>\<^verbatim>\<open>SearchClear\<close> is the row of the empty value, drawn where the drop-down has a name for it.\<close>

section \<open>Dialogs\<close>

text \<open>The message of the last attempt is shown until somebody changes a field, and again when the
  next attempt's message differs from it (\<^verbatim>\<open>null\<close> while it runs).\<close>

record dialog =
  dg_error :: "string option"
  dg_stale :: bool

definition dialog_start :: dialog where
  "dialog_start = \<lparr>dg_error = None, dg_stale = False\<rparr>"

definition dialog_input :: "dialog \<Rightarrow> dialog" where
  "dialog_input d = d\<lparr>dg_stale := True\<rparr>"

definition dialog_error :: "string option \<Rightarrow> dialog \<Rightarrow> dialog" where
  "dialog_error e d = (if e = dg_error d then d else \<lparr>dg_error = e, dg_stale = False\<rparr>)"

definition dialog_alert :: "dialog \<Rightarrow> string option" where
  "dialog_alert d = (case dg_error d of None \<Rightarrow> None | Some e \<Rightarrow> if e = [] \<or> dg_stale d then None else Some e)"

text \<open>An attempt as the pages make it: the message is cleared, and set again if it fails.\<close>

definition dialog_attempt :: "string option \<Rightarrow> dialog \<Rightarrow> dialog" where
  "dialog_attempt outcome d = dialog_error outcome (dialog_error None d)"

record wizard =
  wz_index :: nat
  wz_flat :: bool

definition wizard_start :: wizard where
  "wizard_start = \<lparr>wz_index = 0, wz_flat = False\<rparr>"

text \<open>A step is why it cannot be left yet; the empty text is no reason.\<close>

definition wizard_blocking :: "string list \<Rightarrow> string option" where
  "wizard_blocking steps = find (\<lambda>i. i \<noteq> []) steps"

definition wizard_last :: "string list \<Rightarrow> wizard \<Rightarrow> bool" where
  "wizard_last steps w = (int (length steps) - 1 \<le> int (wz_index w))"

datatype (plugins only: code size) wizard_event = WizardSubmit | WizardGo nat | WizardFlat | WizardBack

definition Wizard :: "string list \<Rightarrow> wizard_event \<Rightarrow> wizard \<Rightarrow> wizard \<times> bool" where
  "Wizard steps ev w =
     (case ev of
        WizardSubmit \<Rightarrow>
          if wz_flat w \<or> wizard_last steps w then (w, wizard_blocking steps = None)
          else (w\<lparr>wz_index := wz_index w + 1\<rparr>, False)
      | WizardGo i \<Rightarrow> (if \<not> wz_flat w \<and> i < length steps then w\<lparr>wz_index := i\<rparr> else w, False)
      | WizardFlat \<Rightarrow> (w\<lparr>wz_flat := \<not> wz_flat w\<rparr>, False)
      | WizardBack \<Rightarrow> (if \<not> wz_flat w \<and> 0 < wz_index w then w\<lparr>wz_index := wz_index w - 1\<rparr> else w, False))"

section \<open>The keyboard finds an enabled option\<close>

text \<open>Where the mark is after so many moves.\<close>

definition hop :: "option_item list \<Rightarrow> int \<Rightarrow> int \<Rightarrow> nat \<Rightarrow> int" where
  "hop items step i n = (i + int n * step) mod int (length items)"

lemma hop_step:
  assumes "items \<noteq> []"
  shows "(hop items step i n + step + int (length items)) mod int (length items) = hop items step i (Suc n)"
proof -
  have "(hop items step i n + step + int (length items)) mod int (length items) = (hop items step i n + step) mod int (length items)"
    by simp
  also have "\<dots> = (i + int n * step + step) mod int (length items)"
    by (simp add: hop_def mod_add_left_eq)
  also have "\<dots> = hop items step i (Suc n)" by (simp add: hop_def algebra_simps)
  finally show ?thesis .
qed

lemma move_tries_from:
  assumes "items \<noteq> []"
  shows "move_tries tries items step (hop items step i n) =
         (case find (\<lambda>m. \<not> disabled_at items (hop items step i m)) [Suc n..<Suc n + tries] of
            Some m \<Rightarrow> hop items step i m | None \<Rightarrow> hop items step i (n + tries))"
proof (induction tries arbitrary: n)
  case 0
  then show ?case by simp
next
  case (Suc tries)
  have "[Suc n..<Suc n + Suc tries] = Suc n # [Suc (Suc n)..<Suc (Suc n) + tries]"
    by (simp add: upt_rec)
  then show ?case
    using Suc.IH [of "Suc n"] hop_step [OF assms, of step i n] by (simp add: Let_def split: option.split del: upt_Suc)
qed

lemma hop_covers:
  assumes "step = 1 \<or> step = -1" and "0 \<le> k" and "k < int (length items)"
  shows "\<exists>m \<in> {1..length items}. hop items step i m = k"
proof -
  define n where "n = int (length items)"
  have n: "0 < n" using assms(2,3) unfolding n_def by linarith
  define d where "d = (if (step * (k - i)) mod n = 0 then n else (step * (k - i)) mod n)"
  have d: "1 \<le> d" "d \<le> n"
  proof -
    have "0 \<le> (step * (k - i)) mod n" "(step * (k - i)) mod n < n"
      using n by (rule pos_mod_sign, rule pos_mod_bound)
    then show "1 \<le> d" "d \<le> n" using n by (auto simp: d_def simp del: pos_mod_sign pos_mod_bound)
  qed
  have "d mod n = (step * (k - i)) mod n" by (simp add: d_def)
  then have "(i + d * step) mod n = (i + step * (k - i) * step) mod n"
    by (metis mod_add_right_eq mod_mult_left_eq)
  also have "step * (k - i) * step = k - i" using assms(1) by auto
  finally have "(i + d * step) mod n = k" using assms(2,3) by (simp add: n_def)
  then have "hop items step i (nat d) = k" using d by (simp add: hop_def n_def)
  moreover have "nat d \<in> {1..length items}" using d by (auto simp: n_def)
  ultimately show ?thesis by blast
qed

lemma move_tries_start: "items \<noteq> [] \<Longrightarrow> move_tries (length items) items step i =
   move_tries (length items) items step (hop items step i 0)"
proof -
  assume ne: "items \<noteq> []"
  then obtain t where t: "length items = Suc t" by (cases items) auto
  have "(i + step + int (length items)) mod int (length items) = (hop items step i 0 + step + int (length items)) mod int (length items)"
    by (simp add: hop_def mod_simps)
  then show ?thesis by (simp only: t move_tries.simps)
qed

text \<open>A failed attempt's message is shown when it comes, also the same one again; a change hides it.\<close>

lemma dialog_shows_the_last_attempt:
  "dialog_alert (dialog_attempt outcome d) = (case outcome of None \<Rightarrow> None | Some e \<Rightarrow> if e = [] then None else Some e)"
  "dialog_alert (dialog_input d) = None"
  by (auto simp: dialog_alert_def dialog_attempt_def dialog_error_def dialog_input_def split: option.splits)

section \<open>Properties\<close>

text \<open>An arrow key moves the mark to the nearest option that can be chosen in its direction, round
  the end of the list if need be: the options it passes are all disabled, and it finds one whenever the
  list has one.\<close>

theorem arrow_finds_nearest_enabled:
  assumes "step = 1 \<or> step = -1" and "k < length items" and "\<not> o_disabled (items ! k)"
  shows "\<exists>m \<in> {1..length items}.
           sel_active (move items step s) = (sel_active s + int m * step) mod int (length items) \<and>
           \<not> disabled_at items (sel_active (move items step s)) \<and>
           (\<forall>j \<in> {1..<m}. disabled_at items ((sel_active s + int j * step) mod int (length items)))"
proof -
  have ne: "items \<noteq> []" using assms(2) by auto
  let ?i = "sel_active s"
  let ?ok = "\<lambda>m. \<not> disabled_at items (hop items step ?i m)"
  obtain m0 where m0: "m0 \<in> {1..length items}" "hop items step ?i m0 = int k"
    using hop_covers [OF assms(1), of "int k" items ?i] assms(2) by auto
  have "?ok m0" using m0(2) assms(2,3) by (simp add: disabled_at_def item_at_def)
  then obtain m where m: "find ?ok [Suc 0..<Suc 0 + length items] = Some m"
    using m0(1) by (cases "find ?ok [Suc 0..<Suc 0 + length items]") (auto simp: find_None_iff simp del: upt_Suc)
  have at: "[Suc 0..<Suc 0 + length items] ! q = Suc q" if "q < length items" for q
    using that by (simp del: upt_Suc)
  obtain p where p: "p < length items" "?ok m" "m = Suc p" "\<forall>j < p. \<not> ?ok (Suc j)"
  proof -
    from m obtain p where q: "p < length [Suc 0..<Suc 0 + length items]" "?ok ([Suc 0..<Suc 0 + length items] ! p)"
        "m = [Suc 0..<Suc 0 + length items] ! p" "\<forall>j < p. \<not> ?ok ([Suc 0..<Suc 0 + length items] ! j)"
      unfolding find_Some_iff by blast
    have len: "p < length items" using q(1) by (simp del: upt_Suc)
    have "\<forall>j < p. \<not> ?ok (Suc j)" using q(4) len by (metis at less_trans)
    then show thesis using that [of p] q(2,3) at [OF len] len by simp
  qed
  have "sel_active (move items step s) = move_tries (length items) items step (hop items step ?i 0)"
    using move_tries_start [OF ne] by (simp add: move_def)
  also have "\<dots> = hop items step ?i m"
    using move_tries_from [OF ne, of "length items" step ?i 0] m by (simp del: upt_Suc)
  finally have "sel_active (move items step s) = hop items step ?i m" .
  moreover have "m \<in> {1..length items}" using p by simp
  moreover have "\<forall>j \<in> {1..<m}. disabled_at items (hop items step ?i j)"
  proof
    fix j assume "j \<in> {1..<m}"
    then have "j - 1 < p" "j = Suc (j - 1)" using p(3) by auto
    then show "disabled_at items (hop items step ?i j)" using p(4) by metis
  qed
  ultimately show ?thesis using p(2) by (auto simp: hop_def)
qed

theorem arrow_finds_nearest_enabled_witness:
  "sel_active (move [\<lparr>o_value = ''a'', o_text = ''a'', o_disabled = False\<rparr>, \<lparr>o_value = ''b'', o_text = ''b'', o_disabled = True\<rparr>]
     1 \<lparr>sel_open = True, sel_active = 0\<rparr>) = 0"
proof -
  let ?items = "[\<lparr>o_value = ''a'', o_text = ''a'', o_disabled = False\<rparr>, \<lparr>o_value = ''b'', o_text = ''b'', o_disabled = True\<rparr>]"
  let ?s = "\<lparr>sel_open = True, sel_active = 0\<rparr>"
  have "\<exists>m \<in> {1..length ?items}. sel_active (move ?items 1 ?s) = (sel_active ?s + int m * 1) mod int (length ?items) \<and>
           \<not> disabled_at ?items (sel_active (move ?items 1 ?s)) \<and>
           (\<forall>j \<in> {1..<m}. disabled_at ?items ((sel_active ?s + int j * 1) mod int (length ?items)))"
    by (rule arrow_finds_nearest_enabled [where k = 0]) simp_all
  then obtain m where m: "m \<in> {1..length ?items}"
      "sel_active (move ?items 1 ?s) = (sel_active ?s + int m * 1) mod int (length ?items)"
      "\<not> disabled_at ?items (sel_active (move ?items 1 ?s))" by blast
  have one: "disabled_at ?items 1" by (simp add: disabled_at_def item_at_def)
  have v: "sel_active (move ?items 1 ?s) = int m mod 2" using m(2) by simp
  have "m \<noteq> 1"
  proof
    assume "m = 1"
    then have "sel_active (move ?items 1 ?s) = 1" using v by simp
    then show False using m(3) one by simp
  qed
  then have "m = 2" using m(1) by simp
  then show ?thesis using v by simp
qed

text \<open>A drop-down gives only what it offers: whatever event makes it call \<open>onChange\<close>, the value is
  that of an enabled option of the list, it is not the value already there, and the list closes.\<close>

theorem select_gives_an_offered_value:
  assumes "Select items v ev s = (s', Some w)"
  shows "(\<exists>o' \<in> set items. o_value o' = w \<and> \<not> o_disabled o') \<and> w \<noteq> v \<and> sel_open s \<and> \<not> sel_open s'"
proof -
  have c: "(\<exists>o' \<in> set items. o_value o' = w \<and> \<not> o_disabled o') \<and> w \<noteq> v \<and> \<not> sel_open s'"
    if "choose_item items v i s = (s', Some w)" for i
    using that by (auto simp: choose_item_def item_at_def split: option.splits if_splits)
  show ?thesis
    using assms c by (auto simp: Select_def select_key_def split: select_event.splits key.splits if_splits)
qed

theorem select_gives_an_offered_value_witness:
  "Select [\<lparr>o_value = ''b'', o_text = ''B'', o_disabled = False\<rparr>] ''a'' (SelectKey KEnter) \<lparr>sel_open = True, sel_active = 0\<rparr>
     = (\<lparr>sel_open = False, sel_active = 0\<rparr>, Some ''b'') \<and> ''b'' \<noteq> ''a''"
proof -
  have e: "Select [\<lparr>o_value = ''b'', o_text = ''B'', o_disabled = False\<rparr>] ''a'' (SelectKey KEnter) \<lparr>sel_open = True, sel_active = 0\<rparr>
     = (\<lparr>sel_open = False, sel_active = 0\<rparr>, Some ''b'')" by code_simp
  from select_gives_an_offered_value [OF e] e show ?thesis by blast
qed

text \<open>A searching list of several never holds a value twice, whatever is typed, clicked or pressed,
  and what it takes is an option of its list or, where that is allowed, the text typed, without its
  blanks.\<close>

theorem search_keeps_values_apart:
  assumes "distinct chosen" and "SearchSelect options True allowCustom ev (s, chosen) = (s', chosen')"
  shows "distinct chosen' \<and>
         set chosen' \<subseteq> set chosen \<union> so_value ` set options \<union> (if allowCustom then {js_trim (ss_query s)} else {})"
proof -
  let ?shown = "search_shown options True allowCustom chosen (ss_query s)"
  have shown: "so_value o' \<notin> set chosen \<and> so_value o' \<in> so_value ` set options \<union> (if allowCustom then {js_trim (ss_query s)} else {})"
    if "o' \<in> set ?shown" for o'
    using that by (auto simp: search_shown_def Let_def dest: in_set_takeD split: if_splits)
  have pick: "distinct (search_pick True chosen (?shown ! i)) \<and>
      set (search_pick True chosen (?shown ! i)) \<subseteq> set chosen \<union> so_value ` set options \<union> (if allowCustom then {js_trim (ss_query s)} else {})"
    if "i < length ?shown" for i
    using assms(1) shown [OF nth_mem [OF that]] by (auto simp: search_pick_def)
  have drop: "distinct (search_remove True chosen item) \<and> set (search_remove True chosen item) \<subseteq> set chosen" for item
    using assms(1) by (auto simp: search_remove_def)
  have "chosen' = chosen \<or> (\<exists>i < length ?shown. chosen' = search_pick True chosen (?shown ! i)) \<or>
        (\<exists>item. chosen' = search_remove True chosen item)"
    using assms(2) by (auto simp: SearchSelect_def Let_def split: search_event.splits key.splits if_splits)
  then show ?thesis using assms(1) pick drop by blast
qed

theorem search_keeps_values_apart_witness:
  "snd (SearchSelect [] True True (SearchKey KEnter) (\<lparr>ss_open = True, ss_query = '' en_ZA '', ss_active = 0\<rparr>, [''de_CH'']))
     = [''de_CH'', ''en_ZA''] \<and> distinct [''de_CH'', ''en_ZA'']"
proof -
  have d: "distinct [''de_CH'']" by simp
  have e: "SearchSelect [] True True (SearchKey KEnter) (\<lparr>ss_open = True, ss_query = '' en_ZA '', ss_active = 0\<rparr>, [''de_CH''])
     = (\<lparr>ss_open = True, ss_query = [], ss_active = 0\<rparr>, [''de_CH'', ''en_ZA''])" by code_simp
  from search_keeps_values_apart [OF d e] have "distinct [''de_CH'', ''en_ZA'']" by (rule conjunct1)
  with e show ?thesis by (metis snd_conv)
qed

text \<open>A stepped form is submitted only from its last step or laid out flat, and only when no step,
  shown or not, has something missing; until then submitting takes the next step, and no event leaves
  the steps there are.\<close>

theorem wizard_submits_only_when_complete:
  assumes "wz_index w < length steps" and "Wizard steps ev w = (w', submitted)"
  shows "wz_index w' < length steps \<and>
         (submitted \<longleftrightarrow> ev = WizardSubmit \<and> (wz_flat w \<or> Suc (wz_index w) = length steps) \<and> (\<forall>i \<in> set steps. i = [])) \<and>
         (ev = WizardSubmit \<and> \<not> wz_flat w \<and> Suc (wz_index w) < length steps \<longrightarrow> wz_index w' = Suc (wz_index w))"
  using assms
  by (cases ev) (auto simp: Wizard_def wizard_last_def wizard_blocking_def find_None_iff split: if_splits)

theorem wizard_submits_only_when_complete_witness:
  "Wizard [[], ''Name the tunnel''] WizardSubmit \<lparr>wz_index = 1, wz_flat = False\<rparr> = (\<lparr>wz_index = 1, wz_flat = False\<rparr>, False) \<and>
   1 < length [[], ''Name the tunnel'']"
proof -
  let ?w = "\<lparr>wz_index = 1, wz_flat = False\<rparr>"
  have i: "wz_index ?w < length [[], ''Name the tunnel'']" by simp
  have e: "Wizard [[], ''Name the tunnel''] WizardSubmit ?w = (?w, False)" by code_simp
  from wizard_submits_only_when_complete [OF i e] e show ?thesis by simp
qed

end
