(* ===== verification/Pictures.thy ===== *)
theory Pictures
  imports Complex_Main Prelude
begin

text \<open>
  The geometry of pictures: the frame an account's picture is cut in (\<^verbatim>\<open>components/PhotoCropper.tsx\<close>), the
  boot picture made to fit a policy setting and the icon made to fit its square (\<open>readImageAsPng\<close> and
  \<open>iconDataUrl\<close> of \<^verbatim>\<open>components/SettingsEditor.tsx\<close>). Lengths are rational where the source has
  doubles. Drawing and encoding are the browser's: the length of an encoded picture is the argument
  \<open>enc\<close>, a function of the canvas's size.
\<close>

text \<open>\<open>Math.round\<close>\<close>

definition js_round :: "rat \<Rightarrow> int" where
  "js_round x = \<lfloor>x + 1 / 2\<rfloor>"

section \<open>The photo cropper\<close>

definition PHOTO_SIZE :: rat where
  "PHOTO_SIZE = 256"

definition FRAME :: rat where
  "FRAME = 220"

definition limit :: "rat \<Rightarrow> rat" where
  "limit scale = max 0 ((FRAME * scale - FRAME) / 2)"

definition clamp :: "rat \<Rightarrow> rat \<Rightarrow> rat" where
  "clamp value bound = min bound (max (- bound) value)"

definition cover :: "rat \<Rightarrow> rat \<Rightarrow> rat" where
  "cover w h = max 1 (max (w / h) (h / w))"

record placement =
  zoom :: rat
  px :: rat
  py :: rat

record cropper =
  cr_width :: rat
  cr_height :: rat
  cr_place :: placement
  cr_drag :: "(rat \<times> rat) option"

definition crop_start :: "rat \<Rightarrow> rat \<Rightarrow> cropper" where
  "crop_start w h = \<lparr>cr_width = w, cr_height = h, cr_place = \<lparr>zoom = 1, px = 0, py = 0\<rparr>, cr_drag = None\<rparr>"

definition moved :: "rat \<Rightarrow> rat \<Rightarrow> rat \<Rightarrow> placement \<Rightarrow> placement" where
  "moved bounds dx dy p = p\<lparr>px := clamp (px p + dx) bounds, py := clamp (py p + dy) bounds\<rparr>"

text \<open>The slider is a range input from 1 to 4: the browser keeps what it gives between them.\<close>

definition slider :: "rat \<Rightarrow> rat" where
  "slider z = max 1 (min 4 z)"

datatype (plugins only: code size) crop_event = PointerDown rat rat | PointerMove rat rat | PointerUp | ZoomTo rat

definition crop_step :: "crop_event \<Rightarrow> cropper \<Rightarrow> cropper" where
  "crop_step ev s =
     (let c = cover (cr_width s) (cr_height s); p = cr_place s in
      case ev of
        PointerDown x y \<Rightarrow> s\<lparr>cr_drag := Some (x, y)\<rparr>
      | PointerMove x y \<Rightarrow>
          (case cr_drag s of
             None \<Rightarrow> s
           | Some (x0, y0) \<Rightarrow> s\<lparr>cr_place := moved (limit (zoom p * c)) (x - x0) (y - y0) p, cr_drag := Some (x, y)\<rparr>)
      | PointerUp \<Rightarrow> s\<lparr>cr_drag := None\<rparr>
      | ZoomTo z \<Rightarrow> s\<lparr>cr_place := moved (limit (slider z * c)) 0 0 (p\<lparr>zoom := slider z\<rparr>)\<rparr>)"

text \<open>Where the picture is drawn on the canvas that is saved: its left and top edge, its width and height.\<close>

definition render :: "cropper \<Rightarrow> rat \<times> rat \<times> rat \<times> rat" where
  "render s =
     (let ratio = PHOTO_SIZE / FRAME;
          scale = PHOTO_SIZE / min (cr_width s) (cr_height s) * zoom (cr_place s);
          width = cr_width s * scale; height = cr_height s * scale
      in (PHOTO_SIZE / 2 - width / 2 + px (cr_place s) * ratio,
          PHOTO_SIZE / 2 - height / 2 + py (cr_place s) * ratio, width, height))"

section \<open>The boot picture\<close>

definition MAX_SPLASH_DIMENSION :: rat where
  "MAX_SPLASH_DIMENSION = 1920"

definition MAX_ENCODED_LENGTH :: nat where
  "MAX_ENCODED_LENGTH = 7500000"

datatype (plugins only: code size) png = Png int int | NoContext | TooLarge

fun png_tries :: "(int \<Rightarrow> int \<Rightarrow> nat) \<Rightarrow> nat \<Rightarrow> rat \<Rightarrow> rat \<Rightarrow> png" where
  "png_tries enc 0 width height = TooLarge"
| "png_tries enc (Suc left) width height =
     (let cw = max 1 (js_round width); ch = max 1 (js_round height)
      in if enc cw ch \<le> MAX_ENCODED_LENGTH then Png cw ch else png_tries enc left (width / 2) (height / 2))"

definition readImageAsPng :: "(int \<Rightarrow> int \<Rightarrow> nat) \<Rightarrow> bool \<Rightarrow> nat \<Rightarrow> nat \<Rightarrow> png" where
  "readImageAsPng enc has_context naturalWidth naturalHeight =
     (let initialScale = min 1 (MAX_SPLASH_DIMENSION / of_nat (max naturalWidth naturalHeight))
      in if \<not> has_context then NoContext
         else png_tries enc 6 (of_nat naturalWidth * initialScale) (of_nat naturalHeight * initialScale))"

section \<open>The icon\<close>

text \<open>Left and top edge, width and height, on the square of 256.\<close>

definition icon_place :: "nat \<Rightarrow> nat \<Rightarrow> rat \<times> rat \<times> int \<times> int" where
  "icon_place w h =
     (let scale = min (256 / of_nat w) (256 / of_nat h);
          width = js_round (of_nat w * scale); height = js_round (of_nat h * scale)
      in ((256 - of_int width) / 2, (256 - of_int height) / 2, width, height))"

section \<open>Facts\<close>

lemma clamp_bound: "0 \<le> b \<Longrightarrow> \<bar>clamp v b\<bar> \<le> b"
  by (auto simp: clamp_def min_def max_def)

lemma cover_ge: "1 \<le> cover w h"
  by (simp add: cover_def)

lemma limit_ge: "0 \<le> limit s"
  by (simp add: limit_def)

lemma limit_of: "1 \<le> s \<Longrightarrow> limit s = 110 * (s - 1)"
  by (simp add: limit_def FRAME_def max_def field_simps)

lemma slider_range: "1 \<le> slider z \<and> slider z \<le> 4"
  by (simp add: slider_def)

definition crop_ok :: "rat \<Rightarrow> rat \<Rightarrow> cropper \<Rightarrow> bool" where
  "crop_ok w h s \<longleftrightarrow>
     cr_width s = w \<and> cr_height s = h \<and> 1 \<le> zoom (cr_place s) \<and> zoom (cr_place s) \<le> 4 \<and>
     \<bar>px (cr_place s)\<bar> \<le> limit (zoom (cr_place s) * cover w h) \<and>
     \<bar>py (cr_place s)\<bar> \<le> limit (zoom (cr_place s) * cover w h)"

interpretation crop: machine "crop_start w h" crop_step "crop_ok w h" for w h
proof
  show "crop_ok w h (crop_start w h)"
    by (simp add: crop_ok_def crop_start_def limit_ge)
next
  fix s e
  assume "crop_ok w h s"
  then show "crop_ok w h (crop_step e s)"
    using slider_range limit_ge
    by (cases e) (auto simp: crop_ok_def crop_step_def moved_def Let_def clamp_bound split: option.split)
qed

lemma cover_wide: "0 < w \<Longrightarrow> 0 < h \<Longrightarrow> h \<le> w \<Longrightarrow> cover w h = w / h"
proof -
  assume a: "0 < w" "0 < h" "h \<le> w"
  then have "h / w \<le> 1" "1 \<le> w / h" by simp_all
  then show "cover w h = w / h" by (simp add: cover_def max_def)
qed

lemma covered:
  fixes p :: rat
  assumes "\<bar>p\<bar> \<le> 110 * (c - 1)"
  shows "128 - 256 * c / 2 + p * (256 / 220) \<le> 0 \<and> 256 \<le> 128 - 256 * c / 2 + p * (256 / 220) + 256 * c"
proof -
  have "p \<le> 110 * (c - 1)" "- p \<le> 110 * (c - 1)" using assms by (simp_all only: abs_le_iff)
  then have "p * (256 / 220) \<le> 128 * (c - 1)" "- (128 * (c - 1)) \<le> p * (256 / 220)" by (simp_all add: field_simps)
  then show ?thesis by (simp add: algebra_simps)
qed

lemma png_tries_result:
  "png_tries enc left width height =
     (case find (\<lambda>k. enc (max 1 (js_round (width / 2 ^ k))) (max 1 (js_round (height / 2 ^ k))) \<le> MAX_ENCODED_LENGTH) [0..<left] of
        None \<Rightarrow> TooLarge | Some k \<Rightarrow> Png (max 1 (js_round (width / 2 ^ k))) (max 1 (js_round (height / 2 ^ k))))"
proof (induction left arbitrary: width height)
  case 0
  then show ?case by simp
next
  case (Suc left)
  have up: "[0..<Suc left] = 0 # map Suc [0..<left]"
    by (simp only: map_Suc_upt upt_conv_Cons zero_less_Suc)
  have mf: "find P (map Suc ks) = map_option Suc (find (\<lambda>k. P (Suc k)) ks)" for P ks
    by (induction ks) auto
  show ?case
    unfolding up find.simps mf using Suc.IH [of "width / 2" "height / 2"]
    by (auto simp: Let_def option.case_eq_if option.map_sel)
qed

lemma js_round_le: "x \<le> of_int n \<Longrightarrow> js_round x \<le> n"
  by (simp add: js_round_def floor_le_iff)

lemma js_round_int [simp]: "js_round (of_int n) = n"
  by (simp add: js_round_def floor_eq_iff)

text \<open>The side of the canvas at an attempt.\<close>

definition png_side :: "nat \<Rightarrow> nat \<Rightarrow> nat \<Rightarrow> nat \<Rightarrow> int" where
  "png_side w h k n = max 1 (js_round (of_nat n * min 1 (1920 / of_nat (max w h)) / 2 ^ k))"

lemma png_side_range:
  assumes "0 < n" and "n \<le> max w h"
  shows "1 \<le> png_side w h k n \<and> png_side w h k n \<le> 1920"
proof -
  let ?m = "of_nat (max w h) :: rat"
  let ?x = "of_nat n * min 1 (1920 / ?m)"
  have "0 < max w h" using assms by (rule less_le_trans)
  then have m: "0 < ?m" "of_nat n \<le> ?m" using assms by (simp_all only: of_nat_0_less_iff of_nat_le_iff)
  have x: "0 \<le> ?x" using m(1) by (intro mult_nonneg_nonneg) simp_all
  have "?x \<le> of_nat n * (1920 / ?m)" by (rule mult_left_mono) simp_all
  also have "\<dots> \<le> ?m * (1920 / ?m)" using m by (intro mult_right_mono) simp_all
  also have "a * (1920 / a) = 1920" if "0 < a" for a :: rat using that by simp
  note this [OF m(1)]
  finally have le: "?x \<le> 1920" .
  have "?x / 2 ^ k \<le> ?x / 1" using x by (intro divide_left_mono) simp_all
  with le have "?x / 2 ^ k \<le> of_int 1920" by simp
  then have "js_round (?x / 2 ^ k) \<le> 1920" by (rule js_round_le)
  then show ?thesis by (simp add: png_side_def)
qed

lemma readImageAsPng_result:
  "readImageAsPng enc True w h =
     (case find (\<lambda>k. enc (png_side w h k w) (png_side w h k h) \<le> MAX_ENCODED_LENGTH) [0..<6] of
        None \<Rightarrow> TooLarge | Some k \<Rightarrow> Png (png_side w h k w) (png_side w h k h))"
  by (simp only: readImageAsPng_def Let_def png_tries_result png_side_def MAX_SPLASH_DIMENSION_def if_False not_True_eq_False)

text \<open>An icon fits its square, and touches it with its longer side.\<close>

lemma icon_fits:
  assumes "0 < w" and "0 < h"
  shows "case icon_place w h of (left, upper, iw, ih) \<Rightarrow> 0 \<le> left \<and> 0 \<le> upper \<and> (h \<le> w \<longrightarrow> iw = 256) \<and> (w \<le> h \<longrightarrow> ih = 256)"
proof -
  have a: "js_round (of_nat n * min (256 / of_nat n) (256 / of_nat m)) \<le> 256 \<and>
      (m \<le> n \<longrightarrow> js_round (of_nat n * min (256 / of_nat n) (256 / of_nat m)) = 256)" if "0 < n" "0 < m" for n m :: nat
  proof -
    have "of_nat n * min (256 / of_nat n) (256 / of_nat m) \<le> of_nat n * (256 / of_nat n :: rat)"
      by (rule mult_left_mono) simp_all
    also have "\<dots> = of_int 256" using that by simp
    finally have "js_round (of_nat n * min (256 / of_nat n) (256 / of_nat m)) \<le> 256" by (rule js_round_le)
    moreover have "of_nat n * min (256 / of_nat n) (256 / of_nat m) = (of_int 256 :: rat)" if "m \<le> n"
      using that \<open>0 < n\<close> \<open>0 < m\<close> by (simp add: min_def field_simps)
    ultimately show ?thesis using js_round_int [of 256] by metis
  qed
  show ?thesis
    using a [OF assms] a [OF assms(2,1)] by (auto simp: icon_place_def Let_def min.commute)
qed

section \<open>Properties\<close>

text \<open>A boot picture that is stored fits: it is at most 1920 wide and high, no side is empty, its
  encoding is within the limit the control plane sets, and it is the largest of the six sizes tried that
  is; it is refused only when even the sixth is too long.\<close>

theorem boot_picture_fits:
  assumes "0 < w" and "0 < h"
  shows "case readImageAsPng enc True w h of
           Png cw ch \<Rightarrow> enc cw ch \<le> MAX_ENCODED_LENGTH \<and> cw \<in> {1..1920} \<and> ch \<in> {1..1920} \<and>
             (\<exists>k < 6. cw = png_side w h k w \<and> ch = png_side w h k h \<and>
                (\<forall>j < k. MAX_ENCODED_LENGTH < enc (png_side w h j w) (png_side w h j h)))
         | NoContext \<Rightarrow> False
         | TooLarge \<Rightarrow> \<forall>k < 6. MAX_ENCODED_LENGTH < enc (png_side w h k w) (png_side w h k h)"
proof (cases "find (\<lambda>k. enc (png_side w h k w) (png_side w h k h) \<le> MAX_ENCODED_LENGTH) [0..<6]")
  case None
  then have "\<forall>k < 6. MAX_ENCODED_LENGTH < enc (png_side w h k w) (png_side w h k h)"
    unfolding find_None_iff set_upt by (auto simp: not_le)
  then show ?thesis unfolding readImageAsPng_result None by simp
next
  case (Some k)
  then obtain i where i: "i < length [0..<6]" "enc (png_side w h ([0..<6] ! i) w) (png_side w h ([0..<6] ! i) h) \<le> MAX_ENCODED_LENGTH"
      "k = [0..<6] ! i" "\<forall>j < i. \<not> enc (png_side w h ([0..<6] ! j) w) (png_side w h ([0..<6] ! j) h) \<le> MAX_ENCODED_LENGTH"
    unfolding find_Some_iff by blast
  have at: "j < 6 \<Longrightarrow> [0..<6] ! j = j" for j :: nat by (simp only: nth_upt add_0)
  have k: "k < 6" "enc (png_side w h k w) (png_side w h k h) \<le> MAX_ENCODED_LENGTH"
      "\<forall>j < k. MAX_ENCODED_LENGTH < enc (png_side w h j w) (png_side w h j h)"
    using i at by (auto simp only: not_le length_upt diff_zero)
  have "png_side w h k w \<in> {1..1920}" "png_side w h k h \<in> {1..1920}"
    using png_side_range [of w w h k] png_side_range [of h w h k] assms by auto
  with k show ?thesis unfolding readImageAsPng_result Some by auto
qed

theorem boot_picture_fits_witness:
  "case readImageAsPng (\<lambda>w h. nat (w * h * 8)) True 4000 3000 of
     Png cw ch \<Rightarrow> cw \<in> {1..1920} \<and> ch \<in> {1..1920} | NoContext \<Rightarrow> False | TooLarge \<Rightarrow> True"
proof -
  have h: "0 < (4000::nat)" "0 < (3000::nat)" by simp_all
  from boot_picture_fits [OF h, of "\<lambda>w h. nat (w * h * 8)"] show ?thesis
    by (auto split: png.splits)
qed

text \<open>Along the longer side of a picture, and along both of a square one, the frame never leaves the
  picture: whatever is dragged and zoomed, what is saved is covered from edge to edge.\<close>

theorem longer_side_covers_the_frame:
  assumes "0 < w" and "0 < h" and "h \<le> w"
  shows "case render (fold crop_step es (crop_start w h)) of
           (left, upper, width, height) \<Rightarrow> left \<le> 0 \<and> PHOTO_SIZE \<le> left + width \<and>
             (h = w \<longrightarrow> upper \<le> 0 \<and> PHOTO_SIZE \<le> upper + height)"
proof -
  let ?s = "fold crop_step es (crop_start w h)"
  let ?z = "zoom (cr_place ?s)"
  have ok: "crop_ok w h ?s" by (rule crop.inv_run)
  have c: "cover w h = w / h" using assms by (rule cover_wide)
  have ge: "1 \<le> ?z * (w / h)"
  proof -
    have "1 * 1 \<le> ?z * (w / h)" using ok assms by (intro mult_mono) (auto simp: crop_ok_def)
    then show ?thesis by simp
  qed
  have p: "\<bar>px (cr_place ?s)\<bar> \<le> 110 * (?z * (w / h) - 1)" "\<bar>py (cr_place ?s)\<bar> \<le> 110 * (?z * (w / h) - 1)"
    using ok limit_of [OF ge] unfolding crop_ok_def c by simp_all
  have r: "render ?s = (128 - 256 * (?z * (w / h)) / 2 + px (cr_place ?s) * (256 / 220),
      128 - 256 * ?z / 2 + py (cr_place ?s) * (256 / 220), 256 * (?z * (w / h)), 256 * ?z)"
    using ok assms by (simp add: render_def Let_def crop_ok_def PHOTO_SIZE_def FRAME_def min_def field_simps)
  show ?thesis
    unfolding r prod.case PHOTO_SIZE_def
    using covered [OF p(1)] covered [OF p(2)] assms by auto
qed

theorem longer_side_covers_the_frame_witness:
  "case render (fold crop_step [PointerDown 0 0, PointerMove 500 0] (crop_start 400 200)) of
     (left, upper, width, height) \<Rightarrow> left \<le> 0 \<and> PHOTO_SIZE \<le> left + width"
proof -
  have h: "0 < (400 :: rat)" "0 < (200 :: rat)" "200 \<le> (400 :: rat)" by simp_all
  from longer_side_covers_the_frame [OF h, of "[PointerDown 0 0, PointerMove 500 0]"] show ?thesis
    by (auto split: prod.splits)
qed

text \<open>Along the shorter side the bound is that of the longer one, so a picture that is not square can
  be dragged out of the frame: with one drag down at the zoom it opens with, a picture wider than high
  leaves a blank strip at the top of what is saved, the higher the wider it is.\<close>

theorem shorter_side_leaves_the_frame:
  assumes "0 < h" and "h < w" and "limit (w / h) \<le> d"
  shows "fst (snd (render (fold crop_step [PointerDown x y, PointerMove x (y + d), PointerUp] (crop_start w h)))) =
           PHOTO_SIZE / 2 * (w / h - 1) \<and> 0 < PHOTO_SIZE / 2 * (w / h - 1)"
proof -
  have c: "cover w h = w / h" using assms by (intro cover_wide) simp_all
  have ge: "1 < w / h" using assms by simp
  have "clamp d (limit (w / h)) = limit (w / h)"
    using assms(3) limit_ge [of "w / h"] by (simp add: clamp_def)
  then have "py (cr_place (fold crop_step [PointerDown x y, PointerMove x (y + d), PointerUp] (crop_start w h))) = limit (w / h)"
    by (simp add: crop_step_def crop_start_def moved_def Let_def c)
  moreover have "cr_width (fold crop_step [PointerDown x y, PointerMove x (y + d), PointerUp] (crop_start w h)) = w"
    "cr_height (fold crop_step [PointerDown x y, PointerMove x (y + d), PointerUp] (crop_start w h)) = h"
    "zoom (cr_place (fold crop_step [PointerDown x y, PointerMove x (y + d), PointerUp] (crop_start w h))) = 1"
    by (simp_all add: crop_step_def crop_start_def moved_def Let_def)
  moreover have "limit (w / h) = 110 * (w / h - 1)" using ge by (intro limit_of) simp
  ultimately have "fst (snd (render (fold crop_step [PointerDown x y, PointerMove x (y + d), PointerUp] (crop_start w h)))) =
      PHOTO_SIZE / 2 - h * (PHOTO_SIZE / min w h * 1) / 2 + 110 * (w / h - 1) * (PHOTO_SIZE / FRAME)"
    by (simp only: render_def Let_def fst_conv snd_conv)
  also have "\<dots> = PHOTO_SIZE / 2 * (w / h - 1)"
    using assms by (simp add: PHOTO_SIZE_def FRAME_def min_def field_simps)
  finally show ?thesis using ge by (simp add: PHOTO_SIZE_def)
qed

theorem shorter_side_leaves_the_frame_witness:
  "fst (snd (render (fold crop_step [PointerDown 0 0, PointerMove 0 (0 + 110), PointerUp] (crop_start 400 200)))) = 128"
proof -
  have h: "0 < (200 :: rat)" "200 < (400 :: rat)" "limit (400 / 200) \<le> 110" by (simp_all add: limit_def FRAME_def)
  have "PHOTO_SIZE / 2 * (400 / 200 - 1) = 128" by (simp add: PHOTO_SIZE_def)
  with shorter_side_leaves_the_frame [OF h, of 0 0] show ?thesis by metis
qed

end
