(* ===== verification/SignIn.thy ===== *)
theory SignIn
  imports Api
begin

text \<open>
  The application around the pages (\<^verbatim>\<open>App.tsx\<close>) and its sign-in form (\<^verbatim>\<open>Login.tsx\<close>), as one machine whose
  events are what somebody types and the answers of the three calls that keep the session. The state
  holds the client's own (\<open>api_state\<close>), because the session shown and the token sent have to agree.
  The form is mounted while there is no session, so its state starts anew with it.
\<close>

section \<open>The form\<close>

record login_form =
  lf_username :: string
  lf_password :: string
  lf_code :: string
  lf_needsCode :: bool
  lf_error :: "string option"
  lf_busy :: bool

definition login_start :: login_form where
  "login_start = \<lparr>lf_username = [], lf_password = [], lf_code = [], lf_needsCode = False, lf_error = None, lf_busy = False\<rparr>"

text \<open>The browser holds back a form whose required fields are empty, and its button while it is busy.\<close>

definition login_ready :: "login_form \<Rightarrow> bool" where
  "login_ready f \<longleftrightarrow>
     \<not> lf_busy f \<and> lf_username f \<noteq> [] \<and> lf_password f \<noteq> [] \<and> (lf_needsCode f \<longrightarrow> lf_code f \<noteq> [])"

definition login_sends :: "login_form \<Rightarrow> string \<times> init" where
  "login_sends f = api_login (lf_username f) (lf_password f) (if lf_code f \<noteq> [] then JStr (lf_code f) else JUndef)"

definition login_message :: "api_error \<Rightarrow> string" where
  "login_message e = (case e of ApiErr _ m \<Rightarrow> m | _ \<Rightarrow> ''Cannot reach the Open Directory Manager API.'')"

definition asks_for_code :: "string \<Rightarrow> bool" where
  "asks_for_code m \<longleftrightarrow> js_includes (to_lower m) ''authenticator'' \<or> js_includes m ''code''"

definition login_refused :: "api_error \<Rightarrow> login_form \<Rightarrow> login_form" where
  "login_refused e f =
     (let m = login_message e; f' = f\<lparr>lf_error := Some m, lf_busy := False\<rparr>
      in if asks_for_code m then f'\<lparr>lf_needsCode := True, lf_code := []\<rparr>
         else f'\<lparr>lf_password := [], lf_needsCode := False\<rparr>)"

section \<open>The application\<close>

record app =
  ap_session :: jsval
  ap_checking :: bool
  ap_login :: login_form
  ap_api :: api_state

definition app_start :: app where
  "app_start = \<lparr>ap_session = JNull, ap_checking = True, ap_login = login_start, ap_api = api_start\<rparr>"

datatype (plugins only: code size) app_event =
    SessionChecked "response option"
  | TypeUsername string | TypePassword string | TypeCode string
  | SubmitLogin | LoginAnswered "response option"
  | SignedOut "response option"

definition login_shown :: "app \<Rightarrow> bool" where
  "login_shown s \<longleftrightarrow> \<not> ap_checking s \<and> \<not> truthy (ap_session s)"

definition with_login :: "(login_form \<Rightarrow> login_form) \<Rightarrow> app \<Rightarrow> app" where
  "with_login f s = (if login_shown s then s\<lparr>ap_login := f (ap_login s)\<rparr> else s)"

text \<open>A session that is set takes the form away.\<close>

definition set_session :: "jsval \<Rightarrow> app \<Rightarrow> app" where
  "set_session v s = s\<lparr>ap_session := v, ap_login := if truthy v then login_start else ap_login s\<rparr>"

definition app_step :: "app_event \<Rightarrow> app \<Rightarrow> app" where
  "app_step ev s =
     (case ev of
        SessionChecked a \<Rightarrow>
          (if ap_checking s
           then (let (r, api') = then_remember a (ap_api s)
                 in set_session (case r of Inl _ \<Rightarrow> JNull | Inr v \<Rightarrow> v) (s\<lparr>ap_checking := False, ap_api := api'\<rparr>))
           else s)
      | TypeUsername t \<Rightarrow> with_login (\<lambda>f. f\<lparr>lf_username := t\<rparr>) s
      | TypePassword t \<Rightarrow> with_login (\<lambda>f. f\<lparr>lf_password := t\<rparr>) s
      | TypeCode t \<Rightarrow> with_login (\<lambda>f. if lf_needsCode f then f\<lparr>lf_code := t\<rparr> else f) s
      | SubmitLogin \<Rightarrow> with_login (\<lambda>f. if login_ready f then f\<lparr>lf_busy := True, lf_error := None\<rparr> else f) s
      | LoginAnswered a \<Rightarrow>
          (if login_shown s \<and> lf_busy (ap_login s)
           then (let (r, api') = then_remember a (ap_api s); s' = s\<lparr>ap_api := api'\<rparr>
                 in case r of
                      Inl e \<Rightarrow> s'\<lparr>ap_login := login_refused e (ap_login s)\<rparr>
                    | Inr v \<Rightarrow> set_session v (s'\<lparr>ap_login := (ap_login s)\<lparr>lf_busy := False\<rparr>\<rparr>))
           else s)
      | SignedOut a \<Rightarrow>
          (if ap_checking s then s else (s\<lparr>ap_api := snd (logout_done a (ap_api s))\<rparr>)\<lparr>ap_session := JNull\<rparr>))"

text \<open>What is drawn. A shared dashboard and a shared screen are addressed by their token.\<close>

datatype (plugins only: code size) page = SharedView string | Checking | SignInPage | AssistPage string | ShellPage

definition token_char :: "char \<Rightarrow> bool" where
  "token_char c \<longleftrightarrow> is_alnum c \<or> c = CHR ''_'' \<or> c = CHR ''-''"

definition token_at :: "string \<Rightarrow> string \<Rightarrow> string option" where
  "token_at prefix path =
     (let t = drop (length prefix) path
      in if js_startsWith path prefix \<and> 20 \<le> length t \<and> length t \<le> 64 \<and> list_all token_char t then Some t else None)"

definition App :: "string \<Rightarrow> app \<Rightarrow> page" where
  "App path s =
     (case token_at ''/view/'' path of
        Some t \<Rightarrow> SharedView t
      | None \<Rightarrow>
          if ap_checking s then Checking
          else if \<not> truthy (ap_session s) then SignInPage
          else (case token_at ''/assist/'' path of Some t \<Rightarrow> AssistPage t | None \<Rightarrow> ShellPage))"

section \<open>The session and its token\<close>

definition app_ok :: "app \<Rightarrow> bool" where
  "app_ok s \<longleftrightarrow>
     (truthy (ap_session s) \<longrightarrow> member (ap_session s) ''csrf_token'' = Some (csrf (ap_api s)) \<and> ap_login s = login_start) \<and>
     (ap_checking s \<longrightarrow> ap_session s = JNull)"

lemma then_remember_ok:
  "then_remember a s = (Inr v, s') \<Longrightarrow> member v ''csrf_token'' = Some (csrf s')"
  by (auto simp: then_remember_def remember_def split: sum.splits option.splits)

interpretation app: machine app_start app_step app_ok
proof
  show "app_ok app_start" by (simp add: app_ok_def app_start_def)
next
  fix s e
  assume ok: "app_ok s"
  have l: "app_ok (with_login f s)" for f
    using ok by (auto simp: with_login_def app_ok_def login_shown_def)
  have set: "app_ok (set_session v s')"
    if "then_remember a (ap_api s) = (Inr v, api')" "ap_api s' = api'" "\<not> ap_checking s'" for v s' a api'
    using then_remember_ok [OF that(1)] that(2,3) by (auto simp: app_ok_def set_session_def)
  show "app_ok (app_step e s)"
  proof (cases e)
    case (SessionChecked a)
    then show ?thesis
      using ok set by (cases "then_remember a (ap_api s)") (auto simp: app_step_def app_ok_def set_session_def split: sum.split dest: then_remember_ok)
  next
    case (LoginAnswered a)
    then show ?thesis
      using ok set by (cases "then_remember a (ap_api s)") (auto simp: app_step_def app_ok_def login_shown_def set_session_def Let_def split: sum.split dest: then_remember_ok)
  qed (use ok l in \<open>auto simp: app_step_def app_ok_def\<close>)
qed

section \<open>Properties\<close>

text \<open>C40: Over every run of the application, what needs a session is drawn only with one, and then the
  token its changes carry is that session's own; a shared dashboard is drawn whatever the session.\<close>

theorem signed_in_pages_hold_the_sessions_token:
  assumes "s = fold app_step es app_start"
  shows "(App path s = ShellPage \<or> (\<exists>t. App path s = AssistPage t) \<longrightarrow>
            member (ap_session s) ''csrf_token'' = Some (csrf (ap_api s)) \<and> lf_password (ap_login s) = []) \<and>
         (token_at ''/view/'' path = Some t \<longrightarrow> App path s = SharedView t)"
proof -
  have "app_ok s" unfolding assms by (rule app.inv_run)
  then show ?thesis
    by (auto simp: App_def app_ok_def login_start_def split: option.splits if_splits)
qed

theorem signed_in_pages_hold_the_sessions_token_witness:
  "App ''/dns'' (fold app_step [SessionChecked (Some \<lparr>status = 200, statusText = [], json_body = Some (JObj [(''csrf_token'', JStr ''t'')])\<rparr>)] app_start)
     = ShellPage \<and>
   csrf (ap_api (fold app_step [SessionChecked (Some \<lparr>status = 200, statusText = [], json_body = Some (JObj [(''csrf_token'', JStr ''t'')])\<rparr>)] app_start))
     = JStr ''t''"
proof -
  let ?s = "fold app_step [SessionChecked (Some \<lparr>status = 200, statusText = [], json_body = Some (JObj [(''csrf_token'', JStr ''t'')])\<rparr>)] app_start"
  have e: "ap_session ?s = JObj [(''csrf_token'', JStr ''t'')]" and p: "App ''/dns'' ?s = ShellPage" by code_simp+
  have "member (ap_session ?s) ''csrf_token'' = Some (csrf (ap_api ?s))"
    using signed_in_pages_hold_the_sessions_token [OF refl, of "''/dns''"] p by blast
  with e p show ?thesis by simp
qed

text \<open>A second factor asks for its code alone: after an answer that wants one, the name and the password
  stay, and typing the code and submitting sends all three.\<close>

theorem second_factor_asks_for_the_code_alone:
  assumes "login_shown s" and "lf_busy (ap_login s)" and "lf_username (ap_login s) \<noteq> []" and "lf_password (ap_login s) \<noteq> []"
    and "request_result a = Inl e" and "asks_for_code (login_message e)" and "k \<noteq> []"
  shows "let f = ap_login (fold app_step [LoginAnswered a, TypeCode k, SubmitLogin] s)
         in lf_busy f \<and> login_sends f = api_login (lf_username (ap_login s)) (lf_password (ap_login s)) (JStr k)"
  using assms
  by (simp add: app_step_def then_remember_def login_refused_def with_login_def login_shown_def login_ready_def login_sends_def Let_def)

theorem second_factor_asks_for_the_code_alone_witness:
  "lf_busy (ap_login (fold app_step [LoginAnswered (Some \<lparr>status = 401, statusText = [],
       json_body = Some (JObj [(''detail'', JStr ''Enter the code'')])\<rparr>), TypeCode ''123456'', SubmitLogin]
     (app_start\<lparr>ap_checking := False, ap_login := login_start\<lparr>lf_username := ''ann'', lf_password := ''pw'', lf_busy := True\<rparr>\<rparr>)))"
proof -
  let ?s = "app_start\<lparr>ap_checking := False, ap_login := login_start\<lparr>lf_username := ''ann'', lf_password := ''pw'', lf_busy := True\<rparr>\<rparr>"
  let ?a = "Some \<lparr>status = 401, statusText = [], json_body = Some (JObj [(''detail'', JStr ''Enter the code'')])\<rparr>"
  have h: "login_shown ?s" "lf_busy (ap_login ?s)" "lf_username (ap_login ?s) \<noteq> []" "lf_password (ap_login ?s) \<noteq> []"
    by (simp_all add: login_shown_def app_start_def login_start_def)
  have r: "request_result ?a = Inl (ApiErr 401 ''Enter the code'')" by code_simp
  have c: "asks_for_code (login_message (ApiErr 401 ''Enter the code''))" by code_simp
  from second_factor_asks_for_the_code_alone [OF h r c, of "''123456''"] show ?thesis by (simp add: Let_def)
qed

text \<open>A code that is no longer asked for is still sent: when an attempt with a code is refused for another
  reason, or never arrives, the field of the code goes and what was in it stays, so the next attempt sends
  the old code with the new password.\<close>

theorem refused_code_is_sent_again:
  assumes "login_shown s" and "lf_busy (ap_login s)" and "lf_username (ap_login s) \<noteq> []" and "lf_code (ap_login s) \<noteq> []"
    and "request_result a = Inl e" and "\<not> asks_for_code (login_message e)" and "p \<noteq> []"
  shows "let f = ap_login (fold app_step [LoginAnswered a, TypePassword p, SubmitLogin] s)
         in \<not> lf_needsCode f \<and> lf_busy f \<and>
            login_sends f = api_login (lf_username (ap_login s)) p (JStr (lf_code (ap_login s)))"
  using assms
  by (simp add: app_step_def then_remember_def login_refused_def with_login_def login_shown_def login_ready_def login_sends_def Let_def)

theorem refused_code_is_sent_again_witness:
  "login_sends (ap_login (fold app_step [LoginAnswered None, TypePassword ''pw'', SubmitLogin]
     (app_start\<lparr>ap_checking := False, ap_login := login_start\<lparr>lf_username := ''ann'', lf_code := ''123456'', lf_needsCode := True, lf_busy := True\<rparr>\<rparr>)))
     = api_login ''ann'' ''pw'' (JStr ''123456'')"
proof -
  let ?s = "app_start\<lparr>ap_checking := False, ap_login := login_start\<lparr>lf_username := ''ann'', lf_code := ''123456'', lf_needsCode := True, lf_busy := True\<rparr>\<rparr>"
  have h: "login_shown ?s" "lf_busy (ap_login ?s)" "lf_username (ap_login ?s) \<noteq> []" "lf_code (ap_login ?s) \<noteq> []"
    by (simp_all add: login_shown_def app_start_def login_start_def)
  have r: "request_result None = Inl NetworkErr" by (simp add: request_result_def)
  have c: "\<not> asks_for_code (login_message NetworkErr)" by code_simp
  have p: "''pw'' \<noteq> []" by simp
  from refused_code_is_sent_again [OF h r c p] show ?thesis
    by (simp add: Let_def app_start_def login_start_def)
qed

end
