(* ===== verification/Dhcp.thy ===== *)
theory Dhcp
  imports Endpoints JsNumber
begin

text \<open>
  DHCP scopes (\<^verbatim>\<open>pages/Dhcp.tsx\<close>): the form of a scope that is made or changed, the values it fills in by
  itself, an address typed as the part that differs from its network, what is sent, and what the list
  says of a scope.
\<close>

section \<open>A scope and its form\<close>

record dhcp_scope =
  sc_id :: int
  sc_subnet :: string
  sc_pools :: "string list"
  sc_options :: "(string \<times> string) list"
  sc_comment :: string

definition optionOf :: "dhcp_scope option \<Rightarrow> string \<Rightarrow> string" where
  "optionOf scope name =
     (case scope of None \<Rightarrow> [] | Some sc \<Rightarrow> (case map_of (sc_options sc) name of None \<Rightarrow> [] | Some d \<Rightarrow> d))"

record scope_form =
  sf_scope :: "dhcp_scope option"
  sf_subnet :: string
  sf_from :: string
  sf_to :: string
  sf_routers :: string
  sf_dns :: string
  sf_domain :: string
  sf_comment :: string

text \<open>\<open>pools?.[0]?.pool ?? ""\<close>, split at the hyphen.\<close>

definition pool_end :: "nat \<Rightarrow> dhcp_scope option \<Rightarrow> string" where
  "pool_end i scope =
     (let existing = (case scope of None \<Rightarrow> [] | Some sc \<Rightarrow> (case sc_pools sc of [] \<Rightarrow> [] | p # _ \<Rightarrow> p));
          pieces = split_on (CHR ''-'') existing
      in if i < length pieces then js_trim (pieces ! i) else [])"

definition scope_open :: "dhcp_scope option \<Rightarrow> scope_form" where
  "scope_open scope =
     \<lparr>sf_scope = scope, sf_subnet = (case scope of None \<Rightarrow> [] | Some sc \<Rightarrow> sc_subnet sc),
      sf_from = pool_end 0 scope, sf_to = pool_end (Suc 0) scope, sf_routers = optionOf scope ''routers'',
      sf_dns = optionOf scope ''domain-name-servers'', sf_domain = optionOf scope ''domain-name'',
      sf_comment = (case scope of None \<Rightarrow> [] | Some sc \<Rightarrow> sc_comment sc)\<rparr>"

text \<open>The expression of \<open>prefixOf\<close>, read piece by piece: four runs of digits with dots between them, a
  slash, and a run of digits worth 24.\<close>

definition digits :: "string \<Rightarrow> bool" where
  "digits s \<longleftrightarrow> s \<noteq> [] \<and> list_all is_digit s"

definition prefixOf :: "string \<Rightarrow> string" where
  "prefixOf subnet =
     (case split_on (CHR ''/'') (js_trim subnet) of
        [address, bits] \<Rightarrow>
          (case split_on (CHR ''.'') address of
             [a, b, c, d] \<Rightarrow>
               if digits a \<and> digits b \<and> digits c \<and> digits d \<and> digits bits \<and> digits_value bits = 24
               then a @ ''.'' @ b @ ''.'' @ c @ ''.'' else []
           | _ \<Rightarrow> [])
      | _ \<Rightarrow> [])"

section \<open>An address typed on a known network\<close>

definition address_shown :: "string \<Rightarrow> string \<Rightarrow> string" where
  "address_shown prefix value = (if prefix \<noteq> [] \<and> js_startsWith value prefix then drop (length prefix) value else value)"

definition address_typed :: "string \<Rightarrow> string \<Rightarrow> string" where
  "address_typed prefix text =
     (if prefix = [] then text
      else (let typed = js_trim text
            in if CHR ''.'' \<in> set typed \<or> typed = [] then typed else prefix @ typed))"

section \<open>Filling in and saving\<close>

text \<open>\<open>current || value\<close>\<close>

definition or_text :: "string \<Rightarrow> string \<Rightarrow> string" where
  "or_text current v = (if current \<noteq> [] then current else v)"

definition defaults_arrived :: "string list \<Rightarrow> string \<Rightarrow> scope_form \<Rightarrow> scope_form" where
  "defaults_arrived dns_servers domain_name f =
     (if sf_scope f \<noteq> None then f
      else f\<lparr>sf_dns := or_text (sf_dns f) (join_with '', '' dns_servers), sf_domain := or_text (sf_domain f) domain_name\<rparr>)"

text \<open>The effect that runs when the prefix has changed.\<close>

definition prefill :: "scope_form \<Rightarrow> scope_form" where
  "prefill f =
     (let p = prefixOf (sf_subnet f)
      in if p = [] \<or> sf_scope f \<noteq> None then f
         else f\<lparr>sf_routers := or_text (sf_routers f) (p @ ''1''), sf_from := or_text (sf_from f) (p @ ''100''),
                sf_to := or_text (sf_to f) (p @ ''254'')\<rparr>)"

definition set_subnet :: "string \<Rightarrow> scope_form \<Rightarrow> scope_form" where
  "set_subnet t f =
     (if sf_scope f \<noteq> None then f
      else if prefixOf t \<noteq> prefixOf (sf_subnet f) then prefill (f\<lparr>sf_subnet := t\<rparr>) else f\<lparr>sf_subnet := t\<rparr>)"

datatype (plugins only: code size) scope_event =
    SetSubnet string | TypeFrom string | TypeTo string | TypeRouters string
  | SetDns string | SetDomain string | SetComment string | DefaultsArrived "string list" string

definition scope_step :: "scope_event \<Rightarrow> scope_form \<Rightarrow> scope_form" where
  "scope_step ev f =
     (let p = prefixOf (sf_subnet f) in
      case ev of
        SetSubnet t \<Rightarrow> set_subnet t f
      | TypeFrom t \<Rightarrow> f\<lparr>sf_from := address_typed p t\<rparr>
      | TypeTo t \<Rightarrow> f\<lparr>sf_to := address_typed p t\<rparr>
      | TypeRouters t \<Rightarrow> f\<lparr>sf_routers := address_typed p t\<rparr>
      | SetDns t \<Rightarrow> f\<lparr>sf_dns := t\<rparr>
      | SetDomain t \<Rightarrow> f\<lparr>sf_domain := t\<rparr>
      | SetComment t \<Rightarrow> f\<lparr>sf_comment := t\<rparr>
      | DefaultsArrived ds d \<Rightarrow> defaults_arrived ds d f)"

definition scope_pools :: "scope_form \<Rightarrow> string list" where
  "scope_pools f = (if sf_from f \<noteq> [] \<and> sf_to f \<noteq> [] then [sf_from f @ '' - '' @ sf_to f] else [])"

definition scope_options :: "scope_form \<Rightarrow> (string \<times> string) list" where
  "scope_options f =
     filter (\<lambda>(_, data). data \<noteq> [])
       [(''routers'', sf_routers f), (''domain-name-servers'', sf_dns f), (''domain-name'', sf_domain f)]"

definition scope_body :: "scope_form \<Rightarrow> jsobj" where
  "scope_body f =
     [(''subnet'', JStr (sf_subnet f)),
      (''pools'', JArr (map (\<lambda>p. JObj [(''pool'', JStr p)]) (scope_pools f))),
      (''option_data'', JArr (map (\<lambda>(n, d). JObj [(''name'', JStr n), (''data'', JStr d)]) (scope_options f))),
      (''comment'', JStr (sf_comment f))]"

definition scope_save :: "scope_form \<Rightarrow> api_call" where
  "scope_save f =
     (case sf_scope f of
        None \<Rightarrow> Call_dhcp (Dhcp_createScope (JObj (scope_body f)))
      | Some sc \<Rightarrow> Call_dhcp (Dhcp_updateScope (JObj ((''id'', JNum (sc_id sc)) # scope_body f))))"

text \<open>What the wizard of a new scope still waits for, step by step.\<close>

definition scope_steps :: "scope_form \<Rightarrow> string list" where
  "scope_steps f = [if sf_subnet f = [] then ''Give the subnet this scope serves.'' else [], [], []]"

section \<open>What the list says\<close>

definition handsOut :: "dhcp_scope \<Rightarrow> string" where
  "handsOut sc =
     join_with ('' '' @ middle_dot @ '' '')
       (nonempty [optionOf (Some sc) ''domain-name-servers'', optionOf (Some sc) ''domain-name''])"

definition subnet_stat :: "int \<Rightarrow> string \<Rightarrow> string" where
  "subnet_stat id' name = ''subnet['' @ show_int id' @ ''].'' @ name"

definition utilisation :: "(string \<times> nat) list \<Rightarrow> int \<Rightarrow> string" where
  "utilisation stats id' =
     (case (map_of stats (subnet_stat id' ''total-addresses''), map_of stats (subnet_stat id' ''assigned-addresses'')) of
        (Some whole, Some given) \<Rightarrow>
          if whole = 0 then em_dash
          else show_nat given @ '' / '' @ show_nat whole @ '' ('' @ show_nat ((200 * given + whole) div (2 * whole)) @ ''%)''
      | _ \<Rightarrow> em_dash)"

section \<open>Reservations\<close>

record dhcp_lease =
  le_ip :: string
  le_hw :: string
  le_hostname :: string
  le_subnet :: int

record reservation_form =
  rv_hw :: string
  rv_ip :: string
  rv_hostname :: string

definition leases_of :: "int \<Rightarrow> dhcp_lease list \<Rightarrow> dhcp_lease list" where
  "leases_of id' leases = filter (\<lambda>l. le_subnet l = id') leases"

definition from_lease :: "dhcp_lease list \<Rightarrow> string \<Rightarrow> reservation_form \<Rightarrow> reservation_form" where
  "from_lease leases ip f =
     (case find (\<lambda>l. le_ip l = ip) leases of
        None \<Rightarrow> f | Some l \<Rightarrow> \<lparr>rv_hw = le_hw l, rv_ip = le_ip l, rv_hostname = le_hostname l\<rparr>)"

definition reservation_save :: "int \<Rightarrow> reservation_form \<Rightarrow> api_call" where
  "reservation_save id' f =
     Call_dhcp (Dhcp_addReservation (JObj
       [(''subnet_id'', JNum id'), (''hw_address'', JStr (rv_hw f)), (''ip_address'', JStr (rv_ip f)),
        (''hostname'', JStr (rv_hostname f))]))"

section \<open>Facts\<close>

lemma digits_no: "digits s \<Longrightarrow> \<not> is_digit x \<Longrightarrow> x \<notin> set s"
  by (auto simp: digits_def list_all_iff)

lemma digit_marks [simp]: "\<not> is_digit (CHR ''.'')" "\<not> is_digit (CHR ''/'')"
  by (simp_all add: is_digit_def less_eq_char_def)

lemma split_network:
  assumes "digits a" and "digits b" and "digits c" and "digits d" and "digits n"
  shows "split_on (CHR ''/'') (a @ ''.'' @ b @ ''.'' @ c @ ''.'' @ d @ ''/'' @ n) = [a @ ''.'' @ b @ ''.'' @ c @ ''.'' @ d, n]"
    and "split_on (CHR ''.'') (a @ ''.'' @ b @ ''.'' @ c @ ''.'' @ d) = [a, b, c, d]"
proof -
  have slash: "CHR ''/'' \<notin> set (a @ ''.'' @ b @ ''.'' @ c @ ''.'' @ d)" "CHR ''/'' \<notin> set n"
    using assms digits_no by auto
  have "split_on (CHR ''/'') ((a @ ''.'' @ b @ ''.'' @ c @ ''.'' @ d) @ CHR ''/'' # n) = [a @ ''.'' @ b @ ''.'' @ c @ ''.'' @ d, n]"
    using split_append_sep [OF slash(1)] split_no_sep [OF slash(2)] by simp
  then show "split_on (CHR ''/'') (a @ ''.'' @ b @ ''.'' @ c @ ''.'' @ d @ ''/'' @ n) = [a @ ''.'' @ b @ ''.'' @ c @ ''.'' @ d, n]"
    by simp
  show "split_on (CHR ''.'') (a @ ''.'' @ b @ ''.'' @ c @ ''.'' @ d) = [a, b, c, d]"
    using assms digits_no by (simp add: split_append_sep split_no_sep)
qed

lemma prefixOf_network:
  assumes "digits a" and "digits b" and "digits c" and "digits d" and "digits n"
    and "js_trim t = a @ ''.'' @ b @ ''.'' @ c @ ''.'' @ d @ ''/'' @ n"
  shows "prefixOf t = (if digits_value n = 24 then a @ ''.'' @ b @ ''.'' @ c @ ''.'' else [])"
  by (simp only: prefixOf_def assms(6) split_network [OF assms(1-5)] list.case) (use assms in simp)

lemma prefixOf_shape: "prefixOf t \<noteq> [] \<Longrightarrow> \<exists>q. prefixOf t = q @ ''.''"
  by (auto simp: prefixOf_def split: list.splits if_splits intro: exI [where x = "_ @ ''.'' @ _ @ ''.'' @ _"])

lemma js_trim_space_snoc: "is_space c \<Longrightarrow> js_trim (s @ [c]) = js_trim s"
  by (cases "\<forall>x \<in> set s. is_space x") (auto simp: js_trim_def dropWhile_append2 dropWhile_append1 dest: set_dropWhileD)

section \<open>Properties\<close>

text \<open>Typing a /24 network into the form of a new scope fills in the rest of it: the gateway at .1, the
  addresses from .100 to .254, and with the defaults of the domain that is the whole scope that is sent.\<close>

theorem new_scope_fills_in_its_network:
  assumes "digits a" and "digits b" and "digits c" and "digits d" and "digits n" and "digits_value n = 24"
    and "js_trim t = a @ ''.'' @ b @ ''.'' @ c @ ''.'' @ d @ ''/'' @ n" and "dns_servers \<noteq> []" and "[] \<notin> set dns_servers"
    and "domain_name \<noteq> []"
  shows "scope_save (fold scope_step [DefaultsArrived dns_servers domain_name, SetSubnet t] (scope_open None)) =
         (let p = a @ ''.'' @ b @ ''.'' @ c @ ''.''; option = (\<lambda>n d. JObj [(''name'', JStr n), (''data'', JStr d)])
          in Call_dhcp (Dhcp_createScope (JObj
               [(''subnet'', JStr t), (''pools'', JArr [JObj [(''pool'', JStr (p @ ''100 - '' @ p @ ''254''))]]),
                (''option_data'', JArr [option ''routers'' (p @ ''1''),
                   option ''domain-name-servers'' (join_with '', '' dns_servers), option ''domain-name'' domain_name]),
                (''comment'', JStr [])])))"
proof -
  have p: "prefixOf t = a @ ''.'' @ b @ ''.'' @ c @ ''.''" using prefixOf_network [OF assms(1-5,7)] assms(6) by simp
  have e: "prefixOf [] = []" by (simp add: prefixOf_def js_trim_def)
  have j: "join_with '', '' dns_servers \<noteq> []"
    using assms(8,9) by (cases dns_servers; cases "tl dns_servers") auto
  show ?thesis
    using assms(10) j
    by (simp add: scope_step_def set_subnet_def prefill_def defaults_arrived_def scope_open_def p e or_text_def pool_end_def
        optionOf_def scope_save_def scope_body_def scope_pools_def scope_options_def Let_def js_trim_def)
qed

theorem new_scope_fills_in_its_network_witness:
  "\<exists>ps. scope_save (fold scope_step [DefaultsArrived [''10.0.0.2''] ''corp.example'', SetSubnet '' 10.0.0.0/24''] (scope_open None))
     = Call_dhcp (Dhcp_createScope (JObj ps)) \<and> obj_get ps ''pools'' = JArr [JObj [(''pool'', JStr ''10.0.0.100 - 10.0.0.254'')]]"
proof -
  have h: "digits ''10''" "digits ''0''" "digits ''0''" "digits ''0''" "digits ''24''" "digits_value ''24'' = 24"
      "js_trim '' 10.0.0.0/24'' = ''10'' @ ''.'' @ ''0'' @ ''.'' @ ''0'' @ ''.'' @ ''0'' @ ''/'' @ ''24''"
      "[''10.0.0.2''] \<noteq> []" "[] \<notin> set [''10.0.0.2'']" "''corp.example'' \<noteq> []"
    by (code_simp | simp)+
  show ?thesis
    unfolding new_scope_fills_in_its_network [OF h] Let_def by simp
qed

text \<open>An address typed on a known network is the one it looks like: a part without a dot is stored behind
  the network's prefix and shown as it was typed, an address of another network is stored and shown in full,
  and typing what is shown again changes nothing.\<close>

theorem typed_address_reads_back:
  assumes "prefixOf subnet = p" and "p \<noteq> []" and "js_trim text = u" and "u \<noteq> []" and "CHR ''.'' \<in> set u \<longrightarrow> \<not> js_startsWith u p"
  shows "let v = address_typed p text
         in v = (if CHR ''.'' \<in> set u then u else p @ u) \<and> address_shown p v = u \<and> address_typed p (address_shown p v) = v"
proof -
  have "js_trim u = u" using assms(3) js_trim_idem by metis
  then show ?thesis
    using assms(2-5) by (auto simp: address_typed_def address_shown_def Let_def js_startsWith_iff)
qed

theorem typed_address_reads_back_witness:
  "address_typed ''10.0.0.'' '' 50'' = ''10.0.0.50'' \<and> address_shown ''10.0.0.'' ''10.0.0.50'' = ''50''"
proof -
  have h: "prefixOf ''10.0.0.0/24'' = ''10.0.0.''" "''10.0.0.'' \<noteq> []" "js_trim '' 50'' = ''50''" "''50'' \<noteq> []"
      "CHR ''.'' \<in> set ''50'' \<longrightarrow> \<not> js_startsWith ''50'' ''10.0.0.''"
    by (code_simp | simp)+
  have v: "address_typed ''10.0.0.'' '' 50'' = ''10.0.0.50''" by code_simp
  from typed_address_reads_back [OF h] have "address_shown ''10.0.0.'' (address_typed ''10.0.0.'' '' 50'') = ''50''"
    unfolding Let_def by (elim conjE)
  with v show ?thesis by metis
qed

text \<open>Saving an opened scope sends its first range of addresses and three of its options: every other pool
  and every other option of the scope is missing from what replaces it.\<close>

theorem saving_a_scope_drops_other_pools:
  assumes "sc_pools sc = (x @ '' - '' @ y) # rest" and "CHR ''-'' \<notin> set x" and "CHR ''-'' \<notin> set y"
    and "js_trim x = x" and "js_trim y = y" and "x \<noteq> []" and "y \<noteq> []"
  shows "\<exists>ps. scope_save (scope_open (Some sc)) = Call_dhcp (Dhcp_updateScope (JObj ps)) \<and>
           obj_get ps ''pools'' = JArr [JObj [(''pool'', JStr (x @ '' - '' @ y))]] \<and>
           (\<exists>options. obj_get ps ''option_data'' = JArr (map (\<lambda>(n, d). JObj [(''name'', JStr n), (''data'', JStr d)]) options) \<and>
              fst ` set options \<subseteq> {''routers'', ''domain-name-servers'', ''domain-name''})"
proof -
  have s: "split_on (CHR ''-'') (x @ '' - '' @ y) = [x @ '' '', '' '' @ y]"
    using split_append_sep [of "CHR ''-''" "x @ '' ''" "'' '' @ y"] split_no_sep [of "CHR ''-''" "'' '' @ y"] assms(2,3) by simp
  have t: "js_trim (x @ '' '') = x" "js_trim ('' '' @ y) = y"
    using assms(4,5) by (simp_all add: js_trim_space_snoc is_space_def)
  have pe: "pool_end 0 (Some sc) = x" "pool_end (Suc 0) (Some sc) = y"
    unfolding pool_end_def assms(1) option.case list.case Let_def s by (simp_all add: t del: append_Cons)
  have "scope_pools (scope_open (Some sc)) = [x @ '' - '' @ y]"
    using assms(6,7) by (simp add: scope_pools_def scope_open_def pe)
  then show ?thesis
    by (auto simp: scope_save_def scope_open_def scope_body_def scope_options_def intro!: exI [where x = "scope_options (scope_open (Some sc))"])
qed

theorem saving_a_scope_drops_other_pools_witness:
  "\<exists>ps. scope_save (scope_open (Some \<lparr>sc_id = 1, sc_subnet = ''10.0.0.0/24'', sc_pools = [''1 - 2'', ''4 - 5''],
       sc_options = [], sc_comment = []\<rparr>)) = Call_dhcp (Dhcp_updateScope (JObj ps)) \<and>
     obj_get ps ''pools'' = JArr [JObj [(''pool'', JStr ''1 - 2'')]]"
proof -
  let ?sc = "\<lparr>sc_id = 1, sc_subnet = ''10.0.0.0/24'', sc_pools = [''1 - 2'', ''4 - 5''], sc_options = [], sc_comment = []\<rparr>"
  have h: "sc_pools ?sc = (''1'' @ '' - '' @ ''2'') # [''4 - 5'']" "CHR ''-'' \<notin> set ''1''" "CHR ''-'' \<notin> set ''2''"
      "js_trim ''1'' = ''1''" "js_trim ''2'' = ''2''" "''1'' \<noteq> []" "''2'' \<noteq> []"
    by (simp_all add: js_trim_def is_space_def)
  obtain ps where ps: "scope_save (scope_open (Some ?sc)) = Call_dhcp (Dhcp_updateScope (JObj ps))"
      "obj_get ps ''pools'' = JArr [JObj [(''pool'', JStr (''1'' @ '' - '' @ ''2''))]]"
    using saving_a_scope_drops_other_pools [OF h] by blast
  have "''1'' @ '' - '' @ ''2'' = ''1 - 2''" by simp
  with ps show ?thesis by (metis)
qed

end
