(* ===== verification/Monitoring.thy ===== *)
theory Monitoring
  imports Complex_Main "HOL-Library.Multiset" Endpoints JsNumber
begin

text \<open>
  The monitoring pages (\<^verbatim>\<open>pages/Monitor.tsx\<close>, \<^verbatim>\<open>components/monitor/Dashboard.tsx\<close>): how a metric and
  a value are written, the designer of a dashboard as a machine of its events, the changes made to many
  rules at once, groups, the state of a maintenance window, and where a probe's answer is looked up.
  A number a host reports is rational; \<open>toFixed\<close> is exact on it, as it is on the double it stands for.
\<close>

section \<open>Metrics and values\<close>

definition METRIC_LABELS :: "(string \<times> string \<times> string) list" where
  "METRIC_LABELS =
     [(''cpu_percent'', ''Processor busy'', ''%''), (''load1'', ''Load average'', []),
      (''mem_percent'', ''Memory used'', ''%''), (''swap_percent'', ''Swap used'', ''%''),
      (''disk_percent:'', ''Filesystem used'', ''%''), (''disk_free_bytes:'', ''Filesystem free'', ''bytes''),
      (''net_rx_bytes_per_s'', ''Network received'', ''bytes/s''),
      (''net_tx_bytes_per_s'', ''Network sent'', ''bytes/s''),
      (''temp_c'', ''Temperature'', [CHR 0xC2, CHR 0xB0] @ ''C''), (''uptime_seconds'', ''Uptime'', ''s''),
      (''processes'', ''Processes'', []), (''agent_up'', ''Reporting'', []),
      (''probe_up:'', ''Probe answered'', []), (''probe_latency_ms:'', ''Probe latency'', ''ms'')]"

text \<open>The label and the unit.\<close>

definition metricMeta :: "string \<Rightarrow> string \<times> string" where
  "metricMeta metric =
     (let pieces = split_on (CHR '':'') metric; has = CHR '':'' \<in> set metric;
          base = (if has then hd pieces @ '':'' else metric);
          suffix = (if has then join_with '':'' (tl pieces) else []);
          meta = (case map_of METRIC_LABELS base of None \<Rightarrow> (metric, []) | Some m \<Rightarrow> m)
      in (if suffix \<noteq> [] then fst meta @ '' '' @ suffix else fst meta, snd meta))"

text \<open>\<open>x.toFixed(k)\<close>: the nearest multiple of 10 to the minus k, the larger of two.\<close>

definition pad_left :: "nat \<Rightarrow> string \<Rightarrow> string" where
  "pad_left n s = replicate (n - length s) (CHR ''0'') @ s"

definition fixed_digits :: "nat \<Rightarrow> rat \<Rightarrow> nat" where
  "fixed_digits k x = nat \<lfloor>x * 10 ^ k + 1 / 2\<rfloor>"

definition to_fixed :: "nat \<Rightarrow> rat \<Rightarrow> string" where
  "to_fixed k x =
     (let n = fixed_digits k \<bar>x\<bar>; d = pad_left (Suc k) (show_nat n); w = length d - k
      in (if x < 0 then ''-'' else []) @ take w d @ (if k = 0 then [] else ''.'' @ drop w d))"

definition UNITS :: "string list" where
  "UNITS = [''B'', ''KB'', ''MB'', ''GB'', ''TB'']"

text \<open>The loop of \<open>formatValue\<close>: the number shown and its unit, from what is left of \<open>UNITS\<close>.\<close>

fun byte_unit :: "nat \<Rightarrow> rat \<Rightarrow> nat \<Rightarrow> rat \<times> nat" where
  "byte_unit 0 n i = (n, i)"
| "byte_unit (Suc left) n i = (if 1024 \<le> n then byte_unit left (n / 1024) (Suc i) else (n, i))"

definition show_rat_floor :: "rat \<Rightarrow> string" where
  "show_rat_floor x = show_int \<lfloor>x\<rfloor>"

text \<open>\<open>a % b\<close> on numbers: the sign is that of \<open>a\<close>.\<close>

definition js_rem :: "rat \<Rightarrow> rat \<Rightarrow> rat" where
  "js_rem a b = (if a < 0 then - (\<bar>a\<bar> - b * of_int \<lfloor>\<bar>a\<bar> / b\<rfloor>) else a - b * of_int \<lfloor>a / b\<rfloor>)"

definition formatValue :: "rat option \<Rightarrow> string \<Rightarrow> string" where
  "formatValue value unit =
     (case value of
        None \<Rightarrow> em_dash
      | Some v \<Rightarrow>
          if unit = ''bytes'' \<or> unit = ''bytes/s'' then
            (let (n, i) = byte_unit (length UNITS - 1) v 0
             in to_fixed (if i = 0 then 0 else 1) n @ '' '' @ (UNITS ! i) @ (if unit = ''bytes/s'' then ''/s'' else []))
          else if unit = ''s'' then
            (let days = \<lfloor>v / 86400\<rfloor>; hours = \<lfloor>js_rem v 86400 / 3600\<rfloor>
             in if 0 < days then show_int days @ ''d '' @ show_int hours @ ''h''
                else show_int hours @ ''h '' @ show_rat_floor (js_rem v 3600 / 60) @ ''m'')
          else if unit = ''%'' then to_fixed (if 10 \<le> v then 0 else 1) v @ ''%''
          else if unit = [CHR 0xC2, CHR 0xB0] @ ''C'' then to_fixed 0 v @ '' '' @ [CHR 0xC2, CHR 0xB0] @ ''C''
          else if unit = ''ms'' then to_fixed (if 100 \<le> v then 0 else 1) v @ '' ms''
          else to_fixed (if 100 \<le> v then 0 else 2) v)"

text \<open>How long a rule waits, and how often a probe runs.\<close>

definition minutes :: "int \<Rightarrow> string" where
  "minutes seconds =
     (if seconds = 0 then ''at once''
      else if seconds mod 3600 = 0 then show_int (seconds div 3600) @ '' h''
      else show_int ((seconds + 30) div 60) @ '' min'')"

section \<open>The designer\<close>

record widget =
  w_id :: string
  w_type :: string
  w_title :: string
  w_w :: int
  w_h :: int
  w_metric :: string
  w_scope_kind :: string
  w_scope :: string
  w_hours :: jsval
  w_text :: string

definition BLANK_WIDGET :: widget where
  "BLANK_WIDGET = \<lparr>w_id = [], w_type = ''chart'', w_title = [], w_w = 6, w_h = 2, w_metric = ''cpu_percent'',
     w_scope_kind = ''all'', w_scope = [], w_hours = JNum 6, w_text = []\<rparr>"

record designer =
  d_name :: string
  d_channel :: string
  d_widgets :: "widget list"
  d_draft :: "widget option"
  d_index :: "nat option"

definition design_open :: "string \<Rightarrow> string \<Rightarrow> widget list \<Rightarrow> designer" where
  "design_open name channel widgets =
     \<lparr>d_name = name, d_channel = channel, d_widgets = widgets, d_draft = None, d_index = None\<rparr>"

definition swap_at :: "'a list \<Rightarrow> nat \<Rightarrow> nat \<Rightarrow> 'a list" where
  "swap_at xs i j = xs[i := xs ! j, j := xs ! i]"

definition move_widget :: "nat \<Rightarrow> int \<Rightarrow> widget list \<Rightarrow> widget list" where
  "move_widget index by was =
     (let target = int index + by
      in if target < 0 \<or> int (length was) \<le> target then was else swap_at was index (nat target))"

definition drop_widget :: "nat \<Rightarrow> widget list \<Rightarrow> widget list" where
  "drop_widget index was = take index was @ drop (Suc index) was"

definition widget_needs_metric :: "widget \<Rightarrow> bool" where
  "widget_needs_metric w \<longleftrightarrow> (w_type w = ''chart'' \<or> w_type w = ''stat'') \<and> w_metric w = []"

datatype (plugins only: code size) draft_change =
    DraftType string | DraftTitle string | DraftMetric string | DraftScopeKind string | DraftScope string
  | DraftHours string | DraftText string | DraftWidth int | DraftHeight int

definition change_draft :: "draft_change \<Rightarrow> widget \<Rightarrow> widget" where
  "change_draft c w =
     (case c of
        DraftType t \<Rightarrow> w\<lparr>w_type := t\<rparr>
      | DraftTitle t \<Rightarrow> w\<lparr>w_title := t\<rparr>
      | DraftMetric t \<Rightarrow> w\<lparr>w_metric := t\<rparr>
      | DraftScopeKind t \<Rightarrow> w\<lparr>w_scope_kind := t, w_scope := []\<rparr>
      | DraftScope t \<Rightarrow> w\<lparr>w_scope := t\<rparr>
      | DraftHours t \<Rightarrow> w\<lparr>w_hours := js_Number t\<rparr>
      | DraftText t \<Rightarrow> w\<lparr>w_text := t\<rparr>
      | DraftWidth n \<Rightarrow> w\<lparr>w_w := n\<rparr>
      | DraftHeight n \<Rightarrow> w\<lparr>w_h := n\<rparr>)"

text \<open>\<open>fresh\<close> is the name the clock gives a widget that has none yet.\<close>

definition commitDraft :: "string \<Rightarrow> designer \<Rightarrow> designer" where
  "commitDraft fresh s =
     (case d_draft s of
        None \<Rightarrow> s
      | Some draft \<Rightarrow>
          (let w = draft\<lparr>w_id := if w_id draft \<noteq> [] then w_id draft else fresh\<rparr>
           in s\<lparr>d_widgets := (case d_index s of
                  None \<Rightarrow> d_widgets s @ [w]
                | Some i \<Rightarrow> if i < length (d_widgets s) then (d_widgets s)[i := w] else d_widgets s),
                d_draft := None, d_index := None\<rparr>))"

datatype (plugins only: code size) design_event =
    DesignName string | DesignChannel string | MoveUp nat | MoveDown nat | EditWidget nat | RemoveWidget nat
  | AddWidget | ChangeDraft draft_change | CancelDraft | Commit string

definition design_step :: "design_event \<Rightarrow> designer \<Rightarrow> designer" where
  "design_step ev s =
     (let here = (\<lambda>i s'. if i < length (d_widgets s) then s' else s) in
      case ev of
        DesignName t \<Rightarrow> s\<lparr>d_name := t\<rparr>
      | DesignChannel t \<Rightarrow> s\<lparr>d_channel := t\<rparr>
      | MoveUp i \<Rightarrow> here i (s\<lparr>d_widgets := move_widget i (-1) (d_widgets s)\<rparr>)
      | MoveDown i \<Rightarrow> here i (s\<lparr>d_widgets := move_widget i 1 (d_widgets s)\<rparr>)
      | EditWidget i \<Rightarrow> here i (s\<lparr>d_draft := Some (d_widgets s ! i), d_index := Some i\<rparr>)
      | RemoveWidget i \<Rightarrow> here i (s\<lparr>d_widgets := drop_widget i (d_widgets s)\<rparr>)
      | AddWidget \<Rightarrow> s\<lparr>d_draft := Some BLANK_WIDGET, d_index := None\<rparr>
      | ChangeDraft c \<Rightarrow> s\<lparr>d_draft := map_option (change_draft c) (d_draft s)\<rparr>
      | CancelDraft \<Rightarrow> (if d_draft s = None then s else s\<lparr>d_draft := None, d_index := None\<rparr>)
      | Commit fresh \<Rightarrow>
          (case d_draft s of None \<Rightarrow> s | Some w \<Rightarrow> if widget_needs_metric w then s else commitDraft fresh s))"

section \<open>Rules\<close>

text \<open>A rule is the object the API gave. A bulk change is the members it sets, or \<open>None\<close> to delete.\<close>

definition rule_id :: "jsobj \<Rightarrow> string" where
  "rule_id rule = to_string (obj_get rule ''id'')"

definition rule_call :: "jsobj option \<Rightarrow> jsobj \<Rightarrow> api_call" where
  "rule_call change rule =
     (case change of
        None \<Rightarrow> Call_monitor (Mon_deleteRule (rule_id rule))
      | Some ch \<Rightarrow>
          (let merged = obj_spread rule ch
           in Call_monitor (Mon_updateRule (rule_id merged) (JObj (obj_delete ''id'' merged)))))"

definition bulk_rules :: "jsobj list \<Rightarrow> string list \<Rightarrow> jsobj option \<Rightarrow> api_call list" where
  "bulk_rules rules selected change =
     map (rule_call change) (filter (\<lambda>r. rule_id r \<in> set selected) rules)"

text \<open>What is sent until the first refusal; \<open>answers\<close> says which calls are answered well.\<close>

fun sent_until_refused :: "(api_call \<Rightarrow> bool) \<Rightarrow> api_call list \<Rightarrow> api_call list" where
  "sent_until_refused answers [] = []"
| "sent_until_refused answers (c # cs) = c # (if answers c then sent_until_refused answers cs else [])"

definition tick_rule :: "string \<Rightarrow> bool \<Rightarrow> string list \<Rightarrow> string list" where
  "tick_rule id' on selected =
     (if on then (if id' \<in> set selected then selected else selected @ [id']) else filter (\<lambda>x. x \<noteq> id') selected)"

definition tick_all :: "jsobj list \<Rightarrow> bool \<Rightarrow> string list" where
  "tick_all rules on = (if on then remdups (map rule_id rules) else [])"

definition all_ticked :: "jsobj list \<Rightarrow> string list \<Rightarrow> bool" where
  "all_ticked rules selected \<longleftrightarrow> rules \<noteq> [] \<and> list_all (\<lambda>r. rule_id r \<in> set selected) rules"

definition rule_save :: "jsobj \<Rightarrow> api_call" where
  "rule_save editing =
     (let body = JObj (obj_delete ''id'' editing)
      in if truthy (obj_get editing ''id'') then Call_monitor (Mon_updateRule (rule_id editing) body)
         else Call_monitor (Mon_createRule body))"

section \<open>Maintenance and probes\<close>

datatype (plugins only: code size) window_state = Planned | Over | Active

definition window_state :: "int \<Rightarrow> int \<Rightarrow> int \<Rightarrow> window_state" where
  "window_state now starts ends = (if now < starts then Planned else if ends < now then Over else Active)"

text \<open>\<open>host_of\<close> is the host name \<open>new URL\<close> reads, or \<open>None\<close> where it throws.\<close>

definition targetHost :: "(string \<Rightarrow> string option) \<Rightarrow> string \<Rightarrow> string \<Rightarrow> string" where
  "targetHost host_of kind target =
     (if kind \<noteq> ''http'' then to_lower target
      else (case host_of target of None \<Rightarrow> target | Some h \<Rightarrow> to_lower h))"

definition probe_suffix :: "string \<Rightarrow> nat \<Rightarrow> string" where
  "probe_suffix kind port = '':'' @ kind @ (if port \<noteq> 0 then ''-'' @ show_nat port else [])"

datatype (plugins only: code size) probe_answer = NotYet | Answers | NoAnswer

text \<open>\<open>latest\<close> is the hosts with their metrics; the last host of a name counts.\<close>

definition probe_answer ::
  "(string \<times> (string \<times> rat) list) list \<Rightarrow> (string \<Rightarrow> string option) \<Rightarrow> string \<Rightarrow> string \<Rightarrow> nat \<Rightarrow> probe_answer" where
  "probe_answer latest host_of kind target port =
     (case map_of (rev latest) (targetHost host_of kind target) of
        None \<Rightarrow> NotYet
      | Some metrics \<Rightarrow>
          (case map_of metrics (''probe_up'' @ probe_suffix kind port) of
             None \<Rightarrow> NotYet | Some up \<Rightarrow> if up = 1 then Answers else NoAnswer))"

section \<open>The designer's list\<close>

lemma mset_swap_at: "i < length xs \<Longrightarrow> j < length xs \<Longrightarrow> mset (swap_at xs i j) = mset xs"
  unfolding swap_at_def by (rule mset_swap)

lemma move_widget_keeps: "i < length ws \<Longrightarrow> mset (move_widget i by ws) = mset ws"
  by (auto simp: move_widget_def Let_def intro!: mset_swap_at)

lemma drop_widget_nth:
  "i < length ws \<Longrightarrow> drop_widget j ws ! k = (if k < j then ws ! k else ws ! Suc k)" if "k < length (drop_widget j ws)" "j < length ws"
  using that by (auto simp: drop_widget_def nth_append min_def)

lemma length_drop_widget [simp]: "j < length ws \<Longrightarrow> length (drop_widget j ws) = length ws - 1"
  by (simp add: drop_widget_def min_def)

lemma change_draft_id [simp]: "w_id (change_draft c w) = w_id w"
  by (simp add: change_draft_def split: draft_change.split)

lemma change_drafts_id [simp]: "w_id (fold change_draft cs w) = w_id w"
  by (induction cs arbitrary: w) auto

text \<open>What leaves the list and the choice of a widget alone, and what it makes of the draft.\<close>

definition quiet :: "design_event \<Rightarrow> bool" where
  "quiet ev = (case ev of DesignName _ \<Rightarrow> True | DesignChannel _ \<Rightarrow> True | ChangeDraft _ \<Rightarrow> True | _ \<Rightarrow> False)"

definition draft_changes :: "design_event list \<Rightarrow> draft_change list" where
  "draft_changes evs = concat (map (\<lambda>ev. case ev of ChangeDraft c \<Rightarrow> [c] | _ \<Rightarrow> []) evs)"

lemma quiet_run:
  assumes "list_all quiet evs"
  shows "d_widgets (fold design_step evs s) = d_widgets s \<and> d_index (fold design_step evs s) = d_index s \<and>
         d_draft (fold design_step evs s) = map_option (fold change_draft (draft_changes evs)) (d_draft s)"
  using assms
proof (induction evs arbitrary: s)
  case Nil
  then show ?case by (simp add: draft_changes_def option.map_id0 [unfolded id_def] map_option.identity)
next
  case (Cons ev evs)
  then have q: "quiet ev" and r: "list_all quiet evs" by auto
  show ?case
    using q Cons.IH [OF r, of "design_step ev s"]
    by (cases ev) (auto simp: quiet_def design_step_def draft_changes_def option.map_comp comp_def)
qed

lemma edit_run:
  assumes "i < length (d_widgets s)" and "list_all quiet evs"
  shows "d_widgets (fold design_step (EditWidget i # evs) s) = d_widgets s \<and>
         d_index (fold design_step (EditWidget i # evs) s) = Some i \<and>
         d_draft (fold design_step (EditWidget i # evs) s) = Some (fold change_draft (draft_changes evs) (d_widgets s ! i))"
  using quiet_run [OF assms(2), of "design_step (EditWidget i) s"] assms(1) by (simp add: design_step_def)

lemma commit_over:
  assumes "d_draft s = Some w" and "d_index s = Some i" and "w_id w \<noteq> []" and "\<not> widget_needs_metric w"
  shows "d_widgets (design_step (Commit fresh) s) = (if i < length (d_widgets s) then (d_widgets s)[i := w] else d_widgets s)"
  using assms by (simp add: design_step_def commitDraft_def Let_def)

section \<open>Properties\<close>

text \<open>Applying the form of a widget puts the changed widget where it was and touches no other: from
  Edit to Apply the dashboard's name, its channel and the form may change, and the list is as before but
  for that place.\<close>

theorem edited_widget_takes_its_place:
  assumes "i < length (d_widgets s)" and "w_id (d_widgets s ! i) \<noteq> []" and "list_all quiet evs"
    and "\<not> widget_needs_metric (fold change_draft (draft_changes evs) (d_widgets s ! i))"
  shows "d_widgets (fold design_step (EditWidget i # evs @ [Commit fresh]) s) =
         (d_widgets s)[i := fold change_draft (draft_changes evs) (d_widgets s ! i)]"
  using edit_run [OF assms(1,3)] assms commit_over [of "fold design_step (EditWidget i # evs) s" _ i fresh] by simp

theorem edited_widget_takes_its_place_witness:
  "d_widgets (fold design_step [EditWidget 1, ChangeDraft (DraftTitle ''Load''), Commit ''x'']
     (design_open ''Wall'' [] [BLANK_WIDGET\<lparr>w_id := ''a''\<rparr>, BLANK_WIDGET\<lparr>w_id := ''b''\<rparr>])) =
   [BLANK_WIDGET\<lparr>w_id := ''a''\<rparr>, BLANK_WIDGET\<lparr>w_id := ''b'', w_title := ''Load''\<rparr>]"
proof -
  let ?s = "design_open ''Wall'' [] [BLANK_WIDGET\<lparr>w_id := ''a''\<rparr>, BLANK_WIDGET\<lparr>w_id := ''b''\<rparr>]"
  let ?evs = "[ChangeDraft (DraftTitle ''Load'')]"
  have h: "1 < length (d_widgets ?s)" "w_id (d_widgets ?s ! 1) \<noteq> []" "list_all quiet ?evs"
      "\<not> widget_needs_metric (fold change_draft (draft_changes ?evs) (d_widgets ?s ! 1))"
    by (simp_all add: design_open_def quiet_def draft_changes_def change_draft_def widget_needs_metric_def BLANK_WIDGET_def)
  from edited_widget_takes_its_place [OF h, of "''x''"] show ?thesis
    by (simp add: draft_changes_def change_draft_def design_open_def BLANK_WIDGET_def)
qed

text \<open>The form remembers the place of its widget, not the widget: when one above it is removed before
  Apply, the widget that was edited stays as it was, and the change overwrites the one after it, or is
  lost when there is none.\<close>

theorem edit_lands_on_another_widget:
  assumes "j < i" and "i < length (d_widgets s)" and "w_id (d_widgets s ! i) \<noteq> []" and "list_all quiet evs"
    and "\<not> widget_needs_metric (fold change_draft (draft_changes evs) (d_widgets s ! i))"
  shows "let ws = d_widgets s; new = fold change_draft (draft_changes evs) (ws ! i);
             ws' = d_widgets (fold design_step (EditWidget i # evs @ [RemoveWidget j, Commit fresh]) s)
         in ws' ! (i - 1) = ws ! i \<and>
            (if Suc i < length ws then ws' = (drop_widget j ws)[i := new] \<and> drop_widget j ws ! i = ws ! Suc i
             else ws' = drop_widget j ws)"
proof -
  let ?ws = "d_widgets s"
  let ?new = "fold change_draft (draft_changes evs) (?ws ! i)"
  let ?s1 = "fold design_step (EditWidget i # evs) s"
  let ?s2 = "design_step (RemoveWidget j) ?s1"
  have j: "j < length ?ws" using assms(1,2) by simp
  have e: "d_widgets ?s1 = ?ws" "d_index ?s1 = Some i" "d_draft ?s1 = Some ?new"
    using edit_run [OF assms(2,4)] by auto
  have r: "d_widgets ?s2 = drop_widget j ?ws" "d_index ?s2 = Some i" "d_draft ?s2 = Some ?new"
    using e j by (simp_all add: design_step_def)
  have w': "d_widgets (fold design_step (EditWidget i # evs @ [RemoveWidget j, Commit fresh]) s) =
      (if i < length (drop_widget j ?ws) then (drop_widget j ?ws)[i := ?new] else drop_widget j ?ws)"
    using commit_over [OF r(3,2), of fresh] assms(3,5) r(1) by simp
  have before: "drop_widget j ?ws ! (i - 1) = ?ws ! i"
    using assms(1,2) j by (subst drop_widget_nth) auto
  have after: "drop_widget j ?ws ! i = ?ws ! Suc i" if "Suc i < length ?ws"
    using assms(1,2) j that by (subst drop_widget_nth) auto
  show ?thesis
    unfolding Let_def w' using before after assms(1) j by (auto simp: nth_list_update)
qed

theorem edit_lands_on_another_widget_witness:
  "d_widgets (fold design_step [EditWidget 1, ChangeDraft (DraftTitle ''Load''), RemoveWidget 0, Commit ''x'']
     (design_open ''Wall'' [] [BLANK_WIDGET\<lparr>w_id := ''a''\<rparr>, BLANK_WIDGET\<lparr>w_id := ''b''\<rparr>])) ! 0 = BLANK_WIDGET\<lparr>w_id := ''b''\<rparr>"
proof -
  let ?s = "design_open ''Wall'' [] [BLANK_WIDGET\<lparr>w_id := ''a''\<rparr>, BLANK_WIDGET\<lparr>w_id := ''b''\<rparr>]"
  let ?evs = "[ChangeDraft (DraftTitle ''Load'')]"
  have h: "0 < (1::nat)" "1 < length (d_widgets ?s)" "w_id (d_widgets ?s ! 1) \<noteq> []" "list_all quiet ?evs"
      "\<not> widget_needs_metric (fold change_draft (draft_changes ?evs) (d_widgets ?s ! 1))"
    by (simp_all add: design_open_def quiet_def draft_changes_def change_draft_def widget_needs_metric_def BLANK_WIDGET_def)
  have "d_widgets (fold design_step (EditWidget 1 # ?evs @ [RemoveWidget 0, Commit ''x'']) ?s) ! (1 - 1) = d_widgets ?s ! 1"
    using edit_lands_on_another_widget [OF h, of "''x''"] unfolding Let_def by (rule conjunct1)
  then show ?thesis by (simp only: append_Cons append_Nil diff_self_eq_0) (simp add: design_open_def)
qed

text \<open>A change of many rules reaches the ticked ones only, and of each only the members it sets: every
  call that is sent updates a ticked rule, and its body is that rule as it was read, the changed members
  apart; when no call is refused each ticked rule gets its call, in the order of the page.\<close>

theorem bulk_rules_reach_the_ticked:
  assumes "''id'' \<notin> set (obj_keys ch)" and "distinct (obj_keys ch)"
  shows "(\<forall>c \<in> set (sent_until_refused answers (bulk_rules rules selected (Some ch))).
            \<exists>r body. r \<in> set rules \<and> rule_id r \<in> set selected \<and> c = Call_monitor (Mon_updateRule (rule_id r) (JObj body)) \<and>
              (\<forall>k. obj_get body k = (if k = ''id'' then JUndef else if k \<in> set (obj_keys ch) then obj_get ch k else obj_get r k))) \<and>
         ((\<forall>c. answers c) \<longrightarrow> length (sent_until_refused answers (bulk_rules rules selected (Some ch))) =
            length (filter (\<lambda>r. rule_id r \<in> set selected) rules))"
proof -
  have sent: "set (sent_until_refused answers cs) \<subseteq> set cs" for cs
    by (induction cs) auto
  have all: "(\<forall>c. answers c) \<Longrightarrow> sent_until_refused answers cs = cs" for cs
    by (induction cs) auto
  have get: "obj_get (obj_spread r ch) k = (if k \<in> set (obj_keys ch) then obj_get ch k else obj_get r k)" for r k
    using assms(2) by (simp add: obj_spread_get)
  note del = obj_get_delete
  have id: "rule_id (obj_spread r ch) = rule_id r" for r
    using assms(1) by (simp add: rule_id_def get)
  show ?thesis
    using sent [of "bulk_rules rules selected (Some ch)"] all
    by (fastforce simp: bulk_rules_def rule_call_def Let_def id del get)
qed

theorem bulk_rules_reach_the_ticked_witness:
  "length (sent_until_refused (\<lambda>_. True) (bulk_rules [[(''id'', JStr ''r1'')], [(''id'', JStr ''r2'')]] [''r2''] (Some [(''enabled'', JBool False)]))) = 1"
proof -
  let ?rules = "[[(''id'', JStr ''r1'')], [(''id'', JStr ''r2'')]]"
  have h: "''id'' \<notin> set (obj_keys [(''enabled'', JBool False)])" "distinct (obj_keys [(''enabled'', JBool False)])"
    by (simp_all add: obj_keys_def)
  have "length (sent_until_refused (\<lambda>_. True) (bulk_rules ?rules [''r2''] (Some [(''enabled'', JBool False)]))) =
      length (filter (\<lambda>r. rule_id r \<in> set [''r2'']) ?rules)"
    using bulk_rules_reach_the_ticked [OF h, of "\<lambda>_. True" ?rules "[''r2'']"] by blast
  also have "\<dots> = 1" by (simp add: rule_id_def)
  finally show ?thesis .
qed

text \<open>A size is written in the largest unit it fills, and close to what it is: the number shown stands
  for the size itself, is less than 1024 unless in terabytes and at least 1 in any unit above bytes, and
  the digits printed are at most half of their last place away from it.\<close>

theorem shown_size_is_close:
  assumes "0 \<le> v" and "byte_unit (length UNITS - 1) v 0 = (n, i)"
  shows "v = n * 1024 ^ i \<and> i < length UNITS \<and> (0 < i \<longrightarrow> 1 \<le> n) \<and> (i < length UNITS - 1 \<longrightarrow> n < 1024) \<and>
         \<bar>of_nat (fixed_digits k n) / 10 ^ k - n\<bar> \<le> 1 / (2 * 10 ^ k)"
proof -
  have loop: "byte_unit left v0 i0 = (n, i) \<Longrightarrow> 0 \<le> v0 \<Longrightarrow>
      i0 \<le> i \<and> i \<le> i0 + left \<and> v0 = n * 1024 ^ (i - i0) \<and> (i0 < i \<longrightarrow> 1 \<le> n) \<and> 0 \<le> n \<and> (i < i0 + left \<longrightarrow> n < 1024)"
    for left v0 i0
  proof (induction left arbitrary: v0 i0)
    case 0
    then show ?case by simp
  next
    case (Suc left)
    show ?case
    proof (cases "1024 \<le> v0")
      case True
      with Suc.prems have "byte_unit left (v0 / 1024) (Suc i0) = (n, i)" "0 \<le> v0 / 1024" by auto
      note step = Suc.IH [OF this]
      have "1024 ^ (i - i0) = 1024 * (1024 :: rat) ^ (i - Suc i0)"
        using step by (metis Suc_diff_le Suc_le_eq diff_Suc_Suc power_Suc)
      moreover have "1 \<le> n"
        using step True by (cases "i = Suc i0") auto
      ultimately show ?thesis using step True by (auto simp: field_simps)
    next
      case False
      then show ?thesis using Suc.prems by auto
    qed
  qed
  have len: "length UNITS - 1 = 4" "length UNITS = 5" by (simp_all add: UNITS_def)
  have n: "0 \<le> n" using loop [OF assms(2,1)] by simp
  have "\<bar>of_nat (fixed_digits k n) - n * 10 ^ k\<bar> \<le> 1 / 2"
  proof -
    have "0 \<le> \<lfloor>n * 10 ^ k + 1 / 2\<rfloor>" using n by simp
    then have f: "(of_nat (fixed_digits k n) :: rat) = of_int \<lfloor>n * 10 ^ k + 1 / 2\<rfloor>" by (simp add: fixed_digits_def)
    show ?thesis unfolding f using floor_correct [of "n * 10 ^ k + 1 / 2"] by linarith
  qed
  then have "\<bar>of_nat (fixed_digits k n) - n * 10 ^ k\<bar> / 10 ^ k \<le> 1 / 2 / 10 ^ k"
    by (rule divide_right_mono) simp
  moreover have "\<bar>of_nat (fixed_digits k n) - n * 10 ^ k\<bar> / 10 ^ k = \<bar>of_nat (fixed_digits k n) / 10 ^ k - n\<bar>"
  proof -
    have "of_nat (fixed_digits k n) / 10 ^ k - n = (of_nat (fixed_digits k n) - n * 10 ^ k) / 10 ^ k"
      by (simp add: field_simps)
    then show ?thesis by (simp add: abs_divide)
  qed
  ultimately show ?thesis using loop [OF assms(2,1)] len by simp
qed

theorem shown_size_is_close_witness:
  "\<bar>of_nat (fixed_digits 1 (3 / 2)) / 10 ^ 1 - 3 / 2\<bar> \<le> 1 / (2 * 10 ^ 1 :: rat) \<and> byte_unit (length UNITS - 1) 1536 0 = (3 / 2, 1)"
proof -
  have b: "byte_unit (length UNITS - 1) 1536 0 = (3 / 2, 1)" by (simp add: UNITS_def numeral_eq_Suc)
  have z: "(0 :: rat) \<le> 1536" by simp
  from shown_size_is_close [OF z b, of 1] b show ?thesis by blast
qed

end
