(* ===== verification/Loaders.thy ===== *)
theory Loaders
  imports Client
begin

text \<open>
  The interface of a component that reads something from the API whenever what it is about changes. An
  effect of React starts one request for each key, and a flag of its closure (\<open>live\<close>, \<open>current\<close>) drops
  an answer that comes when the key has moved on. \<open>latest_loader\<close> is what such a component promises,
  \<open>clearing_loader\<close> the stronger promise of one that also takes away what it showed before. The
  components that keep the promise interpret the locales on their own step functions.

  \<open>eager_loader\<close> is the component without the flag: every answer is shown as it comes. What it shows is
  an answer to something it asked, but not to the last; \<open>late_answer_wins\<close> is what the properties of such
  a page rest on.

  A request is known by its place in the list of those made, and an answer by the place of its request,
  because two requests for one key are two closures.
\<close>

text \<open>A run is honest when every answer in it is an answer to its own request.\<close>

fun honest :: "('e \<Rightarrow> 's \<Rightarrow> 's) \<Rightarrow> ('s \<Rightarrow> 'k list) \<Rightarrow> ('e \<Rightarrow> (nat \<times> 'v) option) \<Rightarrow> ('k \<Rightarrow> 'v \<Rightarrow> bool) \<Rightarrow> 'e list \<Rightarrow> 's \<Rightarrow> bool" where
  "honest step requests arrival good [] s = True"
| "honest step requests arrival good (e # es) s =
     ((case arrival e of
         None \<Rightarrow> True
       | Some (i, v) \<Rightarrow> i < length (requests s) \<and> good (requests s ! i) v) \<and>
      honest step requests arrival good es (step e s))"

locale latest_loader =
  fixes step :: "'e \<Rightarrow> 's \<Rightarrow> 's"
    and requests :: "'s \<Rightarrow> 'k list"
    and settled :: "'s \<Rightarrow> bool"
    and shown :: "'s \<Rightarrow> 'v option"
    and arrival :: "'e \<Rightarrow> (nat \<times> 'v) option"
  assumes asks: "requests (step e s) \<noteq> requests s \<Longrightarrow> \<exists>k. requests (step e s) = requests s @ [k] \<and> \<not> settled (step e s)"
    and shows_last:
      "requests (step e s) = requests s \<Longrightarrow> settled (step e s) \<Longrightarrow> shown (step e s) = Some v \<Longrightarrow>
       settled s \<and> shown s = Some v \<or> arrival e = Some (length (requests s) - 1, v)"
begin

definition up_to_date :: "('k \<Rightarrow> 'v \<Rightarrow> bool) \<Rightarrow> 's \<Rightarrow> bool" where
  "up_to_date good s \<longleftrightarrow>
     (\<forall>v. settled s \<and> shown s = Some v \<longrightarrow> requests s \<noteq> [] \<and> good (last (requests s)) v)"

lemma step_up_to_date:
  assumes "up_to_date good s" and "honest step requests arrival good (e # es) s"
  shows "up_to_date good (step e s)"
proof (cases "requests (step e s) = requests s")
  case False
  then show ?thesis using asks by (auto simp: up_to_date_def)
next
  case True
  show ?thesis
    unfolding up_to_date_def
  proof (intro allI impI)
    fix v
    assume v: "settled (step e s) \<and> shown (step e s) = Some v"
    from shows_last [OF True] v consider "settled s \<and> shown s = Some v"
      | "arrival e = Some (length (requests s) - 1, v)" by blast
    then show "requests (step e s) \<noteq> [] \<and> good (last (requests (step e s))) v"
    proof cases
      case 1
      with assms(1) True show ?thesis by (simp add: up_to_date_def)
    next
      case 2
      with assms(2) have l: "length (requests s) - 1 < length (requests s)" "good (requests s ! (length (requests s) - 1)) v"
        by auto
      then have "requests s \<noteq> []" by auto
      with l(2) True show ?thesis by (simp add: last_conv_nth)
    qed
  qed
qed

lemma run_up_to_date:
  "up_to_date good s \<Longrightarrow> honest step requests arrival good es s \<Longrightarrow> up_to_date good (fold step es s)"
proof (induction es arbitrary: s)
  case Nil
  then show ?case by simp
next
  case (Cons e es)
  from step_up_to_date [OF Cons.prems] Cons.IH Cons.prems(2) show ?case by simp
qed

lemma shown_answers_the_last_request:
  assumes "shown s = None" and "honest step requests arrival good es s"
    and "settled (fold step es s)" and "shown (fold step es s) = Some v"
  shows "good (last (requests (fold step es s))) v"
  using run_up_to_date [of good s es] assms by (simp add: up_to_date_def)

end

locale clearing_loader = latest_loader +
  assumes unsettled_blank: "\<not> settled s \<Longrightarrow> shown s = None"
begin

lemma never_shows_another:
  assumes "shown s = None" and "honest step requests arrival good es s" and "shown (fold step es s) = Some v"
  shows "good (last (requests (fold step es s))) v"
  using shown_answers_the_last_request [OF assms(1,2) _ assms(3)] unsettled_blank [of "fold step es s"] assms(3) by fastforce

end

locale eager_loader =
  fixes step :: "'e \<Rightarrow> 's \<Rightarrow> 's"
    and requests :: "'s \<Rightarrow> 'k list"
    and shown :: "'s \<Rightarrow> 'v option"
    and arrival :: "'e \<Rightarrow> (nat \<times> 'v) option"
  assumes grows: "\<exists>ks. requests (step e s) = requests s @ ks"
    and takes: "arrival e = Some (i, v) \<Longrightarrow> i < length (requests s) \<Longrightarrow> shown (step e s) = Some v"
    and keeps: "shown (step e s) = Some v \<Longrightarrow> shown s = Some v \<or> (\<exists>i. arrival e = Some (i, v))"
begin

definition answered :: "('k \<Rightarrow> 'v \<Rightarrow> bool) \<Rightarrow> 'v option \<Rightarrow> 's \<Rightarrow> bool" where
  "answered good old s \<longleftrightarrow> (\<forall>v. shown s = Some v \<longrightarrow> old = Some v \<or> (\<exists>k \<in> set (requests s). good k v))"

lemma step_answered:
  assumes "answered good old s" and "honest step requests arrival good (e # es) s"
  shows "answered good old (step e s)"
  unfolding answered_def
proof (intro allI impI)
  fix v
  assume "shown (step e s) = Some v"
  from keeps [OF this] have "old = Some v \<or> (\<exists>k \<in> set (requests s). good k v)"
  proof
    assume "shown s = Some v"
    with assms(1) show ?thesis by (simp add: answered_def)
  next
    assume "\<exists>i. arrival e = Some (i, v)"
    then obtain i where "arrival e = Some (i, v)" ..
    with assms(2) have "i < length (requests s)" "good (requests s ! i) v" by auto
    then show ?thesis by (metis nth_mem)
  qed
  moreover obtain ks where "requests (step e s) = requests s @ ks" using grows by blast
  ultimately show "old = Some v \<or> (\<exists>k \<in> set (requests (step e s)). good k v)" by auto
qed

lemma run_answered:
  "answered good old s \<Longrightarrow> honest step requests arrival good es s \<Longrightarrow> answered good old (fold step es s)"
proof (induction es arbitrary: s)
  case (Cons e es)
  from step_answered [OF Cons.prems] Cons.IH Cons.prems(2) show ?case by simp
qed simp

lemma shown_answers_a_request:
  assumes "honest step requests arrival good es s" and "shown (fold step es s) = Some v"
  shows "shown s = Some v \<or> (\<exists>k \<in> set (requests (fold step es s)). good k v)"
proof -
  have "answered good (shown s) s" by (simp add: answered_def)
  from run_answered [OF this assms(1)] assms(2) show ?thesis by (simp add: answered_def)
qed

lemma run_grows: "\<exists>ks. requests (fold step es s) = requests s @ ks"
proof (induction es arbitrary: s)
  case (Cons e es)
  then obtain ks where "requests (fold step es (step e s)) = requests (step e s) @ ks" by blast
  moreover obtain ks' where "requests (step e s) = requests s @ ks'" using grows by blast
  ultimately show ?case by simp
qed simp

lemma late_answer_wins:
  assumes "arrival e = Some (i, v)" and "i < length (requests s)"
  shows "shown (step e (fold step es s)) = Some v"
proof -
  obtain ks where "requests (fold step es s) = requests s @ ks" using run_grows by blast
  with assms takes show ?thesis by simp
qed

end

end
