(* ===== verification/ObjectPage.thy ===== *)
theory ObjectPage
  imports Directory Loaders JsNumber "HOL-Library.Word"
begin

unbundle bit_operations_syntax

text \<open>
  The page of one object (\<^verbatim>\<open>pages/ObjectDetail.tsx\<close>) and the dialogs it opens
  (\<^verbatim>\<open>components/objectDialogs.tsx\<close>). The page is one machine: its address, the loads it asked for in
  order, the object it shows, what is typed, and the action under way; an event is a click, a key, a
  move to another address, or an answer. A load's answer sets the object whatever the address has become
  meanwhile: the page has no flag as \<open>Loaders\<close> asks for, and the properties say what follows.

  The dialogs that are a form and one call are in \<open>ObjectDialogs\<close>; the members dialog is here, because what
  it sends is computed from the clicks.
\<close>

section \<open>Values\<close>

definition text_value :: "jsval \<Rightarrow> string" where
  "text_value v = (case v of JUndef \<Rightarrow> [] | JNull \<Rightarrow> [] | JArr vs \<Rightarrow> join_with '', '' (map join_item vs) | _ \<Rightarrow> to_string v)"

text \<open>\<open>Number(v)\<close>: an array goes by its text.\<close>

fun to_number :: "jsval \<Rightarrow> jsval" where
  "to_number JUndef = JNaN"
| "to_number JNull = JNum 0"
| "to_number (JBool b) = JNum (if b then 1 else 0)"
| "to_number (JNum n) = JNum n"
| "to_number (JDec m s) = JDec m s"
| "to_number JNaN = JNaN"
| "to_number (JStr s) = js_Number s"
| "to_number (JArr vs) = js_Number (to_string (JArr vs))"
| "to_number (JObj ps) = JNaN"

text \<open>What the bitwise operators make of a number: its whole part in 32 bits.\<close>

definition to_int32 :: "jsval \<Rightarrow> 32 word" where
  "to_int32 v = (case v of JNum n \<Rightarrow> word_of_int n | JDec m s \<Rightarrow> word_of_int (sgn m * (\<bar>m\<bar> div 10 ^ s)) | _ \<Rightarrow> 0)"

definition UF_ACCOUNTDISABLE :: "32 word" where
  "UF_ACCOUNTDISABLE = 0x0002"

definition isDisabled :: "dirobj \<Rightarrow> bool" where
  "isDisabled obj \<longleftrightarrow>
     to_int32 (to_number (or_else (attr obj ''userAccountControl'') (JNum 0))) AND UF_ACCOUNTDISABLE \<noteq> 0"

definition GROUP_SCOPES :: "(int \<times> string) list" where
  "GROUP_SCOPES = [(-2147483646, ''Global''), (-2147483644, ''Domain local''), (-2147483640, ''Universal'')]"

definition GROUP_KIND_LABELS :: "(string \<times> string) list" where
  "GROUP_KIND_LABELS = [(''user'', ''User group''), (''computer'', ''Computer group'')]"

definition TYPE_LABELS :: "(string \<times> string) list" where
  "TYPE_LABELS = [(''user'', ''User''), (''group'', ''Group''), (''computer'', ''Computer''),
     (''ou'', ''Organizational unit''), (''container'', ''Container''), (''domain'', ''Domain'')]"

definition EDITABLE :: "string \<Rightarrow> (string \<times> string) list" where
  "EDITABLE t =
     (if t = ''user'' then
        [(''givenName'', ''First name''), (''sn'', ''Last name''), (''displayName'', ''Display name''),
         (''userPrincipalName'', ''User principal name''), (''mail'', ''E-mail''), (''telephoneNumber'', ''Telephone''),
         (''title'', ''Title''), (''department'', ''Department''), (''company'', ''Company''),
         (''physicalDeliveryOfficeName'', ''Office''), (''description'', ''Description'')]
      else if t = ''group'' then [(''description'', ''Description''), (''mail'', ''E-mail'')]
      else if t = ''computer'' then [(''dNSHostName'', ''DNS host name''), (''description'', ''Description'')]
      else if t = ''ou'' then [(''description'', ''Description'')]
      else [])"

text \<open>The words beside \<open>Type\<close>, and a group's scope.\<close>

definition type_shown :: "dirobj \<Rightarrow> string option" where
  "type_shown obj =
     (if objectType obj = ''group'' then map_of GROUP_KIND_LABELS (to_string (or_else (attr obj ''groupKind'') (JStr ''user'')))
      else Some (case map_of TYPE_LABELS (objectType obj) of None \<Rightarrow> objectType obj | Some l \<Rightarrow> l))"

definition scope_shown :: "dirobj \<Rightarrow> string" where
  "scope_shown obj =
     (case to_number (attr obj ''groupType'') of
        JNum n \<Rightarrow> (case map_of GROUP_SCOPES n of Some l \<Rightarrow> l | None \<Rightarrow> ''unknown'')
      | _ \<Rightarrow> ''unknown'')"

section \<open>Tabs\<close>

datatype (plugins only: code size) tab =
    GeneralTab | MembersTab | MemberOfTab | PolicyTab | MachineTab | SoftwareTab | UsersTab
  | FilesTab | ActivityTab | ShellTab | LogsTab

definition tabs_of :: "dirobj \<Rightarrow> tab list" where
  "tabs_of obj =
     [GeneralTab] @
     (if objectType obj = ''group'' then [MembersTab] else []) @
     (if objectType obj = ''ou'' then [] else [MemberOfTab]) @
     [PolicyTab] @
     (if objectType obj = ''user'' then [ActivityTab] else []) @
     (if objectType obj = ''computer'' then [MachineTab, SoftwareTab, UsersTab, FilesTab, ShellTab, ActivityTab, LogsTab] else [])"

text \<open>What is drawn under the tabs: a part that asks for the kind of object draws nothing for another; the
  parts of every object do not ask, and neither does the one of members.\<close>

definition drawn_part :: "tab \<Rightarrow> dirobj \<Rightarrow> tab option" where
  "drawn_part t obj =
     (if t \<in> {GeneralTab, MembersTab, MemberOfTab, PolicyTab} then Some t
      else if t = ActivityTab then (if objectType obj \<in> {''user'', ''computer''} then Some t else None)
      else if objectType obj = ''computer'' then Some t else None)"

definition isAccount :: "dirobj \<Rightarrow> bool" where
  "isAccount obj \<longleftrightarrow> objectType obj = ''user'' \<or> objectType obj = ''computer''"

definition machineName :: "dirobj \<Rightarrow> string" where
  "machineName obj = to_string (or_else (attr obj ''dNSHostName'') (or_else (attr obj ''cn'') (or_else (attr obj ''name'') (JStr []))))"

section \<open>The page\<close>

record object_page =
  pg_address :: string
  pg_requests :: "string list"
  pg_object :: "dirobj option"
  pg_tab :: tab
  pg_draft :: "string \<Rightarrow> string option"
  pg_busy :: bool
  pg_error :: "string option"
  pg_saved :: bool
  pg_action :: "(string \<times> bool) option"
  pg_waits :: "nat option"
  pg_sent :: "api_call list"

definition page_open :: "string \<Rightarrow> tab option \<Rightarrow> object_page" where
  "page_open dn t =
     \<lparr>pg_address = dn, pg_requests = [dn], pg_object = None, pg_tab = (case t of None \<Rightarrow> GeneralTab | Some x \<Rightarrow> x),
      pg_draft = (\<lambda>_. None), pg_busy = False, pg_error = None, pg_saved = False, pg_action = None, pg_waits = None, pg_sent = []\<rparr>"

datatype (plugins only: code size) page_event =
    Navigate string
  | Loaded nat "string + dirobj"
  | SelectTab tab
  | TypeField string string
  | ClickSave
  | ClickEnable
  | ClickBlockInheritance
  | ChooseGroupKind string
  | ActionAnswered "string + unit"

definition fields_of :: "dirobj \<Rightarrow> string list" where
  "fields_of obj = map fst (EDITABLE (objectType obj))"

definition draft_of :: "dirobj \<Rightarrow> string \<Rightarrow> string option" where
  "draft_of obj = map_of (map (\<lambda>a. (a, text_value (attr obj a))) (fields_of obj))"

definition drafted :: "(string \<Rightarrow> string option) \<Rightarrow> string \<Rightarrow> string" where
  "drafted draft a = (case draft a of None \<Rightarrow> [] | Some v \<Rightarrow> v)"

definition save_changes :: "(string \<Rightarrow> string option) \<Rightarrow> dirobj \<Rightarrow> jsobj" where
  "save_changes draft obj =
     concat (map (\<lambda>a. let next = drafted draft a
                      in if next \<noteq> text_value (attr obj a) then [(a, if next = [] then JNull else JStr next)] else [])
       (fields_of obj))"

text \<open>\<open>run\<close>: the action is sent, and what it was about is fixed now.\<close>

definition run_action :: "bool \<Rightarrow> api_call \<Rightarrow> object_page \<Rightarrow> object_page" where
  "run_action is_save c s =
     s\<lparr>pg_busy := True, pg_error := None, pg_saved := False, pg_action := Some (pg_address s, is_save), pg_sent := pg_sent s @ [c]\<rparr>"

definition page_step :: "page_event \<Rightarrow> object_page \<Rightarrow> object_page" where
  "page_step ev s =
     (case ev of
        Navigate dn \<Rightarrow>
          (if dn = pg_address s then s else s\<lparr>pg_address := dn, pg_requests := pg_requests s @ [dn], pg_error := None\<rparr>)
      | Loaded i a \<Rightarrow>
          (if length (pg_requests s) \<le> i then s
           else (let s' = (if pg_waits s = Some i then s\<lparr>pg_busy := False, pg_waits := None\<rparr> else s)
                 in case a of
                      Inl msg \<Rightarrow> s'\<lparr>pg_error := Some msg\<rparr>
                    | Inr obj \<Rightarrow> s'\<lparr>pg_object := Some obj, pg_draft := draft_of obj\<rparr>))
      | ActionAnswered a \<Rightarrow>
          (case pg_action s of
             None \<Rightarrow> s
           | Some (dn, is_save) \<Rightarrow>
               (case a of
                  Inl msg \<Rightarrow> s\<lparr>pg_busy := False, pg_error := Some msg, pg_action := None\<rparr>
                | Inr _ \<Rightarrow> s\<lparr>pg_saved := pg_saved s \<or> is_save, pg_error := None, pg_action := None,
                            pg_waits := Some (length (pg_requests s)), pg_requests := pg_requests s @ [dn]\<rparr>))
      | _ \<Rightarrow>
          (case pg_object s of
             None \<Rightarrow> s
           | Some obj \<Rightarrow>
               (case ev of
                  SelectTab t \<Rightarrow> (if t \<in> set (tabs_of obj) then s\<lparr>pg_tab := t\<rparr> else s)
                | TypeField a v \<Rightarrow>
                    (if pg_tab s = GeneralTab \<and> a \<in> set (fields_of obj) then s\<lparr>pg_draft := (pg_draft s)(a := Some v)\<rparr> else s)
                | ClickSave \<Rightarrow>
                    (if pg_busy s then s
                     else (let ch = save_changes (pg_draft s) obj
                           in if ch = [] then s\<lparr>pg_saved := True\<rparr>
                              else run_action True (Call_directory (Dir_update (pg_address s) ch)) s))
                | ClickEnable \<Rightarrow>
                    (if pg_tab s = GeneralTab \<and> isAccount obj \<and> \<not> pg_busy s
                     then run_action False (Call_directory (Dir_setEnabled (pg_address s) (isDisabled obj))) s else s)
                | ClickBlockInheritance \<Rightarrow>
                    (if pg_tab s = GeneralTab \<and> objectType obj = ''ou'' \<and> \<not> pg_busy s
                     then run_action False (Call_policy (Pol_setInheritance (pg_address s) True)) s else s)
                | ChooseGroupKind k \<Rightarrow>
                    (if pg_tab s = GeneralTab \<and> objectType obj = ''group'' \<and> \<not> pg_busy s \<and> k \<in> {''user'', ''computer''}
                     then run_action False (Call_directory (Dir_setGroupKind (pg_address s) k)) s else s)
                | _ \<Rightarrow> s)))"

section \<open>The members dialog\<close>

text \<open>What is typed in the search, what it found, and the two lists the clicks make. A name that stands among
  those shown cannot be chosen.\<close>

record members_dialog =
  md_members :: "string list"
  md_candidates :: "dirobj list"
  md_add :: "string list"
  md_remove :: "string list"

definition members_open :: "dirobj \<Rightarrow> members_dialog" where
  "members_open obj =
     \<lparr>md_members = (case attr obj ''member'' of JArr vs \<Rightarrow> map to_string vs | _ \<Rightarrow> []),
      md_candidates = [], md_add = [], md_remove = []\<rparr>"

definition wanted_members :: "dirobj \<Rightarrow> dirobj list \<Rightarrow> dirobj list" where
  "wanted_members obj found =
     (let wanted = (if attr obj ''groupKind'' = JStr ''computer'' then ''computer'' else ''user'')
      in filter (\<lambda>x. objectType x = wanted \<or> objectType x = ''group'') found)"

definition pending :: "members_dialog \<Rightarrow> string list" where
  "pending s = filter (\<lambda>m. m \<notin> set (md_remove s)) (md_members s) @ md_add s"

datatype (plugins only: code size) members_event =
    Found "dirobj list"
  | SearchCleared
  | ClickCandidate string
  | ClickRemove string

definition members_step :: "dirobj \<Rightarrow> members_event \<Rightarrow> members_dialog \<Rightarrow> members_dialog" where
  "members_step obj ev s =
     (case ev of
        Found objs \<Rightarrow> s\<lparr>md_candidates := wanted_members obj objs\<rparr>
      | SearchCleared \<Rightarrow> s\<lparr>md_candidates := []\<rparr>
      | ClickCandidate c \<Rightarrow>
          (if c \<in> distinguishedName ` set (md_candidates s) \<and> c \<notin> set (pending s) then s\<lparr>md_add := md_add s @ [c]\<rparr> else s)
      | ClickRemove m \<Rightarrow>
          (if m \<notin> set (pending s) then s
           else if m \<in> set (md_add s) then s\<lparr>md_add := filter (\<lambda>x. x \<noteq> m) (md_add s)\<rparr>
           else s\<lparr>md_remove := md_remove s @ [m]\<rparr>))"

definition members_apply :: "string \<Rightarrow> members_dialog \<Rightarrow> api_call" where
  "members_apply dn s = Call_directory (Dir_editMembers dn (md_add s) (md_remove s))"

text \<open>What the control plane makes of it (\<^verbatim>\<open>edit_members\<close> of \<^verbatim>\<open>api/odm/objects.py\<close>): names are compared whatever
  their case, one that is there is not added, one that is not there is not taken out.\<close>

definition edit_members :: "string list \<Rightarrow> string list \<Rightarrow> string list \<Rightarrow> string list" where
  "edit_members present add remove =
     (let existing = to_lower ` set present;
          to_add = filter (\<lambda>m. to_lower m \<notin> existing) add;
          to_remove = filter (\<lambda>m. to_lower m \<in> existing) remove
      in filter (\<lambda>m. to_lower m \<notin> to_lower ` set to_remove) (present @ to_add))"

section \<open>Reading values\<close>

lemma word_and_2: "((word_of_int n :: 32 word) AND 2 \<noteq> 0) = odd (n div 2)"
proof -
  have e: "(2 :: 32 word) = push_bit 1 1" by simp
  have "((word_of_int n :: 32 word) AND 2 \<noteq> 0) = bit (word_of_int n :: 32 word) 1"
    unfolding e by (simp only: bit_iff_and_push_bit_not_eq_0)
  also have "\<dots> = bit n 1" by (simp add: bit_word_of_int_iff)
  also have "\<dots> = odd (n div 2)" by (simp add: bit_iff_odd)
  finally show ?thesis .
qed

text \<open>An account is shown as disabled exactly when the second bit of its control flags is set, whether the
  directory gave the flags as a number or as text, and with no flags it is enabled.\<close>

theorem disabled_is_the_second_bit:
  "isDisabled (obj\<lparr>attributes := obj_put ''userAccountControl'' (JNum n) ps\<rparr>) = odd (n div 2) \<and>
   isDisabled (obj\<lparr>attributes := obj_put ''userAccountControl'' (JStr (show_int n)) ps\<rparr>) = odd (n div 2) \<and>
   \<not> isDisabled (obj\<lparr>attributes := obj_delete ''userAccountControl'' ps\<rparr>)"
  by (simp add: isDisabled_def attr_def or_else_def to_int32_def UF_ACCOUNTDISABLE_def word_and_2 obj_get_delete)

section \<open>Saving\<close>

lemma fields_distinct [simp]: "distinct (fields_of obj)"
  by (simp add: fields_of_def EDITABLE_def)

lemma drafted_draft_of: "a \<in> set (fields_of obj) \<Longrightarrow> drafted (draft_of obj) a = text_value (attr obj a)"
  by (simp add: drafted_def draft_of_def map_of_map_restrict)

lemma typed_run:
  assumes "pg_object s = Some obj" and "pg_tab s = GeneralTab" and "\<forall>(a, v) \<in> set typed. a \<in> set (fields_of obj)"
  shows "fold page_step (map (\<lambda>(a, v). TypeField a v) typed) s =
         s\<lparr>pg_draft := (\<lambda>a. case map_of (rev typed) a of Some v \<Rightarrow> Some v | None \<Rightarrow> pg_draft s a)\<rparr>"
  using assms
proof (induction typed arbitrary: s)
  case Nil
  then show ?case by simp
next
  case (Cons av typed)
  obtain a v where av: "av = (a, v)" by (cases av)
  have step: "page_step (TypeField a v) s = s\<lparr>pg_draft := (pg_draft s)(a := Some v)\<rparr>"
    using Cons.prems av by (simp add: page_step_def)
  have f: "(\<lambda>x. case map_of (rev typed) x of Some v' \<Rightarrow> Some v' | None \<Rightarrow> ((pg_draft s)(a := Some v)) x) =
      (\<lambda>x. case map_of (rev (av # typed)) x of Some v' \<Rightarrow> Some v' | None \<Rightarrow> pg_draft s x)"
    using av by (auto simp: fun_eq_iff map_add_def split: option.split)
  have "fold page_step (map (\<lambda>(a, v). TypeField a v) (av # typed)) s =
      fold page_step (map (\<lambda>(a, v). TypeField a v) typed) (page_step (TypeField a v) s)" using av by simp
  also have "\<dots> = (page_step (TypeField a v) s)\<lparr>pg_draft :=
      (\<lambda>x. case map_of (rev typed) x of Some v' \<Rightarrow> Some v' | None \<Rightarrow> pg_draft (page_step (TypeField a v) s) x)\<rparr>"
    by (rule Cons.IH) (use Cons.prems step in simp_all)
  also have "\<dots> = s\<lparr>pg_draft := (\<lambda>x. case map_of (rev typed) x of Some v' \<Rightarrow> Some v' | None \<Rightarrow> ((pg_draft s)(a := Some v)) x)\<rparr>"
    by (simp add: step cong: option.case_cong)
  finally show ?case unfolding f .
qed

lemma concat_map_if: "concat (map (\<lambda>a. if P a then [f a] else []) xs) = map f (filter P xs)"
  by (induction xs) simp_all

text \<open>C22: Saving sends exactly what was changed: of the attributes that may be edited those whose text is no
  longer the one read, each once, in the order of the form, an emptied one as \<open>null\<close>; when nothing was
  changed nothing is sent and the page says it is saved.\<close>

theorem save_sends_exactly_what_was_changed:
  assumes "pg_object s = Some obj" and "pg_draft s = draft_of obj" and "pg_tab s = GeneralTab" and "\<not> pg_busy s"
    and "\<forall>(a, v) \<in> set typed. a \<in> set (fields_of obj)"
  shows "let s' = fold page_step (map (\<lambda>(a, v). TypeField a v) typed @ [ClickSave]) s;
             was = (\<lambda>a. text_value (attr obj a));
             now = (\<lambda>a. case map_of (rev typed) a of Some v \<Rightarrow> v | None \<Rightarrow> was a);
             changed = filter (\<lambda>a. now a \<noteq> was a) (fields_of obj)
         in (if changed = [] then pg_sent s' = pg_sent s \<and> pg_saved s'
             else pg_sent s' = pg_sent s @ [Call_directory (Dir_update (pg_address s)
                    (map (\<lambda>a. (a, if now a = [] then JNull else JStr (now a))) changed))])"
proof -
  define was where "was = (\<lambda>a. text_value (attr obj a))"
  define now where "now = (\<lambda>a. case map_of (rev typed) a of Some v \<Rightarrow> v | None \<Rightarrow> was a)"
  define draft where "draft = (\<lambda>a. case map_of (rev typed) a of Some v \<Rightarrow> Some v | None \<Rightarrow> draft_of obj a)"
  have now: "drafted draft a = now a" if "a \<in> set (fields_of obj)" for a
    using that drafted_draft_of [OF that]
    by (simp add: drafted_def draft_def now_def was_def split: option.split)
  have "save_changes draft obj =
      concat (map (\<lambda>a. if now a \<noteq> was a then [(a, if now a = [] then JNull else JStr (now a))] else []) (fields_of obj))"
    unfolding save_changes_def by (intro arg_cong [where f = concat] map_cong refl) (simp add: now was_def)
  also have "\<dots> = map (\<lambda>a. (a, if now a = [] then JNull else JStr (now a))) (filter (\<lambda>a. now a \<noteq> was a) (fields_of obj))"
    by (rule concat_map_if)
  finally have ch: "save_changes draft obj =
      map (\<lambda>a. (a, if now a = [] then JNull else JStr (now a))) (filter (\<lambda>a. now a \<noteq> was a) (fields_of obj))" .
  from typed_run [OF assms(1,3,5)] assms(2) have
    "fold page_step (map (\<lambda>(a, v). TypeField a v) typed @ [ClickSave]) s = page_step ClickSave (s\<lparr>pg_draft := draft\<rparr>)"
    by (simp add: draft_def cong: option.case_cong)
  moreover have "text_value (attr obj a) = was a" "(case map_of (rev typed) a of Some v \<Rightarrow> v | None \<Rightarrow> was a) = now a" for a
    by (simp_all add: was_def now_def)
  ultimately show ?thesis
    using assms(1,4) ch by (simp add: Let_def page_step_def run_action_def cong: option.case_cong)
qed

theorem save_sends_exactly_what_was_changed_witness:
  "let obj = \<lparr>distinguishedName = ''CN=a'', objectType = ''group'', attributes = [(''description'', JStr ''x''), (''mail'', JStr ''m'')]\<rparr>;
       s = fold page_step [Loaded 0 (Inr obj), TypeField ''mail'' [], TypeField ''description'' ''y'', TypeField ''description'' ''x'', ClickSave]
             (page_open ''CN=a'' None)
   in pg_sent s = [Call_directory (Dir_update ''CN=a'' [(''mail'', JNull)])]"
proof -
  define obj where "obj = \<lparr>distinguishedName = ''CN=a'', objectType = ''group'', attributes = [(''description'', JStr ''x''), (''mail'', JStr ''m'')]\<rparr>"
  define t where "t = page_step (Loaded 0 (Inr obj)) (page_open ''CN=a'' None)"
  have t: "pg_object t = Some obj" "pg_draft t = draft_of obj" "pg_tab t = GeneralTab" "\<not> pg_busy t" "pg_sent t = []" "pg_address t = ''CN=a''"
    by (simp_all add: t_def page_open_def page_step_def)
  have f: "fields_of obj = [''description'', ''mail'']" by (simp add: obj_def fields_of_def EDITABLE_def)
  from save_sends_exactly_what_was_changed [OF t(1-4), of "[(''mail'', []), (''description'', ''y''), (''description'', ''x'')]"] f t(5,6)
  show ?thesis
    by (simp add: Let_def obj_def [symmetric] t_def [symmetric]) (simp add: obj_def attr_def text_value_def)
qed

section \<open>Moving on\<close>

text \<open>Save writes to the address, not to the object shown: after a move to another object the page goes on
  showing the first one with its Save, until the answer comes, for good when the answer is an error, and
  again when an answer for the first one comes late; what is changed there is written to the other object.\<close>

theorem save_writes_to_an_object_not_shown:
  assumes "pg_object s = Some obj" and "\<not> pg_busy s" and "pg_tab s = GeneralTab" and "other \<noteq> pg_address s"
    and "n = length (pg_requests s)" and "i < n" and "a \<in> set (fields_of obj)" and "v \<noteq> text_value (attr obj a)"
    and "late \<in> {[], [Loaded n (Inl msg)], [Loaded n (Inr new), Loaded i (Inr obj)]}"
  shows "let s' = fold page_step (Navigate other # late @ [TypeField a v, ClickSave]) s
         in pg_object s' = Some obj \<and>
            (\<exists>ch. pg_sent s' = pg_sent s @ [Call_directory (Dir_update other ch)] \<and> (a, if v = [] then JNull else JStr v) \<in> set ch)"
proof -
  let ?s = "fold page_step (Navigate other # late) s"
  have s: "pg_object ?s = Some obj" "\<not> pg_busy ?s" "pg_tab ?s = GeneralTab" "pg_address ?s = other" "pg_sent ?s = pg_sent s"
    using assms by (auto simp: page_step_def split: if_splits)
  let ?d = "(pg_draft ?s)(a := Some v)"
  have ch: "(a, if v = [] then JNull else JStr v) \<in> set (save_changes ?d obj)"
    using assms(7,8) by (auto simp: save_changes_def drafted_def Let_def intro!: bexI [of _ a])
  then have ne: "save_changes ?d obj \<noteq> []" by auto
  have "fold page_step (Navigate other # late @ [TypeField a v, ClickSave]) s = page_step ClickSave (?s\<lparr>pg_draft := ?d\<rparr>)"
    using s(1,3) assms(7) by (simp add: page_step_def)
  with s ch ne show ?thesis by (simp add: Let_def page_step_def run_action_def)
qed

theorem save_writes_to_an_object_not_shown_witness:
  "let obj = \<lparr>distinguishedName = ''CN=a'', objectType = ''user'', attributes = [(''mail'', JStr ''m'')]\<rparr>;
       s' = fold page_step (Navigate ''CN=b'' # [] @ [TypeField ''mail'' ''x'', ClickSave]) (page_step (Loaded 0 (Inr obj)) (page_open ''CN=a'' None))
   in pg_object s' = Some obj \<and>
      (\<exists>ch. pg_sent s' = [] @ [Call_directory (Dir_update ''CN=b'' ch)] \<and> (''mail'', JStr ''x'') \<in> set ch)"
proof -
  let ?obj = "\<lparr>distinguishedName = ''CN=a'', objectType = ''user'', attributes = [(''mail'', JStr ''m'')]\<rparr>"
  let ?s = "page_step (Loaded 0 (Inr ?obj)) (page_open ''CN=a'' None)"
  have "let s' = fold page_step (Navigate ''CN=b'' # [] @ [TypeField ''mail'' ''x'', ClickSave]) ?s
        in pg_object s' = Some ?obj \<and>
           (\<exists>ch. pg_sent s' = pg_sent ?s @ [Call_directory (Dir_update ''CN=b'' ch)] \<and> (''mail'', if ''x'' = [] then JNull else JStr ''x'') \<in> set ch)"
    by (rule save_writes_to_an_object_not_shown [where n = 1 and i = 0])
       (simp_all add: page_open_def page_step_def fields_of_def EDITABLE_def attr_def text_value_def)
  moreover have "pg_sent ?s = []" by (simp add: page_step_def page_open_def)
  ultimately show ?thesis by simp
qed

definition page_arrival :: "page_event \<Rightarrow> (nat \<times> dirobj) option" where
  "page_arrival ev = (case ev of Loaded i (Inr obj) \<Rightarrow> Some (i, obj) | _ \<Rightarrow> None)"

definition call_about :: "string \<Rightarrow> api_call \<Rightarrow> bool" where
  "call_about dn c =
     (case c of
        Call_directory (Dir_update d _) \<Rightarrow> d = dn
      | Call_directory (Dir_setEnabled d _) \<Rightarrow> d = dn
      | Call_directory (Dir_setGroupKind d _) \<Rightarrow> d = dn
      | Call_policy (Pol_setInheritance d _) \<Rightarrow> d = dn
      | _ \<Rightarrow> False)"

definition page_about :: "(string \<Rightarrow> dirobj \<Rightarrow> bool) \<Rightarrow> string \<Rightarrow> object_page \<Rightarrow> bool" where
  "page_about about dn s \<longleftrightarrow>
     pg_address s = dn \<and> set (pg_requests s) = {dn} \<and> (\<forall>obj. pg_object s = Some obj \<longrightarrow> about dn obj) \<and>
     (\<forall>d b. pg_action s = Some (d, b) \<longrightarrow> d = dn) \<and> list_all (call_about dn) (pg_sent s)"

lemma run_action_about [js_inv]: "page_about about dn s \<Longrightarrow> call_about dn c \<Longrightarrow> page_about about dn (run_action b c s)"
  by (simp add: page_about_def run_action_def)

lemma page_step_about [js_inv]:
  assumes ok: "page_about about dn s" and "\<forall>d. ev \<noteq> Navigate d"
    and honest: "\<And>i obj. page_arrival ev = Some (i, obj) \<Longrightarrow> i < length (pg_requests s) \<Longrightarrow> about (pg_requests s ! i) obj"
  shows "page_about about dn (page_step ev s)"
proof (cases ev)
  case (Loaded i a)
  show ?thesis
  proof (cases "i < length (pg_requests s)")
    case True
    then have "pg_requests s ! i = dn" using ok by (metis nth_mem page_about_def singletonD)
    with Loaded honest [of i] ok True show ?thesis
      by (auto simp: page_step_def page_about_def page_arrival_def split: sum.split)
  qed (use ok Loaded in \<open>simp add: page_step_def\<close>)
next
  case (ActionAnswered a)
  with ok show ?thesis
    by (auto simp: page_step_def page_about_def split: option.split sum.split)
next
  case (Navigate d)
  with assms(2) show ?thesis by simp
next
  case (ClickSave)
  with ok show ?thesis
    by (auto simp: page_step_def Let_def call_about_def split: option.split intro!: run_action_about) (simp_all add: page_about_def)
next
  case (ClickEnable)
  with ok show ?thesis
    by (auto simp: page_step_def call_about_def split: option.split intro!: run_action_about) (simp_all add: page_about_def)
next
  case (ClickBlockInheritance)
  with ok show ?thesis
    by (auto simp: page_step_def call_about_def split: option.split intro!: run_action_about) (simp_all add: page_about_def)
next
  case (ChooseGroupKind k)
  with ok show ?thesis
    by (auto simp: page_step_def call_about_def split: option.split intro!: run_action_about) (simp_all add: page_about_def)
qed (use ok in \<open>auto simp: page_step_def page_about_def split: option.split\<close>)



text \<open>The tab stays over a move: the members tab of a group is drawn for a user, to whom it is not offered.\<close>

theorem members_tab_stays_for_a_user:
  assumes "pg_object s = Some g" and "objectType g = ''group''" and "other \<noteq> pg_address s" and "objectType u \<noteq> ''group''"
  shows "let s' = fold page_step [SelectTab MembersTab, Navigate other, Loaded (length (pg_requests s)) (Inr u)] s
         in pg_object s' = Some u \<and> drawn_part (pg_tab s') u = Some MembersTab \<and> MembersTab \<notin> set (tabs_of u)"
  using assms by (simp add: page_step_def tabs_of_def drawn_part_def)

theorem members_tab_stays_for_a_user_witness:
  "let g = \<lparr>distinguishedName = ''CN=g'', objectType = ''group'', attributes = []\<rparr>;
       u = \<lparr>distinguishedName = ''CN=u'', objectType = ''user'', attributes = []\<rparr>;
       s' = fold page_step [SelectTab MembersTab, Navigate ''CN=u'', Loaded 1 (Inr u)] (page_step (Loaded 0 (Inr g)) (page_open ''CN=g'' None))
   in pg_object s' = Some u \<and> drawn_part (pg_tab s') u = Some MembersTab \<and> MembersTab \<notin> set (tabs_of u)"
  using members_tab_stays_for_a_user
    [of "page_step (Loaded 0 (Inr \<lparr>distinguishedName = ''CN=g'', objectType = ''group'', attributes = []\<rparr>)) (page_open ''CN=g'' None)"
        "\<lparr>distinguishedName = ''CN=g'', objectType = ''group'', attributes = []\<rparr>" "''CN=u''"
        "\<lparr>distinguishedName = ''CN=u'', objectType = ''user'', attributes = []\<rparr>"]
  by (simp add: page_step_def page_open_def)

section \<open>What the members dialog stores\<close>

lemma members_step_members [simp]: "md_members (members_step obj ev s) = md_members s"
  by (simp add: members_step_def split: members_event.split)

lemma members_run_members [simp]: "md_members (fold (members_step obj) evs s) = md_members s"
  by (induction evs arbitrary: s) simp_all

definition names_known :: "string set \<Rightarrow> members_event \<Rightarrow> bool" where
  "names_known S ev = (case ev of Found objs \<Rightarrow> distinguishedName ` set objs \<subseteq> S | _ \<Rightarrow> True)"

definition dialog_ok :: "string set \<Rightarrow> members_dialog \<Rightarrow> bool" where
  "dialog_ok S s \<longleftrightarrow>
     set (md_members s) \<subseteq> S \<and> distinguishedName ` set (md_candidates s) \<subseteq> S \<and> set (md_add s) \<subseteq> S \<and>
     set (md_remove s) \<subseteq> set (md_members s) \<and> set (md_add s) \<inter> set (md_members s) \<subseteq> set (md_remove s)"

lemma members_step_ok [js_inv]: "names_known S ev \<Longrightarrow> dialog_ok S s \<Longrightarrow> dialog_ok S (members_step obj ev s)"
  by (auto simp: members_step_def dialog_ok_def names_known_def wanted_members_def pending_def Let_def split: members_event.splits)

text \<open>Applying the dialog stores the members it shows, but for those taken out and put in again: the
  control plane, told both, finds each of them there, does not add it and takes it out, although the
  dialog shows it among the members.\<close>

theorem stored_members_are_those_shown_but_for_those_put_back:
  assumes "inj_on to_lower S" and "set (md_members (members_open g)) \<subseteq> S" and "\<forall>ev \<in> set evs. names_known S ev"
    and "s = fold (members_step g) evs (members_open g)"
  shows "set (edit_members (md_members s) (md_add s) (md_remove s)) = set (pending s) - set (md_add s) \<inter> set (md_members s) \<and>
         set (md_add s) \<inter> set (md_members s) \<subseteq> set (pending s)"
proof -
  have "dialog_ok S u \<Longrightarrow> \<forall>ev \<in> set evs. names_known S ev \<Longrightarrow> dialog_ok S (fold (members_step g) evs u)" for u
    by (induction evs arbitrary: u) (auto intro: members_step_ok)
  moreover have "dialog_ok S (members_open g)" using assms(2) by (simp add: dialog_ok_def members_open_def)
  ultimately have ok: "dialog_ok S s" using assms(3,4) by blast
  have m: "to_lower x \<in> to_lower ` A \<longleftrightarrow> x \<in> A" if "x \<in> S" "A \<subseteq> S" for x A
    using assms(1) that by (auto dest: inj_onD)
  have sub: "set (md_members s) \<subseteq> S" "set (md_add s) \<subseteq> S" "set (md_remove s) \<subseteq> S"
    using ok by (auto simp: dialog_ok_def)
  have rem: "filter (\<lambda>x. to_lower x \<in> to_lower ` set (md_members s)) (md_remove s) = md_remove s"
    using ok by (auto simp: dialog_ok_def intro!: filter_True)
  have e: "edit_members (md_members s) (md_add s) (md_remove s) =
      filter (\<lambda>x. to_lower x \<notin> to_lower ` set (md_remove s))
        (md_members s @ filter (\<lambda>x. to_lower x \<notin> to_lower ` set (md_members s)) (md_add s))"
    by (simp only: edit_members_def Let_def rem)
  have a: "to_lower x \<in> to_lower ` set (md_members s) \<longleftrightarrow> x \<in> set (md_members s)" if "x \<in> set (md_add s)" for x
    using m [of x "set (md_members s)"] sub that by blast
  have r: "to_lower x \<in> to_lower ` set (md_remove s) \<longleftrightarrow> x \<in> set (md_remove s)" if "x \<in> set (md_members s) \<union> set (md_add s)" for x
    using m [of x "set (md_remove s)"] sub that by blast
  have "set (edit_members (md_members s) (md_add s) (md_remove s)) =
      {x \<in> set (md_members s) \<union> (set (md_add s) - set (md_members s)). x \<notin> set (md_remove s)}"
    unfolding e set_filter set_append using a r by blast
  then show ?thesis
    using ok by (auto simp: pending_def dialog_ok_def)
qed

theorem stored_members_are_those_shown_but_for_those_put_back_witness:
  "let g = \<lparr>distinguishedName = ''CN=g'', objectType = ''group'', attributes = [(''member'', JArr [JStr ''CN=a'', JStr ''CN=b''])]\<rparr>;
       u = (\<lambda>n. \<lparr>distinguishedName = n, objectType = ''user'', attributes = []\<rparr>);
       s = fold (members_step g) [ClickRemove ''CN=a'', Found [u ''CN=a'', u ''CN=c''], ClickCandidate ''CN=a'', ClickCandidate ''CN=c''] (members_open g)
   in pending s = [''CN=b'', ''CN=a'', ''CN=c''] \<and> set (edit_members (md_members s) (md_add s) (md_remove s)) = {''CN=b'', ''CN=c''}"
proof -
  define g where "g = \<lparr>distinguishedName = ''CN=g'', objectType = ''group'', attributes = [(''member'', JArr [JStr ''CN=a'', JStr ''CN=b''])]\<rparr>"
  define u where "u = (\<lambda>n. \<lparr>distinguishedName = n, objectType = ''user'', attributes = []\<rparr>)"
  define evs where "evs = [ClickRemove ''CN=a'', Found [u ''CN=a'', u ''CN=c''], ClickCandidate ''CN=a'', ClickCandidate ''CN=c'']"
  define s where "s = fold (members_step g) evs (members_open g)"
  have s: "s = \<lparr>md_members = [''CN=a'', ''CN=b''], md_candidates = [u ''CN=a'', u ''CN=c''], md_add = [''CN=a'', ''CN=c''], md_remove = [''CN=a'']\<rparr>"
    by (simp add: s_def evs_def g_def u_def members_open_def members_step_def attr_def pending_def wanted_members_def Let_def)
  have l: "to_lower ''CN=a'' = ''cn=a''" "to_lower ''CN=b'' = ''cn=b''" "to_lower ''CN=c'' = ''cn=c''" by code_simp+
  have "set (edit_members (md_members s) (md_add s) (md_remove s)) = set (pending s) - set (md_add s) \<inter> set (md_members s) \<and>
         set (md_add s) \<inter> set (md_members s) \<subseteq> set (pending s)"
    by (rule stored_members_are_those_shown_but_for_those_put_back [where S = "{''CN=a'', ''CN=b'', ''CN=c''}" and g = g and evs = evs])
       (simp_all add: s_def l evs_def names_known_def u_def members_open_def g_def attr_def)
  then have "set (edit_members (md_members s) (md_add s) (md_remove s)) = {''CN=b'', ''CN=c''}"
    by (auto simp: s pending_def)
  moreover have "pending s = [''CN=b'', ''CN=a'', ''CN=c'']" by (simp add: s pending_def)
  ultimately show ?thesis
    by (simp only: Let_def g_def [symmetric] u_def [symmetric] evs_def [symmetric] s_def [symmetric] simp_thms)
qed

end
