(* ===== verification/MachineTabs.thy ===== *)
theory MachineTabs
  imports Loaders Csv SignIn JsNumber
begin

text \<open>
  The tabs of a computer's page (\<^verbatim>\<open>pages/ObjectDetail.tsx\<close>): its log, filtered and exported; the files
  on its disk, with the dialog of their permissions; its local accounts; the offer to share a screen; and
  the query that keeps a group's members. What a machine answers is a value of the records here; a time is
  the text it came as, and \<open>stamp\<close> is what \<open>toISOString\<close> makes of it.

  The file tab is a loader that drops late answers but goes on showing the last listing while the next is
  read: it interprets \<open>latest_loader\<close>.
\<close>

section \<open>The log\<close>

record log_entry =
  le_priority :: int
  le_message :: string
  le_occurred_at :: string

record log_group =
  lg_unit :: string
  lg_count :: nat
  lg_errors :: nat
  lg_entries :: "log_entry list"

definition log_matches :: "bool \<Rightarrow> string \<Rightarrow> log_group \<Rightarrow> log_entry \<Rightarrow> bool" where
  "log_matches errorsOnly lowered g e \<longleftrightarrow>
     (errorsOnly \<longrightarrow> le_priority e \<le> 3) \<and>
     (lowered = [] \<or> js_includes (to_lower (le_message e)) lowered \<or> js_includes (to_lower (lg_unit g)) lowered)"

definition log_shown :: "bool \<Rightarrow> string \<Rightarrow> log_group list \<Rightarrow> log_group list" where
  "log_shown errorsOnly needle groups =
     (let lowered = to_lower (js_trim needle)
      in if errorsOnly \<or> lowered \<noteq> []
         then filter (\<lambda>g. lg_entries g \<noteq> [])
                (map (\<lambda>g. g\<lparr>lg_entries := filter (log_matches errorsOnly lowered g) (lg_entries g)\<rparr>) groups)
         else groups)"

definition log_showing :: "log_group list \<Rightarrow> nat" where
  "log_showing shown = sum_list (map (\<lambda>g. length (lg_entries g)) shown)"

definition log_level :: "log_entry \<Rightarrow> string" where
  "log_level e = (if le_priority e \<le> 3 then ''error'' else ''warning'')"

definition log_row :: "(string \<Rightarrow> string) \<Rightarrow> log_group \<Rightarrow> log_entry \<Rightarrow> string list" where
  "log_row stamp g e = [stamp (le_occurred_at e), lg_unit g, log_level e, le_message e]"

definition log_rows :: "(string \<Rightarrow> string) \<Rightarrow> log_group list \<Rightarrow> string list list" where
  "log_rows stamp shown =
     [''time'', ''unit'', ''level'', ''message''] # concat (map (\<lambda>g. map (log_row stamp g) (lg_entries g)) shown)"

definition log_csv :: "string list list \<Rightarrow> string" where
  "log_csv rows = join_with [CHR 0x0A]
     (map (\<lambda>row. join_with '','' (map (\<lambda>cell. CHR 0x22 # csv_quoted cell @ [CHR 0x22]) row)) rows)"

definition exportView :: "(string \<Rightarrow> string) \<Rightarrow> bool \<Rightarrow> string \<Rightarrow> log_group list \<Rightarrow> string" where
  "exportView stamp errorsOnly needle groups = log_csv (log_rows stamp (log_shown errorsOnly needle groups))"

text \<open>The groups that are open: after a load those with errors, and a click turns one over.\<close>

definition log_open :: "log_group list \<Rightarrow> string set" where
  "log_open groups = set (map lg_unit (filter (\<lambda>g. 0 < lg_errors g) groups))"

definition log_toggle :: "string \<Rightarrow> string set \<Rightarrow> string set" where
  "log_toggle unit open' = (if unit \<in> open' then open' - {unit} else insert unit open')"

section \<open>The files\<close>

record file_entry =
  fe_name :: string
  fe_path :: string
  fe_directory :: bool
  fe_owner :: "string option"
  fe_group :: "string option"
  fe_mode :: "string option"

record directory_listing =
  dl_path :: string
  dl_parent :: "string option"
  dl_entries :: "file_entry list"

record files_tab =
  ft_runs :: "(string \<times> string) list"
  ft_listing :: "directory_listing option"
  ft_loading :: bool
  ft_error :: "string option"
  ft_editing :: "file_entry option"

definition files_open :: "string \<Rightarrow> files_tab" where
  "files_open hostname = \<lparr>ft_runs = [(hostname, ''/'')], ft_listing = None, ft_loading = True, ft_error = None, ft_editing = None\<rparr>"

definition ft_path :: "files_tab \<Rightarrow> string" where
  "ft_path s = snd (last (ft_runs s))"

definition files_request :: "files_tab \<Rightarrow> api_call" where
  "files_request s = Call_servers (Srv_browse (fst (last (ft_runs s))) (ft_path s) False True)"

definition browse :: "string \<Rightarrow> files_tab \<Rightarrow> files_tab" where
  "browse path s =
     (if path = ft_path s then s
      else s\<lparr>ft_runs := ft_runs s @ [(fst (last (ft_runs s)), path)], ft_loading := True, ft_error := None\<rparr>)"

datatype (plugins only: code size) files_event =
    ClickEntry file_entry
  | ClickUp
  | ClickTop
  | Listed nat "string + directory_listing"
  | ClickPermissions file_entry
  | PermissionsClosed
  | PermissionsSaved nat directory_listing

text \<open>The dialog of permissions is over the page, so nothing is browsed while it is open, and its answer is that
  of the directory it was opened in.\<close>

definition files_step :: "files_event \<Rightarrow> files_tab \<Rightarrow> files_tab" where
  "files_step ev s =
     (case ev of
        ClickEntry e \<Rightarrow> (if ft_editing s = None \<and> fe_directory e then browse (fe_path e) s else s)
      | ClickUp \<Rightarrow>
          (if ft_editing s = None \<and> ft_path s \<noteq> ''/''
           then (case ft_listing s of
                   None \<Rightarrow> s
                 | Some l \<Rightarrow> (case dl_parent l of None \<Rightarrow> s | Some p \<Rightarrow> browse p s))
           else s)
      | ClickTop \<Rightarrow> (if ft_editing s = None then browse ''/'' s else s)
      | Listed i a \<Rightarrow>
          (if i \<noteq> length (ft_runs s) - 1 then s
           else (case a of
                   Inl msg \<Rightarrow> s\<lparr>ft_error := Some msg, ft_loading := False\<rparr>
                 | Inr l \<Rightarrow> s\<lparr>ft_listing := Some l, ft_loading := False\<rparr>))
      | ClickPermissions e \<Rightarrow> (if ft_editing s = None then s\<lparr>ft_editing := Some e\<rparr> else s)
      | PermissionsClosed \<Rightarrow> s\<lparr>ft_editing := None\<rparr>
      | PermissionsSaved i l \<Rightarrow>
          (if ft_editing s = None \<or> i \<noteq> length (ft_runs s) - 1 then s else s\<lparr>ft_editing := None, ft_listing := Some l\<rparr>))"

section \<open>Permissions\<close>

record permissions_form =
  pf_owner :: string
  pf_group :: string
  pf_mode :: string
  pf_recursive :: bool

definition was :: "string option \<Rightarrow> string" where
  "was x = (case x of None \<Rightarrow> [] | Some v \<Rightarrow> v)"

definition permissions_open :: "file_entry \<Rightarrow> permissions_form" where
  "permissions_open e = \<lparr>pf_owner = was (fe_owner e), pf_group = was (fe_group e), pf_mode = was (fe_mode e), pf_recursive = False\<rparr>"

definition permissions_changed :: "file_entry \<Rightarrow> permissions_form \<Rightarrow> bool" where
  "permissions_changed e f \<longleftrightarrow> pf_owner f \<noteq> was (fe_owner e) \<or> pf_group f \<noteq> was (fe_group e) \<or> pf_mode f \<noteq> was (fe_mode e)"

definition if_changed :: "string option \<Rightarrow> string \<Rightarrow> jsval" where
  "if_changed old v = JStr (if v \<noteq> was old then v else [])"

definition permissions_submit :: "string \<Rightarrow> file_entry \<Rightarrow> permissions_form \<Rightarrow> api_call option" where
  "permissions_submit hostname e f =
     (if \<not> permissions_changed e f then None
      else Some (Call_servers (Srv_setPermissions (JObj
        [(''node'', JStr hostname), (''path'', JStr (fe_path e)),
         (''owner'', if_changed (fe_owner e) (pf_owner f)), (''group'', if_changed (fe_group e) (pf_group f)),
         (''mode'', if_changed (fe_mode e) (pf_mode f)), (''recursive'', JBool (pf_recursive f))]))))"

section \<open>Local accounts\<close>

text \<open>\<open>split(/[\s,]+/)\<close>, trimmed and without the empty pieces: the words between blanks and commas.\<close>

definition word_break :: "char \<Rightarrow> bool" where
  "word_break c \<longleftrightarrow> is_space c \<or> c = CHR '',''"

fun words_of :: "string \<Rightarrow> string \<Rightarrow> string list" where
  "words_of word [] = (if word = [] then [] else [word])"
| "words_of word (c # s) =
     (if word_break c then (if word = [] then words_of [] s else word # words_of [] s) else words_of (word @ [c]) s)"

record local_user_form =
  lu_name :: string
  lu_full_name :: string
  lu_shell :: string
  lu_groups :: string
  lu_password :: string

definition local_user_open :: local_user_form where
  "local_user_open = \<lparr>lu_name = [], lu_full_name = [], lu_shell = ''/bin/bash'', lu_groups = [], lu_password = []\<rparr>"

definition local_user_submit :: "string \<Rightarrow> local_user_form \<Rightarrow> api_call" where
  "local_user_submit dn f =
     Call_servers (Srv_action dn ''local-user-add'' None (JObj
       [(''name'', JStr (lu_name f)), (''full_name'', JStr (lu_full_name f)), (''shell'', JStr (lu_shell f)),
        (''groups'', JArr (map JStr (words_of [] (lu_groups f)))), (''password'', JStr (lu_password f))]) None)"

definition password_mismatch :: "string \<Rightarrow> string \<Rightarrow> bool" where
  "password_mismatch password again \<longleftrightarrow> again \<noteq> [] \<and> again \<noteq> password"

definition local_password_submit :: "string \<Rightarrow> string \<Rightarrow> string \<Rightarrow> string \<Rightarrow> api_call option" where
  "local_password_submit dn name password again =
     (if length password < 8 \<or> password_mismatch password again then None
      else Some (Call_servers (Srv_action dn ''local-user-password'' None
        (JObj [(''name'', JStr name), (''password'', JStr password)]) None)))"

text \<open>A user of the machine that can be deleted: not root.\<close>

definition local_user_remove :: "string \<Rightarrow> string \<Rightarrow> int \<Rightarrow> api_call option" where
  "local_user_remove dn name uid =
     (if uid \<noteq> 0 then Some (Call_servers (Srv_action dn ''local-user-remove'' None (JObj [(''name'', JStr name)]) None)) else None)"

definition install_submit :: "string \<Rightarrow> string \<Rightarrow> api_call option" where
  "install_submit dn name =
     (if js_trim name \<noteq> [] then Some (Call_servers (Srv_action dn ''package-install'' (Some (js_trim name)) JUndef None)) else None)"

definition packages_shown :: "string \<Rightarrow> (string \<times> string) list \<Rightarrow> (string \<times> string) list" where
  "packages_shown packageFilter packages =
     filter (\<lambda>p. packageFilter = [] \<or> js_includes (to_lower (fst p)) (to_lower packageFilter)) packages"

section \<open>What a task printed\<close>

datatype (plugins only: code size) task_output = NoOutput | ShortOutput string | LongOutput nat string | OpenOutput nat string

definition TaskOutput :: "bool \<Rightarrow> string \<Rightarrow> task_output" where
  "TaskOutput open' output =
     (let trimmed = js_trim output
      in if trimmed = [] then NoOutput
         else if length trimmed \<le> 160 \<and> CHR 0x0A \<notin> set trimmed then ShortOutput trimmed
         else if open' then OpenOutput (length trimmed) trimmed
         else LongOutput (length trimmed) (take 120 trimmed @ ellipsis))"

section \<open>Sharing a screen\<close>

definition viewerUrl :: "string \<Rightarrow> string" where
  "viewerUrl session = ''/assist/'' @ encodeURIComponent session"

record assist_offer =
  ao_protocol :: string
  ao_session :: string
  ao_minutes :: int

datatype (plugins only: code size) assist_view = AskForm | WatchScreen string bool | RemoteDesktopOffer assist_offer

definition AssistDialog :: "assist_offer option \<Rightarrow> bool \<Rightarrow> assist_view" where
  "AssistDialog offer opened =
     (case offer of
        None \<Rightarrow> AskForm
      | Some a \<Rightarrow> if ao_protocol a = ''vnc'' \<and> ao_session a \<noteq> [] then WatchScreen (viewerUrl (ao_session a)) opened
                  else RemoteDesktopOffer a)"

definition assist_ask :: "string \<Rightarrow> string \<Rightarrow> int \<Rightarrow> api_call" where
  "assist_ask dn username minutes = Call_machines (Mach_assist dn username minutes)"

section \<open>A group by query\<close>

record query_condition =
  qc_attribute :: string
  qc_operator :: string
  qc_value :: string

record group_query =
  gq_group_dn :: string
  gq_scope_dn :: string
  gq_object_type :: string
  gq_conditions :: "query_condition list"
  gq_match_all :: bool

record query_dialog =
  qd_query :: "group_query option"
  qd_open :: bool
  qd_draft :: "query_condition list"
  qd_objectType :: string
  qd_matchAll :: bool
  qd_scope :: string

definition NEW_CONDITION :: query_condition where
  "NEW_CONDITION = \<lparr>qc_attribute = ''department'', qc_operator = ''is'', qc_value = []\<rparr>"

definition query_start :: query_dialog where
  "query_start = \<lparr>qd_query = None, qd_open = False, qd_draft = [], qd_objectType = ''user'', qd_matchAll = True, qd_scope = []\<rparr>"

text \<open>The effect on \<open>[open, query]\<close>: the form starts from the query whenever either changes.\<close>

definition query_refill :: "query_dialog \<Rightarrow> query_dialog" where
  "query_refill s =
     (if \<not> qd_open s then s
      else (case qd_query s of
              None \<Rightarrow> s\<lparr>qd_draft := [NEW_CONDITION], qd_objectType := ''user'', qd_matchAll := True, qd_scope := []\<rparr>
            | Some q \<Rightarrow> s\<lparr>qd_draft := gq_conditions q, qd_objectType := gq_object_type q, qd_matchAll := gq_match_all q,
                          qd_scope := gq_scope_dn q\<rparr>))"

datatype (plugins only: code size) query_event =
    QueriesArrived "group_query list"
  | OpenQuery
  | CloseQuery
  | ChangeCondition nat query_condition
  | RemoveCondition nat
  | AddCondition
  | ChooseType string
  | ChooseMatch bool
  | ChooseScope string

definition drop_nth :: "nat \<Rightarrow> 'a list \<Rightarrow> 'a list" where
  "drop_nth i xs = take i xs @ drop (Suc i) xs"

definition query_step :: "string \<Rightarrow> query_event \<Rightarrow> query_dialog \<Rightarrow> query_dialog" where
  "query_step group_dn ev s =
     (case ev of
        QueriesArrived qs' \<Rightarrow>
          (let q = find (\<lambda>q. to_lower (gq_group_dn q) = to_lower group_dn) qs'
           in if q = None \<and> qd_query s = None then s else query_refill (s\<lparr>qd_query := q\<rparr>))
      | OpenQuery \<Rightarrow> (if qd_open s then s else query_refill (s\<lparr>qd_open := True\<rparr>))
      | CloseQuery \<Rightarrow> s\<lparr>qd_open := False\<rparr>
      | _ \<Rightarrow>
          (if \<not> qd_open s then s
           else (case ev of
                   ChangeCondition i c \<Rightarrow> s\<lparr>qd_draft := (qd_draft s)[i := c]\<rparr>
                 | RemoveCondition i \<Rightarrow> s\<lparr>qd_draft := drop_nth i (qd_draft s)\<rparr>
                 | AddCondition \<Rightarrow> s\<lparr>qd_draft := qd_draft s @ [NEW_CONDITION]\<rparr>
                 | ChooseType t \<Rightarrow> s\<lparr>qd_objectType := t\<rparr>
                 | ChooseMatch b \<Rightarrow> s\<lparr>qd_matchAll := b\<rparr>
                 | ChooseScope d \<Rightarrow> s\<lparr>qd_scope := d\<rparr>
                 | _ \<Rightarrow> s)))"

definition condition_json :: "query_condition \<Rightarrow> jsval" where
  "condition_json c = JObj [(''attribute'', JStr (qc_attribute c)), (''operator'', JStr (qc_operator c)), (''value'', JStr (qc_value c))]"

definition query_save :: "string \<Rightarrow> query_dialog \<Rightarrow> api_call" where
  "query_save group_dn s =
     Call_directory (Dir_saveGroupQuery (JObj
       [(''group_dn'', JStr group_dn), (''scope_dn'', JStr (qd_scope s)), (''object_type'', JStr (qd_objectType s)),
        (''conditions'', JArr (map condition_json (filter (\<lambda>c. qc_attribute c \<noteq> []) (qd_draft s)))),
        (''match_all'', JBool (qd_matchAll s)), (''enabled'', JBool True)]))"

section \<open>The exported log\<close>

lemma csv_go_quoted_cell:
  assumes "case s of d # t \<Rightarrow> d \<noteq> CHR 0x22 | [] \<Rightarrow> True"
  shows "csv_go False [] row rows (CHR 0x22 # csv_quoted cell @ CHR 0x22 # s) = csv_go False cell row rows s"
  using csv_go_quoted [OF assms, of "[]" row rows cell] by simp

definition log_line :: "string list \<Rightarrow> string" where
  "log_line row = join_with '','' (map (\<lambda>cell. CHR 0x22 # csv_quoted cell @ [CHR 0x22]) row)"

lemma log_line_Cons: "log_line (c # d # row) = CHR 0x22 # csv_quoted c @ CHR 0x22 # CHR '','' # log_line (d # row)"
  by (simp add: log_line_def)

lemma log_line_go:
  assumes "cells \<noteq> []"
  shows "csv_go False [] row rows (log_line cells @ CHR 0x0A # s) = csv_go False [] [] (rows @ [row @ cells]) s"
    and "1 < length (row @ cells) \<Longrightarrow> csv_go False [] row rows (log_line cells) = rows @ [row @ cells]"
  using assms
proof (induction cells arbitrary: row)
  case (Cons c cells)
  note IH = Cons.IH
  {
    case 1
    show ?case
    proof (cases cells)
      case Nil
      then show ?thesis using csv_go_quoted_cell [of "CHR 0x0A # s" row rows c] by (simp add: log_line_def)
    next
      case (Cons d ds)
      then show ?thesis
        using IH(1) [of "row @ [c]"] csv_go_quoted_cell [of "CHR '','' # log_line cells @ CHR 0x0A # s" row rows c]
        by (simp add: log_line_Cons)
    qed
  next
    case 2
    show ?case
    proof (cases cells)
      case Nil
      with 2 have "row \<noteq> []" by auto
      with Nil show ?thesis using csv_go_quoted_cell [of "[]" row rows c] by (simp add: log_line_def)
    next
      case (Cons d ds)
      then show ?thesis
        using IH(2) [of "row @ [c]"] csv_go_quoted_cell [of "CHR '','' # log_line cells" row rows c] 2
        by (simp add: log_line_Cons)
    qed
  }
qed simp_all

lemma log_csv_go:
  assumes "\<And>r. r \<in> set rs \<Longrightarrow> 1 < length r" and "rs \<noteq> []"
  shows "csv_go False [] [] rows (log_csv rs) = rows @ rs"
  using assms
proof (induction rs arbitrary: rows)
  case (Cons r rs)
  have len: "1 < length r" using Cons.prems(1) by simp
  then have ne: "r \<noteq> []" by auto
  show ?case
  proof (cases rs)
    case Nil
    then show ?thesis using log_line_go(2) [OF ne, of "[]" rows] len by (simp add: log_csv_def log_line_def)
  next
    case (Cons r' rs')
    then have "log_csv (r # rs) = log_line r @ CHR 0x0A # log_csv rs" by (simp add: log_csv_def log_line_def)
    then show ?thesis
      using log_line_go(1) [OF ne, of "[]" rows "log_csv rs"] Cons.IH [of "rows @ [r]"] Cons.prems Cons by simp
  qed
qed simp

lemma log_rows_shown:
  "log_rows stamp (log_shown errorsOnly needle groups) =
   [''time'', ''unit'', ''level'', ''message''] #
   concat (map (\<lambda>g. map (log_row stamp g) (filter (log_matches errorsOnly (to_lower (js_trim needle)) g) (lg_entries g))) groups)"
proof (cases "errorsOnly \<or> to_lower (js_trim needle) \<noteq> []")
  case True
  have "log_row stamp (g\<lparr>lg_entries := es\<rparr>) = log_row stamp g" for g es
    by (simp add: log_row_def fun_eq_iff)
  with True show ?thesis
    by (induction groups) (auto simp: log_rows_def log_shown_def Let_def)
next
  case False
  then show ?thesis by (simp add: log_rows_def log_shown_def log_matches_def)
qed

text \<open>C25: The exported log is what is on the screen, and says so to whoever reads it back: the console's own CSV
  reader gets the header and one row for each entry that passes the filter, in the order shown, whatever
  commas, quotes or line breaks its message holds.\<close>

theorem exported_log_reads_back:
  "parseCsv (exportView stamp errorsOnly needle groups) =
   [''time'', ''unit'', ''level'', ''message''] #
   concat (map (\<lambda>g. map (log_row stamp g) (filter (log_matches errorsOnly (to_lower (js_trim needle)) g) (lg_entries g))) groups)"
proof -
  let ?rows = "log_rows stamp (log_shown errorsOnly needle groups)"
  have len: "1 < length r" if "r \<in> set ?rows" for r
    using that by (auto simp: log_rows_def log_row_def)
  have "\<not> csv_blank r" if "r \<in> set ?rows" for r
  proof -
    have "js_trim ''error'' = ''error''" "js_trim ''warning'' = ''warning''" "js_trim ''time'' = ''time''" by code_simp+
    with that show ?thesis by (auto simp: log_rows_def log_row_def log_level_def csv_blank_def split: if_splits)
  qed
  then have "filter (\<lambda>r. \<not> csv_blank r) ?rows = ?rows" by (intro filter_True) blast
  moreover have "csv_go False [] [] [] (log_csv ?rows) = [] @ ?rows"
    by (rule log_csv_go [OF len]) (simp_all add: log_rows_def)
  ultimately show ?thesis by (simp add: parseCsv_def exportView_def log_rows_shown)
qed

section \<open>The file tab\<close>

definition files_arrival :: "files_event \<Rightarrow> (nat \<times> directory_listing) option" where
  "files_arrival ev = (case ev of Listed i (Inr l) \<Rightarrow> Some (i, l) | PermissionsSaved i l \<Rightarrow> Some (i, l) | _ \<Rightarrow> None)"

interpretation files: latest_loader files_step ft_runs "\<lambda>s. \<not> ft_loading s \<and> ft_error s = None" ft_listing files_arrival
proof
  fix ev s
  assume "ft_runs (files_step ev s) \<noteq> ft_runs s"
  then show "\<exists>k. ft_runs (files_step ev s) = ft_runs s @ [k] \<and> \<not> (\<not> ft_loading (files_step ev s) \<and> ft_error (files_step ev s) = None)"
    by (auto simp: files_step_def browse_def split: files_event.splits if_splits option.splits sum.splits)
next
  fix ev s v
  assume "ft_runs (files_step ev s) = ft_runs s" and "\<not> ft_loading (files_step ev s) \<and> ft_error (files_step ev s) = None"
    and "ft_listing (files_step ev s) = Some v"
  then show "(\<not> ft_loading s \<and> ft_error s = None) \<and> ft_listing s = Some v \<or> files_arrival ev = Some (length (ft_runs s) - 1, v)"
    by (auto simp: files_step_def files_arrival_def browse_def split: files_event.splits if_splits option.splits sum.splits)
qed

text \<open>When nothing is being read and nothing failed, the files listed are those of the path above them: a
  listing of a directory left meanwhile is dropped, whenever it comes.\<close>

theorem files_listed_are_those_of_the_path:
  assumes "honest files_step ft_runs files_arrival good evs (files_open hostname)" and "s = fold files_step evs (files_open hostname)"
    and "\<not> ft_loading s" and "ft_error s = None" and "ft_listing s = Some l"
  shows "good (last (ft_runs s)) l"
  using files.shown_answers_the_last_request [OF _ assms(1)] assms(2-5) by (simp add: files_open_def)

theorem files_listed_are_those_of_the_path_witness:
  "let e = \<lparr>fe_name = ''etc'', fe_path = ''/etc'', fe_directory = True, fe_owner = None, fe_group = None, fe_mode = None\<rparr>;
       l = (\<lambda>p. \<lparr>dl_path = p, dl_parent = Some ''/'', dl_entries = [e]\<rparr>);
       s = fold files_step [Listed 0 (Inr (l ''/'')), ClickEntry e, ClickTop, Listed 2 (Inr (l ''/'')), Listed 1 (Inr (l ''/etc''))] (files_open ''h'')
   in ft_listing s = Some (l ''/'') \<and> dl_path (l ''/'') = snd (last (ft_runs s))"
proof -
  define e where "e = \<lparr>fe_name = ''etc'', fe_path = ''/etc'', fe_directory = True, fe_owner = None, fe_group = None, fe_mode = None\<rparr>"
  define l where "l = (\<lambda>p. \<lparr>dl_path = p, dl_parent = Some ''/'', dl_entries = [e]\<rparr>)"
  define evs where "evs = [Listed 0 (Inr (l ''/'')), ClickEntry e, ClickTop, Listed 2 (Inr (l ''/'')), Listed 1 (Inr (l ''/etc''))]"
  define s where "s = fold files_step evs (files_open ''h'')"
  have s: "ft_listing s = Some (l ''/'')" "\<not> ft_loading s" "ft_error s = None"
    by (simp_all add: s_def evs_def files_step_def files_open_def browse_def ft_path_def e_def)
  have "(\<lambda>k x. dl_path x = snd k) (last (ft_runs s)) (l ''/'')"
    by (rule files_listed_are_those_of_the_path [where hostname = "''h''" and evs = evs, OF _ s_def s(2,3,1)])
       (simp add: evs_def files_arrival_def files_step_def files_open_def browse_def ft_path_def e_def l_def)
  then have "ft_listing s = Some (l ''/'') \<and> dl_path (l ''/'') = snd (last (ft_runs s))" using s(1) by simp
  then show ?thesis by (simp only: Let_def s_def evs_def l_def e_def)
qed

text \<open>The way up is that of the listing, not of the path: after a directory that could not be read, Up leaves
  out the one it was opened from.\<close>

theorem up_after_a_failure_skips_a_directory:
  assumes "ft_editing s = None" and "ft_listing s = Some l" and "dl_parent l = Some up" and "fe_directory e"
    and "fe_path e \<noteq> ft_path s" and "fe_path e \<noteq> ''/''" and "up \<noteq> fe_path e"
  shows "ft_path (fold files_step [ClickEntry e, Listed (length (ft_runs s)) (Inl msg), ClickUp] s) = up"
  using assms by (simp add: files_step_def browse_def ft_path_def)

theorem up_after_a_failure_skips_a_directory_witness:
  "let e = (\<lambda>n. \<lparr>fe_name = n, fe_path = n, fe_directory = True, fe_owner = None, fe_group = None, fe_mode = None\<rparr>);
       l = \<lparr>dl_path = ''/home'', dl_parent = Some ''/'', dl_entries = [e ''/home/ada'']\<rparr>;
       s = fold files_step [ClickEntry (e ''/home''), Listed 1 (Inr l)] (files_open ''h'')
   in ft_path s = ''/home'' \<and> ft_path (fold files_step [ClickEntry (e ''/home/ada''), Listed (length (ft_runs s)) (Inl ''denied''), ClickUp] s) = ''/''"
proof -
  define e where "e = (\<lambda>n. \<lparr>fe_name = n, fe_path = n, fe_directory = True, fe_owner = None, fe_group = None, fe_mode = None\<rparr>)"
  define l where "l = \<lparr>dl_path = ''/home'', dl_parent = Some ''/'', dl_entries = [e ''/home/ada'']\<rparr>"
  define s where "s = fold files_step [ClickEntry (e ''/home''), Listed 1 (Inr l)] (files_open ''h'')"
  have s: "ft_editing s = None" "ft_listing s = Some l" "ft_path s = ''/home''"
    by (simp_all add: s_def files_step_def files_open_def browse_def ft_path_def e_def)
  have "ft_path (fold files_step [ClickEntry (e ''/home/ada''), Listed (length (ft_runs s)) (Inl ''denied''), ClickUp] s) = ''/''"
    by (rule up_after_a_failure_skips_a_directory [OF s(1,2)]) (simp_all add: s(3) e_def l_def)
  with s(3) have "ft_path s = ''/home'' \<and>
      ft_path (fold files_step [ClickEntry (e ''/home/ada''), Listed (length (ft_runs s)) (Inl ''denied''), ClickUp] s) = ''/''" by blast
  then show ?thesis by (simp only: Let_def s_def l_def e_def)
qed

section \<open>Forms\<close>

lemma encode_token: "list_all token_char t \<Longrightarrow> encodeURIComponent t = t"
proof (induction t)
  case (Cons c t)
  then have "component_plain c" by (auto simp: token_char_def component_plain_def)
  with Cons show ?case by (simp add: encodeURIComponent_def component_char_def)
qed (simp add: encodeURIComponent_def)

text \<open>The address a shared screen is opened at is one the application knows: for a session the control plane
  gives, 20 to 64 letters, digits, underscores and hyphens, somebody signed in who opens it gets the
  viewer of that session.\<close>

theorem viewer_address_opens_its_session:
  assumes "20 \<le> length t" and "length t \<le> 64" and "list_all token_char t" and "\<not> ap_checking s" and "truthy (ap_session s)"
  shows "App (viewerUrl t) s = AssistPage t"
proof -
  have "viewerUrl t = ''/assist/'' @ t" using encode_token [OF assms(3)] by (simp add: viewerUrl_def)
  moreover have "token_at ''/view/'' (''/assist/'' @ t) = None" by (simp add: token_at_def)
  moreover have "token_at ''/assist/'' (''/assist/'' @ t) = Some t"
    using assms(1-3) by (simp add: token_at_def Let_def js_startsWith_iff)
  ultimately show ?thesis using assms(4,5) by (simp add: App_def)
qed

theorem viewer_address_opens_its_session_witness:
  "App (viewerUrl ''0123456789_-abcdefghij'')
     (app_start\<lparr>ap_checking := False, ap_session := JObj []\<rparr>) = AssistPage ''0123456789_-abcdefghij''"
  by (rule viewer_address_opens_its_session)
     (simp_all add: token_char_def is_alnum_def is_upper_def is_lower_def is_digit_def less_eq_char_def)

text \<open>Only what was changed is sent with a file's permissions, the rest empty; so a field that was emptied is
  sent as one that was left alone.\<close>

theorem emptied_owner_is_sent_as_untouched:
  assumes "permissions_changed e (f\<lparr>pf_owner := was (fe_owner e)\<rparr>)"
  shows "permissions_submit hostname e (f\<lparr>pf_owner := []\<rparr>) = permissions_submit hostname e (f\<lparr>pf_owner := was (fe_owner e)\<rparr>)"
  using assms by (auto simp: permissions_submit_def permissions_changed_def if_changed_def)

theorem emptied_owner_is_sent_as_untouched_witness:
  "let e = \<lparr>fe_name = ''f'', fe_path = ''/f'', fe_directory = False, fe_owner = Some ''ada'', fe_group = None, fe_mode = Some ''0640''\<rparr>;
       f = (permissions_open e)\<lparr>pf_mode := ''0600''\<rparr>
   in permissions_submit ''h'' e (f\<lparr>pf_owner := []\<rparr>) = permissions_submit ''h'' e (f\<lparr>pf_owner := was (fe_owner e)\<rparr>)"
  unfolding Let_def by (rule emptied_owner_is_sent_as_untouched) (simp add: permissions_changed_def permissions_open_def was_def)

text \<open>The tick for everything inside a folder counts for nothing by itself.\<close>

lemma recursion_alone_is_not_sent: "permissions_submit hostname e ((permissions_open e)\<lparr>pf_recursive := True\<rparr>) = None"
  by (simp add: permissions_submit_def permissions_changed_def permissions_open_def)

text \<open>The second password is compared only when it is there.\<close>

theorem password_typed_once_is_enough:
  assumes "8 \<le> length p"
  shows "local_password_submit dn name p [] =
         Some (Call_servers (Srv_action dn ''local-user-password'' None (JObj [(''name'', JStr name), (''password'', JStr p)]) None))"
  using assms by (simp add: local_password_submit_def password_mismatch_def)

theorem password_typed_once_is_enough_witness:
  "local_password_submit ''CN=h'' ''root'' ''correct horse'' [] =
   Some (Call_servers (Srv_action ''CN=h'' ''local-user-password'' None (JObj [(''name'', JStr ''root''), (''password'', JStr ''correct horse'')]) None))"
  by (rule password_typed_once_is_enough) simp

text \<open>Groups typed with any commas and blanks between them are the words.\<close>

lemma words_of_word: "list_all (\<lambda>c. \<not> word_break c) w \<Longrightarrow> words_of u (w @ s) = words_of (u @ w) s"
  by (induction w arbitrary: u) simp_all

lemma words_of_break: "list_all word_break sep \<Longrightarrow> sep \<noteq> [] \<Longrightarrow> u \<noteq> [] \<Longrightarrow> words_of u (sep @ s) = u # words_of [] s"
proof (induction sep)
  case (Cons c sep)
  have "list_all word_break sep \<Longrightarrow> words_of [] (sep @ s) = words_of [] s" by (induction sep) simp_all
  with Cons show ?case by simp
qed simp

lemma words_read_back:
  assumes "list_all word_break sep" and "sep \<noteq> []" and "\<And>w. w \<in> set ws \<Longrightarrow> w \<noteq> [] \<and> list_all (\<lambda>c. \<not> word_break c) w"
  shows "words_of [] (join_with sep ws) = ws"
  using assms
proof (induction sep ws rule: join_with.induct)
  case (2 sep w)
  then show ?case using words_of_word [of w "[]" "[]"] by simp
next
  case (3 sep w v ws)
  then show ?case using words_of_word [of w "[]"] words_of_break [of sep w] by simp
qed simp

text \<open>A group's query that is opened and saved as it is stays as it is: its place, the kind of its members,
  whether all conditions count, and its conditions, each with its attribute, operator and value.\<close>

theorem untouched_query_is_saved_as_it_was:
  assumes "find (\<lambda>q. to_lower (gq_group_dn q) = to_lower dn) queries = Some q" and "\<forall>c \<in> set (gq_conditions q). qc_attribute c \<noteq> []"
    and "evs = [QueriesArrived queries, OpenQuery] \<or> evs = [OpenQuery, QueriesArrived queries]"
  shows "query_save dn (fold (query_step dn) evs query_start) =
         Call_directory (Dir_saveGroupQuery (JObj
           [(''group_dn'', JStr dn), (''scope_dn'', JStr (gq_scope_dn q)), (''object_type'', JStr (gq_object_type q)),
            (''conditions'', JArr (map condition_json (gq_conditions q))), (''match_all'', JBool (gq_match_all q)), (''enabled'', JBool True)]))"
proof -
  have "filter (\<lambda>c. qc_attribute c \<noteq> []) (gq_conditions q) = gq_conditions q" using assms(2) by simp
  with assms(1,3) show ?thesis by (auto simp: query_step_def query_start_def query_refill_def query_save_def)
qed

theorem untouched_query_is_saved_as_it_was_witness:
  "let q = \<lparr>gq_group_dn = ''CN=g'', gq_scope_dn = ''OU=x'', gq_object_type = ''computer'',
            gq_conditions = [\<lparr>qc_attribute = ''title'', qc_operator = ''is'', qc_value = ''x''\<rparr>], gq_match_all = False\<rparr>
   in query_save ''CN=G'' (fold (query_step ''CN=G'') [QueriesArrived [q], OpenQuery] query_start) =
      Call_directory (Dir_saveGroupQuery (JObj
        [(''group_dn'', JStr ''CN=G''), (''scope_dn'', JStr ''OU=x''), (''object_type'', JStr ''computer''),
         (''conditions'', JArr (map condition_json (gq_conditions q))), (''match_all'', JBool False), (''enabled'', JBool True)]))"
proof -
  let ?q = "\<lparr>gq_group_dn = ''CN=g'', gq_scope_dn = ''OU=x'', gq_object_type = ''computer'',
            gq_conditions = [\<lparr>qc_attribute = ''title'', qc_operator = ''is'', qc_value = ''x''\<rparr>], gq_match_all = False\<rparr>"
  have "to_lower ''CN=g'' = ''cn=g''" "to_lower ''CN=G'' = ''cn=g''" by code_simp+
  then show ?thesis
    using untouched_query_is_saved_as_it_was [of "''CN=G''" "[?q]" ?q "[QueriesArrived [?q], OpenQuery]"] by simp
qed

text \<open>What was typed before the queries came is lost when the group has one.\<close>

theorem late_query_discards_what_was_typed:
  assumes "find (\<lambda>q. to_lower (gq_group_dn q) = to_lower dn) queries = Some q" and "qd_open s"
  shows "query_step dn (QueriesArrived queries) (fold (query_step dn) (map (\<lambda>(i, c). ChangeCondition i c) typed) s) =
         query_step dn (QueriesArrived queries) s"
proof -
  have "qd_open u \<Longrightarrow> query_step dn (QueriesArrived queries) (query_step dn (ChangeCondition i c) u) = query_step dn (QueriesArrived queries) u \<and>
      qd_open (query_step dn (ChangeCondition i c) u)" for i c u
    using assms(1) by (simp add: query_step_def query_refill_def)
  then show ?thesis using assms(2) by (induction typed arbitrary: s) auto
qed

theorem late_query_discards_what_was_typed_witness:
  "let q = \<lparr>gq_group_dn = ''CN=g'', gq_scope_dn = [], gq_object_type = ''user'', gq_conditions = [], gq_match_all = True\<rparr>;
       c = \<lparr>qc_attribute = ''title'', qc_operator = ''is'', qc_value = ''x''\<rparr>; s = query_step ''CN=g'' OpenQuery query_start
   in query_step ''CN=g'' (QueriesArrived [q]) (fold (query_step ''CN=g'') (map (\<lambda>(i, c). ChangeCondition i c) [(0, c)]) s) =
      query_step ''CN=g'' (QueriesArrived [q]) s"
  unfolding Let_def
  by (rule late_query_discards_what_was_typed [where q = "\<lparr>gq_group_dn = ''CN=g'', gq_scope_dn = [], gq_object_type = ''user'', gq_conditions = [], gq_match_all = True\<rparr>"])
     (simp_all add: query_step_def query_start_def query_refill_def)

end
