(* ===== verification/Membership.thy ===== *)
theory Membership
  imports Loaders
begin

text \<open>
  The membership of an object, both ways round (\<^verbatim>\<open>components/Membership.tsx\<close>): the table, which reads
  the membership of the object it is about, and its rows, each of which opens the level behind it on
  request. A row remembers what it read (\<open>nested\<close>); a row that is closed takes its rows away, so they
  start anew when it is opened again. The rows are addressed by the places to go down.

  \<open>all_rows\<close> is the table with every row open, over a directory that answers for finitely many groups;
  it ends because a row whose group is already in the chain above it does not open.
\<close>

section \<open>Entries\<close>

record membership_entry =
  me_dn :: string
  me_name :: string
  me_objectType :: string
  me_scope :: string
  me_description :: string
  me_direct :: "bool option"

record membership =
  mb_member_of :: "membership_entry list"
  mb_members :: "membership_entry list"
  mb_members_truncated :: bool

datatype (plugins only: code size) direction = UpWards | DownWards

definition side :: "direction \<Rightarrow> membership \<Rightarrow> membership_entry list" where
  "side dir m = (case dir of UpWards \<Rightarrow> mb_member_of m | DownWards \<Rightarrow> mb_members m)"

section \<open>One row\<close>

text \<open>Only a group has anything on the other side of it, and \<open>seen\<close> is the chain that led here.\<close>

definition expandable :: "string list \<Rightarrow> membership_entry \<Rightarrow> bool" where
  "expandable seen e \<longleftrightarrow> me_objectType e = ''group'' \<and> \<not> list_ex (\<lambda>d. to_lower d = to_lower (me_dn e)) seen"

text \<open>A row with its state, the requests it has under way, and the rows below it that are mounted.\<close>

datatype (plugins only: code size) row = Row (row_entry: membership_entry) (row_open: bool) (row_nested: "membership_entry list option")
  (row_error: "string option") (row_asked: nat) (row_children: "row list")

definition fresh_row :: "membership_entry \<Rightarrow> row" where
  "fresh_row e = Row e False None None 0 []"

text \<open>The rows of what was read; one that is there already, by its key, keeps its state.\<close>

definition rows_of :: "membership_entry list \<Rightarrow> row list \<Rightarrow> row list" where
  "rows_of entries old =
     map (\<lambda>e. case find (\<lambda>r. me_dn (row_entry r) = me_dn e) old of
                None \<Rightarrow> fresh_row e
              | Some (Row _ op n er k ch) \<Rightarrow> Row e op n er k ch) entries"

definition the_list :: "'a list option \<Rightarrow> 'a list" where
  "the_list x = (case x of None \<Rightarrow> [] | Some xs \<Rightarrow> xs)"

fun expand :: "string list \<Rightarrow> row \<Rightarrow> row" where
  "expand seen (Row e op n er k ch) =
     (if \<not> expandable seen e then Row e op n er k ch
      else Row e (\<not> op) n er (if n = None then Suc k else k) (if op then [] else rows_of (the_list n) []))"

text \<open>The answer of a row's own request.\<close>

fun row_answered :: "direction \<Rightarrow> string + membership \<Rightarrow> string list \<Rightarrow> row \<Rightarrow> row" where
  "row_answered dir a seen (Row e op n er k ch) =
     (if k = 0 then Row e op n er k ch
      else (let n' = (case a of Inl _ \<Rightarrow> [] | Inr m \<Rightarrow> side dir m);
                er' = (case a of Inl msg \<Rightarrow> Some msg | Inr _ \<Rightarrow> er)
            in Row e op (Some n') er' (k - 1) (if op then rows_of n' ch else [])))"

fun at_row :: "(string list \<Rightarrow> row \<Rightarrow> row) \<Rightarrow> nat list \<Rightarrow> string list \<Rightarrow> row \<Rightarrow> row" where
  "at_row f [] seen r = f seen r"
| "at_row f (i # p) seen (Row e op n er k ch) =
     Row e op n er k (if i < length ch then ch[i := at_row f p (seen @ [me_dn e]) (ch ! i)] else ch)"

definition at_rows :: "(string list \<Rightarrow> row \<Rightarrow> row) \<Rightarrow> nat list \<Rightarrow> string list \<Rightarrow> row list \<Rightarrow> row list" where
  "at_rows f p seen rs =
     (case p of [] \<Rightarrow> rs | i # q \<Rightarrow> if i < length rs then rs[i := at_row f q seen (rs ! i)] else rs)"

text \<open>The rows drawn: how deep, the chain above, the entry, and whether it has the button to open it.\<close>

type_synonym drawn_row = "nat \<times> string list \<times> membership_entry \<times> bool"

fun drawn :: "string list \<Rightarrow> nat \<Rightarrow> row \<Rightarrow> drawn_row list" where
  "drawn seen depth (Row e op n er k ch) =
     (depth, seen, e, expandable seen e) #
     (if op then concat (map (drawn (seen @ [me_dn e]) (Suc depth)) ch) else [])"

section \<open>The table\<close>

text \<open>\<open>mt_runs\<close> are the requests its effect made, the last one that of the object it is about now. An
  error of the table itself is set by an answer and never taken back.\<close>

record membership_table =
  mt_runs :: "(string \<times> direction) list"
  mt_state :: "membership option"
  mt_error :: "string option"
  mt_rows :: "row list"

definition table_open :: "string \<Rightarrow> direction \<Rightarrow> membership_table" where
  "table_open dn dir = \<lparr>mt_runs = [(dn, dir)], mt_state = None, mt_error = None, mt_rows = []\<rparr>"

definition mt_dn :: "membership_table \<Rightarrow> string" where
  "mt_dn t = fst (last (mt_runs t))"

definition mt_direction :: "membership_table \<Rightarrow> direction" where
  "mt_direction t = snd (last (mt_runs t))"

datatype (plugins only: code size) table_event =
    ShowFor string direction
  | TableAnswered nat "string + membership"
  | ToggleRow "nat list"
  | RowAnswered "nat list" "string + membership"

text \<open>Up, what is inherited comes after what is direct.\<close>

definition own_rows :: "direction \<Rightarrow> membership \<Rightarrow> membership_entry list" where
  "own_rows dir m = (case dir of UpWards \<Rightarrow> filter (\<lambda>e. me_direct e \<noteq> Some False) (mb_member_of m) | DownWards \<Rightarrow> mb_members m)"

definition inherited_rows :: "direction \<Rightarrow> membership \<Rightarrow> membership_entry list" where
  "inherited_rows dir m = (case dir of UpWards \<Rightarrow> filter (\<lambda>e. me_direct e = Some False) (mb_member_of m) | DownWards \<Rightarrow> [])"

definition table_entries :: "direction \<Rightarrow> membership \<Rightarrow> membership_entry list" where
  "table_entries dir m = own_rows dir m @ inherited_rows dir m"

definition table_step :: "table_event \<Rightarrow> membership_table \<Rightarrow> membership_table" where
  "table_step ev t =
     (case ev of
        ShowFor dn dir \<Rightarrow>
          (if mt_runs t \<noteq> [] \<and> last (mt_runs t) = (dn, dir) then t
           else t\<lparr>mt_runs := mt_runs t @ [(dn, dir)], mt_state := None, mt_rows := []\<rparr>)
      | TableAnswered i a \<Rightarrow>
          (if i \<noteq> length (mt_runs t) - 1 \<or> mt_runs t = [] then t
           else (case a of
                   Inl msg \<Rightarrow> t\<lparr>mt_error := Some msg, mt_rows := []\<rparr>
                 | Inr m \<Rightarrow> t\<lparr>mt_state := Some m,
                     mt_rows := (if mt_error t = None then rows_of (table_entries (mt_direction t) m) (mt_rows t) else [])\<rparr>))
      | ToggleRow p \<Rightarrow> t\<lparr>mt_rows := at_rows expand p [mt_dn t] (mt_rows t)\<rparr>
      | RowAnswered p a \<Rightarrow> t\<lparr>mt_rows := at_rows (row_answered (mt_direction t) a) p [mt_dn t] (mt_rows t)\<rparr>)"

datatype (plugins only: code size) table_view = TableAlert string | TableLoading | TableRows "drawn_row list"

definition MembershipTable :: "membership_table \<Rightarrow> table_view" where
  "MembershipTable t =
     (case mt_error t of
        Some msg \<Rightarrow> TableAlert msg
      | None \<Rightarrow> (case mt_state t of
                   None \<Rightarrow> TableLoading
                 | Some _ \<Rightarrow> TableRows (concat (map (drawn [mt_dn t] 0) (mt_rows t)))))"

section \<open>Everything opened\<close>

text \<open>A directory, as one side of its answers: the objects that have anything there, by their name in
  lower case, because the API compares names so.\<close>

type_synonym nesting = "(string \<times> membership_entry list) list"

definition nested_of :: "nesting \<Rightarrow> string \<Rightarrow> membership_entry list" where
  "nested_of w dn = the_list (map_of w (to_lower dn))"

function all_rows :: "nesting \<Rightarrow> string list \<Rightarrow> nat \<Rightarrow> membership_entry \<Rightarrow> drawn_row list" where
  "all_rows w seen depth e =
     (depth, seen, e, expandable seen e) #
     (if expandable seen e then concat (map (all_rows w (seen @ [me_dn e]) (Suc depth)) (nested_of w (me_dn e))) else [])"
  by pat_completeness auto

text \<open>Each level takes one more name of the directory off those not yet in the chain.\<close>

lemma expandable_iff: "expandable seen e \<longleftrightarrow> me_objectType e = ''group'' \<and> to_lower (me_dn e) \<notin> to_lower ` set seen"
  by (auto simp: expandable_def list_ex_iff image_iff)

lemma nested_of_key: "e \<in> set (nested_of w dn) \<Longrightarrow> to_lower dn \<in> fst ` set w"
  by (auto simp: nested_of_def the_list_def split: option.splits dest: map_of_SomeD)
     (metis domI dom_map_of_conv_image_fst)

termination all_rows
proof (relation "measure (\<lambda>(w, seen, depth, e). card (fst ` set w - to_lower ` set seen))")
  fix w seen depth e c
  assume e: "expandable seen e" and c: "c \<in> set (nested_of w (me_dn e))"
  from nested_of_key [OF c] e have "to_lower (me_dn e) \<in> fst ` set w - to_lower ` set seen"
    by (simp add: expandable_iff)
  then have "fst ` set w - to_lower ` set (seen @ [me_dn e]) \<subset> fst ` set w - to_lower ` set seen"
    by auto
  then have "card (fst ` set w - to_lower ` set (seen @ [me_dn e])) < card (fst ` set w - to_lower ` set seen)"
    by (rule psubset_card_mono [rotated]) simp
  then show "((w, seen @ [me_dn e], Suc depth, c), (w, seen, depth, e)) \<in>
      measure (\<lambda>(w, seen, depth, e). card (fst ` set w - to_lower ` set seen))"
    by simp
qed simp

declare all_rows.simps [simp del]

definition all_table_rows :: "nesting \<Rightarrow> string \<Rightarrow> drawn_row list" where
  "all_table_rows w root = concat (map (all_rows w [root] 0) (nested_of w root))"

section \<open>The table is about its object\<close>

definition table_arrival :: "table_event \<Rightarrow> (nat \<times> membership) option" where
  "table_arrival ev = (case ev of TableAnswered i (Inr m) \<Rightarrow> Some (i, m) | _ \<Rightarrow> None)"

interpretation table: clearing_loader table_step mt_runs "\<lambda>t. mt_state t \<noteq> None" mt_state table_arrival
proof
  fix ev t
  assume "mt_runs (table_step ev t) \<noteq> mt_runs t"
  then show "\<exists>k. mt_runs (table_step ev t) = mt_runs t @ [k] \<and> \<not> mt_state (table_step ev t) \<noteq> None"
    by (auto simp: table_step_def split: table_event.splits if_splits sum.splits)
next
  fix ev t v
  assume "mt_runs (table_step ev t) = mt_runs t" and "mt_state (table_step ev t) = Some v"
  then show "mt_state t \<noteq> None \<and> mt_state t = Some v \<or> table_arrival ev = Some (length (mt_runs t) - 1, v)"
    by (auto simp: table_step_def table_arrival_def split: table_event.splits if_splits sum.splits)
next
  fix t :: membership_table
  assume "\<not> mt_state t \<noteq> None"
  then show "mt_state t = None" by simp
qed

lemma at_row_entry [simp]:
  assumes "\<And>seen r. row_entry (f seen r) = row_entry r"
  shows "row_entry (at_row f p seen r) = row_entry r"
  using assms by (cases p; cases r) auto

lemma at_rows_entries [simp]:
  assumes "\<And>seen r. row_entry (f seen r) = row_entry r"
  shows "map row_entry (at_rows f p seen rs) = map row_entry rs"
  using assms by (cases p) (simp_all add: at_rows_def map_update list_update_same_conv)

lemma expand_entry [simp]: "row_entry (expand seen r) = row_entry r"
  by (cases r) simp

lemma answered_entry [simp]: "row_entry (row_answered dir a seen r) = row_entry r"
  by (cases r) (simp add: Let_def)

lemma rows_of_entries [simp]: "map row_entry (rows_of es old) = es"
  by (auto simp: rows_of_def fresh_row_def o_def split: option.split row.split intro!: nth_equalityI)

definition table_ok :: "membership_table \<Rightarrow> bool" where
  "table_ok t \<longleftrightarrow> mt_runs t \<noteq> [] \<and>
     (mt_error t = None \<longrightarrow> map row_entry (mt_rows t) = (case mt_state t of None \<Rightarrow> [] | Some m \<Rightarrow> table_entries (mt_direction t) m))"

lemma mt_direction_upd [simp]:
  "mt_direction (t\<lparr>mt_state := x\<rparr>) = mt_direction t" "mt_direction (t\<lparr>mt_error := y\<rparr>) = mt_direction t"
  "mt_direction (t\<lparr>mt_rows := z\<rparr>) = mt_direction t"
  "mt_dn (t\<lparr>mt_state := x\<rparr>) = mt_dn t" "mt_dn (t\<lparr>mt_error := y\<rparr>) = mt_dn t" "mt_dn (t\<lparr>mt_rows := z\<rparr>) = mt_dn t"
  by (simp_all add: mt_direction_def mt_dn_def)

interpretation table_run: machine "table_open dn dir" table_step table_ok
proof
  show "table_ok (table_open dn dir)" by (simp add: table_ok_def table_open_def)
next
  fix t ev
  assume "table_ok t"
  then show "table_ok (table_step ev t)"
    by (auto simp: table_ok_def table_step_def split: table_event.split sum.split option.split)
qed

lemma drawn_entries: "map (\<lambda>x. fst (snd (snd x))) (filter (\<lambda>x. fst x = depth) (concat (map (drawn seen depth) rs))) = map row_entry rs"
proof -
  have deeper: "x \<in> set (drawn seen d r) \<Longrightarrow> d \<le> fst x" for d x seen r
  proof (induction seen d r rule: drawn.induct)
    case (1 seen d e op n er k ch)
    then show ?case by (fastforce split: if_splits)
  qed
  have "map (\<lambda>x. fst (snd (snd x))) (filter (\<lambda>x. fst x = depth) (drawn seen depth r)) = [row_entry r]" for r
  proof (cases r)
    case (Row e op n er k ch)
    have "filter (\<lambda>x. fst x = depth) (concat (map (drawn (seen @ [me_dn e]) (Suc depth)) ch)) = []"
      using deeper [of _ _ "Suc depth"] by (fastforce simp: filter_empty_conv)
    with Row show ?thesis by simp
  qed
  then show ?thesis by (induction rs) simp_all
qed

text \<open>C13: The table is about its object: whatever answers come late or twice while it moves from object to
  object, the rows it draws at its own level are those of an answer to the last request it made, which is
  for the object and the direction it is drawn for.\<close>

theorem table_is_about_its_object:
  assumes "honest table_step mt_runs table_arrival good evs (table_open dn dir)"
    and "t = fold table_step evs (table_open dn dir)" and "MembershipTable t = TableRows rs"
  shows "\<exists>m. good (mt_dn t, mt_direction t) m \<and>
             map (\<lambda>x. fst (snd (snd x))) (filter (\<lambda>x. fst x = 0) rs) = table_entries (mt_direction t) m"
proof -
  have ok: "table_ok t" unfolding assms(2) by (rule table_run.inv_run)
  from assms(3) obtain m where m: "mt_error t = None" "mt_state t = Some m" "rs = concat (map (drawn [mt_dn t] 0) (mt_rows t))"
    by (auto simp: MembershipTable_def split: option.splits)
  have "good (last (mt_runs t)) m"
    using table.never_shows_another [OF _ assms(1), of m] m(2) assms(2) by (simp add: table_open_def)
  with m ok drawn_entries [of 0 "[mt_dn t]" "mt_rows t"] show ?thesis
    by (auto simp: table_ok_def mt_dn_def mt_direction_def)
qed

theorem table_is_about_its_object_witness:
  "\<exists>m. m = \<lparr>mb_member_of = [], mb_members = [\<lparr>me_dn = ''CN=a'', me_name = ''a'', me_objectType = ''user'', me_scope = [],
          me_description = [], me_direct = None\<rparr>], mb_members_truncated = False\<rparr> \<and>
       map (\<lambda>x. fst (snd (snd x))) (filter (\<lambda>x. fst x = 0)
         [(0 :: nat, [''CN=h''], \<lparr>me_dn = ''CN=a'', me_name = ''a'', me_objectType = ''user'', me_scope = [],
            me_description = [], me_direct = None\<rparr>, False)]) = table_entries DownWards m"
proof -
  let ?e = "\<lparr>me_dn = ''CN=a'', me_name = ''a'', me_objectType = ''user'', me_scope = [], me_description = [], me_direct = None\<rparr>"
  let ?m = "\<lparr>mb_member_of = [], mb_members = [?e], mb_members_truncated = False\<rparr>"
  let ?g = "\<lparr>mb_member_of = [?e], mb_members = [], mb_members_truncated = False\<rparr>"
  let ?evs = "[ShowFor ''CN=h'' DownWards, TableAnswered 1 (Inr ?m), TableAnswered 0 (Inr ?g)]"
  have "\<exists>m. (\<lambda>k m. (k = (''CN=h'', DownWards)) = (m = ?m)) (mt_dn (fold table_step ?evs (table_open ''CN=g'' DownWards)),
            mt_direction (fold table_step ?evs (table_open ''CN=g'' DownWards))) m \<and>
         map (\<lambda>x. fst (snd (snd x))) (filter (\<lambda>x. fst x = 0) [(0 :: nat, [''CN=h''], ?e, False)]) =
         table_entries (mt_direction (fold table_step ?evs (table_open ''CN=g'' DownWards))) m"
    by (rule table_is_about_its_object [where evs = ?evs and dn = "''CN=g''" and dir = DownWards])
       (simp_all add: table_open_def table_step_def table_arrival_def MembershipTable_def mt_dn_def mt_direction_def
          rows_of_def fresh_row_def table_entries_def own_rows_def inherited_rows_def expandable_def)
  then show ?thesis
    by (simp add: table_open_def table_step_def mt_dn_def mt_direction_def)
qed

text \<open>An error stays: once a request of the table failed, it shows that sentence for every object it is
  moved to, although their membership was read.\<close>

theorem one_failure_hides_every_later_table:
  assumes "mt_error t = Some msg" and "\<forall>i e. TableAnswered i (Inl e) \<notin> set evs"
  shows "MembershipTable (fold table_step evs t) = TableAlert msg"
proof -
  have "mt_error (fold table_step evs t) = Some msg"
    using assms
  proof (induction evs arbitrary: t)
    case (Cons ev evs)
    from Cons.prems have "mt_error (table_step ev t) = Some msg"
      by (auto simp: table_step_def split: table_event.split sum.split)
    with Cons show ?case by simp
  qed simp
  then show ?thesis by (simp add: MembershipTable_def)
qed

theorem one_failure_hides_every_later_table_witness:
  "MembershipTable (fold table_step [ShowFor ''CN=h'' UpWards,
      TableAnswered 1 (Inr \<lparr>mb_member_of = [], mb_members = [], mb_members_truncated = False\<rparr>)]
     (table_step (TableAnswered 0 (Inl ''no'')) (table_open ''CN=g'' UpWards))) = TableAlert ''no'' \<and>
   mt_state (fold table_step [ShowFor ''CN=h'' UpWards,
      TableAnswered 1 (Inr \<lparr>mb_member_of = [], mb_members = [], mb_members_truncated = False\<rparr>)]
     (table_step (TableAnswered 0 (Inl ''no'')) (table_open ''CN=g'' UpWards))) \<noteq> None"
  using one_failure_hides_every_later_table
    [of "table_step (TableAnswered 0 (Inl ''no'')) (table_open ''CN=g'' UpWards)" "''no''"
        "[ShowFor ''CN=h'' UpWards, TableAnswered 1 (Inr \<lparr>mb_member_of = [], mb_members = [], mb_members_truncated = False\<rparr>)]"]
  by (simp add: table_open_def table_step_def)

section \<open>Opening ends\<close>

text \<open>A row that is kept well: it and what it read name only groups of \<open>G\<close>, it is open only where its
  name is new to the chain, and a closed row has no rows.\<close>

definition grouped :: "string set \<Rightarrow> membership_entry \<Rightarrow> bool" where
  "grouped G e \<longleftrightarrow> (me_objectType e = ''group'' \<longrightarrow> to_lower (me_dn e) \<in> G)"

fun row_ok :: "string set \<Rightarrow> string list \<Rightarrow> row \<Rightarrow> bool" where
  "row_ok G seen (Row e op n er k ch) \<longleftrightarrow>
     grouped G e \<and> (\<forall>x \<in> set (the_list n). grouped G x) \<and>
     (op \<longrightarrow> to_lower (me_dn e) \<in> G - to_lower ` set seen) \<and> (\<not> op \<longrightarrow> ch = []) \<and>
     (\<forall>c \<in> set ch. row_ok G (seen @ [me_dn e]) c)"

lemma fresh_row_ok: "row_ok G seen (fresh_row e) \<longleftrightarrow> grouped G e"
  by (simp add: fresh_row_def the_list_def)

lemma rows_of_mem:
  assumes "r \<in> set (rows_of es old)"
  obtains e where "e \<in> set es" and "r = fresh_row e"
    | e e' op n er k ch where "e \<in> set es" and "Row e' op n er k ch \<in> set old" and "me_dn e' = me_dn e" and "r = Row e op n er k ch"
proof -
  from assms obtain e where e: "e \<in> set es"
    and r: "r = (case find (\<lambda>r. me_dn (row_entry r) = me_dn e) old of None \<Rightarrow> fresh_row e | Some (Row _ op n er k ch) \<Rightarrow> Row e op n er k ch)"
    by (auto simp: rows_of_def)
  show ?thesis
  proof (cases "find (\<lambda>r. me_dn (row_entry r) = me_dn e) old")
    case None
    with e r that(1) show ?thesis by simp
  next
    case (Some x)
    then have "x \<in> set old" and "me_dn (row_entry x) = me_dn e"
      by (auto simp: find_Some_iff)
    with e r Some that(2) show ?thesis by (cases x) auto
  qed
qed

lemma rows_of_ok:
  assumes "\<forall>e \<in> set es. grouped G e" and "\<forall>r \<in> set old. row_ok G seen r" and "r \<in> set (rows_of es old)"
  shows "row_ok G seen r"
  using assms(3)
proof (cases rule: rows_of_mem)
  case (1 e)
  with assms(1) show ?thesis by (simp add: fresh_row_ok)
next
  case (2 e e' op n er k ch)
  then have "row_ok G seen (Row e' op n er k ch)" using assms(2) by blast
  with 2 assms(1) show ?thesis by simp
qed

lemma expand_ok: "row_ok G seen r \<Longrightarrow> row_ok G seen (expand seen r)"
  using rows_of_ok [where old = "[]"] by (cases r) (auto simp: expandable_iff grouped_def)

definition groups_in :: "string set \<Rightarrow> string + membership \<Rightarrow> bool" where
  "groups_in G a \<longleftrightarrow> (\<forall>m. a = Inr m \<longrightarrow> (\<forall>e \<in> set (mb_member_of m @ mb_members m). grouped G e))"

lemma answered_ok: "groups_in G a \<Longrightarrow> row_ok G seen r \<Longrightarrow> row_ok G seen (row_answered dir a seen r)"
proof (cases r)
  case (Row e op n er k ch)
  assume g: "groups_in G a" and r: "row_ok G seen r"
  have "\<forall>x \<in> set (case a of Inl _ \<Rightarrow> [] | Inr m \<Rightarrow> side dir m). grouped G x"
    using g by (cases a; cases dir) (auto simp: groups_in_def side_def)
  with Row r rows_of_ok [OF this, of ch "seen @ [me_dn e]"] show ?thesis
    by (auto simp: Let_def the_list_def split: sum.splits)
qed

lemma at_row_ok:
  assumes "\<And>seen r. row_ok G seen r \<Longrightarrow> row_ok G seen (f seen r)"
  shows "row_ok G seen r \<Longrightarrow> row_ok G seen (at_row f p seen r)"
proof (induction p arbitrary: seen r)
  case Nil
  then show ?case by (simp add: assms)
next
  case (Cons i p)
  then show ?case by (cases r) (auto dest: set_update_subset_insert [THEN subsetD])
qed

lemma at_rows_ok:
  assumes "\<And>seen r. row_ok G seen r \<Longrightarrow> row_ok G seen (f seen r)" and "\<forall>r \<in> set rs. row_ok G seen r"
  shows "\<forall>r \<in> set (at_rows f p seen rs). row_ok G seen r"
  using assms at_row_ok [of G f] by (cases p) (auto simp: at_rows_def dest!: set_update_subset_insert [THEN subsetD])

text \<open>What is drawn under a chain: the chain grows by names of groups that are new to it.\<close>

lemma drawn_chain:
  assumes "row_ok G seen r" and "distinct (map to_lower seen)" and "(d, chain, e, x) \<in> set (drawn seen depth r)"
  shows "\<exists>gs. chain = seen @ gs \<and> d = depth + length gs \<and> distinct (map to_lower chain) \<and> to_lower ` set gs \<subseteq> G"
  using assms
proof (induction seen depth r rule: drawn.induct)
  case (1 seen depth e' op n er k ch)
  show ?case
  proof (cases "(d, chain, e, x) = (depth, seen, e', expandable seen e')")
    case True
    with 1 show ?thesis by simp
  next
    case False
    with "1.prems"(3) obtain c where c: "op" "c \<in> set ch" "(d, chain, e, x) \<in> set (drawn (seen @ [me_dn e']) (Suc depth) c)"
      by (auto split: if_splits)
    with "1.prems" have n: "to_lower (me_dn e') \<in> G" "distinct (map to_lower (seen @ [me_dn e']))" "row_ok G (seen @ [me_dn e']) c"
      by auto
    from "1.IH" [OF c(1,2) n(3,2) c(3)] obtain gs where
      "chain = (seen @ [me_dn e']) @ gs" "d = Suc depth + length gs" "distinct (map to_lower chain)" "to_lower ` set gs \<subseteq> G"
      by blast
    with n(1) show ?thesis by (intro exI [of _ "me_dn e' # gs"]) simp
  qed
qed

definition event_groups :: "string set \<Rightarrow> table_event \<Rightarrow> bool" where
  "event_groups G ev = (case ev of TableAnswered _ a \<Rightarrow> groups_in G a | RowAnswered _ a \<Rightarrow> groups_in G a | _ \<Rightarrow> True)"

definition rows_ok :: "string set \<Rightarrow> membership_table \<Rightarrow> bool" where
  "rows_ok G t \<longleftrightarrow> (\<forall>r \<in> set (mt_rows t). row_ok G [mt_dn t] r)"

lemma table_step_rows_ok:
  assumes "event_groups G ev" and "rows_ok G t"
  shows "rows_ok G (table_step ev t)"
proof (cases ev)
  case (TableAnswered i a)
  have "\<forall>e \<in> set (table_entries (mt_direction t) m). grouped G e" if "a = Inr m" for m
    using assms(1) TableAnswered that
    by (auto simp: event_groups_def groups_in_def table_entries_def own_rows_def inherited_rows_def split: direction.splits)
  with assms(2) TableAnswered show ?thesis
    by (auto simp: rows_ok_def table_step_def split: sum.split intro: rows_of_ok)
next
  case (ToggleRow p)
  with assms(2) show ?thesis
    using at_rows_ok [of G expand "mt_rows t" "[mt_dn t]" p] expand_ok by (simp add: rows_ok_def table_step_def)
next
  case (RowAnswered p a)
  with assms show ?thesis
    using at_rows_ok [of G "row_answered (mt_direction t) a" "mt_rows t" "[mt_dn t]" p] answered_ok
    by (simp add: rows_ok_def table_step_def event_groups_def)
qed (use assms in \<open>simp add: rows_ok_def table_step_def\<close>)

text \<open>C14: Opening rows ends, also in a directory whose groups are members of each other: above every row that is
  drawn no group stands twice, whatever the case of its name, so no row lies deeper than there are groups.\<close>

theorem nesting_cannot_loop:
  assumes "finite G" and "\<forall>ev \<in> set evs. event_groups G ev"
    and "MembershipTable (fold table_step evs (table_open dn dir)) = TableRows rs" and "(d, chain, e, x) \<in> set rs"
  shows "distinct (map to_lower chain) \<and> length chain = Suc d \<and> d \<le> card G"
proof -
  define t where "t = fold table_step evs (table_open dn dir)"
  have "rows_ok G s \<Longrightarrow> \<forall>ev \<in> set evs. event_groups G ev \<Longrightarrow> rows_ok G (fold table_step evs s)" for s
    by (induction evs arbitrary: s) (auto intro: table_step_rows_ok)
  from this [OF _ assms(2)] have ok: "rows_ok G t"
    by (simp add: t_def rows_ok_def table_open_def)
  have "rs = concat (map (drawn [mt_dn t] 0) (mt_rows t))"
    using assms(3) by (simp add: MembershipTable_def t_def split: option.splits)
  with assms(4) obtain r where r: "r \<in> set (mt_rows t)" "(d, chain, e, x) \<in> set (drawn [mt_dn t] 0 r)" by auto
  from drawn_chain [OF _ _ r(2), of G] ok r(1) obtain gs where
    gs: "chain = [mt_dn t] @ gs" "d = length gs" "distinct (map to_lower chain)" "to_lower ` set gs \<subseteq> G"
    by (auto simp: rows_ok_def)
  have "length gs = card (to_lower ` set gs)"
    using gs(1,3) by (simp add: distinct_card [symmetric] distinct_map card_image)
  also have "\<dots> \<le> card G" using gs(4) assms(1) by (rule card_mono [rotated])
  finally show ?thesis using gs by simp
qed

theorem nesting_cannot_loop_witness:
  "distinct (map to_lower [''CN=a'', ''CN=b'']) \<and> length [''CN=a'', ''CN=b''] = Suc 1 \<and> 1 \<le> card {''cn=a'', ''cn=b''}"
proof -
  let ?g = "\<lambda>n. \<lparr>me_dn = n, me_name = n, me_objectType = ''group'', me_scope = [], me_description = [], me_direct = None\<rparr>"
  let ?m = "\<lambda>n. \<lparr>mb_member_of = [], mb_members = [?g n], mb_members_truncated = False\<rparr>"
  have l: "to_lower ''CN=a'' = ''cn=a''" "to_lower ''CN=A'' = ''cn=a''" "to_lower ''CN=b'' = ''cn=b''" by code_simp+
  show ?thesis
    by (rule nesting_cannot_loop [where dn = "''CN=a''" and dir = DownWards and e = "?g ''CN=A''" and x = False
          and evs = "[TableAnswered 0 (Inr (?m ''CN=b'')), ToggleRow [0], RowAnswered [0] (Inr (?m ''CN=A''))]"
          and rs = "[(0, [''CN=a''], ?g ''CN=b'', True), (1, [''CN=a'', ''CN=b''], ?g ''CN=A'', False)]"])
       (simp_all add: l event_groups_def groups_in_def grouped_def
          table_open_def table_step_def MembershipTable_def mt_dn_def mt_direction_def rows_of_def fresh_row_def
          table_entries_def own_rows_def inherited_rows_def at_rows_def expandable_def the_list_def side_def)
qed

section \<open>Everything is found\<close>

text \<open>What the nesting says belongs to an object, through any number of groups.\<close>

inductive belongs :: "(string \<Rightarrow> membership_entry list) \<Rightarrow> string \<Rightarrow> membership_entry \<Rightarrow> bool" for nest root where
  direct: "e \<in> set (nest root) \<Longrightarrow> belongs nest root e"
| through: "belongs nest root g \<Longrightarrow> me_objectType g = ''group'' \<Longrightarrow> e \<in> set (nest (me_dn g)) \<Longrightarrow> belongs nest root e"

text \<open>The same with the groups on the way.\<close>

fun chain :: "(string \<Rightarrow> membership_entry list) \<Rightarrow> string \<Rightarrow> membership_entry list \<Rightarrow> membership_entry \<Rightarrow> bool" where
  "chain nest r [] e \<longleftrightarrow> e \<in> set (nest r)"
| "chain nest r (g # gs) e \<longleftrightarrow> g \<in> set (nest r) \<and> me_objectType g = ''group'' \<and> chain nest (me_dn g) gs e"

lemma chain_append:
  "chain nest r (gs @ g # hs) e \<longleftrightarrow> chain nest r gs g \<and> me_objectType g = ''group'' \<and> chain nest (me_dn g) hs e"
  by (induction gs arbitrary: r) auto

lemma chain_step: "chain nest r gs g \<Longrightarrow> me_objectType g = ''group'' \<Longrightarrow> e \<in> set (nest (me_dn g)) \<Longrightarrow> chain nest r (gs @ [g]) e"
  by (simp add: chain_append)

lemma belongs_chain: "belongs nest r e \<longleftrightarrow> (\<exists>gs. chain nest r gs e)"
proof
  assume "belongs nest r e"
  then show "\<exists>gs. chain nest r gs e"
  proof (induction rule: belongs.induct)
    case (direct e)
    then have "chain nest r [] e" by simp
    then show ?case ..
  next
    case (through g e)
    then show ?case using chain_step by blast
  qed
next
  have "belongs nest r g \<Longrightarrow> me_objectType g = ''group'' \<Longrightarrow> chain nest (me_dn g) gs e \<Longrightarrow> belongs nest r e" for g gs
    by (induction gs arbitrary: g) (auto intro: belongs.intros)
  moreover assume "\<exists>gs. chain nest r gs e"
  then obtain gs where "chain nest r gs e" ..
  ultimately show "belongs nest r e"
    by (cases gs) (auto intro: belongs.intros)
qed

text \<open>A way through a group twice can be cut short, so what belongs to an object does so by a way without
  repetition. The nesting is asked for a name whatever its case.\<close>

definition same_name :: "(string \<Rightarrow> membership_entry list) \<Rightarrow> bool" where
  "same_name nest \<longleftrightarrow> (\<forall>a b. to_lower a = to_lower b \<longrightarrow> nest a = nest b)"

abbreviation names :: "membership_entry list \<Rightarrow> string list" where
  "names gs \<equiv> map (\<lambda>g. to_lower (me_dn g)) gs"

lemma chain_same: "same_name nest \<Longrightarrow> to_lower a = to_lower b \<Longrightarrow> chain nest a gs e = chain nest b gs e"
proof -
  assume "same_name nest" and "to_lower a = to_lower b"
  then have "nest a = nest b" unfolding same_name_def by blast
  then show ?thesis by (cases gs) simp_all
qed

lemma simple_chain:
  assumes "same_name nest" and "chain nest r gs e"
  shows "\<exists>hs. chain nest r hs e \<and> set hs \<subseteq> set gs \<and> distinct (to_lower r # names hs)"
  using assms(2)
proof (induction gs arbitrary: r rule: length_induct)
  case (1 gs)
  show ?case
  proof (cases "\<exists>a g b. gs = a @ g # b \<and> to_lower (me_dn g) = to_lower r")
    case True
    then obtain a g b where g: "gs = a @ g # b" "to_lower (me_dn g) = to_lower r" by blast
    with "1.prems" have "chain nest r b e"
      using chain_same [OF assms(1) g(2)] by (simp add: chain_append)
    with "1.IH" [rule_format, of b r] g(1) obtain hs where "chain nest r hs e" "set hs \<subseteq> set b" "distinct (to_lower r # names hs)"
      by auto
    moreover have "set b \<subseteq> set gs" using g(1) by auto
    ultimately show ?thesis by blast
  next
    case False
    then have new: "to_lower r \<notin> set (names gs)"
      by (force simp: in_set_conv_decomp)
    show ?thesis
    proof (cases gs)
      case Nil
      with "1.prems" show ?thesis by (intro exI [of _ "[]"]) simp
    next
      case (Cons g b)
      with "1.prems" have c: "chain nest (me_dn g) b e" and g: "g \<in> set (nest r)" "me_objectType g = ''group''" by simp_all
      from "1.IH" [rule_format, of b "me_dn g"] Cons c obtain hs where hs: "chain nest (me_dn g) hs e" "set hs \<subseteq> set b" "distinct (to_lower (me_dn g) # names hs)"
        by auto
      have "to_lower r \<notin> set (names (g # hs))" using new Cons hs(2) by auto
      with g hs Cons show ?thesis by (intro exI [of _ "g # hs"]) auto
    qed
  qed
qed

lemma nested_of_same: "same_name (nested_of w)"
  unfolding same_name_def by (simp add: nested_of_def)

lemma all_rows_complete:
  assumes "chain (nested_of w) r gs e" and "distinct (names gs)" and "set (names gs) \<inter> to_lower ` set seen = {}"
  shows "\<exists>d s x. (d, s, e, x) \<in> set (concat (map (all_rows w seen depth) (nested_of w r)))"
  using assms
proof (induction gs arbitrary: r seen depth)
  case Nil
  then have "e \<in> set (nested_of w r)" by simp
  moreover have "(depth, seen, e, expandable seen e) \<in> set (all_rows w seen depth e)" by (subst all_rows.simps) simp
  ultimately show ?case by auto
next
  case (Cons g gs)
  then have g: "g \<in> set (nested_of w r)" "expandable seen g" by (auto simp: expandable_iff)
  from Cons.IH [of "me_dn g" "seen @ [me_dn g]" "Suc depth"] Cons.prems obtain d s x where
    "(d, s, e, x) \<in> set (concat (map (all_rows w (seen @ [me_dn g]) (Suc depth)) (nested_of w (me_dn g))))" by auto
  with g(2) have "(d, s, e, x) \<in> set (all_rows w seen depth g)" by (subst all_rows.simps) auto
  with g(1) show ?case by auto
qed

lemma all_rows_sound:
  "(d, s, e, x) \<in> set (all_rows w seen depth c) \<Longrightarrow> belongs (nested_of w) root c \<Longrightarrow> belongs (nested_of w) root e"
proof (induction w seen depth c rule: all_rows.induct)
  case (1 w seen depth c)
  show ?case
  proof (cases "(d, s, e, x) = (depth, seen, c, expandable seen c)")
    case True
    with "1.prems"(2) show ?thesis by simp
  next
    case False
    with "1.prems"(1) obtain c' where c': "expandable seen c" "c' \<in> set (nested_of w (me_dn c))"
        "(d, s, e, x) \<in> set (all_rows w (seen @ [me_dn c]) (Suc depth) c')"
      by (subst (asm) all_rows.simps) (auto split: if_splits)
    have "belongs (nested_of w) root c'"
      using "1.prems"(2) c'(1,2) by (auto simp: expandable_iff intro: belongs.through)
    from "1.IH" [OF c' this] show ?thesis .
  qed
qed

text \<open>With every row open the table lists exactly what belongs to its object, directly or through any
  number of groups: not opening a group again under itself ends the rows and loses nobody.\<close>

theorem everything_opened_is_everything:
  "(\<exists>d s x. (d, s, e, x) \<in> set (all_table_rows w root)) \<longleftrightarrow> belongs (nested_of w) root e"
proof
  assume "\<exists>d s x. (d, s, e, x) \<in> set (all_table_rows w root)"
  then show "belongs (nested_of w) root e"
    by (auto simp: all_table_rows_def intro: all_rows_sound belongs.direct)
next
  assume "belongs (nested_of w) root e"
  then obtain gs where "chain (nested_of w) root gs e" by (auto simp: belongs_chain)
  from simple_chain [OF nested_of_same this] obtain hs where
    "chain (nested_of w) root hs e" "distinct (to_lower root # names hs)" by blast
  then show "\<exists>d s x. (d, s, e, x) \<in> set (all_table_rows w root)"
    using all_rows_complete [of w root hs e "[root]" 0] by (auto simp: all_table_rows_def)
qed

section \<open>What the table can come to show\<close>

text \<open>A run in which the API answers, as \<open>api\<close> says, what it is asked.\<close>

fun row_at :: "nat list \<Rightarrow> row \<Rightarrow> row option" where
  "row_at [] r = Some r"
| "row_at (i # p) (Row e op n er k ch) = (if i < length ch then row_at p (ch ! i) else None)"

definition rows_at :: "nat list \<Rightarrow> row list \<Rightarrow> row option" where
  "rows_at p rs = (case p of [] \<Rightarrow> None | i # q \<Rightarrow> if i < length rs then row_at q (rs ! i) else None)"

definition rows_event :: "direction \<Rightarrow> string list \<Rightarrow> table_event \<Rightarrow> row list \<Rightarrow> row list" where
  "rows_event dir seen ev rs =
     (case ev of ToggleRow p \<Rightarrow> at_rows expand p seen rs | RowAnswered p a \<Rightarrow> at_rows (row_answered dir a) p seen rs | _ \<Rightarrow> rs)"

definition row_truth :: "(string \<Rightarrow> membership) \<Rightarrow> row list \<Rightarrow> table_event \<Rightarrow> bool" where
  "row_truth api rs ev =
     (case ev of RowAnswered p a \<Rightarrow> (case rows_at p rs of None \<Rightarrow> True | Some r \<Rightarrow> a = Inr (api (me_dn (row_entry r)))) | _ \<Rightarrow> True)"

fun truthful :: "(string \<Rightarrow> membership) \<Rightarrow> table_event list \<Rightarrow> membership_table \<Rightarrow> bool" where
  "truthful api [] t = True"
| "truthful api (ev # evs) t =
     ((case ev of TableAnswered i a \<Rightarrow> i < length (mt_runs t) \<and> a = Inr (api (fst (mt_runs t ! i))) | _ \<Rightarrow> row_truth api (mt_rows t) ev) \<and>
      truthful api evs (table_step ev t))"

fun row_true :: "(string \<Rightarrow> membership_entry list) \<Rightarrow> string \<Rightarrow> row \<Rightarrow> bool" where
  "row_true nest root (Row e op n er k ch) \<longleftrightarrow>
     belongs nest root e \<and>
     (op \<or> 0 < k \<or> n \<noteq> None \<longrightarrow> (\<exists>g. belongs nest root g \<and> me_objectType g = ''group'' \<and> me_dn g = me_dn e)) \<and>
     set (the_list n) \<subseteq> set (nest (me_dn e)) \<and> (\<forall>c \<in> set ch. row_true nest root c)"

lemma rows_of_true:
  assumes "\<forall>e \<in> set es. belongs nest root e" and "\<forall>r \<in> set old. row_true nest root r" and "r \<in> set (rows_of es old)"
  shows "row_true nest root r"
  using assms(3)
proof (cases rule: rows_of_mem)
  case (1 e)
  with assms(1) show ?thesis by (simp add: fresh_row_def the_list_def)
next
  case (2 e e' op n er k ch)
  then have "row_true nest root (Row e' op n er k ch)" using assms(2) by blast
  with 2 assms(1) show ?thesis by auto
qed

lemma expand_true: "row_true nest root r \<Longrightarrow> row_true nest root (expand seen r)"
proof (cases r)
  case (Row e op n er k ch)
  assume r: "row_true nest root r"
  show ?thesis
  proof (cases "expandable seen e")
    case True
    then have "me_objectType e = ''group''" by (simp add: expandable_iff)
    with r Row have "\<forall>x \<in> set (the_list n). belongs nest root x" by (auto intro: belongs.through)
    with True r Row rows_of_true [OF this, of "[]"] \<open>me_objectType e = ''group''\<close> show ?thesis by (auto simp: expandable_iff)
  qed (use r Row in simp)
qed

lemma answered_true:
  assumes "row_true nest root r" and "set (side dir m) \<subseteq> set (nest (me_dn (row_entry r)))"
  shows "row_true nest root (row_answered dir (Inr m) seen r)"
proof (cases r)
  case (Row e op n er k ch)
  show ?thesis
  proof (cases "k = 0")
    case False
    with assms(1) Row obtain g where g: "belongs nest root g" "me_objectType g = ''group''" "me_dn g = me_dn e" by auto
    then have b: "\<forall>x \<in> set (side dir m). belongs nest root x"
      using assms(2) Row by (auto intro!: belongs.through [OF g(1,2)])
    from assms(1) Row have "\<forall>c \<in> set ch. row_true nest root c" by simp
    from rows_of_true [OF b this] g assms Row False show ?thesis
      by (auto simp: the_list_def Let_def)
  qed (use assms(1) Row in simp)
qed

lemma at_row_true:
  assumes "\<And>x. row_at p r = Some x \<Longrightarrow> row_true nest root x \<Longrightarrow> (\<And>seen. row_true nest root (f seen x))"
    and "row_true nest root r"
  shows "row_true nest root (at_row f p seen r)"
  using assms
proof (induction p arbitrary: seen r)
  case Nil
  then show ?case by simp
next
  case (Cons i p)
  obtain e op n er k ch where r: "r = Row e op n er k ch" by (cases r)
  show ?case
  proof (cases "i < length ch")
    case True
    with Cons.prems r have "row_true nest root (at_row f p (seen @ [me_dn e]) (ch ! i))"
      by (intro Cons.IH) auto
    with Cons.prems(2) r True show ?thesis by (auto dest: set_update_subset_insert [THEN subsetD])
  qed (use Cons.prems(2) r in simp)
qed

lemma at_rows_true:
  assumes "\<And>x. rows_at p rs = Some x \<Longrightarrow> row_true nest root x \<Longrightarrow> (\<And>seen. row_true nest root (f seen x))"
    and "\<forall>r \<in> set rs. row_true nest root r"
  shows "\<forall>r \<in> set (at_rows f p seen rs). row_true nest root r"
proof (cases p)
  case (Cons i q)
  show ?thesis
  proof (cases "i < length rs")
    case True
    with assms Cons have "row_true nest root (at_row f q seen (rs ! i))"
      by (intro at_row_true) (auto simp: rows_at_def)
    with assms(2) Cons True show ?thesis by (auto simp: at_rows_def dest!: set_update_subset_insert [THEN subsetD])
  qed (use assms(2) Cons in \<open>simp add: at_rows_def\<close>)
qed (use assms(2) in \<open>simp add: at_rows_def\<close>)

lemma drawn_true: "row_true nest root r \<Longrightarrow> (d, s, e, x) \<in> set (drawn seen depth r) \<Longrightarrow> belongs nest root e"
proof (induction seen depth r rule: drawn.induct)
  case (1 seen depth e' op n er k ch)
  then show ?case by (fastforce split: if_splits)
qed

definition nest_of :: "direction \<Rightarrow> (string \<Rightarrow> membership) \<Rightarrow> string \<Rightarrow> membership_entry list" where
  "nest_of dir api dn = side dir (api dn)"

lemma set_table_entries: "set (table_entries dir m) = set (side dir m)"
  by (cases dir) (auto simp: table_entries_def own_rows_def inherited_rows_def side_def)

definition rows_true :: "(string \<Rightarrow> membership) \<Rightarrow> membership_table \<Rightarrow> bool" where
  "rows_true api t \<longleftrightarrow> mt_runs t \<noteq> [] \<and> (\<forall>r \<in> set (mt_rows t). row_true (nest_of (mt_direction t) api) (mt_dn t) r)"

lemma table_step_rows_true:
  assumes "truthful api (ev # evs) t" and "rows_true api t"
  shows "rows_true api (table_step ev t)"
proof (cases ev)
  case (TableAnswered i a)
  show ?thesis
  proof (cases "i = length (mt_runs t) - 1")
    case True
    with assms TableAnswered have a: "a = Inr (api (mt_dn t))"
      by (simp add: rows_true_def mt_dn_def last_conv_nth)
    have "\<forall>e \<in> set (table_entries (mt_direction t) (api (mt_dn t))). belongs (nest_of (mt_direction t) api) (mt_dn t) e"
      by (auto simp: set_table_entries nest_of_def intro!: belongs.direct)
    with rows_of_true [OF this, of "mt_rows t"] assms(2) TableAnswered a show ?thesis
      by (auto simp: rows_true_def table_step_def)
  qed (use assms(2) TableAnswered in \<open>simp add: rows_true_def table_step_def\<close>)
next
  case (ToggleRow p)
  with assms(2) show ?thesis
    using at_rows_true [of p "mt_rows t" "nest_of (mt_direction t) api" "mt_dn t" expand "[mt_dn t]"] expand_true
    by (simp add: rows_true_def table_step_def)
next
  case (RowAnswered p a)
  have "row_true (nest_of (mt_direction t) api) (mt_dn t) (row_answered (mt_direction t) a seen x)"
    if "rows_at p (mt_rows t) = Some x" "row_true (nest_of (mt_direction t) api) (mt_dn t) x" for x seen
    using assms(1) RowAnswered that by (auto simp: row_truth_def nest_of_def intro!: answered_true)
  with assms(2) RowAnswered show ?thesis
    using at_rows_true [of p "mt_rows t" "nest_of (mt_direction t) api" "mt_dn t" "row_answered (mt_direction t) a" "[mt_dn t]"]
    by (simp add: rows_true_def table_step_def)
qed (use assms in \<open>simp add: rows_true_def table_step_def\<close>)

lemma truthful_rows_true: "rows_true api t \<Longrightarrow> truthful api evs t \<Longrightarrow> rows_true api (fold table_step evs t)"
proof (induction evs arbitrary: t)
  case (Cons ev evs)
  from table_step_rows_true [OF Cons.prems(2,1)] Cons.IH Cons.prems(2) show ?case by simp
qed simp

text \<open>The other way: the clicks that bring an entry up, one row after the other.\<close>

definition below :: "nat \<Rightarrow> table_event \<Rightarrow> table_event" where
  "below i ev = (case ev of ToggleRow p \<Rightarrow> ToggleRow (i # p) | RowAnswered p a \<Rightarrow> RowAnswered (i # p) a | _ \<Rightarrow> ev)"

definition row_ev :: "table_event \<Rightarrow> bool" where
  "row_ev ev = (case ev of ToggleRow p \<Rightarrow> p \<noteq> [] | RowAnswered p a \<Rightarrow> p \<noteq> [] | _ \<Rightarrow> False)"

fun rows_truthful :: "(string \<Rightarrow> membership) \<Rightarrow> direction \<Rightarrow> string list \<Rightarrow> table_event list \<Rightarrow> row list \<Rightarrow> bool" where
  "rows_truthful api dir seen [] rs = True"
| "rows_truthful api dir seen (ev # evs) rs = (row_truth api rs ev \<and> rows_truthful api dir seen evs (rows_event dir seen ev rs))"

lemma rows_event_below:
  assumes "row_ev ev" and "i < length rs" and "rs ! i = Row g op n er k ch"
  shows "rows_event dir seen (below i ev) rs = rs[i := Row g op n er k (rows_event dir (seen @ [me_dn g]) ev ch)]"
    and "row_truth api rs (below i ev) = row_truth api ch ev"
  using assms by (auto simp: row_ev_def below_def rows_event_def at_rows_def rows_at_def row_truth_def neq_Nil_conv split: table_event.splits)

lemma fold_below:
  assumes "list_all row_ev evs" and "i < length rs" and "rs ! i = Row g op n er k ch"
  shows "fold (rows_event dir seen) (map (below i) evs) rs = rs[i := Row g op n er k (fold (rows_event dir (seen @ [me_dn g])) evs ch)] \<and>
         (rows_truthful api dir (seen @ [me_dn g]) evs ch \<longrightarrow> rows_truthful api dir seen (map (below i) evs) rs)"
  using assms
proof (induction evs arbitrary: rs ch)
  case Nil
  then show ?case by (metis fold_simps(1) list.simps(8) list_update_id rows_truthful.simps(1))
next
  case (Cons ev evs)
  let ?rs = "rs[i := Row g op n er k (rows_event dir (seen @ [me_dn g]) ev ch)]"
  from Cons.prems have ev: "row_ev ev" and evs: "list_all row_ev evs" by simp_all
  have "i < length ?rs" "?rs ! i = Row g op n er k (rows_event dir (seen @ [me_dn g]) ev ch)" using Cons.prems(2) by simp_all
  from Cons.IH [OF evs this] rows_event_below [OF ev Cons.prems(2,3)] show ?case by simp
qed

lemma open_way:
  assumes "chain (nest_of dir api) r gs e" and "distinct (names gs)" and "set (names gs) \<inter> to_lower ` set seen = {}"
    and "set es = set (nest_of dir api r)"
  shows "\<exists>evs. list_all row_ev evs \<and> rows_truthful api dir seen evs (map fresh_row es) \<and>
           (\<exists>d s x. (d, s, e, x) \<in> set (concat (map (drawn seen depth) (fold (rows_event dir seen) evs (map fresh_row es)))))"
  using assms
proof (induction gs arbitrary: r seen depth es)
  case Nil
  then have "e \<in> set es" by simp
  moreover have "(depth, seen, e, expandable seen e) \<in> set (drawn seen depth (fresh_row e))" by (simp add: fresh_row_def)
  ultimately show ?case by (intro exI [of _ "[]"]) auto
next
  case (Cons g gs)
  then have "g \<in> set es" by simp
  then obtain i where i: "i < length es" "es ! i = g" unfolding in_set_conv_nth by blast
  have ex: "expandable seen g" using Cons.prems by (auto simp: expandable_iff)
  let ?L = "side dir (api (me_dn g))"
  let ?rs1 = "(map fresh_row es)[i := Row g True None None (Suc 0) []]"
  let ?rs2 = "(map fresh_row es)[i := Row g True (Some ?L) None 0 (map fresh_row ?L)]"
  have rows_fresh: "rows_of xs [] = map fresh_row xs" for xs by (simp add: rows_of_def)
  have s1: "rows_event dir seen (ToggleRow [i]) (map fresh_row es) = ?rs1"
    using i ex by (simp add: rows_event_def at_rows_def fresh_row_def the_list_def rows_fresh)
  have s2: "rows_event dir seen (RowAnswered [i] (Inr (api (me_dn g)))) ?rs1 = ?rs2"
    using i by (simp add: rows_event_def at_rows_def rows_fresh Let_def)
  have "\<exists>evs. list_all row_ev evs \<and> rows_truthful api dir (seen @ [me_dn g]) evs (map fresh_row ?L) \<and>
      (\<exists>d s x. (d, s, e, x) \<in> set (concat (map (drawn (seen @ [me_dn g]) (Suc depth))
         (fold (rows_event dir (seen @ [me_dn g])) evs (map fresh_row ?L)))))"
    by (rule Cons.IH [of "me_dn g"]) (use Cons.prems in \<open>auto simp: nest_of_def\<close>)
  then obtain evs d s x where
    evs: "list_all row_ev evs" "rows_truthful api dir (seen @ [me_dn g]) evs (map fresh_row ?L)"
      "(d, s, e, x) \<in> set (concat (map (drawn (seen @ [me_dn g]) (Suc depth)) (fold (rows_event dir (seen @ [me_dn g])) evs (map fresh_row ?L))))"
    by (elim exE conjE)
  let ?all = "ToggleRow [i] # RowAnswered [i] (Inr (api (me_dn g))) # map (below i) evs"
  have b: "i < length ?rs2" "?rs2 ! i = Row g True (Some ?L) None 0 (map fresh_row ?L)" using i by simp_all
  note f = fold_below [OF evs(1) b, of dir seen api]
  have "list_all row_ev ?all"
    using evs(1) by (auto simp: row_ev_def list_all_iff below_def split: table_event.split)
  moreover have "rows_truthful api dir seen ?all (map fresh_row es)"
    using f evs(2) i by (simp add: s1 s2 row_truth_def rows_at_def)
  moreover have "(d, s, e, x) \<in> set (concat (map (drawn seen depth) (fold (rows_event dir seen) ?all (map fresh_row es))))"
  proof -
    let ?r = "Row g True (Some ?L) None 0 (fold (rows_event dir (seen @ [me_dn g])) evs (map fresh_row ?L))"
    have "?r \<in> set (fold (rows_event dir seen) ?all (map fresh_row es))"
      using f i by (simp add: s1 s2 set_update_memI)
    moreover have "(d, s, e, x) \<in> set (drawn seen depth ?r)" using evs(3) by simp
    ultimately show ?thesis by (auto simp del: drawn.simps)
  qed
  ultimately show ?case by blast
qed

lemma rows_to_table:
  assumes "list_all row_ev evs" and "rows_truthful api (mt_direction t) [mt_dn t] evs (mt_rows t)"
  shows "truthful api evs t \<and> fold table_step evs t = t\<lparr>mt_rows := fold (rows_event (mt_direction t) [mt_dn t]) evs (mt_rows t)\<rparr>"
  using assms
proof (induction evs arbitrary: t)
  case (Cons ev evs)
  let ?t = "t\<lparr>mt_rows := rows_event (mt_direction t) [mt_dn t] ev (mt_rows t)\<rparr>"
  from Cons.prems(1) have step: "table_step ev t = ?t"
    by (auto simp: row_ev_def table_step_def rows_event_def split: table_event.splits)
  from Cons.prems have "list_all row_ev evs" "rows_truthful api (mt_direction ?t) [mt_dn ?t] evs (mt_rows ?t)" by simp_all
  from Cons.IH [OF this] Cons.prems step show ?case
    by (auto simp: row_ev_def split: table_event.splits)
qed simp

text \<open>C15: By clicks alone, with the API answering what it is asked, the table can come to draw exactly what belongs
  to its object directly or through other groups: nothing else is ever drawn, and each of them can be.\<close>

theorem table_can_show_exactly_what_belongs:
  assumes "\<And>a b. to_lower a = to_lower b \<Longrightarrow> api a = api b"
  shows "(\<exists>evs rs d s x. truthful api evs (table_open dn dir) \<and> (\<forall>n d'. ShowFor n d' \<notin> set evs) \<and>
             MembershipTable (fold table_step evs (table_open dn dir)) = TableRows rs \<and> (d, s, e, x) \<in> set rs)
         \<longleftrightarrow> belongs (\<lambda>n. side dir (api n)) dn e"
proof
  assume "\<exists>evs rs d s x. truthful api evs (table_open dn dir) \<and> (\<forall>n d'. ShowFor n d' \<notin> set evs) \<and>
             MembershipTable (fold table_step evs (table_open dn dir)) = TableRows rs \<and> (d, s, e, x) \<in> set rs"
  then obtain evs rs d s x where h: "truthful api evs (table_open dn dir)" "\<forall>n d'. ShowFor n d' \<notin> set evs"
    "MembershipTable (fold table_step evs (table_open dn dir)) = TableRows rs" "(d, s, e, x) \<in> set rs" by blast
  define t where "t = fold table_step evs (table_open dn dir)"
  have "mt_runs (fold table_step es u) = mt_runs u" if "\<forall>n d'. ShowFor n d' \<notin> set es" for es u
    using that
  proof (induction es arbitrary: u)
    case (Cons ev es)
    then have "mt_runs (table_step ev u) = mt_runs u"
      by (auto simp: table_step_def split: table_event.split sum.split)
    with Cons show ?case by simp
  qed simp
  with h(2) have k: "mt_dn t = dn" "mt_direction t = dir"
    by (simp_all add: t_def mt_dn_def mt_direction_def table_open_def)
  have "rows_true api t"
    unfolding t_def by (rule truthful_rows_true [OF _ h(1)]) (simp add: rows_true_def table_open_def)
  moreover have "rs = concat (map (drawn [dn] 0) (mt_rows t))"
    using h(3) k by (simp add: MembershipTable_def t_def split: option.splits)
  ultimately show "belongs (\<lambda>n. side dir (api n)) dn e"
    using h(4) k drawn_true by (auto simp: rows_true_def nest_of_def [abs_def])
next
  have same: "same_name (nest_of dir api)"
    unfolding same_name_def nest_of_def by (intro allI impI, drule assms, simp only:)
  let ?es = "table_entries dir (api dn)"
  let ?t = "table_step (TableAnswered 0 (Inr (api dn))) (table_open dn dir)"
  assume "belongs (\<lambda>n. side dir (api n)) dn e"
  then obtain gs where "chain (nest_of dir api) dn gs e" by (auto simp: belongs_chain nest_of_def [abs_def])
  from simple_chain [OF same this] obtain hs where
    "chain (nest_of dir api) dn hs e" "distinct (to_lower dn # names hs)" by blast
  then have "\<exists>evs. list_all row_ev evs \<and> rows_truthful api dir [dn] evs (map fresh_row ?es) \<and>
      (\<exists>d s x. (d, s, e, x) \<in> set (concat (map (drawn [dn] 0) (fold (rows_event dir [dn]) evs (map fresh_row ?es)))))"
    by (intro open_way) (auto simp: set_table_entries nest_of_def)
  then obtain evs d s x where evs: "list_all row_ev evs" "rows_truthful api dir [dn] evs (map fresh_row ?es)"
      "(d, s, e, x) \<in> set (concat (map (drawn [dn] 0) (fold (rows_event dir [dn]) evs (map fresh_row ?es))))"
    by (elim exE conjE)
  have t: "mt_dn ?t = dn" "mt_direction ?t = dir" "mt_rows ?t = map fresh_row ?es" "mt_error ?t = None" "mt_state ?t = Some (api dn)"
    by (simp_all add: table_step_def table_open_def mt_dn_def mt_direction_def rows_of_def)
  from rows_to_table [OF evs(1), of api ?t] evs(2) t have r: "truthful api evs ?t"
    "fold table_step evs ?t = ?t\<lparr>mt_rows := fold (rows_event dir [dn]) evs (map fresh_row ?es)\<rparr>" by simp_all
  let ?all = "TableAnswered 0 (Inr (api dn)) # evs"
  have "truthful api ?all (table_open dn dir)"
    using r(1) by (simp add: table_open_def)
  moreover have "\<forall>n d'. ShowFor n d' \<notin> set ?all"
    using evs(1) by (auto simp: list_all_iff row_ev_def)
  moreover have "MembershipTable (fold table_step ?all (table_open dn dir)) =
      TableRows (concat (map (drawn [dn] 0) (fold (rows_event dir [dn]) evs (map fresh_row ?es))))"
    using r(2) t by (simp add: MembershipTable_def)
  ultimately show "\<exists>evs rs d s x. truthful api evs (table_open dn dir) \<and> (\<forall>n d'. ShowFor n d' \<notin> set evs) \<and>
             MembershipTable (fold table_step evs (table_open dn dir)) = TableRows rs \<and> (d, s, e, x) \<in> set rs"
    using evs(3) by blast
qed

theorem table_can_show_exactly_what_belongs_witness:
  "let e = (\<lambda>n t. \<lparr>me_dn = n, me_name = n, me_objectType = t, me_scope = [], me_description = [], me_direct = None\<rparr>);
       api = (\<lambda>n. \<lparr>mb_member_of = [], mb_members = (if to_lower n = ''cn=g'' then [e ''CN=h'' ''group''] else [e ''CN=u'' ''user'']),
                    mb_members_truncated = False\<rparr>)
   in \<exists>evs rs d s x. truthful api evs (table_open ''CN=g'' DownWards) \<and> (\<forall>n d'. ShowFor n d' \<notin> set evs) \<and>
        MembershipTable (fold table_step evs (table_open ''CN=g'' DownWards)) = TableRows rs \<and> (d, s, e ''CN=u'' ''user'', x) \<in> set rs"
proof -
  define e where "e = (\<lambda>n t. \<lparr>me_dn = n, me_name = n, me_objectType = t, me_scope = [], me_description = [], me_direct = None\<rparr>)"
  define api where "api = (\<lambda>n. \<lparr>mb_member_of = [], mb_members = (if to_lower n = ''cn=g'' then [e ''CN=h'' ''group''] else [e ''CN=u'' ''user'']),
                    mb_members_truncated = False\<rparr>)"
  have l: "to_lower ''CN=g'' = ''cn=g''" "to_lower ''CN=h'' = ''cn=h''" by code_simp+
  have "belongs (\<lambda>n. side DownWards (api n)) ''CN=g'' (e ''CN=h'' ''group'')"
    by (rule belongs.direct) (simp add: api_def side_def l)
  then have "belongs (\<lambda>n. side DownWards (api n)) ''CN=g'' (e ''CN=u'' ''user'')"
    by (rule belongs.through) (simp_all add: api_def e_def side_def l)
  then have "\<exists>evs rs d s x. truthful api evs (table_open ''CN=g'' DownWards) \<and> (\<forall>n d'. ShowFor n d' \<notin> set evs) \<and>
        MembershipTable (fold table_step evs (table_open ''CN=g'' DownWards)) = TableRows rs \<and> (d, s, e ''CN=u'' ''user'', x) \<in> set rs"
    by (rule table_can_show_exactly_what_belongs [THEN iffD2, rotated]) (simp add: api_def)
  then show ?thesis by (simp only: Let_def e_def [symmetric] api_def [symmetric])
qed

end
