(* ===== verification/Activity.thy ===== *)
theory Activity
  imports Widgets Endpoints
begin

text \<open>
  The table of what people did (\<^verbatim>\<open>components/ActivityTable.tsx\<close>) and what a drop-down makes of its
  children (\<^verbatim>\<open>textOf\<close> and \<^verbatim>\<open>options\<close> of \<^verbatim>\<open>components/Select.tsx\<close>). The children are React nodes, a
  datatype here; the table is a machine whose events are a filter that changes, the timer behind it,
  the button for more, and the answers. A load is known by its place among those made.

  \<open>now\<close> is the clock in milliseconds and \<open>stamp\<close> what \<open>toISOString\<close> writes of one.
\<close>

section \<open>The children of a drop-down\<close>

datatype (plugins only: code size) node =
    NoNode
  | TextNode string
  | NumberNode int
  | NodeList "node list"
  | Element string "string option" bool node

fun textOf :: "node \<Rightarrow> string" where
  "textOf NoNode = []"
| "textOf (TextNode s) = s"
| "textOf (NumberNode n) = show_int n"
| "textOf (NodeList ns) = concat (map textOf ns)"
| "textOf (Element tag v dis ch) = textOf ch"

text \<open>\<open>Children.forEach\<close> goes through lists, not into elements.\<close>

fun leaves :: "node \<Rightarrow> node list" where
  "leaves (NodeList ns) = concat (map leaves ns)"
| "leaves n = [n]"

definition option_of :: "node \<Rightarrow> option_item list" where
  "option_of child =
     (case child of
        Element tag v dis ch \<Rightarrow>
          (if tag \<noteq> ''option'' then []
           else [\<lparr>o_value = (case v of None \<Rightarrow> textOf ch | Some x \<Rightarrow> x), o_text = textOf ch, o_disabled = dis\<rparr>])
      | _ \<Rightarrow> [])"

definition options :: "node \<Rightarrow> option_item list" where
  "options children = concat (map option_of (leaves children))"

section \<open>The kinds\<close>

datatype (plugins only: code size) tone = NoTone | Good | Bad

definition KINDS :: "(string \<times> string \<times> tone) list" where
  "KINDS =
     [(''sign-in'', ''Signed in'', NoTone),
      (''sign-out'', ''Signed out'', NoTone),
      (''sign-in-failed'', ''Sign-in failed'', Bad),
      (''logon-hours-refused'', ''Outside logon hours'', Bad),
      (''logon-hours-signed-out'', ''Signed out: logon hours ended'', NoTone),
      (''logon'', ''Signed in'', NoTone),
      (''logoff'', ''Signed out'', NoTone),
      (''sudo'', ''sudo'', NoTone),
      (''sudo-denied'', ''sudo refused'', Bad),
      (''su'', ''Became another user'', NoTone),
      (''su-denied'', ''su refused'', Bad),
      (''console-shell'', ''Console terminal'', NoTone),
      (''second-factor-approved'', ''Phone approved'', Good),
      (''second-factor-denied'', ''Phone refused'', Bad),
      (''second-factor-timeout'', ''Phone did not answer'', Bad),
      (''second-factor-enrolled'', ''Second factor set up'', NoTone),
      (''second-factor-removed'', ''Second factor removed'', NoTone),
      (''password-changed'', ''Password changed'', NoTone),
      (''local-user-added'', ''Local account added'', NoTone),
      (''local-user-removed'', ''Local account removed'', NoTone),
      (''group-changed'', ''Group membership changed'', NoTone),
      (''usb-connected'', ''USB device connected'', NoTone),
      (''usb-disconnected'', ''USB device removed'', NoTone),
      (''boot'', ''Booted'', NoTone),
      (''shutdown'', ''Shut down'', NoTone),
      (''update'', ''Updated'', NoTone)]"

definition FAMILIES :: "(string \<times> string) list" where
  "FAMILIES =
     [([], ''Everything''),
      (''sign-ins'', ''Sign-ins''),
      (''privilege'', ''sudo, su and terminals''),
      (''second-factor'', ''Second factor''),
      (''accounts'', ''Accounts and passwords''),
      (''devices'', ''USB devices''),
      (''power'', ''Boots and shutdowns'')]"

definition SERVICES :: "string list" where
  "SERVICES = [[], ''login'', ''ssh'', ''sudo'', ''su'', ''remote-desktop'', ''console'']"

definition SINCE :: "(string \<times> string \<times> int) list" where
  "SINCE = [(''24'', ''Last 24 hours'', 24), (''168'', ''Last 7 days'', 168), (''720'', ''Last 30 days'', 720), ([], ''All time'', 0)]"

definition PAGE :: nat where
  "PAGE = 100"

definition describeKind :: "string \<Rightarrow> string" where
  "describeKind kind = (case map_of KINDS kind of None \<Rightarrow> kind | Some (l, _) \<Rightarrow> l)"

definition kindTone :: "string \<Rightarrow> string" where
  "kindTone kind =
     (case map_of KINDS kind of
        Some (_, Bad) \<Rightarrow> ''badge failure''
      | Some (_, Good) \<Rightarrow> ''badge success''
      | _ \<Rightarrow> ''badge'')"

text \<open>The drop-down of kinds: the families, and the single kinds in a group of their own.\<close>

definition kind_children :: node where
  "kind_children =
     NodeList
       [NodeList (map (\<lambda>(v, l). Element ''option'' (Some v) False (TextNode l)) FAMILIES),
        Element ''optgroup'' None False
          (NodeList (map (\<lambda>(k, l, _). Element ''option'' (Some k) False (TextNode l)) KINDS))]"

section \<open>The table\<close>

record activity_entry =
  ae_id :: string
  ae_kind :: string
  ae_detail :: string

record activity_filters =
  af_hostname :: string
  af_principal :: string
  af_kind :: string
  af_service :: string
  af_since :: string
  af_q :: string

datatype (plugins only: code size) filter_key = FHostname | FPrincipal | FKind | FService | FSince | FQ

definition set_filter :: "filter_key \<Rightarrow> string \<Rightarrow> activity_filters \<Rightarrow> activity_filters" where
  "set_filter k v f =
     (case k of
        FHostname \<Rightarrow> f\<lparr>af_hostname := v\<rparr>
      | FPrincipal \<Rightarrow> f\<lparr>af_principal := v\<rparr>
      | FKind \<Rightarrow> f\<lparr>af_kind := v\<rparr>
      | FService \<Rightarrow> f\<lparr>af_service := v\<rparr>
      | FSince \<Rightarrow> f\<lparr>af_since := v\<rparr>
      | FQ \<Rightarrow> f\<lparr>af_q := v\<rparr>)"

text \<open>\<open>text || undefined\<close>\<close>

definition or_undefined :: "string \<Rightarrow> jsval" where
  "or_undefined t = (if t = [] then JUndef else JStr t)"

definition opt_value :: "string option \<Rightarrow> jsval" where
  "opt_value x = (case x of None \<Rightarrow> JUndef | Some t \<Rightarrow> JStr t)"

definition since_hours :: "string \<Rightarrow> int" where
  "since_hours v = (case map_of SINCE v of None \<Rightarrow> 0 | Some (_, h) \<Rightarrow> h)"

definition activity_query ::
  "(int \<Rightarrow> string) \<Rightarrow> int \<Rightarrow> string option \<Rightarrow> string option \<Rightarrow> activity_filters \<Rightarrow> nat \<Rightarrow> jsobj" where
  "activity_query stamp now dn person f from =
     (let hours = since_hours (af_since f)
      in [(''dn'', opt_value dn),
          (''principal'', (case person of None \<Rightarrow> or_undefined (af_principal f) | Some p \<Rightarrow> JStr p)),
          (''hostname'', (if dn \<noteq> None \<and> dn \<noteq> Some [] then JUndef else or_undefined (af_hostname f))),
          (''kind'', or_undefined (af_kind f)),
          (''service'', or_undefined (af_service f)),
          (''since'', (if hours \<noteq> 0 then JStr (stamp (now - hours * 3600000)) else JUndef)),
          (''q'', or_undefined (af_q f)),
          (''limit'', JNum (int PAGE)),
          (''offset'', JNum (int from))])"

record activity_table =
  at_entries :: "activity_entry list"
  at_filters :: activity_filters
  at_offset :: nat
  at_more :: bool
  at_error :: "string option"
  at_loading :: bool
  at_timer :: bool
  at_loads :: "(activity_filters \<times> nat) list"

definition activity_open :: "bool \<Rightarrow> activity_table" where
  "activity_open compact =
     \<lparr>at_entries = [],
      at_filters = \<lparr>af_hostname = [], af_principal = [], af_kind = [], af_service = [], af_since = (if compact then [] else ''168''), af_q = []\<rparr>,
      at_offset = 0, at_more = False, at_error = None, at_loading = False, at_timer = True, at_loads = []\<rparr>"

datatype (plugins only: code size) activity_event =
    SetFilter filter_key string
  | TimerFires
  | ShowMore
  | ActivityAnswered nat "string + activity_entry list"

definition activity_load :: "nat \<Rightarrow> activity_table \<Rightarrow> activity_table" where
  "activity_load from s = s\<lparr>at_error := None, at_loading := True, at_loads := at_loads s @ [(at_filters s, from)]\<rparr>"

definition activity_step :: "activity_event \<Rightarrow> activity_table \<Rightarrow> activity_table" where
  "activity_step ev s =
     (case ev of
        SetFilter k v \<Rightarrow> s\<lparr>at_filters := set_filter k v (at_filters s), at_timer := True\<rparr>
      | TimerFires \<Rightarrow> (if at_timer s then activity_load 0 (s\<lparr>at_timer := False\<rparr>) else s)
      | ShowMore \<Rightarrow> (if at_more s \<and> \<not> at_loading s then activity_load (at_offset s) s else s)
      | ActivityAnswered i a \<Rightarrow>
          (if length (at_loads s) \<le> i then s
           else (let from = snd (at_loads s ! i)
                 in case a of
                      Inl msg \<Rightarrow> s\<lparr>at_error := Some msg, at_loading := False\<rparr>
                    | Inr es \<Rightarrow>
                        s\<lparr>at_entries := (if from = 0 then es else at_entries s @ es), at_more := (length es = PAGE),
                          at_offset := from + length es, at_loading := False\<rparr>)))"

section \<open>Paging\<close>

text \<open>What the API answers for a page of a log that stands still.\<close>

definition log_page :: "activity_entry list \<Rightarrow> nat \<Rightarrow> activity_entry list" where
  "log_page log from = take PAGE (drop from log)"

text \<open>A click for more and its answer.\<close>

definition more_round :: "activity_entry list \<Rightarrow> activity_table \<Rightarrow> activity_table" where
  "more_round log s =
     (if at_more s
      then activity_step (ActivityAnswered (length (at_loads s)) (Inr (log_page log (at_offset s)))) (activity_step ShowMore s)
      else s)"

lemma more_rounds:
  assumes "at_timer s"
  shows "let s' = (more_round log ^^ k) (activity_step (ActivityAnswered (length (at_loads s)) (Inr (log_page log 0))) (activity_step TimerFires s))
         in at_entries s' = take (PAGE * Suc k) log \<and> (at_more s' \<longleftrightarrow> PAGE * Suc k \<le> length log) \<and>
            (at_more s' \<longrightarrow> at_offset s' = PAGE * Suc k) \<and> \<not> at_loading s'"
proof (induction k)
  case 0
  show ?case
    using assms by (auto simp: Let_def activity_step_def activity_load_def log_page_def PAGE_def)
next
  case (Suc k)
  define s' where "s' = (more_round log ^^ k) (activity_step (ActivityAnswered (length (at_loads s)) (Inr (log_page log 0))) (activity_step TimerFires s))"
  have ih: "at_entries s' = take (PAGE * Suc k) log" "at_more s' \<longleftrightarrow> PAGE * Suc k \<le> length log"
    "at_more s' \<Longrightarrow> at_offset s' = PAGE * Suc k" "\<not> at_loading s'"
    using Suc.IH by (simp_all add: s'_def Let_def)
  have "at_entries (more_round log s') = take (PAGE * Suc (Suc k)) log \<and>
      (at_more (more_round log s') \<longleftrightarrow> PAGE * Suc (Suc k) \<le> length log) \<and>
      (at_more (more_round log s') \<longrightarrow> at_offset (more_round log s') = PAGE * Suc (Suc k)) \<and> \<not> at_loading (more_round log s')"
  proof (cases "at_more s'")
    case False
    with ih show ?thesis by (auto simp: more_round_def)
  next
    case True
    with ih have o': "at_offset s' = PAGE * Suc k" "PAGE * Suc k \<le> length log" by auto
    let ?p = "take PAGE (drop (PAGE * Suc k) log)"
    have t: "take (PAGE * Suc k) log @ ?p = take (PAGE * Suc (Suc k)) log"
      using take_add [of "PAGE * Suc k" PAGE log] by (simp add: add.commute)
    have p: "PAGE * Suc k \<noteq> 0" "(length ?p = PAGE) = (PAGE * Suc (Suc k) \<le> length log)"
      using o'(2) by (auto simp: PAGE_def)
    have "more_round log s' = s'\<lparr>at_error := None, at_loading := False, at_loads := at_loads s' @ [(at_filters s', PAGE * Suc k)],
        at_entries := at_entries s' @ ?p, at_more := (length ?p = PAGE), at_offset := PAGE * Suc k + length ?p\<rparr>"
      using True ih(4) o'(1) p(1) by (simp add: PAGE_def more_round_def activity_step_def activity_load_def log_page_def Let_def)
    then show ?thesis using ih(1) t p(2) by auto
  qed
  then show ?case by (simp add: s'_def Let_def)
qed

text \<open>C27: Asking for more ends, and ends with everything: over a log that stands still, each click appends the next
  hundred entries, none left out and none twice, and after as many clicks as the log has hundreds the
  button is gone and the whole log is shown.\<close>

theorem show_more_ends_with_everything:
  assumes "at_timer s"
  shows "let first = activity_step (ActivityAnswered (length (at_loads s)) (Inr (log_page log 0))) (activity_step TimerFires s)
         in (\<forall>k. at_entries ((more_round log ^^ k) first) = take (PAGE * Suc k) log) \<and>
            (\<forall>k. \<not> at_more ((more_round log ^^ k) first) \<longrightarrow> at_entries ((more_round log ^^ k) first) = log) \<and>
            \<not> at_more ((more_round log ^^ (length log div PAGE)) first)"
proof -
  let ?first = "activity_step (ActivityAnswered (length (at_loads s)) (Inr (log_page log 0))) (activity_step TimerFires s)"
  have e: "at_entries ((more_round log ^^ k) ?first) = take (PAGE * Suc k) log"
    and m: "at_more ((more_round log ^^ k) ?first) \<longleftrightarrow> PAGE * Suc k \<le> length log" for k
    using more_rounds [OF assms, where log = log and k = k] by (simp_all add: Let_def)
  have "length log < PAGE * Suc (length log div PAGE)"
    using dividend_less_times_div [of PAGE "length log"] by (simp add: PAGE_def)
  then have "\<not> at_more ((more_round log ^^ (length log div PAGE)) ?first)" using m by simp
  moreover have "\<not> at_more ((more_round log ^^ k) ?first) \<longrightarrow> at_entries ((more_round log ^^ k) ?first) = log" for k
    using e m by simp
  ultimately show ?thesis using e by (simp add: Let_def)
qed

theorem show_more_ends_with_everything_witness:
  "let first = activity_step (ActivityAnswered 0 (Inr (log_page [] 0))) (activity_step TimerFires (activity_open True))
   in (\<forall>k. at_entries ((more_round [] ^^ k) first) = []) \<and> \<not> at_more first"
  using show_more_ends_with_everything [of "activity_open True" "[]"] by (simp add: activity_open_def Let_def)

section \<open>What goes wrong\<close>

text \<open>The single kinds are never offered: the drop-down of kinds holds the families alone, because a group of
  options is an element it does not look into, so no event makes it choose one of them.\<close>

theorem single_kinds_are_never_offered:
  assumes "Select (options kind_children) v ev s = (s', Some w)"
  shows "w \<in> fst ` set FAMILIES \<and> w \<notin> fst ` set KINDS"
proof -
  have o': "o_value ` set (options kind_children) = fst ` set FAMILIES"
    by (simp add: options_def kind_children_def option_of_def FAMILIES_def)
  have "w \<in> o_value ` set (options kind_children)"
    using select_gives_an_offered_value [OF assms] by auto
  then have w: "w \<in> fst ` set FAMILIES" unfolding o' .
  moreover have "list_all (\<lambda>f. fst f \<notin> fst ` set KINDS) FAMILIES" by code_simp
  ultimately show ?thesis by (auto simp: list_all_iff)
qed

theorem single_kinds_are_never_offered_witness:
  "''sign-ins'' \<in> fst ` set FAMILIES \<and> ''sign-ins'' \<notin> fst ` set KINDS"
proof (rule single_kinds_are_never_offered)
  show "Select (options kind_children) [] (SelectClick 1) \<lparr>sel_open = True, sel_active = 0\<rparr> =
      (\<lparr>sel_open = False, sel_active = 0\<rparr>, Some ''sign-ins'')" by code_simp
qed

text \<open>An answer that comes late wins: when a filter is changed while a load is under way and the two answers come
  in the wrong order, the table shows the entries of the old filter under the new one.\<close>

theorem late_answer_shows_the_old_filter:
  assumes "at_timer s" and "n = length (at_loads s)"
  shows "let s' = fold activity_step [TimerFires, SetFilter k v, TimerFires, ActivityAnswered (Suc n) (Inr new), ActivityAnswered n (Inr old)] s
         in at_entries s' = old \<and> at_filters s' = set_filter k v (at_filters s) \<and> \<not> at_loading s' \<and> \<not> at_timer s' \<and>
            at_loads s' = at_loads s @ [(at_filters s, 0), (at_filters s', 0)]"
  using assms by (simp add: activity_step_def activity_load_def Let_def nth_append)

theorem late_answer_shows_the_old_filter_witness:
  "let s' = fold activity_step [TimerFires, SetFilter FQ ''sudo'', TimerFires, ActivityAnswered (Suc 0) (Inr []),
               ActivityAnswered 0 (Inr [\<lparr>ae_id = ''1'', ae_kind = ''boot'', ae_detail = []\<rparr>])] (activity_open True)
   in at_entries s' = [\<lparr>ae_id = ''1'', ae_kind = ''boot'', ae_detail = []\<rparr>] \<and> af_q (at_filters s') = ''sudo''"
  using late_answer_shows_the_old_filter [of "activity_open True" 0 FQ "''sudo''" "[]" "[\<lparr>ae_id = ''1'', ae_kind = ''boot'', ae_detail = []\<rparr>]"]
  by (simp add: activity_open_def set_filter_def Let_def)

end
