(* ===== verification/Sessions.thy ===== *)
theory Sessions
  imports Endpoints
begin

text \<open>
  The two sessions the console keeps open over a socket: the terminal of a machine
  (\<^verbatim>\<open>components/Terminal.tsx\<close>) and a shared screen (\<^verbatim>\<open>pages/AssistView.tsx\<close>). The terminal emulator, the
  VNC viewer and the socket are the browser's and their libraries': what they report is an event, what is
  written to them is a value. \<open>parse\<close> is \<open>JSON.parse\<close>, with \<open>None\<close> where it throws.
\<close>

section \<open>Frames\<close>

definition FRAME_DATA :: char where
  "FRAME_DATA = CHR 0x00"

definition FRAME_CONTROL :: char where
  "FRAME_CONTROL = CHR 0x01"

definition control_frame :: "jsobj \<Rightarrow> string" where
  "control_frame members = FRAME_CONTROL # json_text (JObj members)"

definition data_frame :: "string \<Rightarrow> string" where
  "data_frame t = FRAME_DATA # t"

definition resize_frame :: "int \<Rightarrow> int \<Rightarrow> string" where
  "resize_frame cols rows = control_frame [(''type'', JStr ''resize''), (''cols'', JNum cols), (''rows'', JNum rows)]"

section \<open>The terminal\<close>

datatype (plugins only: code size) phase = Opening | Connected | Ended | Failed

record terminal =
  tm_phase :: phase
  tm_message :: string
  tm_written :: string
  tm_bytes :: nat
  tm_attempt :: nat

definition terminal_open :: terminal where
  "terminal_open = \<lparr>tm_phase = Opening, tm_message = [], tm_written = [], tm_bytes = 0, tm_attempt = 0\<rparr>"

datatype (plugins only: code size) terminal_event =
    OpenRefused string
  | TerminalFrame string
  | TerminalClosed int
  | TerminalError
  | NewSession

definition exit_message :: "jsval \<Rightarrow> jsval \<Rightarrow> string" where
  "exit_message t st =
     to_string (or_else t (JStr
       (if st = JUndef \<or> st = JNum 0 then ''The shell exited.''
        else ''The shell exited with st '' @ to_string st @ ''.'')))"

definition terminal_control :: "jsval \<Rightarrow> terminal \<Rightarrow> terminal" where
  "terminal_control members s =
     (case (member members ''type'', member members ''text'', member members ''status'') of
        (Some ty, Some t, Some st) \<Rightarrow>
          (if ty = JStr ''status''
           then (let s' = s\<lparr>tm_message := to_string (or_else t (JStr []))\<rparr>
                 in if \<not> truthy t then s'\<lparr>tm_phase := Connected\<rparr> else s')
           else if ty = JStr ''exit'' then s\<lparr>tm_phase := Ended, tm_message := exit_message t st\<rparr>
           else s)
      | _ \<Rightarrow> s)"

definition terminal_step :: "(string \<Rightarrow> jsval option) \<Rightarrow> terminal_event \<Rightarrow> terminal \<Rightarrow> terminal" where
  "terminal_step parse ev s =
     (case ev of
        OpenRefused msg \<Rightarrow> s\<lparr>tm_phase := Failed, tm_message := msg\<rparr>
      | TerminalFrame frame \<Rightarrow>
          (case frame of
             [] \<Rightarrow> s
           | c # payload \<Rightarrow>
               if c = FRAME_DATA
               then s\<lparr>tm_written := tm_written s @ payload, tm_bytes := tm_bytes s + length payload\<rparr>
               else (case parse payload of None \<Rightarrow> s | Some members \<Rightarrow> terminal_control members s))
      | TerminalClosed code \<Rightarrow>
          (let s' = s\<lparr>tm_phase := (if tm_phase s = Ended then tm_phase s else Ended)\<rparr>
           in if code \<in> {4401, 4403, 4404}
              then s'\<lparr>tm_phase := Failed, tm_message := ''The console refused the terminal. Sign in again and retry.''\<rparr>
              else s'\<lparr>tm_message := (if tm_message s = [] then ''The connection closed.'' else tm_message s)\<rparr>)
      | TerminalError \<Rightarrow> s\<lparr>tm_phase := Failed, tm_message := ''The connection to the console failed.''\<rparr>
      | NewSession \<Rightarrow>
          (if tm_phase s \<in> {Ended, Failed}
           then s\<lparr>tm_phase := Opening, tm_message := [], tm_written := [], tm_attempt := tm_attempt s + 1\<rparr> else s))"

definition terminal_bar :: "int \<Rightarrow> int \<Rightarrow> terminal \<Rightarrow> string" where
  "terminal_bar cols rows s =
     (if tm_message s \<noteq> [] then tm_message s
      else (case tm_phase s of
              Opening \<Rightarrow> ''Opening'' @ ellipsis
            | Connected \<Rightarrow> ''Connected '' @ middle_dot @ '' '' @ show_int cols @ [CHR 0xC3, CHR 0x97] @ show_int rows @ '' '' @ middle_dot @
                           '' '' @ show_nat (tm_bytes s) @ '' bytes received''
            | Ended \<Rightarrow> ''Ended''
            | Failed \<Rightarrow> ''Failed''))"

section \<open>A shared screen\<close>

datatype (plugins only: code size) assist_phase = AsLoading | AsConnecting | AsConnected | AsEnded | AsFailed

record assist_view =
  as_phase :: assist_phase
  as_message :: string
  as_about :: "(string \<times> string \<times> int) option"
  as_now :: int
  as_early :: bool
  as_viewer :: bool
  as_attempt :: nat

definition assist_open :: "int \<Rightarrow> assist_view" where
  "assist_open now = \<lparr>as_phase = AsLoading, as_message = [], as_about = None, as_now = now, as_early = False, as_viewer = False, as_attempt = 0\<rparr>"

datatype (plugins only: code size) assist_event =
    OfferRefused "int option" string
  | OfferRead string string int int
  | AssistClosed string int
  | AssistError
  | AssistText string
  | ViewerConnected
  | ViewerRefused "string option"
  | ViewerGone bool
  | ClickEnd
  | ConnectAgain
  | Tick int

definition secondsLeft :: "assist_view \<Rightarrow> int" where
  "secondsLeft s = (case as_about s of None \<Rightarrow> 0 | Some (_, _, until) \<Rightarrow> max 0 ((until - as_now s + 500) div 1000))"

definition early_message :: "string \<Rightarrow> int \<Rightarrow> string" where
  "early_message reason code =
     (if reason \<noteq> [] then reason
      else if code = 4401 \<or> code = 4403 then ''The console refused the viewer. Sign in again and retry.''
      else if code = 4404 then ''This offer has ended.''
      else ''The connection to the console closed.'')"

text \<open>\<open>as_early\<close>: the listener for a close before the machine is on the line is still there; \<open>as_viewer\<close>: the
  viewer owns the socket. The viewer's own events come only from a viewer.\<close>

definition assist_step :: "assist_event \<Rightarrow> assist_view \<Rightarrow> assist_view" where
  "assist_step ev s =
     (case ev of
        OfferRefused st msg \<Rightarrow>
          (if as_phase s = AsLoading
           then s\<lparr>as_phase := AsFailed,
                  as_message := (if st = Some 404 then ''This offer has ended, or it was made from another sign-in.'' else msg)\<rparr>
           else s)
      | OfferRead hostname username seconds_left at \<Rightarrow>
          (if as_phase s = AsLoading
           then s\<lparr>as_about := Some (hostname, username, at + seconds_left * 1000), as_phase := AsConnecting,
                  as_message := ''Connecting to the machine'' @ ellipsis, as_early := True\<rparr>
           else s)
      | AssistClosed reason code \<Rightarrow>
          (if as_early s then s\<lparr>as_phase := AsFailed, as_message := early_message reason code\<rparr> else s)
      | AssistError \<Rightarrow>
          (if as_early s \<or> as_viewer s then s\<lparr>as_phase := AsFailed, as_message := ''The connection to the console failed.''\<rparr> else s)
      | AssistText t \<Rightarrow>
          (if as_early s \<and> t = ''ready'' then s\<lparr>as_early := False, as_viewer := True\<rparr> else s)
      | ViewerConnected \<Rightarrow> (if as_viewer s then s\<lparr>as_phase := AsConnected, as_message := []\<rparr> else s)
      | ViewerRefused reason \<Rightarrow>
          (if as_viewer s
           then s\<lparr>as_phase := AsFailed,
                  as_message := ''The machine refused the credential'' @
                    (case reason of Some r \<Rightarrow> if r \<noteq> [] then '': '' @ r else ''.'' | None \<Rightarrow> ''.'')\<rparr>
           else s)
      | ViewerGone clean \<Rightarrow>
          (if as_viewer s
           then s\<lparr>as_phase := (if as_phase s = AsFailed then AsFailed else AsEnded),
                  as_message := (if as_message s \<noteq> [] then as_message s
                                 else if clean then ''The viewing ended.'' else ''The connection to the machine was lost.'')\<rparr>
           else s)
      | ClickEnd \<Rightarrow> (if as_phase s = AsConnected then s\<lparr>as_phase := AsEnded, as_message := ''The viewing ended.''\<rparr> else s)
      | ConnectAgain \<Rightarrow>
          (if as_phase s \<in> {AsEnded, AsFailed} \<and> 0 < secondsLeft s
           then s\<lparr>as_phase := AsLoading, as_message := [], as_early := False, as_viewer := False, as_attempt := as_attempt s + 1\<rparr>
           else s)
      | Tick now \<Rightarrow> s\<lparr>as_now := now\<rparr>)"

definition two_digits :: "int \<Rightarrow> string" where
  "two_digits n = (let d = show_int n in replicate (2 - length d) (CHR ''0'') @ d)"

definition assist_clock :: "int \<Rightarrow> string" where
  "assist_clock left = show_int (left div 60) @ '':'' @ two_digits (left mod 60)"

definition assist_state :: "assist_view \<Rightarrow> string" where
  "assist_state s =
     (if as_phase s = AsConnected then ''Watching '' @ middle_dot @ '' '' @ assist_clock (secondsLeft s) @ '' left''
      else if as_message s \<noteq> [] then as_message s else ellipsis)"

section \<open>Properties of the terminal\<close>

text \<open>What a machine sent, as the frames of data say it.\<close>

fun sent_data :: "terminal_event list \<Rightarrow> string" where
  "sent_data [] = []"
| "sent_data (TerminalFrame (c # payload) # evs) = (if c = FRAME_DATA then payload @ sent_data evs else sent_data evs)"
| "sent_data (_ # evs) = sent_data evs"

lemma terminal_control_output [simp]:
  "tm_written (terminal_control members s) = tm_written s" "tm_bytes (terminal_control members s) = tm_bytes s"
  by (auto simp: terminal_control_def Let_def split: option.split)

lemma terminal_step_output:
  assumes "ev \<noteq> NewSession"
  shows "tm_written (terminal_step parse ev s) = tm_written s @ sent_data [ev] \<and>
         tm_bytes (terminal_step parse ev s) = tm_bytes s + length (sent_data [ev])"
proof (cases ev)
  case (TerminalFrame frame)
  then show ?thesis by (cases frame) (auto simp: terminal_step_def split: option.split)
qed (use assms in \<open>auto simp: terminal_step_def Let_def\<close>)

lemma sent_data_Cons: "sent_data (ev # evs) = sent_data [ev] @ sent_data evs"
proof (cases ev)
  case (TerminalFrame frame)
  then show ?thesis by (cases frame) auto
qed simp_all

text \<open>What the machine prints reaches the emulator byte for byte: over a session the bytes written are those of
  its data frames in order, whatever control frames, errors or empty frames come between, and the count
  in the bar is theirs.\<close>

theorem terminal_prints_what_was_sent:
  assumes "NewSession \<notin> set evs"
  shows "tm_written (fold (terminal_step parse) evs s) = tm_written s @ sent_data evs \<and>
         tm_bytes (fold (terminal_step parse) evs s) = tm_bytes s + length (sent_data evs)"
  using assms
proof (induction evs arbitrary: s)
  case (Cons ev evs)
  then have "ev \<noteq> NewSession" and rest: "NewSession \<notin> set evs" by auto
  from terminal_step_output [OF this(1), of parse s] Cons.IH [OF rest, of "terminal_step parse ev s"] show ?case
    by (simp add: sent_data_Cons [of ev evs])
qed simp

theorem terminal_prints_what_was_sent_witness:
  "tm_written (fold (terminal_step (\<lambda>_. None)) [TerminalFrame (data_frame ''ab''), TerminalFrame (resize_frame 80 24), TerminalFrame (data_frame ''c'')] terminal_open)
   = ''abc''"
  using terminal_prints_what_was_sent [of "[TerminalFrame (data_frame ''ab''), TerminalFrame (resize_frame 80 24), TerminalFrame (data_frame ''c'')]" "\<lambda>_. None" terminal_open]
  by (simp add: terminal_open_def data_frame_def resize_frame_def control_frame_def FRAME_DATA_def FRAME_CONTROL_def)

text \<open>A failure is shown as an end: the socket that fails closes too, and the close makes the phase \<open>ended\<close>
  whatever it was; the guard that means to keep it keeps nothing.\<close>

theorem failed_terminal_is_shown_as_ended:
  assumes "code \<notin> {4401, 4403, 4404}"
  shows "let s' = fold (terminal_step parse) [TerminalError, TerminalClosed code] s
         in tm_phase s' = Ended \<and> tm_message s' = ''The connection to the console failed.''"
  using assms by (simp add: terminal_step_def Let_def)

theorem failed_terminal_is_shown_as_ended_witness:
  "tm_phase (fold (terminal_step (\<lambda>_. None)) [TerminalError, TerminalClosed 1006] terminal_open) = Ended"
  using failed_terminal_is_shown_as_ended [of 1006 "\<lambda>_. None" terminal_open] by (simp add: Let_def)

section \<open>Properties of the shared screen\<close>

definition assist_ok :: "assist_view \<Rightarrow> bool" where
  "assist_ok s \<longleftrightarrow>
     (as_early s \<or> as_viewer s \<longrightarrow> as_about s \<noteq> None) \<and> \<not> (as_early s \<and> as_viewer s) \<and>
     (as_phase s = AsConnected \<longrightarrow> as_viewer s) \<and> (as_phase s = AsConnecting \<longrightarrow> as_early s \<or> as_viewer s) \<and>
     (as_phase s = AsLoading \<longrightarrow> \<not> as_early s \<and> \<not> as_viewer s)"

interpretation assist: machine "assist_open now" assist_step assist_ok
proof
  show "assist_ok (assist_open now)" by (simp add: assist_ok_def assist_open_def)
next
  fix s ev
  assume "assist_ok s"
  then show "assist_ok (assist_step ev s)"
    by (cases ev) (auto simp: assist_ok_def assist_step_def)
qed



end
