(* ===== verification/Navigation.thy ===== *)
theory Navigation
  imports Prelude
begin

text \<open>
  The frame around the pages (\<^verbatim>\<open>Shell.tsx\<close>): the sections a session sees, how they are grouped and folded,
  the menu of the account, and \<^verbatim>\<open>holds\<close> of \<^verbatim>\<open>api.ts\<close>, which decides what a session may. A session is
  what the control plane said of it; the roles installed are those its list names as active.
\<close>

section \<open>What a session may\<close>

record session_info =
  si_display_name :: string
  si_domain_admin :: bool
  si_permissions :: "string list"

definition holds :: "session_info \<Rightarrow> string \<Rightarrow> bool" where
  "holds session permission \<longleftrightarrow> si_domain_admin session \<or> permission \<in> set (si_permissions session)"

section \<open>The sections\<close>

record nav_item =
  n_label :: string
  n_group :: "string option"
  n_to :: string
  n_end :: bool
  n_permission :: "string option"
  n_domainAdmin :: bool
  n_roles :: "string list"

definition nav_item :: "string \<Rightarrow> string option \<Rightarrow> string \<Rightarrow> bool \<Rightarrow> string option \<Rightarrow> bool \<Rightarrow> string list \<Rightarrow> nav_item" where
  "nav_item l g t e p d rs = \<lparr>n_label = l, n_group = g, n_to = t, n_end = e, n_permission = p, n_domainAdmin = d, n_roles = rs\<rparr>"

definition NAV :: "nav_item list" where
  "NAV =
     [nav_item ''Overview'' None ''/'' True None False [],
      nav_item ''Directory'' (Some ''Domain'') ''/directory'' False (Some ''directory.read'') False [],
      nav_item ''Group Policy'' (Some ''Domain'') ''/policy'' False (Some ''gpo.read'') False [],
      nav_item ''DNS'' (Some ''Network'') ''/dns'' False (Some ''dns.read'') False [],
      nav_item ''DHCP'' (Some ''Network'') ''/dhcp'' False (Some ''dhcp.read'') False [''dhcp''],
      nav_item ''File Shares'' (Some ''Services'') ''/shares'' False (Some ''share.read'') False [''file-server''],
      nav_item ''Printers'' (Some ''Services'') ''/printers'' False (Some ''printer.read'') False [''print-server''],
      nav_item ''Remote Desktop'' (Some ''Services'') ''/remote-desktop'' False (Some ''rd.read'') False [''remote-desktop-broker''],
      nav_item ''Remote Access'' (Some ''Network'') ''/vpn'' False (Some ''vpn.read'') False [''vpn''],
      nav_item ''Network Access'' (Some ''Network'') ''/network-access'' False (Some ''radius.read'') False [''radius''],
      nav_item ''Certificates'' (Some ''Services'') ''/certificates'' False (Some ''ca.read'') False [''certificate-authority''],
      nav_item ''Passwords'' (Some ''Services'') ''/passwords'' False (Some ''passwords.read'') False [''password-manager''],
      nav_item ''Client Enrolment'' (Some ''Network'') ''/enrolment'' False (Some ''role.read'') False [''pxe'', ''dhcp''],
      nav_item ''Domain Controllers'' (Some ''Servers'') ''/controllers'' False (Some ''dc.read'') False [],
      nav_item ''Server Roles'' (Some ''Servers'') ''/roles'' False (Some ''role.read'') False [],
      nav_item ''Delegation'' (Some ''Security'') ''/delegation'' False None True [],
      nav_item ''Deleted Objects'' (Some ''Domain'') ''/recyclebin'' False (Some ''recyclebin.read'') False [],
      nav_item ''Monitoring'' (Some ''Servers'') ''/monitor'' False (Some ''monitor.read'') False [''monitoring''],
      nav_item ''Activity'' (Some ''Security'') ''/activity'' False (Some ''audit.read'') False [],
      nav_item ''Audit Log'' (Some ''Security'') ''/audit'' False (Some ''audit.read'') False [],
      nav_item ''Wiki'' (Some ''Help'') ''/wiki'' False None False []]"

definition NAV_GROUPS :: "string list" where
  "NAV_GROUPS = [''Domain'', ''Network'', ''Services'', ''Servers'', ''Security'', ''Help'']"

text \<open>\<open>indexOf\<close>, with -1 for what is not there.\<close>

fun index_in :: "'a \<Rightarrow> 'a list \<Rightarrow> int" where
  "index_in x [] = -1"
| "index_in x (y # ys) = (if y = x then 0 else (let i = index_in x ys in if i < 0 then -1 else i + 1))"

definition groupRank :: "nav_item \<Rightarrow> int" where
  "groupRank item = (case n_group item of None \<Rightarrow> -1 | Some g \<Rightarrow> if g = [] then -1 else index_in g NAV_GROUPS)"

definition may_see :: "session_info \<Rightarrow> string set \<Rightarrow> nav_item \<Rightarrow> bool" where
  "may_see session installed item \<longleftrightarrow>
     (n_domainAdmin item \<longrightarrow> si_domain_admin session) \<and>
     (case n_permission item of None \<Rightarrow> True | Some p \<Rightarrow> p = [] \<or> holds session p) \<and>
     list_all (\<lambda>role. role \<in> installed) (n_roles item)"

definition visible_of :: "nav_item list \<Rightarrow> session_info \<Rightarrow> string set \<Rightarrow> nav_item list" where
  "visible_of nav session installed = sort_key groupRank (filter (may_see session installed) nav)"

definition visible :: "session_info \<Rightarrow> string set \<Rightarrow> nav_item list" where
  "visible session installed = visible_of NAV session installed"

text \<open>An instance of a role: its name and its state.\<close>

definition installed_roles :: "(string \<times> string) list \<Rightarrow> string set" where
  "installed_roles instances = set (map fst (filter (\<lambda>i. snd i = ''active'') instances))"

text \<open>The roles are read only by a session that may read them; a read that fails leaves none.\<close>

datatype (plugins only: code size) roles_event = RolesListed "(string \<times> string) list" | RolesFailed

definition roles_step :: "session_info \<Rightarrow> roles_event \<Rightarrow> string set \<Rightarrow> string set" where
  "roles_step session ev installed =
     (if \<not> holds session ''role.read'' then installed
      else (case ev of RolesListed found \<Rightarrow> installed_roles found | RolesFailed \<Rightarrow> {}))"

section \<open>What is drawn\<close>

record drawn_item =
  di_label :: string
  di_heading :: "string option"
  di_active :: bool
  di_hidden :: bool

definition is_active :: "string \<Rightarrow> nav_item \<Rightarrow> bool" where
  "is_active path item \<longleftrightarrow> (if n_end item then path = n_to item else js_startsWith path (n_to item))"

definition fold_state :: "(string \<Rightarrow> bool) \<Rightarrow> nav_item \<Rightarrow> bool" where
  "fold_state folded item = (case n_group item of None \<Rightarrow> False | Some g \<Rightarrow> g \<noteq> [] \<and> folded g)"

fun drawn_items :: "(string \<Rightarrow> bool) \<Rightarrow> bool \<Rightarrow> string \<Rightarrow> string option \<Rightarrow> nav_item list \<Rightarrow> drawn_item list" where
  "drawn_items folded collapsed path before [] = []"
| "drawn_items folded collapsed path before (item # items) =
     \<lparr>di_label = n_label item,
      di_heading = (if n_group item \<noteq> None \<and> n_group item \<noteq> Some [] \<and> n_group item \<noteq> before then n_group item else None),
      di_active = is_active path item,
      di_hidden = (fold_state folded item \<and> \<not> collapsed \<and> \<not> is_active path item)\<rparr>
     # drawn_items folded collapsed path (n_group item) items"

definition fold_group :: "string \<Rightarrow> (string \<Rightarrow> bool) \<Rightarrow> string \<Rightarrow> bool" where
  "fold_group g folded = folded(g := \<not> folded g)"

text \<open>The words of a name, between blanks, dots, underscores and hyphens.\<close>

definition name_break :: "char \<Rightarrow> bool" where
  "name_break c \<longleftrightarrow> is_space c \<or> c \<in> set ''._-''"

fun name_words :: "string \<Rightarrow> string \<Rightarrow> string list" where
  "name_words word [] = (if word = [] then [] else [word])"
| "name_words word (c # s) =
     (if name_break c then (if word = [] then name_words [] s else word # name_words [] s) else name_words (word @ [c]) s)"

definition initials :: "string \<Rightarrow> string" where
  "initials name =
     (let parts = name_words [] (js_trim (if name = [] then ''?'' else name))
      in if parts = [] then ''?'' else to_upper (map hd (take 2 parts)))"

section \<open>Properties\<close>

fun headings :: "drawn_item list \<Rightarrow> string list" where
  "headings [] = []"
| "headings (d # ds) = (case di_heading d of None \<Rightarrow> headings ds | Some g \<Rightarrow> g # headings ds)"

text \<open>The headings of a list in which the groups stand in a given order, each in one run.\<close>

lemma index_in_less: "index_in x ys < 0 \<longleftrightarrow> x \<notin> set ys"
  by (induction ys) (auto simp: Let_def)

lemma index_in_inj: "index_in x zs = index_in y zs \<Longrightarrow> x \<in> set zs \<Longrightarrow> x = y"
proof (induction zs)
  case (Cons z zs)
  then show ?case using index_in_less [of y zs] index_in_less [of x zs]
    by (auto simp: Let_def split: if_splits)
qed simp

definition grouped_item :: "string list \<Rightarrow> nav_item \<Rightarrow> bool" where
  "grouped_item gs item \<longleftrightarrow> (\<forall>g. n_group item = Some g \<longrightarrow> g \<in> set gs \<and> g \<noteq> [])"

definition rank_in :: "string list \<Rightarrow> string option \<Rightarrow> int" where
  "rank_in gs g = (case g of None \<Rightarrow> -1 | Some x \<Rightarrow> index_in x gs)"

lemma headings_of_sorted:
  assumes "sorted (map (\<lambda>i. rank_in gs (n_group i)) items)" and "list_all (grouped_item gs) items"
    and "\<forall>i \<in> set items. rank_in gs before \<le> rank_in gs (n_group i)" and "\<forall>x. before = Some x \<longrightarrow> x \<in> set gs"
  shows "distinct (headings (drawn_items folded collapsed path before items)) \<and>
         set (headings (drawn_items folded collapsed path before items)) = {g. \<exists>i \<in> set items. n_group i = Some g} - {g. before = Some g} \<and>
         sorted (map (\<lambda>g. index_in g gs) (headings (drawn_items folded collapsed path before items)))"
  using assms
proof (induction items arbitrary: before)
  case Nil
  then show ?case by simp
next
  case (Cons i items)
  let ?hs = "headings (drawn_items folded collapsed path (n_group i) items)"
  have ih: "distinct ?hs" "set ?hs = {g. \<exists>i \<in> set items. n_group i = Some g} - {g. n_group i = Some g}" "sorted (map (\<lambda>g. index_in g gs) ?hs)"
    using Cons.IH [of "n_group i"] Cons.prems(1,2) by (auto simp: grouped_item_def)
  show ?case
  proof (cases "n_group i")
    case None
    have "rank_in gs before \<le> -1" using Cons.prems(3) None by (auto simp: rank_in_def)
    then have b: "before = None"
      using Cons.prems(4) index_in_less by (cases before) (force simp: rank_in_def)+
    with None ih show ?thesis by auto
  next
    case (Some g)
    have g: "g \<in> set gs" "g \<noteq> []" using Cons.prems(2) Some by (auto simp: grouped_item_def)
    show ?thesis
    proof (cases "before = Some g")
      case True
      with Some ih show ?thesis by auto
    next
      case False
      have later: "index_in g gs \<le> index_in h gs" if "h \<in> set ?hs" for h
      proof -
        from that ih(2) obtain j where "j \<in> set items" "n_group j = Some h" by auto
        with Cons.prems(1) Some show ?thesis by (auto simp: rank_in_def)
      qed
      have "b \<noteq> h" if "before = Some b" "h \<in> {g. \<exists>i \<in> set (i # items). n_group i = Some g}" for b h
      proof
        assume "b = h"
        from that(2) obtain j where j: "j \<in> set (i # items)" "n_group j = Some h" by auto
        have "rank_in gs before \<le> index_in g gs" using Cons.prems(3) Some by (auto simp: rank_in_def)
        moreover have "index_in g gs \<le> index_in h gs"
          using Cons.prems(1) Some j by (auto simp: rank_in_def)
        ultimately have "index_in b gs = index_in g gs" using that(1) \<open>b = h\<close> by (simp add: rank_in_def)
        then have "b = g" using index_in_inj [of b gs g] Cons.prems(4) that(1) by blast
        with that(1) False show False by simp
      qed
      then have "{h. before = Some h} \<inter> {g. \<exists>i \<in> set (i # items). n_group i = Some g} = {}" by auto
      with Some False g(2) ih later show ?thesis by auto
    qed
  qed
qed

lemma NAV_grouped: "list_all (grouped_item NAV_GROUPS) NAV"
  by (simp add: grouped_item_def NAV_def nav_item_def NAV_GROUPS_def)

lemma groupRank_rank_in: "grouped_item NAV_GROUPS i \<Longrightarrow> groupRank i = rank_in NAV_GROUPS (n_group i)"
  by (auto simp: grouped_item_def groupRank_def rank_in_def split: option.split)

text \<open>The side bar shows a session exactly the sections it may see, each once, and draws the heading of a group
  once, in the fixed order of the groups, exactly for the groups that have a section to show; folding
  hides sections of folded groups alone, never the page that is open, and nothing when collapsed.\<close>

theorem side_bar_draws_what_the_session_may_see:
  "let ds = drawn_items folded collapsed path None (visible session installed)
   in set (map di_label ds) = n_label ` {i \<in> set NAV. may_see session installed i} \<and> length ds = length (filter (may_see session installed) NAV) \<and>
      headings ds = filter (\<lambda>g. \<exists>i \<in> set NAV. may_see session installed i \<and> n_group i = Some g) NAV_GROUPS \<and>
      \<not> (\<exists>d \<in> set ds. di_hidden d \<and> (di_active d \<or> collapsed))"
proof -
  let ?vis = "visible session installed"
  let ?ds = "drawn_items folded collapsed path None ?vis"
  have labels: "map di_label (drawn_items folded collapsed path b items) = map n_label items" for b items
    by (induction items arbitrary: b) simp_all
  have "d \<in> set (drawn_items folded collapsed path b items) \<Longrightarrow> di_hidden d \<Longrightarrow> \<not> di_active d \<and> \<not> collapsed" for b items d
    by (induction items arbitrary: b) auto
  then have hid: "\<not> (\<exists>d \<in> set ?ds. di_hidden d \<and> (di_active d \<or> collapsed))" by blast
  have mem: "set ?vis = {i \<in> set NAV. may_see session installed i}" "length ?vis = length (filter (may_see session installed) NAV)"
    by (simp_all add: visible_def visible_of_def)
  have gr: "list_all (grouped_item NAV_GROUPS) ?vis" using NAV_grouped mem(1) by (simp add: list_all_iff)
  have "sorted (map groupRank ?vis)" by (simp add: visible_def visible_of_def)
  moreover have "map groupRank ?vis = map (\<lambda>i. rank_in NAV_GROUPS (n_group i)) ?vis"
    using gr groupRank_rank_in by (auto simp: list_all_iff)
  ultimately have "sorted (map (\<lambda>i. rank_in NAV_GROUPS (n_group i)) ?vis)" by simp
  moreover have "-1 \<le> rank_in NAV_GROUPS g" for g
    by (simp add: rank_in_def NAV_GROUPS_def split: option.split)
  ultimately have h: "distinct (headings ?ds)" "set (headings ?ds) = {g. \<exists>i \<in> set ?vis. n_group i = Some g}"
    "sorted (map (\<lambda>g. index_in g NAV_GROUPS) (headings ?ds))"
    using headings_of_sorted [of NAV_GROUPS ?vis None folded collapsed path] gr by (simp_all add: rank_in_def)
  let ?f = "filter (\<lambda>g. \<exists>i \<in> set NAV. may_see session installed i \<and> n_group i = Some g) NAV_GROUPS"
  have "headings ?ds = ?f"
  proof (rule map_sorted_distinct_set_unique [where f = "\<lambda>g. index_in g NAV_GROUPS"])
    have sub: "set (headings ?ds) \<subseteq> set NAV_GROUPS"
      using h(2) gr by (auto simp: list_all_iff grouped_item_def)
    then show "inj_on (\<lambda>g. index_in g NAV_GROUPS) (set (headings ?ds) \<union> set ?f)"
      by (intro inj_onI) (auto dest: index_in_inj)
    then have i1: "inj_on (\<lambda>g. index_in g NAV_GROUPS) (set (headings ?ds))" and i2: "inj_on (\<lambda>g. index_in g NAV_GROUPS) (set ?f)"
      by (auto simp: inj_on_Un)
    show "distinct (map (\<lambda>g. index_in g NAV_GROUPS) (headings ?ds))" using h(1) i1 by (simp add: distinct_map)
    have "distinct NAV_GROUPS" by (simp add: NAV_GROUPS_def)
    then show "distinct (map (\<lambda>g. index_in g NAV_GROUPS) ?f)" using i2 by (simp add: distinct_map del: set_filter)
    show "sorted (map (\<lambda>g. index_in g NAV_GROUPS) (headings ?ds))" by (rule h(3))
    have "sorted (map (\<lambda>g. index_in g NAV_GROUPS) NAV_GROUPS)" by code_simp
    then show "sorted (map (\<lambda>g. index_in g NAV_GROUPS) ?f)" by (rule sorted_filter)
    show "set (headings ?ds) = set ?f"
      using h(2) mem(1) sub by auto
  qed
  moreover have "set (map di_label ?ds) = n_label ` {i \<in> set NAV. may_see session installed i}"
    unfolding labels using mem(1) by simp
  moreover have "length ?ds = length (filter (may_see session installed) NAV)"
    using labels [of None ?vis] mem(2) by (metis length_map)
  ultimately show ?thesis using hid unfolding Let_def by blast
qed

text \<open>A session that may not read the server roles sees no section that needs one, whatever it may do there: the
  roles installed stay unknown to it, so the section of DHCP is not shown to one who holds just what the
  built-in role of a DHCP administrator gives.\<close>

theorem sections_of_roles_need_role_read:
  assumes "\<not> holds session ''role.read''" and "item \<in> set (visible session (fold (roles_step session) evs {}))"
  shows "n_roles item = [] \<and>
         (si_permissions session = [''directory.read'', ''dhcp.read'', ''dhcp.write''] \<longrightarrow> holds session ''dhcp.read'' \<and> n_label item \<noteq> ''DHCP'')"
proof -
  have "roles_step session ev {} = {}" for ev using assms(1) by (simp add: roles_step_def)
  then have "fold (roles_step session) evs {} = {}" by (induction evs) simp_all
  with assms(2) have i: "item \<in> set NAV" "may_see session {} item" by (simp_all add: visible_def visible_of_def)
  then have r: "n_roles item = []" by (cases "n_roles item") (auto simp: may_see_def)
  moreover have "n_label item \<noteq> ''DHCP''"
  proof
    assume "n_label item = ''DHCP''"
    with i(1) have "n_roles item = [''dhcp'']" by (auto simp: NAV_def nav_item_def)
    with r show False by simp
  qed
  ultimately show ?thesis by (simp add: holds_def)
qed

theorem sections_of_roles_need_role_read_witness:
  "let session = \<lparr>si_display_name = ''Ada'', si_domain_admin = False, si_permissions = [''directory.read'', ''dhcp.read'', ''dhcp.write'']\<rparr>
   in holds session ''dhcp.read'' \<and> (\<exists>item. item \<in> set (visible session (fold (roles_step session) [RolesListed [(''dhcp'', ''active'')]] {})) \<and> n_roles item = [])"
proof -
  define session where "session = \<lparr>si_display_name = ''Ada'', si_domain_admin = False, si_permissions = [''directory.read'', ''dhcp.read'', ''dhcp.write'']\<rparr>"
  have n: "\<not> holds session ''role.read''" by (simp add: session_def holds_def)
  have "nav_item ''Overview'' None ''/'' True None False [] \<in> set (visible session (fold (roles_step session) [RolesListed [(''dhcp'', ''active'')]] {}))"
  proof -
    have "nav_item ''Overview'' None ''/'' True None False [] \<in> set NAV" by (simp add: NAV_def)
    moreover have "may_see session i (nav_item ''Overview'' None ''/'' True None False [])" for i
      by (simp add: may_see_def nav_item_def)
    ultimately show ?thesis unfolding visible_def visible_of_def by simp
  qed
  with sections_of_roles_need_role_read [OF n this] show ?thesis
    unfolding session_def [symmetric] Let_def using session_def by auto
qed

text \<open>A session whose delegated roles hold every permission by the wildcard sees no more than one that holds
  nothing: \<open>holds\<close> looks for the name alone.\<close>

theorem delegated_wildcard_shows_nothing:
  assumes "si_permissions session = [''*'']" and "\<not> si_domain_admin session"
  shows "map n_label (visible session installed) = [''Overview'', ''Wiki'']"
proof -
  have h: "holds session p \<longleftrightarrow> p = ''*''" for p using assms by (auto simp: holds_def)
  have f: "filter (may_see session installed) NAV = [nav_item ''Overview'' None ''/'' True None False [], nav_item ''Wiki'' (Some ''Help'') ''/wiki'' False None False []]"
    using assms(2) by (simp add: NAV_def nav_item_def may_see_def h)
  show ?thesis
    unfolding visible_def visible_of_def f by (simp add: nav_item_def groupRank_def NAV_GROUPS_def)
qed

theorem delegated_wildcard_shows_nothing_witness:
  "map n_label (visible \<lparr>si_display_name = ''Ada'', si_domain_admin = False, si_permissions = [''*'']\<rparr> {''dhcp''}) = [''Overview'', ''Wiki'']"
  by (rule delegated_wildcard_shows_nothing) simp_all

end
