(* ===== verification/WikiPages.thy ===== *)
theory WikiPages
  imports SettingsTable "HOL-Library.List_Lexorder" "HOL-Library.Multiset"
begin

text \<open>
  The documentation inside the console: the registry of its pages, their sections in the side bar, the
  search and the pager (\<^verbatim>\<open>wiki/index.ts\<close>, \<^verbatim>\<open>wiki/Wiki.tsx\<close>), the anchor a heading gets (\<^verbatim>\<open>slug\<close> of
  \<^verbatim>\<open>wiki/components.tsx\<close>) and the link from a setting to its section (\<^verbatim>\<open>components/DocsLink.tsx\<close>). The
  pages themselves are text: of them there are the entry each one has in the registry, and the headings of
  the two that settings link to.
\<close>

section \<open>The registry\<close>

record wiki_page =
  wp_id :: string
  wp_title :: string
  wp_section :: string
  wp_summary :: string
  wp_keywords :: "string list"

definition wiki_meta :: "string \<Rightarrow> string \<Rightarrow> string \<Rightarrow> string \<Rightarrow> string list \<Rightarrow> wiki_page" where
  "wiki_meta i t s u ks = \<lparr>wp_id = i, wp_title = t, wp_section = s, wp_summary = u, wp_keywords = ks\<rparr>"

definition PAGES :: "wiki_page list" where
  "PAGES =
     [wiki_meta ''why-odm'' ''Why Open Directory Manager'' ''Start here''
        ''What ODM is for, what it replaces, and why a business can run its whole managed environment on Linux without hiring a specialist for every small thing.''
        [''why'', ''value'', ''pitch'', ''open source'', ''migrate'', ''windows'', ''active directory'', ''cost'', ''privacy'', ''licensing'', ''vendor lock-in'', ''small business'', ''school'', ''scale'', ''overview''],
      wiki_meta ''quickstart'' ''Quickstart'' ''Start here''
        ''The whole system in one page: bring-up, first objects, first policy, first client.''
        [''getting started'', ''setup'', ''install'', ''first steps'', ''overview'', ''tour''],
      wiki_meta ''directory'' ''Directory'' ''Managing the domain''
        ''Users, groups, computers and organizational units: creating, editing, moving and deleting.''
        [''user'', ''group'', ''computer'', ''ou'', ''organizational unit'', ''csv'', ''bulk'', ''password''],
      wiki_meta ''group-policy'' ''Group Policy'' ''Managing the domain''
        ''Policy objects, links, precedence, inheritance, filtering and item-level targeting.''
        [''gpo'', ''policy'', ''link'', ''precedence'', ''enforced'', ''block inheritance'', ''rsop'', ''targeting'', ''wmi''],
      wiki_meta ''policy-settings'' ''Policy settings'' ''Managing the domain''
        ''Every setting category a policy object can carry, and what each one does on a client.''
        [''files'', ''scripts'', ''systemd'', ''cron'', ''firewall'', ''drive map'', ''sudo'', ''hbac'', ''wallpaper'', ''browser'', ''trusted certificates'', ''nftables'', ''pam''],
      wiki_meta ''passwords'' ''Passwords'' ''Managing the domain''
        (''Who may reset one, the local machine'' @ [CHR 0x27] @ ''s own rules, and a second factor for the console.'')
        [''password'', ''local password policy'', ''second factor'', ''reset''],
      wiki_meta ''administrative-templates'' ''Administrative templates'' ''Managing the domain''
        ''Import vendor ADMX and ADML files and configure their settings from generated forms.''
        [''admx'', ''adml'', ''template'', ''chrome'', ''chromium'', ''firefox'', ''vendor'', ''import''],
      wiki_meta ''dns'' ''DNS'' ''Network services''
        (''Zones and records in the domain'' @ [CHR 0x27] @ ''s integrated DNS, and dynamic update status.'')
        [''dns'', ''zone'', ''record'', ''a'', ''cname'', ''srv'', ''ptr'', ''reverse'', ''dynamic update''],
      wiki_meta ''dhcp'' ''DHCP'' ''Network services''
        ''Scopes, pools, options, reservations, leases, failover and dynamic DNS.''
        [''dhcp'', ''kea'', ''scope'', ''subnet'', ''pool'', ''reservation'', ''lease'', ''failover'', ''ha'', ''ddns''],
      wiki_meta ''certificates'' ''Certificates'' ''Network services''
        (''The domain certificate authority: issuing, publishing trust, revocation, and the console'' @ [CHR 0x27] @ ''s own certificate.'')
        [''ca'', ''certificate'', ''tls'', ''https'', ''pki'', ''crl'', ''revoke'', ''trust'', ''self-signed''],
      wiki_meta ''agent'' ''Policy agent'' ''Clients''
        ''The agent on every domain member: how it authenticates, when it runs, and what it reports.''
        [''agent'', ''odm-agent'', ''gpupdate'', ''apply'', ''refresh'', ''rsop'', ''daemon'', ''kerberos''],
      wiki_meta ''domain-join'' ''Joining machines'' ''Clients''
        ''Joining a Debian machine to the domain with odm-client-install.''
        [''join'', ''odm-client-install'', ''enroll'', ''sssd'', ''krb5'', ''keytab'', ''client''],
      wiki_meta ''client-enrolment'' ''Client enrolment'' ''Clients''
        ''Zero-touch deployment: network boot, an unattended Debian install, and a domain join on first boot.''
        [''pxe'', ''network boot'', ''tftp'', ''preseed'', ''unattended'', ''deployment'', ''netboot'', ''enrolment'', ''provisioning'', ''image''],
      wiki_meta ''delegation'' ''Delegation'' ''Administration''
        ''Roles, permissions and scoped assignments: who may do what, and where.''
        [''rbac'', ''delegate'', ''permission'', ''role'', ''scope'', ''helpdesk'', ''auditor'', ''least privilege''],
      wiki_meta ''server-roles'' ''Server roles'' ''Administration''
        ''What is installed where, and how to add DHCP, file, print, remote desktop and certificate roles.''
        [''role'', ''install'', ''dhcp'', ''file server'', ''ca'', ''extend'', ''plugin'', ''node''],
      wiki_meta ''servers'' ''Member servers'' ''Administration''
        ''Joining a machine, giving it a role, and how work reaches one that is not a controller.''
        [''server'', ''member'', ''node'', ''fleet'', ''estate'', ''agent'', ''task'', ''distribute''],
      wiki_meta ''file-shares'' ''File shares'' ''Administration''
        ''Shared directories on any file server, and who may reach them.''
        [''share'', ''smb'', ''cifs'', ''acl'', ''permission'', ''file server'', ''samba'', ''setfacl''],
      wiki_meta ''printing'' ''Printing'' ''Administration''
        ''Printers on a print server, and handing them to the right people.''
        [''printer'', ''print'', ''cups'', ''ppd'', ''driver'', ''ipp'', ''queue'', ''duplex''],
      wiki_meta ''remote-desktop'' ''Remote desktop'' ''Administration''
        ''Collections, session hosts, a broker that sends people back to the same host, and profile disks.''
        [''remote desktop'', ''rds'', ''rdp'', ''session host'', ''broker'', ''collection'', ''xrdp'', ''profile disk'', ''upd'', ''remoteapp'', ''terminal server''],
      wiki_meta ''remote-access'' ''Remote access'' ''Administration''
        ''WireGuard tunnels, the configurations people connect with, and always-on for managed machines.''
        [''vpn'', ''wireguard'', ''tunnel'', ''peer'', ''remote'', ''home office'', ''always on''],
      wiki_meta ''network-access'' ''Network access'' ''Administration''
        ''RADIUS: who gets onto which network, wired, wireless or over the VPN.''
        [''radius'', ''802.1x'', ''wifi'', ''vlan'', ''freeradius'', ''nas'', ''eap'', ''network''],
      wiki_meta ''domain-controllers'' ''Domain controllers'' ''Administration''
        ''Which controllers hold the directory, how they replicate, and adding one at a branch.''
        [''controller'', ''dc'', ''rodc'', ''read-only'', ''replication'', ''branch'', ''site'', ''join''],
      wiki_meta ''deleted-objects'' ''Deleted objects'' ''Administration''
        ''Restoring and purging what has been deleted, and how long it is kept.''
        [''recycle bin'', ''restore'', ''undelete'', ''purge'', ''retention'', ''deleted''],
      wiki_meta ''operations'' ''Health and backups'' ''Administration''
        ''Health, replication between domain controllers, and domain backups.''
        [''health'', ''replication'', ''drs'', ''backup'', ''restore'', ''monitoring'', ''dashboard'', ''export'', ''import'', ''configuration'', ''migration''],
      wiki_meta ''activity'' ''Activity'' ''Administration''
        (''Who signed in where, who used sudo, whose phone approved what '' @ [CHR 0xE2, CHR 0x80, CHR 0x94] @ '' from every machine'' @ [CHR 0x27] @ ''s own log.'')
        [''activity'', ''sign-in'', ''login'', ''sudo'', ''su'', ''root'', ''second factor'', ''usb'', ''journal'', ''who did what'', ''security log'', ''events''],
      wiki_meta ''audit'' ''Audit log'' ''Administration''
        ''Every change recorded with actor, time, outcome and before-and-after state.''
        [''audit'', ''log'', ''history'', ''who changed'', ''compliance'', ''diff''],
      wiki_meta ''monitoring'' ''Monitoring'' ''Network services''
        (''Metrics from every machine, rules that raise alerts, channels that carry them, dashboards to watch '' @ [CHR 0xE2, CHR 0x80, CHR 0x94] @ '' and a screen on a wall.'')
        [''monitoring'', ''metrics'', ''alerts'', ''dashboard'', ''probe'', ''ping'', ''maintenance window'', ''ntfy'', ''webhook'', ''cpu'', ''disk full'', ''temperature'', ''zabbix'', ''wall'', ''kiosk''],
      wiki_meta ''password-manager'' ''Password manager'' ''Administration''
        ''A vault for the domain, managed entirely from the console: seats, collections and who sees them.''
        [''password manager'', ''vault'', ''vaultwarden'', ''bitwarden'', ''extension'', ''desktop app'', ''collection'', ''organisation'', ''directory connector'', ''single sign-on'', ''openid'', ''oidc''],
      wiki_meta ''architecture'' ''Architecture'' ''Reference''
        ''The components, where data lives, and how a request travels through the system.''
        [''architecture'', ''components'', ''design'', ''ports'', ''data'', ''postgres'', ''samba''],
      wiki_meta ''glossary'' ''Glossary'' ''Reference''
        ''Terms used across the console, and how they map to Active Directory and FreeIPA.''
        [''terminology'', ''glossary'', ''vocabulary'', ''dn'', ''sid'', ''upn'', ''spn'', ''keytab''],
      wiki_meta ''troubleshooting'' ''Troubleshooting'' ''Reference''
        ''What to check when sign-in, policy, join, DNS, DHCP or certificates do not behave.''
        [''troubleshoot'', ''problem'', ''error'', ''fix'', ''debug'', ''not working'', ''fails'']]"

definition SECTION_ORDER :: "string list" where
  "SECTION_ORDER = [''Start here'', ''Managing the domain'', ''Network services'', ''Clients'', ''Administration'', ''Reference'']"

text \<open>The keys of a \<open>Map\<close>, in the order they were first set.\<close>

fun first_seen :: "'a list \<Rightarrow> 'a list" where
  "first_seen [] = []"
| "first_seen (x # xs) = x # filter (\<lambda>y. y \<noteq> x) (first_seen xs)"

definition sections_of :: "wiki_page list \<Rightarrow> (string \<times> wiki_page list) list" where
  "sections_of pages =
     (let keys = first_seen (map wp_section pages);
          known = filter (\<lambda>s. s \<in> set keys) SECTION_ORDER;
          extra = sort (filter (\<lambda>s. s \<notin> set SECTION_ORDER) keys)
      in map (\<lambda>s. (s, filter (\<lambda>p. wp_section p = s) pages)) (known @ extra))"

definition findPage :: "wiki_page list \<Rightarrow> string \<Rightarrow> wiki_page option" where
  "findPage pages i = find (\<lambda>p. wp_id p = i) pages"

definition page_words :: "wiki_page \<Rightarrow> string" where
  "page_words p = to_lower (join_with '' '' ([wp_title p, wp_summary p, wp_section p] @ wp_keywords p))"

definition search :: "wiki_page list \<Rightarrow> string \<Rightarrow> wiki_page list" where
  "search pages query =
     (let needle = to_lower (js_trim query)
      in if length needle < 2 then [] else filter (\<lambda>p. js_includes (page_words p) needle) pages)"

text \<open>The side bar: results while something is searched for, else the sections.\<close>

datatype (plugins only: code size) wiki_nav = WikiResults "wiki_page list" | WikiSections "(string \<times> wiki_page list) list"

definition WikiNav :: "wiki_page list \<Rightarrow> string \<Rightarrow> wiki_nav" where
  "WikiNav pages query = (if 2 \<le> length (js_trim query) then WikiResults (search pages query) else WikiSections (sections_of pages))"

text \<open>The pages before and after the one with an id; \<open>None\<close> when there is none.\<close>

fun pager :: "wiki_page option \<Rightarrow> wiki_page list \<Rightarrow> string \<Rightarrow> (wiki_page option \<times> wiki_page option) option" where
  "pager before [] i = None"
| "pager before (p # ps) i =
     (if wp_id p = i then Some (before, case ps of [] \<Rightarrow> None | q # _ \<Rightarrow> Some q) else pager (Some p) ps i)"

section \<open>Anchors\<close>

definition slug_char :: "char \<Rightarrow> bool" where
  "slug_char c \<longleftrightarrow> is_lower c \<or> is_digit c"

function slug_runs :: "string \<Rightarrow> string" where
  "slug_runs [] = []"
| "slug_runs (c # s) = (if slug_char c then c # slug_runs s else CHR ''-'' # slug_runs (dropWhile (\<lambda>d. \<not> slug_char d) s))"
  by pat_completeness auto

termination slug_runs
  by (relation "measure length") (auto simp: le_imp_less_Suc length_dropWhile_le)

definition strip_ends :: "string \<Rightarrow> string" where
  "strip_ends s =
     (let t = (case s of c # u \<Rightarrow> if c = CHR ''-'' then u else s | [] \<Rightarrow> [])
      in if t \<noteq> [] \<and> last t = CHR ''-'' then butlast t else t)"

definition slug :: "string \<Rightarrow> string" where
  "slug title = strip_ends (slug_runs (to_lower title))"

text \<open>Every page has its quick start and its details; these two have sections that settings link to.\<close>

definition policy_settings_headings :: "string list" where
  "policy_settings_headings =
     [''Categories at a glance'',
      ''File deployment'',
      ''Scripts'',
      ''systemd units'',
      ''Scheduled tasks'',
      ''Targeting one entry rather than the whole object'',
      ''Login screen and desktop background'',
      ''Always-on VPN'',
      ''Local administrator'',
      ''Graphics drivers'',
      ''Boot loader'',
      ''System updates'',
      ''Software deployment'',
      ''Custom packages'',
      ''Firewall rules'',
      ''Choosing rather than typing'',
      ''Drive maps'',
      ''Roaming profile'',
      ''Sudo rules'',
      ''Naming an account that is not in the directory'',
      ''HBAC rules'',
      ''Trusted certificates'',
      ''Desktop background'',
      ''Certificate enrolment'',
      ''Domain authority'',
      ''Wi-Fi networks'',
      ''Computer names'',
      ''Peripherals'',
      ''Password manager'',
      ''Regional settings'',
      ''Logon hours'',
      ''Firmware updates'',
      ''Web applications'',
      ''Printers'',
      ''Remote desktop session'',
      ''Default applications'',
      ''Dash and taskbar'',
      ''Power and suspend'',
      ''Screen lock'',
      ''Removable storage'',
      ''Kernel parameters'',
      ''Shortcuts and bookmarks'',
      ''Fonts'',
      ''Desktop theme'',
      ''Second factor'',
      ''Software control'',
      ''First sign-in'',
      ''Agent updates'',
      ''Local password policy'',
      ''Browser policy'',
      ''Firefox'',
      ''Chromium and Chrome'',
      ''Agent settings'']"

definition remote_desktop_headings :: "string list" where
  "remote_desktop_headings =
     [''What a session host needs'',
      ''Why everything is on the collection'',
      ''A standby broker, and one name for both'',
      ''How the broker sends somebody to the same host'',
      ''Which host somebody lands on'',
      ''Draining a host'',
      ''Managing profile disks'',
      ''Profile disks'',
      ''Full desktops and published applications'',
      ''What belongs in a policy object instead'',
      ''Remote desktop files'',
      ''Sessions and timeouts'',
      ''Which desktop a session host serves'',
      ''What is installed'',
      ''When something does not connect'',
      ''Ports'']"

definition anchors_of :: "string \<Rightarrow> string list" where
  "anchors_of page =
     [''quickstart'', ''details''] @
     map slug (if page = ''policy-settings'' then policy_settings_headings
               else if page = ''remote-desktop'' then remote_desktop_headings else [])"

definition docs_href :: "string \<Rightarrow> string option \<Rightarrow> string" where
  "docs_href page anchor =
     ''/wiki/'' @ page @ (case anchor of None \<Rightarrow> [] | Some a \<Rightarrow> if a = [] then [] else CHR ''#'' # a)"

definition category_docs :: "category_spec \<Rightarrow> string \<times> string" where
  "category_docs c = (case c_docPage c of None \<Rightarrow> ''policy-settings'' | Some p \<Rightarrow> p, c_doc c)"

definition special_docs :: "special_spec \<Rightarrow> string \<times> string" where
  "special_docs s = (case s_docPage s of None \<Rightarrow> ''policy-settings'' | Some p \<Rightarrow> p, s_doc s)"

text \<open>A link arrives: its page is registered, and one element of the page has its anchor.\<close>

definition arrives :: "string \<times> string \<Rightarrow> bool" where
  "arrives d \<longleftrightarrow> findPage PAGES (fst d) \<noteq> None \<and> length (filter (\<lambda>a. a = snd d) (anchors_of (fst d))) = 1"

section \<open>Properties\<close>

lemma set_first_seen [simp]: "set (first_seen xs) = set xs"
  by (induction xs) auto

lemma distinct_first_seen [simp]: "distinct (first_seen xs)"
  by (induction xs) auto

lemma mset_by_key:
  assumes "distinct ks" and "f ` set xs \<subseteq> set ks"
  shows "mset (concat (map (\<lambda>k. filter (\<lambda>x. f x = k) xs) ks)) = mset xs"
  using assms
proof (induction xs)
  case Nil
  then show ?case by (induction ks) simp_all
next
  case (Cons x xs)
  obtain as bs where ks: "ks = as @ f x # bs" "f x \<notin> set as" "f x \<notin> set bs"
    using Cons.prems by (metis distinct.simps(2) distinct_append image_subset_iff list.set_intros(1) not_distinct_conv_prefix split_list_first split_list disjoint_iff)
  have other: "map (\<lambda>k. filter (\<lambda>y. f y = k) (x # xs)) zs = map (\<lambda>k. filter (\<lambda>y. f y = k) xs) zs" if "f x \<notin> set zs" for zs
    using that by auto
  have "mset (concat (map (\<lambda>k. filter (\<lambda>y. f y = k) (x # xs)) ks)) = add_mset x (mset (concat (map (\<lambda>k. filter (\<lambda>y. f y = k) xs) ks)))"
    by (simp only: ks(1) map_append concat_append mset_append other [OF ks(2)] other [OF ks(3)] list.map) simp
  with Cons show ?case by simp
qed

text \<open>The side bar lists every page exactly once: whatever pages are registered, its sections have different
  names, none is empty, each holds its pages in the order of the registry, and together they are the
  registry, also the pages of a section the fixed order does not know.\<close>

theorem side_bar_lists_every_page_once:
  "mset (concat (map snd (sections_of pages))) = mset pages \<and> distinct (map fst (sections_of pages)) \<and>
   (\<forall>(s, ps) \<in> set (sections_of pages). ps \<noteq> [] \<and> ps = filter (\<lambda>p. wp_section p = s) pages)"
proof -
  let ?keys = "first_seen (map wp_section pages)"
  let ?known = "filter (\<lambda>s. s \<in> set ?keys) SECTION_ORDER"
  let ?extra = "sort (filter (\<lambda>s. s \<notin> set SECTION_ORDER) ?keys)"
  have secs: "sections_of pages = map (\<lambda>s. (s, filter (\<lambda>p. wp_section p = s) pages)) (?known @ ?extra)"
    by (simp add: sections_of_def Let_def)
  have "distinct SECTION_ORDER" by (simp add: SECTION_ORDER_def)
  then have d: "distinct (?known @ ?extra)" by auto
  have k: "set (?known @ ?extra) = wp_section ` set pages" by auto
  have "map snd (sections_of pages) = map (\<lambda>s. filter (\<lambda>p. wp_section p = s) pages) (?known @ ?extra)"
    unfolding secs by simp
  then have m: "mset (concat (map snd (sections_of pages))) = mset pages"
    using mset_by_key [OF d, of wp_section pages] k by simp
  have "map fst (sections_of pages) = ?known @ ?extra" unfolding secs map_map comp_def fst_conv by simp
  then have "distinct (map fst (sections_of pages))" using d by simp
  moreover have "\<forall>(s, ps) \<in> set (sections_of pages). ps \<noteq> [] \<and> ps = filter (\<lambda>p. wp_section p = s) pages"
    unfolding secs using k by (auto simp: filter_empty_conv)
  ultimately show ?thesis using m by blast
qed

text \<open>A page is found by any part of its title or summary, whatever the case and the blanks around it, once
  two characters are typed, and what is found holds what was typed.\<close>

theorem page_is_found_by_its_words:
  assumes "p \<in> set pages" and "2 \<le> length (js_trim query)"
    and "js_includes (to_lower (wp_title p)) (to_lower (js_trim query)) \<or> js_includes (to_lower (wp_summary p)) (to_lower (js_trim query))"
  shows "WikiNav pages query = WikiResults (search pages query) \<and> p \<in> set (search pages query) \<and>
         (\<forall>q \<in> set (search pages query). js_includes (page_words q) (to_lower (js_trim query)))"
proof -
  have len: "\<not> length (to_lower (js_trim query)) < 2" using assms(2) by (simp add: to_lower_def)
  have inc: "js_includes (to_lower (a @ x @ b)) n" if "js_includes (to_lower x) n" for a b x n
  proof -
    from that obtain u v where "to_lower x = u @ n @ v" by (auto simp: js_includes_iff)
    then have "to_lower (a @ x @ b) = (to_lower a @ u) @ n @ (v @ to_lower b)" by simp
    then show ?thesis unfolding js_includes_iff by blast
  qed
  define rest where "rest = join_with '' '' (wp_section p # wp_keywords p)"
  have w: "page_words p = to_lower (wp_title p @ '' '' @ wp_summary p @ '' '' @ rest)"
    by (cases "wp_keywords p") (simp_all add: page_words_def rest_def)
  have "js_includes (page_words p) (to_lower (js_trim query))"
    using assms(3) inc [of "wp_title p" "to_lower (js_trim query)" "[]" "'' '' @ wp_summary p @ '' '' @ rest"]
      inc [of "wp_summary p" "to_lower (js_trim query)" "wp_title p @ '' ''" "'' '' @ rest"] by (auto simp: w)
  then show ?thesis using assms(1,2) len by (auto simp: WikiNav_def search_def Let_def)
qed

theorem page_is_found_by_its_words_witness:
  "let p = wiki_meta ''dns'' ''DNS'' ''Network services'' ''Zones and records'' []
   in WikiNav [p] '' zoneS '' = WikiResults (search [p] '' zoneS '') \<and> p \<in> set (search [p] '' zoneS '')"
proof -
  let ?p = "wiki_meta ''dns'' ''DNS'' ''Network services'' ''Zones and records'' []"
  have t: "js_trim '' zoneS '' = ''zoneS''" by code_simp
  have i: "js_includes (to_lower (wp_summary ?p)) (to_lower ''zoneS'')" by code_simp
  from page_is_found_by_its_words [of ?p "[?p]" "'' zoneS ''"] show ?thesis unfolding t using i by simp
qed

lemma policy_settings_anchors:
  "map slug policy_settings_headings =
     [''categories-at-a-glance'',
      ''file-deployment'',
      ''scripts'',
      ''systemd-units'',
      ''scheduled-tasks'',
      ''targeting-one-entry-rather-than-the-whole-object'',
      ''login-screen-and-desktop-background'',
      ''always-on-vpn'',
      ''local-administrator'',
      ''graphics-drivers'',
      ''boot-loader'',
      ''system-updates'',
      ''software-deployment'',
      ''custom-packages'',
      ''firewall-rules'',
      ''choosing-rather-than-typing'',
      ''drive-maps'',
      ''roaming-profile'',
      ''sudo-rules'',
      ''naming-an-account-that-is-not-in-the-directory'',
      ''hbac-rules'',
      ''trusted-certificates'',
      ''desktop-background'',
      ''certificate-enrolment'',
      ''domain-authority'',
      ''wi-fi-networks'',
      ''computer-names'',
      ''peripherals'',
      ''password-manager'',
      ''regional-settings'',
      ''logon-hours'',
      ''firmware-updates'',
      ''web-applications'',
      ''printers'',
      ''remote-desktop-session'',
      ''default-applications'',
      ''dash-and-taskbar'',
      ''power-and-suspend'',
      ''screen-lock'',
      ''removable-storage'',
      ''kernel-parameters'',
      ''shortcuts-and-bookmarks'',
      ''fonts'',
      ''desktop-theme'',
      ''second-factor'',
      ''software-control'',
      ''first-sign-in'',
      ''agent-updates'',
      ''local-password-policy'',
      ''browser-policy'',
      ''firefox'',
      ''chromium-and-chrome'',
      ''agent-settings'']"
  by code_simp

lemma remote_desktop_anchors:
  "map slug remote_desktop_headings =
     [''what-a-session-host-needs'',
      ''why-everything-is-on-the-collection'',
      ''a-standby-broker-and-one-name-for-both'',
      ''how-the-broker-sends-somebody-to-the-same-host'',
      ''which-host-somebody-lands-on'',
      ''draining-a-host'',
      ''managing-profile-disks'',
      ''profile-disks'',
      ''full-desktops-and-published-applications'',
      ''what-belongs-in-a-policy-object-instead'',
      ''remote-desktop-files'',
      ''sessions-and-timeouts'',
      ''which-desktop-a-session-host-serves'',
      ''what-is-installed'',
      ''when-something-does-not-connect'',
      ''ports'']"
  by code_simp

lemma page_ids:
  "map wp_id PAGES =
     [''why-odm'',
      ''quickstart'',
      ''directory'',
      ''group-policy'',
      ''policy-settings'',
      ''passwords'',
      ''administrative-templates'',
      ''dns'',
      ''dhcp'',
      ''certificates'',
      ''agent'',
      ''domain-join'',
      ''client-enrolment'',
      ''delegation'',
      ''server-roles'',
      ''servers'',
      ''file-shares'',
      ''printing'',
      ''remote-desktop'',
      ''remote-access'',
      ''network-access'',
      ''domain-controllers'',
      ''deleted-objects'',
      ''operations'',
      ''activity'',
      ''audit'',
      ''monitoring'',
      ''password-manager'',
      ''architecture'',
      ''glossary'',
      ''troubleshooting'']"
proof -
  have "wp_id (wiki_meta i t u v ks) = i" for i t u v ks by (simp add: wiki_meta_def)
  then show ?thesis unfolding PAGES_def list.map by (simp only:)
qed

lemma count_once: "distinct xs \<Longrightarrow> length (filter (\<lambda>a. a = x) xs) = (if x \<in> set xs then 1 else 0)"
  by (induction xs) (auto simp: filter_empty_conv)

lemma anchors_distinct: "distinct (anchors_of page)"
proof -
  have "distinct ([''quickstart'', ''details''] @ map slug policy_settings_headings)"
    unfolding policy_settings_anchors by simp
  moreover have "distinct ([''quickstart'', ''details''] @ map slug remote_desktop_headings)"
    unfolding remote_desktop_anchors by simp
  ultimately show ?thesis unfolding anchors_of_def by simp
qed

lemma arrives_iff: "arrives d \<longleftrightarrow> fst d \<in> set (map wp_id PAGES) \<and> snd d \<in> set (anchors_of (fst d))"
  unfolding arrives_def count_once [OF anchors_distinct] by (force simp: findPage_def find_None_iff image_iff)

lemma anchors_of_cases:
  "anchors_of page = [''quickstart'', ''details''] @
     (if page = ''policy-settings'' then map slug policy_settings_headings
      else if page = ''remote-desktop'' then map slug remote_desktop_headings else [])"
  by (simp add: anchors_of_def)

lemma category_links:
  "map category_docs CATEGORIES =
     [(''policy-settings'', ''file-deployment''),
      (''policy-settings'', ''scripts''),
      (''policy-settings'', ''scripts''),
      (''policy-settings'', ''systemd-units''),
      (''policy-settings'', ''scheduled-tasks''),
      (''policy-settings'', ''drive-maps''),
      (''policy-settings'', ''sudo-rules''),
      (''policy-settings'', ''hbac-rules''),
      (''policy-settings'', ''software-deployment''),
      (''policy-settings'', ''trusted-certificates''),
      (''policy-settings'', ''certificate-enrolment''),
      (''policy-settings'', ''wi-fi-networks''),
      (''policy-settings'', ''logon-hours''),
      (''policy-settings'', ''web-applications''),
      (''remote-desktop'', ''remote-desktop-files''),
      (''policy-settings'', ''default-applications''),
      (''policy-settings'', ''dash-and-taskbar''),
      (''policy-settings'', ''kernel-parameters''),
      (''policy-settings'', ''shortcuts-and-bookmarks''),
      (''policy-settings'', ''printers''),
      (''policy-settings'', ''firewall-rules'')]"
  unfolding CATEGORIES_def list.map category_docs_def
    category_files_def
    category_scripts_computer_def
    category_scripts_user_def
    category_systemd_units_def
    category_cron_def
    category_drive_maps_def
    category_sudo_rules_def
    category_hbac_rules_def
    category_packages_def
    category_trusted_certificates_def
    category_certificate_enrolment_def
    category_wifi_networks_def
    category_logon_hours_def
    category_web_apps_def
    category_remote_desktop_files_def
    category_default_applications_def
    category_dash_def
    category_sysctl_def
    category_shortcuts_def
    category_printers_def
    category_firewall_def
    category_spec.select_convs option.case ..

lemma special_docs_spec: "special_docs (special_spec k t h g hl d p) = (case p of None \<Rightarrow> ''policy-settings'' | Some q \<Rightarrow> q, d)"
  by (simp add: special_docs_def special_spec_def)

lemma special_links:
  "map special_docs SPECIAL =
     [(''policy-settings'', ''domain-authority''),
      (''policy-settings'', ''system-updates''),
      (''policy-settings'', ''login-screen-and-desktop-background''),
      (''policy-settings'', ''always-on-vpn''),
      (''policy-settings'', ''local-administrator''),
      (''policy-settings'', ''graphics-drivers''),
      (''policy-settings'', ''boot-loader''),
      (''policy-settings'', ''remote-desktop-session''),
      (''policy-settings'', ''agent-updates''),
      (''policy-settings'', ''power-and-suspend''),
      (''policy-settings'', ''regional-settings''),
      (''policy-settings'', ''firmware-updates''),
      (''policy-settings'', ''firefox''),
      (''policy-settings'', ''chromium-and-chrome''),
      (''policy-settings'', ''computer-names''),
      (''policy-settings'', ''password-manager''),
      (''policy-settings'', ''peripherals''),
      (''policy-settings'', ''screen-lock''),
      (''policy-settings'', ''removable-storage''),
      (''policy-settings'', ''fonts''),
      (''policy-settings'', ''custom-packages''),
      (''policy-settings'', ''desktop-theme''),
      (''policy-settings'', ''second-factor''),
      (''policy-settings'', ''software-control''),
      (''policy-settings'', ''first-sign-in''),
      (''policy-settings'', ''local-password-policy''),
      (''policy-settings'', ''roaming-profile''),
      (''policy-settings'', ''desktop-background''),
      (''administrative-templates'', ''quickstart'')]"
  unfolding SPECIAL_def SPECIAL_1_def SPECIAL_2_def SPECIAL_3_def append.simps list.map special_docs_spec option.case ..

text \<open>C29: The link beside every setting of a policy arrives: its page is registered and has exactly one section with
  the anchor the link names, for the settings with entries and those configured once.\<close>

theorem documentation_links_arrive:
  "list_all (arrives \<circ> category_docs) CATEGORIES \<and> list_all (arrives \<circ> special_docs) SPECIAL"
proof -
  have "\<forall>d \<in> set (map category_docs CATEGORIES). arrives d"
    unfolding category_links arrives_iff page_ids anchors_of_cases policy_settings_anchors remote_desktop_anchors by simp
  moreover have "\<forall>d \<in> set (map special_docs SPECIAL). arrives d"
    unfolding special_links arrives_iff page_ids anchors_of_cases policy_settings_anchors remote_desktop_anchors by simp
  ultimately show ?thesis by (simp add: list_all_iff)
qed

end
