(* ===== verification/Pickers.thy ===== *)
theory Pickers
  imports Policy Loaders
begin

text \<open>
  Choosing something the domain knows instead of typing it: the field and the dialog of directory objects and
  the tree of containers (\<^verbatim>\<open>components/Picker.tsx\<close>), the lists of what servers publish
  (\<^verbatim>\<open>components/ResourcePicker.tsx\<close>), the folders of a server (\<^verbatim>\<open>components/DirectoryPicker.tsx\<close>), the accounts
  of one machine (\<^verbatim>\<open>components/LocalAccountPicker.tsx\<close>) and the networks of a boot server
  (\<^verbatim>\<open>components/ScopeSelector.tsx\<close>).

  The dialog of objects and the one of folders take every answer that comes: they interpret
  \<open>eager_loader\<close>. The accounts of a machine are read by an effect with a flag: \<open>latest_loader\<close>.
\<close>

section \<open>The field\<close>

definition take_picked :: "bool \<Rightarrow> string \<Rightarrow> string \<Rightarrow> string" where
  "take_picked multiple v picked =
     (if \<not> multiple then picked
      else (let existing = split_trim v
            in join_with '', '' (if picked \<in> set existing then existing else existing @ [picked])))"

section \<open>The dialog of directory objects\<close>

datatype (plugins only: code size) picker_kind = UserKind | GroupKind | ComputerKind | PrincipalKind | OuKind

fun WANTED :: "picker_kind \<Rightarrow> string list" where
  "WANTED UserKind = [''user'']"
| "WANTED GroupKind = [''group'']"
| "WANTED ComputerKind = [''computer'']"
| "WANTED PrincipalKind = [''user'', ''group'']"
| "WANTED OuKind = [''ou'']"

fun TITLES :: "picker_kind \<Rightarrow> string" where
  "TITLES UserKind = ''Select a user''"
| "TITLES GroupKind = ''Select a group''"
| "TITLES ComputerKind = ''Select a computer''"
| "TITLES PrincipalKind = ''Select a user or group''"
| "TITLES OuKind = ''Select an organizational unit''"

record picker_dialog =
  pk_query :: string
  pk_type :: string
  pk_results :: "dirobj list"
  pk_error :: "string option"
  pk_loading :: bool
  pk_timer :: bool
  pk_loads :: "(string \<times> string) list"

definition picker_open :: "picker_kind \<Rightarrow> picker_dialog" where
  "picker_open kind =
     \<lparr>pk_query = [], pk_type = (if length (WANTED kind) = 1 then hd (WANTED kind) else []), pk_results = [],
      pk_error = None, pk_loading = False, pk_timer = True, pk_loads = []\<rparr>"

definition picker_wanted :: "picker_kind \<Rightarrow> string \<Rightarrow> string list" where
  "picker_wanted kind type = (if type \<noteq> [] then [type] else WANTED kind)"

text \<open>The requests of one load.\<close>

definition picker_requests :: "picker_kind \<Rightarrow> string \<times> string \<Rightarrow> api_call list" where
  "picker_requests kind = (\<lambda>(type, query).
     map (\<lambda>t. Call_directory (Dir_list
            [(''object_type'', JStr t), (''query'', if query \<noteq> [] then JStr query else JUndef), (''scope'', JStr ''subtree''), (''limit'', JNum 100)]))
       (picker_wanted kind type))"

datatype (plugins only: code size) picker_event =
    TypeQuery string
  | FilterType string
  | PickerTimer
  | PickerAnswered nat "string + dirobj list list"

definition picker_step :: "picker_kind \<Rightarrow> picker_event \<Rightarrow> picker_dialog \<Rightarrow> picker_dialog" where
  "picker_step kind ev s =
     (case ev of
        TypeQuery q \<Rightarrow> (if q = pk_query s then s else s\<lparr>pk_query := q, pk_timer := True\<rparr>)
      | FilterType t \<Rightarrow>
          (if length (WANTED kind) > 1 \<and> (t = [] \<or> t \<in> set (WANTED kind)) \<and> t \<noteq> pk_type s
           then s\<lparr>pk_type := t, pk_timer := True\<rparr> else s)
      | PickerTimer \<Rightarrow>
          (if pk_timer s
           then s\<lparr>pk_timer := False, pk_loading := True, pk_error := None, pk_loads := pk_loads s @ [(pk_type s, pk_query s)]\<rparr> else s)
      | PickerAnswered i a \<Rightarrow>
          (if length (pk_loads s) \<le> i then s
           else (case a of
                   Inl msg \<Rightarrow> s\<lparr>pk_error := Some msg, pk_results := [], pk_loading := False\<rparr>
                 | Inr pages \<Rightarrow> s\<lparr>pk_results := concat pages, pk_loading := False\<rparr>)))"

section \<open>The tree of containers\<close>

definition js_endsWith :: "string \<Rightarrow> string \<Rightarrow> bool" where
  "js_endsWith s p = js_startsWith (rev s) (rev p)"

text \<open>Whether a node of the answer stays on the tree: an object that is moved and what is inside it do not.\<close>

definition inside :: "string \<Rightarrow> string \<Rightarrow> bool" where
  "inside x dn \<longleftrightarrow> to_lower dn = to_lower x \<or> js_endsWith (to_lower dn) (CHR '','' # to_lower x)"

definition container_kept :: "bool \<Rightarrow> string \<Rightarrow> string option \<Rightarrow> dirobj \<Rightarrow> bool" where
  "container_kept onlyOus base_dn exclude n =
     (if onlyOus \<and> objectType n \<noteq> ''ou'' \<and> distinguishedName n \<noteq> base_dn then False
      else (case exclude of None \<Rightarrow> True | Some x \<Rightarrow> x = [] \<or> \<not> inside x (distinguishedName n)))"

definition branch_children :: "dirobj list \<Rightarrow> string \<Rightarrow> dirobj list" where
  "branch_children nodes dn =
     filter (\<lambda>n. case index_of (CHR '','') (distinguishedName n) of
                   None \<Rightarrow> False
                 | Some comma \<Rightarrow> to_lower (drop (comma + 1) (distinguishedName n)) = to_lower dn) nodes"

lemma branch_child_longer:
  assumes "n \<in> set (branch_children nodes dn)"
  shows "n \<in> set nodes" and "length dn < length (distinguishedName n)"
proof -
  from assms show "n \<in> set nodes" by (simp add: branch_children_def)
  from assms obtain c where c: "index_of (CHR '','') (distinguishedName n) = Some c"
      "to_lower (drop (c + 1) (distinguishedName n)) = to_lower dn"
    by (auto simp: branch_children_def split: option.splits)
  from c(2) have "length (drop (c + 1) (distinguishedName n)) = length dn" using length_to_lower by metis
  then have "length (distinguishedName n) - Suc c = length dn" by simp
  moreover have "c < length (distinguishedName n)" using index_of_Some [OF c(1)] by simp
  ultimately show "length dn < length (distinguishedName n)" by linarith
qed

lemma length_le_sum: "n \<in> set nodes \<Longrightarrow> length (distinguishedName n) \<le> sum_list (map (length \<circ> distinguishedName) nodes)"
  by (simp add: member_le_sum_list)

text \<open>The names drawn from \<open>dn\<close> down. A branch draws nothing when its own node is not there, and not its
  children when it is folded.\<close>

function Branch :: "dirobj list \<Rightarrow> (string \<Rightarrow> bool) \<Rightarrow> string \<Rightarrow> string list" where
  "Branch nodes folded dn =
     (if find (\<lambda>n. distinguishedName n = dn) nodes = None then []
      else dn # (if folded dn then []
                 else concat (map (\<lambda>n. Branch nodes folded (distinguishedName n)) (branch_children nodes dn))))"
  by pat_completeness auto

termination
proof (relation "measure (\<lambda>(nodes, folded, dn). Suc (sum_list (map (length \<circ> distinguishedName) nodes)) - length dn)")
  fix nodes :: "dirobj list" and folded :: "string \<Rightarrow> bool" and dn n
  assume "n \<in> set (branch_children nodes dn)"
  from branch_child_longer [OF this] length_le_sum [of n nodes]
  show "((nodes, folded, distinguishedName n), (nodes, folded, dn))
        \<in> measure (\<lambda>(nodes, folded, dn). Suc (sum_list (map (length \<circ> distinguishedName) nodes)) - length dn)"
    by simp
qed simp

declare Branch.simps [simp del]

record container_picker =
  cp_nodes :: "dirobj list"
  cp_root :: string
  cp_selected :: string
  cp_error :: "string option"
  cp_showSystem :: bool
  cp_folded :: "string list"

definition container_open :: container_picker where
  "container_open = \<lparr>cp_nodes = [], cp_root = [], cp_selected = [], cp_error = None, cp_showSystem = False, cp_folded = []\<rparr>"

definition container_rows :: "container_picker \<Rightarrow> string list" where
  "container_rows s =
     Branch (if cp_showSystem s then cp_nodes s else filter (\<lambda>n. \<not> isSystemContainer n) (cp_nodes s)) (\<lambda>d. d \<in> set (cp_folded s)) (cp_root s)"

datatype (plugins only: code size) container_event =
    TreeRead "string + (string \<times> dirobj list)"
  | SelectContainer string
  | FoldContainer string
  | ShowSystem bool

definition container_step :: "bool \<Rightarrow> string option \<Rightarrow> container_event \<Rightarrow> container_picker \<Rightarrow> container_picker" where
  "container_step onlyOus exclude ev s =
     (case ev of
        TreeRead a \<Rightarrow>
          (case a of
             Inl msg \<Rightarrow> s\<lparr>cp_error := Some msg\<rparr>
           | Inr (base_dn, nodes) \<Rightarrow>
               s\<lparr>cp_root := base_dn, cp_nodes := filter (container_kept onlyOus base_dn exclude) nodes, cp_selected := base_dn\<rparr>)
      | SelectContainer dn \<Rightarrow> (if dn \<in> set (container_rows s) then s\<lparr>cp_selected := dn\<rparr> else s)
      | FoldContainer dn \<Rightarrow>
          (if dn \<in> set (container_rows s)
           then s\<lparr>cp_folded := (if dn \<in> set (cp_folded s) then filter (\<lambda>d. d \<noteq> dn) (cp_folded s) else dn # cp_folded s)\<rparr> else s)
      | ShowSystem b \<Rightarrow> s\<lparr>cp_showSystem := b\<rparr>)"

definition container_pick :: "container_picker \<Rightarrow> string option" where
  "container_pick s = (if cp_selected s \<noteq> [] then Some (cp_selected s) else None)"

section \<open>What servers publish\<close>

definition matcher :: "string \<Rightarrow> string list \<Rightarrow> bool" where
  "matcher search haystack =
     (let needle = to_lower (js_trim search) in needle = [] \<or> js_includes (to_lower (join_with '' '' haystack)) needle)"

record printer =
  pr_name :: string
  pr_node_fqdn :: string
  pr_location :: string
  pr_description :: string

definition printers_matching :: "string \<Rightarrow> printer list option \<Rightarrow> printer list" where
  "printers_matching search printers =
     filter (\<lambda>p. matcher search [pr_name p, pr_node_fqdn p, pr_location p, pr_description p])
       (case printers of None \<Rightarrow> [] | Some ps \<Rightarrow> ps)"

definition printer_pick :: "printer \<Rightarrow> string \<times> string" where
  "printer_pick p = (pr_name p, pr_node_fqdn p)"

definition printer_secondary :: "printer \<Rightarrow> string" where
  "printer_secondary p = pr_node_fqdn p @ (if pr_location p \<noteq> [] then '' '' @ middle_dot @ '' '' @ pr_location p else [])"

record file_share =
  sh_name :: string
  sh_node_fqdn :: string
  sh_path :: string
  sh_comment :: string
  sh_unc :: string
  sh_read_only :: bool
  sh_state :: string

definition shares_matching :: "string \<Rightarrow> file_share list option \<Rightarrow> file_share list" where
  "shares_matching search shares =
     filter (\<lambda>x. matcher search [sh_name x, sh_node_fqdn x, sh_path x, sh_comment x])
       (case shares of None \<Rightarrow> [] | Some xs \<Rightarrow> xs)"

definition share_pick :: "file_share \<Rightarrow> string \<times> string \<times> string" where
  "share_pick x =
     (if sh_unc x \<noteq> [] then sh_unc x else ''//'' @ sh_node_fqdn x @ ''/'' @ sh_name x, sh_name x, sh_node_fqdn x)"

definition share_secondary :: "file_share \<Rightarrow> string" where
  "share_secondary x =
     sh_node_fqdn x @ (if sh_read_only x then '' '' @ middle_dot @ '' read-only'' else []) @
     (if sh_state x \<noteq> ''active'' then '' '' @ middle_dot @ '' '' @ sh_state x else [])"

record rd_collection =
  rc_name :: string
  rc_connection_address :: string
  rc_description :: string
  rc_app_name :: string
  rc_kind :: string

definition collections_matching :: "string \<Rightarrow> rd_collection list option \<Rightarrow> rd_collection list" where
  "collections_matching search collections =
     filter (\<lambda>c. matcher search [rc_name c, rc_connection_address c, rc_description c, rc_app_name c])
       (case collections of None \<Rightarrow> [] | Some cs \<Rightarrow> cs)"

definition collection_pick :: "rd_collection \<Rightarrow> string \<times> string \<times> string" where
  "collection_pick c = (rc_name c, rc_connection_address c, if rc_kind c = ''remoteapp'' then rc_app_name c else [])"

definition collection_secondary :: "rd_collection \<Rightarrow> string" where
  "collection_secondary c =
     (if rc_connection_address c \<noteq> [] then rc_connection_address c else ''no broker yet'') @
     (if rc_kind c = ''remoteapp'' then '' '' @ middle_dot @ '' application'' else '' '' @ middle_dot @ '' desktop'')"

section \<open>The folders of a server\<close>

record folder_listing =
  fl_path :: string
  fl_parent :: "string option"
  fl_entries :: "(string \<times> string) list"

record folder_picker =
  fp_path :: string
  fp_listing :: "folder_listing option"
  fp_busy :: bool
  fp_error :: "string option"
  fp_creating :: string
  fp_loads :: "(string \<times> bool) list"

definition folder_load :: "string \<Rightarrow> bool \<Rightarrow> folder_picker \<Rightarrow> folder_picker" where
  "folder_load target mk s = s\<lparr>fp_busy := True, fp_error := None, fp_loads := fp_loads s @ [(target, mk)]\<rparr>"

definition folder_start :: "string \<Rightarrow> string" where
  "folder_start start = (if js_startsWith start ''/'' then start else ''/'')"

definition folder_open :: "string \<Rightarrow> folder_picker" where
  "folder_open start =
     folder_load (folder_start start) False
       \<lparr>fp_path = folder_start start, fp_listing = None, fp_busy = True, fp_error = None, fp_creating = [], fp_loads = []\<rparr>"

definition crumbs_of :: "string \<Rightarrow> string list" where
  "crumbs_of path = (if path = ''/'' then [] else nonempty (split_on (CHR ''/'') path))"

definition crumb_target :: "string list \<Rightarrow> nat \<Rightarrow> string" where
  "crumb_target crumbs index = CHR ''/'' # join_with ''/'' (take (index + 1) crumbs)"

definition new_folder :: "string \<Rightarrow> string \<Rightarrow> string" where
  "new_folder path name = (if path = ''/'' then [] else path) @ ''/'' @ name"

datatype (plugins only: code size) folder_event =
    FolderHome
  | FolderCrumb nat
  | FolderUp
  | FolderEntry nat
  | TypeNewFolder string
  | CreateFolder
  | FolderListed nat "string + folder_listing"

definition folder_step :: "folder_event \<Rightarrow> folder_picker \<Rightarrow> folder_picker" where
  "folder_step ev s =
     (case ev of
        FolderHome \<Rightarrow> folder_load ''/'' False s
      | FolderCrumb i \<Rightarrow>
          (if i < length (crumbs_of (fp_path s)) then folder_load (crumb_target (crumbs_of (fp_path s)) i) False s else s)
      | FolderUp \<Rightarrow>
          (case fp_listing s of
             None \<Rightarrow> s
           | Some l \<Rightarrow> (case fl_parent l of None \<Rightarrow> s | Some p \<Rightarrow> if p \<noteq> [] then folder_load p False s else s))
      | FolderEntry i \<Rightarrow>
          (case fp_listing s of
             None \<Rightarrow> s
           | Some l \<Rightarrow> if i < length (fl_entries l) then folder_load (snd (fl_entries l ! i)) False s else s)
      | TypeNewFolder t \<Rightarrow> s\<lparr>fp_creating := t\<rparr>
      | CreateFolder \<Rightarrow>
          (if js_trim (fp_creating s) = [] \<or> fp_busy s then s
           else folder_load (new_folder (fp_path s) (js_trim (fp_creating s))) True (s\<lparr>fp_creating := []\<rparr>))
      | FolderListed i a \<Rightarrow>
          (if length (fp_loads s) \<le> i then s
           else (case a of
                   Inl msg \<Rightarrow> s\<lparr>fp_error := Some msg, fp_busy := False\<rparr>
                 | Inr l \<Rightarrow> s\<lparr>fp_listing := Some l, fp_path := fl_path l, fp_busy := False\<rparr>)))"

text \<open>The request of a load, and what the dialog gives when it is submitted.\<close>

definition folder_request :: "string \<Rightarrow> string \<times> bool \<Rightarrow> api_call" where
  "folder_request node = (\<lambda>(target, mk). Call_servers (Srv_browse node target mk False))"

definition folder_choose :: "folder_picker \<Rightarrow> string option" where
  "folder_choose s = (if fp_busy s then None else Some (fp_path s))"

section \<open>The accounts of a machine\<close>

record local_user =
  us_name :: string
  us_uid :: int
  us_shell :: string

record account_dialog =
  ad_machine :: string
  ad_runs :: "string list"
  ad_detail :: "local_user list option"
  ad_typed :: string
  ad_loading :: bool
  ad_error :: "string option"

definition account_open :: account_dialog where
  "account_open = \<lparr>ad_machine = [], ad_runs = [], ad_detail = None, ad_typed = [], ad_loading = False, ad_error = None\<rparr>"

datatype (plugins only: code size) account_event =
    ChooseMachine string
  | AccountsAnswered nat "string + local_user list"
  | TypeAccount string

text \<open>An answer counts while its closure does: it is that of the last effect, and the machine is still named.\<close>

definition account_step :: "account_event \<Rightarrow> account_dialog \<Rightarrow> account_dialog" where
  "account_step ev s =
     (case ev of
        ChooseMachine m \<Rightarrow>
          (if m = ad_machine s then s
           else if m = [] then s\<lparr>ad_machine := [], ad_detail := None\<rparr>
           else s\<lparr>ad_machine := m, ad_runs := ad_runs s @ [m], ad_loading := True, ad_error := None\<rparr>)
      | AccountsAnswered i a \<Rightarrow>
          (if ad_machine s = [] \<or> Suc i \<noteq> length (ad_runs s) then s
           else (case a of
                   Inl msg \<Rightarrow> s\<lparr>ad_error := Some msg, ad_loading := False\<rparr>
                 | Inr d \<Rightarrow> s\<lparr>ad_detail := Some d, ad_loading := False\<rparr>))
      | TypeAccount t \<Rightarrow> s\<lparr>ad_typed := t\<rparr>)"

text \<open>What can be picked: a name of the list, or the one typed.\<close>

definition account_listed :: "account_dialog \<Rightarrow> string list" where
  "account_listed s = (case ad_detail s of None \<Rightarrow> [] | Some us \<Rightarrow> map us_name us)"

definition account_submit :: "account_dialog \<Rightarrow> string option" where
  "account_submit s = (if js_trim (ad_typed s) \<noteq> [] then Some (js_trim (ad_typed s)) else None)"

definition account_added :: "string list \<Rightarrow> string \<Rightarrow> string list" where
  "account_added vs account = (if account \<notin> set vs then vs @ [account] else vs)"

definition account_removed :: "string list \<Rightarrow> string \<Rightarrow> string list" where
  "account_removed vs v = filter (\<lambda>e. e \<noteq> v) vs"

section \<open>The networks of a boot server\<close>

definition scopes_chosen :: "string \<Rightarrow> string list" where
  "scopes_chosen v = rev (remdups (rev (split_trim v)))"

definition scope_network :: "string \<Rightarrow> string" where
  "scope_network subnet = hd (split_on (CHR ''/'') subnet)"

definition scope_toggle :: "string \<Rightarrow> bool \<Rightarrow> string \<Rightarrow> string" where
  "scope_toggle network on v =
     (let chosen = scopes_chosen v
      in join_with '','' (if on then (if network \<in> set chosen then chosen else chosen @ [network]) else filter (\<lambda>n. n \<noteq> network) chosen))"

definition scopes_warning :: "string \<Rightarrow> string list \<Rightarrow> bool" where
  "scopes_warning v scopes \<longleftrightarrow> scopes_chosen v = [] \<and> scopes \<noteq> []"


section \<open>Lemmas\<close>

lemma js_endsWith_iff: "js_endsWith s p \<longleftrightarrow> (\<exists>t. s = t @ p)"
proof -
  have "js_endsWith s p \<longleftrightarrow> (\<exists>t. rev s = rev p @ t)" by (simp add: js_endsWith_def js_startsWith_iff)
  also have "\<dots> \<longleftrightarrow> (\<exists>t. s = t @ p)" by (metis rev_append rev_rev_ident)
  finally show ?thesis .
qed

text \<open>A load that failed counts as one that found nothing.\<close>

definition picker_arrival :: "picker_event \<Rightarrow> (nat \<times> dirobj list) option" where
  "picker_arrival ev =
     (case ev of PickerAnswered i a \<Rightarrow> Some (i, case a of Inl _ \<Rightarrow> [] | Inr pages \<Rightarrow> concat pages) | _ \<Rightarrow> None)"

interpretation picker: eager_loader "picker_step kind" pk_loads "\<lambda>s. Some (pk_results s)" picker_arrival for kind
proof
  fix ev and s :: picker_dialog
  show "\<exists>ks. pk_loads (picker_step kind ev s) = pk_loads s @ ks"
    by (auto simp: picker_step_def split: picker_event.split sum.split)
next
  fix ev i v and s :: picker_dialog
  assume "picker_arrival ev = Some (i, v)" and "i < length (pk_loads s)"
  then show "Some (pk_results (picker_step kind ev s)) = Some v"
    by (auto simp: picker_step_def picker_arrival_def split: picker_event.splits sum.splits)
next
  fix ev v and s :: picker_dialog
  assume "Some (pk_results (picker_step kind ev s)) = Some v"
  then show "Some (pk_results s) = Some v \<or> (\<exists>i. picker_arrival ev = Some (i, v))"
    by (auto simp: picker_step_def picker_arrival_def split: picker_event.splits sum.splits if_splits)
qed

definition picker_ok :: "picker_kind \<Rightarrow> picker_dialog \<Rightarrow> bool" where
  "picker_ok kind s \<longleftrightarrow>
     set (picker_wanted kind (pk_type s)) \<subseteq> set (WANTED kind) \<and>
     list_all (\<lambda>(t, q). set (picker_wanted kind t) \<subseteq> set (WANTED kind)) (pk_loads s)"

interpretation picker_run: machine "picker_open kind" "picker_step kind" "picker_ok kind" for kind
proof
  show "picker_ok kind (picker_open kind)" by (cases kind) (simp_all add: picker_ok_def picker_open_def picker_wanted_def)
next
  fix s ev
  assume "picker_ok kind s"
  then show "picker_ok kind (picker_step kind ev s)"
    by (auto simp: picker_ok_def picker_step_def picker_wanted_def split: picker_event.split sum.split)
qed

definition folder_arrival :: "folder_event \<Rightarrow> (nat \<times> folder_listing) option" where
  "folder_arrival ev = (case ev of FolderListed i (Inr l) \<Rightarrow> Some (i, l) | _ \<Rightarrow> None)"

interpretation folders: eager_loader folder_step fp_loads fp_listing folder_arrival
proof
  fix ev and s :: folder_picker
  show "\<exists>ks. fp_loads (folder_step ev s) = fp_loads s @ ks"
    by (auto simp: folder_step_def folder_load_def split: folder_event.split sum.split option.split)
next
  fix ev i v and s :: folder_picker
  assume "folder_arrival ev = Some (i, v)" and "i < length (fp_loads s)"
  then show "fp_listing (folder_step ev s) = Some v"
    by (auto simp: folder_step_def folder_arrival_def split: folder_event.splits sum.splits)
next
  fix ev v and s :: folder_picker
  assume "fp_listing (folder_step ev s) = Some v"
  then show "fp_listing s = Some v \<or> (\<exists>i. folder_arrival ev = Some (i, v))"
    by (auto simp: folder_step_def folder_load_def folder_arrival_def split: folder_event.splits sum.splits option.splits if_splits)
qed

definition folder_ok :: "folder_picker \<Rightarrow> bool" where
  "folder_ok s \<longleftrightarrow> (case fp_listing s of None \<Rightarrow> True | Some l \<Rightarrow> fp_path s = fl_path l)"

interpretation folder_run: machine "folder_open start" folder_step folder_ok for start
proof
  show "folder_ok (folder_open start)" by (simp add: folder_ok_def folder_open_def folder_load_def)
next
  fix s ev
  assume "folder_ok s"
  then show "folder_ok (folder_step ev s)"
    by (auto simp: folder_ok_def folder_step_def folder_load_def split: folder_event.split sum.split option.splits)
qed

definition account_arrival :: "account_event \<Rightarrow> (nat \<times> local_user list) option" where
  "account_arrival ev = (case ev of AccountsAnswered i (Inr us) \<Rightarrow> Some (i, us) | _ \<Rightarrow> None)"

interpretation accounts: latest_loader account_step ad_runs "\<lambda>s. \<not> ad_loading s \<and> ad_error s = None" ad_detail account_arrival
proof
  fix ev s
  assume "ad_runs (account_step ev s) \<noteq> ad_runs s"
  then show "\<exists>k. ad_runs (account_step ev s) = ad_runs s @ [k] \<and> \<not> (\<not> ad_loading (account_step ev s) \<and> ad_error (account_step ev s) = None)"
    by (auto simp: account_step_def split: account_event.splits sum.splits if_splits)
next
  fix ev s v
  assume "ad_runs (account_step ev s) = ad_runs s" and "\<not> ad_loading (account_step ev s) \<and> ad_error (account_step ev s) = None"
    and "ad_detail (account_step ev s) = Some v"
  then show "(\<not> ad_loading s \<and> ad_error s = None) \<and> ad_detail s = Some v \<or> account_arrival ev = Some (length (ad_runs s) - 1, v)"
    by (auto simp: account_step_def account_arrival_def split: account_event.splits sum.splits if_splits)
qed

lemma to_lower_comma: "to_lower (CHR '','' # s) = CHR '','' # to_lower s"
  by (simp add: to_lower_def lower_char_def is_upper_def)

section \<open>Properties\<close>

text \<open>What is picked is of the kind that was asked for: in every run of the dialog, whatever is typed and
  filtered and in whatever order the answers come, as long as each holds objects of the types it was asked
  for, only users are offered where a user is wanted, and so on.\<close>

theorem picked_objects_are_of_the_kind:
  assumes "honest (picker_step kind) pk_loads picker_arrival
             (\<lambda>(t, q) objs. \<forall>n \<in> set objs. objectType n \<in> set (picker_wanted kind t)) evs (picker_open kind)"
    and "n \<in> set (pk_results (fold (picker_step kind) evs (picker_open kind)))"
  shows "objectType n \<in> set (WANTED kind)"
proof -
  let ?s = "fold (picker_step kind) evs (picker_open kind)"
  from assms(2) have "pk_results (picker_open kind) \<noteq> pk_results ?s" by (auto simp: picker_open_def)
  with picker.shown_answers_a_request [OF assms(1)] obtain t q where
    "(t, q) \<in> set (pk_loads ?s)" "objectType n \<in> set (picker_wanted kind t)" using assms(2) by fastforce
  moreover have "list_all (\<lambda>(t, q). set (picker_wanted kind t) \<subseteq> set (WANTED kind)) (pk_loads ?s)"
    using picker_run.inv_run [of kind evs] by (simp add: picker_ok_def)
  ultimately show ?thesis by (auto simp: list_all_iff)
qed


theorem picked_objects_are_of_the_kind_witness:
  "let ada = \<lparr>distinguishedName = ''CN=Ada'', objectType = ''user'', attributes = []\<rparr>;
       s = fold (picker_step PrincipalKind) [PickerTimer, FilterType ''user'', PickerTimer, PickerAnswered 1 (Inr [[ada]]), PickerAnswered 0 (Inl ''no'')]
             (picker_open PrincipalKind);
       s' = fold (picker_step PrincipalKind) [PickerTimer, PickerAnswered 0 (Inr [[ada], []])] (picker_open PrincipalKind)
   in pk_results s = [] \<and> pk_results s' = [ada] \<and> objectType ada \<in> set (WANTED PrincipalKind)"
proof -
  define ada where "ada = \<lparr>distinguishedName = ''CN=Ada'', objectType = ''user'', attributes = []\<rparr>"
  let ?evs = "[PickerTimer, PickerAnswered 0 (Inr [[ada], []])]"
  have r: "pk_results (fold (picker_step PrincipalKind) ?evs (picker_open PrincipalKind)) = [ada]"
    by (simp add: picker_step_def picker_open_def)
  have "objectType ada \<in> set (WANTED PrincipalKind)"
    by (rule picked_objects_are_of_the_kind [where evs = ?evs])
       (simp_all add: picker_step_def picker_open_def picker_arrival_def picker_wanted_def ada_def)
  with r show ?thesis by (simp add: Let_def ada_def picker_step_def picker_open_def)
qed

text \<open>The folder that is used is the one that is listed: in every run, whatever answer comes late, the path
  the dialog gives is that of the listing it shows, and a folder that is made is made in it.\<close>

theorem folder_used_is_the_one_listed:
  assumes "s = fold folder_step evs (folder_open start)" and "fp_listing s = Some l"
  shows "folder_choose s \<in> {None, Some (fl_path l)} \<and>
         fp_loads (folder_step CreateFolder s) \<in> {fp_loads s, fp_loads s @ [(new_folder (fl_path l) (js_trim (fp_creating s)), True)]}"
proof -
  have "fp_path s = fl_path l"
    using folder_run.inv_run [where start = start and es = evs] assms by (simp add: folder_ok_def)
  then show ?thesis by (simp add: folder_choose_def folder_step_def folder_load_def)
qed

theorem folder_used_is_the_one_listed_witness:
  "let l = (\<lambda>p. \<lparr>fl_path = p, fl_parent = None, fl_entries = [(''a'', ''/srv/a'')]\<rparr>);
       s = fold folder_step [FolderListed 0 (Inr (l ''/srv'')), FolderHome, FolderEntry 0, FolderListed 2 (Inr (l ''/srv/a'')),
             FolderListed 1 (Inr (l ''/''))] (folder_open ''/srv'')
   in fp_listing s = Some (l ''/'') \<and> folder_choose s = Some ''/''"
proof -
  define l where "l = (\<lambda>p. \<lparr>fl_path = p, fl_parent = None, fl_entries = [(''a'', ''/srv/a'')]\<rparr>)"
  let ?s = "fold folder_step [FolderListed 0 (Inr (l ''/srv'')), FolderHome, FolderEntry 0, FolderListed 2 (Inr (l ''/srv/a'')),
             FolderListed 1 (Inr (l ''/''))] (folder_open ''/srv'')"
  have s: "fp_listing ?s = Some (l ''/'')" "\<not> fp_busy ?s"
    by (simp_all add: folder_step_def folder_load_def folder_open_def folder_start_def l_def)
  from folder_used_is_the_one_listed [OF refl s(1)] s(2) have "folder_choose ?s = Some (fl_path (l ''/''))"
    by (auto simp: folder_choose_def)
  with s(1) show ?thesis by (simp add: l_def)
qed

text \<open>The crumbs of a path are its folders, the last one leads back to it, and a new folder is one crumb more.\<close>

theorem crumbs_lead_back:
  assumes "\<forall>p \<in> set segs. p \<noteq> [] \<and> CHR ''/'' \<notin> set p" and "name \<noteq> []" and "CHR ''/'' \<notin> set name"
    and "path = CHR ''/'' # join_with ''/'' segs"
  shows "crumbs_of path = segs \<and> (segs \<noteq> [] \<longrightarrow> crumb_target (crumbs_of path) (length segs - 1) = path) \<and>
         crumbs_of (new_folder path name) = segs @ [name]"
proof -
  have crumbs: "crumbs_of (CHR ''/'' # join_with ''/'' ss) = ss" if "\<forall>p \<in> set ss. p \<noteq> [] \<and> CHR ''/'' \<notin> set p" for ss
  proof (cases ss)
    case (Cons t ts)
    with that have ne: "join_with ''/'' ss \<noteq> []" by (cases ts) auto
    have "split_on (CHR ''/'') (join_with ''/'' ss) = ss"
      using that Cons by (intro split_join) auto
    with that ne show ?thesis by (auto simp: crumbs_of_def nonempty_def filter_id_conv)
  qed (simp add: crumbs_of_def)
  have "new_folder path name = CHR ''/'' # join_with ''/'' (segs @ [name])"
  proof (cases "segs = []")
    case False
    with assms(1) have "join_with ''/'' segs \<noteq> []" by (cases segs rule: remdups_adj.cases) auto
    moreover have "join_with ''/'' (ss @ [name]) = join_with ''/'' ss @ ''/'' @ name" if "ss \<noteq> []" for ss
      using that by (induction ss rule: induct_list012) auto
    ultimately show ?thesis using False by (simp add: new_folder_def assms(4))
  qed (simp add: new_folder_def assms(4))
  then have "crumbs_of (new_folder path name) = segs @ [name]" using crumbs [of "segs @ [name]"] assms(1-3) by auto
  with crumbs [OF assms(1)] show ?thesis by (auto simp: assms(4) crumb_target_def)
qed

theorem crumbs_lead_back_witness:
  "crumbs_of ''/srv/a'' = [''srv'', ''a''] \<and> crumbs_of (new_folder ''/srv/a'' ''b'') = [''srv'', ''a'', ''b'']"
  using crumbs_lead_back [of "[''srv'', ''a'']" "''b''" "''/srv/a''"] by simp


subsection \<open>The tree of containers\<close>

lemma Branch_known: "d \<in> set (Branch nodes folded dn) \<Longrightarrow> \<exists>n \<in> set nodes. distinguishedName n = d"
proof (induction nodes folded dn rule: Branch.induct)
  case (1 nodes folded dn)
  from 1(2) consider "d = dn" "find (\<lambda>n. distinguishedName n = dn) nodes \<noteq> None"
    | n where "find (\<lambda>n. distinguishedName n = dn) nodes \<noteq> None" "\<not> folded dn" "n \<in> set (branch_children nodes dn)"
        "d \<in> set (Branch nodes folded (distinguishedName n))"
    by (subst (asm) Branch.simps) (auto split: if_splits)
  then show ?case
  proof cases
    case 1
    then show ?thesis by (auto simp: find_None_iff)
  next
    case 2
    with "1.IH" show ?thesis by blast
  qed
qed

lemma branch_children_parent:
  "dn \<noteq> [] \<Longrightarrow> n \<in> set (branch_children nodes dn) \<longleftrightarrow> n \<in> set nodes \<and> to_lower (parentOf (distinguishedName n)) = to_lower dn"
  by (auto simp: branch_children_def parentOf_def to_lower_def split: option.split)

lemma chain_branched:
  assumes "find (\<lambda>m. distinguishedName m = dn) nodes \<noteq> None" and "chain nodes dn ns" and "dn \<noteq> []"
    and "\<forall>n \<in> set ns. distinguishedName n \<noteq> []"
  shows "\<forall>n \<in> set ns. distinguishedName n \<in> set (Branch nodes (\<lambda>_. False) dn)"
  using assms
proof (induction ns arbitrary: dn)
  case (Cons n ns)
  have n: "n \<in> set (branch_children nodes dn)" using Cons.prems(2,3) by (simp add: branch_children_parent)
  have own: "find (\<lambda>m. distinguishedName m = distinguishedName n) nodes \<noteq> None"
    using Cons.prems(2) by (intro find_own) simp
  have "\<forall>m \<in> set ns. distinguishedName m \<in> set (Branch nodes (\<lambda>_. False) (distinguishedName n))"
    by (rule Cons.IH) (use Cons.prems own in auto)
  moreover have "distinguishedName n \<in> set (Branch nodes (\<lambda>_. False) (distinguishedName n))"
    using own by (subst Branch.simps) simp
  moreover have "set (Branch nodes (\<lambda>_. False) (distinguishedName n)) \<subseteq> set (Branch nodes (\<lambda>_. False) dn)"
    using Cons.prems(1) n by (subst (2) Branch.simps) auto
  ultimately show ?case by auto
qed simp

text \<open>What is inside a container stays inside it further down.\<close>

lemma inside_child:
  assumes "inside x p" and "to_lower (parentOf n) = to_lower p" and "p \<noteq> []"
  shows "inside x n"
proof -
  have "parentOf n \<noteq> []" using assms(2,3) by (auto simp: to_lower_def)
  then obtain c where c: "index_of (CHR '','') n = Some c" "parentOf n = drop (c + 1) n"
    by (auto simp: parentOf_def split: option.splits)
  then have "n = take c n @ CHR '','' # parentOf n" using index_of_split [OF c(1)] by simp
  then have n: "to_lower n = to_lower (take c n) @ CHR '','' # to_lower p"
    using assms(2) by (metis to_lower_append to_lower_comma)
  from assms(1) show ?thesis
  proof (unfold inside_def, elim disjE)
    assume "to_lower p = to_lower x"
    with n have "js_endsWith (to_lower n) (CHR '','' # to_lower x)" by (auto simp: js_endsWith_iff)
    then show "to_lower n = to_lower x \<or> js_endsWith (to_lower n) (CHR '','' # to_lower x)" ..
  next
    assume "js_endsWith (to_lower p) (CHR '','' # to_lower x)"
    then obtain t where "to_lower p = t @ CHR '','' # to_lower x" by (auto simp: js_endsWith_iff)
    with n have "to_lower n = (to_lower (take c n) @ CHR '','' # t) @ CHR '','' # to_lower x" by simp
    then have "js_endsWith (to_lower n) (CHR '','' # to_lower x)" unfolding js_endsWith_iff by blast
    then show "to_lower n = to_lower x \<or> js_endsWith (to_lower n) (CHR '','' # to_lower x)" ..
  qed
qed

lemma chain_outside:
  assumes "chain nodes dn ns" and "ns \<noteq> []" and "\<not> inside x (distinguishedName (last ns))"
    and "\<forall>n \<in> set ns. distinguishedName n \<noteq> []"
  shows "\<forall>n \<in> set ns. \<not> inside x (distinguishedName n)"
  using assms
proof (induction ns arbitrary: dn)
  case (Cons n ns)
  show ?case
  proof (cases ns)
    case ns: (Cons m ms)
    have r: "\<forall>k \<in> set ns. \<not> inside x (distinguishedName k)"
      by (rule Cons.IH [of "distinguishedName n"]) (use Cons.prems ns in simp_all)
    have "to_lower (parentOf (distinguishedName m)) = to_lower (distinguishedName n)" using Cons.prems(1) ns by simp
    moreover have "distinguishedName n \<noteq> []" using Cons.prems(4) by simp
    moreover have "\<not> inside x (distinguishedName m)" using r ns by simp
    ultimately have "\<not> inside x (distinguishedName n)" using inside_child by blast
    with r show ?thesis by simp
  qed (use Cons.prems in simp)
qed simp

definition container_ok :: "string \<Rightarrow> container_picker \<Rightarrow> bool" where
  "container_ok x s \<longleftrightarrow>
     x \<noteq> [] \<longrightarrow> list_all (\<lambda>n. \<not> inside x (distinguishedName n)) (cp_nodes s) \<and>
       (cp_selected s = [] \<or> cp_selected s = cp_root s \<or> \<not> inside x (cp_selected s))"

lemma container_rows_known:
  "d \<in> set (container_rows s) \<Longrightarrow> \<exists>n \<in> set (cp_nodes s). distinguishedName n = d"
  unfolding container_rows_def by (drule Branch_known) (auto split: if_splits)

interpretation container_run: machine container_open "container_step onlyOus (Some x)" "container_ok x" for onlyOus x
proof
  show "container_ok x container_open" by (simp add: container_ok_def container_open_def)
next
  fix s ev
  assume ok: "container_ok x s"
  show "container_ok x (container_step onlyOus (Some x) ev s)"
  proof (cases ev)
    case (SelectContainer dn)
    show ?thesis
    proof (cases "dn \<in> set (container_rows s)")
      case True
      then obtain n where n: "n \<in> set (cp_nodes s)" "distinguishedName n = dn" using container_rows_known by blast
      have "x \<noteq> [] \<Longrightarrow> \<not> inside x dn" using ok n by (auto simp: container_ok_def list_all_iff)
      with ok SelectContainer True show ?thesis by (simp add: container_ok_def container_step_def)
    qed (use ok SelectContainer in \<open>simp add: container_step_def\<close>)
  qed (use ok in \<open>auto simp: container_ok_def container_step_def container_kept_def list_all_iff split: sum.split\<close>)
qed

text \<open>An object is never moved into itself: in every run of the tree of containers opened to move \<open>x\<close>, what
  can be picked is the head of the domain or a container that is neither \<open>x\<close> nor anything inside it.\<close>

theorem never_moved_into_itself:
  assumes "s = fold (container_step onlyOus (Some x)) evs container_open" and "x \<noteq> []" and "container_pick s = Some dn"
  shows "dn = cp_root s \<or> \<not> inside x dn"
proof -
  have "container_ok x s"
    using container_run.inv_run [where x = x and onlyOus = onlyOus and es = evs] assms(1,2) by (simp add: container_ok_def)
  with assms(2,3) show ?thesis by (auto simp: container_ok_def container_pick_def split: if_splits)
qed

theorem never_moved_into_itself_witness:
  "let nodes = map (\<lambda>d. \<lparr>distinguishedName = d, objectType = ''ou'', attributes = []\<rparr>) [''DC=x'', ''OU=a,DC=x'', ''OU=c,DC=x''];
       s = fold (container_step False (Some ''ou=A,DC=x'')) [TreeRead (Inr (''DC=x'', nodes)), SelectContainer ''OU=c,DC=x'', SelectContainer ''OU=a,DC=x'']
             container_open
   in container_pick s = Some ''OU=c,DC=x'' \<and> \<not> inside ''ou=A,DC=x'' ''OU=c,DC=x''"
proof -
  define nodes where "nodes = map (\<lambda>d. \<lparr>distinguishedName = d, objectType = ''ou'', attributes = []\<rparr>) [''DC=x'', ''OU=a,DC=x'', ''OU=c,DC=x'']"
  define s where "s = fold (container_step False (Some ''ou=A,DC=x''))
     [TreeRead (Inr (''DC=x'', nodes)), SelectContainer ''OU=c,DC=x'', SelectContainer ''OU=a,DC=x''] container_open"
  have p: "container_pick s = Some ''OU=c,DC=x'' \<and> ''OU=c,DC=x'' \<noteq> cp_root s"
    unfolding s_def nodes_def by code_simp
  with never_moved_into_itself [OF s_def] have "\<not> inside ''ou=A,DC=x'' ''OU=c,DC=x''" by blast
  with p show ?thesis unfolding s_def nodes_def Let_def by blast
qed

text \<open>Everything else can be reached: with the system containers shown, a container that hangs together with
  the head of the domain is drawn exactly when it is neither the object that is moved nor inside it.\<close>

theorem destinations_are_all_but_the_moved:
  assumes "chain nodes base ns" and "ns \<noteq> []" and "base \<noteq> []" and "\<forall>n \<in> set ns. distinguishedName n \<noteq> []"
    and "find (\<lambda>n. distinguishedName n = base) nodes \<noteq> None" and "x \<noteq> []" and "\<not> inside x base"
  shows "distinguishedName (last ns) \<in> set (container_rows
             (fold (container_step False (Some x)) [TreeRead (Inr (base, nodes)), ShowSystem True] container_open))
         \<longleftrightarrow> \<not> inside x (distinguishedName (last ns))"
proof -
  let ?kept = "filter (container_kept False base (Some x)) nodes"
  have kept: "container_kept False base (Some x) n \<longleftrightarrow> \<not> inside x (distinguishedName n)" for n
    using assms(6) by (simp add: container_kept_def)
  have rows: "container_rows (fold (container_step False (Some x)) [TreeRead (Inr (base, nodes)), ShowSystem True] container_open) =
      Branch ?kept (\<lambda>_. False) base"
    by (simp add: container_rows_def container_step_def container_open_def)
  show ?thesis
    unfolding rows
  proof
    assume "distinguishedName (last ns) \<in> set (Branch ?kept (\<lambda>_. False) base)"
    from Branch_known [OF this] obtain n where "container_kept False base (Some x) n" "distinguishedName n = distinguishedName (last ns)"
      by auto
    then show "\<not> inside x (distinguishedName (last ns))" unfolding kept by simp
  next
    assume out: "\<not> inside x (distinguishedName (last ns))"
    note outside = chain_outside [OF assms(1,2) out assms(4)]
    have "chain ?kept d ms" if "chain nodes d ms" and "\<forall>n \<in> set ms. \<not> inside x (distinguishedName n)" for d ms
      using that
    proof (induction ms arbitrary: d)
      case (Cons m ms)
      then show ?case by (simp only: chain.simps set_filter kept list.set mem_Collect_eq) blast
    qed simp
    then have c: "chain ?kept base ns" using assms(1) outside by blast
    have "find (\<lambda>n. distinguishedName n = base) ?kept \<noteq> None"
      using assms(5,7) by (auto simp: find_None_iff kept)
    from chain_branched [OF this c assms(3,4)] assms(2)
    show "distinguishedName (last ns) \<in> set (Branch ?kept (\<lambda>_. False) base)" by simp
  qed
qed

theorem destinations_are_all_but_the_moved_witness:
  "let node = (\<lambda>d. \<lparr>distinguishedName = d, objectType = ''ou'', attributes = []\<rparr>);
       rows = (\<lambda>x. container_rows (fold (container_step False (Some x))
                [TreeRead (Inr (''DC=x'', [node ''DC=x'', node ''OU=a,DC=x'', node ''OU=b,OU=a,DC=x''])), ShowSystem True] container_open))
   in ''OU=b,OU=a,DC=x'' \<notin> set (rows ''OU=a,DC=x'') \<and> ''OU=b,OU=a,DC=x'' \<in> set (rows ''OU=c,DC=x'')"
proof -
  define node where "node = (\<lambda>d. \<lparr>distinguishedName = d, objectType = ''ou'', attributes = []\<rparr>)"
  define nodes where "nodes = [node ''DC=x'', node ''OU=a,DC=x'', node ''OU=b,OU=a,DC=x'']"
  define rows where "rows = (\<lambda>x. container_rows (fold (container_step False (Some x)) [TreeRead (Inr (''DC=x'', nodes)), ShowSystem True] container_open))"
  have c: "chain nodes ''DC=x'' [node ''OU=a,DC=x'', node ''OU=b,OU=a,DC=x'']" "find (\<lambda>n. distinguishedName n = ''DC=x'') nodes \<noteq> None"
    unfolding nodes_def node_def by code_simp+
  have i: "inside ''OU=a,DC=x'' ''OU=b,OU=a,DC=x''" "\<not> inside ''OU=a,DC=x'' ''DC=x''"
    "\<not> inside ''OU=c,DC=x'' ''OU=b,OU=a,DC=x''" "\<not> inside ''OU=c,DC=x'' ''DC=x''" by code_simp+
  have "''OU=b,OU=a,DC=x'' \<in> set (rows x) \<longleftrightarrow> \<not> inside x ''OU=b,OU=a,DC=x''" if "x \<noteq> []" "\<not> inside x ''DC=x''" for x
    using destinations_are_all_but_the_moved [OF c(1) _ _ _ c(2) that] by (simp add: rows_def node_def)
  with i have "''OU=b,OU=a,DC=x'' \<notin> set (rows ''OU=a,DC=x'') \<and> ''OU=b,OU=a,DC=x'' \<in> set (rows ''OU=c,DC=x'')" by simp
  then show ?thesis by (simp only: Let_def rows_def nodes_def node_def simp_thms)
qed

subsection \<open>Accounts and networks\<close>

lemma account_machine:
  "(ad_machine s \<noteq> [] \<longrightarrow> ad_runs s \<noteq> [] \<and> last (ad_runs s) = ad_machine s) \<and> (ad_machine s = [] \<longrightarrow> ad_detail s = None) \<Longrightarrow>
   (ad_machine (fold account_step evs s) \<noteq> [] \<longrightarrow> last (ad_runs (fold account_step evs s)) = ad_machine (fold account_step evs s)) \<and>
   (ad_machine (fold account_step evs s) = [] \<longrightarrow> ad_detail (fold account_step evs s) = None)"
proof (induction evs arbitrary: s)
  case (Cons ev evs)
  have "(ad_machine (account_step ev s) \<noteq> [] \<longrightarrow> ad_runs (account_step ev s) \<noteq> [] \<and> last (ad_runs (account_step ev s)) = ad_machine (account_step ev s)) \<and>
        (ad_machine (account_step ev s) = [] \<longrightarrow> ad_detail (account_step ev s) = None)"
    using Cons.prems by (auto simp: account_step_def split: account_event.split sum.split)
  with Cons.IH show ?case by simp
qed simp

text \<open>When nothing is being read and nothing failed, the accounts listed are those of the machine named above
  them, however its name was typed and whatever answers came late.\<close>

theorem accounts_listed_are_the_machines:
  assumes "honest account_step ad_runs account_arrival good evs account_open" and "s = fold account_step evs account_open"
    and "\<not> ad_loading s" and "ad_error s = None" and "ad_detail s = Some us"
  shows "good (ad_machine s) us"
proof -
  have "good (last (ad_runs s)) us"
    using accounts.shown_answers_the_last_request [OF _ assms(1)] assms(2-5) by (simp add: account_open_def)
  moreover have "last (ad_runs s) = ad_machine s"
    using account_machine [of account_open evs] assms(2,5) by (auto simp: account_open_def)
  ultimately show ?thesis by simp
qed

theorem accounts_listed_are_the_machines_witness:
  "let ada = \<lparr>us_name = ''ada'', us_uid = 1000, us_shell = ''/bin/bash''\<rparr>;
       s = fold account_step [ChooseMachine ''CN=A'', ChooseMachine ''CN=B'', AccountsAnswered 1 (Inr [ada]), AccountsAnswered 0 (Inr [])] account_open
   in ad_detail s = Some [ada] \<and> (\<lambda>m us. us = (if m = ''CN=B'' then [ada] else [])) (ad_machine s) [ada]"
proof -
  define ada where "ada = \<lparr>us_name = ''ada'', us_uid = 1000, us_shell = ''/bin/bash''\<rparr>"
  define evs where "evs = [ChooseMachine ''CN=A'', ChooseMachine ''CN=B'', AccountsAnswered 1 (Inr [ada]), AccountsAnswered 0 (Inr [])]"
  define s where "s = fold account_step evs account_open"
  have s: "\<not> ad_loading s" "ad_error s = None" "ad_detail s = Some [ada]"
    by (simp_all add: s_def evs_def account_step_def account_open_def)
  have "(\<lambda>m us. us = (if m = ''CN=B'' then [ada] else [])) (ad_machine s) [ada]"
    by (rule accounts_listed_are_the_machines [OF _ s_def s])
       (simp add: evs_def account_step_def account_open_def account_arrival_def)
  with s(3) have "ad_detail s = Some [ada] \<and> (\<lambda>m us. us = (if m = ''CN=B'' then [ada] else [])) (ad_machine s) [ada]" by blast
  then show ?thesis by (simp only: Let_def s_def evs_def ada_def)
qed

text \<open>A machine taken out of the field while its accounts are read leaves the sentence that they are being read,
  whatever comes after; and a machine whose accounts cannot be read keeps those of the one before on offer.\<close>

theorem cleared_machine_is_read_for_ever:
  assumes "ad_loading s" and "\<forall>m. ChooseMachine m \<notin> set evs"
  shows "ad_loading (fold account_step evs (account_step (ChooseMachine []) s)) \<or> ad_machine s = []"
proof -
  have "ad_loading t \<and> ad_machine t = [] \<Longrightarrow> ad_loading (fold account_step evs t)" for t
    using assms(2)
  proof (induction evs arbitrary: t)
    case (Cons ev evs)
    then have "ad_loading (account_step ev t) \<and> ad_machine (account_step ev t) = []"
      by (cases ev) (auto simp: account_step_def)
    with Cons show ?case by simp
  qed simp
  with assms(1) show ?thesis by (auto simp: account_step_def)
qed

theorem failed_machine_offers_the_accounts_of_another:
  assumes "ad_detail s = Some us" and "m \<noteq> []" and "m \<noteq> ad_machine s"
  shows "let s' = fold account_step [ChooseMachine m, AccountsAnswered (length (ad_runs s)) (Inl msg)] s
         in ad_machine s' = m \<and> \<not> ad_loading s' \<and> account_listed s' = map us_name us"
  using assms by (simp add: account_step_def account_listed_def)

text \<open>Ticking a network adds it, unticking takes it out, and the others stay, in order.\<close>

theorem ticked_network_is_chosen:
  assumes "clean_piece network"
  shows "scopes_chosen (scope_toggle network on v) =
           (if on then (if network \<in> set (scopes_chosen v) then scopes_chosen v else scopes_chosen v @ [network])
            else filter (\<lambda>n. n \<noteq> network) (scopes_chosen v))"
proof -
  have again: "scopes_chosen (join_with '','' vs) = vs" if "distinct vs" "\<forall>t \<in> set vs. clean_piece t" for vs
  proof -
    have "split_trim (join_with '','' vs) = vs" using that(2) by (intro split_trim_join_tight) blast
    with that(1) show ?thesis by (simp add: scopes_chosen_def distinct_remdups_id)
  qed
  have d: "distinct (scopes_chosen v)" by (simp add: scopes_chosen_def)
  have c: "\<forall>t \<in> set (scopes_chosen v). clean_piece t" by (auto simp: scopes_chosen_def dest: split_trim_clean)
  show ?thesis
    unfolding scope_toggle_def Let_def by (subst again) (use d c assms in auto)
qed

theorem ticked_network_is_chosen_witness:
  "scopes_chosen (scope_toggle ''10.0.1.0'' False (scope_toggle ''10.0.2.0'' True ''10.0.1.0, 10.0.3.0'')) = [''10.0.3.0'', ''10.0.2.0'']"
proof -
  have c: "clean_piece ''10.0.1.0''" "clean_piece ''10.0.2.0''" by code_simp+
  have "scopes_chosen ''10.0.1.0, 10.0.3.0'' = [''10.0.1.0'', ''10.0.3.0'']" by code_simp
  then show ?thesis by (simp add: ticked_network_is_chosen [OF c(1)] ticked_network_is_chosen [OF c(2)])
qed

text \<open>Picking into a list adds what was picked at the end, once.\<close>

theorem picking_adds_one:
  assumes "clean_piece p"
  shows "split_trim (take_picked True v p) = (if p \<in> set (split_trim v) then split_trim v else split_trim v @ [p])"
proof -
  have "split_trim (join_with '', '' vs) = vs" if "set vs \<subseteq> insert p (set (split_trim v))" for vs
    using that assms split_trim_clean by (intro split_trim_join) blast
  then show ?thesis by (simp add: take_picked_def Let_def subset_iff)
qed

theorem picking_adds_one_witness: "split_trim (take_picked True ''ada, grace'' ''%admins'') = [''ada'', ''grace'', ''%admins'']"
proof -
  have "clean_piece ''%admins''" "split_trim ''ada, grace'' = [''ada'', ''grace'']" by code_simp+
  then show ?thesis by (simp add: picking_adds_one)
qed

text \<open>What is typed is looked for as one phrase: two words that both stand in a row find it only side by side and
  in that order.\<close>

theorem words_are_looked_for_as_a_phrase:
  "\<exists>search row. list_all (\<lambda>w. matcher w row) (split_on (CHR '' '') search) \<and> \<not> matcher search row"
proof -
  have "list_all (\<lambda>w. matcher w [''laser'', ''lab'']) (split_on (CHR '' '') ''lab laser'') \<and> \<not> matcher ''lab laser'' [''laser'', ''lab'']"
    by code_simp
  then show ?thesis by blast
qed

end
