(* ===== verification/DnsZones.thy ===== *)
theory DnsZones
  imports Loaders
begin

text \<open>
  The page of DNS (\<^verbatim>\<open>pages/Dns.tsx\<close>): the zones, the records of the one that is chosen, and the dialogs that
  make and remove them. The page is one machine; a request for records is known by its place among those
  made, and a deletion by its place too, because its answer reloads the zone its closure saw.

  The records are taken as they come: the page interprets \<open>eager_loader\<close>.
\<close>

definition RECORD_TYPES :: "string list" where
  "RECORD_TYPES = [''A'', ''AAAA'', ''CNAME'', ''MX'', ''NS'', ''PTR'', ''SRV'', ''TXT'']"

definition READ_ONLY_TYPES :: "string set" where
  "READ_ONLY_TYPES = {''SOA''}"

definition PLACEHOLDERS :: "(string \<times> string) list" where
  "PLACEHOLDERS =
     [(''A'', ''10.10.0.10''), (''AAAA'', ''2001:db8::10''), (''CNAME'', ''dc1.corp.example.internal.''),
      (''MX'', ''10 mail.corp.example.internal''), (''NS'', ''dc1.corp.example.internal.''),
      (''PTR'', ''ws01.corp.example.internal.''), (''SRV'', ''0 100 389 dc1.corp.example.internal''), (''TXT'', ''v=spf1 -all'')]"

record dns_zone =
  z_name :: string
  z_dynamic :: bool

record dns_record =
  r_name :: string
  r_type :: string
  r_data :: string
  r_ttl :: int

datatype (plugins only: code size) dns_dialog = ZoneDialog | RecordDialog

record dns_page =
  dn_zones :: "dns_zone list"
  dn_selected :: string
  dn_records :: "dns_record list"
  dn_available :: bool
  dn_dialog :: "dns_dialog option"
  dn_removing :: "string option"
  dn_error :: "string option"
  dn_loading :: bool
  dn_loadingRecords :: bool
  dn_notice :: "string option"
  dn_loads :: "string list"
  dn_deletes :: "string list"
  dn_sent :: "api_call list"

definition dns_open :: dns_page where
  "dns_open =
     \<lparr>dn_zones = [], dn_selected = [], dn_records = [], dn_available = True, dn_dialog = None, dn_removing = None, dn_error = None,
      dn_loading = True, dn_loadingRecords = True, dn_notice = None, dn_loads = [], dn_deletes = [], dn_sent = []\<rparr>"

text \<open>\<^verbatim>\<open>loadRecords\<close> of a closure that saw the zone \<open>z\<close>, and what choosing a zone sets off.\<close>

definition loadRecords :: "string \<Rightarrow> dns_page \<Rightarrow> dns_page" where
  "loadRecords z s = (if z = [] then s else s\<lparr>dn_error := None, dn_loadingRecords := True, dn_loads := dn_loads s @ [z]\<rparr>)"

definition select_zone :: "string \<Rightarrow> dns_page \<Rightarrow> dns_page" where
  "select_zone z s = (if z = dn_selected s then s else loadRecords z (s\<lparr>dn_selected := z\<rparr>))"

text \<open>What is said after a zone or a record was made.\<close>

definition backfilled_notice :: "nat \<Rightarrow> string option" where
  "backfilled_notice n =
     (if n = 0 then None
      else Some (show_nat n @ '' pointer record'' @ (if n = 1 then [] else ''s'') @ '' filled in from the forward zones.''))"

definition pointer_zone :: "string \<Rightarrow> string" where
  "pointer_zone pointer = join_with ''.'' (drop 1 (split_on (CHR ''.'') pointer))"

definition pointer_notice :: "string option \<Rightarrow> string option" where
  "pointer_notice pointer =
     (case pointer of None \<Rightarrow> None
      | Some p \<Rightarrow> if p = [] then None else Some (''Pointer record created in '' @ pointer_zone p @ ''.''))"

text \<open>What the dialogs send.\<close>

definition zone_submit :: "bool \<Rightarrow> string \<Rightarrow> string \<Rightarrow> api_call" where
  "zone_submit reverse zone network = Call_dns (if reverse then Dns_createReverseZone network else Dns_createZone zone)"

definition record_submit :: "string \<Rightarrow> string \<Rightarrow> string \<Rightarrow> string \<Rightarrow> bool \<Rightarrow> api_call" where
  "record_submit zone name type data' pointer =
     Call_dns (Dns_addRecord (JObj
       [(''zone'', JStr zone), (''name'', JStr name), (''type'', JStr type), (''data'', JStr data'),
        (''create_pointer'', JBool (type = ''A'' \<and> pointer))]))"

datatype (plugins only: code size) dns_event =
    ZonesRead "string + dns_zone list option"
  | SelectZone string
  | RecordsRead nat "string + dns_record list"
  | DeleteRecord dns_record
  | RecordDeleted nat "string + unit"
  | NewZone
  | NewRecord
  | MenuNewRecord string
  | CloseDialog
  | ZoneCreated string nat
  | RecordCreated "string option"
  | AskRemove string
  | CancelRemove
  | ConfirmRemove
  | ZoneRemoved "string + unit"

text \<open>An answer of \<open>None\<close> to the question for zones is a control plane without DNS: the page is a sentence then.\<close>

fun dns_step :: "dns_event \<Rightarrow> dns_page \<Rightarrow> dns_page" where
  "dns_step (ZonesRead a) s =
     (case a of
        Inl msg \<Rightarrow> s\<lparr>dn_error := Some msg, dn_loading := False\<rparr>
      | Inr None \<Rightarrow> s\<lparr>dn_available := False, dn_loading := False\<rparr>
      | Inr (Some zs) \<Rightarrow>
          select_zone (if dn_selected s \<noteq> [] then dn_selected s else case zs of [] \<Rightarrow> [] | z # _ \<Rightarrow> z_name z)
            (s\<lparr>dn_available := True, dn_zones := zs, dn_loading := False\<rparr>))"
| "dns_step (RecordsRead i a) s =
     (if length (dn_loads s) \<le> i then s
      else (case a of
              Inl msg \<Rightarrow> s\<lparr>dn_error := Some msg, dn_records := [], dn_loadingRecords := False\<rparr>
            | Inr rs \<Rightarrow> s\<lparr>dn_records := rs, dn_loadingRecords := False\<rparr>))"
| "dns_step (RecordDeleted i a) s =
     (if length (dn_deletes s) \<le> i then s
      else (case a of Inl msg \<Rightarrow> s\<lparr>dn_error := Some msg\<rparr> | Inr _ \<Rightarrow> loadRecords (dn_deletes s ! i) s))"
| "dns_step (SelectZone z) s = (if dn_available s \<and> z \<in> z_name ` set (dn_zones s) then select_zone z s else s)"
| "dns_step (DeleteRecord r) s =
     (if dn_available s \<and> r \<in> set (dn_records s) \<and> r_type r \<notin> READ_ONLY_TYPES
      then s\<lparr>dn_error := None, dn_deletes := dn_deletes s @ [dn_selected s],
             dn_sent := dn_sent s @ [Call_dns (Dns_deleteRecord (dn_selected s) (r_name r) (r_type r) (r_data r))]\<rparr>
      else s)"
| "dns_step NewZone s = (if dn_available s then s\<lparr>dn_dialog := Some ZoneDialog\<rparr> else s)"
| "dns_step NewRecord s = (if dn_available s \<and> dn_selected s \<noteq> [] then s\<lparr>dn_dialog := Some RecordDialog\<rparr> else s)"
| "dns_step (MenuNewRecord z) s =
     (if dn_available s \<and> z \<in> z_name ` set (dn_zones s) then select_zone z (s\<lparr>dn_dialog := Some RecordDialog\<rparr>) else s)"
| "dns_step CloseDialog s = s\<lparr>dn_dialog := None\<rparr>"
| "dns_step (ZoneCreated zone n) s =
     (if dn_dialog s = Some ZoneDialog
      then (select_zone zone (s\<lparr>dn_dialog := None, dn_notice := backfilled_notice n\<rparr>))\<lparr>dn_error := None\<rparr> else s)"
| "dns_step (RecordCreated pointer) s =
     (if dn_dialog s = Some RecordDialog
      then (loadRecords (dn_selected s) (s\<lparr>dn_dialog := None, dn_notice := pointer_notice pointer\<rparr>))\<lparr>dn_error := None\<rparr> else s)"
| "dns_step (AskRemove z) s = (if dn_available s \<and> z \<in> z_name ` set (dn_zones s) then s\<lparr>dn_removing := Some z\<rparr> else s)"
| "dns_step CancelRemove s = s\<lparr>dn_removing := None\<rparr>"
| "dns_step ConfirmRemove s =
     (case dn_removing s of
        None \<Rightarrow> s
      | Some z \<Rightarrow> s\<lparr>dn_error := None, dn_sent := dn_sent s @ [Call_dns (Dns_deleteZone z)]\<rparr>)"
| "dns_step (ZoneRemoved a) s =
     (case dn_removing s of
        None \<Rightarrow> s
      | Some z \<Rightarrow>
          (case a of
             Inl msg \<Rightarrow> s\<lparr>dn_error := Some msg, dn_removing := None\<rparr>
           | Inr _ \<Rightarrow> s\<lparr>dn_selected := (if dn_selected s = z then [] else dn_selected s), dn_removing := None, dn_error := None\<rparr>))"

section \<open>Lemmas\<close>

definition dns_arrival :: "dns_event \<Rightarrow> (nat \<times> dns_record list) option" where
  "dns_arrival ev = (case ev of RecordsRead i a \<Rightarrow> Some (i, case a of Inl _ \<Rightarrow> [] | Inr rs \<Rightarrow> rs) | _ \<Rightarrow> None)"

lemma loadRecords_simps [simp]:
  "dn_records (loadRecords z s) = dn_records s" "dn_selected (loadRecords z s) = dn_selected s" "dn_sent (loadRecords z s) = dn_sent s"
  "dn_loads (loadRecords z s) = dn_loads s @ (if z = [] then [] else [z])" "dn_available (loadRecords z s) = dn_available s"
  by (simp_all add: loadRecords_def)

lemma select_zone_simps [simp]:
  "dn_records (select_zone z s) = dn_records s" "dn_selected (select_zone z s) = z" "dn_sent (select_zone z s) = dn_sent s"
  "dn_loads (select_zone z s) = dn_loads s @ (if z = [] \<or> z = dn_selected s then [] else [z])"
  by (simp_all add: select_zone_def)

interpretation dns: eager_loader dns_step dn_loads "\<lambda>s. Some (dn_records s)" dns_arrival
proof
  fix ev and s :: dns_page
  show "\<exists>ks. dn_loads (dns_step ev s) = dn_loads s @ ks"
    by (cases ev) (auto split: sum.split option.split)
next
  fix ev i v and s :: dns_page
  assume "dns_arrival ev = Some (i, v)" and "i < length (dn_loads s)"
  then show "Some (dn_records (dns_step ev s)) = Some v"
    by (auto simp: dns_arrival_def split: dns_event.splits sum.splits)
next
  fix ev v and s :: dns_page
  assume "Some (dn_records (dns_step ev s)) = Some v"
  then show "Some (dn_records s) = Some v \<or> (\<exists>i. dns_arrival ev = Some (i, v))"
    by (cases ev) (auto simp: dns_arrival_def split: sum.splits option.splits if_splits)
qed


text \<open>What every run of the page keeps, when only the zone \<open>z\<close> was ever read: the zone chosen is \<open>z\<close> or none, the
  records are its records, and what was deleted was one of them.\<close>

definition deletion_of :: "(string \<Rightarrow> dns_record list \<Rightarrow> bool) \<Rightarrow> string \<Rightarrow> api_call \<Rightarrow> bool" where
  "deletion_of good z c =
     (case c of
        Call_dns (Dns_deleteRecord z' n t d) \<Rightarrow>
          z' \<in> {[], z} \<and> t \<notin> READ_ONLY_TYPES \<and> (\<exists>rs r. good z rs \<and> r \<in> set rs \<and> (r_name r, r_type r, r_data r) = (n, t, d))
      | _ \<Rightarrow> True)"

definition dns_ok :: "(string \<Rightarrow> dns_record list \<Rightarrow> bool) \<Rightarrow> string \<Rightarrow> dns_page \<Rightarrow> bool" where
  "dns_ok good z s \<longleftrightarrow>
     set (dn_loads s) \<subseteq> {z} \<longrightarrow>
       (dn_selected s = [] \<or> dn_selected s \<in> set (dn_loads s)) \<and> (dn_records s = [] \<or> good z (dn_records s)) \<and>
       list_all (deletion_of good z) (dn_sent s)"

lemma dns_loads_grow: "set (dn_loads s) \<subseteq> set (dn_loads (dns_step ev s))"
  using dns.grows [of ev s] by auto

lemma dns_selected_loaded:
  "dn_selected s = [] \<or> dn_selected s \<in> set (dn_loads s) \<Longrightarrow>
   dn_selected (dns_step ev s) = [] \<or> dn_selected (dns_step ev s) \<in> set (dn_loads (dns_step ev s))"
  by (cases ev) (auto split: sum.split option.split)

lemma dns_sent_step:
  "dn_sent (dns_step ev s) = dn_sent s @
     (case ev of
        DeleteRecord r \<Rightarrow>
          (if dn_available s \<and> r \<in> set (dn_records s) \<and> r_type r \<notin> READ_ONLY_TYPES
           then [Call_dns (Dns_deleteRecord (dn_selected s) (r_name r) (r_type r) (r_data r))] else [])
      | ConfirmRemove \<Rightarrow> (case dn_removing s of None \<Rightarrow> [] | Some z \<Rightarrow> [Call_dns (Dns_deleteZone z)])
      | _ \<Rightarrow> [])"
  by (cases ev) (auto split: sum.split option.split)

lemma dns_step_ok:
  assumes "dns_ok good z s" and "honest dns_step dn_loads dns_arrival (\<lambda>k rs. rs = [] \<or> good k rs) (ev # es) s"
  shows "dns_ok good z (dns_step ev s)"
  unfolding dns_ok_def
proof (intro impI conjI)
  assume sub: "set (dn_loads (dns_step ev s)) \<subseteq> {z}"
  with dns_loads_grow have sub': "set (dn_loads s) \<subseteq> {z}" by blast
  with assms(1) have ok: "dn_selected s = [] \<or> dn_selected s \<in> set (dn_loads s)" "dn_records s = [] \<or> good z (dn_records s)"
    "list_all (deletion_of good z) (dn_sent s)" by (simp_all add: dns_ok_def)
  from ok(1) show "dn_selected (dns_step ev s) = [] \<or> dn_selected (dns_step ev s) \<in> set (dn_loads (dns_step ev s))"
    by (rule dns_selected_loaded)
  from dns.keeps [of ev s "dn_records (dns_step ev s)"]
  consider "dn_records (dns_step ev s) = dn_records s" | i where "dns_arrival ev = Some (i, dn_records (dns_step ev s))" by auto
  then show "dn_records (dns_step ev s) = [] \<or> good z (dn_records (dns_step ev s))"
  proof cases
    case (2 i)
    with assms(2) have "i < length (dn_loads s)" "dn_records (dns_step ev s) = [] \<or> good (dn_loads s ! i) (dn_records (dns_step ev s))"
      by auto
    with sub' show ?thesis by (metis nth_mem singletonD subsetD)
  qed (use ok(2) in simp)
  show "list_all (deletion_of good z) (dn_sent (dns_step ev s))"
  proof -
    have "deletion_of good z (Call_dns (Dns_deleteRecord (dn_selected s) (r_name r) (r_type r) (r_data r)))"
      if "r \<in> set (dn_records s)" "r_type r \<notin> READ_ONLY_TYPES" for r
    proof -
      have "dn_selected s \<in> {[], z}" using ok(1) sub' by auto
      moreover have "good z (dn_records s)" using ok(2) that(1) by auto
      ultimately show ?thesis using that by (auto simp: deletion_of_def)
    qed
    with ok(3) show ?thesis unfolding dns_sent_step
      by (auto simp: deletion_of_def split: dns_event.split option.split)
  qed
qed

section \<open>Properties\<close>

text \<open>C19: As long as one zone is looked at, what is deleted is one of its records and never the one the directory
  keeps itself: in every run in which the records of no other zone were asked for, whatever was clicked
  and however the answers came.\<close>

theorem deletions_are_of_the_zone_looked_at:
  assumes "honest dns_step dn_loads dns_arrival (\<lambda>k rs. rs = [] \<or> good k rs) evs dns_open"
    and "s = fold dns_step evs dns_open" and "set (dn_loads s) \<subseteq> {z}"
    and "Call_dns (Dns_deleteRecord z' n t d) \<in> set (dn_sent s)"
  shows "z' \<in> {[], z} \<and> t \<noteq> ''SOA'' \<and> (\<exists>rs r. good z rs \<and> r \<in> set rs \<and> (r_name r, r_type r, r_data r) = (n, t, d))"
proof -
  have "dns_ok good z (fold dns_step es p)"
    if "dns_ok good z p" "honest dns_step dn_loads dns_arrival (\<lambda>k rs. rs = [] \<or> good k rs) es p" for es p
    using that
  proof (induction es arbitrary: p)
    case (Cons ev es)
    from dns_step_ok [OF Cons.prems] Cons.IH Cons.prems(2) show ?case by simp
  qed simp
  from this [OF _ assms(1)] have "dns_ok good z s" by (simp add: dns_ok_def dns_open_def assms(2))
  with assms(3,4) have "deletion_of good z (Call_dns (Dns_deleteRecord z' n t d))" by (auto simp: dns_ok_def list_all_iff)
  then show ?thesis by (auto simp: deletion_of_def READ_ONLY_TYPES_def)
qed

theorem deletions_are_of_the_zone_looked_at_witness:
  "let r = \<lparr>r_name = ''www'', r_type = ''A'', r_data = ''10.0.0.1'', r_ttl = 900\<rparr>;
       soa = \<lparr>r_name = ''@'', r_type = ''SOA'', r_data = ''dc1'', r_ttl = 900\<rparr>;
       s = fold dns_step [ZonesRead (Inr (Some [\<lparr>z_name = ''x'', z_dynamic = True\<rparr>])), RecordsRead 0 (Inr [soa, r]), DeleteRecord soa, DeleteRecord r] dns_open
   in dn_sent s = [Call_dns (Dns_deleteRecord ''x'' ''www'' ''A'' ''10.0.0.1'')] \<and> ''A'' \<noteq> ''SOA''"
proof -
  define r where "r = \<lparr>r_name = ''www'', r_type = ''A'', r_data = ''10.0.0.1'', r_ttl = 900\<rparr>"
  define soa where "soa = \<lparr>r_name = ''@'', r_type = ''SOA'', r_data = ''dc1'', r_ttl = 900\<rparr>"
  define evs where "evs = [ZonesRead (Inr (Some [\<lparr>z_name = ''x'', z_dynamic = True\<rparr>])), RecordsRead 0 (Inr [soa, r]), DeleteRecord soa, DeleteRecord r]"
  define s where "s = fold dns_step evs dns_open"
  note d = evs_def dns_open_def select_zone_def loadRecords_def READ_ONLY_TYPES_def
  have s: "dn_sent s = [Call_dns (Dns_deleteRecord ''x'' ''www'' ''A'' ''10.0.0.1'')]" "set (dn_loads s) \<subseteq> {''x''}"
    by (simp_all add: s_def d r_def soa_def)
  have "''A'' \<noteq> ''SOA''"
    using deletions_are_of_the_zone_looked_at [where good = "\<lambda>k rs. k = ''x''" and evs = evs and z = "''x''" and z' = "''x''"
        and n = "''www''" and t = "''A''" and d = "''10.0.0.1''", OF _ s_def s(2)] s(1)
    by (simp add: d dns_arrival_def r_def soa_def)
  with s(1) show ?thesis by (simp only: Let_def s_def evs_def r_def soa_def simp_thms)
qed

text \<open>A record is deleted from a zone it was never listed in: when another zone is chosen the records of the one
  before stay on the page until the answer comes, and come back when an answer for them comes late, and
  their buttons delete from the zone that is chosen now.\<close>

theorem record_is_deleted_from_another_zone:
  assumes "dn_available s" and "z \<in> z_name ` set (dn_zones s)" and "z \<noteq> dn_selected s" and "z \<noteq> []"
    and "r \<in> set (dn_records s)" and "r_type r \<noteq> ''SOA''" and "i < length (dn_loads s)"
    and "late \<in> {[], [RecordsRead (length (dn_loads s)) (Inr new), RecordsRead i (Inr (dn_records s))]}"
  shows "dn_sent (fold dns_step (SelectZone z # late @ [DeleteRecord r]) s) =
           dn_sent s @ [Call_dns (Dns_deleteRecord z (r_name r) (r_type r) (r_data r))]"
proof -
  have a: "dn_available (select_zone z s)" using assms(1) by (simp add: select_zone_def)
  from assms(8) show ?thesis
    using assms(1-7) a by (auto simp: READ_ONLY_TYPES_def)
qed

theorem record_is_deleted_from_another_zone_witness:
  "let r = \<lparr>r_name = ''www'', r_type = ''A'', r_data = ''10.0.0.1'', r_ttl = 900\<rparr>;
       zone = (\<lambda>n. \<lparr>z_name = n, z_dynamic = True\<rparr>);
       s = fold dns_step [ZonesRead (Inr (Some [zone ''a'', zone ''b''])), RecordsRead 0 (Inr [r])] dns_open
   in dn_sent (fold dns_step [SelectZone ''b'', DeleteRecord r] s) = [Call_dns (Dns_deleteRecord ''b'' ''www'' ''A'' ''10.0.0.1'')]"
proof -
  define r where "r = \<lparr>r_name = ''www'', r_type = ''A'', r_data = ''10.0.0.1'', r_ttl = 900\<rparr>"
  define zone where "zone = (\<lambda>n. \<lparr>z_name = n, z_dynamic = True\<rparr>)"
  define s where "s = fold dns_step [ZonesRead (Inr (Some [zone ''a'', zone ''b''])), RecordsRead 0 (Inr [r])] dns_open"
  note d = s_def zone_def dns_open_def select_zone_def loadRecords_def
  have "dn_sent (fold dns_step (SelectZone ''b'' # [] @ [DeleteRecord r]) s) =
        dn_sent s @ [Call_dns (Dns_deleteRecord ''b'' (r_name r) (r_type r) (r_data r))]"
    by (rule record_is_deleted_from_another_zone [where i = 0]) (simp_all add: d, simp_all add: r_def)
  moreover have "dn_sent s = []" by (simp add: d)
  ultimately show ?thesis by (simp add: Let_def r_def s_def zone_def)
qed

text \<open>The records of a zone that was deleted stay when it was the last one, and can be clicked away from a zone
  without a name.\<close>

theorem records_of_the_deleted_zone_stay:
  assumes "dn_removing s = Some (dn_selected s)" and "dn_available s"
  shows "let s' = fold dns_step [ConfirmRemove, ZoneRemoved (Inr ()), ZonesRead (Inr (Some []))] s
         in dn_records s' = dn_records s \<and> dn_selected s' = [] \<and> dn_zones s' = []"
  using assms by (simp add: select_zone_def loadRecords_def)

text \<open>The notice about a pointer record names the zone it went to: everything after the first label.\<close>

theorem pointer_notice_names_the_zone:
  assumes "CHR ''.'' \<notin> set host" and "zone \<noteq> []"
  shows "pointer_notice (Some (host @ ''.'' @ zone)) = Some (''Pointer record created in '' @ zone @ ''.'')"
proof -
  have "split_on (CHR ''.'') (host @ CHR ''.'' # zone) = host # split_on (CHR ''.'') zone"
    using assms(1) by (rule split_append_sep)
  then show ?thesis by (simp add: pointer_notice_def pointer_zone_def join_split)
qed

theorem pointer_notice_names_the_zone_witness:
  "pointer_notice (Some ''7.1.0.10.in-addr.arpa'') = Some ''Pointer record created in 1.0.10.in-addr.arpa.''"
  using pointer_notice_names_the_zone [of "''7''" "''1.0.10.in-addr.arpa''"] by simp

end
