(* ===== verification/Remote.thy ===== *)
theory Remote
  imports Pickers Widgets Monitoring JsNumber
begin

text \<open>
  Remote access: tunnels and their peers (\<^verbatim>\<open>pages/Vpn.tsx\<close>), and remote desktop with its collections,
  session hosts and profile disks (\<^verbatim>\<open>pages/RemoteDesktop.tsx\<close>). A stepped form is its record, the list of what
  each of its steps still misses (the empty text where nothing), and what it sends; \<open>Widgets.Wizard\<close> decides
  when it is submitted. The networks of a tunnel are ticked in \<open>Pickers.scope_toggle\<close>.

  The profile disks of a host are taken as they come: the tab interprets \<open>eager_loader\<close>.
\<close>

section \<open>Tunnels\<close>

record tunnel_form =
  tf_node :: string
  tf_name :: string
  tf_description :: string
  tf_endpoint :: string
  tf_port :: jsval
  tf_network :: string
  tf_routes :: string
  tf_dns :: string
  tf_search :: string

definition tunnel_open :: tunnel_form where
  "tunnel_open =
     \<lparr>tf_node = [], tf_name = [], tf_description = [], tf_endpoint = [], tf_port = JNum 51820, tf_network = ''10.99.0.0/24'',
      tf_routes = [], tf_dns = [], tf_search = []\<rparr>"

datatype (plugins only: code size) tunnel_event =
    TunnelServer string
  | TunnelName string
  | TunnelDescription string
  | TunnelEndpoint string
  | TunnelPort string
  | TunnelNetwork string
  | TickScope string bool
  | TunnelDns string
  | TunnelSearch string

text \<open>A scope is ticked by its subnet; the selector stores the network address of it.\<close>

fun tunnel_step :: "tunnel_event \<Rightarrow> tunnel_form \<Rightarrow> tunnel_form" where
  "tunnel_step (TunnelServer v) f = f\<lparr>tf_node := v\<rparr>"
| "tunnel_step (TunnelName v) f = f\<lparr>tf_name := v\<rparr>"
| "tunnel_step (TunnelDescription v) f = f\<lparr>tf_description := v\<rparr>"
| "tunnel_step (TunnelEndpoint v) f = f\<lparr>tf_endpoint := v\<rparr>"
| "tunnel_step (TunnelPort v) f = f\<lparr>tf_port := js_Number v\<rparr>"
| "tunnel_step (TunnelNetwork v) f = f\<lparr>tf_network := v\<rparr>"
| "tunnel_step (TickScope subnet ticked) f = f\<lparr>tf_routes := scope_toggle (scope_network subnet) ticked (tf_routes f)\<rparr>"
| "tunnel_step (TunnelDns v) f = f\<lparr>tf_dns := v\<rparr>"
| "tunnel_step (TunnelSearch v) f = f\<lparr>tf_search := v\<rparr>"

definition tunnel_steps :: "tunnel_form \<Rightarrow> string list" where
  "tunnel_steps f =
     [if tf_node f = [] then ''Choose the server the tunnel runs on.'' else if tf_name f = [] then ''Give the tunnel a name.'' else [],
      if tf_endpoint f = [] then ''Say what clients dial from outside.'' else [],
      if tf_network f = [] then ''Give the tunnel a network of its own.'' else [], [], []]"

definition tunnel_submit :: "tunnel_form \<Rightarrow> api_call" where
  "tunnel_submit f =
     Call_vpn (Vpn_create (JObj
       [(''node_fqdn'', JStr (tf_node f)), (''name'', JStr (tf_name f)), (''description'', JStr (tf_description f)),
        (''endpoint'', JStr (tf_endpoint f)), (''listen_port'', tf_port f), (''network'', JStr (tf_network f)),
        (''routes'', strs (split_trim (tf_routes f))), (''dns_servers'', strs (split_trim (tf_dns f))),
        (''search_domain'', JStr (tf_search f))]))"

text \<open>A peer: picking a computer names it, unless it has a name.\<close>

record peer_form =
  pe_name :: string
  pe_principal :: "string option"
  pe_always_on :: bool

definition peer_open :: peer_form where
  "peer_open = \<lparr>pe_name = [], pe_principal = None, pe_always_on = False\<rparr>"

definition peer_pick :: "dirobj \<Rightarrow> peer_form \<Rightarrow> peer_form" where
  "peer_pick n f =
     f\<lparr>pe_principal := Some (distinguishedName n),
       pe_name := (if pe_name f \<noteq> [] then pe_name f else to_lower (to_string (or_else (attr n ''cn'') (JStr []))))\<rparr>"

definition peer_submit :: "string \<Rightarrow> peer_form \<Rightarrow> api_call" where
  "peer_submit tunnel f =
     Call_vpn (Vpn_addPeer (JObj
       [(''tunnel_id'', JStr tunnel), (''name'', JStr (pe_name f)),
        (''principal_dn'', case pe_principal f of None \<Rightarrow> JUndef | Some dn \<Rightarrow> JStr dn), (''always_on'', JBool (pe_always_on f))]))"

section \<open>Collections\<close>

record collection =
  co_name :: string
  co_description :: string
  co_broker :: string
  co_standby :: string
  co_external :: string
  co_external_dns :: bool
  co_kind :: string
  co_app_path :: string
  co_app_name :: string
  co_share :: string
  co_profile_gb :: jsval
  co_allow_local_home :: bool
  co_idle :: jsval
  co_disconnected :: jsval
  co_max_sessions :: jsval
  co_balance :: string
  co_principals :: "string list"

text \<open>The form is a collection of its own: what it opens with, what it misses, and what it sends.\<close>

definition collection_open :: "collection option \<Rightarrow> collection" where
  "collection_open existing =
     (case existing of
        Some c \<Rightarrow> c
      | None \<Rightarrow>
          \<lparr>co_name = [], co_description = [], co_broker = [], co_standby = [], co_external = [], co_external_dns = True,
           co_kind = ''desktop'', co_app_path = [], co_app_name = [], co_share = [], co_profile_gb = JNum 10,
           co_allow_local_home = False, co_idle = JNum 60, co_disconnected = JNum 120, co_max_sessions = JNum 0,
           co_balance = ''leastconn'', co_principals = []\<rparr>)"

text \<open>Filling it in. The name of one that exists is not changed; a field that is only shown for a published
  application, or for an external name, is only filled in while it is shown.\<close>

datatype (plugins only: code size) collection_event =
    CollectionName string
  | CollectionDescription string
  | CollectionBroker string
  | CollectionStandby string
  | CollectionExternal string
  | CollectionExternalDns bool
  | CollectionKind string
  | CollectionAppPath string
  | CollectionAppName string
  | CollectionShare string
  | CollectionProfileGb string
  | CollectionLocalHome bool
  | CollectionIdle string
  | CollectionDisconnected string
  | CollectionMaxSessions string
  | CollectionBalance string
  | CollectionPrincipals "string list"

definition SESSION_KINDS :: "string list" where
  "SESSION_KINDS = [''desktop'', ''remoteapp'']"

definition BALANCE_METHODS :: "string list" where
  "BALANCE_METHODS = [''leastconn'', ''roundrobin'', ''first'']"

definition collection_step :: "bool \<Rightarrow> collection_event \<Rightarrow> collection \<Rightarrow> collection" where
  "collection_step editing ev f =
     (case ev of
        CollectionName v \<Rightarrow> (if editing then f else f\<lparr>co_name := v\<rparr>)
      | CollectionDescription v \<Rightarrow> f\<lparr>co_description := v\<rparr>
      | CollectionBroker v \<Rightarrow> f\<lparr>co_broker := v\<rparr>
      | CollectionStandby v \<Rightarrow> f\<lparr>co_standby := v\<rparr>
      | CollectionExternal v \<Rightarrow> f\<lparr>co_external := v\<rparr>
      | CollectionExternalDns b \<Rightarrow> (if co_external f \<noteq> [] then f\<lparr>co_external_dns := b\<rparr> else f)
      | CollectionKind v \<Rightarrow> (if v \<in> set SESSION_KINDS then f\<lparr>co_kind := v\<rparr> else f)
      | CollectionAppPath v \<Rightarrow> (if co_kind f = ''remoteapp'' then f\<lparr>co_app_path := v\<rparr> else f)
      | CollectionAppName v \<Rightarrow> (if co_kind f = ''remoteapp'' then f\<lparr>co_app_name := v\<rparr> else f)
      | CollectionShare v \<Rightarrow> f\<lparr>co_share := v\<rparr>
      | CollectionProfileGb v \<Rightarrow> f\<lparr>co_profile_gb := js_Number v\<rparr>
      | CollectionLocalHome b \<Rightarrow> f\<lparr>co_allow_local_home := b\<rparr>
      | CollectionIdle v \<Rightarrow> f\<lparr>co_idle := js_Number v\<rparr>
      | CollectionDisconnected v \<Rightarrow> f\<lparr>co_disconnected := js_Number v\<rparr>
      | CollectionMaxSessions v \<Rightarrow> f\<lparr>co_max_sessions := js_Number v\<rparr>
      | CollectionBalance v \<Rightarrow> (if v \<in> set BALANCE_METHODS then f\<lparr>co_balance := v\<rparr> else f)
      | CollectionPrincipals vs \<Rightarrow> f\<lparr>co_principals := vs\<rparr>)"

definition collection_steps :: "collection \<Rightarrow> string list" where
  "collection_steps f =
     [if co_name f = [] then ''Name the collection.'' else if co_broker f = [] then ''Choose the broker people connect to.'' else [],
      if co_kind f = ''remoteapp'' \<and> co_app_path f = [] then ''Give the path of the program to publish.'' else [],
      [], [],
      if co_principals f = [] then ''Add at least one user or group, or nobody can connect.'' else []]"

definition collection_body :: "collection \<Rightarrow> jsobj" where
  "collection_body f =
     [(''name'', JStr (co_name f)), (''description'', JStr (co_description f)), (''broker_fqdn'', JStr (co_broker f)),
      (''broker_secondary_fqdn'', JStr (co_standby f)), (''external_fqdn'', JStr (co_external f)),
      (''external_dns'', JBool (co_external_dns f)), (''kind'', JStr (co_kind f)), (''app_path'', JStr (co_app_path f)),
      (''app_name'', JStr (co_app_name f)), (''profile_share'', JStr (co_share f)),
      (''allow_local_home'', JBool (co_allow_local_home f)), (''profile_gb'', co_profile_gb f), (''idle_minutes'', co_idle f),
      (''disconnected_minutes'', co_disconnected f), (''max_sessions_per_host'', co_max_sessions f),
      (''balance_method'', JStr (co_balance f)), (''principals'', strs (co_principals f))]"

definition collection_submit :: "string option \<Rightarrow> collection \<Rightarrow> api_call" where
  "collection_submit editing f =
     Call_rd (case editing of
        Some id' \<Rightarrow> Rd_update (JObj ((''id'', JStr id') # collection_body f))
      | None \<Rightarrow> Rd_create (JObj (collection_body f)))"

definition collection_saved :: "string option \<Rightarrow> collection \<Rightarrow> string list \<Rightarrow> string" where
  "collection_saved editing f notes =
     join_with '' '' ((case editing of
        Some _ \<Rightarrow> ''Applying '' @ co_name f @ '' to its brokers and hosts.''
      | None \<Rightarrow> co_name f @ '' created. Add session hosts to it.'') # notes)"

text \<open>The list of collections, the hosts, and a person's connection file.\<close>

definition collection_serves :: "collection \<Rightarrow> string" where
  "collection_serves c =
     (if co_kind c = ''remoteapp'' then if co_app_name c \<noteq> [] then co_app_name c else co_app_path c else ''Full desktop'')"

definition drain_call :: "string \<Rightarrow> string \<Rightarrow> bool \<Rightarrow> api_call" where
  "drain_call collection host accepts = Call_rd (Rd_drain collection host accepts)"

definition drain_notice :: "string \<Rightarrow> bool \<Rightarrow> nat \<Rightarrow> string" where
  "drain_notice host accepts sessions =
     (if accepts then host @ '' is taking new sessions again.''
      else host @ '' is draining. '' @ show_nat sessions @ '' session(s) still on it; it can be patched once they are gone.'')"

definition add_host :: "string \<Rightarrow> dirobj \<Rightarrow> api_call" where
  "add_host collection n =
     Call_rd (Rd_addHost collection (to_string (or_else (attr n ''dNSHostName'') (or_else (attr n ''cn'') (attr n ''name'')))))"

definition connection_download :: "string \<Rightarrow> string \<Rightarrow> string option" where
  "connection_download collection username = (if username = [] then None else Some (rd_connectionUrl collection username))"

section \<open>Profile disks\<close>

record profile_disk =
  di_user :: string
  di_used :: int
  di_bytes :: int
  di_in_use :: bool

record disks_tab =
  dt_node :: string
  dt_store :: string
  dt_disks :: "profile_disk list"
  dt_loading :: bool
  dt_error :: "string option"
  dt_notice :: "string option"
  dt_managing :: "profile_disk option"
  dt_loads :: "string list"
  dt_sent :: "api_call list"

definition disks_load :: "disks_tab \<Rightarrow> disks_tab" where
  "disks_load s =
     (if dt_node s = [] then s else s\<lparr>dt_loading := True, dt_error := None, dt_loads := dt_loads s @ [dt_node s]\<rparr>)"

definition disks_open :: "string list \<Rightarrow> disks_tab" where
  "disks_open hosts =
     disks_load \<lparr>dt_node = (case hosts of [] \<Rightarrow> [] | h # _ \<Rightarrow> h), dt_store = [], dt_disks = [], dt_loading = False, dt_error = None,
       dt_notice = None, dt_managing = None, dt_loads = [], dt_sent = []\<rparr>"

definition suggested_gb :: "int \<Rightarrow> int" where
  "suggested_gb size_bytes = max 1 (\<lceil>of_int size_bytes / 1024 ^ 3 :: rat\<rceil> + 5)"

definition manage_call :: "string \<Rightarrow> profile_disk \<Rightarrow> bool \<Rightarrow> jsval \<Rightarrow> api_call" where
  "manage_call node disk grow size_gb =
     Call_rd (Rd_manageProfile (JObj
       [(''node_fqdn'', JStr node), (''user'', JStr (di_user disk)), (''action'', JStr (if grow then ''grow'' else ''reset'')),
        (''size_gb'', if grow then size_gb else JUndef)]))"

datatype (plugins only: code size) disks_event =
    ChooseHost string
  | RefreshDisks
  | DisksAnswered nat "string + (string \<times> profile_disk list)"
  | ManageDisk profile_disk
  | ManageClosed
  | ManageSubmit bool jsval
  | ManageDone string

definition disks_step :: "string list \<Rightarrow> disks_event \<Rightarrow> disks_tab \<Rightarrow> disks_tab" where
  "disks_step hosts ev s =
     (case ev of
        ChooseHost h \<Rightarrow> (if h \<in> set hosts \<and> h \<noteq> dt_node s then disks_load (s\<lparr>dt_node := h\<rparr>) else s)
      | RefreshDisks \<Rightarrow> disks_load s
      | DisksAnswered i a \<Rightarrow>
          (if length (dt_loads s) \<le> i then s
           else (case a of
                   Inl msg \<Rightarrow> s\<lparr>dt_disks := [], dt_error := Some msg, dt_loading := False\<rparr>
                 | Inr (store, disks) \<Rightarrow> s\<lparr>dt_store := store, dt_disks := disks, dt_loading := False\<rparr>))
      | ManageDisk d \<Rightarrow> (if d \<in> set (dt_disks s) \<and> \<not> di_in_use d then s\<lparr>dt_managing := Some d\<rparr> else s)
      | ManageClosed \<Rightarrow> s\<lparr>dt_managing := None\<rparr>
      | ManageSubmit grow size_gb \<Rightarrow>
          (case dt_managing s of
             None \<Rightarrow> s
           | Some d \<Rightarrow> s\<lparr>dt_sent := dt_sent s @ [manage_call (dt_node s) d grow size_gb]\<rparr>)
      | ManageDone msg \<Rightarrow>
          (if dt_managing s = None then s else disks_load (s\<lparr>dt_managing := None, dt_notice := Some msg\<rparr>)))"

text \<open>A size somebody reads rather than counts.\<close>

definition size_units :: "string list" where
  "size_units = [''B'', ''kB'', ''MB'', ''GB'', ''TB'']"

definition disk_bytes :: "int \<Rightarrow> string" where
  "disk_bytes v =
     (let (n, i) = byte_unit (length size_units - 1) (of_int v) 0
      in (if i = 0 then show_int v else to_fixed 1 n) @ '' '' @ size_units ! i)"

section \<open>Lemmas\<close>

definition disks_arrival :: "disks_event \<Rightarrow> (nat \<times> profile_disk list) option" where
  "disks_arrival ev = (case ev of DisksAnswered i a \<Rightarrow> Some (i, case a of Inl _ \<Rightarrow> [] | Inr (_, ds) \<Rightarrow> ds) | _ \<Rightarrow> None)"

interpretation disks: eager_loader "disks_step hosts" dt_loads "\<lambda>s. Some (dt_disks s)" disks_arrival for hosts
proof
  fix ev and s :: disks_tab
  show "\<exists>ks. dt_loads (disks_step hosts ev s) = dt_loads s @ ks"
    by (cases ev) (auto simp: disks_step_def disks_load_def split: sum.split option.split)
next
  fix ev i v and s :: disks_tab
  assume "disks_arrival ev = Some (i, v)" and "i < length (dt_loads s)"
  then show "Some (dt_disks (disks_step hosts ev s)) = Some v"
    by (auto simp: disks_step_def disks_arrival_def split: disks_event.splits sum.splits)
next
  fix ev v and s :: disks_tab
  assume "Some (dt_disks (disks_step hosts ev s)) = Some v"
  then show "Some (dt_disks s) = Some v \<or> (\<exists>i. disks_arrival ev = Some (i, v))"
    by (cases ev) (auto simp: disks_step_def disks_load_def disks_arrival_def split: sum.splits option.splits if_splits)
qed


section \<open>Properties\<close>

lemma wizard_complete:
  assumes "snd (Wizard steps ev w)"
  shows "\<forall>missing \<in> set steps. missing = []"
  using assms by (cases ev) (auto simp: Wizard_def wizard_blocking_def find_None_iff split: if_splits)

lemma split_on_subset: "t \<in> set (split_on x s) \<Longrightarrow> set t \<subseteq> set s"
  by (induction s arbitrary: t) (fastforce split: list.splits if_splits)+

lemma split_trim_subset:
  assumes "r \<in> set (split_trim s)"
  shows "set r \<subseteq> set s"
proof -
  from assms obtain t where "t \<in> set (split_on (CHR '','') s)" "r = js_trim t" by (auto simp: split_trim_def)
  with split_on_subset set_js_trim show ?thesis by blast
qed

text \<open>A tunnel carries none of the networks it is meant to: they are ticked in the selector of a boot server,
  which stores the address of a network without its prefix, so that none of the routes sent has one,
  whatever is ticked and unticked, and the control plane reads each as that one address.\<close>

theorem ticked_networks_lose_their_prefix:
  "\<exists>body routes. tunnel_submit (fold tunnel_step evs tunnel_open) = Call_vpn (Vpn_create (JObj body)) \<and>
     obj_get body ''routes'' = strs routes \<and> \<not> (\<exists>r \<in> set routes. CHR ''/'' \<in> set r)"
proof -
  have chosen: "\<forall>r \<in> set (split_trim (scope_toggle n b v)). CHR ''/'' \<notin> set r"
    if "\<forall>r \<in> set (split_trim v). CHR ''/'' \<notin> set r" and "CHR ''/'' \<notin> set n" for n b v
  proof -
    define vs where "vs = (if b then if n \<in> set (scopes_chosen v) then scopes_chosen v else scopes_chosen v @ [n]
                           else filter (\<lambda>x. x \<noteq> n) (scopes_chosen v))"
    have vs: "scope_toggle n b v = join_with '','' vs" "set vs \<subseteq> insert n (set (scopes_chosen v))"
      by (auto simp: scope_toggle_def vs_def)
    have "CHR ''/'' \<notin> set r" if "r \<in> set vs" for r
      using that vs(2) \<open>CHR ''/'' \<notin> set n\<close> \<open>\<forall>r \<in> set (split_trim v). CHR ''/'' \<notin> set r\<close> by (auto simp: scopes_chosen_def)
    then have "CHR ''/'' \<notin> set (scope_toggle n b v)"
      using set_join_with [of "'',''" vs] unfolding vs(1) by auto
    moreover have "set r \<subseteq> set (scope_toggle n b v)" if "r \<in> set (split_trim (scope_toggle n b v))" for r
      by (rule split_trim_subset) (rule that)
    ultimately show ?thesis by blast
  qed
  have net: "CHR ''/'' \<notin> set (scope_network subnet)" for subnet
    unfolding scope_network_def by (rule split_on_pieces, rule hd_in_set) simp
  have run: "\<forall>r \<in> set (split_trim (tf_routes (fold tunnel_step evs g))). CHR ''/'' \<notin> set r"
    if "\<forall>r \<in> set (split_trim (tf_routes g)). CHR ''/'' \<notin> set r" for g
    using that
  proof (induction evs arbitrary: g)
    case (Cons ev evs)
    from Cons.prems have "\<forall>r \<in> set (split_trim (tf_routes (tunnel_step ev g))). CHR ''/'' \<notin> set r"
    proof (cases ev)
      case (TickScope subnet b)
      from chosen [OF Cons.prems net, of subnet b] TickScope show ?thesis by simp
    qed (use Cons.prems in simp_all)
    from Cons.IH [OF this] show ?case by simp
  qed simp
  have "split_trim (tf_routes tunnel_open) = []" by (simp add: tunnel_open_def split_trim_def nonempty_def js_trim_def)
  with run [of tunnel_open] have "\<forall>r \<in> set (split_trim (tf_routes (fold tunnel_step evs tunnel_open))). CHR ''/'' \<notin> set r" by simp
  then have "\<not> (\<exists>r \<in> set (split_trim (tf_routes (fold tunnel_step evs tunnel_open))). CHR ''/'' \<in> set r)" by blast
  moreover obtain body where "tunnel_submit (fold tunnel_step evs tunnel_open) = Call_vpn (Vpn_create (JObj body))"
    and "obj_get body ''routes'' = strs (split_trim (tf_routes (fold tunnel_step evs tunnel_open)))"
    unfolding tunnel_submit_def by simp
  ultimately show ?thesis by blast
qed

text \<open>A collection that is made or saved serves somebody: whatever is filled in, and however the steps are gone
  through, it is sent only with a name, a broker, somebody who may connect, and the program when it
  publishes one.\<close>

theorem submitted_collection_serves_somebody:
  assumes "snd (Wizard (collection_steps f) ev w)"
  shows "co_name f \<noteq> [] \<and> co_broker f \<noteq> [] \<and> co_principals f \<noteq> [] \<and> (co_kind f = ''remoteapp'' \<longrightarrow> co_app_path f \<noteq> [])"
  using wizard_complete [OF assms] by (auto simp: collection_steps_def split: if_splits)

theorem submitted_collection_serves_somebody_witness:
  "let f = (collection_open None)\<lparr>co_name := ''farm'', co_broker := ''rd1'', co_principals := [''CN=staff'']\<rparr>
   in snd (Wizard (collection_steps f) WizardSubmit \<lparr>wz_index = 4, wz_flat = False\<rparr>) \<and>
      \<not> snd (Wizard (collection_steps (collection_open None)) WizardSubmit \<lparr>wz_index = 4, wz_flat = False\<rparr>) \<and> co_principals f \<noteq> []"
proof -
  define f where "f = (collection_open None)\<lparr>co_name := ''farm'', co_broker := ''rd1'', co_principals := [''CN=staff'']\<rparr>"
  have s: "snd (Wizard (collection_steps f) WizardSubmit \<lparr>wz_index = 4, wz_flat = False\<rparr>)"
    by (simp add: f_def Wizard_def wizard_blocking_def wizard_last_def collection_steps_def collection_open_def)
  from submitted_collection_serves_somebody [OF s] s show ?thesis
    by (simp add: Let_def f_def Wizard_def wizard_blocking_def wizard_last_def collection_steps_def collection_open_def)
qed

text \<open>A collection that is opened and saved is sent as it was.\<close>

theorem untouched_collection_is_saved_as_it_was:
  "collection_submit (Some id') (collection_open (Some c)) = Call_rd (Rd_update (JObj ((''id'', JStr id') # collection_body c)))"
  by (simp add: collection_submit_def collection_open_def)

text \<open>A profile disk is set aside on a host it was not listed on: when another host is chosen the disks of the
  one before stay until the answer comes, and come back when an answer for it comes late, and what is
  decided about one of them is sent to the host chosen now.\<close>

theorem disk_is_managed_on_another_host:
  assumes "h \<in> set hosts" and "h \<noteq> dt_node s" and "h \<noteq> []" and "d \<in> set (dt_disks s)" and "\<not> di_in_use d"
    and "i < length (dt_loads s)"
    and "late \<in> {[], [DisksAnswered (length (dt_loads s)) (Inr (store, new)), DisksAnswered i (Inr (old, dt_disks s))]}"
  shows "dt_sent (fold (disks_step hosts) (ChooseHost h # late @ [ManageDisk d, ManageSubmit False gb]) s) =
           dt_sent s @ [Call_rd (Rd_manageProfile (JObj
             [(''node_fqdn'', JStr h), (''user'', JStr (di_user d)), (''action'', JStr ''reset''), (''size_gb'', JUndef)]))]"
  using assms by (auto simp: disks_step_def disks_load_def manage_call_def)

theorem disk_is_managed_on_another_host_witness:
  "let d = \<lparr>di_user = ''ada'', di_used = 1, di_bytes = 2, di_in_use = False\<rparr>;
       s = disks_step [''rd1'', ''rd2''] (DisksAnswered 0 (Inr (''//fs/p'', [d]))) (disks_open [''rd1'', ''rd2''])
   in dt_sent (fold (disks_step [''rd1'', ''rd2'']) [ChooseHost ''rd2'', ManageDisk d, ManageSubmit False (JNum 7)] s) =
        [Call_rd (Rd_manageProfile (JObj
           [(''node_fqdn'', JStr ''rd2''), (''user'', JStr ''ada''), (''action'', JStr ''reset''), (''size_gb'', JUndef)]))]"
proof -
  define d where "d = \<lparr>di_user = ''ada'', di_used = 1, di_bytes = 2, di_in_use = False\<rparr>"
  define s where "s = disks_step [''rd1'', ''rd2''] (DisksAnswered 0 (Inr (''//fs/p'', [d]))) (disks_open [''rd1'', ''rd2''])"
  have s: "dt_node s = ''rd1''" "dt_disks s = [d]" "dt_sent s = []" "length (dt_loads s) = 1"
    by (simp_all add: s_def disks_step_def disks_open_def disks_load_def)
  have "dt_sent (fold (disks_step [''rd1'', ''rd2'']) (ChooseHost ''rd2'' # [] @ [ManageDisk d, ManageSubmit False (JNum 7)]) s) =
        dt_sent s @ [Call_rd (Rd_manageProfile (JObj
           [(''node_fqdn'', JStr ''rd2''), (''user'', JStr (di_user d)), (''action'', JStr ''reset''), (''size_gb'', JUndef)]))]"
    by (rule disk_is_managed_on_another_host [where i = 0]) (simp_all add: s d_def)
  then have "dt_sent (fold (disks_step [''rd1'', ''rd2'']) [ChooseHost ''rd2'', ManageDisk d, ManageSubmit False (JNum 7)] s) =
        [Call_rd (Rd_manageProfile (JObj
           [(''node_fqdn'', JStr ''rd2''), (''user'', JStr ''ada''), (''action'', JStr ''reset''), (''size_gb'', JUndef)]))]"
    by (simp add: s(3) d_def)
  then show ?thesis by (simp only: Let_def s_def d_def)
qed

text \<open>What is suggested lets a disk grow by at least five gigabytes and less than six, whatever its size.\<close>

theorem suggested_disk_grows_by_five:
  assumes "0 \<le> size_bytes"
  shows "size_bytes + 5 * 1024 ^ 3 \<le> suggested_gb size_bytes * 1024 ^ 3 \<and> suggested_gb size_bytes * 1024 ^ 3 < size_bytes + 6 * 1024 ^ 3"
proof -
  define q :: rat where "q = of_int size_bytes / 1024 ^ 3"
  have "0 \<le> q" using assms by (simp add: q_def)
  then have "(0 :: int) \<le> \<lceil>q\<rceil>" by simp
  then have g: "suggested_gb size_bytes = \<lceil>q\<rceil> + 5" unfolding suggested_gb_def q_def [symmetric] by simp
  have q: "(of_int size_bytes :: rat) = q * 1073741824" by (simp add: q_def)
  have "q \<le> of_int \<lceil>q\<rceil>" "of_int \<lceil>q\<rceil> < q + 1" by linarith+
  then have "(of_int size_bytes :: rat) \<le> of_int (\<lceil>q\<rceil> * 1073741824)" "of_int (\<lceil>q\<rceil> * 1073741824) < (of_int (size_bytes + 1073741824) :: rat)"
    by (simp_all add: q)
  then have "size_bytes \<le> \<lceil>q\<rceil> * 1073741824" "\<lceil>q\<rceil> * 1073741824 < size_bytes + 1073741824" by (simp_all only: of_int_le_iff of_int_less_iff)
  then show ?thesis unfolding g by (simp add: algebra_simps)
qed

theorem suggested_disk_grows_by_five_witness: "suggested_gb 0 = 5 \<and> 10737418241 + 5 * 1024 ^ 3 \<le> suggested_gb 10737418241 * 1024 ^ 3"
  using suggested_disk_grows_by_five [of 10737418241] by (simp add: suggested_gb_def)

end
