(* ===== verification/Resources.thy ===== *)
theory Resources
  imports Pickers JsNumber
begin

text \<open>
  What servers offer: file shares (\<^verbatim>\<open>pages/Shares.tsx\<close>), printers (\<^verbatim>\<open>pages/Printers.tsx\<close>) and the network
  access of devices (\<^verbatim>\<open>pages/NetworkAccess.tsx\<close>): the forms that make and change them and what they send,
  the list that is read again while something is being applied, and the dialog that follows a test page.
\<close>

definition STATE_BADGE :: "(string \<times> string) list" where
  "STATE_BADGE = [(''active'', ''success''), (''failed'', ''failure''), (''applying'', []), (''pending'', [])]"

text \<open>A list is read again every ten seconds while something in it is being applied.\<close>

definition polls :: "string list \<Rightarrow> bool" where
  "polls states \<longleftrightarrow> list_ex (\<lambda>st. st = ''applying'') states"

section \<open>File shares\<close>

definition ACCESS :: "(string \<times> string) list" where
  "ACCESS = [(''read'', ''Read''), (''change'', ''Read & write''), (''full'', ''Full control'')]"

record share_entry =
  se_principal :: string
  se_kind :: string
  se_access :: string
  se_inherit :: bool

record share_form =
  sf_node :: string
  sf_name :: string
  sf_path :: string
  sf_comment :: string
  sf_owner :: string
  sf_owner_group :: string
  sf_entries :: "share_entry list"
  sf_read_only :: bool
  sf_browseable :: bool

definition share_open :: "share_form option \<Rightarrow> share_form" where
  "share_open existing =
     (case existing of
        Some f \<Rightarrow> f
      | None \<Rightarrow>
          \<lparr>sf_node = [], sf_name = [], sf_path = [], sf_comment = [], sf_owner = ''root'', sf_owner_group = ''Domain Admins'',
           sf_entries = [], sf_read_only = False, sf_browseable = True\<rparr>)"

definition NEW_ENTRY :: share_entry where
  "NEW_ENTRY = \<lparr>se_principal = [], se_kind = ''group'', se_access = ''read'', se_inherit = True\<rparr>"

datatype (plugins only: code size) entry_event =
    EntryPrincipal nat string
  | EntryKind nat string
  | EntryAccess nat string
  | EntryInherit nat bool
  | RemoveEntry nat
  | AddEntry

definition update_entry :: "nat \<Rightarrow> (share_entry \<Rightarrow> share_entry) \<Rightarrow> share_entry list \<Rightarrow> share_entry list" where
  "update_entry i f entries = map (\<lambda>(j, e). if j = i then f e else e) (enumerate 0 entries)"

fun entry_step :: "entry_event \<Rightarrow> share_form \<Rightarrow> share_form" where
  "entry_step (EntryPrincipal i v) f = f\<lparr>sf_entries := update_entry i (\<lambda>e. e\<lparr>se_principal := v\<rparr>) (sf_entries f)\<rparr>"
| "entry_step (EntryKind i v) f = f\<lparr>sf_entries := update_entry i (\<lambda>e. e\<lparr>se_kind := v\<rparr>) (sf_entries f)\<rparr>"
| "entry_step (EntryAccess i v) f = f\<lparr>sf_entries := update_entry i (\<lambda>e. e\<lparr>se_access := v\<rparr>) (sf_entries f)\<rparr>"
| "entry_step (EntryInherit i v) f = f\<lparr>sf_entries := update_entry i (\<lambda>e. e\<lparr>se_inherit := v\<rparr>) (sf_entries f)\<rparr>"
| "entry_step (RemoveEntry i) f = f\<lparr>sf_entries := map snd (filter (\<lambda>(j, e). j \<noteq> i) (enumerate 0 (sf_entries f)))\<rparr>"
| "entry_step AddEntry f = f\<lparr>sf_entries := sf_entries f @ [NEW_ENTRY]\<rparr>"

definition entry_json :: "share_entry \<Rightarrow> jsval" where
  "entry_json e =
     JObj [(''principal'', JStr (se_principal e)), (''kind'', JStr (se_kind e)), (''access'', JStr (se_access e)), (''inherit'', JBool (se_inherit e))]"

definition share_submit :: "string option \<Rightarrow> share_form \<Rightarrow> api_call" where
  "share_submit editing f =
     Call_shares (case editing of
        Some id' \<Rightarrow> Shr_update (JObj
          [(''id'', JStr id'), (''comment'', JStr (sf_comment f)), (''owner'', JStr (sf_owner f)), (''owner_group'', JStr (sf_owner_group f)),
           (''entries'', JArr (map entry_json (sf_entries f))), (''browseable'', JBool (sf_browseable f)), (''read_only'', JBool (sf_read_only f))])
      | None \<Rightarrow> Shr_create (JObj
          [(''node_fqdn'', JStr (sf_node f)), (''name'', JStr (sf_name f)), (''path'', JStr (sf_path f)), (''comment'', JStr (sf_comment f)),
           (''owner'', JStr (sf_owner f)), (''owner_group'', JStr (sf_owner_group f)), (''entries'', JArr (map entry_json (sf_entries f))),
           (''browseable'', JBool (sf_browseable f)), (''read_only'', JBool (sf_read_only f))]))"

text \<open>The address for Linux and macOS: the other spelling, without its leading slashes and with its backslashes
  turned round.\<close>

definition smb_address :: "string \<Rightarrow> string" where
  "smb_address unc =
     ''smb://'' @ replace_char (CHR 0x5C) (CHR ''/'') (if js_startsWith unc ''//'' then drop 2 unc else unc)"

definition entries_shown :: "share_entry list \<Rightarrow> string" where
  "entries_shown es = (if es = [] then ''Nobody yet'' else show_nat (length es) @ '' entries'')"

section \<open>Printers\<close>

record printer_form =
  pf_server :: string
  pf_printer :: string
  pf_device :: string
  pf_about :: string
  pf_place :: string
  pf_driverless :: bool
  pf_ppd :: string
  pf_ppd_name :: string
  pf_duplex :: bool
  pf_colour :: bool
  pf_shared :: bool

text \<open>A printer, as the form of one that exists opens: \<open>has_ppd\<close> and the name of its PPD, never its text.\<close>

definition printer_open :: "(printer_form \<times> bool) option \<Rightarrow> printer_form" where
  "printer_open existing =
     (case existing of
        Some (f, has_ppd) \<Rightarrow> f\<lparr>pf_driverless := \<not> has_ppd, pf_ppd := []\<rparr>
      | None \<Rightarrow>
          \<lparr>pf_server = [], pf_printer = [], pf_device = [], pf_about = [], pf_place = [], pf_driverless = True, pf_ppd = [], pf_ppd_name = [],
           pf_duplex = False, pf_colour = True, pf_shared = True\<rparr>)"

datatype (plugins only: code size) printer_event =
    PrinterServer string
  | PrinterName string
  | PrinterDevice string
  | FoundDevice string
  | PrinterAbout string
  | PrinterPlace string
  | ChooseDriverless bool
  | PpdChosen string
  | PpdRead string
  | PrinterDuplex bool
  | PrinterColour bool
  | PrinterShared bool

fun printer_step :: "printer_event \<Rightarrow> printer_form \<Rightarrow> printer_form" where
  "printer_step (PrinterServer v) f = f\<lparr>pf_server := v\<rparr>"
| "printer_step (PrinterName v) f = f\<lparr>pf_printer := v\<rparr>"
| "printer_step (PrinterDevice v) f = f\<lparr>pf_device := v\<rparr>"
| "printer_step (FoundDevice v) f = (if v \<noteq> [] then f\<lparr>pf_device := v\<rparr> else f)"
| "printer_step (PrinterAbout v) f = f\<lparr>pf_about := v\<rparr>"
| "printer_step (PrinterPlace v) f = f\<lparr>pf_place := v\<rparr>"
| "printer_step (ChooseDriverless b) f = f\<lparr>pf_driverless := b\<rparr>"
| "printer_step (PpdChosen name) f = f\<lparr>pf_ppd_name := name\<rparr>"
| "printer_step (PpdRead t) f = f\<lparr>pf_ppd := t\<rparr>"
| "printer_step (PrinterDuplex b) f = f\<lparr>pf_duplex := b\<rparr>"
| "printer_step (PrinterColour b) f = f\<lparr>pf_colour := b\<rparr>"
| "printer_step (PrinterShared b) f = f\<lparr>pf_shared := b\<rparr>"

definition printer_shape :: "printer_form \<Rightarrow> jsobj" where
  "printer_shape f =
     [(''description'', JStr (pf_about f)), (''location'', JStr (pf_place f)),
      (''ppd'', if pf_driverless f then JNull else if pf_ppd f \<noteq> [] then JStr (pf_ppd f) else JNull),
      (''ppd_name'', JStr (if pf_driverless f then [] else pf_ppd_name f)), (''duplex'', JBool (pf_duplex f)),
      (''colour'', JBool (pf_colour f)), (''shared'', JBool (pf_shared f))]"

definition printer_submit :: "string option \<Rightarrow> printer_form \<Rightarrow> api_call" where
  "printer_submit editing f =
     Call_printers (case editing of
        Some id' \<Rightarrow> Prn_update (JObj ([(''id'', JStr id'), (''device_uri'', JStr (pf_device f))] @ printer_shape f))
      | None \<Rightarrow> Prn_create (JObj
          ([(''node_fqdn'', JStr (pf_server f)), (''name'', JStr (pf_printer f)), (''device_uri'', JStr (pf_device f))] @ printer_shape f)))"

text \<open>What the control plane makes of a member of a change (\<^verbatim>\<open>update_printer\<close> of \<^verbatim>\<open>api/odm/routes_printers.py\<close>):
  a null leaves what is there.\<close>

definition coalesced :: "jsval \<Rightarrow> jsval \<Rightarrow> jsval" where
  "coalesced change there = (if nullish change then there else change)"

subsection \<open>A test page\<close>

datatype (plugins only: code size) test_state = TestAsking | TestWaiting | TestDone | TestFailed

record test_page =
  tp_state :: test_state
  tp_detail :: string
  tp_error :: "string option"
  tp_task :: "string option"
  tp_timer :: bool
  tp_asked :: nat

definition test_open :: test_page where
  "test_open = \<lparr>tp_state = TestAsking, tp_detail = [], tp_error = None, tp_task = None, tp_timer = False, tp_asked = 0\<rparr>"

datatype (plugins only: code size) test_event =
    TestQueued "string + string"
  | TestAnswered "string + (string \<times> string)"
  | TestTimer

text \<open>\<open>tp_task\<close> is the task whose result is being asked for, \<open>tp_timer\<close> whether the next question waits for its two
  seconds, \<open>tp_asked\<close> the questions asked.\<close>

definition test_step :: "test_event \<Rightarrow> test_page \<Rightarrow> test_page" where
  "test_step ev s =
     (case ev of
        TestQueued a \<Rightarrow>
          (if tp_state s \<noteq> TestAsking \<or> tp_error s \<noteq> None then s
           else (case a of
                   Inl msg \<Rightarrow> s\<lparr>tp_error := Some msg\<rparr>
                 | Inr task \<Rightarrow> s\<lparr>tp_state := TestWaiting, tp_task := Some task, tp_asked := tp_asked s + 1\<rparr>))
      | TestAnswered a \<Rightarrow>
          (if tp_task s = None \<or> tp_timer s \<or> tp_state s \<noteq> TestWaiting \<or> tp_error s \<noteq> None then s
           else (case a of
                   Inl msg \<Rightarrow> s\<lparr>tp_error := Some msg\<rparr>
                 | Inr (st, output) \<Rightarrow>
                     (if st = ''done'' \<or> st = ''failed''
                      then s\<lparr>tp_detail := output, tp_state := (if st = ''done'' then TestDone else TestFailed)\<rparr>
                      else s\<lparr>tp_detail := output, tp_timer := True\<rparr>)))
      | TestTimer \<Rightarrow> (if tp_timer s then s\<lparr>tp_timer := False, tp_asked := tp_asked s + 1\<rparr> else s))"

section \<open>Network access\<close>

definition KIND_LABELS :: "(string \<times> string) list" where
  "KIND_LABELS = [(''user'', ''People''), (''computer'', ''Machines''), (''any'', ''Either'')]"

definition device_submit :: "string \<Rightarrow> string \<Rightarrow> string \<Rightarrow> string \<Rightarrow> string \<Rightarrow> api_call" where
  "device_submit node name address description network =
     Call_radius (Radius_addClient (JObj
       [(''node_fqdn'', JStr node), (''name'', JStr name), (''address'', JStr address), (''description'', JStr description),
        (''nas_identifier'', JStr network)]))"

text \<open>The networks a rule can be about: those the devices name, each once.\<close>

definition device_networks :: "string list \<Rightarrow> string list" where
  "device_networks identifiers = rev (remdups (rev (nonempty identifiers)))"

record rule_form =
  rf_name :: string
  rf_description :: string
  rf_group :: "(string \<times> string) option"
  rf_kind :: string
  rf_chosen :: "string list"
  rf_access :: string
  rf_vlan :: string
  rf_ordering :: jsval
  rf_error :: "string option"

definition rule_open :: rule_form where
  "rule_open =
     \<lparr>rf_name = [], rf_description = [], rf_group = None, rf_kind = ''user'', rf_chosen = [], rf_access = ''allow'', rf_vlan = [],
      rf_ordering = JNum 100, rf_error = None\<rparr>"

definition rule_group :: "dirobj \<Rightarrow> string \<times> string" where
  "rule_group n = (distinguishedName n, to_string (or_else (attr n ''sAMAccountName'') (or_else (attr n ''cn'') (JStr []))))"

text \<open>Clicking a network's box: it is ticked when it was not, and the other way round.\<close>

definition rule_tick :: "string list \<Rightarrow> string \<Rightarrow> rule_form \<Rightarrow> rule_form" where
  "rule_tick networks n f =
     (if n \<notin> set networks then f
      else f\<lparr>rf_chosen := (if n \<in> set (rf_chosen f) then filter (\<lambda>v. v \<noteq> n) (rf_chosen f) else rf_chosen f @ [n])\<rparr>)"

definition rule_submit :: "rule_form \<Rightarrow> rule_form \<times> api_call option" where
  "rule_submit f =
     (case rf_group f of
        None \<Rightarrow> (f\<lparr>rf_error := Some ''choose the group this rule is about''\<rparr>, None)
      | Some (dn, name) \<Rightarrow>
          (f\<lparr>rf_error := None\<rparr>,
           Some (Call_radius (Radius_addPolicy (JObj
             [(''name'', JStr (rf_name f)), (''description'', JStr (rf_description f)), (''group_dn'', JStr dn), (''group_name'', JStr name),
              (''principal_kind'', JStr (rf_kind f)), (''nas_identifiers'', strs (rf_chosen f)), (''access'', JStr (rf_access f)),
              (''vlan'', if rf_vlan f \<noteq> [] then js_Number (rf_vlan f) else JNull), (''ordering'', rf_ordering f)])))))"

section \<open>Properties\<close>

text \<open>Nothing on the page takes a printer's PPD away: changed to find its driver by itself, it is sent the null that
  leaves the PPD where it is, exactly as when the driver was not touched, and only the PPD's name goes.\<close>

theorem driverless_keeps_the_ppd:
  assumes "printer_submit (Some id') (printer_step (ChooseDriverless True) f) = Call_printers (Prn_update (JObj body))"
  shows "coalesced (obj_get body ''ppd'') there = there \<and> coalesced (obj_get body ''ppd_name'') name = JStr []"
  using assms by (auto simp: printer_submit_def printer_shape_def coalesced_def)

theorem driverless_keeps_the_ppd_witness:
  "let f = printer_open (Some ((printer_open None)\<lparr>pf_ppd_name := ''laser.ppd''\<rparr>, True));
       g = printer_step (ChooseDriverless True) f
   in \<not> pf_driverless f \<and> pf_driverless g \<and>
      coalesced (obj_get ([(''id'', JStr ''7''), (''device_uri'', JStr (pf_device g))] @ printer_shape g) ''ppd'') (JStr ''*PPD-Adobe'') = JStr ''*PPD-Adobe''"
proof -
  define f where "f = printer_open (Some ((printer_open None)\<lparr>pf_ppd_name := ''laser.ppd''\<rparr>, True))"
  define g where "g = printer_step (ChooseDriverless True) f"
  have "printer_submit (Some ''7'') (printer_step (ChooseDriverless True) f) =
      Call_printers (Prn_update (JObj ([(''id'', JStr ''7''), (''device_uri'', JStr (pf_device g))] @ printer_shape g)))"
    by (simp add: printer_submit_def g_def)
  from driverless_keeps_the_ppd [OF this] show ?thesis
    unfolding Let_def f_def [symmetric] g_def [symmetric] by (simp add: f_def g_def printer_open_def)
qed

text \<open>A PPD that is saved before it is read is sent by its name alone: the input lets go at once, because what it
  calls gives it nothing to wait for.\<close>

theorem unread_ppd_is_saved_by_name_alone:
  assumes "pf_ppd f = []"
  shows "obj_get (printer_shape (fold printer_step [ChooseDriverless False, PpdChosen file_name] f)) ''ppd'' = JNull \<and>
         obj_get (printer_shape (fold printer_step [ChooseDriverless False, PpdChosen file_name] f)) ''ppd_name'' = JStr file_name"
  using assms by (simp add: printer_shape_def)

text \<open>Changing one entry of a share leaves the others as they were, and none is lost.\<close>

lemma update_entry_nth:
  "length (update_entry i g es) = length es \<and> (\<forall>j < length es. update_entry i g es ! j = (if j = i then g (es ! j) else es ! j))"
  by (simp add: update_entry_def nth_enumerate_eq split: prod.split)

theorem entry_edits_stay_put:
  assumes "ev \<in> {EntryPrincipal i v, EntryKind i v, EntryAccess i v, EntryInherit i b}"
  shows "length (sf_entries (entry_step ev f)) = length (sf_entries f) \<and>
         (\<forall>j < length (sf_entries f). j \<noteq> i \<longrightarrow> sf_entries (entry_step ev f) ! j = sf_entries f ! j)"
  using assms update_entry_nth by auto

text \<open>The address for Linux is that of the same server and share.\<close>

theorem smb_address_of_unc:
  assumes "CHR 0x5C \<notin> set (host @ name)"
  shows "smb_address (''//'' @ host @ ''/'' @ name) = ''smb://'' @ host @ ''/'' @ name"
proof -
  have "replace_char (CHR 0x5C) (CHR ''/'') t = t" if "CHR 0x5C \<notin> set t" for t
    using that by (induction t) (auto simp: replace_char_def)
  with assms show ?thesis by (simp add: smb_address_def)
qed

text \<open>A test page whose result could not be asked for is waited for without being asked for again.\<close>

theorem lost_result_is_waited_for_for_ever:
  assumes "tp_state s = TestWaiting" and "tp_error s = Some msg" and "\<not> tp_timer s"
  shows "let s' = fold test_step evs s in tp_state s' = TestWaiting \<and> tp_asked s' = tp_asked s"
proof -
  have "test_step ev s = s" for ev using assms by (cases ev) (simp_all add: test_step_def)
  then have "fold test_step evs s = s" by (induction evs) simp_all
  with assms(1) show ?thesis by simp
qed

text \<open>A rule is never sent without its group, and names each network once, and only networks the devices have.\<close>

theorem rule_names_known_networks:
  assumes "f = fold (rule_tick (device_networks ids)) ticks rule_open"
  shows "distinct (rf_chosen f) \<and> set (rf_chosen f) \<subseteq> set (nonempty ids) \<and> snd (rule_submit f) = None"
proof -
  have "distinct (rf_chosen g) \<and> set (rf_chosen g) \<subseteq> set (nonempty ids) \<and> rf_group g = None \<Longrightarrow>
        distinct (rf_chosen (fold (rule_tick (device_networks ids)) ticks g)) \<and>
        set (rf_chosen (fold (rule_tick (device_networks ids)) ticks g)) \<subseteq> set (nonempty ids) \<and>
        rf_group (fold (rule_tick (device_networks ids)) ticks g) = None" for g
  proof (induction ticks arbitrary: g)
    case (Cons n ticks)
    have "distinct (rf_chosen (rule_tick (device_networks ids) n g)) \<and> set (rf_chosen (rule_tick (device_networks ids) n g)) \<subseteq> set (nonempty ids) \<and>
          rf_group (rule_tick (device_networks ids) n g) = None"
      using Cons.prems by (auto simp: rule_tick_def device_networks_def)
    from Cons.IH [OF this] show ?case by simp
  qed simp
  from this [of rule_open] assms show ?thesis by (simp add: rule_open_def rule_submit_def)
qed

end
