(* ===== verification/Choices.thy ===== *)
theory Choices
  imports Prelude
begin

text \<open>
  The interface of a list of ticked boxes, as several forms have it: a box that is clicked is added to the end
  of what is chosen, or taken out of it (\<^verbatim>\<open>e.target.checked ? [...chosen, x] : chosen.filter((y) => y !== x)\<close>, the
  box being checked when it is chosen). What the forms rely on is proved once: nothing is chosen twice or
  without being offered, and a box is chosen when it was clicked an odd number of times.

  Also the length of a string as the language counts it.
\<close>

locale ticked_boxes =
  fixes click :: "'a \<Rightarrow> 's \<Rightarrow> 's"
    and chosen :: "'s \<Rightarrow> 'a list"
    and offered :: "'a \<Rightarrow> bool"
  assumes ticked: "offered x \<Longrightarrow> x \<notin> set (chosen s) \<Longrightarrow> chosen (click x s) = chosen s @ [x]"
    and unticked: "offered x \<Longrightarrow> x \<in> set (chosen s) \<Longrightarrow> chosen (click x s) = filter (\<lambda>y. y \<noteq> x) (chosen s)"
    and ignored: "\<not> offered x \<Longrightarrow> chosen (click x s) = chosen s"
begin

lemma chosen_click: "y \<in> set (chosen (click x s)) \<longleftrightarrow> (y \<in> set (chosen s)) \<noteq> (y = x \<and> offered x)"
  by (cases "offered x"; cases "x \<in> set (chosen s)") (auto simp: ticked unticked ignored)

lemma distinct_click: "distinct (chosen s) \<Longrightarrow> distinct (chosen (click x s))"
  by (cases "offered x"; cases "x \<in> set (chosen s)") (auto simp: ticked unticked ignored)

lemma distinct_run: "distinct (chosen s) \<Longrightarrow> distinct (chosen (fold click xs s))"
  by (induction xs arbitrary: s) (simp_all add: distinct_click)

lemma chosen_run: "y \<in> set (chosen (fold click xs s)) \<longleftrightarrow> (y \<in> set (chosen s)) \<noteq> (offered y \<and> odd (count_list xs y))"
  by (induction xs arbitrary: s) (auto simp: chosen_click)

lemma offered_run: "set (chosen s) \<subseteq> Collect offered \<Longrightarrow> set (chosen (fold click xs s)) \<subseteq> Collect offered"
  using chosen_run by fastforce

lemma click_twice: "offered x \<Longrightarrow> x \<notin> set (chosen s) \<Longrightarrow> chosen (click x (click x s)) = chosen s"
  by (auto simp: ticked unticked filter_id_conv)

end

text \<open>\<^verbatim>\<open>String.length\<close> counts UTF-16 units: one for each character, two for one whose UTF-8 has four bytes.\<close>

definition js_length :: "string \<Rightarrow> nat" where
  "js_length s =
     length (filter (\<lambda>c. \<not> (0x80 \<le> (of_char c :: nat) \<and> (of_char c :: nat) < 0xC0)) s) +
     length (filter (\<lambda>c. 0xF0 \<le> (of_char c :: nat)) s)"

end
