(* ===== verification/Delegation.thy ===== *)
theory Delegation
  imports Pickers Choices
begin

text \<open>
  Delegation (\<^verbatim>\<open>pages/Delegation.tsx\<close>): the roles and who holds them, the dialog that assigns a role to somebody
  over a part of the tree, found by searching the directory while typing, and the dialog that makes a role of
  permissions that are ticked. The search takes every answer that comes (\<open>eager_loader\<close>); the permissions are
  \<open>ticked_boxes\<close>.
\<close>

section \<open>The page\<close>

record rbac_role =
  rr_name :: string
  rr_description :: string
  rr_builtin :: bool
  rr_permissions :: "string list"

record rbac_assignment =
  ra_id :: string
  ra_principal :: string
  ra_role :: string
  ra_scope :: string

datatype (plugins only: code size) delegation_dialog = AssignOpen | RoleOpen

record delegation_page =
  de_roles_tab :: bool
  de_roles :: "rbac_role list"
  de_assignments :: "rbac_assignment list"
  de_permissions :: "string list"
  de_dialog :: "delegation_dialog option"
  de_open_role :: "rbac_role option"
  de_error :: "string option"
  de_loading :: bool
  de_loads :: nat
  de_sent :: "api_call list"

text \<open>\<open>de_loads\<close> counts the loads, each of the three requests together.\<close>

definition delegation_load :: "delegation_page \<Rightarrow> delegation_page" where
  "delegation_load s = s\<lparr>de_error := None, de_loads := de_loads s + 1\<rparr>"

definition delegation_open :: delegation_page where
  "delegation_open =
     delegation_load \<lparr>de_roles_tab = False, de_roles = [], de_assignments = [], de_permissions = [], de_dialog = None,
       de_open_role = None, de_error = None, de_loading = True, de_loads = 0, de_sent = []\<rparr>"

datatype (plugins only: code size) delegation_event =
    RolesTab bool
  | DelegationAnswered "string + (rbac_role list \<times> rbac_assignment list \<times> string list)"
  | NewPressed
  | OpenRole rbac_role
  | RoleClosed
  | Unassign string
  | DeleteRole rbac_role
  | ActionDone "string option"
  | DelegationDialogClosed
  | DelegationSaved
  | DelegationChanged

definition delegation_step :: "delegation_event \<Rightarrow> delegation_page \<Rightarrow> delegation_page" where
  "delegation_step ev s =
     (case ev of
        RolesTab b \<Rightarrow> s\<lparr>de_roles_tab := b\<rparr>
      | DelegationAnswered a \<Rightarrow>
          (if de_loads s = 0 then s
           else (case a of
                   Inl msg \<Rightarrow> s\<lparr>de_error := Some msg, de_loading := False\<rparr>
                 | Inr (rs, assignments, permissions) \<Rightarrow>
                     s\<lparr>de_roles := rs, de_assignments := assignments, de_permissions := permissions, de_loading := False\<rparr>))
      | NewPressed \<Rightarrow> s\<lparr>de_dialog := Some (if de_roles_tab s then RoleOpen else AssignOpen)\<rparr>
      | OpenRole r \<Rightarrow> (if de_roles_tab s \<and> r \<in> set (de_roles s) then s\<lparr>de_open_role := Some r\<rparr> else s)
      | RoleClosed \<Rightarrow> s\<lparr>de_open_role := None\<rparr>
      | Unassign id' \<Rightarrow>
          (if \<not> de_roles_tab s \<and> list_ex (\<lambda>a. ra_id a = id') (de_assignments s)
           then s\<lparr>de_error := None, de_sent := de_sent s @ [Call_rbac (Rbac_unassign id')]\<rparr> else s)
      | DeleteRole r \<Rightarrow>
          (if de_roles_tab s \<and> r \<in> set (de_roles s) \<and> \<not> rr_builtin r
           then s\<lparr>de_error := None, de_sent := de_sent s @ [Call_rbac (Rbac_deleteRole (rr_name r))]\<rparr> else s)
      | ActionDone failure \<Rightarrow> (case failure of Some msg \<Rightarrow> s\<lparr>de_error := Some msg\<rparr> | None \<Rightarrow> delegation_load s)
      | DelegationDialogClosed \<Rightarrow> s\<lparr>de_dialog := None\<rparr>
      | DelegationSaved \<Rightarrow> delegation_load (s\<lparr>de_dialog := None\<rparr>)
      | DelegationChanged \<Rightarrow> delegation_load s)"

definition permissions_counted :: "rbac_role \<Rightarrow> string" where
  "permissions_counted r =
     (if ''*'' \<in> set (rr_permissions r) then ''Everything'' else show_nat (length (rr_permissions r)) @ '' permissions'')"

definition permissions_listed :: "rbac_role \<Rightarrow> string list" where
  "permissions_listed r = (if ''*'' \<in> set (rr_permissions r) then [''every permission in the console''] else rr_permissions r)"

section \<open>Assigning a role\<close>

record assign_form =
  af_role :: string
  af_search :: string
  af_candidates :: "dirobj list"
  af_principal :: "dirobj option"
  af_containers :: "string list"
  af_scope :: string
  af_note :: string
  af_error :: "string option"
  af_timer :: bool
  af_searches :: "string list"

definition assign_open :: "rbac_role list \<Rightarrow> assign_form" where
  "assign_open rs =
     \<lparr>af_role = (case rs of [] \<Rightarrow> [] | r # _ \<Rightarrow> rr_name r), af_search = [], af_candidates = [], af_principal = None, af_containers = [],
      af_scope = [], af_note = [], af_error = None, af_timer = False, af_searches = []\<rparr>"

text \<open>The effect of a changed search: two characters start the wait of 200 ms, fewer empty the list.\<close>

definition searched :: "string \<Rightarrow> assign_form \<Rightarrow> assign_form" where
  "searched v s =
     (if v = af_search s then s
      else if js_length (js_trim v) < 2 then s\<lparr>af_search := v, af_timer := False, af_candidates := []\<rparr>
      else s\<lparr>af_search := v, af_timer := True\<rparr>)"

definition search_call :: "string \<Rightarrow> api_call" where
  "search_call v = Call_directory (Dir_list [(''query'', JStr v), (''scope'', JStr ''subtree'')])"

definition may_hold_roles :: "dirobj \<Rightarrow> bool" where
  "may_hold_roles n \<longleftrightarrow> objectType n = ''user'' \<or> objectType n = ''group''"

definition candidate_name :: "dirobj \<Rightarrow> string" where
  "candidate_name n = to_string (or_else (attr n ''sAMAccountName'') (or_else (attr n ''cn'') (JStr [])))"

definition assign_call :: "assign_form \<Rightarrow> dirobj \<Rightarrow> api_call" where
  "assign_call s n =
     Call_rbac (Rbac_assign (JObj
       [(''role_name'', JStr (af_role s)), (''principal_dn'', JStr (distinguishedName n)), (''scope_dn'', JStr (af_scope s)),
        (''description'', JStr (af_note s))]))"

datatype (plugins only: code size) assign_event =
    AssignRole string
  | AssignSearch string
  | AssignTimer
  | AssignFound nat "dirobj list option"
  | AssignPick dirobj
  | AssignTree "(string \<times> dirobj list) option"
  | AssignScope string
  | AssignNote string

text \<open>An answer is \<open>None\<close> when the request failed, which empties the list; nothing asks whether a later search has
  been made.\<close>

definition assign_step :: "rbac_role list \<Rightarrow> assign_event \<Rightarrow> assign_form \<Rightarrow> assign_form" where
  "assign_step rs ev s =
     (case ev of
        AssignRole r \<Rightarrow> (if r \<in> rr_name ` set rs then s\<lparr>af_role := r\<rparr> else s)
      | AssignSearch v \<Rightarrow> searched v s
      | AssignTimer \<Rightarrow> (if af_timer s then s\<lparr>af_timer := False, af_searches := af_searches s @ [af_search s]\<rparr> else s)
      | AssignFound i a \<Rightarrow>
          (if length (af_searches s) \<le> i then s
           else s\<lparr>af_candidates := (case a of None \<Rightarrow> [] | Some objects \<Rightarrow> filter may_hold_roles objects)\<rparr>)
      | AssignPick n \<Rightarrow>
          (if n \<in> set (af_candidates s) then searched (candidate_name n) (s\<lparr>af_principal := Some n, af_candidates := []\<rparr>) else s)
      | AssignTree a \<Rightarrow>
          (case a of
             None \<Rightarrow> s\<lparr>af_containers := []\<rparr>
           | Some (base_dn, nodes) \<Rightarrow>
               s\<lparr>af_containers := map distinguishedName nodes, af_scope := (if af_scope s \<noteq> [] then af_scope s else base_dn)\<rparr>)
      | AssignScope dn \<Rightarrow> (if dn \<in> set (af_containers s) then s\<lparr>af_scope := dn\<rparr> else s)
      | AssignNote v \<Rightarrow> s\<lparr>af_note := v\<rparr>)"

definition assign_submit :: "assign_form \<Rightarrow> assign_form \<times> api_call option" where
  "assign_submit s =
     (case af_principal s of
        None \<Rightarrow> (s\<lparr>af_error := Some ''Choose a user or group first.''\<rparr>, None)
      | Some n \<Rightarrow> (s\<lparr>af_error := None\<rparr>, Some (assign_call s n)))"

section \<open>A role of one's own\<close>

record role_form =
  ro_name :: string
  ro_description :: string
  ro_chosen :: "string list"

definition role_open :: role_form where
  "role_open = \<lparr>ro_name = [], ro_description = [], ro_chosen = []\<rparr>"

definition permission_click :: "string list \<Rightarrow> string \<Rightarrow> role_form \<Rightarrow> role_form" where
  "permission_click permissions p f =
     (if p \<notin> set permissions then f
      else f\<lparr>ro_chosen := (if p \<in> set (ro_chosen f) then filter (\<lambda>q. q \<noteq> p) (ro_chosen f) else ro_chosen f @ [p])\<rparr>)"

definition role_submit :: "role_form \<Rightarrow> api_call" where
  "role_submit f = Call_rbac (Rbac_saveRole (ro_name f) (ro_description f) (ro_chosen f))"

text \<open>What the control plane makes of it (\<^verbatim>\<open>create_role\<close> of \<^verbatim>\<open>api/odm/routes_rbac.py\<close>): a role of the name
  that is not built in is replaced, with its permissions.\<close>

definition stored_roles :: "string \<Rightarrow> string \<Rightarrow> string list \<Rightarrow> rbac_role list \<Rightarrow> rbac_role list" where
  "stored_roles n d ps rs =
     (case find (\<lambda>r. rr_name r = n) rs of
        Some r \<Rightarrow> (if rr_builtin r then rs
                   else map (\<lambda>r. if rr_name r = n then r\<lparr>rr_description := d, rr_permissions := ps\<rparr> else r) rs)
      | None \<Rightarrow> rs @ [\<lparr>rr_name = n, rr_description = d, rr_builtin = False, rr_permissions = ps\<rparr>])"

section \<open>Lemmas\<close>

text \<open>The list that is up, when there is one, is what the last answer to arrive held.\<close>

definition list_up :: "dirobj list \<Rightarrow> dirobj list option" where
  "list_up ns = (if ns = [] then None else Some ns)"

definition assign_arrival :: "assign_event \<Rightarrow> (nat \<times> dirobj list) option" where
  "assign_arrival ev =
     (case ev of AssignFound i (Some os) \<Rightarrow> map_option (Pair i) (list_up (filter may_hold_roles os)) | _ \<Rightarrow> None)"

interpretation found: eager_loader "assign_step rs" af_searches "\<lambda>s. list_up (af_candidates s)" assign_arrival for rs
proof
  fix ev and s :: assign_form
  show "\<exists>ks. af_searches (assign_step rs ev s) = af_searches s @ ks"
    by (cases ev) (auto simp: assign_step_def searched_def split: option.split)
next
  fix ev i v and s :: assign_form
  assume "assign_arrival ev = Some (i, v)" and "i < length (af_searches s)"
  then show "list_up (af_candidates (assign_step rs ev s)) = Some v"
    by (auto simp: assign_arrival_def assign_step_def split: assign_event.splits option.splits)
next
  fix ev v and s :: assign_form
  assume "list_up (af_candidates (assign_step rs ev s)) = Some v"
  then show "list_up (af_candidates s) = Some v \<or> (\<exists>i. assign_arrival ev = Some (i, v))"
    by (cases ev) (auto simp: assign_arrival_def assign_step_def searched_def list_up_def split: option.splits if_splits)
qed

definition offered_found :: "assign_event list \<Rightarrow> dirobj set" where
  "offered_found evs = {n. \<exists>i os. AssignFound i (Some os) \<in> set evs \<and> n \<in> set os \<and> may_hold_roles n}"

interpretation permission: ticked_boxes "permission_click permissions" ro_chosen "\<lambda>p. p \<in> set permissions" for permissions
  by unfold_locales (auto simp: permission_click_def)

text \<open>Whoever is chosen, and whoever is on the list, was found by a search and is a user or a group.\<close>

lemma assign_step_found:
  assumes "set (af_candidates s) \<subseteq> P" and "set_option (af_principal s) \<subseteq> P"
    and "\<And>i os. ev = AssignFound i (Some os) \<Longrightarrow> set (filter may_hold_roles os) \<subseteq> P"
  shows "set (af_candidates (assign_step rs ev s)) \<subseteq> P \<and> set_option (af_principal (assign_step rs ev s)) \<subseteq> P"
  using assms by (cases ev) (auto simp: assign_step_def searched_def split: option.splits prod.splits)

lemma assign_run_found:
  assumes "set (af_candidates s) \<subseteq> P" and "set_option (af_principal s) \<subseteq> P"
    and "\<And>i os. AssignFound i (Some os) \<in> set evs \<Longrightarrow> set (filter may_hold_roles os) \<subseteq> P"
  shows "set_option (af_principal (fold (assign_step rs) evs s)) \<subseteq> P"
  using assms
proof (induction evs arbitrary: s)
  case (Cons ev evs)
  have "set (af_candidates (assign_step rs ev s)) \<subseteq> P \<and> set_option (af_principal (assign_step rs ev s)) \<subseteq> P"
    by (rule assign_step_found [OF Cons.prems(1,2)]) (metis Cons.prems(3) list.set_intros(1))
  then have "set_option (af_principal (fold (assign_step rs) evs (assign_step rs ev s))) \<subseteq> P"
    by (elim conjE, intro Cons.IH) (assumption, assumption, rule Cons.prems(3) [OF list.set_intros(2)], assumption)
  then show ?case by simp
qed simp

lemma assign_role_known:
  assumes "af_role s \<in> rr_name ` set rs"
  shows "af_role (fold (assign_step rs) evs s) \<in> rr_name ` set rs"
  using assms
proof (induction evs arbitrary: s)
  case (Cons ev evs)
  have "af_role (assign_step rs ev s) \<in> rr_name ` set rs"
    using Cons.prems by (cases ev) (auto simp: assign_step_def searched_def split: option.splits prod.splits)
  with Cons.IH show ?case by simp
qed simp

section \<open>Properties\<close>

text \<open>A role is only ever given to somebody the directory was searched for: whatever is typed and in whatever order
  the answers come, what is assigned is one of the roles there are, to a user or a group that was found.\<close>

theorem roles_are_given_to_users_and_groups_found:
  assumes "rs \<noteq> []" and "snd (assign_submit (fold (assign_step rs) evs (assign_open rs))) = Some call"
  shows "\<exists>r \<in> set rs. \<exists>n \<in> offered_found evs. \<exists>scope text_noted. call =
           Call_rbac (Rbac_assign (JObj [(''role_name'', JStr (rr_name r)), (''principal_dn'', JStr (distinguishedName n)),
                                             (''scope_dn'', JStr scope), (''description'', JStr text_noted)]))"
proof -
  let ?s = "fold (assign_step rs) evs (assign_open rs)"
  obtain n where n: "af_principal ?s = Some n" "call = assign_call ?s n"
    using assms(2) by (auto simp: assign_submit_def split: option.splits)
  have "set_option (af_principal ?s) \<subseteq> offered_found evs"
    by (rule assign_run_found) (auto simp: assign_open_def offered_found_def)
  with n(1) have found: "n \<in> offered_found evs" by simp
  have "af_role (assign_open rs) \<in> rr_name ` set rs"
    using assms(1) by (cases rs) (auto simp: assign_open_def)
  from assign_role_known [OF this] obtain r where "r \<in> set rs" "af_role ?s = rr_name r" by blast
  with found n(2) show ?thesis by (auto simp: assign_call_def)
qed

theorem roles_are_given_to_users_and_groups_found_witness:
  "let r = \<lparr>rr_name = ''helpdesk'', rr_description = [], rr_builtin = False, rr_permissions = []\<rparr>;
       ada = \<lparr>distinguishedName = ''CN=ada'', objectType = ''user'', attributes = []\<rparr>;
       evs = [AssignSearch ''ada'', AssignTimer, AssignFound 0 (Some [ada]), AssignPick ada];
       call = assign_call (fold (assign_step [r]) evs (assign_open [r])) ada
   in snd (assign_submit (fold (assign_step [r]) evs (assign_open [r]))) = Some call \<and>
      (\<exists>q \<in> set [r]. \<exists>n \<in> offered_found evs. \<exists>scope text_noted. call =
         Call_rbac (Rbac_assign (JObj [(''role_name'', JStr (rr_name q)), (''principal_dn'', JStr (distinguishedName n)),
                                       (''scope_dn'', JStr scope), (''description'', JStr text_noted)])))"
proof -
  define r where "r = \<lparr>rr_name = ''helpdesk'', rr_description = [], rr_builtin = False, rr_permissions = []\<rparr>"
  define ada where "ada = \<lparr>distinguishedName = ''CN=ada'', objectType = ''user'', attributes = []\<rparr>"
  define evs where "evs = [AssignSearch ''ada'', AssignTimer, AssignFound 0 (Some [ada]), AssignPick ada]"
  define call where "call = assign_call (fold (assign_step [r]) evs (assign_open [r])) ada"
  have name: "candidate_name ada = []" by (simp add: candidate_name_def ada_def attr_def or_else_def)
  have found: "af_candidates (fold (assign_step [r]) (butlast evs) (assign_open [r])) = [ada]"
    by (simp add: evs_def assign_step_def searched_def assign_open_def js_length_def js_trim_def is_space_def may_hold_roles_def ada_def)
  have "af_principal (fold (assign_step [r]) evs (assign_open [r])) = Some ada"
  proof -
    have "evs = butlast evs @ [AssignPick ada]" by (simp add: evs_def)
    then have "fold (assign_step [r]) evs (assign_open [r]) =
        assign_step [r] (AssignPick ada) (fold (assign_step [r]) (butlast evs) (assign_open [r]))" by (metis fold_append fold_simps comp_apply)
    with found show ?thesis by (simp add: assign_step_def searched_def)
  qed
  then have sent: "snd (assign_submit (fold (assign_step [r]) evs (assign_open [r]))) = Some call"
    by (simp add: assign_submit_def call_def)
  have "[r] \<noteq> []" by simp
  from roles_are_given_to_users_and_groups_found [OF this sent] sent
  show ?thesis by (simp only: Let_def r_def [symmetric] ada_def [symmetric] evs_def [symmetric] call_def [symmetric] simp_thms)
qed

text \<open>Choosing somebody does not end the search: the name written into the field is searched for in turn, and the
  answer puts the list back up.\<close>

theorem chosen_candidate_is_searched_for_again:
  assumes "n \<in> set (af_candidates s)" and "candidate_name n \<noteq> af_search s" and "2 \<le> js_length (js_trim (candidate_name n))"
  shows "af_candidates (assign_step rs (AssignPick n) s) = [] \<and>
         af_candidates (fold (assign_step rs) [AssignPick n, AssignTimer, AssignFound (length (af_searches s)) (Some [n])] s) =
           filter may_hold_roles [n]"
  using assms by (simp add: assign_step_def searched_def)

text \<open>A role made under the name of another one replaces it: the dialog for a new role asks nothing, and the
  control plane keeps no role of that name but this.\<close>

theorem new_role_replaces_one_of_its_name:
  assumes "r \<in> set rs" and "distinct (map rr_name rs)" and "\<not> rr_builtin r" and "ro_name f = rr_name r"
    and "role_submit f = Call_rbac (Rbac_saveRole n d ps)"
  shows "length (stored_roles n d ps rs) = length rs \<and> r\<lparr>rr_description := d, rr_permissions := ro_chosen f\<rparr> \<in> set (stored_roles n d ps rs)"
proof -
  have n: "n = rr_name r" "ps = ro_chosen f" using assms(4,5) by (auto simp: role_submit_def)
  have "find (\<lambda>q. rr_name q = n) rs = Some r"
    using assms(1,2) n(1) by (induction rs) (auto simp: image_iff)
  then have "stored_roles n d ps rs = map (\<lambda>r. if rr_name r = n then r\<lparr>rr_description := d, rr_permissions := ps\<rparr> else r) rs"
    using assms(3) by (simp add: stored_roles_def)
  with assms(1) n show ?thesis by force
qed

text \<open>A role holds a permission when its box was clicked an odd number of times, each once, and only permissions
  there are.\<close>

theorem role_holds_what_was_ticked:
  "role_submit (fold (permission_click permissions) clicks role_open) = Call_rbac (Rbac_saveRole n d ps) \<Longrightarrow>
   distinct ps \<and> set ps = {p \<in> set permissions. odd (count_list clicks p)}"
proof -
  assume "role_submit (fold (permission_click permissions) clicks role_open) = Call_rbac (Rbac_saveRole n d ps)"
  then have "ps = ro_chosen (fold (permission_click permissions) clicks role_open)" by (simp add: role_submit_def)
  with permission.distinct_run [of role_open permissions clicks] permission.chosen_run [of _ permissions clicks role_open]
  show ?thesis by (auto simp: role_open_def)
qed

text \<open>A built-in role is never deleted from the page: every deletion names a role that was read as one of the
  domain's own.\<close>

definition roles_answered :: "delegation_event list \<Rightarrow> rbac_role set" where
  "roles_answered evs = {r. \<exists>rs assignments permissions. DelegationAnswered (Inr (rs, assignments, permissions)) \<in> set evs \<and> r \<in> set rs}"

theorem builtin_roles_stay:
  assumes "Call_rbac (Rbac_deleteRole n) \<in> set (de_sent (fold delegation_step evs delegation_open))"
  shows "\<exists>r \<in> roles_answered evs. rr_name r = n \<and> \<not> rr_builtin r"
proof -
  have "Call_rbac (Rbac_deleteRole n) \<in> set (de_sent (fold delegation_step es s)) \<Longrightarrow> set (de_roles s) \<subseteq> R \<Longrightarrow>
      roles_answered es \<subseteq> R \<Longrightarrow> Call_rbac (Rbac_deleteRole n) \<notin> set (de_sent s) \<Longrightarrow> \<exists>r \<in> R. rr_name r = n \<and> \<not> rr_builtin r"
    for es s R
  proof (induction es arbitrary: s)
    case (Cons e es)
    have here: "set rs \<subseteq> R" if "e = DelegationAnswered (Inr (rs, as, ps))" for rs as ps
      using Cons.prems(3) that by (force simp: roles_answered_def)
    have roles: "set (de_roles (delegation_step e s)) \<subseteq> R"
      using Cons.prems(2) here by (cases e) (auto simp: delegation_step_def delegation_load_def split: sum.splits option.splits prod.splits)
    have rest: "roles_answered es \<subseteq> R" using Cons.prems(3) by (auto simp: roles_answered_def)
    show ?case
    proof (cases "Call_rbac (Rbac_deleteRole n) \<in> set (de_sent (delegation_step e s))")
      case True
      with Cons.prems(2,4) show ?thesis
        by (cases e) (auto simp: delegation_step_def delegation_load_def split: sum.splits option.splits prod.splits if_splits)
    next
      case False
      from Cons.IH [OF _ roles rest False] Cons.prems(1) show ?thesis by simp
    qed
  qed simp
  from this [OF assms, of "roles_answered evs"] show ?thesis by (simp add: delegation_open_def delegation_load_def)
qed

end
