(* ===== verification/Secrets.thy ===== *)
theory Secrets
  imports Policy Loaders
begin

text \<open>
  The password manager (\<^verbatim>\<open>pages/Passwords.tsx\<close>), the dialogs of the second factor and of the approval on a phone
  (\<^verbatim>\<open>components/SecondFactor.tsx\<close>) and the enrolment tokens (\<^verbatim>\<open>components/EnrolmentTokens.tsx\<close>).

  The page of the password manager reads its state again every ten seconds and must not write over what is
  being typed; a reference says whether it has been (\<open>pw_dirty\<close>). What runs is listed in \<open>pw_works\<close>, what is read
  in \<open>pw_loads\<close>, and an answer names its place there.
\<close>

section \<open>The password manager\<close>

record vault_collection =
  vc_id :: string
  vc_name :: string
  vc_access :: "(string \<times> bool) list"

record vault_status =
  vs_installed :: bool
  vs_ca_ready :: bool
  vs_ready :: bool
  vs_groups :: "string list"
  vs_users :: "string list"
  vs_collections :: "vault_collection list"

record vault_setup =
  vu_groups :: string
  vu_users :: string
  vu_password :: string

datatype (plugins only: code size) vault_work =
    WorkApply
  | WorkSetup vault_setup
  | WorkSeats
  | WorkCreate
  | WorkRename
  | WorkGrant
  | WorkAccess
  | WorkDelete

record passwords_page =
  pw_collections_tab :: bool
  pw_status :: "vault_status option"
  pw_error :: "string option"
  pw_notice :: "string option"
  pw_busy :: bool
  pw_dirty :: bool
  pw_seats :: "string \<times> string"
  pw_setup :: vault_setup
  pw_new :: "string option"
  pw_rename :: "(string \<times> string) option"
  pw_grant :: "(string \<times> string \<times> bool) option"
  pw_delete :: "vault_collection option"
  pw_loads :: "bool list"
  pw_works :: "vault_work list"
  pw_sent :: "api_call list"

text \<open>A load is marked with whether a work waits for it.\<close>

definition passwords_open :: passwords_page where
  "passwords_open =
     \<lparr>pw_collections_tab = False, pw_status = None, pw_error = None, pw_notice = None, pw_busy = False, pw_dirty = False,
      pw_seats = ([], []), pw_setup = \<lparr>vu_groups = [], vu_users = [], vu_password = []\<rparr>, pw_new = None, pw_rename = None,
      pw_grant = None, pw_delete = None, pw_loads = [False], pw_works = [], pw_sent = []\<rparr>"

text \<open>Groups are written with a percent sign before them, and read without it.\<close>

definition strip_percent :: "string \<Rightarrow> string" where
  "strip_percent p = (case p of [] \<Rightarrow> [] | c # t \<Rightarrow> if c = CHR ''%'' then t else p)"

definition seats_split :: "string \<Rightarrow> string list" where
  "seats_split t = nonempty (map (\<lambda>part. strip_percent (js_trim part)) (split_on (CHR '','') t))"

definition seats_shown :: "vault_status \<Rightarrow> string \<times> string" where
  "seats_shown st = (join_with '', '' (map (\<lambda>g. CHR ''%'' # g) (vs_groups st)), join_with '', '' (vs_users st))"

definition vault_applied :: "vault_status \<Rightarrow> passwords_page \<Rightarrow> passwords_page" where
  "vault_applied st s = (if pw_dirty s then s\<lparr>pw_status := Some st\<rparr> else s\<lparr>pw_status := Some st, pw_seats := seats_shown st\<rparr>)"

definition vault_run :: "vault_work \<Rightarrow> passwords_call \<Rightarrow> passwords_page \<Rightarrow> passwords_page" where
  "vault_run w call s =
     s\<lparr>pw_busy := True, pw_notice := None, pw_works := pw_works s @ [w], pw_sent := pw_sent s @ [Call_passwords call]\<rparr>"

definition vault_ready :: "passwords_page \<Rightarrow> bool" where
  "vault_ready s \<longleftrightarrow> (case pw_status s of None \<Rightarrow> False | Some st \<Rightarrow> vs_ready st)"

definition vault_usable :: "passwords_page \<Rightarrow> bool" where
  "vault_usable s \<longleftrightarrow> (case pw_status s of None \<Rightarrow> False | Some st \<Rightarrow> vs_installed st \<and> vs_ca_ready st)"

definition setup_shown :: "passwords_page \<Rightarrow> bool" where
  "setup_shown s \<longleftrightarrow> (case pw_status s of None \<Rightarrow> False | Some st \<Rightarrow> vs_installed st \<and> \<not> vs_ready st)"

definition seats_body :: "string \<Rightarrow> string \<Rightarrow> jsobj" where
  "seats_body groups users = [(''seat_groups'', strs (seats_split groups)), (''seat_users'', strs (seats_split users))]"

datatype (plugins only: code size) passwords_event =
    VaultLoaded nat "string + vault_status"
  | VaultTimer
  | CollectionsTab bool
  | ApplyNow
  | SetupGroups string
  | SetupUsers string
  | SetupPassword string
  | SetUp
  | SeatGroups string
  | SeatUsers string
  | SaveSeats
  | NewCollection
  | TypeCollection string
  | CreatePressed
  | RenameOpened vault_collection
  | TypeRename string
  | RenamePressed
  | GrantOpened vault_collection
  | EditGrant string bool
  | GrantPressed
  | MayChange string string bool
  | TakeAway string string
  | DeleteOpened vault_collection
  | DeletePressed
  | VaultDialogsClosed
  | WorkDone nat "string + (vault_status option \<times> string)"

text \<open>The end of a work, in the order the code has: what the work itself does after its answer, then the state,
  then the notice. A failure leaves all of it and says why.\<close>

definition work_tail :: "vault_work \<Rightarrow> string \<Rightarrow> passwords_page \<Rightarrow> passwords_page" where
  "work_tail w summary s =
     (case w of
        WorkSetup u \<Rightarrow> s\<lparr>pw_setup := u\<lparr>vu_password := []\<rparr>, pw_notice := Some summary\<rparr>
      | WorkSeats \<Rightarrow> s\<lparr>pw_dirty := False\<rparr>
      | WorkCreate \<Rightarrow> s\<lparr>pw_new := None\<rparr>
      | WorkRename \<Rightarrow> s\<lparr>pw_rename := None\<rparr>
      | WorkGrant \<Rightarrow> s\<lparr>pw_grant := None\<rparr>
      | WorkDelete \<Rightarrow> s\<lparr>pw_delete := None\<rparr>
      | _ \<Rightarrow> s)"

definition work_done :: "vault_work \<Rightarrow> string + (vault_status option \<times> string) \<Rightarrow> passwords_page \<Rightarrow> passwords_page" where
  "work_done w a s =
     (case a of
        Inl msg \<Rightarrow> s\<lparr>pw_error := Some msg, pw_busy := False\<rparr>
      | Inr (None, summary) \<Rightarrow> (let t = work_tail w summary s in t\<lparr>pw_loads := pw_loads t @ [True]\<rparr>)
      | Inr (Some st, summary) \<Rightarrow>
          (let t = vault_applied st (work_tail w summary s)
           in t\<lparr>pw_notice := (if w = WorkSeats then Some ''Saved; the vault is brought in step within a few seconds.'' else pw_notice t),
                pw_error := None, pw_busy := False\<rparr>))"

definition vault_loaded :: "bool \<Rightarrow> string + vault_status \<Rightarrow> passwords_page \<Rightarrow> passwords_page" where
  "vault_loaded awaited a s =
     (let t = (case a of Inl msg \<Rightarrow> s\<lparr>pw_error := Some msg\<rparr> | Inr st \<Rightarrow> (vault_applied st s)\<lparr>pw_error := None\<rparr>)
      in if awaited then t\<lparr>pw_error := None, pw_busy := False\<rparr> else t)"

definition passwords_step :: "passwords_event \<Rightarrow> passwords_page \<Rightarrow> passwords_page" where
  "passwords_step ev s =
     (case ev of
        VaultLoaded i a \<Rightarrow> (if length (pw_loads s) \<le> i then s else vault_loaded (pw_loads s ! i) a s)
      | VaultTimer \<Rightarrow> s\<lparr>pw_loads := pw_loads s @ [False]\<rparr>
      | CollectionsTab b \<Rightarrow> (if vault_ready s then s\<lparr>pw_collections_tab := b\<rparr> else s)
      | ApplyNow \<Rightarrow> (if vault_ready s \<and> \<not> pw_busy s then vault_run WorkApply Pwd_apply s else s)
      | SetupGroups v \<Rightarrow> (if setup_shown s then s\<lparr>pw_setup := (pw_setup s)\<lparr>vu_groups := v\<rparr>\<rparr> else s)
      | SetupUsers v \<Rightarrow> (if setup_shown s then s\<lparr>pw_setup := (pw_setup s)\<lparr>vu_users := v\<rparr>\<rparr> else s)
      | SetupPassword v \<Rightarrow> (if setup_shown s then s\<lparr>pw_setup := (pw_setup s)\<lparr>vu_password := v\<rparr>\<rparr> else s)
      | SetUp \<Rightarrow>
          (if setup_shown s \<and> vault_usable s \<and> \<not> pw_busy s
           then vault_run (WorkSetup (pw_setup s))
                  (Pwd_setup (JObj (seats_body (vu_groups (pw_setup s)) (vu_users (pw_setup s)) @
                                    [(''my_password'', JStr (vu_password (pw_setup s)))]))) s
           else s)
      | SeatGroups v \<Rightarrow>
          (if vault_ready s \<and> \<not> pw_collections_tab s then s\<lparr>pw_dirty := True, pw_seats := (v, snd (pw_seats s))\<rparr> else s)
      | SeatUsers v \<Rightarrow>
          (if vault_ready s \<and> \<not> pw_collections_tab s then s\<lparr>pw_dirty := True, pw_seats := (fst (pw_seats s), v)\<rparr> else s)
      | SaveSeats \<Rightarrow>
          (if vault_ready s \<and> \<not> pw_collections_tab s \<and> \<not> pw_busy s
           then vault_run WorkSeats (Pwd_seats (JObj (seats_body (fst (pw_seats s)) (snd (pw_seats s))))) s else s)
      | NewCollection \<Rightarrow> (if vault_ready s \<and> pw_collections_tab s then s\<lparr>pw_new := Some []\<rparr> else s)
      | TypeCollection v \<Rightarrow> (if pw_new s = None then s else s\<lparr>pw_new := Some v\<rparr>)
      | CreatePressed \<Rightarrow> (case pw_new s of None \<Rightarrow> s | Some n \<Rightarrow> vault_run WorkCreate (Pwd_createCollection n) s)
      | RenameOpened c \<Rightarrow> (if vault_ready s \<and> pw_collections_tab s then s\<lparr>pw_rename := Some (vc_id c, vc_name c)\<rparr> else s)
      | TypeRename v \<Rightarrow> (case pw_rename s of None \<Rightarrow> s | Some (id', _) \<Rightarrow> s\<lparr>pw_rename := Some (id', v)\<rparr>)
      | RenamePressed \<Rightarrow> (case pw_rename s of None \<Rightarrow> s | Some (id', n) \<Rightarrow> vault_run WorkRename (Pwd_renameCollection id' n) s)
      | GrantOpened c \<Rightarrow> (if vault_ready s \<and> pw_collections_tab s then s\<lparr>pw_grant := Some (vc_id c, [], False)\<rparr> else s)
      | EditGrant v b \<Rightarrow> (case pw_grant s of None \<Rightarrow> s | Some (id', _) \<Rightarrow> s\<lparr>pw_grant := Some (id', v, b)\<rparr>)
      | GrantPressed \<Rightarrow>
          (case pw_grant s of None \<Rightarrow> s | Some (id', g, b) \<Rightarrow> vault_run WorkGrant (Pwd_grant id' (strip_percent g) b) s)
      | MayChange id' g b \<Rightarrow>
          (if vault_ready s \<and> pw_collections_tab s \<and> \<not> pw_busy s then vault_run WorkAccess (Pwd_grant id' g (\<not> b)) s else s)
      | TakeAway id' g \<Rightarrow>
          (if vault_ready s \<and> pw_collections_tab s \<and> \<not> pw_busy s then vault_run WorkAccess (Pwd_revoke id' g) s else s)
      | DeleteOpened c \<Rightarrow> (if vault_ready s \<and> pw_collections_tab s then s\<lparr>pw_delete := Some c\<rparr> else s)
      | DeletePressed \<Rightarrow> (case pw_delete s of None \<Rightarrow> s | Some c \<Rightarrow> vault_run WorkDelete (Pwd_removeCollection (vc_id c)) s)
      | VaultDialogsClosed \<Rightarrow> s\<lparr>pw_new := None, pw_rename := None, pw_grant := None, pw_delete := None\<rparr>
      | WorkDone i a \<Rightarrow> (if length (pw_works s) \<le> i then s else work_done (pw_works s ! i) a s))"

section \<open>The second factor\<close>

datatype (plugins only: code size) factor_asking = AskNothing | AskBegin | AskConfirm | AskRemove | AskReload

record factor_dialog =
  fa_state :: "(bool \<times> bool \<times> nat) option"
  fa_setup :: "(string \<times> string) option"
  fa_code :: string
  fa_recovery :: "string list option"
  fa_asking :: factor_asking
  fa_error :: "string option"
  fa_sent :: "api_call list"

text \<open>\<open>fa_asking\<close> is what the dialog is busy with. The state is read when the dialog opens, and again, awaited, after a
  code was confirmed or the factor taken off.\<close>

definition factor_open :: factor_dialog where
  "factor_open = \<lparr>fa_state = None, fa_setup = None, fa_code = [], fa_recovery = None, fa_asking = AskNothing, fa_error = None, fa_sent = []\<rparr>"

datatype (plugins only: code size) factor_screen = ShowRecovery "string list" | ShowSetup string string | ShowEnrolled nat | ShowOffer

definition factor_screen :: "factor_dialog \<Rightarrow> factor_screen" where
  "factor_screen s =
     (case fa_recovery s of
        Some codes \<Rightarrow> ShowRecovery codes
      | None \<Rightarrow>
          (case fa_setup s of
             Some (secret, uri) \<Rightarrow> ShowSetup secret uri
           | None \<Rightarrow> (case fa_state s of Some (True, _, left) \<Rightarrow> ShowEnrolled left | _ \<Rightarrow> ShowOffer)))"

datatype (plugins only: code size) factor_event =
    FactorState bool "string + (bool \<times> bool \<times> nat)"
  | BeginPressed
  | BeginAnswered "string + (string \<times> string)"
  | TypeCode string
  | FinishPressed
  | ConfirmAnswered "string + string list"
  | RemovePressed
  | RemoveAnswered "string option"

definition factor_ask :: "factor_asking \<Rightarrow> auth2fa_call \<Rightarrow> factor_dialog \<Rightarrow> factor_dialog" where
  "factor_ask w call s = s\<lparr>fa_asking := w, fa_error := None, fa_sent := fa_sent s @ [Call_auth2fa call]\<rparr>"

definition factor_step :: "factor_event \<Rightarrow> factor_dialog \<Rightarrow> factor_dialog" where
  "factor_step ev s =
     (case ev of
        FactorState awaited a \<Rightarrow>
          (let t = (case a of Inl msg \<Rightarrow> s\<lparr>fa_error := Some msg\<rparr> | Inr st \<Rightarrow> s\<lparr>fa_state := Some st\<rparr>)
           in if \<not> awaited then t else if fa_asking s = AskReload then t\<lparr>fa_asking := AskNothing\<rparr> else s)
      | BeginPressed \<Rightarrow> (if factor_screen s = ShowOffer \<and> fa_asking s = AskNothing then factor_ask AskBegin Auth_begin s else s)
      | BeginAnswered a \<Rightarrow>
          (if fa_asking s \<noteq> AskBegin then s
           else (case a of
                   Inl msg \<Rightarrow> s\<lparr>fa_error := Some msg, fa_asking := AskNothing\<rparr>
                 | Inr setup \<Rightarrow> s\<lparr>fa_setup := Some setup, fa_asking := AskNothing\<rparr>))
      | TypeCode v \<Rightarrow> (case factor_screen s of ShowSetup _ _ \<Rightarrow> s\<lparr>fa_code := v\<rparr> | ShowEnrolled _ \<Rightarrow> s\<lparr>fa_code := v\<rparr> | _ \<Rightarrow> s)
      | FinishPressed \<Rightarrow>
          (case factor_screen s of
             ShowSetup _ _ \<Rightarrow> (if fa_asking s = AskNothing then factor_ask AskConfirm (Auth_confirm (fa_code s)) s else s)
           | _ \<Rightarrow> s)
      | ConfirmAnswered a \<Rightarrow>
          (if fa_asking s \<noteq> AskConfirm then s
           else (case a of
                   Inl msg \<Rightarrow> s\<lparr>fa_error := Some msg, fa_asking := AskNothing\<rparr>
                 | Inr codes \<Rightarrow> s\<lparr>fa_recovery := Some codes, fa_setup := None, fa_asking := AskReload\<rparr>))
      | RemovePressed \<Rightarrow>
          (case factor_screen s of
             ShowEnrolled _ \<Rightarrow> (if fa_asking s = AskNothing then factor_ask AskRemove (Auth_remove (fa_code s)) s else s)
           | _ \<Rightarrow> s)
      | RemoveAnswered failure \<Rightarrow>
          (if fa_asking s \<noteq> AskRemove then s
           else (case failure of
                   Some msg \<Rightarrow> s\<lparr>fa_error := Some msg, fa_asking := AskNothing\<rparr>
                 | None \<Rightarrow> s\<lparr>fa_code := [], fa_asking := AskReload\<rparr>)))"

subsection \<open>Approval on a phone\<close>

record phone_state =
  ph_available :: bool
  ph_enrolled :: bool
  ph_pending :: bool
  ph_subscribe :: "string option"

datatype (plugins only: code size) phone_screen = PhoneNothing | PhoneUnavailable | PhoneEnrolled | PhonePairing | PhoneOffer

definition phone_screen :: "phone_state option \<Rightarrow> phone_screen" where
  "phone_screen st =
     (case st of
        None \<Rightarrow> PhoneNothing
      | Some p \<Rightarrow>
          (if \<not> ph_available p \<and> \<not> ph_enrolled p \<and> \<not> ph_pending p then PhoneUnavailable
           else if ph_enrolled p then PhoneEnrolled
           else if ph_pending p \<and> (case ph_subscribe p of None \<Rightarrow> False | Some u \<Rightarrow> u \<noteq> []) then PhonePairing
           else PhoneOffer))"

text \<open>Whether the state is read again every two seconds.\<close>

definition phone_polls :: "phone_state option \<Rightarrow> bool" where
  "phone_polls st \<longleftrightarrow> (case st of None \<Rightarrow> False | Some p \<Rightarrow> ph_pending p)"

definition phone_call :: "phone_screen \<Rightarrow> string \<Rightarrow> api_call option" where
  "phone_call screen code =
     (case screen of
        PhoneEnrolled \<Rightarrow> Some (Call_auth2fa (Auth_pushRemove code))
      | PhonePairing \<Rightarrow> Some (Call_auth2fa Auth_pushTest)
      | PhoneOffer \<Rightarrow> Some (Call_auth2fa Auth_pushBegin)
      | _ \<Rightarrow> None)"

section \<open>Enrolment tokens\<close>

record token_form =
  et_label :: string
  et_uses :: jsval
  et_ttl :: jsval
  et_issued :: "(string \<times> string) option"

definition token_open :: token_form where
  "token_open = \<lparr>et_label = [], et_uses = JNum 1, et_ttl = JNum 1440, et_issued = None\<rparr>"

definition token_submit :: "string \<Rightarrow> token_form \<Rightarrow> api_call" where
  "token_submit container f =
     Call_join (Join_createToken (JObj
       [(''label'', JStr (et_label f)), (''container_dn'', JStr container), (''uses_allowed'', et_uses f), (''ttl_minutes'', et_ttl f)]))"

definition token_issued :: "string \<Rightarrow> string \<Rightarrow> token_form \<Rightarrow> token_form" where
  "token_issued token command f = f\<lparr>et_issued := Some (token, command), et_label := []\<rparr>"

section \<open>Properties\<close>

text \<open>Names the fields can carry: those a comma does not cut and trimming does not change, and for a person, that does
  not begin with the mark of a group.\<close>

definition seat_group_ok :: "string \<Rightarrow> bool" where
  "seat_group_ok g \<longleftrightarrow> g \<noteq> [] \<and> clean_piece (CHR ''%'' # g)"

definition seat_user_ok :: "string \<Rightarrow> bool" where
  "seat_user_ok u \<longleftrightarrow> clean_piece u \<and> hd u \<noteq> CHR ''%''"

lemma seats_split_trim: "seats_split t = nonempty (map strip_percent (split_trim t))"
proof -
  have "nonempty (map (strip_percent \<circ> js_trim) ps) = nonempty (map strip_percent (nonempty (map js_trim ps)))" for ps
    by (induction ps) (simp_all add: nonempty_def strip_percent_def)
  then show ?thesis by (simp add: seats_split_def split_trim_def comp_def)
qed

lemma seats_split_groups:
  assumes "list_all seat_group_ok gs"
  shows "seats_split (join_with '', '' (map (\<lambda>g. CHR ''%'' # g) gs)) = gs"
proof -
  have "split_trim (join_with '', '' (map (\<lambda>g. CHR ''%'' # g) gs)) = map (\<lambda>g. CHR ''%'' # g) gs"
    by (rule split_trim_join) (use assms in \<open>auto simp: list_all_iff seat_group_ok_def\<close>)
  moreover have "[] \<notin> set gs" using assms by (auto simp: list_all_iff seat_group_ok_def)
  ultimately show ?thesis by (simp add: seats_split_trim strip_percent_def comp_def nonempty_id)
qed

lemma seats_split_users:
  assumes "list_all seat_user_ok us"
  shows "seats_split (join_with '', '' us) = us"
proof -
  have "split_trim (join_with '', '' us) = us"
    by (rule split_trim_join) (use assms in \<open>auto simp: list_all_iff seat_user_ok_def\<close>)
  moreover have "map strip_percent us = us"
    by (rule map_idI) (use assms in \<open>auto simp: list_all_iff seat_user_ok_def strip_percent_def split: list.split\<close>)
  moreover have "[] \<notin> set us" using assms by (auto simp: list_all_iff seat_user_ok_def clean_piece_def)
  ultimately show ?thesis by (simp add: seats_split_trim nonempty_id)
qed

text \<open>Seats that are saved as they were read are sent as they are stored: the groups lose the percent sign they are
  shown with and nothing else changes.\<close>

theorem untouched_seats_are_saved_as_they_are:
  assumes "list_all seat_group_ok (vs_groups st)" and "list_all seat_user_ok (vs_users st)"
    and "pw_status s = Some st" and "vs_ready st" and "pw_seats s = seats_shown st" and "\<not> pw_collections_tab s" and "\<not> pw_busy s"
  shows "pw_sent (passwords_step SaveSeats s) =
           pw_sent s @ [Call_passwords (Pwd_seats (JObj [(''seat_groups'', strs (vs_groups st)), (''seat_users'', strs (vs_users st))]))]"
  using assms by (simp add: passwords_step_def vault_ready_def vault_run_def seats_body_def seats_shown_def seats_split_groups seats_split_users)

theorem untouched_seats_are_saved_as_they_are_witness:
  "let st = \<lparr>vs_installed = True, vs_ca_ready = True, vs_ready = True, vs_groups = [''Domain Users'', ''Sales''], vs_users = [''ada'', ''sam''],
             vs_collections = []\<rparr>;
       s = passwords_step (VaultLoaded 0 (Inr st)) passwords_open
   in pw_seats s = (''%Domain Users, %Sales'', ''ada, sam'') \<and>
      pw_sent (passwords_step SaveSeats s) =
        [Call_passwords (Pwd_seats (JObj [(''seat_groups'', strs [''Domain Users'', ''Sales'']), (''seat_users'', strs [''ada'', ''sam''])]))]"
proof -
  define st where "st = \<lparr>vs_installed = True, vs_ca_ready = True, vs_ready = True, vs_groups = [''Domain Users'', ''Sales''],
    vs_users = [''ada'', ''sam''], vs_collections = []\<rparr>"
  define s where "s = passwords_step (VaultLoaded 0 (Inr st)) passwords_open"
  have s: "pw_status s = Some st" "pw_seats s = seats_shown st" "\<not> pw_collections_tab s" "\<not> pw_busy s" "pw_sent s = []"
    by (simp_all add: s_def passwords_step_def passwords_open_def vault_loaded_def vault_applied_def)
  have ok: "list_all seat_group_ok (vs_groups st)" "list_all seat_user_ok (vs_users st)" "vs_ready st"
    by (simp_all add: st_def seat_group_ok_def seat_user_ok_def clean_piece_def is_space_def)
  from untouched_seats_are_saved_as_they_are [OF ok(1,2) s(1) ok(3) s(2-4)] s(2,5)
  show ?thesis unfolding Let_def st_def [symmetric] s_def [symmetric] by (simp add: seats_shown_def st_def)
qed



text \<open>What is typed into the seats while they are being saved is lost: the end of the save says that nothing has
  been typed and writes what was stored.\<close>

theorem seats_typed_during_a_save_are_lost:
  assumes "i < length (pw_works s)" and "pw_works s ! i = WorkSeats"
  shows "pw_seats (fold passwords_step (typing @ [WorkDone i (Inr (Some st, summary))]) s) = seats_shown st"
proof -
  have grows: "\<exists>ws. pw_works (passwords_step ev t) = pw_works t @ ws" for ev t
    by (cases ev) (auto simp: passwords_step_def vault_run_def vault_loaded_def vault_applied_def work_done_def work_tail_def Let_def
      split: sum.splits option.splits vault_work.splits)
  have "\<exists>ws. pw_works (fold passwords_step evs t) = pw_works t @ ws" for evs t
  proof (induction evs arbitrary: t)
    case (Cons ev evs)
    obtain ws where "pw_works (fold passwords_step evs (passwords_step ev t)) = pw_works (passwords_step ev t) @ ws" using Cons by blast
    moreover obtain ws' where "pw_works (passwords_step ev t) = pw_works t @ ws'" using grows by blast
    ultimately show ?case by simp
  qed simp
  then obtain ws where "pw_works (fold passwords_step typing s) = pw_works s @ ws" by blast
  with assms show ?thesis
    by (simp add: passwords_step_def work_done_def work_tail_def vault_applied_def nth_append Let_def)
qed

theorem seats_typed_during_a_save_are_lost_witness:
  "let st = \<lparr>vs_installed = True, vs_ca_ready = True, vs_ready = True, vs_groups = [''Sales''], vs_users = [], vs_collections = []\<rparr>;
       s = fold passwords_step [VaultLoaded 0 (Inr st), SaveSeats] passwords_open
   in pw_seats (fold passwords_step ([SeatGroups ''%IT''] @ [WorkDone 0 (Inr (Some st, []))]) s) = (''%Sales'', [])"
proof -
  define st where "st = \<lparr>vs_installed = True, vs_ca_ready = True, vs_ready = True, vs_groups = [''Sales''], vs_users = [], vs_collections = []\<rparr>"
  define s where "s = fold passwords_step [VaultLoaded 0 (Inr st), SaveSeats] passwords_open"
  have "pw_works s = [WorkSeats]"
    by (simp add: s_def st_def passwords_step_def passwords_open_def vault_loaded_def vault_applied_def vault_ready_def vault_run_def)
  then have "0 < length (pw_works s)" "pw_works s ! 0 = WorkSeats" by simp_all
  from seats_typed_during_a_save_are_lost [OF this, of "[SeatGroups ''%IT'']" st "[]"]
  show ?thesis unfolding Let_def st_def [symmetric] s_def [symmetric] by (simp add: seats_shown_def st_def)
qed

text \<open>Pressing the button of a dialog twice before the answer does the work twice: these dialogs are not told that
  the page is busy.\<close>

theorem pressing_twice_makes_two_collections:
  assumes "pw_new s = Some n"
  shows "pw_sent (fold passwords_step [CreatePressed, CreatePressed] s) =
           pw_sent s @ [Call_passwords (Pwd_createCollection n), Call_passwords (Pwd_createCollection n)]"
  using assms by (simp add: passwords_step_def vault_run_def)

text \<open>The reason an action failed is taken down by the next reading of the state.\<close>

theorem failure_lasts_until_the_next_reading:
  assumes "i < length (pw_works s)"
  shows "pw_error (fold passwords_step [WorkDone i (Inl msg), VaultTimer, VaultLoaded (length (pw_loads s)) (Inr st)] s) = None"
  using assms by (simp add: passwords_step_def work_done_def vault_loaded_def vault_applied_def Let_def)

text \<open>Recovery codes, once they are shown, are shown until the dialog is closed: nothing that is pressed or
  answered takes them down, and nothing more is sent.\<close>

theorem recovery_codes_stay_shown:
  assumes "factor_screen s = ShowRecovery codes" and "fa_asking s \<in> {AskNothing, AskReload}"
  shows "factor_screen (fold factor_step evs s) = ShowRecovery codes \<and> fa_sent (fold factor_step evs s) = fa_sent s"
  using assms
proof (induction evs arbitrary: s)
  case (Cons ev evs)
  have "factor_screen (factor_step ev s) = ShowRecovery codes \<and> fa_asking (factor_step ev s) \<in> {AskNothing, AskReload} \<and>
        fa_sent (factor_step ev s) = fa_sent s"
    using Cons.prems by (cases ev) (auto simp: factor_step_def factor_screen_def Let_def split: option.splits sum.splits prod.splits bool.splits)
  with Cons.IH [of "factor_step ev s"] show ?case by simp
qed simp

theorem recovery_codes_stay_shown_witness:
  "let s = fold factor_step [BeginPressed, BeginAnswered (Inr (''JBSW'', ''otpauth'')), TypeCode ''123456'', FinishPressed, ConfirmAnswered (Inr [''a1'', ''b2''])] factor_open
   in factor_screen (fold factor_step [FactorState True (Inr (True, False, 2)), BeginPressed, RemovePressed] s) = ShowRecovery [''a1'', ''b2''] \<and>
      fa_sent (fold factor_step [FactorState True (Inr (True, False, 2)), BeginPressed, RemovePressed] s) = fa_sent s \<and>
      fa_sent s = [Call_auth2fa Auth_begin, Call_auth2fa (Auth_confirm ''123456'')]"
proof -
  define s where "s = fold factor_step [BeginPressed, BeginAnswered (Inr (''JBSW'', ''otpauth'')), TypeCode ''123456'', FinishPressed, ConfirmAnswered (Inr [''a1'', ''b2''])] factor_open"
  have s: "factor_screen s = ShowRecovery [''a1'', ''b2'']" "fa_asking s \<in> {AskNothing, AskReload}"
    "fa_sent s = [Call_auth2fa Auth_begin, Call_auth2fa (Auth_confirm ''123456'')]"
    by (simp_all add: s_def factor_step_def factor_open_def factor_screen_def factor_ask_def)
  from recovery_codes_stay_shown [OF s(1,2)] s(3) show ?thesis
    unfolding Let_def s_def [symmetric] by (simp only: simp_thms)
qed

text \<open>A code is sent to finish only while a secret is shown, and to take the factor off only while one is enrolled.\<close>

theorem codes_are_sent_for_what_is_shown:
  assumes "fa_sent (factor_step ev s) = fa_sent s @ [Call_auth2fa call]"
  shows "case call of
           Auth_confirm code \<Rightarrow> code = fa_code s \<and> (\<exists>secret uri. factor_screen s = ShowSetup secret uri)
         | Auth_remove code \<Rightarrow> code = fa_code s \<and> (\<exists>left. factor_screen s = ShowEnrolled left)
         | _ \<Rightarrow> call = Auth_begin \<and> factor_screen s = ShowOffer"
  using assms by (cases ev) (auto simp: factor_step_def factor_ask_def Let_def split: factor_screen.splits option.splits sum.splits prod.splits if_splits)

text \<open>The phone's state is read again exactly while it has yet to answer, which includes every pairing.\<close>

theorem pairing_is_polled: "phone_screen st = PhonePairing \<Longrightarrow> phone_polls st"
  by (auto simp: phone_screen_def phone_polls_def split: option.splits if_splits)

end
