(* ===== verification/ServerRoles.thy ===== *)
theory ServerRoles
  imports Pickers
begin

text \<open>
  The roles of servers: the page that lists and installs them (\<^verbatim>\<open>pages/Roles.tsx\<close>) and the settings a role takes
  once it is there (\<^verbatim>\<open>components/RoleConfiguration.tsx\<close>). An argument of a role belongs either to its installation
  or to its configuration; both end in the one call that installs, with all the arguments the server is to have.
\<close>

section \<open>The page of roles\<close>

record role_argument =
  ag_name :: string
  ag_kind :: string
  ag_help :: string
  ag_default :: string
  ag_optional :: bool
  ag_configuration :: bool
  ag_choices :: "string list"

record role_descriptor =
  rl_name :: string
  rl_core :: bool
  rl_arguments :: "role_argument list"

record role_instance =
  ri_id :: string
  ri_role :: string
  ri_node :: string
  ri_state :: string
  ri_config :: jsobj
  ri_task_state :: string
  ri_task_started :: "int option"

definition STATE_BADGE :: "(string \<times> string) list" where
  "STATE_BADGE = [(''active'', ''success''), (''failed'', ''failure''), (''installing'', []), (''pending'', []), (''removing'', []), (''removed'', [])]"

definition nodesFor :: "string \<Rightarrow> role_instance list \<Rightarrow> role_instance list" where
  "nodesFor role installed = filter (\<lambda>i. ri_role i = role \<and> ri_state i \<noteq> ''removed'') installed"

definition installing_now :: "role_instance list \<Rightarrow> bool" where
  "installing_now installed \<longleftrightarrow> list_ex (\<lambda>i. ri_state i = ''installing'' \<or> ri_state i = ''removing'') installed"

definition role_servers :: "role_descriptor \<Rightarrow> string list \<Rightarrow> role_instance list \<Rightarrow> string" where
  "role_servers role controllers running =
     (if rl_core role then (if controllers \<noteq> [] then join_with '', '' controllers else ''Every domain controller'')
      else if running = [] then ''Not installed'' else join_with '', '' (map ri_node running))"

definition remove_question :: "role_instance \<Rightarrow> string" where
  "remove_question i =
     (if ri_state i = ''active''
      then ''Remove the '' @ ri_role i @ '' role from '' @ ri_node i @
           ''? Its services stop and its configuration is removed there; its data (vaults, shares, queues) stays on disk.''
      else ''Forget the '' @ ri_role i @ '' role on '' @ ri_node i @ ''?'')"

definition remove_label :: "role_instance \<Rightarrow> string" where
  "remove_label i = (if ri_state i = ''active'' then ''Remove'' else if ri_state i = ''removing'' then ''Removing'' @ [CHR 0xE2, CHR 0x80, CHR 0xA6] else ''Forget'')"

definition remove_pressed :: "bool \<Rightarrow> role_instance \<Rightarrow> api_call option" where
  "remove_pressed confirmed i =
     (if ri_state i = ''removing'' \<or> \<not> confirmed then None else Some (Call_roles (Role_remove (ri_id i))))"

text \<open>How long an installation has run, in milliseconds of the clock.\<close>

definition Progress :: "int \<Rightarrow> role_instance \<Rightarrow> string" where
  "Progress now i =
     (case ri_task_started i of
        Some started \<Rightarrow>
          (if ri_task_state i \<noteq> ''claimed'' then ''Waiting for '' @ ri_node i @ '' to collect it. Is odm-agent running there?''
           else (let minutes = (now - started) div 60000
                 in ''Running on the machine '' @ (if minutes < 1 then ''now'' else ''for '' @ show_int minutes @ '' min'') @
                    ''. It is marked failed if it has not finished within 45.''))
      | None \<Rightarrow> ''Waiting for '' @ ri_node i @ '' to collect it. Is odm-agent running there?'')"

section \<open>Installing one\<close>

record install_form =
  if_node :: string
  if_config :: jsobj

definition install_open :: install_form where
  "install_open = \<lparr>if_node = [], if_config = []\<rparr>"

definition install_fields :: "role_descriptor \<Rightarrow> role_argument list" where
  "install_fields role = filter (\<lambda>a. \<not> ag_configuration a) (rl_arguments role)"

definition argument_shown :: "role_argument \<Rightarrow> string \<Rightarrow> string" where
  "argument_shown a v = (if ag_kind a = ''choice'' then if v \<noteq> [] then v else ag_default a else v)"

datatype (plugins only: code size) install_event =
    InstallNode string
  | InstallArgument string string

definition install_step :: "role_descriptor \<Rightarrow> install_event \<Rightarrow> install_form \<Rightarrow> install_form" where
  "install_step role ev f =
     (case ev of
        InstallNode v \<Rightarrow> f\<lparr>if_node := v\<rparr>
      | InstallArgument k v \<Rightarrow>
          (if k \<in> ag_name ` set (install_fields role) then f\<lparr>if_config := obj_put k (JStr v) (if_config f)\<rparr> else f))"

definition install_submit :: "role_descriptor \<Rightarrow> install_form \<Rightarrow> api_call" where
  "install_submit role f = Call_roles (Role_install (rl_name role) (if_node f) (if_config f))"

text \<open>A server is silent when it is one the domain knows and its agent was never heard from.\<close>

record managed_server =
  ms_fqdn :: string
  ms_last_seen :: "string option"

definition silent_server :: "managed_server list \<Rightarrow> string \<Rightarrow> bool" where
  "silent_server servers node \<longleftrightarrow>
     js_trim node \<noteq> [] \<and>
     (case find (\<lambda>s. to_lower (ms_fqdn s) = to_lower (js_trim node)) servers of None \<Rightarrow> False | Some s \<Rightarrow> ms_last_seen s = None)"

section \<open>Configuring one\<close>

record config_page =
  cf_arguments :: "role_argument list"
  cf_instances :: "role_instance list"
  cf_node :: string
  cf_values :: jsobj
  cf_busy :: bool
  cf_applying :: string
  cf_error :: "string option"
  cf_notice :: "string option"
  cf_sent :: "api_call list"

definition config_open :: config_page where
  "config_open =
     \<lparr>cf_arguments = [], cf_instances = [], cf_node = [], cf_values = [], cf_busy = False, cf_applying = [], cf_error = None, cf_notice = None, cf_sent = []\<rparr>"

definition instance_on :: "role_instance list \<Rightarrow> string \<Rightarrow> role_instance option" where
  "instance_on instances node = find (\<lambda>i. ri_node i = node) instances"

text \<open>The effect on the server chosen and on the instances read: the values are those of that server.\<close>

definition stored_values :: "config_page \<Rightarrow> config_page" where
  "stored_values s = s\<lparr>cf_values := (case instance_on (cf_instances s) (cf_node s) of None \<Rightarrow> [] | Some i \<Rightarrow> ri_config i)\<rparr>"

datatype (plugins only: code size) config_event =
    ConfigRead "string + (role_descriptor list \<times> role_instance list)"
  | ChooseServer string
  | EditArgument string string
  | ApplyPressed
  | ApplyDone "string option"

text \<open>The answer to \<open>ApplyPressed\<close> starts a new reading, after which the form is free again; a reading that fails leaves
  the form as it was.\<close>

definition config_read :: "string \<Rightarrow> role_descriptor list \<times> role_instance list \<Rightarrow> config_page \<Rightarrow> config_page" where
  "config_read role answer s =
     (let (available, installed) = answer;
          running = nodesFor role installed
      in stored_values (s\<lparr>
           cf_arguments := filter ag_configuration (case find (\<lambda>d. rl_name d = role) available of None \<Rightarrow> [] | Some d \<Rightarrow> rl_arguments d),
           cf_instances := running,
           cf_node := (if cf_node s \<noteq> [] then cf_node s else case running of [] \<Rightarrow> [] | i # _ \<Rightarrow> ri_node i)\<rparr>))"

definition config_body :: "config_page \<Rightarrow> jsobj" where
  "config_body s =
     obj_spread (case instance_on (cf_instances s) (cf_node s) of None \<Rightarrow> [] | Some i \<Rightarrow> ri_config i) (cf_values s)"

definition config_step :: "string \<Rightarrow> config_event \<Rightarrow> config_page \<Rightarrow> config_page" where
  "config_step role ev s =
     (case ev of
        ConfigRead a \<Rightarrow> (case a of Inl msg \<Rightarrow> s\<lparr>cf_error := Some msg, cf_busy := False\<rparr> | Inr answer \<Rightarrow> (config_read role answer s)\<lparr>cf_busy := False\<rparr>)
      | ChooseServer n \<Rightarrow> (if n \<in> ri_node ` set (cf_instances s) then stored_values (s\<lparr>cf_node := n\<rparr>) else s)
      | EditArgument k v \<Rightarrow>
          (if cf_instances s \<noteq> [] \<and> k \<in> ag_name ` set (cf_arguments s) then s\<lparr>cf_values := obj_put k (JStr v) (cf_values s)\<rparr> else s)
      | ApplyPressed \<Rightarrow>
          (if cf_instances s = [] \<or> cf_busy s \<or> cf_node s = [] then s
           else s\<lparr>cf_busy := True, cf_applying := cf_node s, cf_error := None, cf_notice := None,
                  cf_sent := cf_sent s @ [Call_roles (Role_install role (cf_node s) (config_body s))]\<rparr>)
      | ApplyDone failure \<Rightarrow>
          (case failure of
             Some msg \<Rightarrow> s\<lparr>cf_error := Some msg, cf_busy := False\<rparr>
           | None \<Rightarrow> s\<lparr>cf_notice := Some (''Applying on '' @ cf_applying s @ ''. The state moves to active when it is done.''), cf_error := None\<rparr>))"

section \<open>Lemmas\<close>

definition edits_of :: "string \<Rightarrow> config_event list \<Rightarrow> bool" where
  "edits_of k evs \<longleftrightarrow> (\<exists>v. EditArgument k v \<in> set evs)"

text \<open>Instances as the control plane gives them: the arguments of each in an object.\<close>

definition instances_ok :: "role_instance list \<Rightarrow> bool" where
  "instances_ok is \<longleftrightarrow> (\<forall>i \<in> set is. distinct (obj_keys (ri_config i)))"

fun reads_ok :: "config_event \<Rightarrow> bool" where
  "reads_ok (ConfigRead (Inr (available, installed))) \<longleftrightarrow> instances_ok installed"
| "reads_ok ev \<longleftrightarrow> True"

definition config_at :: "config_page \<Rightarrow> string \<Rightarrow> jsval" where
  "config_at s k = (case instance_on (cf_instances s) (cf_node s) of None \<Rightarrow> JUndef | Some i \<Rightarrow> obj_get (ri_config i) k)"

text \<open>What holds of a page whose argument \<open>k\<close> has not been edited.\<close>

definition keeps_argument :: "string \<Rightarrow> config_page \<Rightarrow> bool" where
  "keeps_argument k s \<longleftrightarrow> instances_ok (cf_instances s) \<and> distinct (obj_keys (cf_values s)) \<and> obj_get (cf_values s) k = config_at s k"

lemma instance_on_ok: "instances_ok is \<Longrightarrow> instance_on is n = Some i \<Longrightarrow> distinct (obj_keys (ri_config i))"
  by (auto simp: instances_ok_def instance_on_def find_Some_iff)

lemma keeps_stored: "instances_ok (cf_instances s) \<Longrightarrow> keeps_argument k (stored_values s)"
  by (auto simp: keeps_argument_def stored_values_def config_at_def obj_keys_def dest: instance_on_ok split: option.split)

lemma config_body_kept:
  assumes "keeps_argument k s"
  shows "obj_get (config_body s) k = config_at s k"
  using assms by (auto simp: config_body_def keeps_argument_def obj_spread_get config_at_def split: option.splits)

lemma keeps_argument_more [simp]:
  "keeps_argument k (s\<lparr>cf_busy := b\<rparr>) = keeps_argument k s"
  "keeps_argument k (s\<lparr>cf_error := e\<rparr>) = keeps_argument k s"
  "keeps_argument k (s\<lparr>cf_notice := m\<rparr>) = keeps_argument k s"
  "keeps_argument k (s\<lparr>cf_applying := n\<rparr>) = keeps_argument k s"
  "keeps_argument k (s\<lparr>cf_sent := cs\<rparr>) = keeps_argument k s"
  by (simp_all add: keeps_argument_def config_at_def)

lemma keeps_step:
  assumes "keeps_argument k s" and "\<nexists>v. ev = EditArgument k v"
    and "reads_ok ev"
  shows "keeps_argument k (config_step role ev s)"
proof (cases ev)
  case (ConfigRead a)
  have "instances_ok (nodesFor role installed)" if "a = Inr (available, installed)" for available installed
    using assms(3) ConfigRead that by (auto simp: nodesFor_def instances_ok_def)
  with assms(1) ConfigRead show ?thesis
    by (auto simp: config_step_def config_read_def Let_def keeps_stored split: sum.split)
next
  case (ChooseServer n)
  with assms(1) show ?thesis by (auto simp: config_step_def keeps_stored keeps_argument_def [of _ s])
next
  case (EditArgument k' v)
  with assms(2) have "k' \<noteq> k" by blast
  with assms(1) EditArgument show ?thesis
    by (auto simp: config_step_def keeps_argument_def config_at_def obj_put_distinct)
next
  case ApplyPressed
  with assms(1) show ?thesis by (simp add: config_step_def)
next
  case (ApplyDone failure)
  with assms(1) show ?thesis by (cases failure) (simp_all add: config_step_def)
qed

lemma keeps_run:
  assumes "keeps_argument k s" and "\<not> edits_of k evs"
    and "list_all reads_ok evs"
  shows "keeps_argument k (fold (config_step role) evs s)"
  using assms
proof (induction evs arbitrary: s)
  case (Cons ev evs)
  have "keeps_argument k (config_step role ev s)"
    by (rule keeps_step) (use Cons.prems in \<open>auto simp: edits_of_def\<close>)
  moreover have "\<not> edits_of k evs" using Cons.prems(2) by (auto simp: edits_of_def)
  moreover have "list_all reads_ok evs" using Cons.prems(3) by simp
  ultimately show ?case using Cons.IH by simp
qed simp

section \<open>Properties\<close>

text \<open>C16: Applying the configuration of a server leaves every argument that was not edited as the server has it, those of
  its installation included, whatever else was edited, whichever servers were looked at before, and whenever the
  instances were read.\<close>

theorem unedited_arguments_are_kept:
  assumes "\<not> edits_of k evs"
    and "list_all reads_ok evs"
    and "s = fold (config_step role) evs config_open" and "cf_sent (config_step role ApplyPressed s) = cf_sent s @ [call]"
  shows "\<exists>config. call = Call_roles (Role_install role (cf_node s) config) \<and> obj_get config k = config_at s k"
proof -
  have "keeps_argument k config_open"
    by (simp add: keeps_argument_def config_open_def instances_ok_def config_at_def instance_on_def obj_keys_def)
  then have "keeps_argument k s"
    unfolding assms(3) by (rule keeps_run) (use assms(1,2) in auto)
  from config_body_kept [OF this] assms(4) show ?thesis by (auto simp: config_step_def split: if_splits)
qed

theorem unedited_arguments_are_kept_witness:
  "let a = \<lparr>ag_name = ''peer'', ag_kind = ''host'', ag_help = [], ag_default = [], ag_optional = True, ag_configuration = True, ag_choices = []\<rparr>;
       i = \<lparr>ri_id = ''1'', ri_role = ''dhcp'', ri_node = ''dc1'', ri_state = ''active'', ri_config = [(''realm'', JStr ''CORP'')], ri_task_state = [],
            ri_task_started = None\<rparr>;
       evs = [ConfigRead (Inr ([\<lparr>rl_name = ''dhcp'', rl_core = False, rl_arguments = [a]\<rparr>], [i])), EditArgument ''peer'' ''dc2''];
       s = fold (config_step ''dhcp'') evs config_open
   in \<exists>config. hd (cf_sent (config_step ''dhcp'' ApplyPressed s)) = Call_roles (Role_install ''dhcp'' (cf_node s) config) \<and>
        obj_get config ''realm'' = config_at s ''realm'' \<and> config_at s ''realm'' = JStr ''CORP''"
proof -
  define a where "a = \<lparr>ag_name = ''peer'', ag_kind = ''host'', ag_help = [], ag_default = [], ag_optional = True, ag_configuration = True, ag_choices = []\<rparr>"
  define i where "i = \<lparr>ri_id = ''1'', ri_role = ''dhcp'', ri_node = ''dc1'', ri_state = ''active'', ri_config = [(''realm'', JStr ''CORP'')], ri_task_state = [],
            ri_task_started = None\<rparr>"
  define evs where "evs = [ConfigRead (Inr ([\<lparr>rl_name = ''dhcp'', rl_core = False, rl_arguments = [a]\<rparr>], [i])), EditArgument ''peer'' ''dc2'']"
  define s where "s = fold (config_step ''dhcp'') evs config_open"
  have s: "cf_instances s = [i]" "cf_node s = ''dc1''" "cf_busy s = False" "cf_sent s = []"
    by (simp_all add: s_def evs_def config_step_def config_read_def config_open_def nodesFor_def i_def a_def stored_values_def Let_def)
  have no: "\<not> edits_of ''realm'' evs" by (simp add: edits_of_def evs_def)
  have ok: "list_all reads_ok evs"
    by (simp add: evs_def instances_ok_def i_def obj_keys_def)
  obtain call where call: "cf_sent (config_step ''dhcp'' ApplyPressed s) = cf_sent s @ [call]"
    using s by (simp add: config_step_def)
  moreover have "config_at s ''realm'' = JStr ''CORP''" using s by (simp add: config_at_def instance_on_def i_def)
  ultimately show ?thesis
    using unedited_arguments_are_kept [OF no ok s_def call] s(4)
    unfolding Let_def a_def [symmetric] i_def [symmetric] evs_def [symmetric] s_def [symmetric] by simp
qed

text \<open>Installing a role again on a server that has it takes its configuration away: the dialog sends the arguments
  of the installation alone, for any machine it is given, and the control plane stores what is sent.\<close>

theorem installing_again_drops_the_configuration:
  assumes "k \<notin> ag_name ` set (install_fields role)"
    and "install_submit role (fold (install_step role) evs install_open) = Call_roles (Role_install name node config)"
  shows "obj_get config k = JUndef"
proof -
  have "obj_get (if_config (fold (install_step role) es f)) k = obj_get (if_config f) k" for es f
  proof (induction es arbitrary: f)
    case (Cons ev es)
    have "obj_get (if_config (install_step role ev f)) k = obj_get (if_config f) k"
      using assms(1) by (cases ev) (auto simp: install_step_def intro!: obj_get_put_other)
    with Cons show ?case by simp
  qed simp
  with assms(2) show ?thesis by (auto simp: install_submit_def install_open_def)
qed

theorem installing_again_drops_the_configuration_witness:
  "let a = \<lparr>ag_name = ''realm'', ag_kind = ''text'', ag_help = [], ag_default = [], ag_optional = False, ag_configuration = False, ag_choices = []\<rparr>;
       b = \<lparr>ag_name = ''peer'', ag_kind = ''host'', ag_help = [], ag_default = [], ag_optional = True, ag_configuration = True, ag_choices = []\<rparr>;
       role = \<lparr>rl_name = ''dhcp'', rl_core = False, rl_arguments = [a, b]\<rparr>;
       f = fold (install_step role) [InstallNode ''dc1'', InstallArgument ''realm'' ''CORP''] install_open
   in install_submit role f = Call_roles (Role_install ''dhcp'' ''dc1'' (if_config f)) \<and> obj_get (if_config f) ''realm'' = JStr ''CORP'' \<and>
      obj_get (if_config f) ''peer'' = JUndef"
proof -
  define a where "a = \<lparr>ag_name = ''realm'', ag_kind = ''text'', ag_help = [], ag_default = [], ag_optional = False, ag_configuration = False, ag_choices = []\<rparr>"
  define b where "b = \<lparr>ag_name = ''peer'', ag_kind = ''host'', ag_help = [], ag_default = [], ag_optional = True, ag_configuration = True, ag_choices = []\<rparr>"
  define role where "role = \<lparr>rl_name = ''dhcp'', rl_core = False, rl_arguments = [a, b]\<rparr>"
  define evs where "evs = [InstallNode ''dc1'', InstallArgument ''realm'' ''CORP'']"
  define f where "f = fold (install_step role) evs install_open"
  have sent: "install_submit role (fold (install_step role) evs install_open) = Call_roles (Role_install ''dhcp'' ''dc1'' (if_config f))"
    by (simp add: install_submit_def evs_def install_step_def install_open_def role_def a_def b_def install_fields_def f_def)
  have no: "''peer'' \<notin> ag_name ` set (install_fields role)" by (simp add: install_fields_def role_def a_def b_def)
  have realm: "obj_get (if_config f) ''realm'' = JStr ''CORP''"
    by (simp add: f_def evs_def install_step_def install_open_def role_def a_def b_def install_fields_def)
  have "obj_get (if_config f) ''peer'' = JUndef" by (rule installing_again_drops_the_configuration [OF no sent])
  with sent [folded f_def] realm show ?thesis
    unfolding Let_def a_def [symmetric] b_def [symmetric] role_def [symmetric] evs_def [symmetric] f_def [symmetric] by blast
qed

text \<open>What is edited while a configuration is being applied is thrown away when the instances are read again.\<close>

theorem edits_during_an_apply_are_lost:
  assumes "instance_on (nodesFor role installed) (cf_node s) = Some i" and "cf_node s \<noteq> []"
  shows "cf_values (fold (config_step role) [EditArgument k v, ApplyDone None, ConfigRead (Inr (available, installed))] s) = ri_config i"
  using assms by (simp add: config_step_def config_read_def stored_values_def)

text \<open>A server is called silent only when it is in the list and was never heard from.\<close>

theorem silent_server_was_never_heard:
  "silent_server servers node \<Longrightarrow> \<exists>s \<in> set servers. to_lower (ms_fqdn s) = to_lower (js_trim node) \<and> ms_last_seen s = None"
  by (auto simp: silent_server_def find_Some_iff split: option.splits)

end
