(* ===== verification/Certificates.thy ===== *)
theory Certificates
  imports MachineTabs Choices JsNumber
begin

text \<open>
  The certificate authority (\<^verbatim>\<open>pages/Certificates.tsx\<close>): the page with what was issued, the forms that issue, sign and
  trust a certificate and that replace the console's own, and the profiles a certificate is issued under. What
  was issued is read again when the box for revoked ones changes and every answer is taken (\<open>eager_loader\<close>); the
  purposes of a profile are \<open>ticked_boxes\<close>.
\<close>

section \<open>The page\<close>

record issued_certificate =
  ic_serial :: string
  ic_subject :: string
  ic_sans :: "string list"
  ic_revoked :: bool
  ic_private_key :: "string option"

datatype (plugins only: code size) ca_tab = IssuedTab | TrustedTab | ProfilesTab
datatype (plugins only: code size) ca_dialog = IssueOpen | ConsoleOpen | ConsoleRequestOpen | ConsoleUploadOpen | SignOpen

record ca_page =
  ca_status :: "bool option"
  ca_certificates :: "issued_certificate list"
  ca_include_revoked :: bool
  ca_tab :: ca_tab
  ca_dialog :: "ca_dialog option"
  ca_issued :: "issued_certificate option"
  ca_error :: "string option"
  ca_notice :: "string option"
  ca_publish_root :: bool
  ca_loads :: "bool list"
  ca_sent :: "api_call list"

text \<open>\<open>ca_status\<close> is whether there is an authority; a load is marked with whether it asks for the revoked ones. Its answer
  brings the certificates only where there is one; a failure comes before or after the status is read.\<close>

definition ca_load :: "ca_page \<Rightarrow> ca_page" where
  "ca_load s = s\<lparr>ca_error := None, ca_loads := ca_loads s @ [ca_include_revoked s]\<rparr>"

definition ca_open :: ca_page where
  "ca_open =
     ca_load \<lparr>ca_status = None, ca_certificates = [], ca_include_revoked = False, ca_tab = IssuedTab, ca_dialog = None,
       ca_issued = None, ca_error = None, ca_notice = None, ca_publish_root = True, ca_loads = [], ca_sent = []\<rparr>"

datatype (plugins only: code size) ca_event =
    CaAnswered nat "(bool option \<times> string) + issued_certificate list option"
  | PublishRoot bool
  | CreateAuthority
  | PublishPressed
  | Revoke issued_certificate
  | CaActionDone "string option" "string option"
  | ShowRevoked bool
  | CaTab ca_tab
  | CaDialog ca_dialog
  | CaDialogClosed
  | CertificateIssued issued_certificate
  | ConsoleApplied string
  | MaterialClosed
  | CaChanged

definition ca_act :: "ca_call \<Rightarrow> ca_page \<Rightarrow> ca_page" where
  "ca_act call s = s\<lparr>ca_error := None, ca_notice := None, ca_sent := ca_sent s @ [Call_ca call]\<rparr>"

definition there_is_an_authority :: "ca_page \<Rightarrow> bool" where
  "there_is_an_authority s \<longleftrightarrow> ca_status s \<noteq> Some False"

definition ca_step :: "ca_event \<Rightarrow> ca_page \<Rightarrow> ca_page" where
  "ca_step ev s =
     (case ev of
        CaAnswered i a \<Rightarrow>
          (if length (ca_loads s) \<le> i then s
           else (case a of
                   Inl (read, msg) \<Rightarrow> s\<lparr>ca_error := Some msg, ca_status := (if read = None then ca_status s else read)\<rparr>
                 | Inr None \<Rightarrow> s\<lparr>ca_status := Some False\<rparr>
                 | Inr (Some cs) \<Rightarrow> s\<lparr>ca_status := Some True, ca_certificates := cs\<rparr>))
      | PublishRoot b \<Rightarrow> (if ca_status s = Some False then s\<lparr>ca_publish_root := b\<rparr> else s)
      | CreateAuthority \<Rightarrow> (if ca_status s = Some False then ca_act (Ca_initialise None (ca_publish_root s)) s else s)
      | PublishPressed \<Rightarrow> (if there_is_an_authority s then ca_act Ca_publish s else s)
      | Revoke c \<Rightarrow>
          (if there_is_an_authority s \<and> ca_tab s = IssuedTab \<and> c \<in> set (ca_certificates s) \<and> \<not> ic_revoked c
           then ca_act (Ca_revoke (ic_serial c) ''revoked from the console'') s else s)
      | CaActionDone failure message \<Rightarrow>
          (case failure of
             Some msg \<Rightarrow> s\<lparr>ca_error := Some msg\<rparr>
           | None \<Rightarrow> ca_load (case message of None \<Rightarrow> s | Some m \<Rightarrow> s\<lparr>ca_notice := Some m\<rparr>))
      | ShowRevoked b \<Rightarrow>
          (if there_is_an_authority s \<and> ca_tab s = IssuedTab \<and> b \<noteq> ca_include_revoked s then ca_load (s\<lparr>ca_include_revoked := b\<rparr>) else s)
      | CaTab t \<Rightarrow> (if there_is_an_authority s then s\<lparr>ca_tab := t\<rparr> else s)
      | CaDialog d \<Rightarrow> (if there_is_an_authority s \<or> d \<in> {ConsoleRequestOpen, ConsoleUploadOpen} then s\<lparr>ca_dialog := Some d\<rparr> else s)
      | CaDialogClosed \<Rightarrow> s\<lparr>ca_dialog := None\<rparr>
      | CertificateIssued c \<Rightarrow>
          (if ca_dialog s \<in> {Some IssueOpen, Some SignOpen} then ca_load (s\<lparr>ca_dialog := None, ca_issued := Some c\<rparr>) else s)
      | ConsoleApplied m \<Rightarrow>
          (if ca_dialog s \<in> {Some ConsoleOpen, Some ConsoleUploadOpen} then s\<lparr>ca_dialog := None, ca_notice := Some m\<rparr> else s)
      | MaterialClosed \<Rightarrow> s\<lparr>ca_issued := None\<rparr>
      | CaChanged \<Rightarrow> ca_load s)"

section \<open>Issuing and signing\<close>

record certificate_profile =
  ce_name :: string
  ce_description :: string
  ce_purposes :: "string list"
  ce_days :: jsval
  ce_key_size :: jsval

record issue_form =
  iu_common_name :: string
  iu_sans :: string
  iu_profile :: string
  iu_profiles :: "certificate_profile list"
  iu_days :: jsval

definition issue_open :: issue_form where
  "issue_open = \<lparr>iu_common_name = [], iu_sans = [], iu_profile = ''server'', iu_profiles = [], iu_days = JNum 397\<rparr>"

datatype (plugins only: code size) issue_event =
    IssueName string
  | IssueSans string
  | IssueProfiles "certificate_profile list"
  | IssueProfile string
  | IssueDays string

definition issue_step :: "issue_event \<Rightarrow> issue_form \<Rightarrow> issue_form" where
  "issue_step ev f =
     (case ev of
        IssueName v \<Rightarrow> f\<lparr>iu_common_name := v\<rparr>
      | IssueSans v \<Rightarrow> f\<lparr>iu_sans := v\<rparr>
      | IssueProfiles ps \<Rightarrow> f\<lparr>iu_profiles := ps\<rparr>
      | IssueProfile n \<Rightarrow>
          (case find (\<lambda>p. ce_name p = n) (iu_profiles f) of
             None \<Rightarrow> f
           | Some p \<Rightarrow> f\<lparr>iu_profile := n, iu_days := ce_days p\<rparr>)
      | IssueDays v \<Rightarrow> f\<lparr>iu_days := js_Number v\<rparr>)"

definition issue_submit :: "issue_form \<Rightarrow> api_call" where
  "issue_submit f =
     Call_ca (Ca_issue (JObj
       [(''common_name'', JStr (iu_common_name f)), (''sans'', strs (words_of [] (iu_sans f))), (''profile'', JStr (iu_profile f)),
        (''validity_days'', iu_days f)]))"

definition SIGN_PROFILES :: "string list" where
  "SIGN_PROFILES = [''server'', ''client'', ''console'']"

definition sign_submit :: "string \<Rightarrow> string \<Rightarrow> jsval \<Rightarrow> api_call" where
  "sign_submit csr profile days =
     Call_ca (Ca_sign (JObj [(''csr_pem'', JStr csr), (''profile'', JStr profile), (''validity_days'', days)]))"

definition trust_submit :: "string \<Rightarrow> string \<Rightarrow> string \<Rightarrow> api_call" where
  "trust_submit name description pem =
     Call_ca (Ca_trust (JObj [(''name'', JStr name), (''description'', JStr description), (''certificate_pem'', JStr pem)]))"

text \<open>A file chosen to be trusted fills the field it would have been pasted into.\<close>

definition pem_read :: "string \<Rightarrow> string" where
  "pem_read content = js_trim content"

text \<open>What is said of what was issued: the private key only where there is one.\<close>

definition material_shown :: "issued_certificate \<Rightarrow> string list" where
  "material_shown c =
     (case ic_private_key c of
        None \<Rightarrow> [''The key stays wherever the request was made; this is the certificate for it.'']
      | Some key \<Rightarrow> (if key = [] then [''The key stays wherever the request was made; this is the certificate for it.'']
                    else [''Copy both parts now. The private key is not stored and cannot be shown again.'', key]))"

definition other_names :: "issued_certificate \<Rightarrow> string" where
  "other_names c = (if length (ic_sans c) > 1 then join_with '', '' (drop 1 (ic_sans c)) else [])"

subsection \<open>The console's own\<close>

definition console_submit :: "string \<Rightarrow> string \<Rightarrow> jsval \<Rightarrow> api_call" where
  "console_submit common_name sans days =
     Call_ca (Ca_consoleCertificate (JObj
       [(''common_name'', JStr common_name), (''sans'', strs (words_of [] sans)), (''validity_days'', days)]))"

definition console_notice :: "bool \<Rightarrow> string" where
  "console_notice applied =
     (if applied then ''Issued and installed. The console restarts; reload in a few seconds.''
      else ''Issued and staged, but the privileged helper is not installed, so nothing was replaced.'')"

text \<open>The request for another authority: pressed a second time, the dialog closes.\<close>

definition console_request_submit :: "string option \<Rightarrow> string \<Rightarrow> string \<Rightarrow> api_call option" where
  "console_request_submit csr common_name sans =
     (case csr of
        Some _ \<Rightarrow> None
      | None \<Rightarrow> Some (Call_ca (Ca_consoleCertificateRequest (JObj
          [(''common_name'', JStr common_name), (''sans'', strs (words_of [] sans))]))))"

definition console_upload_submit :: "string \<Rightarrow> string \<Rightarrow> api_call" where
  "console_upload_submit certificate key =
     Call_ca (Ca_consoleCertificateUpload (JObj [(''certificate_pem'', JStr certificate), (''private_key_pem'', JStr key)]))"

definition console_upload_notice :: "string list \<Rightarrow> string \<Rightarrow> string \<Rightarrow> string" where
  "console_upload_notice names issuer note_sent = ''Staged for '' @ join_with '', '' names @ '' (issued by '' @ issuer @ ''). '' @ note_sent @ ''.''"

section \<open>Profiles\<close>

record profile_form =
  pr_name :: string
  pr_description :: string
  pr_chosen :: "string list"
  pr_days :: jsval
  pr_key_size :: string

definition profile_open :: "certificate_profile option \<Rightarrow> profile_form" where
  "profile_open existing =
     (case existing of
        None \<Rightarrow> \<lparr>pr_name = [], pr_description = [], pr_chosen = [''server''], pr_days = JNum 397, pr_key_size = ''2048''\<rparr>
      | Some p \<Rightarrow> \<lparr>pr_name = ce_name p, pr_description = ce_description p, pr_chosen = ce_purposes p, pr_days = ce_days p,
                 pr_key_size = to_string (ce_key_size p)\<rparr>)"

definition purpose_click :: "string list \<Rightarrow> string \<Rightarrow> profile_form \<Rightarrow> profile_form" where
  "purpose_click purposes p f =
     (if p \<notin> set purposes then f
      else f\<lparr>pr_chosen := (if p \<in> set (pr_chosen f) then filter (\<lambda>q. q \<noteq> p) (pr_chosen f) else pr_chosen f @ [p])\<rparr>)"

definition KEY_SIZES :: "string list" where
  "KEY_SIZES = [''2048'', ''3072'', ''4096'']"

definition profile_submit :: "profile_form \<Rightarrow> api_call" where
  "profile_submit f =
     Call_ca (Ca_saveProfile (JObj
       [(''name'', JStr (pr_name f)), (''description'', JStr (pr_description f)), (''purposes'', strs (pr_chosen f)),
        (''validity_days'', pr_days f), (''key_size'', js_Number (pr_key_size f))]))"

section \<open>Lemmas\<close>

definition ca_arrival :: "ca_event \<Rightarrow> (nat \<times> issued_certificate list) option" where
  "ca_arrival ev = (case ev of CaAnswered i (Inr (Some cs)) \<Rightarrow> Some (i, cs) | _ \<Rightarrow> None)"

interpretation issued: eager_loader ca_step ca_loads "\<lambda>s. Some (ca_certificates s)" ca_arrival
proof
  fix ev and s :: ca_page
  show "\<exists>ks. ca_loads (ca_step ev s) = ca_loads s @ ks"
    by (cases ev) (auto simp: ca_step_def ca_load_def ca_act_def split: sum.split prod.split option.split)
next
  fix ev i v and s :: ca_page
  assume "ca_arrival ev = Some (i, v)" and "i < length (ca_loads s)"
  then show "Some (ca_certificates (ca_step ev s)) = Some v"
    by (auto simp: ca_arrival_def ca_step_def split: ca_event.splits sum.splits prod.splits option.splits)
next
  fix ev v and s :: ca_page
  assume "Some (ca_certificates (ca_step ev s)) = Some v"
  then show "Some (ca_certificates s) = Some v \<or> (\<exists>i. ca_arrival ev = Some (i, v))"
    by (cases ev) (auto simp: ca_arrival_def ca_step_def ca_load_def ca_act_def split: sum.splits prod.splits option.splits if_splits)
qed

interpretation purpose: ticked_boxes "purpose_click purposes" pr_chosen "\<lambda>p. p \<in> set purposes" for purposes
  by unfold_locales (auto simp: purpose_click_def)

section \<open>Properties\<close>

text \<open>The list can show revoked certificates with the box for them cleared: the answer for the ticked box, coming after
  the one for the cleared box, is taken.\<close>

theorem revoked_certificates_stay_listed:
  assumes "there_is_an_authority s" and "ca_tab s = IssuedTab" and "\<not> ca_include_revoked s"
  shows "let n = length (ca_loads s);
             t = fold ca_step [ShowRevoked True, ShowRevoked False, CaAnswered (n + 1) (Inr (Some shown)), CaAnswered n (Inr (Some everything))] s
         in ca_certificates t = everything \<and> \<not> ca_include_revoked t"
  using assms by (simp add: ca_step_def ca_load_def there_is_an_authority_def Let_def)

text \<open>Only a certificate that was listed, and listed as not revoked, is ever revoked from the page.\<close>

definition certificates_answered :: "ca_event list \<Rightarrow> issued_certificate set" where
  "certificates_answered evs = {c. \<exists>i cs. CaAnswered i (Inr (Some cs)) \<in> set evs \<and> c \<in> set cs}"

theorem only_listed_certificates_are_revoked:
  assumes "Call_ca (Ca_revoke serial reason) \<in> set (ca_sent (fold ca_step evs ca_open))"
  shows "\<exists>c \<in> certificates_answered evs. ic_serial c = serial \<and> \<not> ic_revoked c"
proof -
  have "Call_ca (Ca_revoke serial reason) \<in> set (ca_sent (fold ca_step es s)) \<Longrightarrow> set (ca_certificates s) \<subseteq> R \<Longrightarrow>
      certificates_answered es \<subseteq> R \<Longrightarrow> Call_ca (Ca_revoke serial reason) \<notin> set (ca_sent s) \<Longrightarrow> \<exists>c \<in> R. ic_serial c = serial \<and> \<not> ic_revoked c"
    for es s R
  proof (induction es arbitrary: s)
    case (Cons e es)
    have here: "set cs \<subseteq> R" if "e = CaAnswered i (Inr (Some cs))" for i cs
      using Cons.prems(3) that by (force simp: certificates_answered_def)
    have listed: "set (ca_certificates (ca_step e s)) \<subseteq> R"
      using Cons.prems(2) here by (cases e) (auto simp: ca_step_def ca_load_def ca_act_def split: sum.splits prod.splits option.splits)
    have rest: "certificates_answered es \<subseteq> R" using Cons.prems(3) by (auto simp: certificates_answered_def)
    show ?case
    proof (cases "Call_ca (Ca_revoke serial reason) \<in> set (ca_sent (ca_step e s))")
      case True
      with Cons.prems(2,4) show ?thesis
        by (cases e) (auto simp: ca_step_def ca_load_def ca_act_def split: sum.splits prod.splits option.splits if_splits)
    next
      case False
      from Cons.IH [OF _ listed rest False] Cons.prems(1) show ?thesis by simp
    qed
  qed simp
  from this [OF assms, of "certificates_answered evs"] show ?thesis by (simp add: ca_open_def ca_load_def)
qed

text \<open>The private key of a certificate leaves the console with the dialog that shows it: whatever is listed or issued
  after, it is held by nothing but a certificate issued again with it.\<close>

theorem issued_key_is_gone_when_the_dialog_is:
  assumes "\<not> (\<exists>c. CertificateIssued c \<in> set evs)"
  shows "ca_issued (fold ca_step (MaterialClosed # evs) s) = None"
proof -
  have "ca_issued s = None \<Longrightarrow> ca_issued (fold ca_step evs s) = None" for s
    using assms
  proof (induction evs arbitrary: s)
    case (Cons e es)
    then have "ca_issued (ca_step e s) = None"
      by (cases e) (auto simp: ca_step_def ca_load_def ca_act_def split: sum.splits prod.splits option.splits)
    with Cons show ?case by auto
  qed simp
  from this [of "ca_step MaterialClosed s"] show ?thesis by (simp add: ca_step_def)
qed

text \<open>Additional names, typed with any commas and blanks between them, are sent as they are.\<close>

theorem additional_names_are_sent_as_typed:
  assumes "list_all (\<lambda>n. n \<noteq> [] \<and> list_all (\<lambda>c. \<not> word_break c) n) names" and "list_all word_break sep" and "sep \<noteq> []"
  shows "\<exists>profile days. issue_submit (issue_step (IssueSans (join_with sep names)) f) =
           Call_ca (Ca_issue (JObj [(''common_name'', JStr (iu_common_name f)), (''sans'', strs names), (''profile'', profile), (''validity_days'', days)]))"
proof -
  have "words_of [] (join_with sep names) = names"
    by (rule words_read_back) (use assms in \<open>auto simp: list_all_iff\<close>)
  then show ?thesis by (simp add: issue_submit_def issue_step_def)
qed

theorem additional_names_are_sent_as_typed_witness:
  "\<exists>profile days. issue_submit (issue_step (IssueSans (join_with '', '' [''www.example.org'', ''10.0.0.1''])) issue_open) =
     Call_ca (Ca_issue (JObj [(''common_name'', JStr (iu_common_name issue_open)), (''sans'', strs [''www.example.org'', ''10.0.0.1'']),
                              (''profile'', profile), (''validity_days'', days)]))"
  by (rule additional_names_are_sent_as_typed) (simp_all add: word_break_def is_space_def)

text \<open>A profile is saved with the purposes it had, but for those clicked an odd number of times, each once.\<close>

theorem profile_purposes_are_those_ticked:
  assumes "distinct (pr_chosen (profile_open existing))"
  shows "distinct (pr_chosen (fold (purpose_click purposes) clicks (profile_open existing))) \<and>
         (\<forall>p. p \<in> set (pr_chosen (fold (purpose_click purposes) clicks (profile_open existing))) \<longleftrightarrow>
              (p \<in> set (pr_chosen (profile_open existing))) \<noteq> (p \<in> set purposes \<and> odd (count_list clicks p)))"
  using purpose.distinct_run [OF assms] purpose.chosen_run by blast

text \<open>A request can be signed only under the three profiles that are built in, though the dialog says the profile decides
  exactly as when issuing, where every profile is offered.\<close>

theorem own_profiles_sign_nothing:
  "set SIGN_PROFILES = {''server'', ''client'', ''console''} \<and>
   (ce_name p \<notin> set SIGN_PROFILES \<longrightarrow> iu_profile (fold issue_step [IssueProfiles [p], IssueProfile (ce_name p)] issue_open) \<notin> set SIGN_PROFILES)"
  by (simp add: SIGN_PROFILES_def issue_step_def)

end
