(* ===== verification/Overview.thy ===== *)
theory Overview
  imports Monitoring Pictures
begin

text \<open>
  The overview of the domain (\<^verbatim>\<open>pages/Overview.tsx\<close>): the states of its services as they are told, times and sizes
  in words, backups, the import of a configuration, which is shown before it is done, and the reset of every
  second factor. Times are given as the milliseconds since; the writing of a date is the browser's, a parameter.
\<close>

section \<open>Times and sizes in words\<close>

text \<open>A time ago, as its number and unit; \<open>None\<close> is just now.\<close>

definition ago_shown :: "int \<Rightarrow> (int \<times> string) option" where
  "ago_shown ms =
     (let minutes = js_round (of_int ms / 60000)
      in if minutes < 2 then None
         else if minutes < 90 then Some (minutes, ''minutes'')
         else (let hours = js_round (of_int minutes / 60)
               in if hours < 48 then Some (hours, ''hours'') else Some (js_round (of_int hours / 24), ''days'')))"

definition ago :: "int \<Rightarrow> string" where
  "ago ms = (case ago_shown ms of None \<Rightarrow> ''just now'' | Some (n, unit) \<Rightarrow> show_int n @ '' '' @ unit @ '' ago'')"

definition size_bytes :: "int \<Rightarrow> string" where
  "size_bytes v =
     (if v > 1073741824 then to_fixed 1 (of_int v / 1073741824) @ '' GB''
      else if v > 1048576 then to_fixed 1 (of_int v / 1048576) @ '' MB''
      else show_int v @ '' bytes'')"

definition elapsed :: "int \<Rightarrow> string" where
  "elapsed ms =
     (let seconds = max 0 (ms div 1000)
      in if seconds < 60 then show_int seconds @ '' seconds''
         else (let minutes = seconds div 60 in if minutes = 1 then ''a minute'' else show_int minutes @ '' minutes''))"

section \<open>The services\<close>

datatype (plugins only: code size) service_state = ServiceOk | ServiceAttention | ServiceOff

fun STATE_LABEL :: "service_state \<Rightarrow> string" where
  "STATE_LABEL ServiceOk = ''Healthy''"
| "STATE_LABEL ServiceAttention = ''Needs attention''"
| "STATE_LABEL ServiceOff = ''Not installed''"

record health_report =
  hr_directory :: jsobj
  hr_replication :: jsobj
  hr_dhcp :: jsobj
  hr_certificates :: jsobj
  hr_backups :: jsobj

definition items_of :: "jsval \<Rightarrow> jsval list" where
  "items_of v = (case v of JArr xs \<Rightarrow> xs | _ \<Rightarrow> [])"

definition members_of :: "jsval \<Rightarrow> jsobj" where
  "members_of v = (case v of JObj ps \<Rightarrow> ps | _ \<Rightarrow> [])"

definition count_of :: "jsval \<Rightarrow> int" where
  "count_of v = (case v of JNum n \<Rightarrow> n | _ \<Rightarrow> 0)"

definition DOT :: string where
  "DOT = '' '' @ middle_dot @ '' ''"

definition unless_empty :: "string \<Rightarrow> string \<Rightarrow> string" where
  "unless_empty s t = (if s = [] then t else s)"

definition directory_service :: "jsobj \<Rightarrow> service_state \<times> string" where
  "directory_service d =
     (if obj_get d ''available'' = JBool False
      then (ServiceAttention, to_string (or_else (obj_get d ''detail'') (JStr ''unavailable'')))
      else (ServiceOk, unless_empty (join_with '', '' (map to_string (items_of (obj_get d ''names'')))) em_dash))"

definition replication_service :: "jsobj \<Rightarrow> service_state \<times> string" where
  "replication_service r =
     (if obj_get r ''available'' = JBool False then (ServiceAttention, to_string (or_else (obj_get r ''detail'') (JStr [])))
      else (if obj_get r ''healthy'' = JBool False then ServiceAttention else ServiceOk,
            (let n = length (items_of (obj_get r ''inbound''))
             in if n = 0 then ''One controller. Nothing to replicate.'' else show_nat n @ '' inbound partnerships'')))"

definition dhcp_service :: "jsobj \<Rightarrow> service_state \<times> string" where
  "dhcp_service d =
     (if obj_get d ''configured'' = JBool False then (ServiceOff, ''Add the role under Server Roles to hand out addresses.'')
      else (ServiceOk,
            unless_empty
              (join_with DOT (map (\<lambda>(k, v). k @ '' '' @ to_string v)
                (take 3 (filter (\<lambda>(k, v). js_includes k ''assigned'' \<or> js_includes k ''total'') (members_of (obj_get d ''statistics''))))))
              ''running''))"

definition authority_service :: "(string \<Rightarrow> string) \<Rightarrow> jsobj \<Rightarrow> service_state \<times> string" where
  "authority_service day c =
     (if truthy (obj_get c ''initialised'')
      then (let soon = count_of (obj_get c ''expiring_soon'')
            in (if soon > 0 then ServiceAttention else ServiceOk,
                ''Valid until '' @ (if truthy (obj_get c ''not_after'') then day (to_string (obj_get c ''not_after'')) else em_dash) @
                (if soon > 0 then DOT @ show_int soon @ '' expiring within 30 days'' else [])))
      else (ServiceOff, ''No authority created.''))"

text \<open>\<open>since\<close> gives the milliseconds since a time.\<close>

definition backups_service :: "(string \<Rightarrow> int) \<Rightarrow> jsobj \<Rightarrow> service_state \<times> string" where
  "backups_service since b =
     (let last_one = obj_get b ''last''; every = ''every '' @ to_string (obj_get b ''interval_hours'') @ ''h'';
          attempt = members_of (obj_get b ''last_attempt'')
      in if \<not> truthy (obj_get b ''configured'')
         then (ServiceOff, ''Set ODM_BACKUP_DIR in the secrets file to enable them.'')
         else (if truthy (or_else (obj_get b ''healthy'') (JBool (truthy last_one))) then ServiceOk else ServiceAttention,
               if truthy last_one
               then ''Last '' @ ago (since (to_string (obj_get (members_of last_one) ''started_at''))) @ DOT @
                    size_bytes (count_of (obj_get (members_of last_one) ''size_bytes'')) @ DOT @ every @
                    (if obj_get attempt ''state'' = JStr ''failed''
                     then DOT @ ''the last attempt failed: '' @ to_string (or_else (obj_get attempt ''detail'') (JStr ''no reason given''))
                     else if truthy (obj_get b ''overdue'') then DOT @ ''overdue'' else [])
               else ''No backup has completed yet'' @ DOT @ every))"

definition services :: "(string \<Rightarrow> string) \<Rightarrow> (string \<Rightarrow> int) \<Rightarrow> health_report \<Rightarrow> (string \<times> service_state \<times> string) list" where
  "services day since r =
     [(''Directory'', directory_service (hr_directory r)), (''Replication'', replication_service (hr_replication r)),
      (''DHCP'', dhcp_service (hr_dhcp r)), (''Certificate authority'', authority_service day (hr_certificates r)),
      (''Backups'', backups_service since (hr_backups r))]"

section \<open>Replication and backups\<close>

text \<open>The controller a partnership replicates from: what follows its site.\<close>

definition partner_host :: "string \<Rightarrow> string" where
  "partner_host partner = last (split_on (CHR 0x5C) partner)"

definition replicate_now :: "string \<Rightarrow> string \<Rightarrow> string \<Rightarrow> api_call" where
  "replicate_now server partner naming_context = Call_operations (Ops_replicate server (partner_host partner) naming_context)"

definition follows_backup :: "string list \<Rightarrow> bool" where
  "follows_backup states \<longleftrightarrow> list_ex (\<lambda>st. st = ''running'') states"

definition archive_shown :: "string \<Rightarrow> string" where
  "archive_shown path = (if js_startsWith path ''pending:'' then [] else path)"

section \<open>Importing a configuration\<close>

record import_tab =
  im_summary :: "string option"
  im_document :: string
  im_result :: "string option"
  im_confirm :: string
  im_busy :: bool
  im_error :: "string option"
  im_importing :: bool
  im_reads :: "string list"
  im_sent :: "api_call list"

text \<open>A summary, and a result, is the text the control plane's answer is drawn as. \<open>im_reads\<close> are the documents whose
  summary was asked for, in order.\<close>

definition import_open :: import_tab where
  "import_open =
     \<lparr>im_summary = None, im_document = [], im_result = None, im_confirm = [], im_busy = False, im_error = None, im_importing = False, im_reads = [], im_sent = []\<rparr>"

datatype (plugins only: code size) import_event =
    FileRead string
  | SummaryAnswered nat "string + string"
  | TypeConfirm string
  | ImportPressed
  | ImportAnswered "string + string"

definition import_shown :: "import_tab \<Rightarrow> bool" where
  "import_shown s \<longleftrightarrow> im_summary s \<noteq> None \<and> im_result s = None"

definition import_step :: "import_event \<Rightarrow> import_tab \<Rightarrow> import_tab" where
  "import_step ev s =
     (case ev of
        FileRead content \<Rightarrow>
          s\<lparr>im_error := None, im_result := None, im_confirm := [], im_document := content, im_busy := True, im_reads := im_reads s @ [content],
            im_sent := im_sent s @ [Call_operations (Ops_importDomain content False)]\<rparr>
      | SummaryAnswered i a \<Rightarrow>
          (if length (im_reads s) \<le> i then s
           else (case a of
                   Inl msg \<Rightarrow> s\<lparr>im_summary := None, im_error := Some msg, im_busy := False\<rparr>
                 | Inr summary \<Rightarrow> s\<lparr>im_summary := Some summary, im_busy := False\<rparr>))
      | TypeConfirm v \<Rightarrow> (if import_shown s then s\<lparr>im_confirm := v\<rparr> else s)
      | ImportPressed \<Rightarrow>
          (if import_shown s \<and> im_confirm s = ''import'' \<and> \<not> im_busy s
           then s\<lparr>im_busy := True, im_error := None, im_importing := True,
                  im_sent := im_sent s @ [Call_operations (Ops_importDomain (im_document s) True)]\<rparr> else s)
      | ImportAnswered a \<Rightarrow>
          (if \<not> im_importing s then s
           else (case a of
                   Inl msg \<Rightarrow> s\<lparr>im_error := Some msg, im_busy := False, im_importing := False\<rparr>
                 | Inr r \<Rightarrow> s\<lparr>im_result := Some r, im_busy := False, im_importing := False\<rparr>)))"

section \<open>Every second factor off\<close>

record reset_panel =
  rp_arming :: bool
  rp_busy :: bool
  rp_outcome :: "string option"
  rp_sent :: nat

definition reset_open :: reset_panel where
  "reset_open = \<lparr>rp_arming = False, rp_busy = False, rp_outcome = None, rp_sent = 0\<rparr>"

definition reset_outcome :: "(string \<times> nat) list \<Rightarrow> string" where
  "reset_outcome removed =
     (let parts = map (\<lambda>(m, n). show_nat n @ '' '' @ (if m = ''push'' then ''phone'' else m)) (filter (\<lambda>(m, n). n > 0) removed)
      in if parts \<noteq> [] then ''Removed '' @ join_with '' and '' parts @ '' enrolments.'' else ''Nothing was enrolled.'')"

datatype (plugins only: code size) reset_event =
    Arm
  | Disarm
  | ResetPressed
  | ResetAnswered "string + (string \<times> nat) list"

definition reset_step :: "reset_event \<Rightarrow> reset_panel \<Rightarrow> reset_panel" where
  "reset_step ev s =
     (case ev of
        Arm \<Rightarrow> s\<lparr>rp_arming := True\<rparr>
      | Disarm \<Rightarrow> (if rp_arming s \<and> \<not> rp_busy s then s\<lparr>rp_arming := False\<rparr> else s)
      | ResetPressed \<Rightarrow> (if rp_arming s \<and> \<not> rp_busy s then s\<lparr>rp_busy := True, rp_outcome := None, rp_sent := rp_sent s + 1\<rparr> else s)
      | ResetAnswered a \<Rightarrow>
          (if \<not> rp_busy s then s
           else (case a of
                   Inl msg \<Rightarrow> s\<lparr>rp_outcome := Some msg, rp_busy := False\<rparr>
                 | Inr removed \<Rightarrow> s\<lparr>rp_outcome := Some (reset_outcome removed), rp_arming := False, rp_busy := False\<rparr>)))"

section \<open>The baseline\<close>

definition SEVERITY_LABEL :: "(string \<times> string) list" where
  "SEVERITY_LABEL =
     [(''critical'', ''Needs attention now''), (''warning'', ''Worth looking at''), (''advisory'', ''Worth knowing''), (''ok'', ''Fine''),
      (''unknown'', ''Could not be checked'')]"

definition SEVERITY_BADGE :: "(string \<times> string) list" where
  "SEVERITY_BADGE = [(''critical'', ''failure''), (''warning'', ''failure''), (''advisory'', []), (''ok'', ''success''), (''unknown'', [])]"

definition check_clicked :: "string \<Rightarrow> string set \<Rightarrow> string set" where
  "check_clicked k opened = (if k \<in> opened then opened - {k} else insert k opened)"

section \<open>Properties\<close>

definition unit_ms :: "string \<Rightarrow> int" where
  "unit_ms u = (if u = ''minutes'' then 60000 else if u = ''hours'' then 3600000 else 86400000)"

lemma js_round_close: "\<bar>of_int (js_round x) - x\<bar> \<le> 1 / 2"
  unfolding js_round_def by linarith

text \<open>A time ago is never far from the time: the number shown is at least two, so that its plural is right, and is
  within 53 hundredths of its unit of the time there was; what is just now is less than a minute and a half.\<close>

theorem time_ago_is_close:
  "(case ago_shown ms of
      None \<Rightarrow> ms < 90000
    | Some (n, u) \<Rightarrow> 2 \<le> n \<and> u \<in> {''minutes'', ''hours'', ''days''} \<and> 100 * \<bar>n * unit_ms u - ms\<bar> \<le> 53 * unit_ms u)"
proof -
  define m where "m = js_round (of_int ms / 60000)"
  define h where "h = js_round (of_int m / 60)"
  define d where "d = js_round (of_int h / 24)"
  have "\<bar>of_int m - (of_int ms / 60000 :: rat)\<bar> \<le> 1 / 2" unfolding m_def by (rule js_round_close)
  then have "\<bar>2 * of_int m * 60000 - (2 * of_int ms :: rat)\<bar> \<le> 60000" by (simp add: abs_le_iff field_simps)
  then have "of_int \<bar>2 * m * 60000 - 2 * ms\<bar> \<le> (of_int 60000 :: rat)" by simp
  then have m: "\<bar>2 * m * 60000 - 2 * ms\<bar> \<le> 60000" by (simp only: of_int_le_iff)
  have "\<bar>of_int h - (of_int m / 60 :: rat)\<bar> \<le> 1 / 2" unfolding h_def by (rule js_round_close)
  then have "\<bar>2 * of_int h * 60 - (2 * of_int m :: rat)\<bar> \<le> 60" by (simp add: abs_le_iff field_simps)
  then have "of_int \<bar>2 * h * 60 - 2 * m\<bar> \<le> (of_int 60 :: rat)" by simp
  then have h: "\<bar>2 * h * 60 - 2 * m\<bar> \<le> 60" by (simp only: of_int_le_iff)
  have "\<bar>of_int d - (of_int h / 24 :: rat)\<bar> \<le> 1 / 2" unfolding d_def by (rule js_round_close)
  then have "\<bar>2 * of_int d * 24 - (2 * of_int h :: rat)\<bar> \<le> 24" by (simp add: abs_le_iff field_simps)
  then have "of_int \<bar>2 * d * 24 - 2 * h\<bar> \<le> (of_int 24 :: rat)" by simp
  then have d: "\<bar>2 * d * 24 - 2 * h\<bar> \<le> 24" by (simp only: of_int_le_iff)
  have shown: "ago_shown ms = (if m < 2 then None else if m < 90 then Some (m, ''minutes'') else if h < 48 then Some (h, ''hours'') else Some (d, ''days''))"
    by (simp add: ago_shown_def Let_def m_def h_def d_def)
  consider "m < 2" | "2 \<le> m" "m < 90" | "90 \<le> m" "h < 48" | "90 \<le> m" "48 \<le> h" by linarith
  then show ?thesis
  proof cases
    case 1
    then have "\<lfloor>of_int ms / 60000 + 1 / 2 :: rat\<rfloor> < 2" by (simp add: m_def js_round_def)
    then have "of_int ms / 60000 + 1 / 2 < (2 :: rat)" by (simp add: floor_less_iff)
    then have "of_int ms < (of_int 90000 :: rat)" by simp
    then have "ms < 90000" by (simp only: of_int_less_iff)
    with 1 shown show ?thesis by simp
  next
    case 2
    with m shown show ?thesis by (simp add: unit_ms_def)
  next
    case 3
    then have "(90 :: rat) \<le> of_int m" by simp
    then have "(of_int 2 :: rat) \<le> of_int m / 60 + 1 / 2" by simp
    then have "2 \<le> h" unfolding h_def js_round_def by (simp only: le_floor_iff)
    with 3 m h shown show ?thesis by (simp add: unit_ms_def)
  next
    case 4
    then have "2 \<le> d" using d by linarith
    moreover have "\<bar>d * 86400000 - ms\<bar> \<le> 45792000" using m h d by linarith
    ultimately show ?thesis using 4 shown by (simp add: unit_ms_def)
  qed
qed

text \<open>A run in which one file is read at a time: no other is chosen while something is answered, and each summary, which
  is what the control plane makes of the document, comes once.\<close>

fun one_at_a_time :: "(string \<Rightarrow> string) \<Rightarrow> import_event list \<Rightarrow> import_tab \<Rightarrow> bool" where
  "one_at_a_time summarise [] s \<longleftrightarrow> True"
| "one_at_a_time summarise (ev # evs) s \<longleftrightarrow>
     (case ev of
        FileRead content \<Rightarrow> \<not> im_busy s
      | SummaryAnswered i a \<Rightarrow>
          im_busy s \<and> \<not> im_importing s \<and> Suc i = length (im_reads s) \<and> (case a of Inl msg \<Rightarrow> True | Inr t \<Rightarrow> t = summarise (im_reads s ! i))
      | _ \<Rightarrow> True) \<and> one_at_a_time summarise evs (import_step ev s)"

definition import_ok :: "(string \<Rightarrow> string) \<Rightarrow> import_tab \<Rightarrow> bool" where
  "import_ok summarise s \<longleftrightarrow>
     (im_importing s \<longrightarrow> im_busy s) \<and> (im_reads s \<noteq> [] \<longrightarrow> im_document s = last (im_reads s)) \<and>
     (\<not> im_busy s \<or> im_importing s \<longrightarrow> (\<forall>t. im_summary s = Some t \<longrightarrow> t = summarise (im_document s)))"

lemma import_ok_step:
  assumes "import_ok summarise s" and "one_at_a_time summarise (ev # evs) s"
  shows "import_ok summarise (import_step ev s)"
proof (cases ev)
  case (SummaryAnswered i a)
  with assms(2) have i: "i = length (im_reads s) - 1" "im_reads s \<noteq> []" by auto
  then have "im_reads s ! i = im_document s" using assms(1) by (simp add: import_ok_def last_conv_nth)
  with assms SummaryAnswered show ?thesis by (auto simp: import_ok_def import_step_def split: sum.splits)
qed (use assms in \<open>auto simp: import_ok_def import_step_def import_shown_def split: sum.splits\<close>)

lemma import_ok_run: "import_ok summarise s \<Longrightarrow> one_at_a_time summarise evs s \<Longrightarrow> import_ok summarise (fold import_step evs s)"
proof (induction evs arbitrary: s)
  case (Cons ev evs)
  from import_ok_step [OF Cons.prems] Cons show ?case by simp
qed simp

text \<open>C17: When one file is read at a time, a configuration is imported only after \<open>import\<close> was typed, and it is the one whose
  summary is shown.\<close>

theorem import_is_of_the_summary_shown:
  assumes "one_at_a_time summarise evs import_open" and "s = fold import_step evs import_open" and "import_step ImportPressed s \<noteq> s"
  shows "im_sent (import_step ImportPressed s) = im_sent s @ [Call_operations (Ops_importDomain (im_document s) True)] \<and>
         im_summary s = Some (summarise (im_document s)) \<and> im_confirm s = ''import''"
proof -
  have "import_ok summarise s"
    unfolding assms(2) by (rule import_ok_run [OF _ assms(1)]) (simp add: import_ok_def import_open_def)
  with assms(3) show ?thesis by (auto simp: import_step_def import_shown_def import_ok_def split: if_splits)
qed

theorem import_is_of_the_summary_shown_witness:
  "let evs = [FileRead ''{}'', SummaryAnswered 0 (Inr ''empty''), TypeConfirm ''import'']; s = fold import_step evs import_open
   in im_sent (import_step ImportPressed s) = im_sent s @ [Call_operations (Ops_importDomain (im_document s) True)] \<and>
      im_summary s = Some ''empty'' \<and> im_confirm s = ''import'' \<and> im_document s = ''{}''"
proof -
  define evs where "evs = [FileRead ''{}'', SummaryAnswered 0 (Inr ''empty''), TypeConfirm ''import'']"
  define s where "s = fold import_step evs import_open"
  have run: "one_at_a_time (\<lambda>_. ''empty'') evs import_open"
    by (simp add: evs_def import_step_def import_open_def import_shown_def)
  have s: "im_document s = ''{}''" "im_busy s = False" "im_summary s = Some ''empty''" "im_result s = None" "im_confirm s = ''import''"
    by (simp_all add: s_def evs_def import_step_def import_open_def import_shown_def)
  then have "im_busy (import_step ImportPressed s)" by (simp add: import_step_def import_shown_def)
  with s(2) have "import_step ImportPressed s \<noteq> s" by auto
  from import_is_of_the_summary_shown [OF run s_def this] s(1) show ?thesis
    unfolding Let_def evs_def [symmetric] s_def [symmetric] by blast
qed

text \<open>A configuration can be imported whose summary was never shown: of two files chosen one after the other, the
  summary of the first can be answered last, and what is imported is the second.\<close>

theorem another_file_is_imported_than_shown:
  "let s = fold import_step [FileRead a, FileRead b, SummaryAnswered 1 (Inr (summarise b)), SummaryAnswered 0 (Inr (summarise a)), TypeConfirm ''import''] import_open
   in im_summary s = Some (summarise a) \<and> im_sent (import_step ImportPressed s) = im_sent s @ [Call_operations (Ops_importDomain b True)]"
  by (simp add: import_step_def import_open_def import_shown_def)

text \<open>Nothing is reset that was not armed first.\<close>

theorem reset_needs_arming: "Arm \<notin> set evs \<Longrightarrow> rp_sent (fold reset_step evs reset_open) = 0"
proof -
  have "Arm \<notin> set evs \<Longrightarrow> \<not> rp_arming s \<Longrightarrow> rp_sent (fold reset_step evs s) = rp_sent s" for s
  proof (induction evs arbitrary: s)
    case (Cons ev evs)
    then have "\<not> rp_arming (reset_step ev s) \<and> rp_sent (reset_step ev s) = rp_sent s"
      by (cases ev) (auto simp: reset_step_def split: sum.splits)
    with Cons show ?case by simp
  qed simp
  then show "Arm \<notin> set evs \<Longrightarrow> ?thesis" by (simp add: reset_open_def)
qed

text \<open>The partner asked for is the host of the partnership, whatever site it is in.\<close>

theorem partner_is_the_host: "CHR 0x5C \<notin> set site \<Longrightarrow> CHR 0x5C \<notin> set host \<Longrightarrow> partner_host (site @ CHR 0x5C # host) = host"
  by (simp add: partner_host_def split_append_sep split_no_sep)

end
