(* ===== verification/Controllers.thy ===== *)
theory Controllers
  imports Overview
begin

text \<open>
  The page of the domain controllers (\<^verbatim>\<open>pages/Controllers.tsx\<close>): when each was last heard, replication, how often the
  agents ask for their policy, where new computer accounts go, the commands that add a controller, and the
  sites with their subnets.
\<close>

section \<open>Controllers and replication\<close>

definition since :: "int option \<Rightarrow> string" where
  "since ms = (case ms of None \<Rightarrow> ''never'' | Some d \<Rightarrow> ago d)"

text \<open>What is told of a controller's agent: when it was heard, and how, and when its policy ran.\<close>

definition agent_shown :: "int option \<Rightarrow> string \<Rightarrow> int option \<Rightarrow> string \<times> string option" where
  "agent_shown last_seen how policy_run =
     (since last_seen,
      (if last_seen = None then None
       else Some (how @ (case policy_run of None \<Rightarrow> DOT @ ''policy not applied yet'' | Some d \<Rightarrow> DOT @ ''policy '' @ ago d))))"

text \<open>Why no partnership is listed, by the controllers that have reported.\<close>

definition no_partners :: "string list \<Rightarrow> string" where
  "no_partners servers =
     (if servers = []
      then ''No controller has reported its replication state yet. Each one collects it with its inventory, so it appears at that controller'' @
           [CHR 0x27] @ ''s next check-in.''
      else ''Nothing to replicate: this domain has one controller.'')"

definition partner_on :: "string option \<Rightarrow> string list \<Rightarrow> string" where
  "partner_on where_told servers = (case where_told of Some h \<Rightarrow> h | None \<Rightarrow> (case servers of h # _ \<Rightarrow> h | [] \<Rightarrow> em_dash))"

section \<open>The agents' schedule\<close>

definition POLL_INTERVALS :: "(int \<times> string) list" where
  "POLL_INTERVALS = [(1, ''Every minute''), (5, ''Every 5 minutes''), (15, ''Every 15 minutes''), (30, ''Every 30 minutes'')]"

record agent_schedule =
  sc_poll :: int
  sc_push :: bool

record agents_panel =
  ap_schedule :: "agent_schedule option"
  ap_saving :: bool
  ap_notice :: "string option"
  ap_error :: "string option"
  ap_sent :: "api_call list"

definition agents_open :: agents_panel where
  "agents_open = \<lparr>ap_schedule = None, ap_saving = False, ap_notice = None, ap_error = None, ap_sent = []\<rparr>"

definition schedule_call :: "agent_schedule \<Rightarrow> api_call" where
  "schedule_call sc = Call_controllers (Ctl_setAgents (JObj [(''poll_minutes'', JNum (sc_poll sc)), (''push_enabled'', JBool (sc_push sc))]))"

datatype (plugins only: code size) agents_event =
    ScheduleRead "string + agent_schedule"
  | ChoosePoll int
  | ChoosePush bool
  | ScheduleSaved "string + agent_schedule"

definition agents_save :: "agent_schedule \<Rightarrow> agents_panel \<Rightarrow> agents_panel" where
  "agents_save next s =
     (if ap_saving s then s
      else s\<lparr>ap_saving := True, ap_error := None, ap_notice := None, ap_sent := ap_sent s @ [schedule_call next]\<rparr>)"

definition agents_step :: "agents_event \<Rightarrow> agents_panel \<Rightarrow> agents_panel" where
  "agents_step ev s =
     (case ev of
        ScheduleRead a \<Rightarrow> (case a of Inl msg \<Rightarrow> s\<lparr>ap_error := Some msg\<rparr> | Inr sc \<Rightarrow> s\<lparr>ap_schedule := Some sc\<rparr>)
      | ChoosePoll n \<Rightarrow>
          (case ap_schedule s of
             None \<Rightarrow> s
           | Some sc \<Rightarrow> (if n \<in> fst ` set POLL_INTERVALS then agents_save (sc\<lparr>sc_poll := n\<rparr>) s else s))
      | ChoosePush b \<Rightarrow> (case ap_schedule s of None \<Rightarrow> s | Some sc \<Rightarrow> agents_save (sc\<lparr>sc_push := b\<rparr>) s)
      | ScheduleSaved a \<Rightarrow>
          (if \<not> ap_saving s then s
           else (case a of
                   Inl msg \<Rightarrow> s\<lparr>ap_error := Some msg, ap_saving := False\<rparr>
                 | Inr sc \<Rightarrow> s\<lparr>ap_schedule := Some sc, ap_notice := Some ''Saved. Each machine picks this up at its next poll.'', ap_saving := False\<rparr>)))"

section \<open>Where new computers go\<close>

record new_computers =
  nc_stored :: "string option"
  nc_draft :: string
  nc_saving :: bool
  nc_notice :: "string option"
  nc_error :: "string option"
  nc_sent :: "api_call list"

definition new_computers_open :: new_computers where
  "new_computers_open = \<lparr>nc_stored = None, nc_draft = [], nc_saving = False, nc_notice = None, nc_error = None, nc_sent = []\<rparr>"

definition nc_dirty :: "new_computers \<Rightarrow> bool" where
  "nc_dirty s \<longleftrightarrow> (case nc_stored s of None \<Rightarrow> False | Some c \<Rightarrow> js_trim (nc_draft s) \<noteq> c)"

datatype (plugins only: code size) new_computers_event =
    JoinRead "string + string"
  | TypeContainer string
  | SaveContainer
  | DiscardContainer
  | ContainerSaved "string + string"

definition new_computers_step :: "new_computers_event \<Rightarrow> new_computers \<Rightarrow> new_computers" where
  "new_computers_step ev s =
     (case ev of
        JoinRead a \<Rightarrow> (case a of Inl msg \<Rightarrow> s\<lparr>nc_error := Some msg\<rparr> | Inr c \<Rightarrow> s\<lparr>nc_stored := Some c, nc_draft := c\<rparr>)
      | TypeContainer v \<Rightarrow> (if nc_stored s = None then s else s\<lparr>nc_draft := v\<rparr>)
      | SaveContainer \<Rightarrow>
          (if nc_dirty s \<and> \<not> nc_saving s
           then s\<lparr>nc_saving := True, nc_error := None, nc_notice := None,
                  nc_sent := nc_sent s @ [Call_controllers (Ctl_setJoinSettings (JObj [(''default_computer_container'', JStr (js_trim (nc_draft s)))]))]\<rparr>
           else s)
      | DiscardContainer \<Rightarrow>
          (case nc_stored s of None \<Rightarrow> s | Some c \<Rightarrow> (if nc_dirty s \<and> \<not> nc_saving s then s\<lparr>nc_draft := c\<rparr> else s))
      | ContainerSaved a \<Rightarrow>
          (if \<not> nc_saving s then s
           else (case a of
                   Inl msg \<Rightarrow> s\<lparr>nc_error := Some msg, nc_saving := False\<rparr>
                 | Inr c \<Rightarrow> s\<lparr>nc_stored := Some c, nc_draft := c, nc_saving := False,
                              nc_notice := Some ''Saved. Machines that join without naming their own container pick this up.''\<rparr>)))"

section \<open>Adding a controller\<close>

record add_controller =
  ad_hostname :: string
  ad_sites :: "string list"
  ad_read_only :: bool
  ad_site :: string
  ad_command :: "string list option"
  ad_error :: "string option"

definition DEFAULT_SITE :: string where
  "DEFAULT_SITE = ''Default-First-Site-Name''"

definition add_open :: add_controller where
  "add_open = \<lparr>ad_hostname = [], ad_sites = [], ad_read_only = False, ad_site = DEFAULT_SITE, ad_command = None, ad_error = None\<rparr>"

definition sites_offered :: "add_controller \<Rightarrow> string list" where
  "sites_offered f = (if ad_sites f \<noteq> [] then ad_sites f else [DEFAULT_SITE])"

datatype (plugins only: code size) add_event =
    AddHostname string
  | AddSites "string list option"
  | AddSite string
  | AddReadOnly bool
  | AddAnswered "string + string list"

definition add_step :: "add_event \<Rightarrow> add_controller \<Rightarrow> add_controller" where
  "add_step ev f =
     (case ev of
        AddHostname v \<Rightarrow> f\<lparr>ad_hostname := v\<rparr>
      | AddSites a \<Rightarrow> f\<lparr>ad_sites := (case a of None \<Rightarrow> [] | Some ns \<Rightarrow> ns)\<rparr>
      | AddSite n \<Rightarrow> (if n \<in> set (sites_offered f) then f\<lparr>ad_site := n\<rparr> else f)
      | AddReadOnly b \<Rightarrow> f\<lparr>ad_read_only := b\<rparr>
      | AddAnswered a \<Rightarrow> (case a of Inl msg \<Rightarrow> f\<lparr>ad_error := Some msg\<rparr> | Inr steps \<Rightarrow> f\<lparr>ad_command := Some steps\<rparr>))"

definition add_submit :: "add_controller \<Rightarrow> api_call option" where
  "add_submit f =
     (case ad_command f of
        Some _ \<Rightarrow> None
      | None \<Rightarrow> Some (Call_controllers (Ctl_joinCommand (ad_hostname f) (ad_read_only f) (ad_site f))))"

section \<open>Sites\<close>

definition site_create :: "string \<Rightarrow> string \<Rightarrow> api_call" where
  "site_create v description = Call_sites (Site_create (js_trim v) description)"

definition subnet_add :: "string \<Rightarrow> string \<Rightarrow> string \<Rightarrow> api_call" where
  "subnet_add site v description = Call_sites (Site_addSubnet (js_trim v) site description)"

definition overlap_notice :: "string \<Rightarrow> string list \<Rightarrow> string option" where
  "overlap_notice cidr overlaps =
     (if overlaps \<noteq> [] then Some (cidr @ '' overlaps '' @ join_with '', '' overlaps @ ''. The more specific one decides.'') else None)"

definition unplaced_notice :: "nat \<Rightarrow> string option" where
  "unplaced_notice n =
     (if n = 0 then None
      else Some (show_nat n @ '' '' @ (if n = 1 then ''machine is'' else ''machines are'') @ '' in no site: their addresses match no subnet.''))"

section \<open>Properties\<close>

text \<open>Each change of the schedule is of one setting: what is sent is the schedule last read or saved with that setting
  changed and the other as it was, the interval is one of those offered, and no change is sent while one is being
  saved.\<close>

theorem schedule_changes_one_setting:
  assumes "ap_sent (agents_step ev s) = ap_sent s @ [call]"
  shows "\<not> ap_saving s \<and>
         (\<exists>sc. ap_schedule s = Some sc \<and>
            ((\<exists>n \<in> fst ` set POLL_INTERVALS. ev = ChoosePoll n \<and> call = schedule_call (sc\<lparr>sc_poll := n\<rparr>)) \<or>
             (\<exists>b. ev = ChoosePush b \<and> call = schedule_call (sc\<lparr>sc_push := b\<rparr>))))"
  using assms by (cases ev) (auto simp: agents_step_def agents_save_def split: option.splits sum.splits if_splits)

theorem schedule_changes_one_setting_witness:
  "let sc = \<lparr>sc_poll = 15, sc_push = True\<rparr>; s = agents_step (ScheduleRead (Inr sc)) agents_open
   in \<not> ap_saving s \<and>
      (\<exists>q. ap_schedule s = Some q \<and>
         ((\<exists>n \<in> fst ` set POLL_INTERVALS. ChoosePoll 5 = ChoosePoll n \<and> schedule_call (sc\<lparr>sc_poll := 5\<rparr>) = schedule_call (q\<lparr>sc_poll := n\<rparr>)) \<or>
          (\<exists>b. ChoosePoll 5 = ChoosePush b \<and> schedule_call (sc\<lparr>sc_poll := 5\<rparr>) = schedule_call (q\<lparr>sc_push := b\<rparr>))))"
proof -
  define sc where "sc = \<lparr>sc_poll = 15, sc_push = True\<rparr>"
  define s where "s = agents_step (ScheduleRead (Inr sc)) agents_open"
  have "ap_sent (agents_step (ChoosePoll 5) s) = ap_sent s @ [schedule_call (sc\<lparr>sc_poll := 5\<rparr>)]"
    by (simp add: s_def agents_step_def agents_open_def agents_save_def POLL_INTERVALS_def)
  from schedule_changes_one_setting [OF this] show ?thesis unfolding Let_def sc_def [symmetric] s_def [symmetric] .
qed

text \<open>What is typed for the container while it is saved is overwritten by the answer.\<close>

theorem container_typed_during_a_save_is_lost:
  assumes "nc_saving s" and "nc_stored s = Some old"
  shows "nc_draft (fold new_computers_step [TypeContainer v, ContainerSaved (Inr c)] s) = c"
  using assms by (simp add: new_computers_step_def)

text \<open>A container is sent only when it differs from the one stored, and without the blanks around it.\<close>

theorem container_sent_is_a_change:
  assumes "nc_sent (new_computers_step ev s) = nc_sent s @ [call]"
  shows "\<exists>c. nc_stored s = Some c \<and> js_trim (nc_draft s) \<noteq> c \<and>
             call = Call_controllers (Ctl_setJoinSettings (JObj [(''default_computer_container'', JStr (js_trim (nc_draft s)))]))"
  using assms by (cases ev) (auto simp: new_computers_step_def nc_dirty_def split: option.splits sum.splits if_splits)

text \<open>A controller is asked for in a site that need not be among those offered: the form starts with the default one,
  also where the domain has no site of that name.\<close>

theorem site_asked_for_need_not_exist:
  assumes "DEFAULT_SITE \<notin> set ns" and "ns \<noteq> []"
  shows "let f = fold add_step [AddSites (Some ns), AddHostname h] add_open
         in add_submit f = Some (Call_controllers (Ctl_joinCommand h False DEFAULT_SITE)) \<and> DEFAULT_SITE \<notin> set (sites_offered f)"
  using assms by (simp add: add_step_def add_open_def add_submit_def sites_offered_def Let_def)

end
