(* ===== verification/Templates.thy ===== *)
theory Templates
  imports Policy Loaders
begin

text \<open>
  Administrative templates: the settings a policy object takes from imported ADMX files
  (\<^verbatim>\<open>components/AdmxEditor.tsx\<close>), each element with the control of its type, the picker of further settings, and the
  import itself (\<^verbatim>\<open>components/TemplateManager.tsx\<close>). The picker's list takes every answer that comes
  (\<open>eager_loader\<close>).
\<close>

section \<open>One element\<close>

datatype (plugins only: code size) admx_kind = AdmxBoolean | AdmxEnum | AdmxList | AdmxMultiText | AdmxDecimal | AdmxText

record admx_element =
  el_id :: string
  el_kind :: admx_kind
  el_items :: "(jsval \<times> string) list"
  el_minimum :: "int option"
  el_maximum :: "int option"

text \<open>What its control shows, and what typing or choosing gives. A box is the text \<open>true\<close> or \<open>false\<close>.\<close>

definition element_shown :: "admx_element \<Rightarrow> jsval \<Rightarrow> string" where
  "element_shown el v =
     (case el_kind el of
        AdmxBoolean \<Rightarrow> (if truthy v then ''true'' else ''false'')
      | AdmxList \<Rightarrow> (case v of JArr vs \<Rightarrow> join_with [CHR 0x0A] (map join_item vs) | _ \<Rightarrow> to_string (or_else v (JStr [])))
      | _ \<Rightarrow> to_string (or_else v (JStr [])))"

definition lines_of :: "string \<Rightarrow> string list" where
  "lines_of t = nonempty (map js_trim (split_on (CHR 0x0A) t))"

definition element_typed :: "admx_element \<Rightarrow> string \<Rightarrow> jsval" where
  "element_typed el t =
     (case el_kind el of
        AdmxBoolean \<Rightarrow> JBool (t = ''true'')
      | AdmxEnum \<Rightarrow> (case find (\<lambda>(v, l). to_string v = t) (el_items el) of None \<Rightarrow> JStr t | Some (v, l) \<Rightarrow> v)
      | AdmxList \<Rightarrow> strs (lines_of t)
      | AdmxDecimal \<Rightarrow> (if t = [] then JNull else js_Number t)
      | _ \<Rightarrow> JStr t)"

definition element_hint :: "admx_element \<Rightarrow> string option" where
  "element_hint el =
     (case el_kind el of
        AdmxList \<Rightarrow> Some ''One entry per line''
      | AdmxDecimal \<Rightarrow>
          (if el_minimum el = None \<and> el_maximum el = None then None
           else Some (''Between '' @ show_int (case el_minimum el of None \<Rightarrow> 0 | Some n \<Rightarrow> n) @ '' and '' @
                      (case el_maximum el of None \<Rightarrow> [CHR 0xE2, CHR 0x88, CHR 0x9E] | Some n \<Rightarrow> show_int n)))
      | _ \<Rightarrow> None)"

section \<open>The settings taken\<close>

record admx_selection =
  ax_policy :: string
  ax_state :: string
  ax_values :: jsobj

datatype (plugins only: code size) admx_event =
    AdmxState nat string
  | AdmxValue nat admx_element string
  | AdmxRemove nat
  | AdmxPick string

definition admx_update :: "nat \<Rightarrow> (admx_selection \<Rightarrow> admx_selection) \<Rightarrow> admx_selection list \<Rightarrow> admx_selection list" where
  "admx_update i f ss = (if i < length ss then ss[i := f (ss ! i)] else ss)"

definition admx_chosen :: "admx_selection list \<Rightarrow> string set" where
  "admx_chosen ss = ax_policy ` set ss"

text \<open>A value is changed while its setting is enabled; a setting already taken cannot be picked.\<close>

definition admx_step :: "admx_event \<Rightarrow> admx_selection list \<Rightarrow> admx_selection list" where
  "admx_step ev ss =
     (case ev of
        AdmxState i st \<Rightarrow> (if st \<in> {''enabled'', ''disabled''} then admx_update i (\<lambda>s. s\<lparr>ax_state := st\<rparr>) ss else ss)
      | AdmxValue i el t \<Rightarrow>
          admx_update i (\<lambda>s. if ax_state s = ''enabled'' then s\<lparr>ax_values := obj_put (el_id el) (element_typed el t) (ax_values s)\<rparr> else s) ss
      | AdmxRemove i \<Rightarrow> take i ss @ drop (i + 1) ss
      | AdmxPick p \<Rightarrow> (if p \<in> admx_chosen ss then ss else ss @ [\<lparr>ax_policy = p, ax_state = ''enabled'', ax_values = []\<rparr>]))"

section \<open>The picker\<close>

record policy_picker =
  pp_query :: string
  pp_category :: string
  pp_applicable_only :: bool
  pp_policies :: "(string \<times> string) list"
  pp_error :: "string option"
  pp_timer :: bool
  pp_loads :: "(string \<times> string \<times> bool) list"

definition policy_picker_open :: policy_picker where
  "policy_picker_open =
     \<lparr>pp_query = [], pp_category = [], pp_applicable_only = True, pp_policies = [], pp_error = None, pp_timer = True, pp_loads = []\<rparr>"

datatype (plugins only: code size) policy_picker_event =
    PolicyQuery string
  | PolicyCategory string
  | PolicyApplicable bool
  | PolicyTimer
  | PoliciesFound nat "string + (string \<times> string) list"

definition policy_picker_step :: "policy_picker_event \<Rightarrow> policy_picker \<Rightarrow> policy_picker" where
  "policy_picker_step ev s =
     (case ev of
        PolicyQuery q \<Rightarrow> (if q = pp_query s then s else s\<lparr>pp_query := q, pp_timer := True\<rparr>)
      | PolicyCategory c \<Rightarrow> (if c = pp_category s then s else s\<lparr>pp_category := c, pp_timer := True\<rparr>)
      | PolicyApplicable b \<Rightarrow> (if b = pp_applicable_only s then s else s\<lparr>pp_applicable_only := b, pp_timer := True\<rparr>)
      | PolicyTimer \<Rightarrow>
          (if pp_timer s then s\<lparr>pp_timer := False, pp_loads := pp_loads s @ [(pp_query s, pp_category s, pp_applicable_only s)]\<rparr> else s)
      | PoliciesFound i a \<Rightarrow>
          (if length (pp_loads s) \<le> i then s
           else (case a of Inl msg \<Rightarrow> s\<lparr>pp_error := Some msg\<rparr> | Inr ps \<Rightarrow> s\<lparr>pp_policies := ps\<rparr>)))"

definition policies_call :: "string \<times> string \<times> bool \<Rightarrow> api_call" where
  "policies_call = (\<lambda>(q, c, b). Call_admx (Admx_policies (Some q) (if c = [] then None else Some c) (Some b)))"

text \<open>A setting with the label of its category, where the category is known.\<close>

definition grouped :: "(string \<times> string) list \<Rightarrow> (string \<times> string) list \<Rightarrow> (string \<times> string) list" where
  "grouped categories ps = map (\<lambda>(p, c). (p, case map_of (rev categories) c of None \<Rightarrow> c | Some l \<Rightarrow> l)) ps"

section \<open>Importing\<close>

record template_form =
  tm_admx :: "(string \<times> string) option"
  tm_adml :: "string option"
  tm_busy :: bool
  tm_error :: "string option"
  tm_imported :: "string option"

text \<open>The files as their base-64 texts, the first with its name.\<close>

definition template_submit :: "template_form \<Rightarrow> template_form \<times> api_call option" where
  "template_submit f =
     (case tm_admx f of
        None \<Rightarrow> (f, None)
      | Some (name, admx) \<Rightarrow> (f\<lparr>tm_busy := True, tm_error := None, tm_imported := None\<rparr>, Some (Call_admx (Admx_upload name admx (tm_adml f)))))"

definition template_done :: "string + (string \<times> nat \<times> nat) \<Rightarrow> template_form \<Rightarrow> template_form" where
  "template_done a f =
     (case a of
        Inl msg \<Rightarrow> f\<lparr>tm_error := Some msg, tm_busy := False\<rparr>
      | Inr (ns, settings, applicable) \<Rightarrow>
          f\<lparr>tm_imported := Some (ns @ '': '' @ show_nat settings @ '' settings, '' @ show_nat applicable @ '' applicable on Debian''),
            tm_admx := None, tm_adml := None, tm_busy := False\<rparr>)"

section \<open>Lemmas\<close>

definition found_policies :: "policy_picker_event \<Rightarrow> (nat \<times> (string \<times> string) list) option" where
  "found_policies ev = (case ev of PoliciesFound i (Inr ps) \<Rightarrow> Some (i, ps) | _ \<Rightarrow> None)"

interpretation policies: eager_loader policy_picker_step pp_loads "\<lambda>s. Some (pp_policies s)" found_policies
proof
  fix ev and s :: policy_picker
  show "\<exists>ks. pp_loads (policy_picker_step ev s) = pp_loads s @ ks"
    by (cases ev) (auto simp: policy_picker_step_def split: sum.split)
next
  fix ev i v and s :: policy_picker
  assume "found_policies ev = Some (i, v)" and "i < length (pp_loads s)"
  then show "Some (pp_policies (policy_picker_step ev s)) = Some v"
    by (auto simp: found_policies_def policy_picker_step_def split: policy_picker_event.splits sum.splits)
next
  fix ev v and s :: policy_picker
  assume "Some (pp_policies (policy_picker_step ev s)) = Some v"
  then show "Some (pp_policies s) = Some v \<or> (\<exists>i. found_policies ev = Some (i, v))"
    by (cases ev) (auto simp: found_policies_def policy_picker_step_def split: sum.splits if_splits)
qed

lemma distinct_without: "distinct ys \<Longrightarrow> distinct (take i ys @ drop (Suc i) ys)"
  by (simp add: set_take_disj_set_drop_if_distinct)

lemma map_update_same: "(\<And>x. f (g x) = f x) \<Longrightarrow> i < length xs \<Longrightarrow> map f (xs[i := g (xs ! i)]) = map f xs"
  by (simp add: map_update list_update_same_conv)

lemma policy_update: "(\<And>s. ax_policy (f s) = ax_policy s) \<Longrightarrow> map ax_policy (admx_update i f ss) = map ax_policy ss"
  by (simp add: admx_update_def map_update_same)

lemma admx_step_distinct:
  assumes "distinct (map ax_policy ss)"
  shows "distinct (map ax_policy (admx_step ev ss))"
proof (cases ev)
  case (AdmxRemove i)
  with distinct_without [OF assms, of i] show ?thesis by (simp add: admx_step_def take_map drop_map)
next
  case (AdmxPick p)
  with assms show ?thesis by (auto simp: admx_step_def admx_chosen_def)
qed (use assms in \<open>simp_all add: admx_step_def policy_update\<close>)

lemma items_joined [simp]: "map (join_item \<circ> JStr) ls = ls"
  by (rule map_idI) (simp add: join_item_def)

lemma lines_of_join:
  assumes "list_all (\<lambda>l. l \<noteq> [] \<and> CHR 0x0A \<notin> set l \<and> js_trim l = l) ls"
  shows "lines_of (join_with [CHR 0x0A] ls) = ls"
proof (cases "ls = []")
  case True
  then show ?thesis by (simp add: lines_of_def nonempty_def js_trim_def)
next
  case False
  then have "split_on (CHR 0x0A) (join_with [CHR 0x0A] ls) = ls"
    by (rule split_join) (use assms in \<open>auto simp: list_all_iff\<close>)
  moreover have "map js_trim ls = ls" by (rule map_idI) (use assms in \<open>auto simp: list_all_iff\<close>)
  moreover have "[] \<notin> set ls" using assms by (auto simp: list_all_iff)
  ultimately show ?thesis by (simp add: lines_of_def nonempty_id)
qed

section \<open>Properties\<close>

text \<open>The values an element's control can hold.\<close>

definition element_value :: "admx_element \<Rightarrow> jsval \<Rightarrow> bool" where
  "element_value el v =
     (case el_kind el of
        AdmxBoolean \<Rightarrow> (case v of JBool b \<Rightarrow> True | _ \<Rightarrow> False)
      | AdmxEnum \<Rightarrow> v \<in> fst ` set (el_items el) \<and> distinct (map (to_string \<circ> fst) (el_items el)) \<and> \<not> nullish v
      | AdmxList \<Rightarrow>
          (case v of
             JArr vs \<Rightarrow> list_all (\<lambda>x. case x of JStr l \<Rightarrow> l \<noteq> [] \<and> CHR 0x0A \<notin> set l \<and> js_trim l = l | _ \<Rightarrow> False) vs
           | _ \<Rightarrow> False)
      | AdmxDecimal \<Rightarrow> (case v of JNull \<Rightarrow> True | JNum n \<Rightarrow> True | _ \<Rightarrow> False)
      | _ \<Rightarrow> (case v of JStr s \<Rightarrow> True | _ \<Rightarrow> False))"



text \<open>A setting of a template is configured at most once in an object: whatever is picked, changed and removed, each
  occurs once, as it did before.\<close>

theorem template_settings_occur_once: "distinct (map ax_policy ss) \<Longrightarrow> distinct (map ax_policy (fold admx_step evs ss))"
  by (induction evs arbitrary: ss) (simp_all add: admx_step_distinct)

theorem template_settings_occur_once_witness:
  "distinct (map ax_policy (fold admx_step [AdmxPick ''a'', AdmxPick ''b'', AdmxPick ''a'', AdmxState 0 ''disabled'', AdmxRemove 1] []))"
  by (rule template_settings_occur_once) simp

text \<open>A line break typed at the end of a list is gone at once.\<close>

theorem typed_line_break_vanishes:
  assumes "el_kind el = AdmxList" and "list_all (\<lambda>l. l \<noteq> [] \<and> CHR 0x0A \<notin> set l \<and> js_trim l = l) ls" and "ls \<noteq> []"
  shows "element_shown el (element_typed el (join_with [CHR 0x0A] ls @ [CHR 0x0A])) = join_with [CHR 0x0A] ls"
proof -
  have "split_on (CHR 0x0A) (join_with [CHR 0x0A] ls @ [CHR 0x0A]) = ls @ [[]]"
  proof -
    have "join_with [CHR 0x0A] (ls @ [[]]) = join_with [CHR 0x0A] ls @ [CHR 0x0A]"
      using assms(3) by (induction "[CHR 0x0A]" ls rule: join_with.induct) simp_all
    moreover have "split_on (CHR 0x0A) (join_with [CHR 0x0A] (ls @ [[]])) = ls @ [[]]"
      by (rule split_join) (use assms(2) in \<open>auto simp: list_all_iff\<close>)
    ultimately show ?thesis by simp
  qed
  moreover have "map js_trim ls = ls" by (rule map_idI) (use assms(2) in \<open>auto simp: list_all_iff\<close>)
  moreover have "nonempty (ls @ [[]]) = ls" using assms(2) by (auto simp: nonempty_def list_all_iff intro!: filter_True)
  ultimately have "lines_of (join_with [CHR 0x0A] ls @ [CHR 0x0A]) = ls" by (simp add: lines_of_def js_trim_def)
  with assms(1) show ?thesis by (simp add: element_typed_def element_shown_def strs_eq items_joined)
qed

text \<open>Two items written alike are one to the control: choosing the second gives the value of the first.\<close>

theorem items_written_alike_are_one:
  assumes "el_kind el = AdmxEnum" and "el_items el = [(JNum 1, l), (JStr ''1'', l')]"
  shows "element_typed el (element_shown el (JStr ''1'')) = JNum 1"
proof -
  have "to_string (JNum 1) = ''1''" by code_simp
  with assms show ?thesis by (simp add: element_typed_def element_shown_def or_else_def)
qed

end
