(* ===== verification/History.thy ===== *)
theory History
  imports Policy Loaders
begin

text \<open>
  What was done and what results: deleted objects and their restoring (\<^verbatim>\<open>pages/RecycleBin.tsx\<close>), the audit log
  (\<^verbatim>\<open>pages/Audit.tsx\<close>), and the resultant set of policy of an object with the modelling of a link
  (\<^verbatim>\<open>components/RsopDialog.tsx\<close>). All three read what they show whenever a filter or the object changes, and take
  every answer that comes: \<open>eager_loader\<close>.
\<close>

section \<open>Deleted objects\<close>

record deleted_object =
  do_id :: string
  do_type :: string
  do_dn :: string
  do_name :: string
  do_parent :: string
  do_restored :: bool

record bin_page =
  rb_items :: "deleted_object list"
  rb_query :: string
  rb_restored :: bool
  rb_confirming :: "(deleted_object \<times> bool) option"
  rb_container :: string
  rb_error :: "string option"
  rb_notice :: "string option"
  rb_timer :: bool
  rb_loads :: "(string \<times> bool) list"
  rb_sent :: "api_call list"

definition bin_open :: bin_page where
  "bin_open =
     \<lparr>rb_items = [], rb_query = [], rb_restored = False, rb_confirming = None, rb_container = [], rb_error = None, rb_notice = None,
      rb_timer = True, rb_loads = [], rb_sent = []\<rparr>"

definition bin_load :: "bin_page \<Rightarrow> bin_page" where
  "bin_load s = s\<lparr>rb_error := None, rb_loads := rb_loads s @ [(rb_query s, rb_restored s)]\<rparr>"

definition bin_call :: "string \<times> bool \<Rightarrow> api_call" where
  "bin_call = (\<lambda>(q, b). Call_recyclebin (Bin_list (Some q) None (Some b)))"

text \<open>An object is restored into the container of the form, or into none that is named when the field was emptied.\<close>

definition act_call :: "deleted_object \<Rightarrow> bool \<Rightarrow> string \<Rightarrow> api_call" where
  "act_call item purge container =
     Call_recyclebin (if purge then Bin_purge (do_id item) else Bin_restore (do_id item) (if container \<noteq> [] then Some container else None))"

definition act_notice :: "deleted_object \<Rightarrow> bool \<Rightarrow> string" where
  "act_notice item purge =
     (if purge then ''Purged '' @ do_dn item @ ''.''
      else if do_type item = ''gpo''
      then ''Restored '' @ do_name item @ '' with its settings and links; machines pick it up at their next refresh.''
      else ''Restored '' @ do_dn item @
           ''. It has a new SID, so re-grant any access that named the old one; accounts come back disabled.'')"

datatype (plugins only: code size) bin_event =
    BinQuery string
  | BinRestored bool
  | BinTimer
  | BinChanged
  | BinAnswered nat "string + deleted_object list"
  | RestorePressed deleted_object
  | PurgePressed deleted_object
  | BinContainer string
  | BinClosed
  | BinConfirmed
  | BinActed deleted_object bool "string option"

definition bin_step :: "bin_event \<Rightarrow> bin_page \<Rightarrow> bin_page" where
  "bin_step ev s =
     (case ev of
        BinQuery q \<Rightarrow> (if q = rb_query s then s else s\<lparr>rb_query := q, rb_timer := True\<rparr>)
      | BinRestored b \<Rightarrow> (if b = rb_restored s then s else s\<lparr>rb_restored := b, rb_timer := True\<rparr>)
      | BinTimer \<Rightarrow> (if rb_timer s then bin_load (s\<lparr>rb_timer := False\<rparr>) else s)
      | BinChanged \<Rightarrow> bin_load s
      | BinAnswered i a \<Rightarrow>
          (if length (rb_loads s) \<le> i then s
           else (case a of Inl msg \<Rightarrow> s\<lparr>rb_error := Some msg\<rparr> | Inr items \<Rightarrow> s\<lparr>rb_items := items\<rparr>))
      | RestorePressed item \<Rightarrow>
          (if item \<in> set (rb_items s) \<and> \<not> do_restored item
           then s\<lparr>rb_container := do_parent item, rb_confirming := Some (item, False)\<rparr> else s)
      | PurgePressed item \<Rightarrow> (if item \<in> set (rb_items s) then s\<lparr>rb_confirming := Some (item, True)\<rparr> else s)
      | BinContainer v \<Rightarrow>
          (case rb_confirming s of
             Some (item, False) \<Rightarrow> (if do_type item \<noteq> ''gpo'' then s\<lparr>rb_container := v\<rparr> else s)
           | _ \<Rightarrow> s)
      | BinClosed \<Rightarrow> s\<lparr>rb_confirming := None\<rparr>
      | BinConfirmed \<Rightarrow>
          (case rb_confirming s of
             None \<Rightarrow> s
           | Some (item, purge) \<Rightarrow>
               s\<lparr>rb_error := None, rb_notice := None, rb_sent := rb_sent s @ [act_call item purge (rb_container s)]\<rparr>)
      | BinActed item purge failure \<Rightarrow>
          (case failure of
             Some msg \<Rightarrow> s\<lparr>rb_error := Some msg\<rparr>
           | None \<Rightarrow> bin_load (s\<lparr>rb_notice := Some (act_notice item purge), rb_confirming := None\<rparr>)))"

section \<open>The audit log\<close>

definition OUTCOMES :: "string list" where
  "OUTCOMES = [[], ''success'', ''denied'', ''failure'']"

record audit_filters =
  au_actor :: string
  au_action :: string
  au_object :: string
  au_outcome :: string

record audit_page =
  ag_entries :: "(string \<times> string) list"
  ag_actions :: "string list"
  ag_filters :: audit_filters
  ag_expanded :: "string option"
  ag_error :: "string option"
  ag_loading :: bool
  ag_timer :: bool
  ag_loads :: "audit_filters list"

text \<open>An entry is its id and what it says.\<close>

definition audit_open :: audit_page where
  "audit_open =
     \<lparr>ag_entries = [], ag_actions = [], ag_filters = \<lparr>au_actor = [], au_action = [], au_object = [], au_outcome = []\<rparr>, ag_expanded = None,
      ag_error = None, ag_loading = True, ag_timer = True, ag_loads = []\<rparr>"

definition audit_call :: "audit_filters \<Rightarrow> api_call" where
  "audit_call f =
     Call_audit (Aud_list
       [(''actor'', JStr (au_actor f)), (''action'', JStr (au_action f)), (''object_dn'', JStr (au_object f)), (''outcome'', JStr (au_outcome f)),
        (''limit'', JNum 200)])"

datatype (plugins only: code size) audit_event =
    AuditActor string
  | AuditAction string
  | AuditObject string
  | AuditOutcome string
  | AuditActions "string list"
  | AuditTimer
  | AuditAnswered nat "string + (string \<times> string) list"
  | AuditClicked string

definition audit_step :: "audit_event \<Rightarrow> audit_page \<Rightarrow> audit_page" where
  "audit_step ev s =
     (case ev of
        AuditActor v \<Rightarrow> s\<lparr>ag_filters := (ag_filters s)\<lparr>au_actor := v\<rparr>, ag_timer := True\<rparr>
      | AuditAction v \<Rightarrow> s\<lparr>ag_filters := (ag_filters s)\<lparr>au_action := v\<rparr>, ag_timer := True\<rparr>
      | AuditObject v \<Rightarrow> s\<lparr>ag_filters := (ag_filters s)\<lparr>au_object := v\<rparr>, ag_timer := True\<rparr>
      | AuditOutcome v \<Rightarrow> (if v \<in> set OUTCOMES then s\<lparr>ag_filters := (ag_filters s)\<lparr>au_outcome := v\<rparr>, ag_timer := True\<rparr> else s)
      | AuditActions as \<Rightarrow> s\<lparr>ag_actions := as\<rparr>
      | AuditTimer \<Rightarrow>
          (if ag_timer s then s\<lparr>ag_timer := False, ag_error := None, ag_loading := True, ag_loads := ag_loads s @ [ag_filters s]\<rparr> else s)
      | AuditAnswered i a \<Rightarrow>
          (if length (ag_loads s) \<le> i then s
           else (case a of
                   Inl msg \<Rightarrow> s\<lparr>ag_error := Some msg, ag_loading := False\<rparr>
                 | Inr es \<Rightarrow> s\<lparr>ag_entries := es, ag_loading := False\<rparr>))
      | AuditClicked id' \<Rightarrow> s\<lparr>ag_expanded := (if ag_expanded s = Some id' then None else Some id')\<rparr>)"

section \<open>Resultant policy\<close>

record rsop =
  rs_dn :: string
  rs_policy :: "string option"
  rs_error :: "string option"
  rs_loads :: "string list"

text \<open>The policy as the text it is drawn as; \<open>rs_loads\<close> are the objects it was asked for.\<close>

definition rsop_open :: "string \<Rightarrow> rsop" where
  "rsop_open dn = \<lparr>rs_dn = dn, rs_policy = None, rs_error = None, rs_loads = [dn]\<rparr>"

datatype (plugins only: code size) rsop_event =
    RsopObject string
  | RsopAnswered nat "string + string"

definition rsop_step :: "rsop_event \<Rightarrow> rsop \<Rightarrow> rsop" where
  "rsop_step ev s =
     (case ev of
        RsopObject dn \<Rightarrow> (if dn = rs_dn s then s else s\<lparr>rs_dn := dn, rs_loads := rs_loads s @ [dn]\<rparr>)
      | RsopAnswered i a \<Rightarrow>
          (if length (rs_loads s) \<le> i then s
           else (case a of Inl msg \<Rightarrow> s\<lparr>rs_error := Some msg\<rparr> | Inr p \<Rightarrow> s\<lparr>rs_policy := Some p\<rparr>)))"

definition report_currency :: "string \<Rightarrow> string option \<Rightarrow> string" where
  "report_currency reported serial = (if serial = Some reported then ''current'' else ''out of date'')"

text \<open>The containers a link can be modelled at: what is left of the name after each comma.\<close>

definition rsop_chain :: "string \<Rightarrow> string list" where
  "rsop_chain dn = (let parts = split_on (CHR '','') dn in map (\<lambda>i. join_with '','' (drop i parts)) [1..<length parts])"

definition model_call :: "string \<Rightarrow> string \<Rightarrow> string \<Rightarrow> bool \<Rightarrow> api_call option" where
  "model_call dn guid target busy =
     (if guid = [] \<or> target = [] \<or> busy then None
      else Some (Call_policy (Pol_model (JObj
        [(''dn'', JStr dn), (''add'', JArr [JObj [(''gpo_guid'', JStr guid), (''target_dn'', JStr target)]])]))))"

section \<open>Lemmas\<close>

definition bin_arrival :: "bin_event \<Rightarrow> (nat \<times> deleted_object list) option" where
  "bin_arrival ev = (case ev of BinAnswered i (Inr items) \<Rightarrow> Some (i, items) | _ \<Rightarrow> None)"

interpretation bin: eager_loader bin_step rb_loads "\<lambda>s. Some (rb_items s)" bin_arrival
proof
  fix ev and s :: bin_page
  show "\<exists>ks. rb_loads (bin_step ev s) = rb_loads s @ ks"
    by (cases ev) (auto simp: bin_step_def bin_load_def split: sum.split option.split bool.split)
next
  fix ev i v and s :: bin_page
  assume "bin_arrival ev = Some (i, v)" and "i < length (rb_loads s)"
  then show "Some (rb_items (bin_step ev s)) = Some v"
    by (auto simp: bin_arrival_def bin_step_def split: bin_event.splits sum.splits)
next
  fix ev v and s :: bin_page
  assume "Some (rb_items (bin_step ev s)) = Some v"
  then show "Some (rb_items s) = Some v \<or> (\<exists>i. bin_arrival ev = Some (i, v))"
    by (cases ev) (auto simp: bin_arrival_def bin_step_def bin_load_def split: sum.splits option.splits if_splits bool.splits)
qed

definition audit_arrival :: "audit_event \<Rightarrow> (nat \<times> (string \<times> string) list) option" where
  "audit_arrival ev = (case ev of AuditAnswered i (Inr es) \<Rightarrow> Some (i, es) | _ \<Rightarrow> None)"

interpretation audit: eager_loader audit_step ag_loads "\<lambda>s. Some (ag_entries s)" audit_arrival
proof
  fix ev and s :: audit_page
  show "\<exists>ks. ag_loads (audit_step ev s) = ag_loads s @ ks"
    by (cases ev) (auto simp: audit_step_def split: sum.split)
next
  fix ev i v and s :: audit_page
  assume "audit_arrival ev = Some (i, v)" and "i < length (ag_loads s)"
  then show "Some (ag_entries (audit_step ev s)) = Some v"
    by (auto simp: audit_arrival_def audit_step_def split: audit_event.splits sum.splits)
next
  fix ev v and s :: audit_page
  assume "Some (ag_entries (audit_step ev s)) = Some v"
  then show "Some (ag_entries s) = Some v \<or> (\<exists>i. audit_arrival ev = Some (i, v))"
    by (cases ev) (auto simp: audit_arrival_def audit_step_def split: sum.splits if_splits)
qed

definition rsop_arrival :: "rsop_event \<Rightarrow> (nat \<times> string) option" where
  "rsop_arrival ev = (case ev of RsopAnswered i (Inr p) \<Rightarrow> Some (i, p) | _ \<Rightarrow> None)"

interpretation rsop: eager_loader rsop_step rs_loads rs_policy rsop_arrival
proof
  fix ev and s :: rsop
  show "\<exists>ks. rs_loads (rsop_step ev s) = rs_loads s @ ks"
    by (cases ev) (auto simp: rsop_step_def split: sum.split)
next
  fix ev i v and s :: rsop
  assume "rsop_arrival ev = Some (i, v)" and "i < length (rs_loads s)"
  then show "rs_policy (rsop_step ev s) = Some v"
    by (auto simp: rsop_arrival_def rsop_step_def split: rsop_event.splits sum.splits)
next
  fix ev v and s :: rsop
  assume "rs_policy (rsop_step ev s) = Some v"
  then show "rs_policy s = Some v \<or> (\<exists>i. rsop_arrival ev = Some (i, v))"
    by (cases ev) (auto simp: rsop_arrival_def rsop_step_def split: sum.splits if_splits)
qed

section \<open>Properties\<close>

definition objects_answered :: "bin_event list \<Rightarrow> deleted_object set" where
  "objects_answered evs = {x. \<exists>i items. BinAnswered i (Inr items) \<in> set evs \<and> x \<in> set items}"

text \<open>What is asked of the control plane about an object: it was listed, and its button was pressed; it is restored only
  when it was listed as not restored.\<close>

definition asked_for :: "bin_event list \<Rightarrow> deleted_object \<Rightarrow> bool \<Rightarrow> bool" where
  "asked_for evs item purge \<longleftrightarrow>
     item \<in> objects_answered evs \<and> (if purge then PurgePressed item \<in> set evs else RestorePressed item \<in> set evs \<and> \<not> do_restored item)"

lemma asked_for_more: "asked_for evs item purge \<Longrightarrow> set evs \<subseteq> set evs' \<Longrightarrow> asked_for evs' item purge"
  unfolding asked_for_def objects_answered_def by (auto split: if_splits)

definition bin_ok :: "bin_event list \<Rightarrow> bin_page \<Rightarrow> bool" where
  "bin_ok evs s \<longleftrightarrow>
     set (rb_items s) \<subseteq> objects_answered evs \<and> (case rb_confirming s of None \<Rightarrow> True | Some (item, purge) \<Rightarrow> asked_for evs item purge) \<and>
     (\<forall>call \<in> set (rb_sent s). \<exists>item purge c. asked_for evs item purge \<and> call = act_call item purge c)"

lemma bin_ok_step:
  assumes "bin_ok all s" and "ev \<in> set all"
  shows "bin_ok all (bin_step ev s)"
proof (cases ev)
  case (BinAnswered i a)
  with assms show ?thesis by (auto simp: bin_ok_def bin_step_def objects_answered_def split: sum.splits)
next
  case (RestorePressed item)
  with assms show ?thesis by (auto simp: bin_ok_def bin_step_def asked_for_def)
next
  case (PurgePressed item)
  with assms show ?thesis by (auto simp: bin_ok_def bin_step_def asked_for_def)
next
  case (BinContainer v)
  with assms show ?thesis by (auto simp: bin_ok_def bin_step_def split: option.splits prod.splits bool.splits)
next
  case BinConfirmed
  with assms show ?thesis by (auto simp: bin_ok_def bin_step_def split: option.splits)
next
  case (BinActed item purge failure)
  with assms show ?thesis by (cases failure) (simp_all add: bin_ok_def bin_step_def bin_load_def)
qed (use assms in \<open>auto simp: bin_ok_def bin_step_def bin_load_def\<close>)

text \<open>C18: Nothing is restored or purged that was not listed and chosen: every call is about an object that was answered as
  deleted, whose button was pressed, and one that is restored was not restored yet.\<close>

theorem only_chosen_objects_are_restored_or_purged:
  assumes "call \<in> set (rb_sent (fold bin_step evs bin_open))"
  shows "\<exists>item \<in> objects_answered evs.
           (PurgePressed item \<in> set evs \<and> call = Call_recyclebin (Bin_purge (do_id item))) \<or>
           (RestorePressed item \<in> set evs \<and> \<not> do_restored item \<and> (\<exists>c. call = Call_recyclebin (Bin_restore (do_id item) c)))"
proof -
  have "bin_ok all s \<Longrightarrow> set es \<subseteq> set all \<Longrightarrow> bin_ok all (fold bin_step es s)" for all es s
    by (induction es arbitrary: s) (simp_all add: bin_ok_step)
  from this [of evs bin_open evs] have "bin_ok evs (fold bin_step evs bin_open)"
    by (simp add: bin_ok_def bin_open_def)
  with assms obtain item purge c where "asked_for evs item purge" "call = act_call item purge c" by (auto simp: bin_ok_def)
  then show ?thesis by (cases purge) (auto simp: asked_for_def act_call_def)
qed

theorem only_chosen_objects_are_restored_or_purged_witness:
  "let x = \<lparr>do_id = ''7'', do_type = ''user'', do_dn = ''CN=ada'', do_name = ''ada'', do_parent = ''OU=staff'', do_restored = False\<rparr>;
       evs = [BinTimer, BinAnswered 0 (Inr [x]), RestorePressed x, BinConfirmed];
       call = Call_recyclebin (Bin_restore ''7'' (Some ''OU=staff''))
   in call \<in> set (rb_sent (fold bin_step evs bin_open)) \<and>
      (\<exists>item \<in> objects_answered evs.
         (PurgePressed item \<in> set evs \<and> call = Call_recyclebin (Bin_purge (do_id item))) \<or>
         (RestorePressed item \<in> set evs \<and> \<not> do_restored item \<and> (\<exists>c. call = Call_recyclebin (Bin_restore (do_id item) c))))"
proof -
  define x where "x = \<lparr>do_id = ''7'', do_type = ''user'', do_dn = ''CN=ada'', do_name = ''ada'', do_parent = ''OU=staff'', do_restored = False\<rparr>"
  define evs where "evs = [BinTimer, BinAnswered 0 (Inr [x]), RestorePressed x, BinConfirmed]"
  define call where "call = Call_recyclebin (Bin_restore ''7'' (Some ''OU=staff''))"
  have "call \<in> set (rb_sent (fold bin_step evs bin_open))"
    by (simp add: call_def evs_def x_def bin_step_def bin_open_def bin_load_def act_call_def)
  with only_chosen_objects_are_restored_or_purged [OF this] show ?thesis
    unfolding Let_def x_def [symmetric] evs_def [symmetric] call_def [symmetric] by blast
qed

text \<open>An object goes back to where it came from, unless another container is chosen for it: whatever else happens while
  the dialog is open.\<close>

theorem restored_where_it_came_from:
  assumes "item \<in> set (rb_items s)" and "\<not> do_restored item" and "do_parent item \<noteq> []"
    and "\<not> (\<exists>ev \<in> set evs. (\<exists>v. ev = BinContainer v) \<or> (\<exists>x. ev = RestorePressed x \<or> ev = PurgePressed x))"
    and "t = fold bin_step (RestorePressed item # evs) s" and "rb_confirming t \<noteq> None"
  shows "rb_sent (bin_step BinConfirmed t) = rb_sent t @ [Call_recyclebin (Bin_restore (do_id item) (Some (do_parent item)))]"
proof -
  have keep: "rb_container (fold bin_step es u) = rb_container u \<and>
      (rb_confirming (fold bin_step es u) = None \<or> rb_confirming (fold bin_step es u) = rb_confirming u)"
    if "\<not> (\<exists>ev \<in> set es. (\<exists>v. ev = BinContainer v) \<or> (\<exists>x. ev = RestorePressed x \<or> ev = PurgePressed x))" for es u
    using that
  proof (induction es arbitrary: u)
    case (Cons ev es)
    have "rb_container (bin_step ev u) = rb_container u \<and> (rb_confirming (bin_step ev u) = None \<or> rb_confirming (bin_step ev u) = rb_confirming u)"
      using Cons.prems by (cases ev) (auto simp: bin_step_def bin_load_def split: sum.splits option.splits)
    with Cons.IH [of "bin_step ev u"] Cons.prems show ?case by auto
  qed simp
  define u where "u = bin_step (RestorePressed item) s"
  have u: "rb_container u = do_parent item" "rb_confirming u = Some (item, False)" using assms(1,2) by (simp_all add: u_def bin_step_def)
  have t: "t = fold bin_step evs u" using assms(5) by (simp add: u_def)
  from keep [OF assms(4), of u] assms(6) u have "rb_container t = do_parent item" "rb_confirming t = Some (item, False)"
    unfolding t by auto
  with assms(3) show ?thesis by (simp add: bin_step_def act_call_def)
qed

text \<open>The policy shown for an object can be another's: it stays from one object to the next, and of two requests the
  answer that comes last is shown.\<close>

theorem policy_of_another_object_is_shown:
  assumes "a \<noteq> b"
  shows "(let s = fold rsop_step [RsopAnswered 0 (Inr pa), RsopObject b] (rsop_open a) in rs_dn s = b \<and> rs_policy s = Some pa) \<and>
         (let s = fold rsop_step [RsopObject b, RsopAnswered 1 (Inr pb), RsopAnswered 0 (Inr pa)] (rsop_open a)
          in rs_dn s = b \<and> rs_policy s = Some pa)"
  using assms by (simp add: rsop_step_def rsop_open_def)

theorem policy_of_another_object_is_shown_witness:
  "(let s = fold rsop_step [RsopAnswered 0 (Inr ''{}''), RsopObject ''CN=b''] (rsop_open ''CN=a'') in rs_dn s = ''CN=b'' \<and> rs_policy s = Some ''{}'') \<and>
   (let s = fold rsop_step [RsopObject ''CN=b'', RsopAnswered 1 (Inr ''[]''), RsopAnswered 0 (Inr ''{}'')] (rsop_open ''CN=a'')
    in rs_dn s = ''CN=b'' \<and> rs_policy s = Some ''{}'')"
  by (rule policy_of_another_object_is_shown) simp

text \<open>The audit log shows the entries of a filter that is no longer set when its answer comes last.\<close>

theorem entries_of_the_filter_before_are_shown:
  assumes "ag_timer s = False" and "n = length (ag_loads s)"
  shows "ag_entries (fold audit_step [AuditActor a, AuditTimer, AuditActor b, AuditTimer, AuditAnswered (n + 1) (Inr es), AuditAnswered n (Inr old)] s) = old"
  using assms by (simp add: audit_step_def)

text \<open>The containers above an object: what follows the first comma, and the containers above that.\<close>

function containers_above :: "string \<Rightarrow> string list" where
  "containers_above dn = (if CHR '','' \<in> set dn then parentOf dn # containers_above (parentOf dn) else [])"
  by pat_completeness auto

termination
  by (relation "measure length") (auto intro!: parentOf_shorter)

declare containers_above.simps [simp del]

lemma rsop_chain_step:
  assumes "CHR '','' \<notin> set p"
  shows "rsop_chain (p @ CHR '','' # rest) = rest # rsop_chain rest"
proof -
  define parts where "parts = split_on (CHR '','') rest"
  have split: "split_on (CHR '','') (p @ CHR '','' # rest) = p # parts" using assms by (simp add: split_append_sep parts_def)
  have ne: "parts \<noteq> []" by (simp add: parts_def)
  have join: "join_with '','' parts = rest" unfolding parts_def by (rule join_split)
  have "rsop_chain (p @ CHR '','' # rest) = map (\<lambda>i. join_with '','' (drop i (p # parts))) [1..<Suc (length parts)]"
    by (simp add: rsop_chain_def split)
  also have "[1..<Suc (length parts)] = map Suc [0..<length parts]" by (simp add: map_Suc_upt)
  also have "map (\<lambda>i. join_with '','' (drop i (p # parts))) (map Suc [0..<length parts]) = map (\<lambda>i. join_with '','' (drop i parts)) [0..<length parts]"
    by simp
  also have "[0..<length parts] = 0 # [1..<length parts]" using ne by (simp add: upt_conv_Cons)
  finally show ?thesis using join by (simp add: rsop_chain_def parts_def [symmetric] Let_def)
qed

text \<open>The containers a link can be modelled at are those above the object, read as the directory's tree reads them, up
  to the last.\<close>

theorem containers_offered_are_those_above: "rsop_chain dn = containers_above dn"
proof (induction dn rule: containers_above.induct)
  case (1 dn)
  show ?case
  proof (cases "CHR '','' \<in> set dn")
    case True
    then obtain p rest where dn: "dn = p @ CHR '','' # rest" "CHR '','' \<notin> set p" by (metis split_list_first)
    then have "parentOf dn = rest" by (simp add: parentOf_def index_of_append)
    with 1 True rsop_chain_step [OF dn(2), of rest] show ?thesis by (subst containers_above.simps) (simp add: dn(1))
  next
    case False
    then have "rsop_chain dn = []" by (simp add: rsop_chain_def split_no_sep)
    with False show ?thesis by (subst containers_above.simps) simp
  qed
qed

text \<open>For a name with a comma in it, the first container offered is none of the domain's.\<close>

theorem container_offered_for_a_name_with_a_comma:
  assumes "CHR '','' \<in> set v"
  shows "hd (rsop_chain (rdn_text (a, v) @ CHR '','' # rest)) \<noteq> rest"
proof -
  have "length rest < length (parentOf (rdn_text (a, v) @ CHR '','' # rest))" by (rule parentOf_escaped) (rule assms)
  then show ?thesis by (subst containers_offered_are_those_above, subst containers_above.simps) auto
qed

end
