(* ===== verification/PolicySchema.thy ===== *)
theory PolicySchema
  imports SettingEditors
begin

text \<open>
  What the control plane takes as the settings of a policy object (\<^verbatim>\<open>api/odm/policy_schema.py\<close>): a document whose
  members are known by name, each of a shape. The models are transcribed member by member; the lengths, the
  patterns and the checks across members that they also make are not. The properties are about the console's
  side: what its editors save has those shapes.
\<close>

section \<open>Shapes\<close>

datatype (plugins only: code size) presence = Must | May

datatype (plugins only: code size) wire =
    WText
  | WBool
  | WInt
  | WOneOf "string list"
  | WList wire
  | WMaybe wire
  | WObject
  | WRecord "(string \<times> presence \<times> wire) list"

type_synonym wire_member = "string \<times> presence \<times> wire"

text \<open>A value of a shape. An object has each member once; one that is undefined is not sent.\<close>

fun fits :: "wire \<Rightarrow> jsval \<Rightarrow> bool" where
  "fits WText v \<longleftrightarrow> (case v of JStr t \<Rightarrow> True | _ \<Rightarrow> False)"
| "fits WBool v \<longleftrightarrow> (case v of JBool b \<Rightarrow> True | _ \<Rightarrow> False)"
| "fits WInt v \<longleftrightarrow> (case v of JNum n \<Rightarrow> True | _ \<Rightarrow> False)"
| "fits (WOneOf xs) v \<longleftrightarrow> (case v of JStr t \<Rightarrow> t \<in> set xs | _ \<Rightarrow> False)"
| "fits (WList w) v \<longleftrightarrow> (case v of JArr vs \<Rightarrow> list_all (\<lambda>x. fits w x) vs | _ \<Rightarrow> False)"
| "fits (WMaybe w) v \<longleftrightarrow> v = JNull \<or> fits w v"
| "fits WObject v \<longleftrightarrow> (case v of JObj ps \<Rightarrow> True | _ \<Rightarrow> False)"
| "fits (WRecord ms) v \<longleftrightarrow>
     (case v of
        JObj ps \<Rightarrow>
          distinct (obj_keys ps) \<and>
          list_all (\<lambda>(k, p, w). if obj_get ps k = JUndef then p = May else fits w (obj_get ps k)) ms \<and>
          list_all (\<lambda>(k, x). x = JUndef \<or> k \<in> fst ` set ms) ps
      | _ \<Rightarrow> False)"

section \<open>The models\<close>

definition ItemTargeting :: "wire_member list" where
  "ItemTargeting =
     [(''os'', May, WMaybe (WList WText)), (''hostname_pattern'', May, WMaybe WText),
      (''security_groups'', May, WMaybe (WList WText)), (''ip_ranges'', May, WMaybe (WList WText))]"

definition FileDeployment :: "wire_member list" where
  "FileDeployment =
     [(''path'', Must, WText), (''content'', May, WText), (''mode'', May, WText), (''owner'', May, WText),
      (''group'', May, WText), (''targeting'', May, WMaybe (WRecord ItemTargeting))]"

definition Script :: "wire_member list" where
  "Script =
     [(''trigger'', Must, WOneOf [''startup'', ''shutdown'', ''logon'', ''logoff'']), (''name'', Must, WText),
      (''interpreter'', May, WText), (''content'', Must, WText), (''targeting'', May, WMaybe (WRecord ItemTargeting))]"

definition SystemdUnit :: "wire_member list" where
  "SystemdUnit =
     [(''unit'', Must, WText), (''state'', Must, WOneOf [''enabled'', ''disabled'', ''masked'', ''started'', ''stopped'']),
      (''targeting'', May, WMaybe (WRecord ItemTargeting))]"

definition CronJob :: "wire_member list" where
  "CronJob =
     [(''name'', Must, WText), (''schedule'', Must, WText), (''command'', Must, WText), (''user'', May, WText),
      (''targeting'', May, WMaybe (WRecord ItemTargeting))]"

definition FirewallRule :: "wire_member list" where
  "FirewallRule =
     [(''name'', Must, WText), (''action'', May, WOneOf [''allow'', ''deny'']), (''direction'', May, WOneOf [''in'', ''out'']),
      (''protocol'', May, WOneOf [''tcp'', ''udp'', ''icmp'', ''any'']), (''port'', May, WMaybe WInt), (''source'', May, WText)]"

definition DriveMap :: "wire_member list" where
  "DriveMap =
     [(''name'', Must, WText), (''unc'', Must, WText), (''mount_point'', Must, WText), (''display_name'', May, WText),
      (''for_principal'', May, WMaybe WText), (''options'', May, WText), (''targeting'', May, WMaybe (WRecord ItemTargeting))]"

definition SudoRule :: "wire_member list" where
  "SudoRule =
     [(''name'', Must, WText), (''users'', Must, WList WText), (''commands'', Must, WList WText), (''run_as'', May, WText),
      (''nopasswd'', May, WBool)]"

definition HbacRule :: "wire_member list" where
  "HbacRule =
     [(''principal'', Must, WText), (''service'', May, WOneOf [''local'', ''ssh'', ''rdp'', ''all'']),
      (''access'', May, WOneOf [''allow'', ''deny''])]"

definition TrustedCertificate :: "wire_member list" where
  "TrustedCertificate =
     [(''name'', Must, WText), (''certificate_pem'', Must, WText)]"

definition Package :: "wire_member list" where
  "Package =
     [(''name'', Must, WText), (''state'', May, WOneOf [''present'', ''latest'', ''absent'']),
      (''targeting'', May, WMaybe (WRecord ItemTargeting))]"

definition CustomPackage :: "wire_member list" where
  "CustomPackage =
     [(''name'', Must, WText), (''package_id'', Must, WText), (''state'', May, WOneOf [''present'', ''absent'']),
      (''keep_when_unlinked'', May, WBool), (''targeting'', May, WMaybe (WRecord ItemTargeting))]"

definition AdmxSelection :: "wire_member list" where
  "AdmxSelection =
     [(''policy_id'', Must, WText), (''state'', May, WOneOf [''enabled'', ''disabled'']), (''values'', May, WObject)]"

definition BrowserPolicy :: "wire_member list" where
  "BrowserPolicy =
     [(''chromium'', May, WObject), (''firefox'', May, WObject)]"

definition Bookmark :: "wire_member list" where
  "Bookmark =
     [(''name'', Must, WText), (''url'', Must, WText)]"

definition BrowserSettings :: "wire_member list" where
  "BrowserSettings =
     [(''start_page'', May, WOneOf [''unset'', ''homepage'', ''previous-session'', ''new-tab'']), (''homepage'', May, WText),
      (''homepage_locked'', May, WBool), (''bookmarks_folder'', May, WText), (''bookmarks'', May, WList (WRecord Bookmark)),
      (''bookmarks_bar'', May, WOneOf [''unset'', ''always'', ''never'']), (''extensions_install'', May, WList WText),
      (''extensions_block'', May, WList WText), (''extensions_user_install'', May, WOneOf [''unset'', ''allow'', ''block'']),
      (''password_manager'', May, WOneOf [''unset'', ''allow'', ''block'']),
      (''autofill'', May, WOneOf [''unset'', ''allow'', ''block'']),
      (''history'', May, WOneOf [''unset'', ''keep'', ''clear-on-exit'', ''disabled'']),
      (''private_browsing'', May, WOneOf [''unset'', ''allow'', ''block'']),
      (''developer_tools'', May, WOneOf [''unset'', ''allow'', ''block'']),
      (''telemetry'', May, WOneOf [''unset'', ''allow'', ''block'']),
      (''sync_accounts'', May, WOneOf [''unset'', ''allow'', ''block'']),
      (''popups'', May, WOneOf [''unset'', ''allow'', ''block'']), (''default_search'', May, WText),
      (''default_search_url'', May, WText), (''download_directory'', May, WText),
      (''proxy_mode'', May, WOneOf [''unset'', ''system'', ''none'', ''manual'', ''pac'']), (''proxy_server'', May, WText),
      (''proxy_pac_url'', May, WText), (''proxy_bypass'', May, WList WText), (''blocked_sites'', May, WList WText),
      (''allowed_sites'', May, WList WText), (''first_run_pages'', May, WOneOf [''unset'', ''hide'']),
      (''default_browser_check'', May, WOneOf [''unset'', ''hide'']), (''extra'', May, WObject)]"

definition Wallpaper :: "wire_member list" where
  "Wallpaper =
     [(''uri'', May, WText), (''image'', May, WText), (''image_name'', May, WText),
      (''picture_options'', May, WOneOf [''none'', ''wallpaper'', ''centered'', ''scaled'', ''stretched'', ''zoom'', ''spanned'']),
      (''for_principal'', May, WMaybe WText), (''allow_user_change'', May, WBool)]"

definition RoamingProfile :: "wire_member list" where
  "RoamingProfile =
     [(''path'', Must, WText), (''kind'', May, WOneOf [''disk'', ''directory'']), (''disk_gb'', May, WInt)]"

definition SystemUpdates :: "wire_member list" where
  "SystemUpdates =
     [(''enabled'', May, WBool), (''security_only'', May, WBool), (''schedule'', May, WOneOf [''daily'', ''weekly'']),
      (''auto_reboot'', May, WBool), (''reboot_time'', May, WText), (''remove_unused'', May, WBool)]"

definition LoginScreen :: "wire_member list" where
  "LoginScreen =
     [(''banner_text'', May, WText), (''background_uri'', May, WText), (''background_image'', May, WText),
      (''background_image_name'', May, WText),
      (''background_fit'', May, WOneOf [''none'', ''wallpaper'', ''centered'', ''scaled'', ''stretched'', ''zoom'', ''spanned'']),
      (''allow_user_background'', May, WBool), (''disable_user_list'', May, WBool)]"

definition CertificateEnrolment :: "wire_member list" where
  "CertificateEnrolment =
     [(''profile'', May, WOneOf [''server'', ''client'']), (''path'', May, WText), (''validity_days'', May, WInt),
      (''renew_before_days'', May, WInt)]"

definition LocalPasswordPolicy :: "wire_member list" where
  "LocalPasswordPolicy =
     [(''minimum_length'', May, WInt), (''require_uppercase'', May, WBool), (''require_lowercase'', May, WBool),
      (''require_digit'', May, WBool), (''require_symbol'', May, WBool), (''maximum_age_days'', May, WInt),
      (''minimum_age_days'', May, WInt), (''warn_days'', May, WInt), (''accounts'', May, WList WText)]"

definition Printer :: "wire_member list" where
  "Printer =
     [(''name'', Must, WText), (''server'', Must, WText), (''for_principal'', May, WText), (''default'', May, WBool),
      (''targeting'', May, WMaybe (WRecord ItemTargeting))]"

definition RemoteDesktopFile :: "wire_member list" where
  "RemoteDesktopFile =
     [(''name'', Must, WText), (''address'', Must, WText), (''collection'', May, WText), (''application'', May, WText),
      (''full_screen'', May, WBool), (''for_principal'', May, WText), (''targeting'', May, WMaybe (WRecord ItemTargeting))]"

definition DefaultApplication :: "wire_member list" where
  "DefaultApplication =
     [(''mime_type'', Must, WText), (''application'', Must, WText), (''extensions'', May, WText),
      (''targeting'', May, WMaybe (WRecord ItemTargeting))]"

definition SysctlSetting :: "wire_member list" where
  "SysctlSetting =
     [(''key'', Must, WText), (''value'', Must, WText), (''targeting'', May, WMaybe (WRecord ItemTargeting))]"

definition Shortcut :: "wire_member list" where
  "Shortcut =
     [(''name'', Must, WText), (''kind'', May, WOneOf [''application'', ''link'', ''place'']), (''target'', Must, WText),
      (''icon'', May, WText), (''where'', May, WOneOf [''desktop'', ''menu'', ''both'']), (''for_principal'', May, WText),
      (''targeting'', May, WMaybe (WRecord ItemTargeting))]"

definition Font :: "wire_member list" where
  "Font =
     [(''name'', Must, WText), (''content'', Must, WText)]"

definition PowerSettings :: "wire_member list" where
  "PowerSettings =
     [(''screen_off_ac_minutes'', May, WInt), (''screen_off_battery_minutes'', May, WInt), (''suspend_ac_minutes'', May, WInt),
      (''suspend_battery_minutes'', May, WInt), (''login_screen_screen_off_minutes'', May, WInt),
      (''login_screen_suspend_minutes'', May, WInt),
      (''lid_close_action'', May, WOneOf [''suspend'', ''hibernate'', ''lock'', ''ignore'']),
      (''lid_close_action_external_power'', May, WOneOf [[], ''suspend'', ''hibernate'', ''lock'', ''ignore'']),
      (''lid_close_action_docked'', May, WOneOf [[], ''suspend'', ''hibernate'', ''lock'', ''ignore'']),
      (''power_button_action'', May, WOneOf [''suspend'', ''hibernate'', ''poweroff'', ''lock'', ''ignore'']),
      (''suspend_key_action'', May, WOneOf [''suspend'', ''hibernate'', ''lock'', ''ignore'']),
      (''hibernate_key_action'', May, WOneOf [''suspend'', ''hibernate'', ''lock'', ''ignore'']),
      (''idle_action'', May, WOneOf [''ignore'', ''suspend'', ''hibernate'', ''poweroff'', ''lock'']),
      (''idle_action_minutes'', May, WInt), (''allow_suspend'', May, WBool), (''allow_hibernate'', May, WBool),
      (''critical_battery_action'', May, WOneOf [[], ''poweroff'', ''hibernate'', ''hybrid_sleep'']),
      (''critical_battery_percent'', May, WInt), (''dim_screen'', May, WBool), (''idle_brightness_percent'', May, WInt),
      (''power_saver_on_low_battery'', May, WBool), (''allow_user_change'', May, WBool)]"

definition ScreenLock :: "wire_member list" where
  "ScreenLock =
     [(''idle_minutes'', May, WInt), (''lock_delay_seconds'', May, WInt), (''lock_enabled'', May, WBool),
      (''lock_on_suspend'', May, WBool), (''show_notifications'', May, WBool), (''allow_user_change'', May, WBool)]"

definition RemovableStorage :: "wire_member list" where
  "RemovableStorage =
     [(''mode'', May, WOneOf [''allow'', ''read_only'', ''block'']), (''exempt_principals'', May, WList WText),
      (''message'', May, WText)]"

definition DeviceControl :: "wire_member list" where
  "DeviceControl =
     [(''bluetooth'', May, WOneOf [''allow'', ''block'']), (''camera'', May, WOneOf [''allow'', ''block'']),
      (''microphone'', May, WOneOf [''allow'', ''block'']), (''allowed_usb'', May, WList WText)]"

definition ComputerNames :: "wire_member list" where
  "ComputerNames =
     [(''template'', May, WText)]"

definition PasswordManager :: "wire_member list" where
  "PasswordManager =
     [(''vault_url'', May, WText), (''browser_extension'', May, WBool), (''firefox'', May, WBool), (''chromium'', May, WBool),
      (''desktop_app'', May, WBool), (''disable_browser_managers'', May, WBool)]"

definition DesktopTheme :: "wire_member list" where
  "DesktopTheme =
     [(''gtk_theme'', May, WText), (''icon_theme'', May, WText), (''cursor_theme'', May, WText),
      (''interface_font'', May, WText), (''document_font'', May, WText), (''monospace_font'', May, WText),
      (''colour_scheme'', May, WOneOf [[], ''default'', ''prefer-dark'', ''prefer-light'']), (''allow_user_change'', May, WBool)]"

definition SecondFactor :: "wire_member list" where
  "SecondFactor =
     [(''enabled'', May, WBool), (''method'', May, WOneOf [''code'', ''push'']), (''push_server_url'', May, WText),
      (''self_enrol'', May, WBool), (''services'', May, WList (WOneOf [''login'', ''ssh'', ''sudo'', ''remote-desktop''])),
      (''require_principals'', May, WList WText), (''exempt_principals'', May, WList WText), (''grace_days'', May, WInt)]"

definition FirstRun :: "wire_member list" where
  "FirstRun =
     [(''disable_tour'', May, WBool), (''disable_welcome_dialog'', May, WBool), (''message'', May, WText)]"

definition SoftwareControl :: "wire_member list" where
  "SoftwareControl =
     [(''enabled'', May, WBool), (''allowed'', May, WList WText), (''block_flatpak'', May, WBool), (''block_snap'', May, WBool),
      (''message'', May, WText)]"

definition DashLayout :: "wire_member list" where
  "DashLayout =
     [(''name'', Must, WText), (''applications'', Must, WText), (''for_principal'', May, WText),
      (''allow_user_change'', May, WBool), (''targeting'', May, WMaybe (WRecord ItemTargeting))]"

definition AlwaysOnVpn :: "wire_member list" where
  "AlwaysOnVpn =
     [(''tunnel'', Must, WText), (''block_until_connected'', May, WBool)]"

definition LocalAdministrator :: "wire_member list" where
  "LocalAdministrator =
     [(''account'', May, WText), (''rotate_days'', May, WInt), (''length'', May, WInt), (''administrator'', May, WBool)]"

definition GraphicsDrivers :: "wire_member list" where
  "GraphicsDrivers =
     [(''mode'', May, WOneOf [''auto'', ''nvidia'', ''amd'', ''none''])]"

definition Grub :: "wire_member list" where
  "Grub =
     [(''timeout_seconds'', May, WInt), (''hide_menu'', May, WBool), (''boot_splash'', May, WBool), (''silent'', May, WBool),
      (''splash_message'', May, WText), (''splash_image'', May, WText), (''splash_image_name'', May, WText),
      (''splash_background'', May, WText), (''splash_background_name'', May, WText)]"

definition RemoteDesktopSession :: "wire_member list" where
  "RemoteDesktopSession =
     [(''allow_clipboard'', May, WBool), (''allow_printers'', May, WBool), (''allow_drives'', May, WBool),
      (''allow_audio'', May, WBool), (''allow_microphone'', May, WBool), (''max_colour_depth'', May, WInt)]"

definition AgentSettings :: "wire_member list" where
  "AgentSettings =
     [(''refresh_minutes'', May, WInt)]"

definition AgentUpdate :: "wire_member list" where
  "AgentUpdate =
     [(''mode'', May, WOneOf [''off'', ''notify'', ''install'']), (''version'', May, WText)]"

definition Certificates :: "wire_member list" where
  "Certificates =
     [(''trust_domain_authority'', May, WBool), (''browsers'', May, WBool), (''machine_certificate'', May, WBool),
      (''machine_certificate_path'', May, WText)]"

definition WifiNetwork :: "wire_member list" where
  "WifiNetwork =
     [(''ssid'', Must, WText), (''hidden'', May, WBool), (''security'', May, WOneOf [''wpa-eap'', ''wpa-psk'', ''open'']),
      (''eap'', May, WOneOf [''tls'']), (''certificate_path'', May, WText), (''server_name'', May, WText), (''psk'', May, WText),
      (''autoconnect'', May, WBool), (''priority'', May, WInt), (''targeting'', May, WMaybe (WRecord ItemTargeting))]"

definition Regional :: "wire_member list" where
  "Regional =
     [(''locale'', May, WText), (''formats_locale'', May, WText), (''additional_locales'', May, WList WText),
      (''keyboard_layout'', May, WText), (''keyboard_variant'', May, WText), (''timezone'', May, WText),
      (''allow_user_change'', May, WBool)]"

definition LogonHoursRule :: "wire_member list" where
  "LogonHoursRule =
     [(''principal'', Must, WText),
      (''days'', Must, WList (WOneOf [''mon'', ''tue'', ''wed'', ''thu'', ''fri'', ''sat'', ''sun''])), (''start'', May, WText),
      (''end'', May, WText), (''sign_out'', May, WBool), (''message'', May, WText),
      (''targeting'', May, WMaybe (WRecord ItemTargeting))]"

definition FirmwareUpdates :: "wire_member list" where
  "FirmwareUpdates =
     [(''enabled'', May, WBool), (''mode'', May, WOneOf [''report'', ''install'']), (''include_testing'', May, WBool),
      (''reboot_when_needed'', May, WBool)]"

definition WebApp :: "wire_member list" where
  "WebApp =
     [(''name'', Must, WText), (''url'', Must, WText), (''icon_url'', May, WText),
      (''browser'', May, WOneOf [''auto'', ''chromium'', ''firefox'']), (''categories'', May, WList WText),
      (''comment'', May, WText), (''targeting'', May, WMaybe (WRecord ItemTargeting))]"

definition PolicySettings :: "wire_member list" where
  "PolicySettings =
     [(''files'', May, WList (WRecord FileDeployment)), (''scripts'', May, WList (WRecord Script)),
      (''systemd_units'', May, WList (WRecord SystemdUnit)), (''cron'', May, WList (WRecord CronJob)),
      (''firewall'', May, WList (WRecord FirewallRule)), (''drive_maps'', May, WList (WRecord DriveMap)),
      (''sudo_rules'', May, WList (WRecord SudoRule)), (''hbac_rules'', May, WList (WRecord HbacRule)),
      (''trusted_certificates'', May, WList (WRecord TrustedCertificate)), (''packages'', May, WList (WRecord Package)),
      (''custom_packages'', May, WList (WRecord CustomPackage)), (''admx'', May, WList (WRecord AdmxSelection)),
      (''browser'', May, WMaybe (WRecord BrowserPolicy)), (''firefox_policy'', May, WMaybe (WRecord BrowserSettings)),
      (''chromium_policy'', May, WMaybe (WRecord BrowserSettings)), (''wallpaper'', May, WMaybe (WRecord Wallpaper)),
      (''roaming_profile'', May, WMaybe (WRecord RoamingProfile)), (''updates'', May, WMaybe (WRecord SystemUpdates)),
      (''login_screen'', May, WMaybe (WRecord LoginScreen)),
      (''certificate_enrolment'', May, WList (WRecord CertificateEnrolment)),
      (''local_password_policy'', May, WMaybe (WRecord LocalPasswordPolicy)), (''printers'', May, WList (WRecord Printer)),
      (''remote_desktop_files'', May, WList (WRecord RemoteDesktopFile)),
      (''default_applications'', May, WList (WRecord DefaultApplication)), (''sysctl'', May, WList (WRecord SysctlSetting)),
      (''shortcuts'', May, WList (WRecord Shortcut)), (''fonts'', May, WList (WRecord Font)),
      (''power'', May, WMaybe (WRecord PowerSettings)), (''screen_lock'', May, WMaybe (WRecord ScreenLock)),
      (''removable_storage'', May, WMaybe (WRecord RemovableStorage)), (''device_control'', May, WMaybe (WRecord DeviceControl)),
      (''computer_names'', May, WMaybe (WRecord ComputerNames)), (''password_manager'', May, WMaybe (WRecord PasswordManager)),
      (''desktop_theme'', May, WMaybe (WRecord DesktopTheme)), (''second_factor'', May, WMaybe (WRecord SecondFactor)),
      (''first_run'', May, WMaybe (WRecord FirstRun)), (''software_control'', May, WMaybe (WRecord SoftwareControl)),
      (''dash'', May, WList (WRecord DashLayout)), (''always_on_vpn'', May, WMaybe (WRecord AlwaysOnVpn)),
      (''local_administrator'', May, WMaybe (WRecord LocalAdministrator)),
      (''graphics_drivers'', May, WMaybe (WRecord GraphicsDrivers)), (''grub'', May, WMaybe (WRecord Grub)),
      (''remote_desktop_session'', May, WMaybe (WRecord RemoteDesktopSession)), (''agent'', May, WMaybe (WRecord AgentSettings)),
      (''agent_update'', May, WMaybe (WRecord AgentUpdate)), (''certificates'', May, WMaybe (WRecord Certificates)),
      (''wifi_networks'', May, WList (WRecord WifiNetwork)), (''regional'', May, WMaybe (WRecord Regional)),
      (''logon_hours'', May, WList (WRecord LogonHoursRule)), (''firmware_updates'', May, WMaybe (WRecord FirmwareUpdates)),
      (''web_apps'', May, WList (WRecord WebApp))]"

definition settings_fit :: "jsobj \<Rightarrow> bool" where
  "settings_fit settings \<longleftrightarrow> fits (WRecord PolicySettings) (JObj settings)"

section \<open>Changing an object\<close>

lemma fits_not_undef [simp]: "\<not> fits w JUndef"
  by (induction w) auto

definition member_wire :: "wire_member list \<Rightarrow> string \<Rightarrow> wire option" where
  "member_wire ms k = map_option snd (map_of ms k)"

text \<open>A change of a member that leaves an object of its shape.\<close>

definition change_fits :: "wire_member list \<Rightarrow> string \<times> jsval \<Rightarrow> bool" where
  "change_fits ms ch = (case map_of ms (fst ch) of None \<Rightarrow> False | Some (p, w) \<Rightarrow> if snd ch = JUndef then p = May else fits w (snd ch))"

lemma obj_get_distinct: "distinct (obj_keys ps) \<Longrightarrow> (k, v) \<in> set ps \<Longrightarrow> obj_get ps k = v"
  by (induction ps k rule: obj_get.induct) (auto simp: obj_keys_def image_iff)

lemma set_obj_put: "set (obj_put k v ps) \<subseteq> insert (k, v) (set ps)"
  by (induction k v ps rule: obj_put.induct) auto

lemma record_put:
  assumes "distinct (map fst ms)" and "fits (WRecord ms) (JObj ps)" and "change_fits ms (k, v)"
  shows "fits (WRecord ms) (JObj (obj_put k v ps))"
proof -
  obtain p w where k: "map_of ms k = Some (p, w)"
    using assms(3) by (auto simp: change_fits_def split: option.splits)
  with assms(3) have m: "map_of ms k = Some (p, w)" "if v = JUndef then p = May else fits w v"
    by (auto simp: change_fits_def split: if_splits)
  have "if obj_get (obj_put k v ps) l = JUndef then p' = May else fits w' (obj_get (obj_put k v ps) l)" if "(l, p', w') \<in> set ms" for l p' w'
  proof (cases "l = k")
    case True
    then have "p' = p" "w' = w" using that m(1) assms(1) by auto
    with m(2) True show ?thesis by simp
  next
    case False
    have "\<forall>(l, p', w') \<in> set ms. if obj_get ps l = JUndef then p' = May else fits w' (obj_get ps l)"
      using assms(2) by (simp add: list_all_iff)
    with that False show ?thesis by auto
  qed
  then have "list_all (\<lambda>(l, p', w'). if obj_get (obj_put k v ps) l = JUndef then p' = May else fits w' (obj_get (obj_put k v ps) l)) ms"
    unfolding list_all_iff by blast
  moreover have "distinct (obj_keys (obj_put k v ps))"
    using assms(2) by (simp add: obj_put_distinct)
  moreover have "list_all (\<lambda>(l, x). x = JUndef \<or> l \<in> fst ` set ms) (obj_put k v ps)"
  proof -
    have "k \<in> fst ` set ms" using map_of_SomeD [OF m(1)] by force
    moreover have "\<forall>(l, x) \<in> set ps. x = JUndef \<or> l \<in> fst ` set ms" using assms(2) by (simp add: list_all_iff)
    ultimately show ?thesis using set_obj_put [of k v ps] unfolding list_all_iff by blast
  qed
  ultimately show ?thesis by simp
qed

lemma record_spread:
  assumes "distinct (map fst ms)" and "fits (WRecord ms) (JObj ps)" and "list_all (change_fits ms) ch"
  shows "fits (WRecord ms) (JObj (obj_spread ps ch))"
  unfolding obj_spread_def using assms(2,3)
proof (induction ch arbitrary: ps)
  case (Cons x ch)
  then have "fits (WRecord ms) (JObj (obj_put (fst x) (snd x) ps))"
    by (intro record_put [OF assms(1)]) auto
  with Cons show ?case by (simp add: case_prod_unfold del: fits.simps)
qed simp

text \<open>An object of the shape, seen as the changes it is made of.\<close>

lemma record_changes:
  assumes "distinct (map fst ms)" and "fits (WRecord ms) (JObj ps)"
  shows "list_all (\<lambda>ch. change_fits ms ch \<or> snd ch = JUndef) ps"
proof -
  have "change_fits ms (k, v)" if "(k, v) \<in> set ps" "v \<noteq> JUndef" for k v
  proof -
    from assms(2) that obtain p w where m: "(k, p, w) \<in> set ms" by (fastforce simp: list_all_iff)
    have "obj_get ps k = v" using assms(2) that(1) by (simp add: obj_get_distinct)
    with assms m that have "fits w v" by (fastforce simp: list_all_iff)
    with m assms(1) that show ?thesis by (simp add: change_fits_def)
  qed
  then show ?thesis by (auto simp: list_all_iff)
qed

lemma record_get:
  assumes "fits (WRecord ms) (JObj ps)" and "map_of ms k = Some (p, w)" and "obj_get ps k \<noteq> JUndef"
  shows "fits w (obj_get ps k)"
  using assms map_of_SomeD [OF assms(2)] by (fastforce simp: list_all_iff)

section \<open>What the entries of a list offer\<close>

definition takes_text :: "wire \<Rightarrow> bool" where
  "takes_text w \<longleftrightarrow> w = WText \<or> w = WMaybe WText"

definition takes_list :: "wire \<Rightarrow> bool" where
  "takes_list w \<longleftrightarrow> (case w of WList u \<Rightarrow> u = WText \<or> (case u of WOneOf xs \<Rightarrow> True | _ \<Rightarrow> False) | _ \<Rightarrow> False)"

definition takes_number :: "wire \<Rightarrow> bool" where
  "takes_number w \<longleftrightarrow> w = WInt \<or> w = WMaybe WInt"

definition text_member :: "wire_member list \<Rightarrow> string \<Rightarrow> bool" where
  "text_member ms k \<longleftrightarrow> (case map_of ms k of None \<Rightarrow> False | Some (p, w) \<Rightarrow> takes_text w)"

definition picked_members :: "resource_pick \<Rightarrow> string list" where
  "picked_members pick =
     (case pick of PickPrinter \<Rightarrow> [''server''] | PickShare \<Rightarrow> [''name'', ''mount_point'']
      | PickCollection \<Rightarrow> [''name'', ''collection'', ''address'', ''application''])"

text \<open>A field whose control gives what its member takes.\<close>

definition field_fits :: "wire_member list \<Rightarrow> field_spec \<Rightarrow> bool" where
  "field_fits ms f \<longleftrightarrow>
     (case map_of ms (f_key f) of
        None \<Rightarrow> False
      | Some (p, w) \<Rightarrow>
          (case f_pick f of
             Some pick \<Rightarrow> takes_text w \<and> list_all (text_member ms) (picked_members pick)
           | None \<Rightarrow>
               (if f_kind f = Some KCheckbox then w = WBool
                else if f_kind f = Some KSelect then (case w of WOneOf xs \<Rightarrow> list_all (\<lambda>x. x \<in> set xs) (f_options f) | _ \<Rightarrow> False)
                else if f_kind f = Some KTextarea \<or> f_kind f = Some KImage then takes_text w
                else if f_key f \<in> set LIST_FIELDS then takes_list w
                else if f_kind f = Some KNumber then takes_number w
                else takes_text w)))"

definition row_members :: "string \<Rightarrow> wire_member list" where
  "row_members key = (case map_of PolicySettings key of Some (p, WList (WRecord ms)) \<Rightarrow> ms | _ \<Rightarrow> [])"

definition category_fits :: "wire_member list \<Rightarrow> category_spec \<Rightarrow> bool" where
  "category_fits ms c \<longleftrightarrow>
     distinct (map fst ms) \<and> fits (WRecord ms) (JObj (c_blank c)) \<and> list_all (field_fits ms) (c_fields c) \<and>
     (c_key c \<in> set TARGETABLE \<longrightarrow> map_of ms ''targeting'' = Some (May, WMaybe (WRecord ItemTargeting)))"

text \<open>The models of the entries, in the order of the categories.\<close>

definition row_models :: "wire_member list list" where
  "row_models =
     [FileDeployment, Script, Script, SystemdUnit, CronJob, DriveMap, SudoRule, HbacRule, Package, TrustedCertificate,
      CertificateEnrolment, WifiNetwork, LogonHoursRule, WebApp, RemoteDesktopFile, DefaultApplication, DashLayout,
      SysctlSetting, Shortcut, Printer, FirewallRule]"

lemma settings_members_distinct: "distinct (map fst PolicySettings)"
  by code_simp

text \<open>A member is looked up by its place in the table.\<close>

lemma schema_at:
  assumes "list_all2 (\<lambda>i x. PolicySettings ! i = (g x, h x) \<and> i < length PolicySettings) is xs"
  shows "map (\<lambda>x. map_of PolicySettings (g x)) xs = map (\<lambda>x. Some (h x)) xs"
proof -
  have "map_of PolicySettings (g x) = Some (h x)" if "PolicySettings ! i = (g x, h x)" "i < length PolicySettings" for i x
    using that nth_mem [OF that(2)] by (intro map_of_is_SomeI [OF settings_members_distinct]) simp
  with assms show ?thesis by (induction "is" xs rule: list_all2_induct) auto
qed

lemma schema_length: "length PolicySettings = 51"
  by (simp add: PolicySettings_def)

lemma category_keys:
  "map c_key CATEGORIES =
     [''files'', ''scripts'', ''scripts'', ''systemd_units'', ''cron'', ''drive_maps'', ''sudo_rules'', ''hbac_rules'',
      ''packages'', ''trusted_certificates'', ''certificate_enrolment'', ''wifi_networks'', ''logon_hours'',
      ''web_apps'', ''remote_desktop_files'', ''default_applications'', ''dash'', ''sysctl'', ''shortcuts'',
      ''printers'', ''firewall'']"
  by code_simp

lemma row_schema: "map (\<lambda>c. map_of PolicySettings (c_key c)) CATEGORIES = map (\<lambda>ms. Some (May, WList (WRecord ms))) row_models"
proof -
  let ?pairs = "zip (map c_key CATEGORIES) row_models"
  have "list_all2 (\<lambda>i x. PolicySettings ! i = (fst x, May, WList (WRecord (snd x))) \<and> i < length PolicySettings)
      [0, 1, 1, 2, 3, 5, 6, 7, 9, 8, 19, 46, 48, 50, 22, 23, 37, 24, 25, 21, 4] ?pairs"
    unfolding category_keys row_models_def schema_length by (simp add: PolicySettings_def)
  from schema_at [OF this] have "map (\<lambda>k. map_of PolicySettings k) (map fst ?pairs) = map (\<lambda>ms. Some (May, WList (WRecord ms))) (map snd ?pairs)"
    by (simp add: comp_def)
  moreover have "length CATEGORIES = length row_models" by (simp add: CATEGORIES_def row_models_def)
  ultimately show ?thesis by (simp add: comp_def)
qed

lemma rows_fit_models: "list_all2 category_fits row_models CATEGORIES"
  by code_simp

lemma model_of:
  assumes "list_all2 P ms xs" and "map g xs = map h ms" and "x \<in> set xs"
  shows "\<exists>m. P m x \<and> g x = h m"
  using assms by (induction ms xs rule: list_all2_induct) auto

lemma categories_fit:
  assumes "c \<in> set CATEGORIES"
  shows "category_fits (row_members (c_key c)) c" and "map_of PolicySettings (c_key c) = Some (May, WList (WRecord (row_members (c_key c))))"
  using model_of [OF rows_fit_models row_schema assms] by (auto simp: row_members_def)

lemma targeting_members_distinct: "distinct (map fst ItemTargeting)"
  by code_simp

end
