(* ===== verification/SettingsTyped.thy ===== *)
theory SettingsTyped
  imports PolicySchema
begin

text \<open>
  What the settings editors save is what the control plane's models take: the entries of every list
  (\<open>typed_reach\<close>, the runs of \<open>RowsEditor\<close> in which a number is typed where a number is asked for), and every
  setting that is configured once (\<open>edit_single\<close>).
\<close>

declare fits.simps(8) [simp del]

section \<open>The dialog of one entry\<close>

text \<open>What is typed into a number, or chosen from a list the page read, has to be of the member's shape by itself; so has a
  list of fixed words. Every other control can give nothing else.\<close>

definition line_typed :: "category_spec \<Rightarrow> field_spec \<Rightarrow> jsobj \<Rightarrow> cell_event \<Rightarrow> bool" where
  "line_typed c f draft ev \<longleftrightarrow>
     (case member_wire (row_members (c_key c)) (f_key f) of
        None \<Rightarrow> True
      | Some w \<Rightarrow> takes_text w \<or> w = WBool \<or> w = WList WText \<or> (f_kind f = Some KSelect \<and> \<not> f_optionsFrom f) \<or>
                  list_all (\<lambda>(k, v). fits w v) (Cell f draft ev))"

definition event_typed :: "category_spec \<Rightarrow> jsobj \<Rightarrow> entry_event \<Rightarrow> bool" where
  "event_typed c draft ev \<longleftrightarrow> (case ev of CellEvent f e \<Rightarrow> line_typed c f draft e | Target t \<Rightarrow> True)"

lemma category_fitsD:
  assumes "c \<in> set CATEGORIES"
  shows "distinct (map fst (row_members (c_key c)))"
    and "fits (WRecord (row_members (c_key c))) (JObj (c_blank c))"
    and "f \<in> set (c_fields c) \<Longrightarrow> field_fits (row_members (c_key c)) f"
    and "c_key c \<in> set TARGETABLE \<Longrightarrow> map_of (row_members (c_key c)) ''targeting'' = Some (May, WMaybe (WRecord ItemTargeting))"
    and "map_of PolicySettings (c_key c) = Some (May, WList (WRecord (row_members (c_key c))))"
  using categories_fit [OF assms] by (auto simp: list_all_iff category_fits_def)

lemma text_change [simp]: "text_member ms k \<Longrightarrow> change_fits ms (k, JStr t)"
  by (auto simp: text_member_def change_fits_def takes_text_def split: option.splits)

lemma takes_text_fits: "takes_text w \<Longrightarrow> fits w (JStr t)"
  by (auto simp: takes_text_def)

lemma fits_change: "map_of ms k = Some (p, w) \<Longrightarrow> fits w v \<Longrightarrow> change_fits ms (k, v)"
  by (auto simp: change_fits_def)

lemma browse_fits:
  assumes "map_of ms (f_key f) = Some (p, w)" and "takes_text w" and "list_all (text_member ms) (picked_members pick)"
  shows "list_all (change_fits ms) (BrowseField f pick draft ev)"
proof -
  have own: "change_fits ms (f_key f, JStr t)" for t using assms(1,2) by (intro fits_change takes_text_fits)
  have put: "list_all (change_fits ms) (obj_put k v ps)" if "change_fits ms (k, v)" "list_all (change_fits ms) ps" for k v ps
    using that set_obj_put [of k v ps] by (auto simp: list_all_iff)
  show ?thesis
    using assms(3) own put
    by (cases pick; cases ev) (auto simp: BrowseField_def picked_members_def obj_spread_def)
qed

lemma chosen_option:
  assumes "v \<in> set (select_options f None (toInput (obj_get draft (f_key f))))" and "list_all (\<lambda>x. x \<in> set xs) (f_options f)"
    and "obj_get draft (f_key f) \<noteq> JUndef \<Longrightarrow> fits (WOneOf xs) (obj_get draft (f_key f))"
  shows "v \<in> set xs"
proof (cases "v \<in> set (f_options f)")
  case True
  with assms(2) show ?thesis by (auto simp: list_all_iff)
next
  case False
  with assms(1) have v: "v = toInput (obj_get draft (f_key f))" "v \<noteq> []"
    by (auto simp: select_options_def Let_def split: if_splits)
  then have "obj_get draft (f_key f) \<noteq> JUndef" by (auto simp: toInput_def)
  with assms(3) v(1) show ?thesis by (auto simp: toInput_def split: jsval.splits)
qed

lemma list_change: "w = WList WText \<Longrightarrow> fits w (JArr (map JStr ts))"
  by (simp add: list_all_iff)

lemma cell_fits:
  assumes field: "field_fits ms f" and ms: "ms = row_members (c_key c)"
    and draft: "fits (WRecord ms) (JObj draft)"
    and offer: "offered c fetched draft (CellEvent f ev)" and typed: "line_typed c f draft ev"
  shows "list_all (change_fits ms) (Cell f draft ev)"
proof (cases "f_pick f")
  case (Some pick)
  with field browse_fits [of ms f _ _ pick draft ev] show ?thesis
    by (auto simp: field_fits_def Cell_def split: option.splits)
next
  case None
  obtain p w where m: "map_of ms (f_key f) = Some (p, w)"
    using field by (auto simp: field_fits_def split: option.splits)
  have wire: "member_wire (row_members (c_key c)) (f_key f) = Some w" using m ms by (simp add: member_wire_def)
  have own: "fst ch = f_key f" if "ch \<in> set (Cell f draft ev)" for ch
    using that None by (auto simp: Cell_def split: if_splits cell_event.splits)
  have by_value: "list_all (change_fits ms) (Cell f draft ev)" if "list_all (\<lambda>(k, v). fits w v) (Cell f draft ev)"
    using that own m by (auto simp: list_all_iff intro: fits_change)
  have current: "fits w (obj_get draft (f_key f))" if "obj_get draft (f_key f) \<noteq> JUndef"
    using record_get [OF draft m that] .
  consider "list_all (\<lambda>(k, v). fits w v) (Cell f draft ev)" | "f_kind f = Some KSelect" "\<not> f_optionsFrom f" "\<not> takes_text w"
    | "takes_text w \<or> w = WBool \<or> w = WList WText"
    using typed wire by (auto simp: line_typed_def)
  then show ?thesis
  proof cases
    case 2
    then obtain xs where xs: "w = WOneOf xs" "list_all (\<lambda>x. x \<in> set xs) (f_options f)"
      using field None m by (auto simp: field_fits_def split: if_splits wire.splits)
    have "v \<in> set xs" if "ev = Chosen v" for v
      by (rule chosen_option [OF _ xs(2)]) (use offer that 2 current xs(1) in \<open>auto simp: offered_def\<close>)
    with 2 None xs(1) show ?thesis by (intro by_value) (auto simp: Cell_def split: cell_event.splits)
  next
    case 3
    show ?thesis
    proof (rule by_value, cases "f_kind f = Some KCheckbox \<or> f_kind f = Some KSelect \<or> f_kind f = Some KTextarea \<or> f_kind f = Some KImage")
      case True
      with 3 None field m show "list_all (\<lambda>(k, v). fits w v) (Cell f draft ev)"
        by (auto simp: field_fits_def Cell_def takes_text_fits takes_text_def split: cell_event.splits wire.splits if_splits)
    next
      case False
      have input: "fits w (fromInput f t)" for t
        using 3 None field m False by (auto simp: field_fits_def fromInput_def takes_text_def takes_list_def takes_number_def list_all_iff split: if_splits)
      with False None show "list_all (\<lambda>(k, v). fits w v) (Cell f draft ev)"
        by (auto simp: Cell_def Let_def split: cell_event.splits)
    qed
  qed (rule by_value)
qed

subsection \<open>Targeting\<close>

lemma record_object: "fits (WRecord ms) v \<Longrightarrow> \<exists>ps. v = JObj ps"
  by (cases v) (simp_all add: fits.simps(8))

lemma targeting_changes_fit:
  assumes "v = JNull \<or> fits (WRecord ItemTargeting) v"
  shows "list_all (change_fits ItemTargeting) (targeting_changes v ev)"
proof -
  have os: "list_all (fits WText) (case opt_member v ''os'' of JArr vs \<Rightarrow> vs | _ \<Rightarrow> [])"
  proof (cases "\<exists>ps. v = JObj ps")
    case True
    then obtain ps where v: "v = JObj ps" by blast
    with assms have f: "fits (WRecord ItemTargeting) (JObj ps)" by simp
    have m: "map_of ItemTargeting ''os'' = Some (May, WMaybe (WList WText))" by (simp add: ItemTargeting_def)
    have "obj_get ps ''os'' \<noteq> JUndef \<Longrightarrow> fits (WMaybe (WList WText)) (obj_get ps ''os'')"
      using record_get [OF f m] .
    then show ?thesis by (auto simp: v opt_member_def split: jsval.splits)
  qed (use assms in \<open>auto simp: opt_member_def fits.simps(8) split: jsval.splits\<close>)
  show ?thesis
  proof (cases ev)
    case (TickOs release ticked)
    with os show ?thesis
      by (auto simp: targeting_changes_def change_fits_def ItemTargeting_def Let_def list_all_iff)
  qed (auto simp: targeting_changes_def change_fits_def ItemTargeting_def list_all_iff)
qed

lemma targeting_set_fits:
  assumes "v = JNull \<or> fits (WRecord ItemTargeting) v"
  shows "fits (WMaybe (WRecord ItemTargeting)) (targeting_set v (targeting_changes v ev))"
proof -
  have "fits (WRecord ItemTargeting) (JObj [])" by (simp add: ItemTargeting_def obj_keys_def fits.simps(8))
  then have "fits (WRecord ItemTargeting) (JObj (case v of JObj ps \<Rightarrow> ps | _ \<Rightarrow> []))"
    using assms record_object [of ItemTargeting v] by auto
  from record_spread [OF targeting_members_distinct this targeting_changes_fit [OF assms, of ev]] show ?thesis
    by (simp add: targeting_set_def Let_def)
qed

lemma dialog_fits:
  assumes c: "c \<in> set CATEGORIES" and draft: "fits (WRecord (row_members (c_key c))) (JObj draft)"
    and offer: "offered c fetched draft ev" and typed: "event_typed c draft ev"
  shows "fits (WRecord (row_members (c_key c))) (JObj (EntryDialog ev draft))"
proof (cases ev)
  case (CellEvent f e)
  have "f \<in> set (c_fields c)" using offer CellEvent by (simp add: offered_def)
  then have "list_all (change_fits (row_members (c_key c))) (Cell f draft e)"
    using offer typed CellEvent by (intro cell_fits [OF category_fitsD(3) [OF c] refl draft]) (auto simp: event_typed_def)
  with CellEvent show ?thesis
    by (simp add: EntryDialog_def record_spread [OF category_fitsD(1) [OF c] draft])
next
  case (Target t)
  then have m: "map_of (row_members (c_key c)) ''targeting'' = Some (May, WMaybe (WRecord ItemTargeting))"
    using offer by (auto simp: offered_def intro: category_fitsD(4) [OF c])
  define v where "v = or_else (obj_get draft ''targeting'') JNull"
  have "v = JNull \<or> fits (WRecord ItemTargeting) v"
    using record_get [OF draft m] by (cases "obj_get draft ''targeting''") (auto simp: v_def or_else_def)
  from targeting_set_fits [OF this, of t] have "fits (WMaybe (WRecord ItemTargeting)) (targeting_set v (targeting_changes v t))" .
  then have "change_fits (row_members (c_key c)) (''targeting'', if targeting_set v (targeting_changes v t) = JNull then JUndef else targeting_set v (targeting_changes v t))"
    using m by (auto simp: change_fits_def)
  from record_put [OF category_fitsD(1) [OF c] draft this] show ?thesis
    by (simp only: Target EntryDialog_def entry_event.case Let_def v_def)
qed

section \<open>The entries of a list\<close>

inductive typed_reach :: "category_spec \<Rightarrow> rows_editor \<Rightarrow> rows_editor \<Rightarrow> bool" for c s0 where
  TypedStart: "re_editing s0 = NotEditing \<Longrightarrow> typed_reach c s0 s0"
| TypedStep: "typed_reach c s0 s \<Longrightarrow> rows_step c s a s' \<Longrightarrow> (\<And>ev. a = InDialog ev \<Longrightarrow> event_typed c (re_draft s) ev) \<Longrightarrow> typed_reach c s0 s'"

lemma rows_fit:
  assumes "c \<in> set CATEGORIES" and "settings_fit settings"
  shows "list_all (fits (WRecord (row_members (c_key c)))) (settings_list settings (c_key c))"
  using record_get [OF assms(2) [unfolded settings_fit_def] category_fitsD(5) [OF assms(1)]]
  by (cases "obj_get settings (c_key c)") (auto simp: settings_list_def)

lemma rows_update_fit:
  assumes c: "c \<in> set CATEGORIES" and "settings_fit settings" and "list_all (fits (WRecord (row_members (c_key c)))) rows"
  shows "settings_fit (rows_update c rows settings)"
proof -
  have "list_all (fits (WRecord (row_members (c_key c)))) (snd (rowsOf settings c) @ rows)"
    using rows_fit [OF assms(1,2)] assms(3) by (auto simp: rowsOf_eq list_all_iff)
  then have "change_fits PolicySettings (c_key c, JArr (snd (rowsOf settings c) @ rows))"
    using category_fitsD(5) [OF c] by (simp add: change_fits_def)
  with record_put [OF settings_members_distinct] assms(2) show ?thesis
    by (simp add: settings_fit_def rows_update_def)
qed

lemma set_remove_at: "set (remove_at i xs) \<subseteq> set xs"
  by (auto simp: remove_at_def dest: in_set_takeD in_set_dropD)

definition editor_fits :: "category_spec \<Rightarrow> rows_editor \<Rightarrow> bool" where
  "editor_fits c s \<longleftrightarrow>
     settings_fit (re_settings s) \<and> (re_editing s \<noteq> NotEditing \<longrightarrow> fits (WRecord (row_members (c_key c))) (JObj (re_draft s))) \<and>
     (\<forall>i. re_editing s = Editing i \<longrightarrow> i < length (fst (rowsOf (re_settings s) c)))"

lemma editor_fits_step:
  assumes c: "c \<in> set CATEGORIES" and s: "editor_fits c s" and step: "rows_step c s a s'"
    and typed: "\<And>ev. a = InDialog ev \<Longrightarrow> event_typed c (re_draft s) ev"
  shows "editor_fits c s'"
proof -
  have mine: "list_all (fits (WRecord (row_members (c_key c)))) (fst (rowsOf (re_settings s) c))"
    using rows_fit [OF c, of "re_settings s"] s by (auto simp: editor_fits_def rowsOf_eq list_all_iff)
  from step show ?thesis
  proof cases
    case Add
    with s category_fitsD(2) [OF c] show ?thesis by (simp add: RowsEditor_def Let_def editor_fits_def entry_draft_def)
  next
    case (Edit i)
    then have "fits (WRecord (row_members (c_key c))) (fst (rowsOf (re_settings s) c) ! i)"
      using mine by (simp add: list_all_iff)
    then have "fits (WRecord (row_members (c_key c))) (JObj (entry_draft c (Editing i) (re_settings s)))"
      using record_object [of "row_members (c_key c)" "fst (rowsOf (re_settings s) c) ! i"] Edit
      by (auto simp: entry_draft_def Let_def)
    with Edit s show ?thesis by (simp add: RowsEditor_def Let_def editor_fits_def)
  next
    case (Dialog fetched ev)
    have "fits (WRecord (row_members (c_key c))) (JObj (EntryDialog ev (re_draft s)))"
      using Dialog s typed by (intro dialog_fits [OF c, of _ fetched]) (auto simp: editor_fits_def)
    with Dialog s show ?thesis by (simp add: RowsEditor_def Let_def editor_fits_def)
  next
    case Close
    with s show ?thesis by (simp add: RowsEditor_def Let_def editor_fits_def)
  next
    case Submit
    have draft: "fits (WRecord (row_members (c_key c))) (JObj (re_draft s))" using s Submit by (simp add: editor_fits_def)
    show ?thesis
    proof (cases "re_editing s")
      case EditingNew
      have "settings_fit (rows_update c (fst (rowsOf (re_settings s) c) @ [JObj (re_draft s)]) (re_settings s))"
        using s mine draft by (intro rows_update_fit [OF c]) (auto simp: editor_fits_def)
      with Submit EditingNew show ?thesis by (simp add: RowsEditor_def Let_def editor_fits_def)
    next
      case (Editing i)
      then have "i < length (fst (rowsOf (re_settings s) c))" using s by (simp add: editor_fits_def)
      then have "settings_fit (rows_update c (set_at i (JObj (re_draft s)) (fst (rowsOf (re_settings s) c))) (re_settings s))"
        using s mine draft set_update_subset_insert [of "fst (rowsOf (re_settings s) c)" i "JObj (re_draft s)"]
        by (intro rows_update_fit [OF c]) (auto simp: editor_fits_def set_at_def list_all_iff)
      with Submit Editing show ?thesis by (simp add: RowsEditor_def Let_def editor_fits_def)
    qed (use Submit in simp)
  next
    case (Remove i)
    have "settings_fit (rows_update c (remove_at i (fst (rowsOf (re_settings s) c))) (re_settings s))"
      using s mine set_remove_at [of i "fst (rowsOf (re_settings s) c)"]
      by (intro rows_update_fit [OF c]) (auto simp: editor_fits_def list_all_iff)
    with Remove show ?thesis by (simp add: RowsEditor_def Let_def editor_fits_def)
  qed
qed

section \<open>Settings configured once\<close>

text \<open>Spreading one object of the shape over another gives one of the shape, unless a member that has to be there is
  undefined in the second - which it is not, as it is of the shape.\<close>

lemma spread_set:
  "set (obj_spread a b) \<subseteq> set a \<union> set b" "distinct (obj_keys a) \<Longrightarrow> distinct (obj_keys (obj_spread a b))"
  unfolding obj_spread_def
proof (induction b arbitrary: a)
  case (Cons x b)
  obtain k v where x: "x = (k, v)" by (cases x)
  {
    case 1
    from Cons(1) [of "obj_put k v a"] set_obj_put [of k v a] show ?case by (auto simp: x)
  next
    case 2
    with Cons(2) [of "obj_put k v a"] show ?case by (simp add: x obj_put_distinct)
  }
qed simp_all

lemma record_merge:
  assumes ms: "distinct (map fst ms)" and a: "fits (WRecord ms) (JObj a)" and b: "fits (WRecord ms) (JObj b)"
  shows "fits (WRecord ms) (JObj (obj_spread a b))"
proof -
  have b': "distinct (obj_keys b)" "list_all (\<lambda>(k, x). x = JUndef \<or> k \<in> fst ` set ms) b" using b by (simp_all add: fits.simps(8))
  have "if obj_get (obj_spread a b) k = JUndef then p = May else fits w (obj_get (obj_spread a b) k)" if "(k, p, w) \<in> set ms" for k p w
    using a b that b'(1) by (auto simp: fits.simps(8) obj_spread_get list_all_iff)
  moreover have "distinct (obj_keys (obj_spread a b))" using a by (simp add: fits.simps(8) spread_set)
  moreover have "list_all (\<lambda>(k, x). x = JUndef \<or> k \<in> fst ` set ms) (obj_spread a b)"
    using a b'(2) spread_set(1) [of a b] by (auto simp: fits.simps(8) list_all_iff)
  ultimately show ?thesis by (auto simp: fits.simps(8) list_all_iff)
qed

definition single_members :: "string \<Rightarrow> wire_member list" where
  "single_members key = (case map_of PolicySettings key of Some (p, WMaybe (WRecord ms)) \<Rightarrow> ms | _ \<Rightarrow> [])"

definition bool_member :: "wire_member list \<Rightarrow> string \<Rightarrow> bool" where
  "bool_member ms k \<longleftrightarrow> member_wire ms k = Some WBool"

definition list_member :: "wire_member list \<Rightarrow> string \<Rightarrow> bool" where
  "list_member ms k \<longleftrightarrow> member_wire ms k = Some (WList WText)"

definition has_member :: "wire_member list \<Rightarrow> string \<Rightarrow> (wire \<Rightarrow> bool) \<Rightarrow> bool" where
  "has_member ms k P \<longleftrightarrow> (case member_wire ms k of None \<Rightarrow> False | Some w \<Rightarrow> P w)"

text \<open>A control that gives what its member takes, for every value where no value can be wrong.\<close>

definition control_fits :: "wire_member list \<Rightarrow> control \<Rightarrow> bool" where
  "control_fits ms c \<longleftrightarrow>
     (case c of
        Text k \<Rightarrow> has_member ms k (\<lambda>w. takes_text w \<or> (case w of WOneOf xs \<Rightarrow> True | _ \<Rightarrow> False))
      | Trimmed k \<Rightarrow> text_member ms k
      | Number k \<Rightarrow> has_member ms k takes_number
      | Tick k \<Rightarrow> bool_member ms k
      | TickNot k \<Rightarrow> bool_member ms k
      | Either k yes \<Rightarrow> bool_member ms k
      | TextClearing k other \<Rightarrow> text_member ms k \<and> text_member ms other
      | ListOf k \<Rightarrow> list_member ms k
      | Lines k \<Rightarrow> list_member ms k
      | Commas k \<Rightarrow> list_member ms k
      | Toggle k \<Rightarrow> has_member ms k takes_list
      | Bookmarks \<Rightarrow> member_wire ms ''bookmarks'' = Some (WList (WRecord Bookmark))
      | Document k \<Rightarrow> member_wire ms k = Some WObject
      | Picture k name clear \<Rightarrow> text_member ms k \<and> text_member ms name \<and> list_all (change_fits ms) clear)"

definition single_fits :: "wire_member list \<Rightarrow> single_editor \<Rightarrow> bool" where
  "single_fits ms e \<longleftrightarrow>
     distinct (map fst ms) \<and> fits (WRecord ms) (JObj (e_defaults e)) \<and> (e_refill e = Replacing \<longrightarrow> fits (WRecord ms) (JObj [])) \<and>
     list_all (\<lambda>(c, w). control_fits ms c) (e_controls e)"

definition single_models :: "wire_member list list" where
  "single_models =
     [SystemUpdates, LoginScreen, AlwaysOnVpn, LocalAdministrator, GraphicsDrivers, Certificates, Grub,
      RemoteDesktopSession, AgentUpdate, LocalPasswordPolicy, RoamingProfile, PowerSettings, Regional, DeviceControl,
      PasswordManager, ComputerNames, FirmwareUpdates, ScreenLock, RemovableStorage, DesktopTheme, SecondFactor,
      SoftwareControl, FirstRun, BrowserSettings, BrowserSettings]"

lemma single_editor_keys:
  "map e_key single_editors =
     [''updates'', ''login_screen'', ''always_on_vpn'', ''local_administrator'', ''graphics_drivers'',
      ''certificates'', ''grub'', ''remote_desktop_session'', ''agent_update'', ''local_password_policy'',
      ''roaming_profile'', ''power'', ''regional'', ''device_control'', ''password_manager'', ''computer_names'',
      ''firmware_updates'', ''screen_lock'', ''removable_storage'', ''desktop_theme'', ''second_factor'',
      ''software_control'', ''first_run'', ''firefox_policy'', ''chromium_policy'']"
  by code_simp

lemma single_schema: "map (\<lambda>e. map_of PolicySettings (e_key e)) single_editors = map (\<lambda>ms. Some (May, WMaybe (WRecord ms))) single_models"
proof -
  let ?pairs = "zip (map e_key single_editors) single_models"
  have "list_all2 (\<lambda>i x. PolicySettings ! i = (fst x, May, WMaybe (WRecord (snd x))) \<and> i < length PolicySettings)
      [17, 18, 38, 39, 40, 45, 41, 42, 44, 20, 16, 27, 47, 30, 32, 31, 49, 28, 29, 33, 34, 36, 35, 13, 14] ?pairs"
    unfolding single_editor_keys single_models_def schema_length by (simp add: PolicySettings_def)
  from schema_at [OF this] have "map (\<lambda>k. map_of PolicySettings k) (map fst ?pairs) = map (\<lambda>ms. Some (May, WMaybe (WRecord ms))) (map snd ?pairs)"
    by (simp add: comp_def)
  moreover have "length single_editors = length single_models" by (simp add: single_editors_def single_models_def)
  ultimately show ?thesis by (simp add: comp_def)
qed

lemma browser_fits: "single_fits BrowserSettings (BrowserSettingsEditor which)"
  by code_simp

lemma other_singles_fit: "list_all2 single_fits (take 23 single_models) (take 23 single_editors)"
  by code_simp

lemma singles_fit_models: "list_all2 single_fits single_models single_editors"
proof -
  have "single_models = take 23 single_models @ [BrowserSettings, BrowserSettings]" by (simp add: single_models_def)
  moreover have "single_editors = take 23 single_editors @ [BrowserSettingsEditor ''firefox_policy'', BrowserSettingsEditor ''chromium_policy'']"
    by (simp add: single_editors_def)
  ultimately show ?thesis using other_singles_fit browser_fits by (metis list_all2_appendI list_all2_Cons list_all2_Nil)
qed

lemma singles_fit:
  assumes "e \<in> set single_editors"
  shows "single_fits (single_members (e_key e)) e" and "map_of PolicySettings (e_key e) = Some (May, WMaybe (WRecord (single_members (e_key e))))"
  using model_of [OF singles_fit_models single_schema assms] by (auto simp: single_members_def)

text \<open>What is typed into a number, chosen from fixed words or written as a document has to be of the member's shape.\<close>

definition change_typed :: "single_editor \<Rightarrow> jsobj \<Rightarrow> single_event \<Rightarrow> bool" where
  "change_typed e settings ev \<longleftrightarrow>
     (case ev of
        Change c cev \<Rightarrow>
          (let ms = single_members (e_key e); cur = fields_of (obj_get settings (e_key e))
           in (case c of Number k \<Rightarrow> False | Toggle k \<Rightarrow> False | Document k \<Rightarrow> False | Text k \<Rightarrow> text_member ms k | _ \<Rightarrow> True) \<or>
              (case control_changes c cur cev of None \<Rightarrow> True | Some ch \<Rightarrow> list_all (change_fits ms) ch))
      | _ \<Rightarrow> True)"

lemma bool_change [simp]: "bool_member ms k \<Longrightarrow> change_fits ms (k, JBool b)"
  by (auto simp: bool_member_def member_wire_def change_fits_def)

lemma strs_change [simp]: "list_member ms k \<Longrightarrow> change_fits ms (k, strs ts)"
  by (auto simp: list_member_def member_wire_def change_fits_def strs_eq list_all_iff)

lemma bookmarks_fit: "list_all (fits (WRecord Bookmark)) (bookmarks_of t)"
proof -
  have "fits (WRecord Bookmark) (bookmark_of l)" for l
    by (simp add: bookmark_of_def Let_def Bookmark_def obj_keys_def fits.simps(8))
  then show ?thesis by (auto simp: bookmarks_of_def list_all_iff)
qed

lemma control_changes_fit:
  assumes "control_fits ms c" and "control_changes c cur ev = Some ch"
    and "case c of Number k \<Rightarrow> False | Toggle k \<Rightarrow> False | Document k \<Rightarrow> False | Text k \<Rightarrow> text_member ms k | _ \<Rightarrow> True"
  shows "list_all (change_fits ms) ch"
proof (cases c)
  case Bookmarks
  with assms(1,2) bookmarks_fit show ?thesis
    by (auto simp: control_fits_def control_changes_def on_enter_def member_wire_def change_fits_def split: control_event.splits)
qed (use assms in \<open>auto simp: control_fits_def control_changes_def on_enter_def on_tap_def split: control_event.splits\<close>)

lemma edit_single_fits:
  assumes e: "e \<in> set single_editors" and s: "settings_fit settings" and typed: "change_typed e settings ev"
  shows "settings_fit (edit_single e ev settings)"
proof -
  define ms where "ms = single_members (e_key e)"
  have e': "distinct (map fst ms)" "map_of PolicySettings (e_key e) = Some (May, WMaybe (WRecord ms))"
      "fits (WRecord ms) (JObj (e_defaults e))" "e_refill e = Replacing \<Longrightarrow> fits (WRecord ms) (JObj [])"
      "(c, w) \<in> set (e_controls e) \<Longrightarrow> control_fits ms c" for c w
    using singles_fit [OF e] by (auto simp: single_fits_def ms_def list_all_iff)
  have put: "settings_fit (obj_put (e_key e) v settings)" if "v = JUndef \<or> fits (WRecord ms) v" for v
  proof -
    have "change_fits PolicySettings (e_key e, v)" using that e'(2) by (auto simp: change_fits_def)
    with record_put [OF settings_members_distinct] s show ?thesis by (simp add: settings_fit_def)
  qed
  show ?thesis
  proof (cases ev)
    case AddSetting
    with put e'(3) s show ?thesis by (simp add: edit_single_def Let_def)
  next
    case RemoveSetting
    with put s show ?thesis by (simp add: edit_single_def Let_def)
  next
    case (Change c cev)
    define cur where "cur = fields_of (obj_get settings (e_key e))"
    have step: "settings_fit (edit_single e ev settings)"
      if on: "truthy (obj_get settings (e_key e))" "(c, w) \<in> set (e_controls e)" "control_changes c cur cev = Some ch" "offered_when w cur" for w ch
    proof -
      have "obj_get settings (e_key e) \<noteq> JUndef" "obj_get settings (e_key e) \<noteq> JNull" using on(1) by auto
      with record_get [OF s [unfolded settings_fit_def] e'(2)] have now: "fits (WRecord ms) (obj_get settings (e_key e))" by simp
      then obtain ps where ps: "obj_get settings (e_key e) = JObj ps" using record_object by blast
      have cur: "cur = ps" by (simp add: cur_def ps fields_of_def)
      have "list_all (change_fits ms) ch"
        using typed control_changes_fit [OF e'(5) [OF on(2)] on(3)] on(3)
        unfolding change_typed_def Change Let_def ms_def [symmetric] cur_def [symmetric] by auto
      moreover have "fits (WRecord ms) (JObj (refilled e ps))"
      proof (cases "e_refill e")
        case WithDefaults
        have "fits (WRecord ms) (JObj ps)" using now ps by simp
        from record_merge [OF e'(1,3) this] WithDefaults show ?thesis by (simp add: refilled_def)
      qed (use now ps e'(4) in \<open>simp_all add: refilled_def\<close>)
      ultimately have "fits (WRecord ms) (JObj (obj_spread (refilled e cur) ch))"
        using record_spread [OF e'(1)] cur by simp
      with put have "settings_fit (obj_put (e_key e) (JObj (obj_spread (refilled e cur) ch)) settings)" by blast
      moreover have "\<exists>(d, w) \<in> set (e_controls e). d = c \<and> offered_when w cur" using on(2,4) by blast
      ultimately show ?thesis using on(1,3) Change by (simp add: edit_single_def Let_def cur_def)
    qed
    show ?thesis
    proof (cases "truthy (obj_get settings (e_key e)) \<and> (\<exists>(d, w) \<in> set (e_controls e). d = c \<and> offered_when w cur)")
      case True
      then obtain w where "(c, w) \<in> set (e_controls e)" "offered_when w cur" by auto
      with step True s Change show ?thesis
        by (cases "control_changes c cur cev") (auto simp: edit_single_def Let_def cur_def)
    next
      case False
      then have "edit_single e ev settings = settings" unfolding Change edit_single_def Let_def cur_def by auto
      with s show ?thesis by simp
    qed
  qed
qed

section \<open>Properties\<close>

text \<open>C4: Whatever is done to the entries of a list - added, changed in any of its fields or its targeting, removed - the
  settings keep the shape the control plane takes, provided that numbers are typed where numbers are asked for, the
  days of a rule are days, and a certificate's profile is one of those known.\<close>

theorem saved_entries_fit_the_schema:
  assumes "c \<in> set CATEGORIES" and "typed_reach c s0 s" and "settings_fit (re_settings s0)"
  shows "settings_fit (re_settings s)"
proof -
  from assms(2) have "editor_fits c s"
  proof (induction rule: typed_reach.induct)
    case TypedStart
    with assms(3) show ?case by (simp add: editor_fits_def)
  next
    case (TypedStep s a s')
    with editor_fits_step [OF assms(1)] show ?case by blast
  qed
  then show ?thesis by (simp add: editor_fits_def)
qed

definition rows_editor_open :: "jsobj \<Rightarrow> rows_editor" where
  "rows_editor_open settings = \<lparr>re_settings = settings, re_editing = NotEditing, re_draft = []\<rparr>"

definition rows_run :: "category_spec \<Rightarrow> rows_action list \<Rightarrow> jsobj \<Rightarrow> rows_editor" where
  "rows_run c as settings = fold (RowsEditor c) as (rows_editor_open settings)"

theorem saved_entries_fit_the_schema_witness:
  "let port = c_fields category_firewall ! 4;
       s = rows_run category_firewall [AddEntry, InDialog (CellEvent port (Typed ''443'')), SubmitEntry] []
   in typed_reach category_firewall (rows_editor_open []) s \<and> settings_fit (re_settings s) \<and>
      map (\<lambda>r. row_get r ''port'') (settings_list (re_settings s) ''firewall'') = [JNum 443]"
proof -
  define port where "port = c_fields category_firewall ! 4"
  define s0 where "s0 = rows_editor_open []"
  define s1 where "s1 = RowsEditor category_firewall AddEntry s0"
  define s2 where "s2 = RowsEditor category_firewall (InDialog (CellEvent port (Typed ''443''))) s1"
  define s3 where "s3 = RowsEditor category_firewall SubmitEntry s2"
  have c: "category_firewall \<in> set CATEGORIES" by (simp add: CATEGORIES_def)
  have e0: "re_editing s0 = NotEditing" by (simp add: s0_def rows_editor_open_def)
  have e1: "re_editing s1 = EditingNew" by (simp add: s1_def RowsEditor_def Let_def)
  have e2: "re_editing s2 = EditingNew" by (simp add: s2_def RowsEditor_def Let_def e1)
  have n: "js_Number ''443'' = JNum 443" by code_simp
  have cell: "Cell port (re_draft s1) (Typed ''443'') = [(''port'', JNum 443)]"
    by (simp add: port_def category_firewall_def field_spec_def Cell_def fromInput_def LIST_FIELDS_def n)
  have typed: "event_typed category_firewall (re_draft s1) (CellEvent port (Typed ''443''))"
  proof -
    have "member_wire (row_members (c_key category_firewall)) (f_key port) = Some (WMaybe WInt)"
      unfolding port_def by code_simp
    then show ?thesis by (simp add: event_typed_def line_typed_def cell)
  qed
  have r0: "typed_reach category_firewall s0 s0" by (rule TypedStart [OF e0])
  have r1: "typed_reach category_firewall s0 s1"
    by (rule TypedStep [OF r0]) (auto simp: s1_def intro: rows_step.Add [OF e0])
  have r2: "typed_reach category_firewall s0 s2"
  proof (rule TypedStep [OF r1])
    show "rows_step category_firewall s1 (InDialog (CellEvent port (Typed ''443''))) s2"
      unfolding s2_def
      by (rule rows_step.Dialog [where fetched = None]) (simp_all add: e1 offered_def port_def category_firewall_def)
  qed (use typed in auto)
  have r3: "typed_reach category_firewall s0 s3"
    by (rule TypedStep [OF r2]) (auto simp: s3_def intro: rows_step.Submit simp: e2)
  have "settings_fit (re_settings s0)" by (simp add: s0_def rows_editor_open_def) code_simp
  from saved_entries_fit_the_schema [OF c r3 this] have fit: "settings_fit (re_settings s3)" .
  have s3: "s3 = rows_run category_firewall [AddEntry, InDialog (CellEvent port (Typed ''443'')), SubmitEntry] []"
    by (simp add: rows_run_def s0_def s1_def s2_def s3_def)
  have "map (\<lambda>r. row_get r ''port'') (settings_list (re_settings s3) ''firewall'') = [JNum 443]"
    by (simp add: s3_def s2_def s1_def s0_def rows_editor_open_def RowsEditor_def Let_def EntryDialog_def entry_draft_def rows_update_def rowsOf_def
        category_firewall_def settings_list_def row_get_def port_def Cell_def fromInput_def LIST_FIELDS_def n field_spec_def)
  with r3 fit show ?thesis
    unfolding Let_def port_def [symmetric] s3 [symmetric] s0_def [symmetric] by blast
qed

text \<open>Edits of any editors, one after the other, each given values of its members' shapes.\<close>

fun edits_typed :: "(single_editor \<times> single_event) list \<Rightarrow> jsobj \<Rightarrow> bool" where
  "edits_typed [] settings \<longleftrightarrow> True"
| "edits_typed ((e, ev) # es) settings \<longleftrightarrow>
     e \<in> set single_editors \<and> change_typed e settings ev \<and> edits_typed es (edit_single e ev settings)"



text \<open>The kinds of a certificate enrolment that the page offers are the profiles of the domain's authority, but only the
  two built in are taken: an entry with any other makes the whole object refused.\<close>

theorem own_profile_is_refused:
  assumes "p \<notin> {''server'', ''client''}"
  shows "let kind = c_fields category_certificate_enrolment ! 0;
             s = rows_run category_certificate_enrolment [AddEntry, InDialog (CellEvent kind (Chosen p)), SubmitEntry] []
         in offered category_certificate_enrolment (Some [p]) (c_blank category_certificate_enrolment) (CellEvent kind (Chosen p)) \<and>
            \<not> settings_fit (re_settings s)"
proof -
  define kind where "kind = c_fields category_certificate_enrolment ! 0"
  define s where "s = rows_run category_certificate_enrolment [AddEntry, InDialog (CellEvent kind (Chosen p)), SubmitEntry] []"
  have offer: "offered category_certificate_enrolment (Some [p]) (c_blank category_certificate_enrolment) (CellEvent kind (Chosen p))"
    by (simp add: offered_def kind_def category_certificate_enrolment_def field_spec_def select_options_def Let_def)
  have "settings_list (re_settings s) ''certificate_enrolment'' =
      [JObj [(''profile'', JStr p), (''path'', JStr ''/etc/ssl/odm''), (''validity_days'', JNum 365), (''renew_before_days'', JNum 30)]]"
    by (simp add: s_def rows_run_def rows_editor_open_def RowsEditor_def Let_def EntryDialog_def entry_draft_def rows_update_def rowsOf_def
        category_certificate_enrolment_def settings_list_def kind_def Cell_def field_spec_def)
  moreover have "\<not> fits (WRecord CertificateEnrolment)
      (JObj [(''profile'', JStr p), (''path'', JStr ''/etc/ssl/odm''), (''validity_days'', JNum 365), (''renew_before_days'', JNum 30)])"
    using assms by (simp add: fits.simps(8) CertificateEnrolment_def obj_keys_def)
  moreover have "list_all (fits (WRecord CertificateEnrolment)) (settings_list (re_settings s) ''certificate_enrolment'')" if "settings_fit (re_settings s)"
  proof -
    have c: "category_certificate_enrolment \<in> set CATEGORIES" by (simp add: CATEGORIES_def)
    have "c_key category_certificate_enrolment = ''certificate_enrolment''" by (simp add: category_certificate_enrolment_def)
    moreover have "row_members ''certificate_enrolment'' = CertificateEnrolment" by (simp add: row_members_def PolicySettings_def)
    ultimately show ?thesis using rows_fit [OF c that] by simp
  qed
  ultimately have "\<not> settings_fit (re_settings s)" by auto
  with offer show ?thesis unfolding Let_def kind_def [symmetric] s_def [symmetric] by blast
qed

theorem own_profile_is_refused_witness:
  "let kind = c_fields category_certificate_enrolment ! 0;
       s = rows_run category_certificate_enrolment [AddEntry, InDialog (CellEvent kind (Chosen ''mail-gateway'')), SubmitEntry] []
   in offered category_certificate_enrolment (Some [''mail-gateway'']) (c_blank category_certificate_enrolment) (CellEvent kind (Chosen ''mail-gateway'')) \<and>
      \<not> settings_fit (re_settings s)"
  by (rule own_profile_is_refused) simp

end
