(* ===== verification/DirectoryPage.thy ===== *)
theory DirectoryPage
  imports ObjectPage
begin

text \<open>
  The directory's page as one machine (\<^verbatim>\<open>pages/Directory.tsx\<close>): the tree and the listing it read, where the
  operator is, what is selected, the menus of the tree and of the rows, and the dialogs they open. An event is a
  click, a key, a drop, a change of the domain, or an answer. The listing is read after a timer whenever the
  container, the filter or the search moves on, and every answer is taken as it comes (\<open>eager_loader\<close>); a request
  made by a refresh asks for what the page showed when the refresh was built.

  Opening an object leaves the page: what happens to it afterwards has no effect.
\<close>

section \<open>Menus\<close>

datatype (plugins only: code size) dir_command =
    CmdCreate string string
  | CmdLink string
  | CmdRename dirobj
  | CmdOpen dirobj
  | CmdContents string
  | CmdPassword dirobj
  | CmdFactor dirobj

record menu_entry =
  me_label :: string
  me_disabled :: bool
  me_command :: dir_command

definition entry :: "string \<Rightarrow> bool \<Rightarrow> dir_command \<Rightarrow> menu_entry" where
  "entry l d c = \<lparr>me_label = l, me_disabled = d, me_command = c\<rparr>"

text \<open>The headings and separators between the entries do nothing and are left out.\<close>

definition containerMenu :: "dirobj \<Rightarrow> menu_entry list" where
  "containerMenu node =
     (let dn = distinguishedName node; isOu = (objectType node = ''ou'')
      in [entry ''New user'' False (CmdCreate ''user'' dn),
          entry ''New group'' False (CmdCreate ''group'' dn),
          entry ''New computer'' False (CmdCreate ''computer'' dn),
          entry ''New organizational unit'' False (CmdCreate ''ou'' dn),
          entry (''Link a policy object'' @ ellipsis) False (CmdLink dn),
          entry ''Rename'' (\<not> isOu) (CmdRename node),
          entry ''Delete'' (\<not> isOu) (CmdOpen node)])"

definition rowMenu :: "dirobj \<Rightarrow> menu_entry list" where
  "rowMenu x =
     [entry ''Open'' False (CmdOpen x),
      entry ''Show contents'' (objectType x \<noteq> ''ou'') (CmdContents (distinguishedName x)),
      entry ''Rename'' False (CmdRename x),
      entry (''Reset password'' @ ellipsis) (objectType x \<noteq> ''user'') (CmdPassword x),
      entry (''Reset second factor'' @ ellipsis) (objectType x \<noteq> ''user'') (CmdFactor x),
      entry (''Link a policy object'' @ ellipsis) (objectType x \<noteq> ''ou'') (CmdLink (distinguishedName x)),
      entry ''Delete'' False (CmdOpen x)]"

section \<open>State\<close>

text \<open>What a listing is asked for: the container, the domain's head, the filter and the search of the page then.\<close>

type_synonym list_key = "string \<times> string \<times> string \<times> string"

definition key_params :: "list_key \<Rightarrow> jsobj" where
  "key_params = (\<lambda>(c, b, t, q). list_params c b t q)"

text \<open>A tree is read on arrival, by a refresh, or by the refresh after a move; a refresh reads a listing next.\<close>

datatype (plugins only: code size) tree_read = FirstTree | RefreshTree list_key | MovedTree list_key

record tree_answer =
  ta_base :: string
  ta_netbios :: string
  ta_domain :: string
  ta_nodes :: "dirobj list"

record bulk_dialog =
  bd_form :: bulk_form
  bd_error :: "string option"
  bd_problems :: "(string \<times> string) list"

record directory_page =
  dp_nodes :: "dirobj list"
  dp_base :: string
  dp_label :: string
  dp_container :: string
  dp_objects :: "dirobj list"
  dp_truncated :: bool
  dp_type :: string
  dp_search :: string
  dp_plumbing :: bool
  dp_creating :: "string option"
  dp_linking :: "string option"
  dp_renaming :: "dirobj option"
  dp_password :: "dirobj option"
  dp_factor :: "dirobj option"
  dp_menu :: "menu_entry list"
  dp_chosen :: "string list"
  dp_messaging :: bool
  dp_messages :: nat
  dp_bulk :: "(nat \<times> bulk_dialog) option"
  dp_opened :: nat
  dp_bulks :: "nat list"
  dp_importing :: bool
  dp_enrolling :: bool
  dp_notice :: "string option"
  dp_error :: "string option"
  dp_loading :: bool
  dp_timer :: bool
  dp_trees :: "tree_read list"
  dp_loads :: "list_key list"
  dp_moves :: "list_key list"
  dp_remembered :: string
  dp_left :: "string option"
  dp_sent :: "api_call list"

text \<open>The name of a container in the page's address comes before the one remembered; either may be empty.\<close>

definition directory_open :: "string \<Rightarrow> string \<Rightarrow> directory_page" where
  "directory_open param stored =
     (let c = (if param \<noteq> [] then param else stored)
      in \<lparr>dp_nodes = [], dp_base = [], dp_label = [], dp_container = c, dp_objects = [], dp_truncated = False, dp_type = [], dp_search = [],
          dp_plumbing = False, dp_creating = None, dp_linking = None, dp_renaming = None, dp_password = None, dp_factor = None,
          dp_menu = [], dp_chosen = [], dp_messaging = False, dp_messages = 0, dp_bulk = None, dp_opened = 0, dp_bulks = [],
          dp_importing = False, dp_enrolling = False, dp_notice = None, dp_error = None, dp_loading = True,
          dp_timer = True, dp_trees = [FirstTree], dp_loads = [], dp_moves = [], dp_remembered = c, dp_left = None, dp_sent = []\<rparr>)"

definition dp_key :: "directory_page \<Rightarrow> list_key" where
  "dp_key s = (dp_container s, dp_base s, dp_type s, dp_search s)"

section \<open>Steps\<close>

definition loadObjects :: "list_key \<Rightarrow> directory_page \<Rightarrow> directory_page" where
  "loadObjects k s = (if fst k = [] then s else s\<lparr>dp_loading := True, dp_error := None, dp_loads := dp_loads s @ [k]\<rparr>)"

definition take_tree :: "tree_answer \<Rightarrow> directory_page \<Rightarrow> directory_page" where
  "take_tree t s =
     s\<lparr>dp_base := ta_base t,
       dp_label := (if ta_netbios t \<noteq> [] then ta_netbios t else if ta_domain t \<noteq> [] then ta_domain t else ta_base t),
       dp_nodes := ta_nodes t,
       dp_container := kept_container (ta_base t) (ta_nodes t) (dp_container s)\<rparr>"

definition object_address :: "dirobj \<Rightarrow> string" where
  "object_address n = ''/directory/object?dn='' @ encodeURIComponent (distinguishedName n)"

definition chosenComputers :: "directory_page \<Rightarrow> string list" where
  "chosenComputers s =
     map distinguishedName (filter (\<lambda>x. distinguishedName x \<in> set (dp_chosen s) \<and> objectType x = ''computer'') (dp_objects s))"

definition all_box :: "directory_page \<Rightarrow> bool" where
  "all_box s \<longleftrightarrow> 0 < length (dp_chosen s) \<and> length (dp_chosen s) = length (dp_objects s)"

definition some_box :: "directory_page \<Rightarrow> bool" where
  "some_box s \<longleftrightarrow> 0 < length (dp_chosen s) \<and> length (dp_chosen s) < length (dp_objects s)"

text \<open>A set of JavaScript as the list of its members in the order they came in.\<close>

fun js_set :: "string list \<Rightarrow> string list \<Rightarrow> string list" where
  "js_set acc [] = acc"
| "js_set acc (x # xs) = js_set (if x \<in> set acc then acc else acc @ [x]) xs"

definition run_command :: "dir_command \<Rightarrow> directory_page \<Rightarrow> directory_page" where
  "run_command c s =
     (case c of
        CmdCreate t dn \<Rightarrow> s\<lparr>dp_container := dn, dp_creating := Some t\<rparr>
      | CmdLink dn \<Rightarrow> s\<lparr>dp_linking := Some dn\<rparr>
      | CmdRename x \<Rightarrow> s\<lparr>dp_renaming := Some x\<rparr>
      | CmdOpen x \<Rightarrow> s\<lparr>dp_left := Some (object_address x)\<rparr>
      | CmdContents dn \<Rightarrow> s\<lparr>dp_container := dn\<rparr>
      | CmdPassword x \<Rightarrow> s\<lparr>dp_password := Some x\<rparr>
      | CmdFactor x \<Rightarrow> s\<lparr>dp_factor := Some x\<rparr>)"

definition bulk_blank :: bulk_dialog where
  "bulk_blank =
     \<lparr>bd_form = \<lparr>bulk_field = ''department'', bulk_value = [], bulk_add = [], bulk_remove = [], bulk_move = [], bulk_enabled = [],
        bulk_busy = False\<rparr>, bd_error = None, bd_problems = []\<rparr>"

datatype (plugins only: code size) bulk_edit =
    BulkField string | BulkValue string | BulkAdd string | BulkRemove string | BulkMove string | BulkEnabled string

definition BULK_FIELDS :: "string list" where
  "BULK_FIELDS = [''department'', ''title'', ''company'', ''physicalDeliveryOfficeName'', ''description'']"

definition edit_bulk :: "bulk_edit \<Rightarrow> bulk_form \<Rightarrow> bulk_form" where
  "edit_bulk e f =
     (case e of
        BulkField v \<Rightarrow> (if v \<in> set BULK_FIELDS then f\<lparr>bulk_field := v\<rparr> else f)
      | BulkValue v \<Rightarrow> f\<lparr>bulk_value := v\<rparr>
      | BulkAdd v \<Rightarrow> f\<lparr>bulk_add := v\<rparr>
      | BulkRemove v \<Rightarrow> f\<lparr>bulk_remove := v\<rparr>
      | BulkMove v \<Rightarrow> f\<lparr>bulk_move := v\<rparr>
      | BulkEnabled v \<Rightarrow> (if v \<in> {[], ''yes'', ''no''} then f\<lparr>bulk_enabled := v\<rparr> else f))"

text \<open>A change was refused as a whole, refused for some of the objects, or made for as many as it says.\<close>

datatype (plugins only: code size) bulk_answer = BulkFailed string | BulkPartly "(string \<times> string) list" | BulkMade nat

datatype (plugins only: code size) dir_event =
    TreeAnswered nat "string + tree_answer"
  | ListTimer
  | ListAnswered nat "string + dirobj list \<times> bool"
  | DomainChanged
  | TreeClicked string
  | SearchTyped string
  | TypeChosen string
  | PlumbingTicked bool
  | Dropped string string
  | MoveAnswered nat "string option"
  | CreateChosen string
  | CreateClosed bool
  | RowClicked dirobj
  | RowDoubleClicked dirobj
  | RowTicked dirobj bool
  | AllTicked bool
  | ClearPressed
  | TreeMenuOpened dirobj
  | RowMenuOpened dirobj
  | MenuPicked nat
  | MessagePressed
  | MessageSubmitted string string bool
  | MessageSent string
  | MessageClosed
  | BulkPressed
  | BulkEdited bulk_edit
  | BulkSubmitted
  | BulkAnswered nat bulk_answer
  | BulkClosed
  | ImportOpened bool
  | ImportDone
  | EnrolOpened bool
  | LinkClosed
  | PasswordClosed
  | FactorClosed
  | RenameClosed bool

definition CREATABLE :: "string list" where
  "CREATABLE = [''user'', ''group'', ''computer'', ''ou'']"

definition start_refresh :: "directory_page \<Rightarrow> directory_page" where
  "start_refresh s = s\<lparr>dp_trees := dp_trees s @ [RefreshTree (dp_key s)]\<rparr>"

definition tree_answered :: "tree_read \<Rightarrow> string + tree_answer \<Rightarrow> directory_page \<Rightarrow> directory_page" where
  "tree_answered r a s =
     (case a of
        Inl msg \<Rightarrow> (case r of RefreshTree k \<Rightarrow> s | _ \<Rightarrow> s\<lparr>dp_error := Some msg\<rparr>)
      | Inr t \<Rightarrow>
          (case r of
             FirstTree \<Rightarrow> take_tree t s
           | RefreshTree k \<Rightarrow> loadObjects k (take_tree t s)
           | MovedTree k \<Rightarrow> loadObjects k (take_tree t s)))"

definition drop_on :: "string \<Rightarrow> string \<Rightarrow> directory_page \<Rightarrow> directory_page" where
  "drop_on src target s =
     (case (if src = [] then None else moveTo src target) of
        None \<Rightarrow> s
      | Some c \<Rightarrow> s\<lparr>dp_error := None, dp_moves := dp_moves s @ [dp_key s], dp_sent := dp_sent s @ [c]\<rparr>)"

text \<open>A dialog is known by the number of its opening. Closing it does not end what it asked for: its answer reaches
  the dialog only while it is open, and the page in any case.\<close>

definition in_dialog :: "nat \<Rightarrow> (bulk_dialog \<Rightarrow> bulk_dialog) \<Rightarrow> directory_page \<Rightarrow> directory_page" where
  "in_dialog i f s =
     (case dp_bulk s of Some (j, d) \<Rightarrow> if j = i then s\<lparr>dp_bulk := Some (j, f d)\<rparr> else s | None \<Rightarrow> s)"

definition set_busy :: "bool \<Rightarrow> bulk_dialog \<Rightarrow> bulk_dialog" where
  "set_busy b d = d\<lparr>bd_form := (bd_form d)\<lparr>bulk_busy := b\<rparr>\<rparr>"

definition bulk_answered :: "nat \<Rightarrow> bulk_answer \<Rightarrow> directory_page \<Rightarrow> directory_page" where
  "bulk_answered i a s =
     (case a of
        BulkFailed msg \<Rightarrow> in_dialog i (\<lambda>d. set_busy False (d\<lparr>bd_error := Some msg\<rparr>)) s
      | BulkPartly ps \<Rightarrow> in_dialog i (\<lambda>d. set_busy False (d\<lparr>bd_problems := ps\<rparr>)) s
      | BulkMade n \<Rightarrow>
          start_refresh (s\<lparr>dp_bulk := None, dp_chosen := [], dp_notice := Some (show_nat n @ '' object(s) changed.'')\<rparr>))"

definition bulk_submitted :: "nat \<Rightarrow> bulk_dialog \<Rightarrow> directory_page \<Rightarrow> directory_page" where
  "bulk_submitted i d s =
     (case bulk_submit (dp_chosen s) (bd_form d) of
        None \<Rightarrow> s
      | Some c \<Rightarrow>
          s\<lparr>dp_bulk := Some (i, set_busy True (d\<lparr>bd_error := None\<rparr>)), dp_bulks := dp_bulks s @ [i], dp_sent := dp_sent s @ [c]\<rparr>)"

definition dir_react :: "dir_event \<Rightarrow> directory_page \<Rightarrow> directory_page" where
  "dir_react ev s =
     (case ev of
        TreeAnswered i a \<Rightarrow> (if i < length (dp_trees s) then tree_answered (dp_trees s ! i) a s else s)
      | ListTimer \<Rightarrow> (if dp_timer s then loadObjects (dp_key s) (s\<lparr>dp_timer := False\<rparr>) else s)
      | ListAnswered i a \<Rightarrow>
          (if length (dp_loads s) \<le> i then s
           else (case a of
                   Inl msg \<Rightarrow> s\<lparr>dp_error := Some msg, dp_objects := [], dp_loading := False\<rparr>
                 | Inr (xs, trunc) \<Rightarrow> s\<lparr>dp_objects := xs, dp_truncated := trunc, dp_loading := False\<rparr>))
      | DomainChanged \<Rightarrow> start_refresh s
      | TreeClicked dn \<Rightarrow> s\<lparr>dp_search := [], dp_container := dn\<rparr>
      | SearchTyped q \<Rightarrow> s\<lparr>dp_search := q\<rparr>
      | TypeChosen t \<Rightarrow> (if t = [] \<or> t \<in> set CREATABLE then s\<lparr>dp_type := t\<rparr> else s)
      | PlumbingTicked b \<Rightarrow> s\<lparr>dp_plumbing := b\<rparr>
      | Dropped src target \<Rightarrow> drop_on src target s
      | MoveAnswered i failure \<Rightarrow>
          (if length (dp_moves s) \<le> i then s
           else (case failure of
                   Some msg \<Rightarrow> s\<lparr>dp_error := Some msg\<rparr>
                 | None \<Rightarrow> s\<lparr>dp_trees := dp_trees s @ [MovedTree (dp_moves s ! i)]\<rparr>))
      | CreateChosen t \<Rightarrow> (if t \<in> set CREATABLE then s\<lparr>dp_creating := Some t\<rparr> else s)
      | CreateClosed created \<Rightarrow>
          (if dp_creating s = None then s
           else let t = s\<lparr>dp_creating := None\<rparr> in if created then start_refresh t else t)
      | RowClicked x \<Rightarrow> (if x \<in> set (dp_objects s) then run_command (CmdOpen x) s else s)
      | RowDoubleClicked x \<Rightarrow>
          (if x \<in> set (dp_objects s) \<and> objectType x = ''ou'' then s\<lparr>dp_container := distinguishedName x\<rparr> else s)
      | RowTicked x b \<Rightarrow>
          (if x \<notin> set (dp_objects s) then s
           else if b then s\<lparr>dp_chosen := js_set (dp_chosen s) [distinguishedName x]\<rparr>
           else s\<lparr>dp_chosen := filter (\<lambda>d. d \<noteq> distinguishedName x) (dp_chosen s)\<rparr>)
      | AllTicked b \<Rightarrow> s\<lparr>dp_chosen := (if b then js_set [] (map distinguishedName (dp_objects s)) else [])\<rparr>
      | ClearPressed \<Rightarrow> s\<lparr>dp_chosen := []\<rparr>
      | TreeMenuOpened n \<Rightarrow> (if n \<in> set (Directory.visible (dp_plumbing s) (dp_nodes s)) then s\<lparr>dp_menu := containerMenu n\<rparr> else s)
      | RowMenuOpened x \<Rightarrow> (if x \<in> set (dp_objects s) then s\<lparr>dp_menu := rowMenu x\<rparr> else s)
      | MenuPicked i \<Rightarrow>
          (if i < length (dp_menu s) \<and> \<not> me_disabled (dp_menu s ! i)
           then run_command (me_command (dp_menu s ! i)) (s\<lparr>dp_menu := []\<rparr>) else s)
      | MessagePressed \<Rightarrow> (if chosenComputers s \<noteq> [] then s\<lparr>dp_messaging := True\<rparr> else s)
      | MessageSubmitted title words critical \<Rightarrow>
          (if dp_messaging s \<and> words \<noteq> []
           then s\<lparr>dp_messages := Suc (dp_messages s),
                  dp_sent := dp_sent s @
                    [Call_machines (Mach_message (chosenComputers s) title words (if critical then ''critical'' else ''normal''))]\<rparr>
           else s)
      | MessageSent summary \<Rightarrow> (if dp_messages s = 0 then s else s\<lparr>dp_notice := Some summary, dp_messaging := False\<rparr>)
      | MessageClosed \<Rightarrow> s\<lparr>dp_messaging := False\<rparr>
      | BulkPressed \<Rightarrow>
          (if dp_chosen s \<noteq> [] \<and> dp_bulk s = None
           then s\<lparr>dp_bulk := Some (dp_opened s, bulk_blank), dp_opened := Suc (dp_opened s)\<rparr> else s)
      | BulkEdited e \<Rightarrow>
          (case dp_bulk s of None \<Rightarrow> s | Some (i, d) \<Rightarrow> s\<lparr>dp_bulk := Some (i, d\<lparr>bd_form := edit_bulk e (bd_form d)\<rparr>)\<rparr>)
      | BulkSubmitted \<Rightarrow> (case dp_bulk s of None \<Rightarrow> s | Some (i, d) \<Rightarrow> bulk_submitted i d s)
      | BulkAnswered k a \<Rightarrow> (if k < length (dp_bulks s) then bulk_answered (dp_bulks s ! k) a s else s)
      | BulkClosed \<Rightarrow> s\<lparr>dp_bulk := None\<rparr>
      | ImportOpened b \<Rightarrow> s\<lparr>dp_importing := b\<rparr>
      | ImportDone \<Rightarrow> (if dp_importing s then start_refresh s else s)
      | EnrolOpened b \<Rightarrow> s\<lparr>dp_enrolling := b\<rparr>
      | LinkClosed \<Rightarrow> s\<lparr>dp_linking := None\<rparr>
      | PasswordClosed \<Rightarrow> s\<lparr>dp_password := None\<rparr>
      | FactorClosed \<Rightarrow> s\<lparr>dp_factor := None\<rparr>
      | RenameClosed renamed \<Rightarrow>
          (if dp_renaming s = None then s
           else let t = s\<lparr>dp_renaming := None\<rparr> in if renamed then start_refresh t else t))"

text \<open>The effects that follow a render: a new timer when what is to be listed is another, and the container remembered.\<close>

definition dir_effects :: "directory_page \<Rightarrow> directory_page \<Rightarrow> directory_page" where
  "dir_effects s t =
     (let u = (if dp_key t = dp_key s then t else t\<lparr>dp_timer := True\<rparr>)
      in if dp_container t = dp_container s \<or> dp_container t = [] then u else u\<lparr>dp_remembered := dp_container t\<rparr>)"

definition dir_live :: "dir_event \<Rightarrow> directory_page \<Rightarrow> directory_page" where
  "dir_live ev s = dir_effects s (dir_react ev s)"

definition dir_step :: "dir_event \<Rightarrow> directory_page \<Rightarrow> directory_page" where
  "dir_step ev s = (if dp_left s \<noteq> None then s else dir_live ev s)"

section \<open>The listing\<close>

lemmas dir_splits = sum.split option.split tree_read.split dir_command.split bulk_answer.split prod.split

lemma effects_frame [js_frame]:
  "dp_loads (dir_effects s t) = dp_loads t" "dp_objects (dir_effects s t) = dp_objects t" "dp_sent (dir_effects s t) = dp_sent t"
  "dp_chosen (dir_effects s t) = dp_chosen t" "dp_left (dir_effects s t) = dp_left t" "dp_menu (dir_effects s t) = dp_menu t"
  "dp_password (dir_effects s t) = dp_password t" "dp_factor (dir_effects s t) = dp_factor t" "dp_linking (dir_effects s t) = dp_linking t"
  "dp_renaming (dir_effects s t) = dp_renaming t" "dp_nodes (dir_effects s t) = dp_nodes t" "dp_container (dir_effects s t) = dp_container t"
  by (simp_all add: dir_effects_def Let_def)

lemma helper_frame [js_frame]:
  "dp_objects (loadObjects k s) = dp_objects s" "dp_sent (loadObjects k s) = dp_sent s" "dp_chosen (loadObjects k s) = dp_chosen s"
  "dp_objects (take_tree t s) = dp_objects s" "dp_sent (take_tree t s) = dp_sent s" "dp_chosen (take_tree t s) = dp_chosen s"
  "dp_loads (take_tree t s) = dp_loads s"
  "dp_objects (tree_answered r a s) = dp_objects s" "dp_sent (tree_answered r a s) = dp_sent s" "dp_chosen (tree_answered r a s) = dp_chosen s"
  "dp_objects (start_refresh s) = dp_objects s" "dp_sent (start_refresh s) = dp_sent s" "dp_chosen (start_refresh s) = dp_chosen s"
  "dp_loads (start_refresh s) = dp_loads s"
  "dp_objects (drop_on src dst s) = dp_objects s" "dp_chosen (drop_on src dst s) = dp_chosen s" "dp_loads (drop_on src dst s) = dp_loads s"
  "dp_objects (run_command c s) = dp_objects s" "dp_sent (run_command c s) = dp_sent s" "dp_chosen (run_command c s) = dp_chosen s"
  "dp_loads (run_command c s) = dp_loads s"
  "dp_objects (in_dialog i f s) = dp_objects s" "dp_sent (in_dialog i f s) = dp_sent s" "dp_chosen (in_dialog i f s) = dp_chosen s"
  "dp_loads (in_dialog i f s) = dp_loads s"
  "dp_objects (bulk_answered i x s) = dp_objects s" "dp_sent (bulk_answered i x s) = dp_sent s" "dp_loads (bulk_answered i x s) = dp_loads s"
  "dp_objects (bulk_submitted i d s) = dp_objects s" "dp_chosen (bulk_submitted i d s) = dp_chosen s"
  "dp_loads (bulk_submitted i d s) = dp_loads s"
  by (simp_all add: loadObjects_def take_tree_def tree_answered_def start_refresh_def drop_on_def run_command_def in_dialog_def
      bulk_answered_def bulk_submitted_def split: dir_splits)

lemma loads_grow [js_frame]: "\<exists>ks. dp_loads (loadObjects k s) = dp_loads s @ ks"
  by (simp add: loadObjects_def)

lemma tree_loads_grow: "\<exists>ks. dp_loads (tree_answered r a s) = dp_loads s @ ks"
  by (simp add: tree_answered_def loadObjects_def js_frame split: dir_splits)

definition dir_arrival :: "dir_event \<Rightarrow> (nat \<times> dirobj list) option" where
  "dir_arrival ev =
     (case ev of ListAnswered i a \<Rightarrow> Some (i, case a of Inl msg \<Rightarrow> [] | Inr (xs, trunc) \<Rightarrow> xs) | _ \<Rightarrow> None)"

interpretation listing: eager_loader dir_live dp_loads "\<lambda>s. Some (dp_objects s)" dir_arrival
proof
  fix ev and s :: directory_page
  show "\<exists>ks. dp_loads (dir_live ev s) = dp_loads s @ ks"
  proof (cases ev)
    case (TreeAnswered i a)
    then show ?thesis using tree_loads_grow by (simp add: dir_live_def dir_react_def js_frame)
  next
    case ListTimer
    then show ?thesis by (simp add: dir_live_def dir_react_def loadObjects_def js_frame)
  qed (simp_all add: dir_live_def dir_react_def js_frame Let_def split: sum.split option.split prod.split)
next
  fix ev i v and s :: directory_page
  assume "dir_arrival ev = Some (i, v)" and "i < length (dp_loads s)"
  then show "Some (dp_objects (dir_live ev s)) = Some v"
    by (auto simp: dir_arrival_def dir_live_def dir_react_def js_frame split: dir_event.splits sum.splits)
next
  fix ev v and s :: directory_page
  assume "Some (dp_objects (dir_live ev s)) = Some v"
  then show "Some (dp_objects s) = Some v \<or> (\<exists>i. dir_arrival ev = Some (i, v))"
    by (cases ev)
      (auto simp: dir_arrival_def dir_live_def dir_react_def js_frame Let_def split: sum.splits option.splits if_splits prod.splits)
qed

lemma left_stays: "dp_left s \<noteq> None \<Longrightarrow> fold dir_step evs s = s"
  by (induction evs) (simp_all add: dir_step_def)

lemma open_run: "dp_left (fold dir_step evs s) = None \<Longrightarrow> fold dir_step evs s = fold dir_live evs s"
proof (induction evs arbitrary: s)
  case (Cons ev evs)
  have "dp_left s = None"
  proof (rule ccontr)
    assume "dp_left s \<noteq> None"
    with left_stays [OF this, of "ev # evs"] Cons.prems show False by simp
  qed
  with Cons show ?case by (simp add: dir_step_def)
qed simp

text \<open>While the page is open, what it lists is an answer to a listing it asked for, or nothing; not always to the last one:
  the answer that comes last is listed under whatever container the page is at.\<close>

theorem listing_answers_a_request:
  assumes "dp_left (fold dir_step evs (directory_open p r)) = None"
    and "honest dir_live dp_loads dir_arrival good evs (directory_open p r)"
  shows "dp_objects (fold dir_step evs (directory_open p r)) = [] \<or>
         (\<exists>k \<in> set (dp_loads (fold dir_step evs (directory_open p r))). good k (dp_objects (fold dir_step evs (directory_open p r))))"
proof -
  have run: "fold dir_step evs (directory_open p r) = fold dir_live evs (directory_open p r)" by (rule open_run) (rule assms(1))
  from listing.shown_answers_a_request [OF assms(2), of "dp_objects (fold dir_live evs (directory_open p r))"]
  show ?thesis unfolding run by (auto simp: directory_open_def Let_def)
qed

lemma go_to [simp]:
  assumes "dp_left s = None" and "dn \<noteq> []" and "dn \<noteq> dp_container s"
  shows "fold dir_step [TreeClicked dn, ListTimer] s =
    s\<lparr>dp_search := [], dp_container := dn, dp_timer := False, dp_remembered := dn, dp_loading := True, dp_error := None,
      dp_loads := dp_loads s @ [(dn, dp_base s, dp_type s, [])]\<rparr>"
  using assms by (simp add: dir_step_def dir_live_def dir_effects_def dir_react_def loadObjects_def dp_key_def Let_def)

lemma list_answer [simp]:
  "dp_left s = None \<Longrightarrow> i < length (dp_loads s) \<Longrightarrow>
   dir_step (ListAnswered i (Inr (xs, trunc))) s = s\<lparr>dp_objects := xs, dp_truncated := trunc, dp_loading := False\<rparr>"
  by (simp add: dir_step_def dir_live_def dir_effects_def dir_react_def dp_key_def Let_def)

theorem listing_of_another_container:
  assumes "b \<noteq> []" and "c \<noteq> []" and "b \<noteq> c" and "dp_left s = None" and "dp_container s \<noteq> b" and "n = length (dp_loads s)"
  shows "let t = fold dir_step ([TreeClicked b, ListTimer] @ [TreeClicked c, ListTimer] @
                 [ListAnswered (n + 1) (Inr (ys, False)), ListAnswered n (Inr (xs, False))]) s
         in dp_container t = c \<and> dp_objects t = xs \<and> \<not> dp_loading t \<and>
            dp_loads t = dp_loads s @ [(b, dp_base s, dp_type s, []), (c, dp_base s, dp_type s, [])]"
proof -
  define u where "u = fold dir_step [TreeClicked b, ListTimer] s"
  have u: "u = s\<lparr>dp_search := [], dp_container := b, dp_timer := False, dp_remembered := b, dp_loading := True, dp_error := None,
      dp_loads := dp_loads s @ [(b, dp_base s, dp_type s, [])]\<rparr>"
    unfolding u_def by (rule go_to) (use assms in auto)
  define v where "v = fold dir_step [TreeClicked c, ListTimer] u"
  have v: "v = u\<lparr>dp_search := [], dp_container := c, dp_timer := False, dp_remembered := c, dp_loading := True, dp_error := None,
      dp_loads := dp_loads u @ [(c, dp_base u, dp_type u, [])]\<rparr>"
    unfolding v_def by (rule go_to) (use assms u in auto)
  have w: "fold dir_step [ListAnswered (n + 1) (Inr (ys, False)), ListAnswered n (Inr (xs, False))] v =
      v\<lparr>dp_objects := xs, dp_truncated := False, dp_loading := False\<rparr>"
    using assms u v by simp
  have "fold dir_step ([TreeClicked b, ListTimer] @ [TreeClicked c, ListTimer] @
      [ListAnswered (n + 1) (Inr (ys, False)), ListAnswered n (Inr (xs, False))]) s = v\<lparr>dp_objects := xs, dp_truncated := False, dp_loading := False\<rparr>"
    by (simp only: fold_append o_apply u_def [symmetric] v_def [symmetric] w)
  then show ?thesis using u v by (simp only: Let_def) simp
qed

section \<open>What is selected\<close>

definition listed :: "dir_event list \<Rightarrow> dirobj \<Rightarrow> bool" where
  "listed evs x \<longleftrightarrow> (\<exists>i xs trunc. ListAnswered i (Inr (xs, trunc)) \<in> set evs \<and> x \<in> set xs)"

definition picked :: "dir_event list \<Rightarrow> dirobj \<Rightarrow> bool" where
  "picked evs x \<longleftrightarrow> listed evs x \<and> (RowTicked x True \<in> set evs \<or> AllTicked True \<in> set evs)"

lemma js_set_members [simp]: "set (js_set acc xs) = set acc \<union> set xs"
  by (induction xs arbitrary: acc) auto

lemma js_set_distinct: "distinct acc \<Longrightarrow> distinct (js_set acc xs)"
  by (induction xs arbitrary: acc) auto

text \<open>A call of the page is a drop that moves something, a change of selected objects, or a message to selected computers.\<close>

definition dir_call_ok :: "dir_event list \<Rightarrow> api_call \<Rightarrow> bool" where
  "dir_call_ok evs c \<longleftrightarrow>
     (\<exists>src target. Dropped src target \<in> set evs \<and> src \<noteq> [] \<and> moveTo src target = Some c) \<or>
     (\<exists>ds f. bulk_submit ds f = Some c \<and> distinct ds \<and> (\<forall>d \<in> set ds. \<exists>x. picked evs x \<and> distinguishedName x = d)) \<or>
     (\<exists>ds title words urgency. c = Call_machines (Mach_message ds title words urgency) \<and>
        (\<forall>d \<in> set ds. \<exists>x. listed evs x \<and> objectType x = ''computer'' \<and> distinguishedName x = d \<and>
           (\<exists>y. picked evs y \<and> distinguishedName y = d)))"

definition dir_ok :: "dir_event list \<Rightarrow> directory_page \<Rightarrow> bool" where
  "dir_ok evs s \<longleftrightarrow>
     (\<forall>x \<in> set (dp_objects s). listed evs x) \<and> distinct (dp_chosen s) \<and>
     (\<forall>d \<in> set (dp_chosen s). \<exists>x. picked evs x \<and> distinguishedName x = d) \<and> (\<forall>c \<in> set (dp_sent s). dir_call_ok evs c)"

lemma dir_ok_same:
  "dir_ok evs s \<Longrightarrow> dp_objects t = dp_objects s \<Longrightarrow> dp_chosen t = dp_chosen s \<Longrightarrow> dp_sent t = dp_sent s \<Longrightarrow> dir_ok evs t"
  by (simp add: dir_ok_def)

lemma dir_ok_react:
  assumes ok: "dir_ok all s" and ev: "ev \<in> set all"
  shows "dir_ok all (dir_react ev s)"
proof (cases ev)
  case (ListAnswered i a)
  with ok ev show ?thesis by (auto simp: dir_ok_def dir_react_def listed_def split: sum.split)
next
  case (Dropped src target)
  with ok ev show ?thesis by (auto simp: dir_ok_def dir_react_def drop_on_def dir_call_ok_def split: option.split)
next
  case (RowTicked x b)
  with ok ev show ?thesis by (auto simp: dir_ok_def dir_react_def picked_def)
next
  case (AllTicked b)
  with ok ev show ?thesis by (auto simp: dir_ok_def dir_react_def picked_def js_set_distinct)
next
  case ClearPressed
  with ok show ?thesis by (simp add: dir_ok_def dir_react_def)
next
  case (MessageSubmitted title words critical)
  have "dir_call_ok all (Call_machines (Mach_message (chosenComputers s) title words u))" for u
    using ok unfolding dir_call_ok_def dir_ok_def chosenComputers_def by fastforce
  with ok MessageSubmitted show ?thesis by (auto simp: dir_ok_def dir_react_def)
next
  case BulkSubmitted
  have "dir_call_ok all c" if "bulk_submit (dp_chosen s) f = Some c" for c f
    using ok that unfolding dir_call_ok_def dir_ok_def by blast
  with ok BulkSubmitted show ?thesis
    by (auto simp: dir_ok_def dir_react_def bulk_submitted_def split: option.split prod.split)
next
  case (BulkAnswered k a)
  with ok show ?thesis
    by (auto simp: dir_ok_def dir_react_def bulk_answered_def js_frame split: bulk_answer.split)
qed (use ok in \<open>auto simp: dir_react_def js_frame Let_def split: option.split intro: dir_ok_same\<close>)

lemma dir_ok_run: "dir_ok all s \<Longrightarrow> set evs \<subseteq> set all \<Longrightarrow> dir_ok all (fold dir_step evs s)"
proof (induction evs arbitrary: s)
  case (Cons ev evs)
  have "dir_ok all (dir_step ev s)"
    using Cons.prems dir_ok_react [of all s ev] by (auto simp: dir_step_def dir_live_def dir_ok_def js_frame)
  with Cons show ?case by simp
qed simp



text \<open>What was unticked, or cleared, is not changed until it is ticked again.\<close>

definition ticks :: "string \<Rightarrow> dir_event \<Rightarrow> bool" where
  "ticks d ev \<longleftrightarrow> ev = AllTicked True \<or> (\<exists>x. ev = RowTicked x True \<and> distinguishedName x = d)"

lemma not_ticked_step: "d \<notin> set (dp_chosen s) \<Longrightarrow> \<not> ticks d ev \<Longrightarrow> d \<notin> set (dp_chosen (dir_step ev s))"
  by (cases ev)
    (auto simp: ticks_def dir_step_def dir_live_def dir_react_def js_frame bulk_answered_def in_dialog_def start_refresh_def Let_def
      split: option.splits bulk_answer.splits prod.splits sum.splits)

theorem unticked_is_left_alone:
  assumes "ev = ClearPressed \<or> ev = AllTicked False \<or> (ev = RowTicked x False \<and> x \<in> set (dp_objects s) \<and> distinguishedName x = d)"
    and "dp_left s = None" and "\<forall>e \<in> set evs. \<not> ticks d e"
  shows "d \<notin> set (dp_chosen (fold dir_step (ev # evs) s))"
proof -
  have start: "d \<notin> set (dp_chosen (dir_step ev s))"
    using assms(1,2) by (auto simp: dir_step_def dir_live_def dir_react_def js_frame)
  have "d \<notin> set (dp_chosen u) \<Longrightarrow> \<forall>e \<in> set es. \<not> ticks d e \<Longrightarrow> d \<notin> set (dp_chosen (fold dir_step es u))" for es u
    by (induction es arbitrary: u) (simp_all add: not_ticked_step)
  from this [OF start assms(3)] show ?thesis by simp
qed

text \<open>The selection stays when another container is opened: the change is sent for objects that are listed no more, and the
  box in the heading compares the numbers only, so it is ticked over a listing of which nothing is selected.\<close>

theorem selection_outlives_the_listing:
  assumes "dp_left s = None" and "i < length (dp_loads s)" and "j < length (dp_loads s)" and "xs \<noteq> []" and "length ys = length xs"
    and "distinct (map distinguishedName xs)" and "\<forall>y \<in> set ys. distinguishedName y \<notin> distinguishedName ` set xs"
  shows "let t = fold dir_step [ListAnswered i (Inr (xs, False)), AllTicked True, ListAnswered j (Inr (ys, False))] s
         in dp_objects t = ys \<and> all_box t \<and> dp_chosen t = map distinguishedName xs \<and> (\<forall>y \<in> set (dp_objects t). distinguishedName y \<notin> set (dp_chosen t))"
proof -
  have js: "js_set acc zs = acc @ zs" if "distinct (acc @ zs)" for acc zs
    using that by (induction zs arbitrary: acc) auto
  have tick: "dir_step (AllTicked True) u = u\<lparr>dp_chosen := js_set [] (map distinguishedName (dp_objects u))\<rparr>" if "dp_left u = None" for u
    using that by (simp add: dir_step_def dir_live_def dir_effects_def dir_react_def dp_key_def Let_def)
  show ?thesis using assms by (simp add: tick js Let_def all_box_def)
qed

section \<open>Menus and rows\<close>

definition command_ok :: "dir_command \<Rightarrow> bool" where
  "command_ok c \<longleftrightarrow>
     (case c of CmdPassword x \<Rightarrow> objectType x = ''user'' | CmdFactor x \<Rightarrow> objectType x = ''user'' | CmdCreate t dn \<Rightarrow> t \<in> set CREATABLE | _ \<Rightarrow> True)"

definition menus_ok :: "directory_page \<Rightarrow> bool" where
  "menus_ok s \<longleftrightarrow>
     (\<forall>e \<in> set (dp_menu s). \<not> me_disabled e \<longrightarrow> command_ok (me_command e)) \<and>
     (case dp_password s of None \<Rightarrow> True | Some x \<Rightarrow> objectType x = ''user'') \<and>
     (case dp_factor s of None \<Rightarrow> True | Some x \<Rightarrow> objectType x = ''user'') \<and>
     (case dp_creating s of None \<Rightarrow> True | Some t \<Rightarrow> t \<in> set CREATABLE)"

lemma menus_offer: "e \<in> set (containerMenu n) \<union> set (rowMenu n) \<Longrightarrow> \<not> me_disabled e \<Longrightarrow> command_ok (me_command e)"
  by (auto simp: containerMenu_def rowMenu_def entry_def command_ok_def CREATABLE_def Let_def)

lemma menus_same:
  "menus_ok s \<Longrightarrow> dp_menu t = dp_menu s \<Longrightarrow> dp_password t = dp_password s \<Longrightarrow> dp_factor t = dp_factor s \<Longrightarrow> dp_creating t = dp_creating s \<Longrightarrow>
   menus_ok t"
  by (simp add: menus_ok_def)

lemma dialog_frame [js_frame]:
  "dp_creating (dir_effects s t) = dp_creating t"
  "dp_menu (tree_answered r a s) = dp_menu s" "dp_password (tree_answered r a s) = dp_password s" "dp_factor (tree_answered r a s) = dp_factor s"
  "dp_creating (tree_answered r a s) = dp_creating s"
  "dp_menu (bulk_answered i x s) = dp_menu s" "dp_password (bulk_answered i x s) = dp_password s" "dp_factor (bulk_answered i x s) = dp_factor s"
  "dp_creating (bulk_answered i x s) = dp_creating s"
  by (simp_all add: dir_effects_def tree_answered_def take_tree_def loadObjects_def bulk_answered_def in_dialog_def start_refresh_def Let_def split: dir_splits)

lemma menus_run_command: "menus_ok s \<Longrightarrow> command_ok c \<Longrightarrow> menus_ok (run_command c s)"
  by (auto simp: menus_ok_def run_command_def command_ok_def split: dir_command.split)

lemma menus_react: "menus_ok s \<Longrightarrow> menus_ok (dir_react ev s)"
proof (cases ev)
  case (MenuPicked i)
  assume ok: "menus_ok s"
  show ?thesis
  proof (cases "i < length (dp_menu s) \<and> \<not> me_disabled (dp_menu s ! i)")
    case True
    then have "command_ok (me_command (dp_menu s ! i))" using ok nth_mem [of i "dp_menu s"] by (auto simp: menus_ok_def)
    moreover have "menus_ok (s\<lparr>dp_menu := []\<rparr>)" using ok by (simp add: menus_ok_def)
    ultimately show ?thesis using MenuPicked True by (simp add: dir_react_def menus_run_command)
  next
    case False
    with MenuPicked ok show ?thesis by (auto simp: dir_react_def)
  qed
next
  case (TreeMenuOpened n)
  assume "menus_ok s"
  with TreeMenuOpened menus_offer [of _ n] show ?thesis by (auto simp: dir_react_def menus_ok_def)
next
  case (RowMenuOpened n)
  assume "menus_ok s"
  with RowMenuOpened menus_offer [of _ n] show ?thesis by (auto simp: dir_react_def menus_ok_def)
next
  case (RowClicked x)
  assume "menus_ok s"
  with RowClicked show ?thesis by (simp add: dir_react_def menus_run_command command_ok_def)
qed (auto simp: dir_react_def js_frame Let_def start_refresh_def drop_on_def bulk_submitted_def loadObjects_def menus_ok_def
      split: option.splits sum.splits prod.splits)

text \<open>The dialogs fit the object they are about: a password and a second factor are reset for users only, and what is created
  is one of the four kinds.\<close>

theorem dialogs_fit_their_object:
  "let s = fold dir_step evs (directory_open p r)
   in (case dp_password s of None \<Rightarrow> True | Some x \<Rightarrow> objectType x = ''user'') \<and>
      (case dp_factor s of None \<Rightarrow> True | Some x \<Rightarrow> objectType x = ''user'') \<and>
      (case dp_creating s of None \<Rightarrow> True | Some t \<Rightarrow> t \<in> set CREATABLE)"
proof -
  have "menus_ok s \<Longrightarrow> menus_ok (fold dir_step es s)" for es s
  proof (induction es arbitrary: s)
    case (Cons ev es)
    have "menus_ok (dir_step ev s)"
      using menus_react [OF Cons.prems, of ev] Cons.prems by (simp add: dir_step_def dir_live_def menus_ok_def js_frame)
    with Cons.IH show ?case by simp
  qed simp
  from this [of "directory_open p r" evs] have "menus_ok (fold dir_step evs (directory_open p r))"
    by (simp add: menus_ok_def directory_open_def Let_def)
  then show ?thesis by (simp add: menus_ok_def Let_def)
qed

text \<open>A double click begins with a click, which opens the object and leaves the page: the contents of an organizational unit are
  never shown by it.\<close>

theorem double_click_only_opens_the_object:
  "fold dir_step [RowClicked x, RowClicked x, RowDoubleClicked x] s = dir_step (RowClicked x) s"
proof (cases "dp_left s = None \<and> x \<in> set (dp_objects s)")
  case True
  then have "dp_left (dir_step (RowClicked x) s) \<noteq> None"
    by (simp add: dir_step_def dir_live_def dir_react_def run_command_def js_frame)
  from left_stays [OF this, of "[RowClicked x, RowDoubleClicked x]"] show ?thesis by simp
next
  case False
  have "dir_effects s s = s" by (simp add: dir_effects_def)
  moreover have "dir_react (RowClicked x) s = s" "dir_react (RowDoubleClicked x) s = s" if "x \<notin> set (dp_objects s)"
    using that by (simp_all add: dir_react_def)
  ultimately have "dir_step (RowClicked x) s = s" "dir_step (RowDoubleClicked x) s = s"
    using False by (auto simp: dir_step_def dir_live_def)
  then show ?thesis by simp
qed

section \<open>Where the operator was\<close>

lemma remembered_frame:
  "dp_remembered (tree_answered r a s) = dp_remembered s" "dp_remembered (run_command c s) = dp_remembered s"
  "dp_remembered (bulk_answered i x s) = dp_remembered s" "dp_remembered (bulk_submitted i d s) = dp_remembered s"
  by (simp_all add: tree_answered_def take_tree_def loadObjects_def run_command_def bulk_answered_def bulk_submitted_def in_dialog_def
      start_refresh_def split: dir_splits)

text \<open>The container remembered is always the one the page is at, so leaving it and coming back opens the tree there; the
  answer of the tree keeps it as long as the directory knows it, and otherwise goes to the domain's head.\<close>

theorem page_opens_where_it_was_left:
  assumes "dp_container (fold dir_step evs (directory_open p r)) \<noteq> []"
  shows "dp_container (directory_open [] (dp_remembered (fold dir_step evs (directory_open p r)))) =
         dp_container (fold dir_step evs (directory_open p r))"
proof -
  have "(dp_container s \<noteq> [] \<longrightarrow> dp_remembered s = dp_container s) \<Longrightarrow>
    dp_container (fold dir_step es s) \<noteq> [] \<longrightarrow> dp_remembered (fold dir_step es s) = dp_container (fold dir_step es s)" for es s
  proof (induction es arbitrary: s)
    case (Cons ev es)
    have rem: "dp_remembered (dir_react ev s) = dp_remembered s"
      by (cases ev)
        (auto simp: dir_react_def start_refresh_def drop_on_def loadObjects_def remembered_frame Let_def split: option.split sum.split prod.split)
    have "dp_container (dir_step ev s) \<noteq> [] \<longrightarrow> dp_remembered (dir_step ev s) = dp_container (dir_step ev s)"
      using Cons.prems rem by (auto simp: dir_step_def dir_live_def dir_effects_def Let_def)
    with Cons.IH show ?case by simp
  qed simp
  from this [of "directory_open p r" evs] assms show ?thesis by (simp add: directory_open_def Let_def)
qed

end
