(* ===== verification/PolicyPage.thy ===== *)
theory PolicyPage
  imports Policy
begin

text \<open>
  The page of group policy as one machine (\<^verbatim>\<open>pages/Policy.tsx\<close>): the list of objects, the object that is open with
  its four tabs, and the dialogs. An event is a click, an edit of the form, a change of the domain, or an answer.

  React keeps the component of the open object as long as one is open, so its form is filled once, when it opens; an
  answer that brings another object, or the same one as it has become, changes only what the component is told.
  The editor of the links and the history are filled when their tab is opened. A component is known by a number, so
  that an answer reaches only the one that asked for it.
\<close>

section \<open>State\<close>

record gpo_link =
  gl_id :: string
  gl_target :: string
  gl_order :: int
  gl_enforced :: bool
  gl_enabled :: bool

record policy_object =
  po_gpo :: gpo
  po_links :: "gpo_link list"
  po_link_count :: nat

record revision =
  rv_id :: string
  rv_summary :: string

datatype (plugins only: code size) policy_tab = TabSettings | TabLinks | TabScope | TabHistory

record links_editor =
  le_id :: nat
  le_links :: "gpo_link list"
  le_picking :: bool
  le_error :: "string option"

record history_tab =
  ht_id :: nat
  ht_guid :: string
  ht_revisions :: "revision list"
  ht_loading :: bool
  ht_going :: "revision option"
  ht_error :: "string option"

record gpo_detail =
  gd_id :: nat
  gd_form :: gpo_form
  gd_tab :: policy_tab
  gd_busy :: bool
  gd_error :: "string option"
  gd_saved :: bool
  gd_confirming :: bool
  gd_links :: "links_editor option"
  gd_history :: "history_tab option"

text \<open>Requests under way carry the component that made them and the object it was told of then.\<close>

record policy_page =
  pp_rows :: "(string \<times> string) list"
  pp_loading :: bool
  pp_error :: "string option"
  pp_open :: "(policy_object \<times> gpo_detail) option"
  pp_fresh :: nat
  pp_importing :: bool
  pp_creating :: bool
  pp_templates :: bool
  pp_lists :: nat
  pp_gets :: "string list"
  pp_exports :: "string option list"
  pp_downloads :: "(string \<times> string) list"
  pp_saves :: "(nat \<times> string) list"
  pp_removes :: "nat list"
  pp_link_acts :: "(nat \<times> string) list"
  pp_link_gets :: "(nat \<times> string) list"
  pp_histories :: "(nat \<times> string) list"
  pp_backs :: "(nat \<times> string) list"
  pp_sent :: "api_call list"

definition policy_open :: policy_page where
  "policy_open =
     \<lparr>pp_rows = [], pp_loading = True, pp_error = None, pp_open = None, pp_fresh = 0, pp_importing = False, pp_creating = False,
      pp_templates = False, pp_lists = 1, pp_gets = [], pp_exports = [], pp_downloads = [], pp_saves = [], pp_removes = [],
      pp_link_acts = [], pp_link_gets = [], pp_histories = [], pp_backs = [], pp_sent = []\<rparr>"

section \<open>Steps\<close>

definition shown_guid :: "policy_object \<Rightarrow> string" where
  "shown_guid o' = g_guid (po_gpo o')"

definition load_list :: "policy_page \<Rightarrow> policy_page" where
  "load_list s = s\<lparr>pp_error := None, pp_lists := Suc (pp_lists s)\<rparr>"

definition ask_object :: "string \<Rightarrow> policy_page \<Rightarrow> policy_page" where
  "ask_object guid s = s\<lparr>pp_gets := pp_gets s @ [guid]\<rparr>"

definition close_object :: "policy_page \<Rightarrow> policy_page" where
  "close_object s = load_list (s\<lparr>pp_open := None\<rparr>)"

definition new_detail :: "nat \<Rightarrow> policy_object \<Rightarrow> gpo_detail" where
  "new_detail i o' =
     \<lparr>gd_id = i, gd_form = gpo_open (po_gpo o'), gd_tab = TabSettings, gd_busy = False, gd_error = None, gd_saved = False,
      gd_confirming = False, gd_links = None, gd_history = None\<rparr>"

text \<open>The history reads the revisions of the object it is told of, again when that is another.\<close>

definition load_history :: "history_tab \<Rightarrow> policy_page \<Rightarrow> policy_page" where
  "load_history h s = s\<lparr>pp_histories := pp_histories s @ [(ht_id h, ht_guid h)]\<rparr>"

definition take_object :: "policy_object \<Rightarrow> policy_page \<Rightarrow> policy_page" where
  "take_object o' s =
     (case pp_open s of
        None \<Rightarrow> s\<lparr>pp_open := Some (o', new_detail (pp_fresh s) o'), pp_fresh := Suc (pp_fresh s)\<rparr>
      | Some (old, d) \<Rightarrow>
          (case gd_history d of
             Some h \<Rightarrow>
               (if ht_guid h = shown_guid o' then s\<lparr>pp_open := Some (o', d)\<rparr>
                else let h' = h\<lparr>ht_guid := shown_guid o', ht_loading := True, ht_error := None\<rparr>
                     in load_history h' (s\<lparr>pp_open := Some (o', d\<lparr>gd_history := Some h'\<rparr>)\<rparr>))
           | None \<Rightarrow> s\<lparr>pp_open := Some (o', d)\<rparr>))"

definition open_tab :: "policy_tab \<Rightarrow> policy_object \<Rightarrow> gpo_detail \<Rightarrow> policy_page \<Rightarrow> policy_page" where
  "open_tab t o' d s =
     (if t = gd_tab d then s
      else let i = pp_fresh s;
               d' = d\<lparr>gd_tab := t,
                      gd_links := (if t = TabLinks then Some \<lparr>le_id = i, le_links = po_links o', le_picking = False, le_error = None\<rparr> else None),
                      gd_history := (if t = TabHistory
                        then Some \<lparr>ht_id = i, ht_guid = shown_guid o', ht_revisions = [], ht_loading = True, ht_going = None, ht_error = None\<rparr>
                        else None)\<rparr>;
               s' = s\<lparr>pp_open := Some (o', d'), pp_fresh := Suc i\<rparr>
           in (case gd_history d' of Some h \<Rightarrow> load_history h s' | None \<Rightarrow> s'))"

text \<open>What is set in a component that may be gone.\<close>

definition in_detail :: "nat \<Rightarrow> (gpo_detail \<Rightarrow> gpo_detail) \<Rightarrow> policy_page \<Rightarrow> policy_page" where
  "in_detail i f s =
     (case pp_open s of Some (o', d) \<Rightarrow> if gd_id d = i then s\<lparr>pp_open := Some (o', f d)\<rparr> else s | None \<Rightarrow> s)"

definition in_links :: "nat \<Rightarrow> (links_editor \<Rightarrow> links_editor) \<Rightarrow> policy_page \<Rightarrow> policy_page" where
  "in_links i f s =
     (case pp_open s of
        Some (o', d) \<Rightarrow>
          (case gd_links d of Some e \<Rightarrow> if le_id e = i then s\<lparr>pp_open := Some (o', d\<lparr>gd_links := Some (f e)\<rparr>)\<rparr> else s | None \<Rightarrow> s)
      | None \<Rightarrow> s)"

definition in_history :: "nat \<Rightarrow> (history_tab \<Rightarrow> history_tab) \<Rightarrow> policy_page \<Rightarrow> policy_page" where
  "in_history i f s =
     (case pp_open s of
        Some (o', d) \<Rightarrow>
          (case gd_history d of Some h \<Rightarrow> if ht_id h = i then s\<lparr>pp_open := Some (o', d\<lparr>gd_history := Some (f h)\<rparr>)\<rparr> else s | None \<Rightarrow> s)
      | None \<Rightarrow> s)"

definition run_link :: "links_editor \<Rightarrow> string \<Rightarrow> api_call \<Rightarrow> policy_page \<Rightarrow> policy_page" where
  "run_link e guid c s =
     (in_links (le_id e) (\<lambda>x. x\<lparr>le_error := None\<rparr>) s)\<lparr>pp_link_acts := pp_link_acts s @ [(le_id e, guid)], pp_sent := pp_sent s @ [c]\<rparr>"

definition export_name :: "string option \<Rightarrow> string" where
  "export_name guid =
     (case guid of Some g \<Rightarrow> if g = [] then ''group-policy-export.json'' else ''gpo-'' @ g @ ''.json'' | None \<Rightarrow> ''group-policy-export.json'')"

datatype (plugins only: code size) policy_event =
    ListChanged
  | RowsAnswered "string + (string \<times> string) list"
  | RowOpened string
  | ObjectAnswered nat "string + policy_object"
  | ExportPressed "string option"
  | ExportAnswered nat "string + string"
  | RowDeleted string
  | RowDeleteAnswered "string option"
  | TemplatesShown bool
  | ImportShown bool
  | ImportFinished
  | CreateShown bool
  | CreateFinished

definition list_step :: "policy_event \<Rightarrow> policy_page \<Rightarrow> policy_page" where
  "list_step ev s =
     (case ev of
        ListChanged \<Rightarrow> load_list s
      | RowsAnswered a \<Rightarrow>
          (case a of Inl msg \<Rightarrow> s\<lparr>pp_error := Some msg, pp_loading := False\<rparr> | Inr rows \<Rightarrow> s\<lparr>pp_rows := rows, pp_loading := False\<rparr>)
      | RowOpened guid \<Rightarrow> (if pp_open s = None \<and> guid \<in> fst ` set (pp_rows s) then ask_object guid s else s)
      | ObjectAnswered i a \<Rightarrow>
          (if length (pp_gets s) \<le> i then s
           else (case a of Inl msg \<Rightarrow> s\<lparr>pp_error := Some msg\<rparr> | Inr o' \<Rightarrow> take_object o' s))
      | ExportPressed guid \<Rightarrow> (if pp_open s = None then s\<lparr>pp_exports := pp_exports s @ [guid]\<rparr> else s)
      | ExportAnswered i a \<Rightarrow>
          (if length (pp_exports s) \<le> i then s
           else (case a of
                   Inl msg \<Rightarrow> s\<lparr>pp_error := Some msg\<rparr>
                 | Inr body \<Rightarrow> s\<lparr>pp_downloads := pp_downloads s @ [(export_name (pp_exports s ! i), body)]\<rparr>))
      | RowDeleted guid \<Rightarrow>
          (if pp_open s = None \<and> guid \<in> fst ` set (pp_rows s) then s\<lparr>pp_sent := pp_sent s @ [Call_policy (Pol_remove guid)]\<rparr> else s)
      | RowDeleteAnswered failure \<Rightarrow> load_list s
      | TemplatesShown b \<Rightarrow> (if pp_open s = None then s\<lparr>pp_templates := b\<rparr> else s)
      | ImportShown b \<Rightarrow> (if pp_open s = None then s\<lparr>pp_importing := b\<rparr> else s)
      | ImportFinished \<Rightarrow> (if pp_importing s then load_list (s\<lparr>pp_importing := False\<rparr>) else s)
      | CreateShown b \<Rightarrow> (if pp_open s = None then s\<lparr>pp_creating := b\<rparr> else s)
      | CreateFinished \<Rightarrow> (if pp_creating s then load_list (s\<lparr>pp_creating := False\<rparr>) else s))"

text \<open>The events of the object that is open; a save is pressed with the files that are being read then, and an answer to
  a removal comes with the browser's words for an error that is none of the API's.\<close>

datatype (plugins only: code size) detail_event =
    FormChanged gpo_event
  | TabChosen policy_tab
  | SavePressed nat
  | SaveAnswered nat "string option"
  | DeleteShown bool
  | DeleteConfirmed
  | DeleteAnswered nat remove_outcome string
  | BackPressed
  | LinkPressed bool
  | LinkPicked string
  | LinkChanged gpo_link link_event
  | LinkAnswered nat "string option"
  | LinksAnswered nat "string + policy_object"
  | HistoryAnswered nat "string + revision list"
  | GoBackPressed revision
  | GoBackClosed
  | GoBackConfirmed
  | WentBack nat "string option"

text \<open>The field of the settings is on one tab, the others on another.\<close>

definition form_tab :: "gpo_event \<Rightarrow> policy_tab" where
  "form_tab ev = (case ev of SetSettings x \<Rightarrow> TabSettings | _ \<Rightarrow> TabScope)"

definition save_answered :: "nat \<times> string \<Rightarrow> string option \<Rightarrow> policy_page \<Rightarrow> policy_page" where
  "save_answered k failure s =
     (case failure of
        Some msg \<Rightarrow> in_detail (fst k) (\<lambda>d. d\<lparr>gd_error := Some msg, gd_busy := False\<rparr>) s
      | None \<Rightarrow> ask_object (snd k) (in_detail (fst k) (\<lambda>d. d\<lparr>gd_saved := True, gd_busy := False\<rparr>) s))"

definition delete_answered :: "nat \<Rightarrow> remove_outcome \<Rightarrow> string \<Rightarrow> policy_page \<Rightarrow> policy_page" where
  "delete_answered i a words s =
     (case a of
        Closed \<Rightarrow> close_object s
      | Failed msg \<Rightarrow> in_detail i (\<lambda>d. d\<lparr>gd_error := Some msg, gd_busy := False\<rparr>) s
      | FailedWith e \<Rightarrow> in_detail i (\<lambda>d. d\<lparr>gd_error := Some words, gd_busy := False\<rparr>) s)"

definition went_back :: "nat \<times> string \<Rightarrow> string option \<Rightarrow> policy_page \<Rightarrow> policy_page" where
  "went_back k failure s =
     (case failure of
        Some msg \<Rightarrow> in_history (fst k) (\<lambda>h. h\<lparr>ht_error := Some msg, ht_going := None\<rparr>) s
      | None \<Rightarrow>
          (ask_object (snd k) (in_history (fst k) (\<lambda>h. h\<lparr>ht_going := None, ht_loading := True, ht_error := None\<rparr>) s))
            \<lparr>pp_histories := pp_histories s @ [k]\<rparr>)"

text \<open>What is done to the object shown.\<close>

definition shown_step :: "detail_event \<Rightarrow> policy_object \<Rightarrow> gpo_detail \<Rightarrow> policy_page \<Rightarrow> policy_page" where
  "shown_step ev o' d s =
     (case ev of
        FormChanged e \<Rightarrow> (if gd_tab d = form_tab e then s\<lparr>pp_open := Some (o', d\<lparr>gd_form := gpo_step e (gd_form d)\<rparr>)\<rparr> else s)
      | TabChosen t \<Rightarrow> open_tab t o' d s
      | SavePressed uploads \<Rightarrow>
          (if \<not> gpo_save_enabled (gd_busy d) uploads then s
           else s\<lparr>pp_open := Some (o', d\<lparr>gd_busy := True, gd_error := None, gd_saved := False\<rparr>),
                  pp_saves := pp_saves s @ [(gd_id d, shown_guid o')], pp_sent := pp_sent s @ [gpo_save (shown_guid o') (gd_form d)]\<rparr>)
      | DeleteShown b \<Rightarrow> s\<lparr>pp_open := Some (o', d\<lparr>gd_confirming := b\<rparr>)\<rparr>
      | DeleteConfirmed \<Rightarrow>
          (if \<not> gd_confirming d \<or> gd_busy d then s
           else s\<lparr>pp_open := Some (o', d\<lparr>gd_busy := True, gd_error := None\<rparr>), pp_removes := pp_removes s @ [gd_id d],
                  pp_sent := pp_sent s @ [Call_policy (Pol_remove (shown_guid o'))]\<rparr>)
      | BackPressed \<Rightarrow> close_object s
      | LinkPressed b \<Rightarrow> (case gd_links d of Some e \<Rightarrow> in_links (le_id e) (\<lambda>x. x\<lparr>le_picking := b\<rparr>) s | None \<Rightarrow> s)
      | LinkPicked dn \<Rightarrow>
          (case gd_links d of
             Some e \<Rightarrow>
               (if le_picking e
                then run_link e (shown_guid o') (Call_policy (Pol_link (shown_guid o') dn)) (in_links (le_id e) (\<lambda>x. x\<lparr>le_picking := False\<rparr>) s)
                else s)
           | None \<Rightarrow> s)
      | LinkChanged l change \<Rightarrow>
          (case gd_links d of
             Some e \<Rightarrow>
               (if l \<in> set (le_links e)
                then (case link_call (gl_id l) (gl_order l) change of Some c \<Rightarrow> run_link e (shown_guid o') c s | None \<Rightarrow> s)
                else s)
           | None \<Rightarrow> s)
      | GoBackPressed r \<Rightarrow>
          (case gd_history d of
             Some h \<Rightarrow> if r \<in> set (ht_revisions h) then in_history (ht_id h) (\<lambda>x. x\<lparr>ht_going := Some r\<rparr>) s else s
           | None \<Rightarrow> s)
      | GoBackClosed \<Rightarrow> (case gd_history d of Some h \<Rightarrow> in_history (ht_id h) (\<lambda>x. x\<lparr>ht_going := None\<rparr>) s | None \<Rightarrow> s)
      | GoBackConfirmed \<Rightarrow>
          (case gd_history d of
             Some h \<Rightarrow>
               (case ht_going h of
                  Some r \<Rightarrow>
                    s\<lparr>pp_backs := pp_backs s @ [(ht_id h, shown_guid o')], pp_sent := pp_sent s @ [Call_policy (Pol_rollback (rv_id r))]\<rparr>
                | None \<Rightarrow> s)
           | None \<Rightarrow> s)
      | _ \<Rightarrow> s)"

definition detail_step :: "detail_event \<Rightarrow> policy_page \<Rightarrow> policy_page" where
  "detail_step ev s =
     (case ev of
        SaveAnswered i failure \<Rightarrow> (if i < length (pp_saves s) then save_answered (pp_saves s ! i) failure s else s)
      | DeleteAnswered i a words \<Rightarrow> (if i < length (pp_removes s) then delete_answered (pp_removes s ! i) a words s else s)
      | LinkAnswered i failure \<Rightarrow>
          (if length (pp_link_acts s) \<le> i then s
           else (case failure of
                   Some msg \<Rightarrow> in_links (fst (pp_link_acts s ! i)) (\<lambda>e. e\<lparr>le_error := Some msg\<rparr>) s
                 | None \<Rightarrow> s\<lparr>pp_link_gets := pp_link_gets s @ [pp_link_acts s ! i]\<rparr>))
      | LinksAnswered i a \<Rightarrow>
          (if length (pp_link_gets s) \<le> i then s
           else (case a of
                   Inl msg \<Rightarrow> in_links (fst (pp_link_gets s ! i)) (\<lambda>e. e\<lparr>le_error := Some msg\<rparr>) s
                 | Inr o' \<Rightarrow> ask_object (snd (pp_link_gets s ! i)) (in_links (fst (pp_link_gets s ! i)) (\<lambda>e. e\<lparr>le_links := po_links o'\<rparr>) s)))
      | HistoryAnswered i a \<Rightarrow>
          (if length (pp_histories s) \<le> i then s
           else in_history (fst (pp_histories s ! i))
                  (\<lambda>h. case a of Inl msg \<Rightarrow> h\<lparr>ht_error := Some msg, ht_loading := False\<rparr>
                       | Inr rs \<Rightarrow> h\<lparr>ht_revisions := rs, ht_loading := False\<rparr>) s)
      | WentBack i failure \<Rightarrow> (if i < length (pp_backs s) then went_back (pp_backs s ! i) failure s else s)
      | _ \<Rightarrow> (case pp_open s of Some (o', d) \<Rightarrow> shown_step ev o' d s | None \<Rightarrow> s))"

datatype (plugins only: code size) any_event = OnList policy_event | OnDetail detail_event

definition policy_step :: "any_event \<Rightarrow> policy_page \<Rightarrow> policy_page" where
  "policy_step ev s = (case ev of OnList e \<Rightarrow> list_step e s | OnDetail e \<Rightarrow> detail_step e s)"

section \<open>Bringing objects in\<close>

text \<open>\<open>JSON.parse\<close> is the language's: what it reads, or what it says of text it cannot read. Reading a member
  of \<open>null\<close> is an error of the language. What the control plane did with the objects is a count of each outcome.\<close>

record import_form =
  if_text :: string
  if_conflict :: string
  if_links :: bool
  if_result :: "(nat \<times> nat \<times> nat) option"
  if_error :: "string option"

definition import_blank :: import_form where
  "import_blank = \<lparr>if_text = [], if_conflict = ''skip'', if_links = False, if_result = None, if_error = None\<rparr>"

datatype (plugins only: code size) import_outcome = ImportClosed | ImportRefused string | ImportCrashed | ImportSent api_call

definition import_submit :: "(string \<Rightarrow> jsval option) \<Rightarrow> import_form \<Rightarrow> import_outcome" where
  "import_submit parse f =
     (if if_result f \<noteq> None then ImportClosed
      else (case parse (if_text f) of
              None \<Rightarrow> ImportRefused ''that is not a policy export: the file is not valid JSON''
            | Some JNull \<Rightarrow> ImportCrashed
            | Some v \<Rightarrow>
                ImportSent (Call_policy (Pol_import (JObj
                  [(''format'', opt_member v ''format''), (''objects'', or_else (opt_member v ''objects'') (JArr [])),
                   (''on_conflict'', JStr (if_conflict f)), (''restore_links'', JBool (if_links f))])))))"

datatype (plugins only: code size) import_edit =
    ImportRead string
  | ImportConflict string
  | ImportLinks bool
  | ImportAnswered "string + nat \<times> nat \<times> nat"

definition import_edit_step :: "import_edit \<Rightarrow> import_form \<Rightarrow> import_form" where
  "import_edit_step ev f =
     (case ev of
        ImportRead t \<Rightarrow> f\<lparr>if_text := t\<rparr>
      | ImportConflict v \<Rightarrow> (if v \<in> {''skip'', ''replace'', ''rename''} then f\<lparr>if_conflict := v\<rparr> else f)
      | ImportLinks b \<Rightarrow> f\<lparr>if_links := b\<rparr>
      | ImportAnswered a \<Rightarrow> (case a of Inl msg \<Rightarrow> f\<lparr>if_error := Some msg\<rparr> | Inr counts \<Rightarrow> f\<lparr>if_result := Some counts, if_error := None\<rparr>))"

definition create_call :: "string \<Rightarrow> string \<Rightarrow> api_call option" where
  "create_call name description = (if name = [] then None else Some (Call_policy (Pol_create name description)))"

section \<open>Saving\<close>

lemmas page_helpers = load_list_def ask_object_def close_object_def load_history_def in_detail_def in_links_def in_history_def run_link_def

definition detail_of :: "policy_page \<Rightarrow> gpo_detail option" where
  "detail_of s = map_option snd (pp_open s)"

text \<open>What the operator did to the form, and what ends the object's component.\<close>

definition typed :: "policy_tab \<Rightarrow> any_event list \<Rightarrow> gpo_event list" where
  "typed t evs = [e. OnDetail (FormChanged e) \<leftarrow> evs]"

definition closing :: "any_event \<Rightarrow> bool" where
  "closing ev \<longleftrightarrow> ev = OnDetail BackPressed \<or> (\<exists>i a w. ev = OnDetail (DeleteAnswered i a w))"

text \<open>The form as the events fill it: a change counts when its tab is the one shown.\<close>

fun form_after :: "any_event list \<Rightarrow> policy_tab \<times> gpo_form \<Rightarrow> policy_tab \<times> gpo_form" where
  "form_after [] = (\<lambda>p. p)"
| "form_after (ev # evs) = (\<lambda>(t, f). form_after evs
     (case ev of
        OnDetail (FormChanged e) \<Rightarrow> (t, if t = form_tab e then gpo_step e f else f)
      | OnDetail (TabChosen u) \<Rightarrow> (u, f)
      | _ \<Rightarrow> (t, f)))"

definition formed :: "policy_page \<Rightarrow> nat \<Rightarrow> policy_tab \<times> gpo_form \<Rightarrow> bool" where
  "formed s i p \<longleftrightarrow> (\<exists>o' d. pp_open s = Some (o', d) \<and> gd_id d = i \<and> (gd_tab d, gd_form d) = p)"

lemma formed_step:
  assumes "formed s i (t, f)" and "\<not> closing ev"
  shows "formed (policy_step ev s) i (form_after [ev] (t, f))"
proof -
  obtain o' d where s: "pp_open s = Some (o', d)" and d: "gd_id d = i" "gd_tab d = t" "gd_form d = f"
    using assms(1) by (auto simp: formed_def)
  show ?thesis
  proof (cases ev)
    case (OnList e)
    with s d show ?thesis
      by (cases e)
        (auto simp: policy_step_def list_step_def formed_def page_helpers take_object_def Let_def split: sum.split option.split)
  next
    case (OnDetail e)
    with s d assms(2) show ?thesis
      by (cases e)
        (auto simp: policy_step_def detail_step_def shown_step_def formed_def page_helpers closing_def save_answered_def went_back_def
          open_tab_def Let_def split: sum.split option.split)
  qed
qed

lemma formed_run:
  assumes "formed s i p" and "\<forall>ev \<in> set evs. \<not> closing ev"
  shows "formed (fold policy_step evs s) i (form_after evs p)"
  using assms
proof (induction evs arbitrary: s p)
  case (Cons ev evs)
  obtain t f where p: "p = (t, f)" by (cases p)
  have "formed (policy_step ev s) i (form_after [ev] (t, f))" by (rule formed_step) (use Cons.prems p in auto)
  from Cons.IH [OF this] Cons.prems p show ?case by simp
qed simp



text \<open>Two rows clicked before the first answer: the form stays that of the object that came first, and Save writes it over the
  other.\<close>

theorem save_writes_one_object_over_another:
  assumes "pp_open s = None" and "{ga, gb} \<subseteq> fst ` set (pp_rows s)" and "n = length (pp_gets s)"
  shows "let t = fold policy_step
           [OnList (RowOpened ga), OnList (RowOpened gb), OnList (ObjectAnswered n (Inr a)), OnList (ObjectAnswered (n + 1) (Inr b)),
            OnDetail (SavePressed 0)] s
         in pp_gets t = pp_gets s @ [ga, gb] \<and> pp_sent t = pp_sent s @ [gpo_save (shown_guid b) (gpo_open (po_gpo a))]"
  using assms
  by (simp add: policy_step_def list_step_def ask_object_def take_object_def new_detail_def detail_step_def shown_step_def
      gpo_save_enabled_def Let_def)

theorem save_writes_one_object_over_another_witness:
  "let a = \<lparr>po_gpo = \<lparr>g_guid = ''a'', g_display_name = ''Desktops'', g_description = [], g_enabled = True, g_settings = [], g_security_filter = [],
              g_os = [], g_hostname_pattern = None, g_security_groups = [], g_ip_ranges = []\<rparr>, po_links = [], po_link_count = 0\<rparr>;
       b = \<lparr>po_gpo = \<lparr>g_guid = ''b'', g_display_name = ''Servers'', g_description = [], g_enabled = True, g_settings = [], g_security_filter = [],
              g_os = [], g_hostname_pattern = None, g_security_groups = [], g_ip_ranges = []\<rparr>, po_links = [], po_link_count = 0\<rparr>;
       s = policy_step (OnList (RowsAnswered (Inr [(''a'', ''Desktops''), (''b'', ''Servers'')]))) policy_open;
       t = fold policy_step
             [OnList (RowOpened ''a''), OnList (RowOpened ''b''), OnList (ObjectAnswered 0 (Inr a)), OnList (ObjectAnswered 1 (Inr b)),
              OnDetail (SavePressed 0)] s
   in pp_sent t = [gpo_save ''b'' (gpo_open (po_gpo a))] \<and> saved (gpo_save ''b'' (gpo_open (po_gpo a))) ''display_name'' = JStr ''Desktops''"
proof -
  define s where "s = policy_step (OnList (RowsAnswered (Inr [(''a'', ''Desktops''), (''b'', ''Servers'')]))) policy_open"
  have s: "pp_open s = None" "{''a'', ''b''} \<subseteq> fst ` set (pp_rows s)" "0 = length (pp_gets s)" "pp_sent s = []"
    by (simp_all add: s_def policy_step_def list_step_def policy_open_def)
  show ?thesis
    unfolding Let_def s_def [symmetric]
    using save_writes_one_object_over_another [OF s(1-3)] s(4)
    by (simp add: Let_def shown_guid_def saved_def) (simp add: saved_def gpo_save_def gpo_open_def)
qed

text \<open>While the page is about one object only, a save is of it: its form began as one of its answers.\<close>

definition about :: "string \<Rightarrow> policy_object set \<Rightarrow> policy_page \<Rightarrow> bool" where
  "about g answers s \<longleftrightarrow>
     (case pp_open s of
        None \<Rightarrow> True
      | Some (o', d) \<Rightarrow> shown_guid o' = g \<and> (\<exists>x \<in> answers. \<exists>es. gd_form d = fold gpo_step es (gpo_open (po_gpo x)))) \<and>
     (\<forall>body. Call_policy (Pol_update body) \<in> set (pp_sent s) \<longrightarrow>
        (\<exists>x \<in> answers. \<exists>es. Call_policy (Pol_update body) = gpo_save g (fold gpo_step es (gpo_open (po_gpo x)))))"

lemma about_sent:
  "about g answers s \<Longrightarrow> pp_open t = pp_open s \<Longrightarrow> pp_sent t = pp_sent s \<Longrightarrow> about g answers t"
  by (simp add: about_def)

lemma about_open:
  assumes "about g answers s" and "pp_open s = Some (o', d)" and "pp_open t = Some (o', d')" and "gd_form d' = gd_form d"
    and "pp_sent t = pp_sent s \<or> (\<exists>c. pp_sent t = pp_sent s @ [c] \<and> (\<forall>body. c \<noteq> Call_policy (Pol_update body)))"
  shows "about g answers t"
  using assms unfolding about_def by auto

lemma link_call_no_update: "link_call i n ev = Some c \<Longrightarrow> c \<noteq> Call_policy (Pol_update body)"
  by (auto simp: link_call_def split: link_event.splits if_splits)

lemma about_list:
  assumes "about g answers s" and "\<forall>i x. e = ObjectAnswered i (Inr x) \<longrightarrow> shown_guid x = g \<and> x \<in> answers"
  shows "about g answers (list_step e s)"
proof (cases e)
  case (ObjectAnswered i a)
  have new: "\<exists>y \<in> answers. \<exists>es. gpo_open (po_gpo x) = fold gpo_step es (gpo_open (po_gpo y))" if "x \<in> answers" for x
    using that by (metis fold_simps(1))
  from assms ObjectAnswered show ?thesis
    by (auto simp: list_step_def about_def take_object_def new_detail_def load_history_def Let_def new split: sum.split option.splits)
next
  case (RowDeleted guid)
  with assms show ?thesis by (auto simp: list_step_def about_def)
qed (use assms in \<open>auto simp: list_step_def page_helpers split: sum.split intro: about_sent\<close>)

lemma in_frame [simp]:
  "pp_sent (in_detail i f s) = pp_sent s" "pp_sent (in_links i g s) = pp_sent s" "pp_sent (in_history i h s) = pp_sent s"
  by (simp_all add: page_helpers split: option.split)

lemma about_in:
  "about g answers s \<Longrightarrow> (\<And>d. gd_form (f d) = gd_form d) \<Longrightarrow> about g answers (in_detail i f s)"
  "about g answers s \<Longrightarrow> about g answers (in_links i l s)"
  "about g answers s \<Longrightarrow> about g answers (in_history i h s)"
  by (auto simp: about_def in_detail_def in_links_def in_history_def split: option.split)

lemma about_calls:
  assumes "about g answers s" and "\<forall>body. c \<noteq> Call_policy (Pol_update body)"
  shows "about g answers (s\<lparr>pp_sent := pp_sent s @ [c]\<rparr>)"
  using assms by (auto simp: about_def)

lemma about_requests [simp]:
  "about g answers (s\<lparr>pp_gets := x1\<rparr>) = about g answers s" "about g answers (s\<lparr>pp_saves := x2\<rparr>) = about g answers s"
  "about g answers (s\<lparr>pp_removes := x3\<rparr>) = about g answers s" "about g answers (s\<lparr>pp_link_acts := x4\<rparr>) = about g answers s"
  "about g answers (s\<lparr>pp_link_gets := x4\<rparr>) = about g answers s" "about g answers (s\<lparr>pp_histories := x4\<rparr>) = about g answers s"
  "about g answers (s\<lparr>pp_backs := x4\<rparr>) = about g answers s" "about g answers (s\<lparr>pp_fresh := x5\<rparr>) = about g answers s"
  "about g answers (s\<lparr>pp_error := x6\<rparr>) = about g answers s" "about g answers (s\<lparr>pp_lists := x7\<rparr>) = about g answers s"
  by (simp_all add: about_def)

lemma about_edit:
  assumes "about g answers s" and "pp_open s = Some (o', d)" and "gd_form d' = gd_form d"
  shows "about g answers (s\<lparr>pp_open := Some (o', d')\<rparr>)"
  using assms by (auto simp: about_def)

lemma about_shown:
  assumes ok: "about g answers s" and op: "pp_open s = Some (o', d)"
  shows "about g answers (shown_step e o' d s)"
proof (cases e)
  case (FormChanged x)
  obtain y es where y: "y \<in> answers" "gd_form d = fold gpo_step es (gpo_open (po_gpo y))" and g: "shown_guid o' = g"
    using ok op by (auto simp: about_def)
  have "gpo_step x (gd_form d) = fold gpo_step (es @ [x]) (gpo_open (po_gpo y))" by (simp add: y(2))
  then have "\<exists>y \<in> answers. \<exists>es. gpo_step x (gd_form d) = fold gpo_step es (gpo_open (po_gpo y))" using y(1) by blast
  with ok g have "about g answers (s\<lparr>pp_open := Some (o', d\<lparr>gd_form := gpo_step x (gd_form d)\<rparr>)\<rparr>)"
    by (simp add: about_def)
  with FormChanged ok show ?thesis by (simp add: shown_step_def)
next
  case (TabChosen t)
  with ok op show ?thesis
    by (auto simp: shown_step_def open_tab_def load_history_def Let_def intro!: about_edit split: option.split)
next
  case (SavePressed uploads)
  obtain y es where y: "y \<in> answers" "gd_form d = fold gpo_step es (gpo_open (po_gpo y))" and g: "shown_guid o' = g"
    using ok op by (auto simp: about_def)
  have "about g answers (s\<lparr>pp_open := Some (o', d\<lparr>gd_busy := True, gd_error := None, gd_saved := False\<rparr>)\<rparr>)"
    by (rule about_edit) (use ok op in simp_all)
  then have "about g answers (s\<lparr>pp_open := Some (o', d\<lparr>gd_busy := True, gd_error := None, gd_saved := False\<rparr>),
      pp_sent := pp_sent s @ [gpo_save g (gd_form d)]\<rparr>)"
    using y by (auto simp: about_def)
  with SavePressed ok g show ?thesis by (simp add: shown_step_def about_def)
next
  case DeleteConfirmed
  have "about g answers (s\<lparr>pp_open := Some (o', d\<lparr>gd_busy := True, gd_error := None\<rparr>)\<rparr>)"
    by (rule about_edit) (use ok op in simp_all)
  with DeleteConfirmed ok show ?thesis by (auto simp: shown_step_def about_def)
next
  case BackPressed
  with ok show ?thesis by (simp add: shown_step_def close_object_def load_list_def about_def)
next
  case (LinkPicked dn)
  have "about g answers (run_link x y (Call_policy (Pol_link u v)) s')" if "about g answers s'" for x y u v s'
    using that by (auto simp: run_link_def about_def in_links_def split: option.split)
  with LinkPicked ok show ?thesis by (auto simp: shown_step_def about_in split: option.split)
next
  case (LinkChanged l change)
  have "about g answers (run_link x y c s)" if "link_call i n ev = Some c" for x y c i n ev
    using ok link_call_no_update [OF that] by (auto simp: run_link_def about_def in_links_def split: option.split)
  with LinkChanged ok show ?thesis by (auto simp: shown_step_def split: option.split)
next
  case GoBackConfirmed
  with ok show ?thesis by (auto simp: shown_step_def about_def split: option.split)
qed (use ok op in \<open>auto simp: shown_step_def about_in intro: about_edit split: option.split\<close>)

lemma about_detail: "about g answers s \<Longrightarrow> about g answers (detail_step e s)"
proof (cases e)
  case (DeleteAnswered i a w)
  assume "about g answers s"
  with DeleteAnswered show ?thesis
    by (auto simp: detail_step_def delete_answered_def close_object_def load_list_def about_in split: remove_outcome.split)
      (simp add: about_def)
qed (auto simp: detail_step_def save_answered_def went_back_def ask_object_def about_in about_shown split: option.split sum.split)

theorem saves_are_of_the_only_object:
  assumes "\<forall>i x. OnList (ObjectAnswered i (Inr x)) \<in> set evs \<longrightarrow> shown_guid x = g"
    and "Call_policy (Pol_update body) \<in> set (pp_sent (fold policy_step evs policy_open))"
  shows "\<exists>x. (\<exists>i. OnList (ObjectAnswered i (Inr x)) \<in> set evs) \<and>
           (\<exists>es. Call_policy (Pol_update body) = gpo_save g (fold gpo_step es (gpo_open (po_gpo x))))"
proof -
  define answers where "answers = {x. \<exists>i. OnList (ObjectAnswered i (Inr x)) \<in> set evs}"
  have step: "about g answers (policy_step ev s)" if ok: "about g answers s" and ev: "ev \<in> set evs" for ev s
  proof (cases ev)
    case (OnList e)
    have "about g answers (list_step e s)"
      by (rule about_list [OF ok]) (use assms(1) ev OnList in \<open>auto simp: answers_def\<close>)
    with OnList show ?thesis by (simp add: policy_step_def)
  next
    case (OnDetail e)
    with about_detail [OF ok] show ?thesis by (simp add: policy_step_def)
  qed
  have "about g answers s \<Longrightarrow> set es \<subseteq> set evs \<Longrightarrow> about g answers (fold policy_step es s)" for es s
    by (induction es arbitrary: s) (simp_all add: step)
  from this [of policy_open evs] have "about g answers (fold policy_step evs policy_open)"
    by (simp add: about_def policy_open_def)
  with assms(2) show ?thesis unfolding about_def answers_def by blast
qed

section \<open>Going back\<close>

text \<open>After going back to an earlier version the form keeps what it had, whatever the object is now: the next Save writes the
  version that was left over the one that was gone back to.\<close>

theorem save_undoes_going_back:
  assumes "pp_open s = Some (o', d)" and "gd_history d = Some h" and "r \<in> set (ht_revisions h)" and "ht_guid h = shown_guid o'"
    and "\<not> gd_busy d" and "n = length (pp_backs s)" and "m = length (pp_gets s)" and "shown_guid older = shown_guid o'"
  shows "let t = fold policy_step
           [OnDetail (GoBackPressed r), OnDetail GoBackConfirmed, OnDetail (WentBack n None), OnList (ObjectAnswered m (Inr older)),
            OnDetail (SavePressed 0)] s
         in pp_gets t = pp_gets s @ [shown_guid o'] \<and>
            pp_sent t = pp_sent s @ [Call_policy (Pol_rollback (rv_id r)), gpo_save (shown_guid o') (gd_form d)]"
  using assms
  by (simp add: policy_step_def list_step_def detail_step_def shown_step_def in_history_def went_back_def ask_object_def take_object_def
      gpo_save_enabled_def Let_def)

text \<open>A removal from the list that is refused leaves nothing to be seen: the list is read again and its error is taken away.\<close>

theorem refused_removal_is_not_shown:
  "policy_step (OnList (RowDeleteAnswered (Some msg))) s = policy_step (OnList (RowDeleteAnswered None)) s \<and>
   pp_error (policy_step (OnList (RowDeleteAnswered (Some msg))) s) = None"
  by (simp add: policy_step_def list_step_def load_list_def)

end
