(* ===== verification/ObjectDialogs.thy ===== *)
theory ObjectDialogs
  imports ObjectPage
begin

text \<open>
  The dialogs that are a form and one call (\<^verbatim>\<open>components/objectDialogs.tsx\<close>, \<^verbatim>\<open>components/DirectoryDialogs.tsx\<close>): a picture, a
  password, a message, offboarding, a move, a removal, the second factor, a rename and the link of a policy object.
  All of them send through \<^verbatim>\<open>useAction\<close> or the same steps written out: \<open>dialog_step\<close> is that machine, over what an edit does
  to the form and the call the form makes. \<open>one_call_dialog\<close> is what each of them promises, a call about its object
  only, and each is an interpretation.

  Lengths that the browser enforces on a field are not modelled.
\<close>

section \<open>A form and one call\<close>

record 'f dialog =
  dl_form :: 'f
  dl_busy :: bool
  dl_error :: "string option"
  dl_done :: bool
  dl_sent :: "api_call list"

definition dialog_open :: "'f \<Rightarrow> 'f dialog" where
  "dialog_open f = \<lparr>dl_form = f, dl_busy = False, dl_error = None, dl_done = False, dl_sent = []\<rparr>"

datatype 'e dialog_event = Edited 'e | Submitted | Answered "string option"

definition dialog_step :: "('e \<Rightarrow> 'f \<Rightarrow> 'f) \<Rightarrow> ('f \<Rightarrow> api_call option) \<Rightarrow> 'e dialog_event \<Rightarrow> 'f dialog \<Rightarrow> 'f dialog" where
  "dialog_step edit call ev s =
     (if dl_done s then s
      else (case ev of
              Edited e \<Rightarrow> s\<lparr>dl_form := edit e (dl_form s)\<rparr>
            | Submitted \<Rightarrow>
                (if dl_busy s then s
                 else (case call (dl_form s) of
                         None \<Rightarrow> s
                       | Some c \<Rightarrow> s\<lparr>dl_busy := True, dl_error := None, dl_sent := dl_sent s @ [c]\<rparr>))
            | Answered failure \<Rightarrow>
                (if \<not> dl_busy s then s
                 else (case failure of
                         Some msg \<Rightarrow> s\<lparr>dl_busy := False, dl_error := Some msg\<rparr>
                       | None \<Rightarrow> s\<lparr>dl_busy := False, dl_done := True\<rparr>))))"

definition answers :: "'e dialog_event list \<Rightarrow> nat" where
  "answers evs = length (filter (\<lambda>ev. case ev of Answered x \<Rightarrow> True | _ \<Rightarrow> False) evs)"

locale one_call_dialog =
  fixes edit :: "'e \<Rightarrow> 'f \<Rightarrow> 'f"
    and call :: "'f \<Rightarrow> api_call option"
    and fits :: "api_call \<Rightarrow> bool"
  assumes call_fits: "call f = Some c \<Longrightarrow> fits c"
begin

lemma sent_fits:
  "list_all fits (dl_sent s) \<Longrightarrow> list_all fits (dl_sent (fold (dialog_step edit call) evs s))"
proof (induction evs arbitrary: s)
  case (Cons ev evs)
  have "list_all fits (dl_sent (dialog_step edit call ev s))"
    using Cons.prems call_fits
    by (auto simp: dialog_step_def split: dialog_event.split option.split)
  with Cons.IH show ?case by simp
qed simp

text \<open>A call is made only when the one before was refused: of \<open>n\<close> answers, there are at most \<open>n + 1\<close> calls, and none after the
  one that was taken.\<close>

lemma sent_one_at_a_time:
  "length (dl_sent (fold (dialog_step edit call) evs s)) + (if dl_busy s then 1 else 0) \<le>
   length (dl_sent s) + answers evs + (if dl_busy (fold (dialog_step edit call) evs s) then 1 else 0)"
proof (induction evs arbitrary: s)
  case (Cons ev evs)
  have "length (dl_sent (dialog_step edit call ev s)) + (if dl_busy s then 1 else 0) \<le>
      length (dl_sent s) + answers [ev] + (if dl_busy (dialog_step edit call ev s) then 1 else 0)"
    by (cases ev) (auto simp: dialog_step_def answers_def split: option.split)
  moreover have "answers (ev # evs) = answers [ev] + answers evs" by (simp add: answers_def)
  ultimately show ?case using Cons.IH [of "dialog_step edit call ev s"] by simp
qed (simp add: answers_def)

lemma done_is_done: "dl_done s \<Longrightarrow> fold (dialog_step edit call) evs s = s"
  by (induction evs) (simp_all add: dialog_step_def)

lemma opened_fits: "list_all fits (dl_sent (fold (dialog_step edit call) evs (dialog_open f)))"
  by (rule sent_fits) (simp add: dialog_open_def)

lemma opened_once: "length (dl_sent (fold (dialog_step edit call) evs (dialog_open f))) \<le> Suc (answers evs)"
  using sent_one_at_a_time [of evs "dialog_open f"] by (simp add: dialog_open_def split: if_splits)

end

section \<open>The dialogs\<close>

record photo_form =
  ph_chosen :: "string option"
  ph_photo :: "string option"
  ph_removing :: bool

definition photo_blank :: photo_form where
  "photo_blank = \<lparr>ph_chosen = None, ph_photo = None, ph_removing = False\<rparr>"

text \<open>A picture is there once the cropper of the chosen file has drawn it.\<close>

datatype (plugins only: code size) photo_edit = PhotoChosen string | PhotoCropped string | PhotoRemoved

definition edit_photo :: "photo_edit \<Rightarrow> photo_form \<Rightarrow> photo_form" where
  "edit_photo e f =
     (case e of
        PhotoChosen file \<Rightarrow> f\<lparr>ph_chosen := Some file, ph_removing := False\<rparr>
      | PhotoCropped p \<Rightarrow> (if ph_chosen f \<noteq> None \<and> \<not> ph_removing f then f\<lparr>ph_photo := Some p\<rparr> else f)
      | PhotoRemoved \<Rightarrow> f\<lparr>ph_removing := True, ph_chosen := None, ph_photo := None\<rparr>)"

definition photo_call :: "string \<Rightarrow> photo_form \<Rightarrow> api_call option" where
  "photo_call dn f =
     Some (Call_directory (Dir_setPhoto dn (if ph_removing f then [] else case ph_photo f of Some p \<Rightarrow> p | None \<Rightarrow> [])))"

definition photo_button :: "photo_form \<Rightarrow> string" where
  "photo_button f = (if ph_removing f then ''Remove'' else ''Save'')"

record password_form =
  pw_password :: string
  pw_mustChange :: bool

definition password_blank :: password_form where
  "password_blank = \<lparr>pw_password = [], pw_mustChange = True\<rparr>"

datatype (plugins only: code size) password_edit = PasswordTyped string | MustChange bool

definition edit_password :: "password_edit \<Rightarrow> password_form \<Rightarrow> password_form" where
  "edit_password e f = (case e of PasswordTyped v \<Rightarrow> f\<lparr>pw_password := v\<rparr> | MustChange b \<Rightarrow> f\<lparr>pw_mustChange := b\<rparr>)"

definition password_call :: "string \<Rightarrow> password_form \<Rightarrow> api_call option" where
  "password_call dn f =
     (if pw_password f = [] then None else Some (Call_directory (Dir_setPassword dn (pw_password f) (pw_mustChange f))))"

record message_form =
  ms_title :: string
  ms_text :: string
  ms_critical :: bool

definition message_blank :: message_form where
  "message_blank = \<lparr>ms_title = ''Message from IT'', ms_text = [], ms_critical = False\<rparr>"

datatype (plugins only: code size) message_edit = MessageTitle string | MessageText string | MessageCritical bool

definition edit_message :: "message_edit \<Rightarrow> message_form \<Rightarrow> message_form" where
  "edit_message e f =
     (case e of MessageTitle v \<Rightarrow> f\<lparr>ms_title := v\<rparr> | MessageText v \<Rightarrow> f\<lparr>ms_text := v\<rparr> | MessageCritical b \<Rightarrow> f\<lparr>ms_critical := b\<rparr>)"

definition message_call :: "string list \<Rightarrow> message_form \<Rightarrow> api_call option" where
  "message_call ds f =
     (if ms_text f = [] then None
      else Some (Call_machines (Mach_message ds (ms_title f) (ms_text f) (if ms_critical f then ''critical'' else ''normal''))))"

definition message_summary :: "nat \<Rightarrow> nat \<Rightarrow> string" where
  "message_summary queued missing =
     ''Sent to '' @ show_nat queued @ '' machine'' @ (if queued = 1 then [] else ''s'') @
     (if missing \<noteq> 0 then ''; '' @ show_nat missing @ '' never reported and got nothing.'' else ''.'')"

record offboard_form =
  ob_disable :: bool
  ob_strip :: bool
  ob_scramble :: bool
  ob_move :: string
  ob_note :: string

definition offboard_blank :: offboard_form where
  "offboard_blank = \<lparr>ob_disable = True, ob_strip = True, ob_scramble = True, ob_move = [], ob_note = []\<rparr>"

datatype (plugins only: code size) offboard_edit =
    OffDisable bool | OffStrip bool | OffScramble bool | OffMove string | OffNote string

definition edit_offboard :: "offboard_edit \<Rightarrow> offboard_form \<Rightarrow> offboard_form" where
  "edit_offboard e f =
     (case e of
        OffDisable b \<Rightarrow> f\<lparr>ob_disable := b\<rparr>
      | OffStrip b \<Rightarrow> f\<lparr>ob_strip := b\<rparr>
      | OffScramble b \<Rightarrow> f\<lparr>ob_scramble := b\<rparr>
      | OffMove v \<Rightarrow> f\<lparr>ob_move := v\<rparr>
      | OffNote v \<Rightarrow> f\<lparr>ob_note := v\<rparr>)"

definition offboard_call :: "string \<Rightarrow> offboard_form \<Rightarrow> api_call option" where
  "offboard_call dn f =
     Some (Call_directory (Dir_offboard (JObj
       [(''dn'', JStr dn), (''disable'', JBool (ob_disable f)), (''strip_groups'', JBool (ob_strip f)),
        (''scramble_password'', JBool (ob_scramble f)), (''move_to'', JStr (ob_move f)), (''note'', JStr (ob_note f))])))"

definition offboard_said :: "string list \<Rightarrow> string" where
  "offboard_said groups =
     (if groups = [] then ''The account was left in no groups.''
      else ''Taken out of '' @ show_nat (length groups) @ '' group'' @ (if length groups = 1 then [] else ''s'') @ '':'')"

text \<open>A move takes the container chosen in the picker, a removal has nothing to fill in.\<close>

definition move_call :: "dirobj \<Rightarrow> string option \<Rightarrow> api_call option" where
  "move_call x target =
     (case target of Some t \<Rightarrow> Some (Call_directory (Dir_move (distinguishedName x) t None)) | None \<Rightarrow> None)"

definition delete_call :: "dirobj \<Rightarrow> unit \<Rightarrow> api_call option" where
  "delete_call x f = Some (Call_directory (Dir_remove (distinguishedName x)))"

definition delete_question :: "dirobj \<Rightarrow> string" where
  "delete_question x = ''Delete '' @ to_string (or_else (attr x ''cn'') (attr x ''ou'')) @ ''?''"

text \<open>What is enrolled of the second factor, a code and a phone, once it was read; what could not be read counts as nothing.\<close>

type_synonym factor_form = "(bool \<times> bool) option"

definition read_factor :: "(bool \<times> bool) option \<Rightarrow> factor_form \<Rightarrow> factor_form" where
  "read_factor a f = (case a of Some p \<Rightarrow> Some p | None \<Rightarrow> Some (False, False))"

definition factor_call :: "string \<Rightarrow> factor_form \<Rightarrow> api_call option" where
  "factor_call dn f = (case f of None \<Rightarrow> None | Some p \<Rightarrow> Some (Call_directory (Dir_resetSecondFactor dn)))"

definition factor_said :: "string \<Rightarrow> factor_form \<Rightarrow> string" where
  "factor_said name f =
     (case f of
        None \<Rightarrow> ''Checking what is enrolled'' @ ellipsis
      | Some (code, phone) \<Rightarrow>
          (let has = (if code then [''a code''] else []) @ (if phone then [''a phone''] else [])
           in if has = [] then name @ '' has no second factor enrolled. Resetting changes nothing.''
              else name @ '' has '' @ join_with '' and '' has @ '' enrolled. Resetting removes '' @
                   (if 1 < length has then ''both'' else ''it'') @
                   ''; their next sign-in under a policy that asks for a second factor walks them through setting one up again.''))"

text \<open>The name of a rename, and the policy object to link: the first of the list until one is chosen.\<close>

definition rename_submit :: "dirobj \<Rightarrow> string \<Rightarrow> api_call option" where
  "rename_submit x name = (if name = [] then None else Some (rename_call x name))"

record link_form =
  lf_gpos :: "string list"
  lf_chosen :: string

datatype (plugins only: code size) link_edit = GposRead "string list" | GpoChosen string

definition edit_link :: "link_edit \<Rightarrow> link_form \<Rightarrow> link_form" where
  "edit_link e f =
     (case e of
        GposRead gs \<Rightarrow> f\<lparr>lf_gpos := gs, lf_chosen := (if lf_chosen f \<noteq> [] then lf_chosen f else case gs of g # _ \<Rightarrow> g | [] \<Rightarrow> [])\<rparr>
      | GpoChosen g \<Rightarrow> (if g \<in> set (lf_gpos f) then f\<lparr>lf_chosen := g\<rparr> else f))"

definition link_submit :: "string \<Rightarrow> link_form \<Rightarrow> api_call option" where
  "link_submit target f = (if lf_chosen f = [] then None else Some (Call_policy (Pol_link (lf_chosen f) target)))"

section \<open>Where they are opened\<close>

text \<open>The dialogs an object's page offers, and what follows one that is done: another address, which may replace this one, or
  the object read again.\<close>

datatype (plugins only: code size) object_dialog = DlgPassword | DlgFactor | DlgPhoto | DlgMove | DlgDelete | DlgOffboard

definition dialogs_offered :: "dirobj \<Rightarrow> tab \<Rightarrow> object_dialog list" where
  "dialogs_offered x t =
     [DlgMove, DlgDelete] @ (if t = GeneralTab \<and> objectType x = ''user'' then [DlgPassword, DlgFactor, DlgPhoto, DlgOffboard] else [])"

datatype (plugins only: code size) dialog_end = GoTo string bool | ReadAgain | StayAsItIs

definition dialog_ends :: "object_dialog \<Rightarrow> string \<Rightarrow> dialog_end" where
  "dialog_ends d moved =
     (case d of
        DlgMove \<Rightarrow> GoTo (''/directory/object?dn='' @ encodeURIComponent moved) True
      | DlgDelete \<Rightarrow> GoTo ''/directory'' False
      | DlgPhoto \<Rightarrow> ReadAgain
      | DlgOffboard \<Rightarrow> ReadAgain
      | DlgPassword \<Rightarrow> StayAsItIs
      | DlgFactor \<Rightarrow> StayAsItIs)"

text \<open>The tab of a group's members: the table is another one after each change, so it is read anew.\<close>

record members_tab =
  mt_editing :: bool
  mt_querying :: bool
  mt_revision :: nat
  mt_reloads :: nat

datatype (plugins only: code size) members_tab_event = EditMembers bool | EditQuery bool | MembersEdited | QueryChanged

definition members_tab_open :: members_tab where
  "members_tab_open = \<lparr>mt_editing = False, mt_querying = False, mt_revision = 0, mt_reloads = 0\<rparr>"

definition members_tab_step :: "members_tab_event \<Rightarrow> members_tab \<Rightarrow> members_tab" where
  "members_tab_step ev s =
     (case ev of
        EditMembers b \<Rightarrow> s\<lparr>mt_editing := b\<rparr>
      | EditQuery b \<Rightarrow> s\<lparr>mt_querying := b\<rparr>
      | MembersEdited \<Rightarrow>
          (if mt_editing s then s\<lparr>mt_editing := False, mt_revision := Suc (mt_revision s), mt_reloads := Suc (mt_reloads s)\<rparr> else s)
      | QueryChanged \<Rightarrow>
          (if mt_querying s then s\<lparr>mt_querying := False, mt_revision := Suc (mt_revision s), mt_reloads := Suc (mt_reloads s)\<rparr> else s))"

section \<open>Each is about its object\<close>

interpretation photo: one_call_dialog edit_photo "photo_call dn" "\<lambda>c. \<exists>p. c = Call_directory (Dir_setPhoto dn p)" for dn
  by unfold_locales (auto simp: photo_call_def)

interpretation password: one_call_dialog edit_password "password_call dn"
    "\<lambda>c. \<exists>p m. p \<noteq> [] \<and> c = Call_directory (Dir_setPassword dn p m)" for dn
  by unfold_locales (auto simp: password_call_def split: if_splits)

interpretation message: one_call_dialog edit_message "message_call ds"
    "\<lambda>c. \<exists>t m u. m \<noteq> [] \<and> c = Call_machines (Mach_message ds t m u)" for ds
  by unfold_locales (auto simp: message_call_def split: if_splits)

interpretation offboard: one_call_dialog edit_offboard "offboard_call dn"
    "\<lambda>c. \<exists>ps. c = Call_directory (Dir_offboard (JObj ps)) \<and> obj_get ps ''dn'' = JStr dn" for dn
  by unfold_locales (auto simp: offboard_call_def)

interpretation moving: one_call_dialog "\<lambda>t f. Some t" "move_call x"
    "\<lambda>c. \<exists>t. c = Call_directory (Dir_move (distinguishedName x) t None)" for x
  by unfold_locales (auto simp: move_call_def split: option.splits)

interpretation deleting: one_call_dialog "\<lambda>e f. f" "delete_call x" "\<lambda>c. c = Call_directory (Dir_remove (distinguishedName x))" for x
  by unfold_locales (simp add: delete_call_def)

interpretation factor: one_call_dialog read_factor "factor_call dn" "\<lambda>c. c = Call_directory (Dir_resetSecondFactor dn)" for dn
  by unfold_locales (auto simp: factor_call_def split: option.splits)

interpretation renaming: one_call_dialog "\<lambda>v f. v" "rename_submit x"
    "\<lambda>c. \<exists>n. c = Call_directory (Dir_move (distinguishedName x) (parentOf (distinguishedName x)) (Some n))" for x
  by unfold_locales (auto simp: rename_submit_def rename_call_def split: if_splits)

interpretation linking: one_call_dialog edit_link "link_submit target" "\<lambda>c. \<exists>g. g \<noteq> [] \<and> c = Call_policy (Pol_link g target)" for target
  by unfold_locales (auto simp: link_submit_def split: if_splits)

section \<open>Properties\<close>

text \<open>Whatever is typed, pressed and answered, a dialog asks for its own thing about its own object, one call at a time, and is
  done with the first that is taken: the removal of the object, a password that is not empty, the object moved, the
  reset of the second factor.\<close>

theorem dialogs_are_about_their_object:
  "list_all (\<lambda>c. c = Call_directory (Dir_remove (distinguishedName x)))
     (dl_sent (fold (dialog_step (\<lambda>e f. f) (delete_call x)) dels (dialog_open ()))) \<and>
   list_all (\<lambda>c. \<exists>p m. p \<noteq> [] \<and> c = Call_directory (Dir_setPassword dn p m))
     (dl_sent (fold (dialog_step edit_password (password_call dn)) pws (dialog_open password_blank))) \<and>
   list_all (\<lambda>c. \<exists>t. c = Call_directory (Dir_move (distinguishedName x) t None))
     (dl_sent (fold (dialog_step (\<lambda>t f. Some t) (move_call x)) moves (dialog_open None))) \<and>
   list_all (\<lambda>c. c = Call_directory (Dir_resetSecondFactor dn))
     (dl_sent (fold (dialog_step read_factor (factor_call dn)) facs (dialog_open None)))"
  by (intro conjI deleting.opened_fits password.opened_fits moving.opened_fits factor.opened_fits)

theorem dialogs_ask_one_at_a_time:
  "length (dl_sent (fold (dialog_step (\<lambda>e f. f) (delete_call x)) dels (dialog_open ()))) \<le> Suc (answers dels) \<and>
   length (dl_sent (fold (dialog_step edit_offboard (offboard_call dn)) offs (dialog_open offboard_blank))) \<le> Suc (answers offs) \<and>
   length (dl_sent (fold (dialog_step edit_message (message_call ds)) msgs (dialog_open message_blank))) \<le> Suc (answers msgs)"
  by (intro conjI deleting.opened_once offboard.opened_once message.opened_once)

text \<open>Saving the dialog of the picture removes the picture unless one was cropped: also when nothing was chosen, and while
  the file that was chosen is still being drawn, where the button says Save.\<close>

theorem saving_no_picture_removes_it:
  assumes "\<forall>e \<in> set es. \<forall>p. e \<noteq> PhotoCropped p"
  shows "dl_sent (fold (dialog_step edit_photo (photo_call dn)) (map Edited es @ [Submitted]) (dialog_open photo_blank)) =
         [Call_directory (Dir_setPhoto dn [])] \<and>
         (PhotoRemoved \<notin> set es \<longrightarrow> photo_button (fold edit_photo es photo_blank) = ''Save'')"
proof -
  have run: "fold (dialog_step edit_photo (photo_call dn)) (map Edited es) s = s\<lparr>dl_form := fold edit_photo es (dl_form s)\<rparr>"
    if "\<not> dl_done s" for s
    using that by (induction es arbitrary: s) (simp_all add: dialog_step_def)
  have none: "ph_photo (fold edit_photo es f) = None" if "ph_photo f = None" for f
    using that assms by (induction es arbitrary: f) (auto simp: edit_photo_def split: photo_edit.splits)
  have "PhotoRemoved \<notin> set es \<Longrightarrow> \<not> ph_removing (fold edit_photo es f)" if "\<not> ph_removing f" for f
    using that by (induction es arbitrary: f) (auto simp: edit_photo_def split: photo_edit.splits)
  moreover have "ph_photo photo_blank = None" "\<not> ph_removing photo_blank" by (simp_all add: photo_blank_def)
  ultimately show ?thesis
    using none [of photo_blank]
    by (auto simp: run dialog_open_def dialog_step_def photo_call_def photo_button_def)
qed

text \<open>An account whose second factor could not be read is said to have none, and to lose nothing; the reset is sent all the
  same and takes off whatever there is.\<close>

theorem unread_factor_is_said_to_be_none:
  "factor_said name (read_factor None None) = name @ '' has no second factor enrolled. Resetting changes nothing.'' \<and>
   dl_sent (fold (dialog_step read_factor (factor_call dn)) [Edited None, Submitted] (dialog_open None)) =
     [Call_directory (Dir_resetSecondFactor dn)]"
  by (simp add: factor_said_def read_factor_def dialog_step_def dialog_open_def factor_call_def)

text \<open>Nothing is reset before what is enrolled was asked for and answered.\<close>

theorem factor_is_not_reset_unread:
  assumes "\<forall>ev \<in> set evs. \<forall>a. ev \<noteq> Edited a"
  shows "dl_sent (fold (dialog_step read_factor (factor_call dn)) evs (dialog_open None)) = []"
proof -
  have "dl_form s = None \<Longrightarrow> dl_sent s = [] \<Longrightarrow> dl_sent (fold (dialog_step read_factor (factor_call dn)) evs s) = []" for s
    using assms
  proof (induction evs arbitrary: s)
    case (Cons ev evs)
    have "dl_form (dialog_step read_factor (factor_call dn) ev s) = None \<and> dl_sent (dialog_step read_factor (factor_call dn) ev s) = []"
      using Cons.prems by (cases ev) (auto simp: dialog_step_def factor_call_def split: option.split)
    with Cons show ?case by simp
  qed simp
  then show ?thesis by (simp add: dialog_open_def)
qed

text \<open>The policy object linked is one of those listed: the first of them as long as none is chosen.\<close>

theorem linked_object_was_listed:
  assumes "lf_chosen f = [] \<or> lf_chosen f \<in> set (lf_gpos f)" and "gs \<noteq> []" and "[] \<notin> set gs" and "lf_chosen f = [] \<or> lf_chosen f \<in> set gs"
  shows "\<exists>g \<in> set gs. link_submit target (edit_link (GposRead gs) f) = Some (Call_policy (Pol_link g target)) \<and>
           (lf_chosen f = [] \<longrightarrow> g = hd gs)"
  using assms by (cases gs) (auto simp: edit_link_def link_submit_def)

text \<open>Every change of a group's members reads the object and its table again, and each time the table is another one.\<close>

theorem members_are_read_after_each_change:
  "let s = fold members_tab_step evs members_tab_open; t = members_tab_step ev s
   in mt_reloads s = mt_revision s \<and>
      (mt_revision t \<noteq> mt_revision s \<longleftrightarrow> ev = MembersEdited \<and> mt_editing s \<or> ev = QueryChanged \<and> mt_querying s)"
proof -
  have "mt_reloads s = mt_revision s \<Longrightarrow> mt_reloads (fold members_tab_step es s) = mt_revision (fold members_tab_step es s)" for es s
  proof (induction es arbitrary: s)
    case (Cons e es)
    have "mt_reloads (members_tab_step e s) = mt_revision (members_tab_step e s)"
      using Cons.prems by (simp add: members_tab_step_def split: members_tab_event.split)
    with Cons.IH show ?case by simp
  qed simp
  from this [of members_tab_open evs] show ?thesis
    by (simp add: Let_def members_tab_open_def) (auto simp: members_tab_step_def split: members_tab_event.split)
qed

end
