(* ===== verification/MachinePage.thy ===== *)
theory MachinePage
  imports MachineTabs
begin

text \<open>
  What a computer's page asks of the machine (\<^verbatim>\<open>pages/ObjectDetail.tsx\<close>): the tabs that act on it (\<^verbatim>\<open>ComputerTabs\<close>), its
  encrypted disks and their recovery keys (\<^verbatim>\<open>EncryptionPanel\<close>, \<^verbatim>\<open>EscrowDialog\<close>), its local administrator, and the reading
  of its journal (\<^verbatim>\<open>LogsTab\<close>). Each is a machine over clicks, edits, changes of the domain and answers; a change of the
  page's address to another computer leaves the component standing and only changes the name it is given.
\<close>

section \<open>The tabs of a computer\<close>

record local_account =
  la_name :: string
  la_uid :: int

record machine_facts =
  mf_packages :: "(string \<times> string) list"
  mf_users :: "local_account list"
  mf_sessions :: "string list"

text \<open>What the control plane knows: whether the machine has reported, the agent version it could hand out, and the facts.\<close>

record machine_detail =
  md_known :: bool
  md_available :: string
  md_facts :: machine_facts

datatype (plugins only: code size) machine_tab = OnMachine | OnSoftware | OnUsers | OnActivity

record machine_page =
  mp_dn :: string
  mp_tab :: machine_tab
  mp_detail :: "machine_detail option"
  mp_error :: "string option"
  mp_notice :: "string option"
  mp_busy :: bool
  mp_installing :: bool
  mp_removing :: "string option"
  mp_power :: "string option"
  mp_adding :: bool
  mp_removing_user :: "string option"
  mp_password_for :: "string option"
  mp_assist :: "string option"
  mp_messaging :: bool
  mp_loads :: "string list"
  mp_acts :: "string list"
  mp_waits :: "nat option"
  mp_sent :: "api_call list"

definition machine_open :: "string \<Rightarrow> machine_tab \<Rightarrow> machine_page" where
  "machine_open dn t =
     \<lparr>mp_dn = dn, mp_tab = t, mp_detail = None, mp_error = None, mp_notice = None, mp_busy = False, mp_installing = False, mp_removing = None,
      mp_power = None, mp_adding = False, mp_removing_user = None, mp_password_for = None, mp_assist = None, mp_messaging = False,
      mp_loads = [dn], mp_acts = [], mp_waits = None, mp_sent = []\<rparr>"

text \<open>What stands on the page: an error, nothing yet, a machine that has not reported, or its facts.\<close>

datatype (plugins only: code size) machine_drawn = DrawnError string | DrawnLoading | DrawnUnknown | DrawnFacts machine_detail

definition machine_drawn_of :: "machine_page \<Rightarrow> machine_drawn" where
  "machine_drawn_of s =
     (case mp_error s of
        Some msg \<Rightarrow> DrawnError msg
      | None \<Rightarrow> (case mp_detail s of None \<Rightarrow> DrawnLoading | Some d \<Rightarrow> if md_known d then DrawnFacts d else DrawnUnknown))"

definition machine_load :: "machine_page \<Rightarrow> machine_page" where
  "machine_load s = s\<lparr>mp_error := None, mp_loads := mp_loads s @ [mp_dn s]\<rparr>"

text \<open>\<open>ask\<close>: the action is sent for the machine of the page; the machine is kept to be read again.\<close>

definition ask :: "string \<Rightarrow> string option \<Rightarrow> jsval \<Rightarrow> machine_page \<Rightarrow> machine_page" where
  "ask action pkg account s =
     s\<lparr>mp_busy := True, mp_notice := None, mp_error := None, mp_acts := mp_acts s @ [mp_dn s],
       mp_sent := mp_sent s @ [Call_servers (Srv_action (mp_dn s) action pkg account None)]\<rparr>"

datatype (plugins only: code size) machine_event =
    MachineMoved string
  | MachineTab machine_tab
  | MachineChanged
  | MachineLoaded nat "string + machine_detail"
  | MachineActed nat "string + string"
  | PlainAction string
  | PowerPressed string
  | PowerClosed
  | PowerConfirmed
  | InstallShown bool
  | InstallConfirmed string
  | UninstallPressed string
  | UninstallClosed
  | UninstallConfirmed
  | AccountShown bool
  | AccountConfirmed local_user_form
  | PasswordPressed string
  | PasswordSet string
  | AccountRemovePressed local_account
  | AccountRemoveClosed
  | AccountRemoveConfirmed
  | AssistPressed string
  | AssistClosed
  | MessageShown bool

definition PLAIN_ACTIONS :: "string list" where
  "PLAIN_ACTIONS = [''agent-update'', ''policy-refresh'', ''update-check'', ''update-install'']"

definition password_account :: "string \<Rightarrow> string \<Rightarrow> jsval" where
  "password_account name password = JObj [(''name'', JStr name), (''password'', JStr password)]"

definition new_account :: "local_user_form \<Rightarrow> jsval" where
  "new_account f =
     JObj [(''name'', JStr (lu_name f)), (''full_name'', JStr (lu_full_name f)), (''shell'', JStr (lu_shell f)),
           (''groups'', JArr (map JStr (words_of [] (lu_groups f)))), (''password'', JStr (lu_password f))]"

text \<open>What can be pressed with the facts on the page: one event, on its own tab, with no action under way.\<close>

definition facts_step :: "machine_event \<Rightarrow> machine_detail \<Rightarrow> machine_page \<Rightarrow> machine_page" where
  "facts_step ev d s =
     (case ev of
        PlainAction a \<Rightarrow>
          (if mp_tab s = OnMachine \<and> \<not> mp_busy s \<and> a \<in> set PLAIN_ACTIONS \<and> (a = ''agent-update'' \<longrightarrow> md_available d \<noteq> [])
           then ask a None JUndef s else s)
      | PowerPressed a \<Rightarrow>
          (if mp_tab s = OnMachine \<and> \<not> mp_busy s \<and> a \<in> {''restart'', ''shutdown''} then s\<lparr>mp_power := Some a\<rparr> else s)
      | PowerConfirmed \<Rightarrow>
          (case mp_power s of Some a \<Rightarrow> if mp_tab s = OnMachine then ask a None JUndef (s\<lparr>mp_power := None\<rparr>) else s | None \<Rightarrow> s)
      | InstallShown b \<Rightarrow> (if mp_tab s = OnSoftware then s\<lparr>mp_installing := b\<rparr> else s)
      | InstallConfirmed name \<Rightarrow>
          (if mp_tab s = OnSoftware \<and> mp_installing s \<and> js_trim name \<noteq> []
           then ask ''package-install'' (Some (js_trim name)) JUndef (s\<lparr>mp_installing := False\<rparr>) else s)
      | UninstallPressed name \<Rightarrow>
          (if mp_tab s = OnSoftware \<and> \<not> mp_busy s \<and> name \<in> fst ` set (mf_packages (md_facts d)) then s\<lparr>mp_removing := Some name\<rparr> else s)
      | UninstallConfirmed \<Rightarrow>
          (case mp_removing s of
             Some name \<Rightarrow> if mp_tab s = OnSoftware then ask ''package-remove'' (Some name) JUndef (s\<lparr>mp_removing := None\<rparr>) else s
           | None \<Rightarrow> s)
      | AccountShown b \<Rightarrow> (if mp_tab s = OnUsers \<and> (b \<longrightarrow> \<not> mp_busy s) then s\<lparr>mp_adding := b\<rparr> else s)
      | AccountConfirmed f \<Rightarrow>
          (if mp_tab s = OnUsers \<and> mp_adding s then ask ''local-user-add'' None (new_account f) (s\<lparr>mp_adding := False\<rparr>) else s)
      | PasswordPressed name \<Rightarrow>
          (if mp_tab s = OnUsers \<and> \<not> mp_busy s \<and> name \<in> la_name ` set (mf_users (md_facts d)) then s\<lparr>mp_password_for := Some name\<rparr> else s)
      | PasswordSet password \<Rightarrow>
          (case mp_password_for s of
             Some name \<Rightarrow>
               if mp_tab s = OnUsers then ask ''local-user-password'' None (password_account name password) (s\<lparr>mp_password_for := None\<rparr>) else s
           | None \<Rightarrow> s)
      | AccountRemovePressed a \<Rightarrow>
          (if mp_tab s = OnUsers \<and> \<not> mp_busy s \<and> a \<in> set (mf_users (md_facts d)) \<and> la_uid a \<noteq> 0
           then s\<lparr>mp_removing_user := Some (la_name a)\<rparr> else s)
      | AccountRemoveConfirmed \<Rightarrow>
          (case mp_removing_user s of
             Some name \<Rightarrow>
               if mp_tab s = OnUsers then ask ''local-user-remove'' None (JObj [(''name'', JStr name)]) (s\<lparr>mp_removing_user := None\<rparr>) else s
           | None \<Rightarrow> s)
      | PowerClosed \<Rightarrow> s\<lparr>mp_power := None\<rparr>
      | UninstallClosed \<Rightarrow> s\<lparr>mp_removing := None\<rparr>
      | AccountRemoveClosed \<Rightarrow> s\<lparr>mp_removing_user := None\<rparr>
      | AssistPressed user \<Rightarrow>
          (if mp_tab s = OnActivity \<and> user \<in> set (mf_sessions (md_facts d)) then s\<lparr>mp_assist := Some user\<rparr> else s)
      | AssistClosed \<Rightarrow> s\<lparr>mp_assist := None\<rparr>
      | MessageShown b \<Rightarrow> (if mp_tab s = OnMachine \<and> (b \<longrightarrow> \<not> mp_busy s) then s\<lparr>mp_messaging := b\<rparr> else s)
      | _ \<Rightarrow> s)"

text \<open>After the answer to an action the machine is read again, and only then the page is free.\<close>

definition machine_step :: "machine_event \<Rightarrow> machine_page \<Rightarrow> machine_page" where
  "machine_step ev s =
     (case ev of
        MachineMoved dn \<Rightarrow> (if dn = mp_dn s then s else machine_load (s\<lparr>mp_dn := dn\<rparr>))
      | MachineTab t \<Rightarrow> s\<lparr>mp_tab := t\<rparr>
      | MachineChanged \<Rightarrow> machine_load s
      | MachineLoaded i a \<Rightarrow>
          (if length (mp_loads s) \<le> i then s
           else (let s' = (if mp_waits s = Some i then s\<lparr>mp_busy := False, mp_waits := None\<rparr> else s)
                 in case a of Inl msg \<Rightarrow> s'\<lparr>mp_error := Some msg\<rparr> | Inr d \<Rightarrow> s'\<lparr>mp_detail := Some d\<rparr>))
      | MachineActed i a \<Rightarrow>
          (if length (mp_acts s) \<le> i then s
           else (case a of
                   Inl msg \<Rightarrow> s\<lparr>mp_error := Some msg, mp_busy := False\<rparr>
                 | Inr node \<Rightarrow>
                     s\<lparr>mp_notice := Some (''Sent to '' @ node @ ''. Its agent picks this up within a second unless the machine is off.''),
                       mp_error := None, mp_waits := Some (length (mp_loads s)), mp_loads := mp_loads s @ [mp_acts s ! i]\<rparr>))
      | _ \<Rightarrow> (case machine_drawn_of s of DrawnFacts d \<Rightarrow> facts_step ev d s | _ \<Rightarrow> s))"

section \<open>The local administrator\<close>

text \<open>Its password, as the machine last reported it: read when it is asked for, because every read is audited.\<close>

record admin_panel =
  ap_dn :: string
  ap_shown :: "(string \<times> string) option"
  ap_error :: "string option"
  ap_busy :: bool
  ap_sent :: "api_call list"

datatype (plugins only: code size) admin_event = AdminMoved string | Reveal | Revealed "string + string \<times> string"

definition admin_open :: "string \<Rightarrow> admin_panel" where
  "admin_open dn = \<lparr>ap_dn = dn, ap_shown = None, ap_error = None, ap_busy = False, ap_sent = []\<rparr>"

definition admin_step :: "admin_event \<Rightarrow> admin_panel \<Rightarrow> admin_panel" where
  "admin_step ev s =
     (case ev of
        AdminMoved dn \<Rightarrow> s\<lparr>ap_dn := dn\<rparr>
      | Reveal \<Rightarrow>
          (if ap_busy s \<or> ap_shown s \<noteq> None then s
           else s\<lparr>ap_busy := True, ap_error := None, ap_sent := ap_sent s @ [Call_servers (Srv_localAdministrator (ap_dn s))]\<rparr>)
      | Revealed a \<Rightarrow>
          (if \<not> ap_busy s then s
           else (case a of
                   Inl msg \<Rightarrow> s\<lparr>ap_error := Some msg, ap_busy := False\<rparr>
                 | Inr p \<Rightarrow> s\<lparr>ap_shown := Some p, ap_busy := False\<rparr>)))"

section \<open>Encrypted disks\<close>

record disk_volume =
  dv_device :: string
  dv_encrypted :: bool
  dv_key :: bool
  dv_free :: "nat option"

record escrow_form =
  es_volume :: disk_volume
  es_passphrase :: string
  es_busy :: bool
  es_error :: "string option"

record disk_panel =
  dk_dn :: string
  dk_volumes :: "disk_volume list option"
  dk_error :: "string option"
  dk_escrowing :: "escrow_form option"
  dk_revealed :: "(string \<times> string) option"
  dk_loads :: "string list"
  dk_sent :: "api_call list"

definition disk_open :: "string \<Rightarrow> disk_panel" where
  "disk_open dn =
     \<lparr>dk_dn = dn, dk_volumes = None, dk_error = None, dk_escrowing = None, dk_revealed = None, dk_loads = [dn], dk_sent = []\<rparr>"

definition disk_load :: "disk_panel \<Rightarrow> disk_panel" where
  "disk_load s = s\<lparr>dk_error := None, dk_loads := dk_loads s @ [dk_dn s]\<rparr>"

datatype (plugins only: code size) disk_event =
    DiskMoved string
  | DiskChanged
  | DiskLoaded nat "string + disk_volume list"
  | RevealKey disk_volume
  | KeyRevealed "string + string \<times> string"
  | KeyClosed
  | EscrowPressed disk_volume
  | EscrowTyped string
  | EscrowClosed
  | EscrowSubmitted
  | EscrowAnswered "string option"

definition disk_step :: "disk_event \<Rightarrow> disk_panel \<Rightarrow> disk_panel" where
  "disk_step ev s =
     (case ev of
        DiskMoved dn \<Rightarrow> (if dn = dk_dn s then s else disk_load (s\<lparr>dk_dn := dn\<rparr>))
      | DiskChanged \<Rightarrow> disk_load s
      | DiskLoaded i a \<Rightarrow>
          (if length (dk_loads s) \<le> i then s
           else (case a of Inl msg \<Rightarrow> s\<lparr>dk_error := Some msg\<rparr> | Inr vs \<Rightarrow> s\<lparr>dk_volumes := Some vs\<rparr>))
      | KeyRevealed a \<Rightarrow> (case a of Inl msg \<Rightarrow> s\<lparr>dk_error := Some msg\<rparr> | Inr key \<Rightarrow> s\<lparr>dk_revealed := Some key\<rparr>)
      | KeyClosed \<Rightarrow> s\<lparr>dk_revealed := None\<rparr>
      | EscrowTyped v \<Rightarrow> (case dk_escrowing s of Some f \<Rightarrow> s\<lparr>dk_escrowing := Some (f\<lparr>es_passphrase := v\<rparr>)\<rparr> | None \<Rightarrow> s)
      | EscrowClosed \<Rightarrow> s\<lparr>dk_escrowing := None\<rparr>
      | EscrowAnswered failure \<Rightarrow>
          (case failure of
             Some msg \<Rightarrow> (case dk_escrowing s of Some f \<Rightarrow> s\<lparr>dk_escrowing := Some (f\<lparr>es_error := Some msg, es_busy := False\<rparr>)\<rparr> | None \<Rightarrow> s)
           | None \<Rightarrow> disk_load (s\<lparr>dk_escrowing := None\<rparr>))
      | EscrowSubmitted \<Rightarrow>
          (case dk_escrowing s of
             Some f \<Rightarrow>
               (if es_passphrase f = [] \<or> es_busy f then s
                else s\<lparr>dk_escrowing := Some (f\<lparr>es_busy := True, es_error := None\<rparr>),
                       dk_sent := dk_sent s @ [Call_servers (Srv_escrowKey (dk_dn s) (dv_device (es_volume f)) (es_passphrase f))]\<rparr>)
           | None \<Rightarrow> s)
      | _ \<Rightarrow>
          (case (dk_error s, dk_volumes s) of
             (None, Some vs) \<Rightarrow>
               (case ev of
                  RevealKey v \<Rightarrow>
                    (if v \<in> set vs \<and> dv_encrypted v \<and> dv_key v
                     then s\<lparr>dk_sent := dk_sent s @ [Call_servers (Srv_recoveryKey (dk_dn s) (dv_device v))]\<rparr> else s)
                | EscrowPressed v \<Rightarrow>
                    (if v \<in> set vs \<and> dv_encrypted v \<and> \<not> dv_key v \<and> dv_free v \<noteq> Some 0
                     then s\<lparr>dk_escrowing := Some \<lparr>es_volume = v, es_passphrase = [], es_busy = False, es_error = None\<rparr>\<rparr> else s)
                | _ \<Rightarrow> s)
           | _ \<Rightarrow> s))"

section \<open>The journal\<close>

record logs_tab =
  lt_dn :: string
  lt_hours :: int
  lt_groups :: "log_group list"
  lt_open :: "string set"
  lt_error :: "string option"
  lt_loading :: bool
  lt_errorsOnly :: bool
  lt_needle :: string
  lt_loads :: "(string \<times> int) list"

definition logs_start :: "string \<Rightarrow> logs_tab" where
  "logs_start dn =
     \<lparr>lt_dn = dn, lt_hours = 24, lt_groups = [], lt_open = {}, lt_error = None, lt_loading = True, lt_errorsOnly = False, lt_needle = [],
      lt_loads = [(dn, 24)]\<rparr>"

datatype (plugins only: code size) logs_event =
    LogsMoved string
  | LogsHours int
  | LogsReload
  | LogsLoaded nat "string + log_group list"
  | LogsToggled string
  | LogsErrorsOnly bool
  | LogsNeedle string

definition logs_load :: "logs_tab \<Rightarrow> logs_tab" where
  "logs_load s = s\<lparr>lt_loading := True, lt_error := None, lt_loads := lt_loads s @ [(lt_dn s, lt_hours s)]\<rparr>"

definition logs_call :: "string \<times> int \<Rightarrow> api_call" where
  "logs_call = (\<lambda>(dn, h). Call_servers (Srv_logs dn h))"

definition logs_step :: "logs_event \<Rightarrow> logs_tab \<Rightarrow> logs_tab" where
  "logs_step ev s =
     (case ev of
        LogsMoved dn \<Rightarrow> (if dn = lt_dn s then s else logs_load (s\<lparr>lt_dn := dn\<rparr>))
      | LogsHours h \<Rightarrow> (if h = lt_hours s \<or> h \<notin> {6, 24, 72, 336} then s else logs_load (s\<lparr>lt_hours := h\<rparr>))
      | LogsReload \<Rightarrow> logs_load s
      | LogsLoaded i a \<Rightarrow>
          (if length (lt_loads s) \<le> i then s
           else (case a of
                   Inl msg \<Rightarrow> s\<lparr>lt_error := Some msg, lt_loading := False\<rparr>
                 | Inr gs \<Rightarrow> s\<lparr>lt_groups := gs, lt_open := log_open gs, lt_loading := False\<rparr>))
      | LogsToggled u \<Rightarrow> s\<lparr>lt_open := log_toggle u (lt_open s)\<rparr>
      | LogsErrorsOnly b \<Rightarrow> s\<lparr>lt_errorsOnly := b\<rparr>
      | LogsNeedle v \<Rightarrow> s\<lparr>lt_needle := v\<rparr>)"

section \<open>What is read\<close>

definition machine_arrival :: "machine_event \<Rightarrow> (nat \<times> machine_detail) option" where
  "machine_arrival ev = (case ev of MachineLoaded i (Inr d) \<Rightarrow> Some (i, d) | _ \<Rightarrow> None)"

lemma ask_frame [js_frame]: "mp_loads (ask a p u s) = mp_loads s" "mp_detail (ask a p u s) = mp_detail s" "mp_dn (ask a p u s) = mp_dn s"
  by (simp_all add: ask_def)

lemma facts_frame [js_frame]:
  "mp_loads (facts_step ev d s) = mp_loads s" "mp_detail (facts_step ev d s) = mp_detail s" "mp_dn (facts_step ev d s) = mp_dn s"
  by (simp_all add: facts_step_def js_frame split: machine_event.split option.split)

interpretation machine: eager_loader machine_step mp_loads mp_detail machine_arrival
proof
  fix ev and s :: machine_page
  show "\<exists>ks. mp_loads (machine_step ev s) = mp_loads s @ ks"
    by (cases ev) (auto simp: machine_step_def machine_load_def js_frame Let_def split: sum.split machine_drawn.split)
next
  fix ev i v and s :: machine_page
  assume "machine_arrival ev = Some (i, v)" and "i < length (mp_loads s)"
  then show "mp_detail (machine_step ev s) = Some v"
    by (auto simp: machine_arrival_def machine_step_def Let_def split: machine_event.splits sum.splits)
next
  fix ev v and s :: machine_page
  assume "mp_detail (machine_step ev s) = Some v"
  then show "mp_detail s = Some v \<or> (\<exists>i. machine_arrival ev = Some (i, v))"
    by (cases ev)
      (auto simp: machine_arrival_def machine_step_def machine_load_def js_frame Let_def split: sum.splits machine_drawn.splits if_splits)
qed

definition logs_arrival :: "logs_event \<Rightarrow> (nat \<times> log_group list) option" where
  "logs_arrival ev = (case ev of LogsLoaded i (Inr gs) \<Rightarrow> Some (i, gs) | _ \<Rightarrow> None)"

interpretation logs: eager_loader logs_step lt_loads "\<lambda>s. Some (lt_groups s)" logs_arrival
proof
  fix ev and s :: logs_tab
  show "\<exists>ks. lt_loads (logs_step ev s) = lt_loads s @ ks"
    by (cases ev) (auto simp: logs_step_def logs_load_def split: sum.split)
next
  fix ev i v and s :: logs_tab
  assume "logs_arrival ev = Some (i, v)" and "i < length (lt_loads s)"
  then show "Some (lt_groups (logs_step ev s)) = Some v"
    by (auto simp: logs_arrival_def logs_step_def split: logs_event.splits sum.splits)
next
  fix ev v and s :: logs_tab
  assume "Some (lt_groups (logs_step ev s)) = Some v"
  then show "Some (lt_groups s) = Some v \<or> (\<exists>i. logs_arrival ev = Some (i, v))"
    by (cases ev) (auto simp: logs_arrival_def logs_step_def logs_load_def split: sum.splits if_splits)
qed

text \<open>The journal shows the hours that are no longer chosen when their answer comes last.\<close>

theorem journal_of_other_hours:
  assumes "h \<in> {6, 24, 72, 336}" and "k \<in> {6, 24, 72, 336}" and "lt_hours s \<noteq> h" and "h \<noteq> k" and "n = length (lt_loads s)"
  shows "let t = fold logs_step [LogsHours h, LogsHours k, LogsLoaded (n + 1) (Inr now), LogsLoaded n (Inr old)] s
         in lt_hours t = k \<and> lt_groups t = old \<and> \<not> lt_loading t"
  using assms by (auto simp: logs_step_def logs_load_def Let_def)

section \<open>Actions\<close>

definition reported :: "machine_event list \<Rightarrow> machine_detail \<Rightarrow> bool" where
  "reported evs d \<longleftrightarrow> (\<exists>i. MachineLoaded i (Inr d) \<in> set evs)"

text \<open>What stands behind an action: restarting, shutting down, uninstalling and removing an account were pressed and then
  confirmed, for a package the machine reported and an account it reported that is not root; a password is for a
  reported account, and what is installed is named.\<close>

definition power_ok :: "machine_event list \<Rightarrow> string \<Rightarrow> bool" where
  "power_ok evs a \<longleftrightarrow> a \<in> {''restart'', ''shutdown''} \<and> PowerPressed a \<in> set evs"

definition uninstall_ok :: "machine_event list \<Rightarrow> string \<Rightarrow> bool" where
  "uninstall_ok evs n \<longleftrightarrow> UninstallPressed n \<in> set evs \<and> (\<exists>d. reported evs d \<and> n \<in> fst ` set (mf_packages (md_facts d)))"

definition remove_ok :: "machine_event list \<Rightarrow> string \<Rightarrow> bool" where
  "remove_ok evs n \<longleftrightarrow>
     (\<exists>a d. AccountRemovePressed a \<in> set evs \<and> la_name a = n \<and> la_uid a \<noteq> 0 \<and> reported evs d \<and> a \<in> set (mf_users (md_facts d)))"

definition password_ok :: "machine_event list \<Rightarrow> string \<Rightarrow> bool" where
  "password_ok evs n \<longleftrightarrow> PasswordPressed n \<in> set evs \<and> (\<exists>d. reported evs d \<and> n \<in> la_name ` set (mf_users (md_facts d)))"

definition action_ok :: "machine_event list \<Rightarrow> api_call \<Rightarrow> bool" where
  "action_ok evs c \<longleftrightarrow>
     (\<exists>dn a. c = Call_servers (Srv_action dn a None JUndef None) \<and> a \<in> set PLAIN_ACTIONS \<and> PlainAction a \<in> set evs) \<or>
     (\<exists>dn a. c = Call_servers (Srv_action dn a None JUndef None) \<and> power_ok evs a \<and> PowerConfirmed \<in> set evs) \<or>
     (\<exists>dn n. c = Call_servers (Srv_action dn ''package-install'' (Some n) JUndef None) \<and> n \<noteq> []) \<or>
     (\<exists>dn n. c = Call_servers (Srv_action dn ''package-remove'' (Some n) JUndef None) \<and> uninstall_ok evs n \<and> UninstallConfirmed \<in> set evs) \<or>
     (\<exists>dn f. c = Call_servers (Srv_action dn ''local-user-add'' None (new_account f) None) \<and> AccountConfirmed f \<in> set evs) \<or>
     (\<exists>dn n p. c = Call_servers (Srv_action dn ''local-user-password'' None (password_account n p) None) \<and> password_ok evs n) \<or>
     (\<exists>dn n. c = Call_servers (Srv_action dn ''local-user-remove'' None (JObj [(''name'', JStr n)]) None) \<and>
        remove_ok evs n \<and> AccountRemoveConfirmed \<in> set evs)"

definition machine_ok :: "machine_event list \<Rightarrow> machine_page \<Rightarrow> bool" where
  "machine_ok evs s \<longleftrightarrow>
     (\<forall>d. mp_detail s = Some d \<longrightarrow> reported evs d) \<and>
     (\<forall>a. mp_power s = Some a \<longrightarrow> power_ok evs a) \<and> (\<forall>n. mp_removing s = Some n \<longrightarrow> uninstall_ok evs n) \<and>
     (\<forall>n. mp_removing_user s = Some n \<longrightarrow> remove_ok evs n) \<and> (\<forall>n. mp_password_for s = Some n \<longrightarrow> password_ok evs n) \<and>
     (\<forall>c \<in> set (mp_sent s). action_ok evs c)"

lemma machine_ok_ask:
  assumes "machine_ok evs s" and "action_ok evs (Call_servers (Srv_action (mp_dn s) a p u None))"
  shows "machine_ok evs (ask a p u s)"
  using assms by (auto simp: machine_ok_def ask_def)

lemma machine_ok_close:
  assumes "machine_ok evs s"
  shows "machine_ok evs (s\<lparr>mp_power := None\<rparr>)" "machine_ok evs (s\<lparr>mp_removing := None\<rparr>)" "machine_ok evs (s\<lparr>mp_removing_user := None\<rparr>)"
    "machine_ok evs (s\<lparr>mp_password_for := None\<rparr>)" "machine_ok evs (s\<lparr>mp_installing := b\<rparr>)" "machine_ok evs (s\<lparr>mp_adding := b\<rparr>)"
    "machine_ok evs (s\<lparr>mp_assist := x\<rparr>)" "machine_ok evs (s\<lparr>mp_messaging := b\<rparr>)"
  using assms by (auto simp: machine_ok_def)

lemma machine_ok_facts:
  assumes ok: "machine_ok all s" and ev: "ev \<in> set all" and d: "mp_detail s = Some d"
  shows "machine_ok all (facts_step ev d s)"
proof -
  have r: "reported all d" using ok d by (simp add: machine_ok_def)
  show ?thesis
  proof (cases ev)
    case (PlainAction a)
    with ok ev show ?thesis by (auto simp: facts_step_def action_ok_def intro!: machine_ok_ask)
  next
    case (PowerPressed a)
    with ok ev show ?thesis by (auto simp: facts_step_def machine_ok_def power_ok_def)
  next
    case PowerConfirmed
    with ok ev show ?thesis
      by (auto simp: facts_step_def action_ok_def machine_ok_close split: option.split intro!: machine_ok_ask)
        (simp_all add: machine_ok_def)
  next
    case (InstallConfirmed n)
    with ok show ?thesis by (auto simp: facts_step_def action_ok_def machine_ok_close intro!: machine_ok_ask)
  next
    case (UninstallPressed n)
    with ok ev r show ?thesis by (auto simp: facts_step_def machine_ok_def uninstall_ok_def)
  next
    case UninstallConfirmed
    with ok ev show ?thesis
      by (auto simp: facts_step_def action_ok_def machine_ok_close split: option.split intro!: machine_ok_ask)
        (simp_all add: machine_ok_def)
  next
    case (AccountConfirmed f)
    with ok ev show ?thesis by (auto simp: facts_step_def action_ok_def machine_ok_close intro!: machine_ok_ask)
  next
    case (PasswordPressed n)
    with ok ev r show ?thesis by (auto simp: facts_step_def machine_ok_def password_ok_def)
  next
    case (PasswordSet p)
    with ok ev show ?thesis
      by (auto simp: facts_step_def action_ok_def machine_ok_close split: option.split intro!: machine_ok_ask)
        (auto simp: machine_ok_def)
  next
    case (AccountRemovePressed a)
    with ok ev r show ?thesis by (auto simp: facts_step_def machine_ok_def remove_ok_def)
  next
    case AccountRemoveConfirmed
    with ok ev show ?thesis
      by (auto simp: facts_step_def action_ok_def machine_ok_close split: option.split intro!: machine_ok_ask)
        (simp_all add: machine_ok_def)
  qed (use ok in \<open>auto simp: facts_step_def machine_ok_close\<close>)
qed

lemma machine_ok_step:
  assumes ok: "machine_ok all s" and ev: "ev \<in> set all"
  shows "machine_ok all (machine_step ev s)"
proof -
  have facts: "machine_ok all (case machine_drawn_of s of DrawnFacts d \<Rightarrow> facts_step ev d s | _ \<Rightarrow> s)"
    using machine_ok_facts [OF ok ev] ok by (auto simp: machine_drawn_of_def split: option.split)
  show ?thesis
  proof (cases ev)
    case (MachineLoaded i a)
    with ok ev show ?thesis by (auto simp: machine_step_def machine_ok_def reported_def Let_def split: sum.split)
  next
    case (MachineActed i a)
    with ok show ?thesis by (auto simp: machine_step_def machine_ok_def split: sum.split)
  qed (use ok facts in \<open>auto simp: machine_step_def machine_load_def machine_ok_def\<close>)
qed



text \<open>The action goes to the machine of the address, and the list it was chosen from may still be another's: a package chosen
  from one machine is uninstalled from the one the page has moved to.\<close>

theorem uninstall_reaches_another_machine:
  assumes "mp_dn s = a" and "a \<noteq> b" and "mp_detail s = Some d" and "md_known d" and "n \<in> fst ` set (mf_packages (md_facts d))"
    and "mp_tab s = OnSoftware" and "\<not> mp_busy s"
  shows "mp_sent (fold machine_step [MachineMoved b, UninstallPressed n, UninstallConfirmed] s) =
         mp_sent s @ [Call_servers (Srv_action b ''package-remove'' (Some n) JUndef None)]"
proof -
  have moved: "machine_step (MachineMoved b) s = s\<lparr>mp_dn := b, mp_error := None, mp_loads := mp_loads s @ [b]\<rparr>"
    using assms by (simp add: machine_step_def machine_load_def)
  show ?thesis
    using assms by (simp add: moved) (simp add: machine_step_def machine_drawn_of_def facts_step_def ask_def)
qed

text \<open>A refused action takes the whole tab away: what stands on the page is its error, and nothing can be pressed until the
  machine is read again.\<close>

theorem refused_action_takes_the_tab_away:
  assumes "i < length (mp_acts s)"
    and "\<forall>ev \<in> set evs. ev \<noteq> MachineChanged \<and> (\<forall>dn. ev \<noteq> MachineMoved dn) \<and> (\<forall>j a b. ev \<noteq> MachineLoaded j a \<and> ev \<noteq> MachineActed j b)"
  shows "let t = fold machine_step (MachineActed i (Inl msg) # evs) s
         in machine_drawn_of t = DrawnError msg \<and> mp_sent t = mp_sent s"
proof -
  have stays: "mp_error (fold machine_step es u) = Some msg \<and> mp_sent (fold machine_step es u) = mp_sent u"
    if "mp_error u = Some msg"
      "\<forall>ev \<in> set es. ev \<noteq> MachineChanged \<and> (\<forall>dn. ev \<noteq> MachineMoved dn) \<and> (\<forall>j a b. ev \<noteq> MachineLoaded j a \<and> ev \<noteq> MachineActed j b)" for es u
    using that
  proof (induction es arbitrary: u)
    case (Cons e es)
    have "mp_error (machine_step e u) = Some msg \<and> mp_sent (machine_step e u) = mp_sent u"
      using Cons.prems by (cases e) (auto simp: machine_step_def machine_drawn_of_def)
    with Cons show ?case by simp
  qed simp
  define u where "u = machine_step (MachineActed i (Inl msg)) s"
  have u: "mp_error u = Some msg" "mp_sent u = mp_sent s" using assms(1) by (simp_all add: u_def machine_step_def)
  from stays [OF u(1) assms(2)] u(2) show ?thesis by (simp add: Let_def machine_drawn_of_def u_def [symmetric])
qed

section \<open>Secrets of a machine\<close>

definition count_events :: "('e \<Rightarrow> bool) \<Rightarrow> 'e list \<Rightarrow> nat" where
  "count_events P evs = length (filter P evs)"

text \<open>The password of the local administrator is read no more often than it was asked for, and once it is shown it is not read
  again.\<close>

theorem password_is_read_when_asked:
  "length (ap_sent (fold admin_step evs (admin_open dn))) \<le> count_events (\<lambda>ev. ev = Reveal) evs"
proof -
  have "length (ap_sent (fold admin_step evs s)) \<le> length (ap_sent s) + count_events (\<lambda>ev. ev = Reveal) evs" for s
  proof (induction evs arbitrary: s)
    case (Cons ev evs)
    have "length (ap_sent (admin_step ev s)) \<le> length (ap_sent s) + count_events (\<lambda>ev. ev = Reveal) [ev]"
      by (cases ev) (auto simp: admin_step_def count_events_def split: sum.split)
    with Cons [of "admin_step ev s"] show ?case by (simp add: count_events_def split: if_splits)
  qed (simp add: count_events_def)
  from this [of "admin_open dn"] show ?thesis by (simp add: admin_open_def)
qed

text \<open>The password shown stays when the page moves to another machine, whatever is pressed there.\<close>

theorem password_of_another_machine_is_shown:
  assumes "ap_shown s = Some p" and "\<not> ap_busy s"
  shows "let t = fold admin_step (AdminMoved b # evs) s in ap_shown t = Some p \<and> ap_sent t = ap_sent s"
proof -
  have "ap_shown (fold admin_step es u) = Some p \<and> ap_sent (fold admin_step es u) = ap_sent u" if "ap_shown u = Some p" "\<not> ap_busy u" for es u
    using that
  proof (induction es arbitrary: u)
    case (Cons e es)
    have "ap_shown (admin_step e u) = Some p \<and> \<not> ap_busy (admin_step e u) \<and> ap_sent (admin_step e u) = ap_sent u"
      using Cons.prems by (cases e) (auto simp: admin_step_def)
    with Cons show ?case by simp
  qed simp
  from this [of "admin_step (AdminMoved b) s" evs] assms show ?thesis by (simp add: admin_step_def Let_def)
qed

text \<open>A recovery key is read only of a volume that was listed as encrypted with a key, and a passphrase is only sent, and never
  an empty one, for a volume that was listed as encrypted without a key and with a slot left.\<close>

definition volume_listed :: "disk_event list \<Rightarrow> disk_volume \<Rightarrow> bool" where
  "volume_listed evs v \<longleftrightarrow> (\<exists>i vs. DiskLoaded i (Inr vs) \<in> set evs \<and> v \<in> set vs)"

definition disk_call_ok :: "disk_event list \<Rightarrow> api_call \<Rightarrow> bool" where
  "disk_call_ok evs c \<longleftrightarrow>
     (\<exists>dn v. c = Call_servers (Srv_recoveryKey dn (dv_device v)) \<and> RevealKey v \<in> set evs \<and> volume_listed evs v \<and> dv_encrypted v \<and> dv_key v) \<or>
     (\<exists>dn v p. c = Call_servers (Srv_escrowKey dn (dv_device v) p) \<and> p \<noteq> [] \<and> EscrowPressed v \<in> set evs \<and> volume_listed evs v \<and>
        dv_encrypted v \<and> \<not> dv_key v \<and> dv_free v \<noteq> Some 0)"

definition disk_ok :: "disk_event list \<Rightarrow> disk_panel \<Rightarrow> bool" where
  "disk_ok evs s \<longleftrightarrow>
     (\<forall>vs. dk_volumes s = Some vs \<longrightarrow> (\<forall>v \<in> set vs. volume_listed evs v)) \<and>
     (\<forall>f. dk_escrowing s = Some f \<longrightarrow>
        (let v = es_volume f in EscrowPressed v \<in> set evs \<and> volume_listed evs v \<and> dv_encrypted v \<and> \<not> dv_key v \<and> dv_free v \<noteq> Some 0)) \<and>
     (\<forall>c \<in> set (dk_sent s). disk_call_ok evs c)"

lemma disk_ok_step:
  assumes ok: "disk_ok all s" and ev: "ev \<in> set all"
  shows "disk_ok all (disk_step ev s)"
proof (cases ev)
  case (DiskLoaded i a)
  with ok ev show ?thesis by (auto simp: disk_step_def disk_ok_def volume_listed_def split: sum.split)
next
  case (RevealKey v)
  with ok ev show ?thesis by (auto simp: disk_step_def disk_ok_def disk_call_ok_def split: option.split)
next
  case (EscrowPressed v)
  with ok ev show ?thesis by (auto simp: disk_step_def disk_ok_def Let_def split: option.split)
next
  case EscrowSubmitted
  with ok ev show ?thesis by (auto simp: disk_step_def disk_ok_def disk_call_ok_def Let_def split: option.split)
qed (use ok in \<open>auto simp: disk_step_def disk_ok_def disk_load_def Let_def split: option.split sum.split\<close>)

theorem keys_of_listed_volumes_only:
  "\<forall>c \<in> set (dk_sent (fold disk_step evs (disk_open dn))). disk_call_ok evs c"
proof -
  have "disk_ok all s \<Longrightarrow> set es \<subseteq> set all \<Longrightarrow> disk_ok all (fold disk_step es s)" for all es s
    by (induction es arbitrary: s) (simp_all add: disk_ok_step)
  from this [of evs "disk_open dn" evs] show ?thesis by (simp add: disk_ok_def disk_open_def)
qed

end
