(* ===== verification/MonitorTabs.thy ===== *)
theory MonitorTabs
  imports Monitoring Loaders
begin

text \<open>
  The tabs of the monitoring page (\<^verbatim>\<open>pages/Monitor.tsx\<close>). Five of them, the groups, rules, channels, maintenance windows and
  probes, are a list that is read, a form that is saved and rows that are removed; \<open>tab_step\<close> is that machine over what
  each makes of it, and \<open>listed_tab\<close> what it promises: a removal is of a row that was listed. The alerts and the dashboards
  are machines of their own. A row is the object the API gave; a question of the browser's (\<open>confirm\<close>) comes with the event.
\<close>

section \<open>A list, a form, and rows to remove\<close>

record 'f list_tab =
  tb_items :: "jsobj list"
  tb_loaded :: bool
  tb_form :: "'f option"
  tb_busy :: bool
  tb_error :: "string option"
  tb_loads :: nat
  tb_sent :: "api_call list"

definition tab_open :: "'f list_tab" where
  "tab_open = \<lparr>tb_items = [], tb_loaded = False, tb_form = None, tb_busy = False, tb_error = None, tb_loads = 1, tb_sent = []\<rparr>"

text \<open>Saving sends a call, does nothing, or throws before it sends; the words of the browser's error come with the event.\<close>

datatype (plugins only: code size) save_outcome = SaveSends api_call | SaveNothing | SaveThrows

datatype ('f, 'e) tab_event =
    TabLoaded "string + jsobj list"
  | TabTimer
  | FormOpened 'f
  | RowEdited jsobj
  | FormEdited 'e
  | FormClosed
  | FormSaved string
  | SaveAnswered "string option"
  | RowRemoved jsobj bool
  | RemoveAnswered "string option"

text \<open>\<open>start\<close> is the form of a row, where rows can be edited; \<open>save\<close> what saving a form does; \<open>asks\<close> says whether a removal is asked back.\<close>

definition tab_step ::
  "(jsobj \<Rightarrow> 'f option) \<Rightarrow> ('e \<Rightarrow> 'f \<Rightarrow> 'f) \<Rightarrow> ('f \<Rightarrow> save_outcome) \<Rightarrow> (jsobj \<Rightarrow> api_call) \<Rightarrow> bool \<Rightarrow>
   ('f, 'e) tab_event \<Rightarrow> 'f list_tab \<Rightarrow> 'f list_tab" where
  "tab_step start edit save remove asks ev s =
     (case ev of
        TabLoaded a \<Rightarrow> (case a of Inl msg \<Rightarrow> s\<lparr>tb_error := Some msg\<rparr> | Inr xs \<Rightarrow> s\<lparr>tb_items := xs, tb_loaded := True\<rparr>)
      | TabTimer \<Rightarrow> s\<lparr>tb_loads := Suc (tb_loads s)\<rparr>
      | FormOpened f \<Rightarrow> s\<lparr>tb_form := Some f\<rparr>
      | RowEdited x \<Rightarrow> (if x \<in> set (tb_items s) then (case start x of Some f \<Rightarrow> s\<lparr>tb_form := Some f\<rparr> | None \<Rightarrow> s) else s)
      | FormEdited e \<Rightarrow> (case tb_form s of Some f \<Rightarrow> s\<lparr>tb_form := Some (edit e f)\<rparr> | None \<Rightarrow> s)
      | FormClosed \<Rightarrow> s\<lparr>tb_form := None\<rparr>
      | FormSaved words \<Rightarrow>
          (case tb_form s of
             Some f \<Rightarrow>
               (if tb_busy s then s
                else (case save f of
                        SaveSends c \<Rightarrow> s\<lparr>tb_busy := True, tb_sent := tb_sent s @ [c]\<rparr>
                      | SaveNothing \<Rightarrow> s
                      | SaveThrows \<Rightarrow> s\<lparr>tb_error := Some words\<rparr>))
           | None \<Rightarrow> s)
      | SaveAnswered failure \<Rightarrow>
          (if \<not> tb_busy s then s
           else (case failure of
                   Some msg \<Rightarrow> s\<lparr>tb_busy := False, tb_error := Some msg\<rparr>
                 | None \<Rightarrow> s\<lparr>tb_busy := False, tb_form := None, tb_loads := Suc (tb_loads s)\<rparr>))
      | RowRemoved x yes \<Rightarrow>
          (if x \<in> set (tb_items s) \<and> (asks \<longrightarrow> yes) then s\<lparr>tb_sent := tb_sent s @ [remove x]\<rparr> else s)
      | RemoveAnswered failure \<Rightarrow>
          (case failure of Some msg \<Rightarrow> s\<lparr>tb_error := Some msg\<rparr> | None \<Rightarrow> s\<lparr>tb_loads := Suc (tb_loads s)\<rparr>))"

definition listed_row :: "('f, 'e) tab_event list \<Rightarrow> jsobj \<Rightarrow> bool" where
  "listed_row evs x \<longleftrightarrow> (\<exists>xs. TabLoaded (Inr xs) \<in> set evs \<and> x \<in> set xs)"

locale listed_tab =
  fixes start :: "jsobj \<Rightarrow> 'f option"
    and edit :: "'e \<Rightarrow> 'f \<Rightarrow> 'f"
    and save :: "'f \<Rightarrow> save_outcome"
    and remove :: "jsobj \<Rightarrow> api_call"
    and asks :: bool
    and removes :: "api_call \<Rightarrow> bool"
  assumes remove_removes: "removes (remove x)"
    and save_keeps: "save f = SaveSends c \<Longrightarrow> \<not> removes c"
begin

definition tab_ok :: "('f, 'e) tab_event list \<Rightarrow> 'f list_tab \<Rightarrow> bool" where
  "tab_ok evs s \<longleftrightarrow>
     (\<forall>x \<in> set (tb_items s). listed_row evs x) \<and>
     (\<forall>c \<in> set (tb_sent s). removes c \<longrightarrow>
        (\<exists>x yes. c = remove x \<and> listed_row evs x \<and> RowRemoved x yes \<in> set evs \<and> (asks \<longrightarrow> yes)))"

lemma tab_ok_step: "tab_ok all s \<Longrightarrow> ev \<in> set all \<Longrightarrow> tab_ok all (tab_step start edit save remove asks ev s)"
proof (cases ev)
  case (TabLoaded a)
  assume "tab_ok all s" "ev \<in> set all"
  with TabLoaded show ?thesis by (auto simp: tab_step_def tab_ok_def listed_row_def split: sum.split)
next
  case (RowRemoved x yes)
  assume "tab_ok all s" "ev \<in> set all"
  with RowRemoved show ?thesis by (auto simp: tab_step_def tab_ok_def)
next
  case (FormSaved words)
  assume "tab_ok all s"
  with FormSaved save_keeps show ?thesis by (auto simp: tab_step_def tab_ok_def split: option.split save_outcome.split)
qed (auto simp: tab_step_def tab_ok_def split: option.split)

lemma removals_were_listed:
  assumes "c \<in> set (tb_sent (fold (tab_step start edit save remove asks) evs tab_open))" and "removes c"
  shows "\<exists>x yes. c = remove x \<and> listed_row evs x \<and> RowRemoved x yes \<in> set evs \<and> (asks \<longrightarrow> yes)"
proof -
  have "tab_ok all s \<Longrightarrow> set es \<subseteq> set all \<Longrightarrow> tab_ok all (fold (tab_step start edit save remove asks) es s)" for all es s
    by (induction es arbitrary: s) (simp_all add: tab_ok_step)
  from this [of evs tab_open evs] have "tab_ok evs (fold (tab_step start edit save remove asks) evs tab_open)"
    by (simp add: tab_ok_def tab_open_def)
  with assms show ?thesis by (auto simp: tab_ok_def)
qed

text \<open>An error is never taken away: no read, save or removal that succeeds clears it.\<close>

lemma error_stays:
  "tb_error s \<noteq> None \<Longrightarrow> tb_error (fold (tab_step start edit save remove asks) evs s) \<noteq> None"
proof (induction evs arbitrary: s)
  case (Cons ev evs)
  have "tb_error (tab_step start edit save remove asks ev s) \<noteq> None"
    using Cons.prems by (cases ev) (auto simp: tab_step_def split: option.split sum.split save_outcome.split)
  with Cons.IH show ?case by simp
qed simp

lemma kept_error:
  assumes "\<forall>ev \<in> set evs. (\<forall>m. ev \<noteq> TabLoaded (Inl m) \<and> ev \<noteq> SaveAnswered (Some m) \<and> ev \<noteq> RemoveAnswered (Some m) \<and> ev \<noteq> FormSaved m)"
  shows "tb_error (fold (tab_step start edit save remove asks) evs s) = tb_error s"
  using assms
proof (induction evs arbitrary: s)
  case (Cons ev evs)
  have "tb_error (tab_step start edit save remove asks ev s) = tb_error s"
    using Cons.prems by (cases ev) (auto simp: tab_step_def split: option.split sum.split save_outcome.split)
  with Cons show ?case by simp
qed simp

end

section \<open>What each tab makes of it\<close>

definition row_id :: "jsobj \<Rightarrow> string" where
  "row_id x = to_string (obj_get x ''id'')"

text \<open>A text, a number, a box of a form.\<close>

datatype (plugins only: code size) field_edit =
    FieldText string string
  | FieldNumber string jsval
  | FieldBox string bool
  | FieldScope string
  | FieldTick string string bool

definition put_tick :: "string \<Rightarrow> string \<Rightarrow> bool \<Rightarrow> jsobj \<Rightarrow> jsobj" where
  "put_tick k v on f =
     (let vs = (case obj_get f k of JArr xs \<Rightarrow> map to_string xs | _ \<Rightarrow> [])
      in obj_put k (strs (if on then vs @ [v] else filter (\<lambda>x. x \<noteq> v) vs)) f)"

text \<open>Choosing another kind of scope takes away what it was narrowed to.\<close>

definition edit_field :: "field_edit \<Rightarrow> jsobj \<Rightarrow> jsobj" where
  "edit_field e f =
     (case e of
        FieldText k v \<Rightarrow> obj_put k (JStr v) f
      | FieldNumber k v \<Rightarrow> obj_put k v f
      | FieldBox k b \<Rightarrow> obj_put k (JBool b) f
      | FieldScope v \<Rightarrow> obj_put ''scope'' (JStr []) (obj_put ''scope_kind'' (JStr v) f)
      | FieldTick k v on \<Rightarrow> put_tick k v on f)"

definition BLANK_GROUP :: jsobj where
  "BLANK_GROUP = [(''name'', JStr []), (''description'', JStr []), (''members'', JArr [])]"

definition group_save :: "jsobj \<Rightarrow> save_outcome" where
  "group_save f =
     (if \<not> truthy (obj_get f ''name'') then SaveNothing
      else let body = JObj [(''name'', obj_get f ''name''), (''description'', or_else (obj_get f ''description'') (JStr [])),
                            (''members'', or_else (obj_get f ''members'') (JArr []))]
           in SaveSends (Call_monitor (if truthy (obj_get f ''id'') then Mon_updateGroup (row_id f) body else Mon_createGroup body)))"

definition group_remove :: "jsobj \<Rightarrow> api_call" where
  "group_remove x = Call_monitor (Mon_deleteGroup (row_id x))"

definition BLANK_RULE :: jsobj where
  "BLANK_RULE =
     [(''name'', JStr []), (''description'', JStr []), (''metric'', JStr ''cpu_percent''), (''op'', JStr ''gt''), (''threshold'', JNum 90),
      (''for_seconds'', JNum 300), (''severity'', JStr ''warning''), (''scope_kind'', JStr ''all''), (''scope'', JStr []),
      (''channels'', JArr []), (''enabled'', JBool True)]"

definition rule_remove :: "jsobj \<Rightarrow> api_call" where
  "rule_remove x = Call_monitor (Mon_deleteRule (row_id x))"

definition BLANK_CHANNEL :: jsobj where
  "BLANK_CHANNEL = [(''name'', JStr []), (''kind'', JStr ''ntfy''), (''url'', JStr []), (''min_severity'', JStr ''warning'')]"

definition channel_save :: "jsobj \<Rightarrow> save_outcome" where
  "channel_save f = SaveSends (Call_monitor (Mon_createChannel (JObj f)))"

definition channel_remove :: "jsobj \<Rightarrow> api_call" where
  "channel_remove x = Call_monitor (Mon_deleteChannel (row_id x))"

definition channel_test :: "jsobj \<Rightarrow> api_call" where
  "channel_test x = Call_monitor (Mon_testChannel (row_id x))"

definition channel_tested :: "jsobj \<Rightarrow> string" where
  "channel_tested x = ''A test went to '' @ to_string (obj_get x ''name'') @ ''.''"

text \<open>What the list says a channel takes and where it goes.\<close>

definition channel_takes :: "jsobj \<Rightarrow> string" where
  "channel_takes x = (if obj_get x ''min_severity'' = JStr ''critical'' then ''critical only'' else ''warnings and critical'')"

definition channel_where :: "jsobj \<Rightarrow> string" where
  "channel_where x =
     (if obj_get x ''kind'' = JStr ''ntfy''
      then (if truthy (obj_get x ''available'') then to_string (obj_get x ''topic'') else ''phone approvals are not set up on the controller'')
      else to_string (obj_get x ''url''))"

text \<open>A window's ends are typed in the time of the place and sent as instants; text that is no time throws, and nothing is
  sent. \<open>stamp_of\<close> is the browser's reading.\<close>

definition window_blank :: "string \<Rightarrow> string \<Rightarrow> jsobj" where
  "window_blank now later =
     [(''name'', JStr []), (''scope_kind'', JStr ''all''), (''scope'', JStr []), (''starts_at'', JStr now), (''ends_at'', JStr later),
      (''note'', JStr [])]"

definition window_save :: "(string \<Rightarrow> string option) \<Rightarrow> jsobj \<Rightarrow> save_outcome" where
  "window_save stamp_of f =
     (case (stamp_of (to_string (obj_get f ''starts_at'')), stamp_of (to_string (obj_get f ''ends_at''))) of
        (Some a, Some b) \<Rightarrow>
          SaveSends (Call_monitor (Mon_createMaintenance (JObj (obj_spread f [(''starts_at'', JStr a), (''ends_at'', JStr b)]))))
      | _ \<Rightarrow> SaveThrows)"

definition window_remove :: "jsobj \<Rightarrow> api_call" where
  "window_remove x = Call_monitor (Mon_deleteMaintenance (row_id x))"

definition BLANK_PROBE :: jsobj where
  "BLANK_PROBE =
     [(''name'', JStr []), (''kind'', JStr ''ping''), (''target'', JStr []), (''port'', JNum 0), (''interval_seconds'', JNum 60),
      (''enabled'', JBool True)]"

definition probe_save :: "jsobj \<Rightarrow> save_outcome" where
  "probe_save f =
     (let body = JObj (obj_delete ''id'' f)
      in SaveSends (Call_monitor (if truthy (obj_get f ''id'') then Mon_updateProbe (row_id f) body else Mon_createProbe body)))"

definition probe_remove :: "jsobj \<Rightarrow> api_call" where
  "probe_remove x = Call_monitor (Mon_deleteProbe (row_id x))"

text \<open>Where a rule or a window applies, in words.\<close>

definition scope_words :: "(string \<times> string) list \<Rightarrow> string \<Rightarrow> string \<Rightarrow> string" where
  "scope_words groups kind scope =
     (if kind = ''all'' then ''every machine''
      else if kind = ''group'' then (case map_of (rev groups) scope of Some n \<Rightarrow> n | None \<Rightarrow> ''(deleted group)'')
      else scope)"

interpretation groups: listed_tab Some edit_field group_save group_remove True "\<lambda>c. \<exists>i. c = Call_monitor (Mon_deleteGroup i)"
  by unfold_locales (auto simp: group_remove_def group_save_def Let_def split: if_splits)

interpretation rules: listed_tab Some edit_field "\<lambda>f. SaveSends (rule_save f)" rule_remove True "\<lambda>c. \<exists>i. c = Call_monitor (Mon_deleteRule i)"
  by unfold_locales (auto simp: rule_remove_def rule_save_def Let_def split: if_splits)

interpretation channels: listed_tab "\<lambda>x. None" edit_field channel_save channel_remove True "\<lambda>c. \<exists>i. c = Call_monitor (Mon_deleteChannel i)"
  by unfold_locales (auto simp: channel_remove_def channel_save_def)

interpretation maintenance: listed_tab "\<lambda>x. None" edit_field "window_save stamp_of" window_remove False
    "\<lambda>c. \<exists>i. c = Call_monitor (Mon_deleteMaintenance i)" for stamp_of
  by unfold_locales (auto simp: window_remove_def window_save_def split: option.splits)

interpretation probes: listed_tab Some edit_field probe_save probe_remove True "\<lambda>c. \<exists>i. c = Call_monitor (Mon_deleteProbe i)"
  by unfold_locales (auto simp: probe_remove_def probe_save_def Let_def split: if_splits)

section \<open>Alerts\<close>

record alerts_tab =
  at_state :: string
  at_alerts :: "jsobj list"
  at_loaded :: bool
  at_error :: "string option"
  at_loads :: "string list"

definition alerts_open :: alerts_tab where
  "alerts_open = \<lparr>at_state = ''firing'', at_alerts = [], at_loaded = False, at_error = None, at_loads = [''firing'']\<rparr>"

datatype (plugins only: code size) alerts_event = AlertsChosen string | AlertsTimer | AlertsAnswered nat "string + jsobj list"

definition alerts_step :: "alerts_event \<Rightarrow> alerts_tab \<Rightarrow> alerts_tab" where
  "alerts_step ev s =
     (case ev of
        AlertsChosen v \<Rightarrow>
          (if v \<in> {''firing'', ''resolved'', ''all''} \<and> v \<noteq> at_state s then s\<lparr>at_state := v, at_loads := at_loads s @ [v]\<rparr> else s)
      | AlertsTimer \<Rightarrow> s\<lparr>at_loads := at_loads s @ [at_state s]\<rparr>
      | AlertsAnswered i a \<Rightarrow>
          (if length (at_loads s) \<le> i then s
           else (case a of Inl msg \<Rightarrow> s\<lparr>at_error := Some msg\<rparr> | Inr xs \<Rightarrow> s\<lparr>at_alerts := xs, at_loaded := True\<rparr>)))"

definition alerts_arrival :: "alerts_event \<Rightarrow> (nat \<times> jsobj list) option" where
  "alerts_arrival ev = (case ev of AlertsAnswered i (Inr xs) \<Rightarrow> Some (i, xs) | _ \<Rightarrow> None)"

interpretation alerts: eager_loader alerts_step at_loads "\<lambda>s. Some (at_alerts s)" alerts_arrival
proof
  fix ev and s :: alerts_tab
  show "\<exists>ks. at_loads (alerts_step ev s) = at_loads s @ ks"
    by (cases ev) (auto simp: alerts_step_def split: sum.split)
next
  fix ev i v and s :: alerts_tab
  assume "alerts_arrival ev = Some (i, v)" and "i < length (at_loads s)"
  then show "Some (at_alerts (alerts_step ev s)) = Some v"
    by (auto simp: alerts_arrival_def alerts_step_def split: alerts_event.splits sum.splits)
next
  fix ev v and s :: alerts_tab
  assume "Some (at_alerts (alerts_step ev s)) = Some v"
  then show "Some (at_alerts s) = Some v \<or> (\<exists>i. alerts_arrival ev = Some (i, v))"
    by (cases ev) (auto simp: alerts_arrival_def alerts_step_def split: sum.splits if_splits)
qed

section \<open>Dashboards\<close>

record dashboard =
  db_id :: string
  db_name :: string
  db_widgets :: jsval
  db_default :: bool
  db_channel :: jsval
  db_token :: "string option"

record dashboards_tab =
  dt_list :: "dashboard list"
  dt_selected :: "string option"
  dt_data :: "string option"
  dt_editing :: "dashboard option"
  dt_error :: "string option"
  dt_adding :: bool
  dt_newName :: string
  dt_busy :: bool
  dt_lists :: nat
  dt_made :: "(nat \<times> dashboard) option"
  dt_gets :: "string list"
  dt_sent :: "api_call list"

text \<open>\<open>dt_data\<close> is the dashboard whose values are drawn; \<open>dt_gets\<close> are the dashboards whose values were asked for. One that was
  made is selected and designed once the list that is read after it has come.\<close>

definition dashboards_open :: dashboards_tab where
  "dashboards_open =
     \<lparr>dt_list = [], dt_selected = None, dt_data = None, dt_editing = None, dt_error = None, dt_adding = False, dt_newName = [], dt_busy = False,
      dt_lists = 1, dt_made = None, dt_gets = [], dt_sent = []\<rparr>"

definition shown_dashboard :: "dashboards_tab \<Rightarrow> dashboard option" where
  "shown_dashboard s = find (\<lambda>d. Some (db_id d) = dt_selected s) (dt_list s)"

definition first_selected :: "dashboard list \<Rightarrow> string option" where
  "first_selected ds =
     (case find db_default ds of Some d \<Rightarrow> Some (db_id d) | None \<Rightarrow> (case ds of d # _ \<Rightarrow> Some (db_id d) | [] \<Rightarrow> None))"

text \<open>The values are read when the selection moves on, and every quarter minute.\<close>

definition select_dashboard :: "string option \<Rightarrow> dashboards_tab \<Rightarrow> dashboards_tab" where
  "select_dashboard sel s =
     (if sel = dt_selected s then s
      else s\<lparr>dt_selected := sel, dt_gets := dt_gets s @ (case sel of Some d \<Rightarrow> [d] | None \<Rightarrow> [])\<rparr>)"

definition finish_made :: "nat \<Rightarrow> dashboards_tab \<Rightarrow> dashboards_tab" where
  "finish_made i s =
     (case dt_made s of
        Some (j, d) \<Rightarrow>
          (if j = i then select_dashboard (Some (db_id d)) (s\<lparr>dt_made := None, dt_editing := Some d, dt_busy := False\<rparr>) else s)
      | None \<Rightarrow> s)"

definition dashboard_body :: "dashboard \<Rightarrow> jsval" where
  "dashboard_body d =
     JObj [(''name'', JStr (db_name d)), (''layout'', db_widgets d), (''is_default'', JBool True), (''channel_id'', db_channel d)]"

datatype (plugins only: code size) dashboards_event =
    DashboardsRead nat "string + dashboard list"
  | DashboardTick
  | DashboardData nat "string + dashboard"
  | DashboardChosen string
  | AddShown bool
  | AddName string
  | AddConfirmed
  | AddAnswered "string + dashboard"
  | DesignPressed
  | DesignClosed bool
  | SharePressed
  | DefaultPressed
  | DeleteDashboard bool
  | DashboardDone "string option"
  | DashboardDeleted "string option"

definition dashboards_step :: "dashboards_event \<Rightarrow> dashboards_tab \<Rightarrow> dashboards_tab" where
  "dashboards_step ev s =
     (case ev of
        DashboardsRead i a \<Rightarrow>
          (if dt_lists s \<le> i then s
           else finish_made i
                  (case a of
                     Inl msg \<Rightarrow> s\<lparr>dt_error := Some msg\<rparr>
                   | Inr ds \<Rightarrow> select_dashboard (case dt_selected s of Some d \<Rightarrow> Some d | None \<Rightarrow> first_selected ds) (s\<lparr>dt_list := ds\<rparr>)))
      | DashboardTick \<Rightarrow> (case dt_selected s of Some d \<Rightarrow> s\<lparr>dt_gets := dt_gets s @ [d]\<rparr> | None \<Rightarrow> s)
      | DashboardData i a \<Rightarrow>
          (if length (dt_gets s) \<le> i then s
           else (case a of
                   Inl msg \<Rightarrow> s\<lparr>dt_error := Some msg\<rparr>
                 | Inr d \<Rightarrow> s\<lparr>dt_data := Some (db_id d), dt_list := map (\<lambda>x. if db_id x = db_id d then d else x) (dt_list s)\<rparr>))
      | DashboardChosen d \<Rightarrow> (if d \<in> db_id ` set (dt_list s) then select_dashboard (Some d) s else s)
      | AddShown b \<Rightarrow> s\<lparr>dt_adding := b\<rparr>
      | AddName v \<Rightarrow> (if dt_adding s then s\<lparr>dt_newName := v\<rparr> else s)
      | AddConfirmed \<Rightarrow>
          (if \<not> dt_adding s \<or> dt_busy s then s
           else s\<lparr>dt_busy := True, dt_sent := dt_sent s @ [Call_monitor (Mon_createDashboard (JObj
             [(''name'', JStr (dt_newName s)), (''layout'', JObj [(''widgets'', JArr [])]), (''is_default'', JBool (dt_list s = [])),
              (''channel_id'', JNull)]))]\<rparr>)
      | AddAnswered a \<Rightarrow>
          (if \<not> dt_busy s then s
           else (case a of
                   Inl msg \<Rightarrow> s\<lparr>dt_error := Some msg, dt_busy := False\<rparr>
                 | Inr d \<Rightarrow>
                     s\<lparr>dt_adding := False, dt_newName := [], dt_made := Some (dt_lists s, d), dt_lists := Suc (dt_lists s)\<rparr>))
      | DesignClosed changed \<Rightarrow>
          (case dt_editing s of
             None \<Rightarrow> s
           | Some d \<Rightarrow>
               (if changed
                then s\<lparr>dt_editing := None, dt_lists := Suc (dt_lists s),
                       dt_gets := dt_gets s @ (case dt_selected s of Some i \<Rightarrow> [i] | None \<Rightarrow> [])\<rparr>
                else s\<lparr>dt_editing := None\<rparr>))
      | DashboardDone failure \<Rightarrow> (case failure of Some msg \<Rightarrow> s\<lparr>dt_error := Some msg\<rparr> | None \<Rightarrow> s\<lparr>dt_lists := Suc (dt_lists s)\<rparr>)
      | DashboardDeleted failure \<Rightarrow>
          (case failure of Some msg \<Rightarrow> s\<lparr>dt_error := Some msg\<rparr> | None \<Rightarrow> select_dashboard None (s\<lparr>dt_lists := Suc (dt_lists s)\<rparr>))
      | _ \<Rightarrow>
          (case shown_dashboard s of
             None \<Rightarrow> s
           | Some d \<Rightarrow>
               (case ev of
                  DesignPressed \<Rightarrow> s\<lparr>dt_editing := Some d\<rparr>
                | SharePressed \<Rightarrow> s\<lparr>dt_sent := dt_sent s @ [Call_monitor (Mon_shareDashboard (db_id d) (db_token d \<noteq> None))]\<rparr>
                | DefaultPressed \<Rightarrow>
                    (if db_default d then s
                     else s\<lparr>dt_sent := dt_sent s @ [Call_monitor (Mon_updateDashboard (db_id d) (dashboard_body d))]\<rparr>)
                | DeleteDashboard yes \<Rightarrow>
                    (if yes then s\<lparr>dt_sent := dt_sent s @ [Call_monitor (Mon_deleteDashboard (db_id d))]\<rparr> else s)
                | _ \<Rightarrow> s)))"

text \<open>What stands under the toolbar.\<close>

datatype (plugins only: code size) dashboards_drawn = DrawnGrid dashboard | DrawnReading | DrawnNothing

definition dashboards_drawn_of :: "dashboards_tab \<Rightarrow> dashboards_drawn" where
  "dashboards_drawn_of s =
     (case shown_dashboard s of Some d \<Rightarrow> DrawnGrid d | None \<Rightarrow> if dt_error s = None then DrawnReading else DrawnNothing)"

section \<open>The time of a window\<close>

text \<open>What a date is in the time of the place; the month counts from nought.\<close>

record local_time =
  lc_year :: nat
  lc_month :: nat
  lc_day :: nat
  lc_hour :: nat
  lc_minute :: nat

definition two_digits :: "nat \<Rightarrow> string" where
  "two_digits n = pad_left 2 (show_nat n)"

definition localInput :: "local_time \<Rightarrow> string" where
  "localInput d =
     show_nat (lc_year d) @ ''-'' @ two_digits (lc_month d + 1) @ ''-'' @ two_digits (lc_day d) @ ''T'' @ two_digits (lc_hour d) @ '':'' @
     two_digits (lc_minute d)"

lemma digits_value_zeros: "digits_value (replicate k (CHR ''0'') @ s) = digits_value s"
  by (induction k) (simp_all add: digits_value_def)

lemma two_digits_value [simp]: "digits_value (two_digits n) = n"
  by (simp add: two_digits_def pad_left_def digits_value_zeros)

lemma two_digits_plain: "c \<in> set (two_digits n) \<Longrightarrow> is_digit c"
  by (auto simp: two_digits_def pad_left_def is_digit_def dest: show_nat_digits)

lemma no_digit: "\<not> is_digit (CHR ''-'')" "\<not> is_digit (CHR ''T'')" "\<not> is_digit (CHR '':'')"
  by (simp_all add: is_digit_def less_eq_char_def)

text \<open>What the field of a new window is filled with reads back as the time it was filled from: its pieces, taken apart where
  the browser takes them apart, are the year, the month, the day, the hour and the minute.\<close>

theorem window_time_reads_back:
  "map (map digits_value) (map2 split_on [CHR ''-'', CHR '':''] (split_on (CHR ''T'') (localInput d))) =
   [[lc_year d, lc_month d + 1, lc_day d], [lc_hour d, lc_minute d]]"
proof -
  define date where "date = show_nat (lc_year d) @ ''-'' @ two_digits (lc_month d + 1) @ ''-'' @ two_digits (lc_day d)"
  define time where "time = two_digits (lc_hour d) @ '':'' @ two_digits (lc_minute d)"
  have local: "localInput d = date @ CHR ''T'' # time" by (simp add: localInput_def date_def time_def)
  have free: "x \<notin> set (show_nat n)" "x \<notin> set (two_digits n)" if "\<not> is_digit x" for x n
    using that show_nat_digits two_digits_plain by blast+
  have "CHR ''T'' \<notin> set date" "CHR ''T'' \<notin> set time"
    using free [OF no_digit(2)] by (auto simp: date_def time_def)
  then have "split_on (CHR ''T'') (localInput d) = [date, time]" by (simp add: local split_append_sep split_no_sep)
  moreover have "split_on (CHR ''-'') date = [show_nat (lc_year d), two_digits (lc_month d + 1), two_digits (lc_day d)]"
    using free [OF no_digit(1)] by (simp add: date_def split_append_sep split_no_sep)
  moreover have "split_on (CHR '':'') time = [two_digits (lc_hour d), two_digits (lc_minute d)]"
    using free [OF no_digit(3)] by (simp add: time_def split_append_sep split_no_sep)
  ultimately show ?thesis by simp
qed

section \<open>Properties\<close>

text \<open>A rule, a group, a channel, a window or a probe is deleted only when it was listed and its button was pressed, and, but for
  a window, the question was answered.\<close>

theorem only_listed_rows_are_deleted:
  "(Call_monitor (Mon_deleteRule i) \<in> set (tb_sent (fold (tab_step Some edit_field (\<lambda>f. SaveSends (rule_save f)) rule_remove True) rs tab_open)) \<longrightarrow>
      (\<exists>x. i = row_id x \<and> listed_row rs x \<and> RowRemoved x True \<in> set rs)) \<and>
   (Call_monitor (Mon_deleteGroup i) \<in> set (tb_sent (fold (tab_step Some edit_field group_save group_remove True) gs tab_open)) \<longrightarrow>
      (\<exists>x. i = row_id x \<and> listed_row gs x \<and> RowRemoved x True \<in> set gs)) \<and>
   (Call_monitor (Mon_deleteProbe i) \<in> set (tb_sent (fold (tab_step Some edit_field probe_save probe_remove True) ps tab_open)) \<longrightarrow>
      (\<exists>x. i = row_id x \<and> listed_row ps x \<and> RowRemoved x True \<in> set ps))"
proof (intro conjI impI)
  assume "Call_monitor (Mon_deleteRule i) \<in> set (tb_sent (fold (tab_step Some edit_field (\<lambda>f. SaveSends (rule_save f)) rule_remove True) rs tab_open))"
  from rules.removals_were_listed [OF this] show "\<exists>x. i = row_id x \<and> listed_row rs x \<and> RowRemoved x True \<in> set rs"
    by (auto simp: rule_remove_def)
next
  assume "Call_monitor (Mon_deleteGroup i) \<in> set (tb_sent (fold (tab_step Some edit_field group_save group_remove True) gs tab_open))"
  from groups.removals_were_listed [OF this] show "\<exists>x. i = row_id x \<and> listed_row gs x \<and> RowRemoved x True \<in> set gs"
    by (auto simp: group_remove_def)
next
  assume "Call_monitor (Mon_deleteProbe i) \<in> set (tb_sent (fold (tab_step Some edit_field probe_save probe_remove True) ps tab_open))"
  from probes.removals_were_listed [OF this] show "\<exists>x. i = row_id x \<and> listed_row ps x \<and> RowRemoved x True \<in> set ps"
    by (auto simp: probe_remove_def)
qed

text \<open>An error stays on a tab for as long as the tab is open: after one read that failed, every later one that succeeds leaves it
  standing.\<close>

theorem error_of_one_read_stays:
  assumes "\<forall>ev \<in> set evs. \<forall>m. ev \<noteq> TabLoaded (Inl m) \<and> ev \<noteq> SaveAnswered (Some m) \<and> ev \<noteq> RemoveAnswered (Some m) \<and> ev \<noteq> FormSaved m"
  shows "tb_error (fold (tab_step Some edit_field group_save group_remove True) (TabLoaded (Inl msg) # evs) tab_open) = Some msg"
  using groups.kept_error [OF assms] by (simp add: tab_step_def tab_open_def)

text \<open>The alerts of a choice before are shown when their answer comes last.\<close>

theorem alerts_of_the_choice_before:
  assumes "v \<in> {''resolved'', ''all''}" and "at_state s = ''firing''" and "n = length (at_loads s)"
  shows "let t = fold alerts_step [AlertsTimer, AlertsChosen v, AlertsAnswered (n + 1) (Inr now), AlertsAnswered n (Inr old)] s
         in at_state t = v \<and> at_alerts t = old"
  using assms by (auto simp: alerts_step_def Let_def)

text \<open>A dashboard that is gone from the list stays selected, and the page says it is reading however often the list is read; so it
  does when there is no dashboard at all.\<close>

theorem dashboards_are_read_for_ever:
  assumes "dt_selected s = Some g" and "dt_error s = None" and "dt_made s = None" and "g \<notin> db_id ` set (dt_list s)"
    and "\<forall>ev \<in> set evs. ev = DashboardTick \<or> (\<exists>i ds. ev = DashboardsRead i (Inr ds) \<and> g \<notin> db_id ` set ds)"
  shows "dashboards_drawn_of (fold dashboards_step evs s) = DrawnReading"
  using assms
proof (induction evs arbitrary: s)
  case Nil
  then show ?case by (auto simp: dashboards_drawn_of_def shown_dashboard_def find_None_iff split: option.split)
next
  case (Cons ev evs)
  from Cons.prems(5) consider "ev = DashboardTick" | i ds where "ev = DashboardsRead i (Inr ds)" "g \<notin> db_id ` set ds" by auto
  then have step: "dt_selected (dashboards_step ev s) = Some g \<and> dt_error (dashboards_step ev s) = None \<and>
      dt_made (dashboards_step ev s) = None \<and> g \<notin> db_id ` set (dt_list (dashboards_step ev s))"
  proof cases
    case 1
    with Cons.prems(1-4) show ?thesis by (simp add: dashboards_step_def)
  next
    case 2
    with Cons.prems(1-4) show ?thesis by (simp add: dashboards_step_def finish_made_def select_dashboard_def)
  qed
  show ?case
    unfolding fold_simps(2)
    by (rule Cons.IH) (use Cons.prems(5) step in auto)
qed

theorem no_dashboards_are_read_for_ever:
  "dashboards_drawn_of (dashboards_step (DashboardsRead 0 (Inr [])) dashboards_open) = DrawnReading"
  by (simp add: dashboards_step_def dashboards_open_def finish_made_def select_dashboard_def first_selected_def dashboards_drawn_of_def
      shown_dashboard_def)

text \<open>Asking to delete the ticked rules counts those that are no longer there: deleting one by its own button leaves it ticked.\<close>

definition bulk_question :: "string list \<Rightarrow> string" where
  "bulk_question selected = ''Delete '' @ show_nat (length selected) @ '' rule(s)?''"

theorem question_counts_rules_that_are_gone:
  assumes "distinct selected" and "distinct (map rule_id rules)" and "gone \<in> set selected" and "gone \<notin> rule_id ` set rules"
  shows "length (bulk_rules rules selected None) < length selected"
proof -
  have "set (map rule_id (filter (\<lambda>r. rule_id r \<in> set selected) rules)) \<subseteq> set selected - {gone}" using assms(4) by auto
  moreover have "distinct (map rule_id (filter (\<lambda>r. rule_id r \<in> set selected) rules))" using assms(2) by (simp add: distinct_map_filter)
  ultimately have "length (filter (\<lambda>r. rule_id r \<in> set selected) rules) \<le> card (set selected - {gone})"
    by (metis card_mono distinct_card finite_Diff finite_set length_map)
  also have "\<dots> < card (set selected)" by (rule card_Diff1_less) (use assms(3) in auto)
  also have "\<dots> = length selected" using assms(1) by (rule distinct_card)
  finally show ?thesis by (simp add: bulk_rules_def)
qed

text \<open>The page deletes, shares and makes the default only the dashboard it shows, and deletes it only when the question was
  answered.\<close>

theorem dashboard_calls_are_of_the_one_shown:
  assumes "dt_sent (dashboards_step ev s) = dt_sent s @ [c]"
  shows "(\<exists>body. c = Call_monitor (Mon_createDashboard body) \<and> ev = AddConfirmed) \<or>
         (\<exists>d. shown_dashboard s = Some d \<and>
            (c = Call_monitor (Mon_deleteDashboard (db_id d)) \<and> ev = DeleteDashboard True \<or>
             c = Call_monitor (Mon_shareDashboard (db_id d) (db_token d \<noteq> None)) \<and> ev = SharePressed \<or>
             c = Call_monitor (Mon_updateDashboard (db_id d) (dashboard_body d)) \<and> ev = DefaultPressed \<and> \<not> db_default d))"
  using assms
  by (cases ev)
    (auto simp: dashboards_step_def finish_made_def select_dashboard_def Let_def split: if_splits option.splits sum.splits prod.splits)

end
