(* ===== verification/DhcpPage.thy ===== *)
theory DhcpPage
  imports Dhcp ServerRoles ObjectDialogs
begin

text \<open>
  The DHCP page and its dialogs (\<^verbatim>\<open>pages/Dhcp.tsx\<close>), over the forms of \<open>Dhcp\<close>. Reading the page is three calls, one after the other:
  the status, and then either the roles, where the console cannot reach the service, or the scopes. The leases are read by
  an effect of their own. The tab of the configuration is the form of a role (\<open>ServerRoles\<close>).
\<close>

section \<open>The page\<close>

record ha_peer =
  hp_name :: "string option"
  hp_state :: "string option"
  hp_role :: "string option"
  hp_in_touch :: bool

type_synonym ha_status = "ha_peer option \<times> ha_peer option"

record scope_row = dhcp_scope +
  sr_reservations :: "reservation_form list"

datatype (plugins only: code size) dhcp_tab = ScopesTab | LeasesTab | ConfigurationTab

datatype (plugins only: code size) dhcp_dialog = NewScope | EditScope scope_row | ReserveIn scope_row

record dhcp_page =
  dp_configured :: bool
  dp_ha :: "ha_status list option"
  dp_stats :: "(string \<times> nat) list"
  dp_scopes :: "scope_row list"
  dp_leases :: "dhcp_lease list"
  dp_tab :: dhcp_tab
  dp_dialog :: "dhcp_dialog option"
  dp_error :: "string option"
  dp_loading :: bool
  dp_installed :: "role_instance list"
  dp_sent :: "api_call list"

definition dhcp_ask :: "api_call \<Rightarrow> dhcp_page \<Rightarrow> dhcp_page" where
  "dhcp_ask c s = s\<lparr>dp_sent := dp_sent s @ [c]\<rparr>"

text \<open>\<open>load\<close> takes the error away and asks for the status; the rest follows its answer.\<close>

definition dhcp_load :: "dhcp_page \<Rightarrow> dhcp_page" where
  "dhcp_load s = dhcp_ask (Call_dhcp Dhcp_status) (s\<lparr>dp_error := None\<rparr>)"

definition dhcp_open :: dhcp_page where
  "dhcp_open =
     dhcp_load \<lparr>dp_configured = True, dp_ha = None, dp_stats = [], dp_scopes = [], dp_leases = [], dp_tab = ScopesTab,
                dp_dialog = None, dp_error = None, dp_loading = True, dp_installed = [], dp_sent = []\<rparr>"

datatype (plugins only: code size) dhcp_event =
    StatusAnswered "string + bool \<times> ha_status list option \<times> (string \<times> nat) list"
  | RolesAnswered "string + role_instance list"
  | ScopesAnswered "string + scope_row list"
  | LeasesAnswered "string + dhcp_lease list"
  | DomainChanged
  | TabPressed dhcp_tab
  | NewPressed
  | EditPressed scope_row
  | ReservePressed scope_row
  | DeletePressed scope_row
  | DeleteAnswered "string option"
  | DhcpDialogClosed
  | DhcpDialogSaved

definition dhcp_failed :: "string \<Rightarrow> dhcp_page \<Rightarrow> dhcp_page" where
  "dhcp_failed msg s = s\<lparr>dp_error := Some msg, dp_loading := False\<rparr>"

definition dhcp_event_of :: "dhcp_event \<Rightarrow> dhcp_page \<Rightarrow> dhcp_page" where
  "dhcp_event_of ev s =
     (case ev of
        StatusAnswered a \<Rightarrow>
          (case a of
             Inl msg \<Rightarrow> dhcp_failed msg s
           | Inr (configured, ha, stats) \<Rightarrow>
               if \<not> configured then dhcp_ask (Call_roles Role_list) (s\<lparr>dp_configured := False\<rparr>)
               else dhcp_ask (Call_dhcp Dhcp_scopes) (s\<lparr>dp_configured := True, dp_ha := ha, dp_stats := stats\<rparr>))
      | RolesAnswered a \<Rightarrow>
          (case a of
             Inl msg \<Rightarrow> dhcp_failed msg s
           | Inr rs \<Rightarrow> s\<lparr>dp_installed := filter (\<lambda>r. ri_role r = ''dhcp'') rs, dp_loading := False\<rparr>)
      | ScopesAnswered a \<Rightarrow>
          (case a of Inl msg \<Rightarrow> dhcp_failed msg s | Inr xs \<Rightarrow> s\<lparr>dp_scopes := xs, dp_loading := False\<rparr>)
      | LeasesAnswered a \<Rightarrow> (case a of Inl msg \<Rightarrow> s\<lparr>dp_error := Some msg\<rparr> | Inr ls \<Rightarrow> s\<lparr>dp_leases := ls\<rparr>)
      | DomainChanged \<Rightarrow> dhcp_load s
      | TabPressed t \<Rightarrow> (if dp_configured s then s\<lparr>dp_tab := t\<rparr> else s)
      | NewPressed \<Rightarrow> (if dp_configured s then s\<lparr>dp_dialog := Some NewScope\<rparr> else s)
      | EditPressed sc \<Rightarrow>
          (if dp_configured s \<and> dp_tab s = ScopesTab \<and> sc \<in> set (dp_scopes s) then s\<lparr>dp_dialog := Some (EditScope sc)\<rparr> else s)
      | ReservePressed sc \<Rightarrow>
          (if dp_configured s \<and> dp_tab s = ScopesTab \<and> sc \<in> set (dp_scopes s) then s\<lparr>dp_dialog := Some (ReserveIn sc)\<rparr> else s)
      | DeletePressed sc \<Rightarrow>
          (if dp_configured s \<and> dp_tab s = ScopesTab \<and> sc \<in> set (dp_scopes s)
           then dhcp_ask (Call_dhcp (Dhcp_deleteScope (sc_id sc))) (s\<lparr>dp_error := None\<rparr>) else s)
      | DeleteAnswered failure \<Rightarrow> (case failure of Some msg \<Rightarrow> s\<lparr>dp_error := Some msg\<rparr> | None \<Rightarrow> dhcp_load s)
      | DhcpDialogClosed \<Rightarrow> s\<lparr>dp_dialog := None\<rparr>
      | DhcpDialogSaved \<Rightarrow> (if dp_dialog s = None then s else dhcp_load (s\<lparr>dp_dialog := None\<rparr>)))"

text \<open>The effect of the leases runs when the tab or the state of the service is another than at the render before.\<close>

definition leases_due :: "dhcp_page \<Rightarrow> dhcp_page \<Rightarrow> bool" where
  "leases_due s s' \<longleftrightarrow>
     (dp_tab s \<noteq> dp_tab s' \<or> dp_configured s \<noteq> dp_configured s') \<and> dp_tab s' = LeasesTab \<and> dp_configured s'"

definition dhcp_step :: "dhcp_event \<Rightarrow> dhcp_page \<Rightarrow> dhcp_page" where
  "dhcp_step ev s =
     (let s' = dhcp_event_of ev s in if leases_due s s' then dhcp_ask (Call_dhcp Dhcp_leases) s' else s')"

section \<open>What the page shows\<close>

definition dhcp_running :: "dhcp_page \<Rightarrow> string list" where
  "dhcp_running s = map ri_node (filter (\<lambda>r. ri_state r = ''active'') (dp_installed s))"

text \<open>The page of a service the console cannot reach: where it is running, or that it is not installed. It has no place for
  an error.\<close>

definition dhcp_absent :: "dhcp_page \<Rightarrow> string option" where
  "dhcp_absent s =
     (if dp_configured s then None
      else Some (if dhcp_running s \<noteq> []
                 then ''The role is installed on '' @ join_with '', '' (dhcp_running s) @
                   '', but this console has no Control Agent credential for it, so it cannot read or change anything.''
                 else ''The DHCP role is not installed.''))"

definition failover_line :: "dhcp_page \<Rightarrow> string option" where
  "failover_line s =
     (let shown = \<lambda>x. case x of None \<Rightarrow> [] | Some t \<Rightarrow> t in
      case dp_ha s of
        Some ((Some near, far) # hs) \<Rightarrow>
          Some (''Failover: this node '' @ shown (hp_state near) @ '' as '' @ shown (hp_role near) @
            (case far of
               None \<Rightarrow> []
             | Some p \<Rightarrow> '' '' @ middle_dot @ '' peer '' @ shown (hp_name p) @ '' '' @
                 (case hp_state p of None \<Rightarrow> ''unreachable'' | Some t \<Rightarrow> t)))
      | _ \<Rightarrow> None)"

definition dhcp_row :: "(string \<times> nat) list \<Rightarrow> scope_row \<Rightarrow> string list" where
  "dhcp_row stats sc =
     [sc_subnet sc, join_with '', '' (sc_pools sc), utilisation stats (sc_id sc), show_nat (length (sr_reservations sc)),
      (if optionOf (Some (dhcp_scope.truncate sc)) ''domain-name-servers'' \<noteq> [] then handsOut (dhcp_scope.truncate sc)
       else ''no DNS server''),
      sc_comment sc]"

text \<open>What a tab says when it lists nothing. \<open>loading\<close> is of the scopes, also where the leases are shown.\<close>

definition dhcp_empty :: "dhcp_page \<Rightarrow> string option" where
  "dhcp_empty s =
     (case dp_tab s of
        ScopesTab \<Rightarrow> (if dp_loading s \<or> dp_scopes s \<noteq> [] then None else Some ''No scopes configured.'')
      | LeasesTab \<Rightarrow> (if dp_loading s \<or> dp_leases s \<noteq> [] then None else Some ''No active leases.'')
      | ConfigurationTab \<Rightarrow> None)"

definition lease_expires :: "int \<Rightarrow> int \<Rightarrow> int" where
  "lease_expires cltt lft = (cltt + lft) * 1000"

section \<open>The dialogs\<close>

text \<open>The scope of the dialog is given to it, and the form that is saved is of that scope.\<close>

definition scope_call :: "scope_row option \<Rightarrow> scope_form \<Rightarrow> api_call option" where
  "scope_call sc f = Some (scope_save (f\<lparr>sf_scope := map_option dhcp_scope.truncate sc\<rparr>))"

datatype (plugins only: code size) reserve_event =
    TypeHw string | TypeIp string | TypeHost string
  | LeaseListed "string + dhcp_lease list"
  | LeaseChosen string
  | AddPressed
  | AddAnswered "string option"
  | RemovePressed reservation_form
  | RemoveAnswered "string option"

record reserve_dialog =
  rd_form :: reservation_form
  rd_leases :: "dhcp_lease list"
  rd_busy :: bool
  rd_error :: "string option"
  rd_done :: bool
  rd_sent :: "api_call list"

definition reserve_open :: reserve_dialog where
  "reserve_open =
     \<lparr>rd_form = \<lparr>rv_hw = [], rv_ip = [], rv_hostname = []\<rparr>, rd_leases = [], rd_busy = False, rd_error = None, rd_done = False,
      rd_sent = [Call_dhcp Dhcp_leases]\<rparr>"

text \<open>A removal that fails is caught nowhere; one that is taken closes the dialog, whatever else is going on in it.\<close>

definition reserve_step :: "scope_row \<Rightarrow> reserve_event \<Rightarrow> reserve_dialog \<Rightarrow> reserve_dialog" where
  "reserve_step sc ev s =
     (if rd_done s then s
      else (case ev of
              TypeHw t \<Rightarrow> s\<lparr>rd_form := (rd_form s)\<lparr>rv_hw := t\<rparr>\<rparr>
            | TypeIp t \<Rightarrow> s\<lparr>rd_form := (rd_form s)\<lparr>rv_ip := address_typed (prefixOf (sc_subnet sc)) t\<rparr>\<rparr>
            | TypeHost t \<Rightarrow> s\<lparr>rd_form := (rd_form s)\<lparr>rv_hostname := t\<rparr>\<rparr>
            | LeaseListed a \<Rightarrow> s\<lparr>rd_leases := (case a of Inl msg \<Rightarrow> [] | Inr ls \<Rightarrow> leases_of (sc_id sc) ls)\<rparr>
            | LeaseChosen ip \<Rightarrow> s\<lparr>rd_form := from_lease (rd_leases s) ip (rd_form s)\<rparr>
            | AddPressed \<Rightarrow>
                (if rd_busy s \<or> rv_hw (rd_form s) = [] \<or> rv_ip (rd_form s) = [] then s
                 else s\<lparr>rd_busy := True, rd_error := None, rd_sent := rd_sent s @ [reservation_save (sc_id sc) (rd_form s)]\<rparr>)
            | AddAnswered failure \<Rightarrow>
                (if \<not> rd_busy s then s
                 else (case failure of
                         Some msg \<Rightarrow> s\<lparr>rd_busy := False, rd_error := Some msg\<rparr>
                       | None \<Rightarrow> s\<lparr>rd_busy := False, rd_done := True\<rparr>))
            | RemovePressed r \<Rightarrow>
                (if r \<in> set (sr_reservations sc)
                 then s\<lparr>rd_sent := rd_sent s @ [Call_dhcp (Dhcp_deleteReservation (sc_id sc) (rv_hw r))]\<rparr> else s)
            | RemoveAnswered failure \<Rightarrow> (if failure = None then s\<lparr>rd_done := True\<rparr> else s)))"

section \<open>Each call is of what was listed\<close>

interpretation scope: one_call_dialog scope_step "scope_call sc"
    "\<lambda>c. \<exists>ps. c = (case sc of None \<Rightarrow> Call_dhcp (Dhcp_createScope (JObj ps))
                      | Some x \<Rightarrow> Call_dhcp (Dhcp_updateScope (JObj ((''id'', JNum (sc_id x)) # ps))))" for sc
  by unfold_locales (auto simp: scope_call_def scope_save_def dhcp_scope.truncate_def split: option.splits)

definition dhcp_listed :: "dhcp_event list \<Rightarrow> scope_row \<Rightarrow> bool" where
  "dhcp_listed evs sc \<longleftrightarrow> (\<exists>xs. ScopesAnswered (Inr xs) \<in> set evs \<and> sc \<in> set xs)"

definition dhcp_deletes_ok :: "dhcp_event list \<Rightarrow> dhcp_page \<Rightarrow> bool" where
  "dhcp_deletes_ok evs s \<longleftrightarrow>
     (\<forall>sc \<in> set (dp_scopes s). dhcp_listed evs sc) \<and>
     (\<forall>i. Call_dhcp (Dhcp_deleteScope i) \<in> set (dp_sent s) \<longrightarrow>
        (\<exists>sc. sc_id sc = i \<and> dhcp_listed evs sc \<and> DeletePressed sc \<in> set evs))"

lemmas dhcp_steps = dhcp_step_def dhcp_event_of_def dhcp_ask_def dhcp_load_def dhcp_failed_def

lemma dhcp_deletes_event:
  "dhcp_deletes_ok all s \<Longrightarrow> ev \<in> set all \<Longrightarrow> dhcp_deletes_ok all (dhcp_event_of ev s)"
  by (cases ev)
     (auto simp: dhcp_steps dhcp_deletes_ok_def dhcp_listed_def split: sum.split option.split)

lemma dhcp_deletes_step: "dhcp_deletes_ok all s \<Longrightarrow> ev \<in> set all \<Longrightarrow> dhcp_deletes_ok all (dhcp_step ev s)"
  using dhcp_deletes_event [of all s ev] by (auto simp: dhcp_step_def dhcp_ask_def dhcp_deletes_ok_def Let_def)

lemma dhcp_deletes_run: "dhcp_deletes_ok all s \<Longrightarrow> set evs \<subseteq> set all \<Longrightarrow> dhcp_deletes_ok all (fold dhcp_step evs s)"
  by (induction evs arbitrary: s) (simp_all add: dhcp_deletes_step)

section \<open>Properties\<close>

text \<open>A scope that is deleted was in a list the service answered with, and its button was pressed: nothing else asks for it.\<close>

theorem deleted_scopes_were_listed:
  assumes "Call_dhcp (Dhcp_deleteScope i) \<in> set (dp_sent (fold dhcp_step evs dhcp_open))"
  shows "\<exists>sc xs. sc_id sc = i \<and> ScopesAnswered (Inr xs) \<in> set evs \<and> sc \<in> set xs \<and> DeletePressed sc \<in> set evs"
proof -
  have "dhcp_deletes_ok evs dhcp_open" by (simp add: dhcp_deletes_ok_def dhcp_open_def dhcp_steps)
  from dhcp_deletes_run [OF this, of evs] have "dhcp_deletes_ok evs (fold dhcp_step evs dhcp_open)" by simp
  with assms show ?thesis unfolding dhcp_deletes_ok_def dhcp_listed_def by blast
qed

text \<open>A service the console cannot reach, over roles that could not be read, is said not to be installed, and the error has no
  place on that page.\<close>

theorem unread_roles_say_not_installed:
  assumes "\<forall>ev \<in> set evs. \<forall>rs. ev \<noteq> RolesAnswered (Inr rs)" and "\<not> dp_configured (fold dhcp_step evs dhcp_open)"
  shows "dhcp_absent (fold dhcp_step evs dhcp_open) = Some ''The DHCP role is not installed.''"
proof -
  have step: "dp_installed (dhcp_step ev s) = dp_installed s" if "\<forall>rs. ev \<noteq> RolesAnswered (Inr rs)" for ev s
    using that by (cases ev) (auto simp: dhcp_steps Let_def split: sum.split option.split)
  have "dp_installed (fold dhcp_step evs s) = dp_installed s" for s
    using assms(1) by (induction evs arbitrary: s) (simp_all add: step)
  from this [of dhcp_open] assms(2) show ?thesis
    by (simp add: dhcp_absent_def dhcp_running_def dhcp_open_def dhcp_steps)
qed

text \<open>The leases are read when their tab is opened, and not again when the domain changes: only another tab, or another answer
  of the status, brings another reading.\<close>

definition lease_reads :: "dhcp_page \<Rightarrow> nat" where
  "lease_reads s = length (filter (\<lambda>c. c = Call_dhcp Dhcp_leases) (dp_sent s))"

theorem leases_are_not_read_again:
  assumes "\<forall>ev \<in> set evs. (\<forall>t. ev \<noteq> TabPressed t) \<and> (\<forall>ha st. ev \<noteq> StatusAnswered (Inr (False, ha, st)))"
    and "dp_configured s"
  shows "lease_reads (fold dhcp_step evs s) = lease_reads s"
  using assms
proof (induction evs arbitrary: s)
  case (Cons ev evs)
  have "dp_configured (dhcp_step ev s) \<and> lease_reads (dhcp_step ev s) = lease_reads s"
    using Cons.prems
    by (cases ev) (auto simp: dhcp_steps leases_due_def lease_reads_def Let_def split: sum.split option.split)
  with Cons show ?case by simp
qed simp

text \<open>When the tab is opened the page says that there are none, while they are being read.\<close>

theorem leases_being_read_are_said_to_be_none:
  "dhcp_empty (fold dhcp_step [StatusAnswered (Inr (True, ha, st)), ScopesAnswered (Inr xs), TabPressed LeasesTab] dhcp_open) =
     Some ''No active leases.'' \<and>
   last (dp_sent (fold dhcp_step [StatusAnswered (Inr (True, ha, st)), ScopesAnswered (Inr xs), TabPressed LeasesTab] dhcp_open)) =
     Call_dhcp Dhcp_leases"
  by (simp add: dhcp_steps leases_due_def dhcp_open_def dhcp_empty_def Let_def)

text \<open>The dialog of the reservations asks for the leases, adds in its own scope and removes what is listed in it; a removal that
  is refused leaves no trace.\<close>

definition reserve_fits :: "scope_row \<Rightarrow> api_call \<Rightarrow> bool" where
  "reserve_fits sc c \<longleftrightarrow>
     c = Call_dhcp Dhcp_leases \<or> (\<exists>f. rv_hw f \<noteq> [] \<and> rv_ip f \<noteq> [] \<and> c = reservation_save (sc_id sc) f) \<or>
     (\<exists>r \<in> set (sr_reservations sc). c = Call_dhcp (Dhcp_deleteReservation (sc_id sc) (rv_hw r)))"

lemma reserve_add: "rv_hw f \<noteq> [] \<Longrightarrow> rv_ip f \<noteq> [] \<Longrightarrow> reserve_fits sc (reservation_save (sc_id sc) f)"
  by (auto simp: reserve_fits_def)

lemma reserve_removal:
  "r \<in> set (sr_reservations sc) \<Longrightarrow> reserve_fits sc (Call_dhcp (Dhcp_deleteReservation (sc_id sc) (rv_hw r)))"
  by (auto simp: reserve_fits_def)

theorem reservations_are_of_their_scope:
  "list_all (reserve_fits sc) (rd_sent (fold (reserve_step sc) evs reserve_open)) \<and>
   reserve_step sc (RemoveAnswered (Some msg)) s = s"
proof
  have "list_all (reserve_fits sc) (rd_sent s) \<Longrightarrow> list_all (reserve_fits sc) (rd_sent (fold (reserve_step sc) evs s))" for s
  proof (induction evs arbitrary: s)
    case (Cons ev evs)
    have "list_all (reserve_fits sc) (rd_sent (reserve_step sc ev s))"
      using Cons.prems
      by (cases ev) (auto simp: reserve_step_def reserve_add reserve_removal split: option.split)
    with Cons.IH show ?case by simp
  qed simp
  from this [of reserve_open] show "list_all (reserve_fits sc) (rd_sent (fold (reserve_step sc) evs reserve_open))"
    by (simp add: reserve_open_def reserve_fits_def)
qed (simp add: reserve_step_def)

text \<open>The dialog of a scope that exists changes that scope only, and the dialog of a new one makes one scope.\<close>

theorem a_scope_is_saved_as_itself:
  "list_all (\<lambda>c. \<exists>ps. c = Call_dhcp (Dhcp_updateScope (JObj ((''id'', JNum (sc_id x)) # ps))))
     (dl_sent (fold (dialog_step scope_step (scope_call (Some x))) evs (dialog_open (scope_open (Some (dhcp_scope.truncate x)))))) \<and>
   list_all (\<lambda>c. \<exists>ps. c = Call_dhcp (Dhcp_createScope (JObj ps)))
     (dl_sent (fold (dialog_step scope_step (scope_call None)) news (dialog_open (scope_open None)))) \<and>
   length (dl_sent (fold (dialog_step scope_step (scope_call None)) news (dialog_open (scope_open None)))) \<le> Suc (answers news)"
  using scope.opened_fits [of "Some x"] scope.opened_fits [of None] scope.opened_once [of None] by simp

end
