(* ===== verification/ResourcePages.thy ===== *)
theory ResourcePages
  imports Resources Loaders ObjectDialogs
begin

text \<open>
  The pages over the forms of \<open>Resources\<close>: shares (\<^verbatim>\<open>pages/Shares.tsx\<close>), printers (\<^verbatim>\<open>pages/Printers.tsx\<close>) and network access
  (\<^verbatim>\<open>pages/NetworkAccess.tsx\<close>). Shares and printers are one page each of the same kind, a list that is read again while something
  in it is being applied, a form of one row and a question before a removal: \<open>shelf_step\<close> is that page and \<open>shelf_page\<close> what it
  promises. The devices a print server finds are an \<open>eager_loader\<close>, and the dialogs that make and change are \<open>one_call_dialog\<close>.
\<close>

section \<open>A list of what servers offer\<close>

record ('x, 'r) shelf =
  sh_items :: "'x list"
  sh_open :: "'x option"
  sh_creating :: bool
  sh_removing :: "'r option"
  sh_testing :: "'x option"
  sh_pending :: nat
  sh_error :: "string option"
  sh_loading :: bool
  sh_loads :: nat
  sh_sent :: "api_call list"

definition shelf_load :: "('x, 'r) shelf \<Rightarrow> ('x, 'r) shelf" where
  "shelf_load s = s\<lparr>sh_error := None, sh_loads := Suc (sh_loads s)\<rparr>"

definition shelf_open :: "('x, 'r) shelf" where
  "shelf_open =
     shelf_load \<lparr>sh_items = [], sh_open = None, sh_creating = False, sh_removing = None, sh_testing = None, sh_pending = 0,
                 sh_error = None, sh_loading = True, sh_loads = 0, sh_sent = []\<rparr>"

datatype ('x, 'r) shelf_event =
    ShelfRead "string + 'x list"
  | ShelfLive
  | ShelfTimer
  | ShelfRow 'x
  | ShelfNew
  | ShelfTest 'x
  | ShelfFormClosed
  | ShelfFormSaved
  | ShelfTestClosed
  | RemovalChosen 'r
  | RemovalCancelled
  | RemovalConfirmed
  | RemovalDone "string option"

text \<open>A dialog lies over the page, so that a row is pressed only where none is open.\<close>

definition shelf_covered :: "('x, 'r) shelf \<Rightarrow> bool" where
  "shelf_covered s \<longleftrightarrow> sh_open s \<noteq> None \<or> sh_creating s \<or> sh_removing s \<noteq> None \<or> sh_testing s \<noteq> None"

text \<open>\<open>state_of\<close> is the state of a row, \<open>named\<close> the row a removal is of, \<open>remove\<close> its call. Whatever the answer to a removal, the
  question is taken away and the list is read.\<close>

definition shelf_step ::
  "('x \<Rightarrow> string) \<Rightarrow> ('r \<Rightarrow> 'x) \<Rightarrow> ('r \<Rightarrow> api_call) \<Rightarrow> ('x, 'r) shelf_event \<Rightarrow> ('x, 'r) shelf \<Rightarrow> ('x, 'r) shelf" where
  "shelf_step state_of named remove ev s =
     (case ev of
        ShelfRead a \<Rightarrow>
          (case a of
             Inl msg \<Rightarrow> s\<lparr>sh_error := Some msg, sh_loading := False\<rparr>
           | Inr xs \<Rightarrow> s\<lparr>sh_items := xs, sh_loading := False\<rparr>)
      | ShelfLive \<Rightarrow> shelf_load s
      | ShelfTimer \<Rightarrow> (if polls (map state_of (sh_items s)) then shelf_load s else s)
      | ShelfRow x \<Rightarrow> (if \<not> shelf_covered s \<and> x \<in> set (sh_items s) then s\<lparr>sh_open := Some x\<rparr> else s)
      | ShelfNew \<Rightarrow> (if \<not> shelf_covered s then s\<lparr>sh_creating := True\<rparr> else s)
      | ShelfTest x \<Rightarrow> (if \<not> shelf_covered s \<and> x \<in> set (sh_items s) then s\<lparr>sh_testing := Some x\<rparr> else s)
      | ShelfFormClosed \<Rightarrow> s\<lparr>sh_open := None, sh_creating := False\<rparr>
      | ShelfFormSaved \<Rightarrow>
          (if sh_open s \<noteq> None \<or> sh_creating s then shelf_load (s\<lparr>sh_open := None, sh_creating := False\<rparr>) else s)
      | ShelfTestClosed \<Rightarrow> s\<lparr>sh_testing := None\<rparr>
      | RemovalChosen r \<Rightarrow>
          (if \<not> shelf_covered s \<and> named r \<in> set (sh_items s) then s\<lparr>sh_removing := Some r\<rparr> else s)
      | RemovalCancelled \<Rightarrow> s\<lparr>sh_removing := None\<rparr>
      | RemovalConfirmed \<Rightarrow>
          (case sh_removing s of
             None \<Rightarrow> s
           | Some r \<Rightarrow> s\<lparr>sh_pending := Suc (sh_pending s), sh_sent := sh_sent s @ [remove r]\<rparr>)
      | RemovalDone failure \<Rightarrow>
          (case sh_pending s of 0 \<Rightarrow> s | Suc n \<Rightarrow> shelf_load (s\<lparr>sh_pending := n, sh_removing := None\<rparr>)))"

definition shelf_empty :: "string \<Rightarrow> ('x, 'r) shelf \<Rightarrow> string option" where
  "shelf_empty words s = (if sh_loading s \<or> sh_items s \<noteq> [] then None else Some words)"

definition shelf_listed :: "('x, 'r) shelf_event list \<Rightarrow> 'x \<Rightarrow> bool" where
  "shelf_listed evs x \<longleftrightarrow> (\<exists>xs. ShelfRead (Inr xs) \<in> set evs \<and> x \<in> set xs)"

text \<open>What such a page promises: a call says which row it is about, and it is about a row that was listed and whose removal was
  chosen.\<close>

locale shelf_page =
  fixes state_of :: "'x \<Rightarrow> string"
    and named :: "'r \<Rightarrow> 'x"
    and remove :: "'r \<Rightarrow> api_call"
    and key :: "'x \<Rightarrow> string"
    and about :: "api_call \<Rightarrow> string option"
  assumes remove_about: "about (remove r) = Some (key (named r))"
begin

definition removal_ok :: "('x, 'r) shelf_event list \<Rightarrow> 'r \<Rightarrow> bool" where
  "removal_ok evs r \<longleftrightarrow> shelf_listed evs (named r) \<and> RemovalChosen r \<in> set evs"

definition shelf_ok :: "('x, 'r) shelf_event list \<Rightarrow> ('x, 'r) shelf \<Rightarrow> bool" where
  "shelf_ok evs s \<longleftrightarrow>
     (\<forall>x \<in> set (sh_items s). shelf_listed evs x) \<and>
     (\<forall>r. sh_removing s = Some r \<longrightarrow> removal_ok evs r) \<and>
     (\<forall>c \<in> set (sh_sent s). \<exists>r. c = remove r \<and> about c = Some (key (named r)) \<and> removal_ok evs r)"

lemma shelf_ok_step:
  assumes "shelf_ok all s" and "ev \<in> set all"
  shows "shelf_ok all (shelf_step state_of named remove ev s)"
proof (cases ev)
  case (ShelfRead a)
  with assms show ?thesis
    by (auto simp: shelf_step_def shelf_ok_def shelf_listed_def split: sum.split)
next
  case (RemovalChosen r)
  with assms show ?thesis by (auto simp: shelf_step_def shelf_ok_def removal_ok_def)
next
  case RemovalConfirmed
  with assms remove_about show ?thesis by (fastforce simp: shelf_step_def shelf_ok_def split: option.split)
qed (use assms in \<open>auto simp: shelf_step_def shelf_ok_def shelf_load_def split: option.split nat.split\<close>)

lemma shelf_ok_run: "shelf_ok all s \<Longrightarrow> set evs \<subseteq> set all \<Longrightarrow> shelf_ok all (fold (shelf_step state_of named remove) evs s)"
  by (induction evs arbitrary: s) (simp_all add: shelf_ok_step)

lemma removals_were_chosen:
  assumes "c \<in> set (sh_sent (fold (shelf_step state_of named remove) evs shelf_open))"
  shows "\<exists>r. c = remove r \<and> about c = Some (key (named r)) \<and> shelf_listed evs (named r) \<and> RemovalChosen r \<in> set evs"
proof -
  have "shelf_ok evs shelf_open" by (simp add: shelf_ok_def shelf_open_def shelf_load_def)
  from shelf_ok_run [OF this, of evs] have "shelf_ok evs (fold (shelf_step state_of named remove) evs shelf_open)" by simp
  with assms show ?thesis unfolding shelf_ok_def removal_ok_def by blast
qed

text \<open>A removal that was refused leaves the page as one that was taken does.\<close>

lemma refusal_looks_taken: "shelf_step state_of named remove (RemovalDone failure) s = shelf_step state_of named remove (RemovalDone None) s"
  by (simp add: shelf_step_def)

lemma at_rest_nothing_is_polled:
  "list_all (\<lambda>x. state_of x \<noteq> ''applying'') (sh_items s) \<Longrightarrow> shelf_step state_of named remove ShelfTimer s = s"
  by (auto simp: shelf_step_def polls_def list_ex_iff list_all_iff)

end

section \<open>Shares and printers\<close>

record share_row = share_form +
  shr_id :: string
  shr_state :: string
  shr_unc :: string

record printer_row = printer_form +
  prr_id :: string
  prr_state :: string
  prr_has_ppd :: bool

definition share_remove :: "share_row \<times> bool \<Rightarrow> api_call" where
  "share_remove r = Call_shares (Shr_remove (shr_id (fst r)) (snd r))"

definition printer_remove :: "printer_row \<Rightarrow> api_call" where
  "printer_remove p = Call_printers (Prn_remove (prr_id p))"

definition share_question :: "share_row \<times> bool \<Rightarrow> string" where
  "share_question r =
     (if snd r then ''Delete '' @ sf_name (fst r) @ '' and its directory?'' else ''Stop sharing '' @ sf_name (fst r) @ ''?'')"

definition share_warning :: "share_row \<times> bool \<Rightarrow> string" where
  "share_warning r =
     (let sh = fst r in
      if snd r
      then shr_unc sh @ '' stops being reachable, and '' @ sf_path sh @ '' and everything in it is deleted from '' @ sf_node sh @ ''.''
      else shr_unc sh @ '' stops being reachable. The directory '' @ sf_path sh @ '' and everything in it stays on '' @ sf_node sh @ ''.'')"

definition printer_question :: "printer_row \<Rightarrow> string" where
  "printer_question p = ''Remove '' @ pf_printer p @ ''?''"

definition printer_driver :: "printer_row \<Rightarrow> string" where
  "printer_driver p = (if prr_has_ppd p then (if pf_ppd_name p \<noteq> [] then pf_ppd_name p else ''PPD'') else ''Driverless'')"

definition shares_step :: "(share_row, share_row \<times> bool) shelf_event \<Rightarrow> (share_row, share_row \<times> bool) shelf \<Rightarrow> (share_row, share_row \<times> bool) shelf" where
  "shares_step = shelf_step shr_state fst share_remove"

definition printers_step :: "(printer_row, printer_row) shelf_event \<Rightarrow> (printer_row, printer_row) shelf \<Rightarrow> (printer_row, printer_row) shelf" where
  "printers_step = shelf_step prr_state (\<lambda>p. p) printer_remove"

text \<open>The form a page shows, and what saving it sends: that of the row that was pressed, or of a new one.\<close>

definition share_form_shown :: "(share_row, 'r) shelf \<Rightarrow> (string option \<times> share_form) option" where
  "share_form_shown s =
     (case sh_open s of
        Some x \<Rightarrow> Some (Some (shr_id x), share_open (Some (share_form.truncate x)))
      | None \<Rightarrow> if sh_creating s then Some (None, share_open None) else None)"

definition printer_form_shown :: "(printer_row, 'r) shelf \<Rightarrow> (string option \<times> printer_form) option" where
  "printer_form_shown s =
     (case sh_open s of
        Some x \<Rightarrow> Some (Some (prr_id x), printer_open (Some (printer_form.truncate x, prr_has_ppd x)))
      | None \<Rightarrow> if sh_creating s then Some (None, printer_open None) else None)"

definition share_about :: "api_call \<Rightarrow> string option" where
  "share_about c = (case c of Call_shares (Shr_remove i contents) \<Rightarrow> Some i | _ \<Rightarrow> None)"

definition printer_about :: "api_call \<Rightarrow> string option" where
  "printer_about c = (case c of Call_printers (Prn_remove i) \<Rightarrow> Some i | _ \<Rightarrow> None)"

interpretation shares: shelf_page shr_state fst share_remove shr_id share_about
  by unfold_locales (simp add: share_remove_def share_about_def)

interpretation printers: shelf_page prr_state "\<lambda>p. p" printer_remove prr_id printer_about
  by unfold_locales (simp add: printer_remove_def printer_about_def)

section \<open>The devices a print server sees\<close>

type_synonym found = "(string \<times> string) list"

text \<open>Two things ask: an effect whenever the server changes, which takes what it showed away only where the server is empty or the
  answer is an error, and the button that scans. \<open>pd_asked\<close> holds the servers asked, of both.\<close>

record print_devices =
  pd_node :: string
  pd_found :: "found option"
  pd_scanning :: bool
  pd_scan_error :: "string option"
  pd_asked :: "(string \<times> bool) list"

definition devices_ask :: "bool \<Rightarrow> print_devices \<Rightarrow> print_devices" where
  "devices_ask scan s = s\<lparr>pd_asked := pd_asked s @ [(pd_node s, scan)]\<rparr>"

definition devices_effect :: "print_devices \<Rightarrow> print_devices" where
  "devices_effect s = (if pd_node s = [] then s\<lparr>pd_found := None\<rparr> else devices_ask False s)"

definition devices_open :: "string \<Rightarrow> print_devices" where
  "devices_open node = devices_effect \<lparr>pd_node = node, pd_found = None, pd_scanning = False, pd_scan_error = None, pd_asked = []\<rparr>"

datatype (plugins only: code size) devices_event =
    ServerTyped string
  | ScanPressed
  | DevicesAnswered nat "string + found"

definition devices_step :: "devices_event \<Rightarrow> print_devices \<Rightarrow> print_devices" where
  "devices_step ev s =
     (case ev of
        ServerTyped v \<Rightarrow> (if v = pd_node s then s else devices_effect (s\<lparr>pd_node := v\<rparr>))
      | ScanPressed \<Rightarrow>
          (if pd_node s = [] \<or> pd_scanning s then s else devices_ask True (s\<lparr>pd_scanning := True, pd_scan_error := None\<rparr>))
      | DevicesAnswered i a \<Rightarrow>
          (if length (pd_asked s) \<le> i then s
           else let s' = (if snd (pd_asked s ! i) then s\<lparr>pd_scanning := False\<rparr> else s) in
                case a of
                  Inr ds \<Rightarrow> s'\<lparr>pd_found := Some ds\<rparr>
                | Inl msg \<Rightarrow> if snd (pd_asked s ! i) then s'\<lparr>pd_scan_error := Some msg\<rparr> else s'\<lparr>pd_found := None\<rparr>))"

definition devices_shown :: "print_devices \<Rightarrow> found" where
  "devices_shown s = (case pd_found s of None \<Rightarrow> [] | Some ds \<Rightarrow> ds)"

definition devices_label :: "print_devices \<Rightarrow> string" where
  "devices_label s =
     (if devices_shown s = [] then ''None found'' else ''Found ('' @ show_nat (length (devices_shown s)) @ '')'')"

definition devices_arrival :: "devices_event \<Rightarrow> (nat \<times> found) option" where
  "devices_arrival ev = (case ev of DevicesAnswered i (Inr ds) \<Rightarrow> Some (i, ds) | _ \<Rightarrow> None)"

interpretation devices: eager_loader devices_step pd_asked pd_found devices_arrival
proof
  fix ev and s :: print_devices
  show "\<exists>ks. pd_asked (devices_step ev s) = pd_asked s @ ks"
    by (cases ev) (auto simp: devices_step_def devices_effect_def devices_ask_def Let_def split: sum.split)
next
  fix ev i v and s :: print_devices
  assume "devices_arrival ev = Some (i, v)" and "i < length (pd_asked s)"
  then show "pd_found (devices_step ev s) = Some v"
    by (auto simp: devices_step_def devices_arrival_def Let_def split: devices_event.splits sum.splits)
next
  fix ev v and s :: print_devices
  assume "pd_found (devices_step ev s) = Some v"
  then show "pd_found s = Some v \<or> (\<exists>i. devices_arrival ev = Some (i, v))"
    by (cases ev) (auto simp: devices_step_def devices_effect_def devices_ask_def devices_arrival_def Let_def
        split: sum.splits if_splits)
qed

section \<open>The dialogs that make and change\<close>

text \<open>The server, the name and the directory of a share are only asked for where it is new.\<close>

datatype (plugins only: code size) share_event =
    ShareEntryEdited entry_event
  | ShareServer string
  | ShareName string
  | SharePath string
  | ShareComment string
  | ShareOwner string
  | ShareOwnerGroup string
  | ShareReadOnly bool
  | ShareBrowseable bool

definition share_step :: "bool \<Rightarrow> share_event \<Rightarrow> share_form \<Rightarrow> share_form" where
  "share_step editing ev f =
     (case ev of
        ShareEntryEdited e \<Rightarrow> entry_step e f
      | ShareServer v \<Rightarrow> (if editing then f else f\<lparr>sf_node := v\<rparr>)
      | ShareName v \<Rightarrow> (if editing then f else f\<lparr>sf_name := v\<rparr>)
      | SharePath v \<Rightarrow> (if editing then f else f\<lparr>sf_path := v\<rparr>)
      | ShareComment v \<Rightarrow> f\<lparr>sf_comment := v\<rparr>
      | ShareOwner v \<Rightarrow> f\<lparr>sf_owner := v\<rparr>
      | ShareOwnerGroup v \<Rightarrow> f\<lparr>sf_owner_group := v\<rparr>
      | ShareReadOnly b \<Rightarrow> f\<lparr>sf_read_only := b\<rparr>
      | ShareBrowseable b \<Rightarrow> f\<lparr>sf_browseable := b\<rparr>)"

text \<open>The calls of a dialog: of the row it was opened on, or of a new one.\<close>

definition share_fits :: "string option \<Rightarrow> api_call \<Rightarrow> bool" where
  "share_fits editing c \<longleftrightarrow>
     (case editing of
        Some i \<Rightarrow> \<exists>ps. c = Call_shares (Shr_update (JObj ((''id'', JStr i) # ps)))
      | None \<Rightarrow> \<exists>ps. c = Call_shares (Shr_create (JObj ps)))"

definition printer_fits :: "string option \<Rightarrow> api_call \<Rightarrow> bool" where
  "printer_fits editing c \<longleftrightarrow>
     (case editing of
        Some i \<Rightarrow> \<exists>ps. c = Call_printers (Prn_update (JObj ((''id'', JStr i) # ps)))
      | None \<Rightarrow> \<exists>ps. c = Call_printers (Prn_create (JObj ps)))"

interpretation share: one_call_dialog "share_step (editing \<noteq> None)" "\<lambda>f. Some (share_submit editing f)" "share_fits editing" for editing
  by unfold_locales (auto simp: share_submit_def share_fits_def split: option.split)

interpretation printer: one_call_dialog printer_step "\<lambda>f. Some (printer_submit editing f)" "printer_fits editing" for editing
  by unfold_locales (auto simp: printer_submit_def printer_fits_def split: option.split)

section \<open>Network access\<close>

record radius_client =
  rc_id :: string
  rc_node :: string
  rc_name :: string
  rc_address :: string
  rc_network :: string

record radius_rule =
  ru_id :: string
  ru_name :: string
  ru_group_dn :: string
  ru_group_name :: string
  ru_kind :: string
  ru_networks :: "string list"

datatype (plugins only: code size) access_tab = RulesTab | DevicesTab | PreviewTab

record access_page =
  na_tab :: access_tab
  na_clients :: "radius_client list"
  na_rules :: "radius_rule list"
  na_preview :: string
  na_adding_client :: bool
  na_adding_rule :: bool
  na_secret :: "(string \<times> string \<times> string) option"
  na_error :: "string option"
  na_loading :: bool
  na_sent :: "api_call list"

definition access_load :: "access_page \<Rightarrow> access_page" where
  "access_load s = s\<lparr>na_error := None, na_sent := na_sent s @ [Call_radius Radius_overview]\<rparr>"

definition access_open :: access_page where
  "access_open =
     access_load \<lparr>na_tab = RulesTab, na_clients = [], na_rules = [], na_preview = [], na_adding_client = False,
                  na_adding_rule = False, na_secret = None, na_error = None, na_loading = True, na_sent = []\<rparr>"

datatype (plugins only: code size) access_event =
    OverviewRead "string + radius_client list \<times> radius_rule list"
  | PreviewRead "string + string"
  | AccessTab access_tab
  | AccessLive
  | AddPressed
  | ClientAdded string string string
  | RuleAdded
  | DialogLeft
  | SecretCopied
  | RuleRemoved radius_rule
  | ClientRemoved radius_client
  | AccessRemoved "string option"

text \<open>The preview is asked for when its tab is opened and when the rules are set while it is. A rule or a device is removed at
  once, and whatever the answer, the page is read.\<close>

definition access_step :: "access_event \<Rightarrow> access_page \<Rightarrow> access_page" where
  "access_step ev s =
     (let preview = \<lambda>t. t\<lparr>na_sent := na_sent t @ [Call_radius Radius_preview]\<rparr> in
      case ev of
        OverviewRead a \<Rightarrow>
          (case a of
             Inl msg \<Rightarrow> s\<lparr>na_error := Some msg, na_loading := False\<rparr>
           | Inr (cs, rs) \<Rightarrow>
               let t = s\<lparr>na_clients := cs, na_rules := rs, na_loading := False\<rparr> in if na_tab s = PreviewTab then preview t else t)
      | PreviewRead a \<Rightarrow> s\<lparr>na_preview := (case a of Inl msg \<Rightarrow> [] | Inr t \<Rightarrow> t)\<rparr>
      | AccessTab t \<Rightarrow>
          (if t = na_tab s then s else if t = PreviewTab then preview (s\<lparr>na_tab := t\<rparr>) else s\<lparr>na_tab := t\<rparr>)
      | AccessLive \<Rightarrow> access_load s
      | AddPressed \<Rightarrow> (if na_tab s = DevicesTab then s\<lparr>na_adding_client := True\<rparr> else s\<lparr>na_adding_rule := True\<rparr>)
      | ClientAdded name secret node \<Rightarrow>
          (if na_adding_client s then access_load (s\<lparr>na_adding_client := False, na_secret := Some (name, secret, node)\<rparr>) else s)
      | RuleAdded \<Rightarrow> (if na_adding_rule s then access_load (s\<lparr>na_adding_rule := False\<rparr>) else s)
      | DialogLeft \<Rightarrow> s\<lparr>na_adding_client := False, na_adding_rule := False\<rparr>
      | SecretCopied \<Rightarrow> s\<lparr>na_secret := None\<rparr>
      | RuleRemoved r \<Rightarrow>
          (if na_tab s = RulesTab \<and> r \<in> set (na_rules s)
           then s\<lparr>na_sent := na_sent s @ [Call_radius (Radius_removePolicy (ru_id r))]\<rparr> else s)
      | ClientRemoved c \<Rightarrow>
          (if na_tab s = DevicesTab \<and> c \<in> set (na_clients s)
           then s\<lparr>na_sent := na_sent s @ [Call_radius (Radius_removeClient (rc_id c))]\<rparr> else s)
      | AccessRemoved failure \<Rightarrow> access_load s)"

definition rule_who :: "radius_rule \<Rightarrow> string" where
  "rule_who r = (if ru_group_name r \<noteq> [] then ru_group_name r else ru_group_dn r)"

definition rule_where :: "radius_rule \<Rightarrow> string" where
  "rule_where r = (let t = join_with '', '' (ru_networks r) in if t \<noteq> [] then t else ''Every network'')"

text \<open>What the tabs say when they list nothing; the rules do not wait for the first answer.\<close>

definition access_empty :: "access_page \<Rightarrow> string option" where
  "access_empty s =
     (case na_tab s of
        RulesTab \<Rightarrow> (if na_rules s = [] then Some ''No rules, so nothing is allowed on. Add one for the group that should get on.'' else None)
      | DevicesTab \<Rightarrow> (if \<not> na_loading s \<and> na_clients s = [] then Some ''No devices. Nothing can ask until one is added.'' else None)
      | PreviewTab \<Rightarrow> (if na_preview s = [] then Some ''Nothing configured yet.'' else None))"

section \<open>Properties\<close>

text \<open>C35: A share is removed only where that was chosen in the menu of a share that was listed, and its directory is deleted with it
  exactly where that entry of the menu was chosen.\<close>

theorem directories_are_deleted_when_chosen:
  assumes "Call_shares (Shr_remove i contents) \<in> set (sh_sent (fold shares_step evs shelf_open))"
  shows "\<exists>sh. shr_id sh = i \<and> shelf_listed evs sh \<and> RemovalChosen (sh, contents) \<in> set evs"
  using shares.removals_were_chosen [OF assms [unfolded shares_step_def]] by (auto simp: share_remove_def)

theorem directories_are_deleted_when_chosen_witness:
  "let x = share_form.extend (share_open None) (share_row.fields ''7'' ''active'' ''//fs01/data'');
       evs = [ShelfRead (Inr [x]), RemovalChosen (x, True), RemovalConfirmed]
   in Call_shares (Shr_remove ''7'' True) \<in> set (sh_sent (fold shares_step evs shelf_open)) \<and>
      (\<exists>sh. shr_id sh = ''7'' \<and> shelf_listed evs sh \<and> RemovalChosen (sh, True) \<in> set evs)"
proof -
  define x where "x = share_form.extend (share_open None) (share_row.fields ''7'' ''active'' ''//fs01/data'')"
  define evs where "evs = [ShelfRead (Inr [x]), RemovalChosen (x, True), RemovalConfirmed]"
  have "shr_id x = ''7''" by (simp add: x_def share_form.extend_def share_row.fields_def)
  then have sent: "Call_shares (Shr_remove ''7'' True) \<in> set (sh_sent (fold shares_step evs shelf_open))"
    by (simp add: evs_def shares_step_def shelf_step_def shelf_open_def shelf_load_def shelf_covered_def share_remove_def)
  from sent directories_are_deleted_when_chosen [OF sent] show ?thesis
    unfolding Let_def x_def [symmetric] evs_def [symmetric] by blast
qed

text \<open>All the page of the printers sends itself are removals, each of a queue that was listed and chosen for it.\<close>

theorem queues_are_removed_when_chosen:
  assumes "c \<in> set (sh_sent (fold printers_step evs shelf_open))"
  shows "\<exists>p. c = Call_printers (Prn_remove (prr_id p)) \<and> shelf_listed evs p \<and> RemovalChosen p \<in> set evs"
  using printers.removals_were_chosen [OF assms [unfolded printers_step_def]] by (auto simp: printer_remove_def)

text \<open>The dialog of a share that exists changes that share, and neither its server, its name nor its directory; so does that of a
  printer. One of a new one makes one, and each asks one thing at a time.\<close>

theorem dialogs_change_what_was_opened:
  "list_all (share_fits editing) (dl_sent (fold (dialog_step (share_step (editing \<noteq> None)) (\<lambda>f. Some (share_submit editing f))) evs (dialog_open f))) \<and>
   list_all (printer_fits editing) (dl_sent (fold (dialog_step printer_step (\<lambda>f. Some (printer_submit editing f))) pvs (dialog_open g))) \<and>
   length (dl_sent (fold (dialog_step (share_step (editing \<noteq> None)) (\<lambda>f. Some (share_submit editing f))) evs (dialog_open f))) \<le> Suc (answers evs)"
  by (intro conjI share.opened_fits printer.opened_fits share.opened_once)

theorem share_stays_where_it_is:
  "let g = fold (share_step True) evs f in sf_node g = sf_node f \<and> sf_name g = sf_name f \<and> sf_path g = sf_path f"
proof -
  have step: "sf_node (share_step True ev g) = sf_node g \<and> sf_name (share_step True ev g) = sf_name g \<and> sf_path (share_step True ev g) = sf_path g" for ev g
  proof (cases ev)
    case (ShareEntryEdited e)
    then show ?thesis by (cases e) (simp_all add: share_step_def)
  qed (simp_all add: share_step_def)
  show ?thesis by (induction evs arbitrary: f) (simp_all add: step Let_def)
qed

text \<open>A removal that is refused is shown as one that was done, of a share, of a printer, and of a rule or a device: the reason is
  dropped, and the list, read again, still has it.\<close>

theorem refused_removals_look_done:
  "shares_step (RemovalDone (Some msg)) s = shares_step (RemovalDone None) s \<and>
   printers_step (RemovalDone (Some msg)) t = printers_step (RemovalDone None) t \<and>
   access_step (AccessRemoved (Some msg)) u = access_step (AccessRemoved None) u"
  unfolding shares_step_def printers_step_def
  by (intro conjI shares.refusal_looks_taken printers.refusal_looks_taken) (simp add: access_step_def)

text \<open>The answer to one removal takes the question about the next one away.\<close>

theorem answer_takes_the_next_question_away:
  assumes "sh_removing s = Some r" and "sh_pending s = 0"
  shows "sh_removing (fold shares_step [RemovalConfirmed, RemovalCancelled, RemovalChosen q, RemovalDone failure] s) = None"
  using assms by (auto simp: shares_step_def shelf_step_def shelf_load_def)

text \<open>The devices of a server asked before are offered as those of the server chosen since, when their answer comes last.\<close>

theorem devices_of_another_server:
  assumes "node \<noteq> []" and "other \<noteq> node"
  shows "let s = fold devices_step [ServerTyped other, DevicesAnswered 0 (Inr ds)] (devices_open node)
         in pd_node s = other \<and> pd_asked s ! 0 = (node, False) \<and> devices_shown s = ds"
proof -
  have "pd_found (devices_step (DevicesAnswered 0 (Inr ds)) (fold devices_step [ServerTyped other] (devices_open node))) = Some ds"
    by (rule devices.late_answer_wins) (use assms in \<open>simp_all add: devices_arrival_def devices_open_def devices_effect_def devices_ask_def\<close>)
  with assms show ?thesis
    by (simp add: devices_shown_def devices_step_def devices_open_def devices_effect_def devices_ask_def Let_def)
qed

text \<open>The secret of a device is shown once: when it has been copied, only another device brings one.\<close>

theorem secret_is_shown_once:
  assumes "\<forall>ev \<in> set evs. \<forall>n x d. ev \<noteq> ClientAdded n x d"
  shows "na_secret (fold access_step (SecretCopied # evs) s) = None"
proof -
  have "na_secret t = None \<Longrightarrow> na_secret (fold access_step evs t) = None" for t
    using assms
  proof (induction evs arbitrary: t)
    case (Cons ev evs)
    then have "na_secret (access_step ev t) = None"
      by (cases ev) (auto simp: access_step_def access_load_def Let_def split: sum.split prod.split)
    with Cons show ?case by simp
  qed simp
  then show ?thesis by (simp add: access_step_def)
qed

text \<open>Before the first answer the page says that there are no rules and that nothing is allowed on.\<close>

theorem unread_rules_are_said_to_be_none:
  "access_empty access_open = Some ''No rules, so nothing is allowed on. Add one for the group that should get on.''"
  by (simp add: access_empty_def access_open_def access_load_def)

text \<open>A rule or a device is removed only where it was listed, in its own tab.\<close>

theorem removed_rules_were_listed:
  "(\<forall>r. Call_radius (Radius_removePolicy (ru_id r)) \<in> set (na_sent (access_step ev s)) \<longrightarrow>
      Call_radius (Radius_removePolicy (ru_id r)) \<in> set (na_sent s) \<or> (\<exists>q \<in> set (na_rules s). ru_id q = ru_id r \<and> ev = RuleRemoved q)) \<and>
   (\<forall>i. Call_radius (Radius_removeClient i) \<in> set (na_sent (access_step ev s)) \<longrightarrow>
      Call_radius (Radius_removeClient i) \<in> set (na_sent s) \<or> (\<exists>c \<in> set (na_clients s). rc_id c = i \<and> ev = ClientRemoved c))"
  by (cases ev) (auto simp: access_step_def access_load_def Let_def split: sum.split prod.split)

end
