(* ===== verification/RemotePages.thy ===== *)
theory RemotePages
  imports Remote ObjectDialogs
begin

text \<open>
  The pages over the forms of \<open>Remote\<close>: remote desktop (\<^verbatim>\<open>pages/RemoteDesktop.tsx\<close>) with its collections, session hosts and
  sessions, and the tunnels and their peers (\<^verbatim>\<open>pages/Vpn.tsx\<close>). Reading the remote desktops is a closure over the tab it was made
  in: whether the sessions are read too is decided by that tab. The peers of a tunnel are an \<open>eager_loader\<close>.
\<close>

section \<open>Remote desktop\<close>

record rd_host =
  ho_node :: string
  ho_accepts :: bool

record rd_row = collection +
  rr_id :: string
  rr_state :: string
  rr_address :: string
  rr_hosts :: "string list"
  rr_host_state :: "rd_host list"

record rd_session =
  rs_user :: string
  rs_node :: string

datatype (plugins only: code size) rd_tab = BrokerTab | HostsTab | SessionsTab | ProfilesTab

text \<open>Something that was sent and is not answered, with the tab its \<open>load\<close> was made in.\<close>

datatype (plugins only: code size) rd_act = DrainHost string bool | RemoveHost | AddHost

record rd_page =
  rp_tab :: rd_tab
  rp_collections :: "rd_row list"
  rp_unassigned :: "string list"
  rp_sessions :: "rd_session list"
  rp_editing :: "rd_row option option"
  rp_connect :: "rd_row option"
  rp_error :: "string option"
  rp_loading :: bool
  rp_notice :: "string option"
  rp_loads :: "rd_tab list"
  rp_acts :: "(rd_act \<times> rd_tab) list"
  rp_sent :: "api_call list"

definition rd_load :: "rd_tab \<Rightarrow> rd_page \<Rightarrow> rd_page" where
  "rd_load t s = s\<lparr>rp_error := None, rp_loads := rp_loads s @ [t], rp_sent := rp_sent s @ [Call_rd Rd_list]\<rparr>"

definition rd_open :: rd_page where
  "rd_open =
     rd_load BrokerTab \<lparr>rp_tab = BrokerTab, rp_collections = [], rp_unassigned = [], rp_sessions = [], rp_editing = None, rp_connect = None,
                        rp_error = None, rp_loading = True, rp_notice = None, rp_loads = [], rp_acts = [], rp_sent = []\<rparr>"

datatype (plugins only: code size) rd_event =
    CollectionsRead nat "string + rd_row list \<times> string list"
  | SessionsRead "string + rd_session list"
  | RdTab rd_tab
  | RdRead
  | DrainPressed rd_row rd_host
  | RemovePressed rd_row rd_host
  | HostPicked rd_row dirobj
  | ActAnswered nat "string + nat"
  | CollectionPressed rd_row
  | NewCollection
  | CollectionClosed
  | CollectionSaved string
  | ConnectPressed rd_row
  | ConnectClosed

definition rd_ask :: "rd_act \<Rightarrow> api_call \<Rightarrow> rd_page \<Rightarrow> rd_page" where
  "rd_ask a c s = s\<lparr>rp_acts := rp_acts s @ [(a, rp_tab s)], rp_sent := rp_sent s @ [c]\<rparr>"

definition rd_hosted :: "rd_row \<Rightarrow> rd_host \<Rightarrow> rd_page \<Rightarrow> bool" where
  "rd_hosted row h s \<longleftrightarrow> rp_tab s = HostsTab \<and> row \<in> set (rp_collections s) \<and> h \<in> set (rr_host_state row)"

definition rd_answered :: "rd_act \<Rightarrow> rd_tab \<Rightarrow> string + nat \<Rightarrow> rd_page \<Rightarrow> rd_page" where
  "rd_answered act t a s =
     (case act of
        DrainHost host accepts \<Rightarrow>
          (case a of
             Inl msg \<Rightarrow> s\<lparr>rp_error := Some msg\<rparr>
           | Inr n \<Rightarrow> rd_load t (s\<lparr>rp_notice := Some (drain_notice host accepts n)\<rparr>))
      | RemoveHost \<Rightarrow> rd_load t s
      | AddHost \<Rightarrow> (case a of Inl msg \<Rightarrow> s\<lparr>rp_error := Some msg\<rparr> | Inr n \<Rightarrow> rd_load t s))"

definition rd_step :: "rd_event \<Rightarrow> rd_page \<Rightarrow> rd_page" where
  "rd_step ev s =
     (case ev of
        CollectionsRead i a \<Rightarrow>
          (if length (rp_loads s) \<le> i then s
           else (case a of
                   Inl msg \<Rightarrow> s\<lparr>rp_error := Some msg, rp_loading := False\<rparr>
                 | Inr (rows, free) \<Rightarrow>
                     let s' = s\<lparr>rp_collections := rows, rp_unassigned := free\<rparr> in
                     if rp_loads s ! i = SessionsTab then s'\<lparr>rp_sent := rp_sent s @ [Call_rd Rd_sessions]\<rparr> else s'\<lparr>rp_loading := False\<rparr>))
      | SessionsRead a \<Rightarrow>
          (case a of
             Inl msg \<Rightarrow> s\<lparr>rp_error := Some msg, rp_loading := False\<rparr>
           | Inr xs \<Rightarrow> s\<lparr>rp_sessions := xs, rp_loading := False\<rparr>)
      | RdTab t \<Rightarrow> (if t = rp_tab s then s else rd_load t (s\<lparr>rp_tab := t\<rparr>))
      | RdRead \<Rightarrow> rd_load (rp_tab s) s
      | DrainPressed row h \<Rightarrow>
          (if rd_hosted row h s
           then rd_ask (DrainHost (ho_node h) (\<not> ho_accepts h)) (drain_call (rr_id row) (ho_node h) (\<not> ho_accepts h)) (s\<lparr>rp_error := None\<rparr>)
           else s)
      | RemovePressed row h \<Rightarrow>
          (if rd_hosted row h s then rd_ask RemoveHost (Call_rd (Rd_removeHost (rr_id row) (ho_node h))) s else s)
      | HostPicked row n \<Rightarrow>
          (if rp_tab s = HostsTab \<and> row \<in> set (rp_collections s) then rd_ask AddHost (add_host (rr_id row) n) s else s)
      | ActAnswered i a \<Rightarrow>
          (if length (rp_acts s) \<le> i then s else rd_answered (fst (rp_acts s ! i)) (snd (rp_acts s ! i)) a s)
      | CollectionPressed row \<Rightarrow>
          (if rp_tab s = BrokerTab \<and> row \<in> set (rp_collections s) then s\<lparr>rp_editing := Some (Some row)\<rparr> else s)
      | NewCollection \<Rightarrow> s\<lparr>rp_editing := Some None\<rparr>
      | CollectionClosed \<Rightarrow> s\<lparr>rp_editing := None\<rparr>
      | CollectionSaved msg \<Rightarrow>
          (if rp_editing s = None then s else rd_load (rp_tab s) (s\<lparr>rp_editing := None, rp_notice := Some msg\<rparr>))
      | ConnectPressed row \<Rightarrow>
          (if rp_tab s = BrokerTab \<and> row \<in> set (rp_collections s) \<and> rr_hosts row \<noteq> [] then s\<lparr>rp_connect := Some row\<rparr> else s)
      | ConnectClosed \<Rightarrow> s\<lparr>rp_connect := None\<rparr>)"

text \<open>What the page says of a row, of a host and of a list that is empty; the sessions do not wait for their answer.\<close>

definition rd_cells :: "rd_row \<Rightarrow> string list" where
  "rd_cells row =
     [co_name row, rr_address row @ (if co_standby row \<noteq> [] then '' + standby'' else []), collection_serves (collection.truncate row),
      (if rr_hosts row = [] then ''none'' else show_nat (length (rr_hosts row))), rr_state row]"

definition host_words :: "rd_host \<Rightarrow> string \<times> string" where
  "host_words h = (if ho_accepts h then (''Taking new sessions'', ''Drain'') else (''Draining'', ''Resume''))"

definition rd_empty :: "rd_page \<Rightarrow> string option" where
  "rd_empty s =
     (case rp_tab s of
        BrokerTab \<Rightarrow> (if rp_loading s \<or> rp_collections s \<noteq> [] then None else Some ''No collections yet. A collection is what people connect to.'')
      | HostsTab \<Rightarrow> (if rp_unassigned s = [] then Some ''Every session host is in a collection.'' else None)
      | SessionsTab \<Rightarrow> (if rp_sessions s = [] then Some ''Nobody is signed in, or no host has reported since they were.'' else None)
      | ProfilesTab \<Rightarrow> None)"

text \<open>The hosts whose profile disks can be looked at, and the form of a collection.\<close>

definition disk_hosts :: "rd_page \<Rightarrow> string list" where
  "disk_hosts s = concat (map rr_hosts (rp_collections s))"

definition collection_form_shown :: "rd_page \<Rightarrow> (string option \<times> collection) option" where
  "collection_form_shown s =
     (case rp_editing s of
        None \<Rightarrow> None
      | Some None \<Rightarrow> Some (None, collection_open None)
      | Some (Some row) \<Rightarrow> Some (Some (rr_id row), collection_open (Some (collection.truncate row))))"

section \<open>Tunnels\<close>

record vpn_tunnel =
  tu_id :: string
  tu_name :: string
  tu_endpoint :: string
  tu_port :: int
  tu_network :: string
  tu_routes :: "string list"
  tu_dns :: "string list"

record vpn_peer =
  pr_id :: string
  pr_name :: string
  pr_exportable :: bool

text \<open>The half of the page about the tunnel that is selected. It is one component for all of them: it keeps its state while the
  tunnel changes, and begins again only when none was shown.\<close>

record tunnel_detail =
  td_tunnel :: string
  td_peers :: "vpn_peer list option"
  td_adding :: bool
  td_error :: "string option"
  td_asked :: "string list"

record vpn_page =
  vp_tunnels :: "vpn_tunnel list"
  vp_selected :: string
  vp_creating :: bool
  vp_error :: "string option"
  vp_loading :: bool
  vp_detail :: "tunnel_detail option"
  vp_removals :: "string list"
  vp_sent :: "api_call list"

definition vpn_load :: "vpn_page \<Rightarrow> vpn_page" where
  "vpn_load s = s\<lparr>vp_error := None, vp_sent := vp_sent s @ [Call_vpn Vpn_list]\<rparr>"

definition vpn_open :: vpn_page where
  "vpn_open =
     vpn_load \<lparr>vp_tunnels = [], vp_selected = [], vp_creating = False, vp_error = None, vp_loading = True,
                vp_detail = None, vp_removals = [], vp_sent = []\<rparr>"

definition detail_load :: "string \<Rightarrow> tunnel_detail \<Rightarrow> tunnel_detail" where
  "detail_load i d = d\<lparr>td_error := None, td_asked := td_asked d @ [i]\<rparr>"

definition detail_open :: "string \<Rightarrow> tunnel_detail" where
  "detail_open i = detail_load i \<lparr>td_tunnel = i, td_peers = None, td_adding = False, td_error = None, td_asked = []\<rparr>"

datatype (plugins only: code size) detail_event =
    PeersRead nat "string + vpn_peer list"
  | TunnelShown string
  | PeersAgain string
  | PeerAdding bool

definition detail_step :: "detail_event \<Rightarrow> tunnel_detail \<Rightarrow> tunnel_detail" where
  "detail_step ev d =
     (case ev of
        PeersRead i a \<Rightarrow>
          (if length (td_asked d) \<le> i then d
           else (case a of Inl msg \<Rightarrow> d\<lparr>td_error := Some msg\<rparr> | Inr ps \<Rightarrow> d\<lparr>td_peers := Some ps\<rparr>))
      | TunnelShown i \<Rightarrow> (if i = td_tunnel d then d else detail_load i (d\<lparr>td_tunnel := i\<rparr>))
      | PeersAgain i \<Rightarrow> detail_load i d
      | PeerAdding b \<Rightarrow> d\<lparr>td_adding := b\<rparr>)"

definition peers_shown :: "tunnel_detail \<Rightarrow> vpn_peer list" where
  "peers_shown d = (case td_peers d of None \<Rightarrow> [] | Some ps \<Rightarrow> ps)"

definition tunnel_shown :: "vpn_page \<Rightarrow> vpn_tunnel option" where
  "tunnel_shown s = find (\<lambda>t. tu_id t = vp_selected s) (vp_tunnels s)"

text \<open>After a render, the detail is that of the tunnel shown. What was asked for by a detail that is gone changes nothing.\<close>

definition vpn_render :: "vpn_page \<Rightarrow> vpn_page" where
  "vpn_render s =
     (case tunnel_shown s of
        None \<Rightarrow> s\<lparr>vp_detail := None, vp_removals := []\<rparr>
      | Some t \<Rightarrow>
          (case vp_detail s of
             None \<Rightarrow> s\<lparr>vp_detail := Some (detail_open (tu_id t))\<rparr>
           | Some d \<Rightarrow> s\<lparr>vp_detail := Some (detail_step (TunnelShown (tu_id t)) d)\<rparr>))"

text \<open>A removal reads the peers again, refused or not, of the tunnel it was pressed in; then the tunnels are read.\<close>

datatype (plugins only: code size) vpn_event =
    TunnelsRead "string + vpn_tunnel list"
  | VpnLive
  | TunnelSelected string
  | TunnelCreating bool
  | TunnelSaved
  | DetailPeers nat "string + vpn_peer list"
  | PeerDialogOpened
  | PeerDialogClosed
  | PeerDialogSaved
  | PeerRemoved vpn_peer
  | PeerRemovalDone nat "string option"
  | PeersReadAgain

definition on_detail :: "detail_event \<Rightarrow> vpn_page \<Rightarrow> vpn_page" where
  "on_detail ev s = s\<lparr>vp_detail := map_option (detail_step ev) (vp_detail s)\<rparr>"

definition vpn_event_of :: "vpn_event \<Rightarrow> vpn_page \<Rightarrow> vpn_page" where
  "vpn_event_of ev s =
     (case ev of
        TunnelsRead a \<Rightarrow>
          (case a of
             Inl msg \<Rightarrow> s\<lparr>vp_error := Some msg, vp_loading := False\<rparr>
           | Inr ts \<Rightarrow>
               s\<lparr>vp_tunnels := ts, vp_loading := False,
                 vp_selected := (if vp_selected s \<noteq> [] then vp_selected s else case ts of [] \<Rightarrow> [] | t # _ \<Rightarrow> tu_id t)\<rparr>)
      | VpnLive \<Rightarrow> vpn_load s
      | TunnelSelected i \<Rightarrow> (if i \<in> tu_id ` set (vp_tunnels s) then s\<lparr>vp_selected := i\<rparr> else s)
      | TunnelCreating b \<Rightarrow> s\<lparr>vp_creating := b\<rparr>
      | TunnelSaved \<Rightarrow> (if vp_creating s then vpn_load (s\<lparr>vp_creating := False\<rparr>) else s)
      | DetailPeers i a \<Rightarrow> on_detail (PeersRead i a) s
      | PeerDialogOpened \<Rightarrow> on_detail (PeerAdding True) s
      | PeerDialogClosed \<Rightarrow> on_detail (PeerAdding False) s
      | PeerDialogSaved \<Rightarrow>
          (case vp_detail s of
             None \<Rightarrow> s
           | Some d \<Rightarrow>
               if td_adding d then vpn_load (on_detail (PeersAgain (td_tunnel d)) (on_detail (PeerAdding False) s)) else s)
      | PeerRemoved p \<Rightarrow>
          (case vp_detail s of
             None \<Rightarrow> s
           | Some d \<Rightarrow> if p \<in> set (peers_shown d)
                        then s\<lparr>vp_removals := vp_removals s @ [td_tunnel d], vp_sent := vp_sent s @ [Call_vpn (Vpn_removePeer (pr_id p))]\<rparr>
                        else s)
      | PeerRemovalDone n failure \<Rightarrow>
          (if length (vp_removals s) \<le> n then s else on_detail (PeersAgain (vp_removals s ! n)) s)
      | PeersReadAgain \<Rightarrow> vpn_load s)"

definition vpn_step :: "vpn_event \<Rightarrow> vpn_page \<Rightarrow> vpn_page" where
  "vpn_step ev s = vpn_render (vpn_event_of ev s)"

definition tunnel_facts :: "vpn_tunnel \<Rightarrow> string list" where
  "tunnel_facts t =
     (let reached = join_with '', '' (tu_routes t); servers = join_with '', '' (tu_dns t) in
      [tu_endpoint t @ '':'' @ show_int (tu_port t), tu_network t,
       (if reached \<noteq> [] then reached else tu_network t), (if servers \<noteq> [] then servers else ''none'')])"

section \<open>What is sent is of what was listed\<close>

definition rd_listed :: "rd_event list \<Rightarrow> rd_row \<Rightarrow> bool" where
  "rd_listed evs row \<longleftrightarrow> (\<exists>i rows free. CollectionsRead i (Inr (rows, free)) \<in> set evs \<and> row \<in> set rows)"

definition drains_ok :: "rd_event list \<Rightarrow> rd_page \<Rightarrow> bool" where
  "drains_ok evs s \<longleftrightarrow>
     (\<forall>row \<in> set (rp_collections s). rd_listed evs row) \<and>
     (\<forall>i host accepts. Call_rd (Rd_drain i host accepts) \<in> set (rp_sent s) \<longrightarrow>
        (\<exists>row h. rd_listed evs row \<and> h \<in> set (rr_host_state row) \<and> DrainPressed row h \<in> set evs \<and>
                 rr_id row = i \<and> ho_node h = host \<and> accepts = (\<not> ho_accepts h)))"

lemmas rd_steps = rd_step_def rd_load_def rd_ask_def rd_answered_def rd_hosted_def drain_call_def add_host_def

lemma drains_ok_step:
  assumes "drains_ok all s" and "ev \<in> set all"
  shows "drains_ok all (rd_step ev s)"
proof (cases ev)
  case (CollectionsRead i a)
  with assms show ?thesis by (auto simp: rd_steps drains_ok_def rd_listed_def Let_def split: sum.split)
next
  case (DrainPressed row h)
  with assms show ?thesis by (auto simp: rd_steps drains_ok_def)
next
  case (ActAnswered i a)
  with assms show ?thesis by (auto simp: rd_steps drains_ok_def split: sum.split rd_act.split)
qed (use assms in \<open>auto simp: rd_steps drains_ok_def split: sum.split option.split\<close>)

lemma drains_ok_run: "drains_ok all s \<Longrightarrow> set evs \<subseteq> set all \<Longrightarrow> drains_ok all (fold rd_step evs s)"
  by (induction evs arbitrary: s) (simp_all add: drains_ok_step)

definition rd_elsewhere :: "rd_page \<Rightarrow> bool" where
  "rd_elsewhere s \<longleftrightarrow>
     rp_tab s \<noteq> SessionsTab \<and> SessionsTab \<notin> set (rp_loads s) \<and> SessionsTab \<notin> snd ` set (rp_acts s) \<and> Call_rd Rd_sessions \<notin> set (rp_sent s)"

lemma snd_nth: "n < length xs \<Longrightarrow> t \<notin> snd ` set xs \<Longrightarrow> snd (xs ! n) \<noteq> t"
  by (metis image_eqI nth_mem)

lemma rd_elsewhere_step:
  assumes "rd_elsewhere s" and "ev \<noteq> RdTab SessionsTab"
  shows "rd_elsewhere (rd_step ev s)"
proof (cases ev)
  case (CollectionsRead i a)
  have "i < length (rp_loads s) \<Longrightarrow> rp_loads s ! i \<noteq> SessionsTab" using assms(1) nth_mem unfolding rd_elsewhere_def by metis
  with assms CollectionsRead show ?thesis
    by (auto simp: rd_steps rd_elsewhere_def Let_def not_le split: sum.split)
next
  case (ActAnswered i a)
  with assms show ?thesis
    by (auto simp: rd_steps rd_elsewhere_def split: sum.split rd_act.split dest: nth_mem snd_nth [of i "rp_acts s" SessionsTab])
qed (use assms in \<open>auto simp: rd_steps rd_elsewhere_def split: sum.split option.split\<close>)

definition peers_arrival :: "detail_event \<Rightarrow> (nat \<times> vpn_peer list) option" where
  "peers_arrival ev = (case ev of PeersRead i (Inr ps) \<Rightarrow> Some (i, ps) | _ \<Rightarrow> None)"

interpretation peers: eager_loader detail_step td_asked td_peers peers_arrival
proof
  fix ev and s :: tunnel_detail
  show "\<exists>ks. td_asked (detail_step ev s) = td_asked s @ ks"
    by (cases ev) (auto simp: detail_step_def detail_load_def split: sum.split)
next
  fix ev i v and s :: tunnel_detail
  assume "peers_arrival ev = Some (i, v)" and "i < length (td_asked s)"
  then show "td_peers (detail_step ev s) = Some v"
    by (auto simp: detail_step_def peers_arrival_def split: detail_event.splits sum.splits)
next
  fix ev v and s :: tunnel_detail
  assume "td_peers (detail_step ev s) = Some v"
  then show "td_peers s = Some v \<or> (\<exists>i. peers_arrival ev = Some (i, v))"
    by (cases ev) (auto simp: detail_step_def detail_load_def peers_arrival_def split: sum.splits if_splits)
qed

interpretation tunnel: one_call_dialog tunnel_step "\<lambda>f. Some (tunnel_submit f)" "\<lambda>c. \<exists>b. c = Call_vpn (Vpn_create b)"
  by unfold_locales (auto simp: tunnel_submit_def)

interpretation peer: one_call_dialog peer_pick "\<lambda>f. Some (peer_submit i f)"
    "\<lambda>c. \<exists>ps. c = Call_vpn (Vpn_addPeer (JObj ((''tunnel_id'', JStr i) # ps)))" for i
  by unfold_locales (auto simp: peer_submit_def)

section \<open>Properties\<close>

text \<open>A host is drained, or taken back, only from the list of a collection that was read, by its own button, and to the other of the
  two states than the one it was listed in.\<close>

theorem drains_turn_a_listed_host_round:
  assumes "Call_rd (Rd_drain i host accepts) \<in> set (rp_sent (fold rd_step evs rd_open))"
  shows "\<exists>row h. rd_listed evs row \<and> h \<in> set (rr_host_state row) \<and> DrainPressed row h \<in> set evs \<and>
                 rr_id row = i \<and> ho_node h = host \<and> accepts = (\<not> ho_accepts h)"
proof -
  have "drains_ok evs rd_open" by (simp add: drains_ok_def rd_open_def rd_load_def)
  from drains_ok_run [OF this, of evs] have "drains_ok evs (fold rd_step evs rd_open)" by simp
  with assms show ?thesis unfolding drains_ok_def by blast
qed

text \<open>The sessions are asked for only by somebody who opened their tab.\<close>

theorem sessions_are_read_on_their_tab:
  assumes "RdTab SessionsTab \<notin> set evs"
  shows "Call_rd Rd_sessions \<notin> set (rp_sent (fold rd_step evs rd_open))"
proof -
  have "rd_elsewhere s \<Longrightarrow> rd_elsewhere (fold rd_step evs s)" for s
    using assms by (induction evs arbitrary: s) (auto simp: rd_elsewhere_step)
  from this [of rd_open] show ?thesis by (simp add: rd_elsewhere_def rd_open_def rd_load_def)
qed

text \<open>A host that could not be taken out of its collection is told from one that was by nothing but the list; a notice is never
  taken away, also by what goes wrong after it.\<close>

theorem refused_host_removal_looks_done:
  assumes "fst (rp_acts s ! n) = RemoveHost"
  shows "rd_step (ActAnswered n (Inl msg)) s = rd_step (ActAnswered n (Inr k)) s"
  using assms by (simp add: rd_step_def rd_answered_def)

theorem notices_outlive_what_they_said:
  assumes "rp_notice s \<noteq> None"
  shows "rp_notice (fold rd_step evs s) \<noteq> None"
  using assms
proof (induction evs arbitrary: s)
  case (Cons ev evs)
  have "rp_notice (rd_step ev s) \<noteq> None"
    using Cons.prems by (cases ev) (auto simp: rd_steps Let_def split: sum.split rd_act.split)
  with Cons.IH show ?case by simp
qed simp

text \<open>The peers shown are those of a tunnel that was asked about, and not always of the one shown: an answer about the tunnel before
  is taken when it comes, under the name of the next.\<close>

theorem peers_of_another_tunnel:
  assumes "j \<noteq> i"
  shows "let d = fold detail_step [TunnelShown j, PeersRead 1 (Inr others), PeersRead 0 (Inr ps)] (detail_open i)
         in td_tunnel d = j \<and> peers_shown d = ps"
proof -
  have "td_peers (detail_step (PeersRead 0 (Inr ps)) (fold detail_step [TunnelShown j, PeersRead 1 (Inr others)] (detail_open i))) = Some ps"
    by (rule peers.late_answer_wins) (simp_all add: peers_arrival_def detail_open_def detail_load_def)
  with assms show ?thesis
    by (simp add: peers_shown_def detail_step_def detail_open_def detail_load_def)
qed

text \<open>A tunnel that is gone stays selected, and the page shows none of those that are left until one is pressed.\<close>

theorem no_tunnel_is_shown_after_a_removal:
  assumes "vp_selected s \<noteq> []" and "\<forall>ev \<in> set evs. \<exists>ts. ev = TunnelsRead (Inr ts) \<and> vp_selected s \<notin> tu_id ` set ts" and "evs \<noteq> []"
  shows "tunnel_shown (fold vpn_step evs s) = None \<and> vp_selected (fold vpn_step evs s) = vp_selected s"
  using assms
proof (induction evs arbitrary: s)
  case (Cons ev evs)
  then obtain ts where ev: "ev = TunnelsRead (Inr ts)" "vp_selected s \<notin> tu_id ` set ts" by auto
  from ev(2) have "find (\<lambda>t. tu_id t = vp_selected s) ts = None" by (metis (mono_tags, lifting) find_None_iff image_eqI)
  with Cons.prems(1) ev(1) have step: "vp_selected (vpn_step ev s) = vp_selected s \<and> tunnel_shown (vpn_step ev s) = None"
    by (simp add: vpn_step_def vpn_render_def vpn_event_of_def tunnel_shown_def)
  show ?case
  proof (cases "evs = []")
    case False
    with Cons.IH [of "vpn_step ev s"] Cons.prems step show ?thesis by simp
  qed (use step in simp)
qed simp

text \<open>A peer is removed where it is shown, whatever tunnel it is of.\<close>

theorem removed_peers_were_shown:
  assumes "Call_vpn (Vpn_removePeer i) \<in> set (vp_sent (vpn_step ev s))"
  shows "Call_vpn (Vpn_removePeer i) \<in> set (vp_sent s) \<or>
         (\<exists>p d. ev = PeerRemoved p \<and> pr_id p = i \<and> vp_detail s = Some d \<and> p \<in> set (peers_shown d))"
proof -
  have "vp_sent (vpn_render t) = vp_sent t" for t by (simp add: vpn_render_def split: option.split)
  with assms show ?thesis
    by (cases ev)
       (auto simp: vpn_step_def vpn_event_of_def vpn_load_def on_detail_def split: sum.splits option.splits if_splits)
qed

end
