(* ===== verification/ServerPages.thy ===== *)
theory ServerPages
  imports Certificates ServerRoles Controllers ObjectDialogs
begin

text \<open>
  Pages of the domain's servers, over the forms of \<open>Certificates\<close>, \<open>ServerRoles\<close> and \<open>Controllers\<close>: the tabs of trusted
  certificates and of profiles (\<^verbatim>\<open>pages/Certificates.tsx\<close>), the roles (\<^verbatim>\<open>pages/Roles.tsx\<close>), the controllers and the sites
  (\<^verbatim>\<open>pages/Controllers.tsx\<close>). A list with rows to remove is \<open>panel_step\<close>, and \<open>removable_panel\<close> what it promises: a row that is
  locked is left alone, and one that is removed was listed. The dialogs that ask for one thing are \<open>one_call_dialog\<close>.
\<close>

section \<open>A list with rows to remove\<close>

record 'x panel =
  pn_items :: "'x list"
  pn_form :: "'x option option"
  pn_error :: "string option"
  pn_pending :: nat
  pn_loads :: nat
  pn_sent :: "api_call list"

definition panel_load :: "'x panel \<Rightarrow> 'x panel" where
  "panel_load s = s\<lparr>pn_error := None, pn_loads := Suc (pn_loads s)\<rparr>"

definition panel_open :: "'x panel" where
  "panel_open = panel_load \<lparr>pn_items = [], pn_form = None, pn_error = None, pn_pending = 0, pn_loads = 0, pn_sent = []\<rparr>"

datatype 'x panel_event =
    PanelRead "string + 'x list"
  | PanelNew
  | PanelEdit 'x
  | PanelClosed
  | PanelSaved
  | PanelRemove 'x
  | PanelRemoved "string option"

text \<open>\<open>locked\<close> rows have no buttons; \<open>edits\<close> says whether the others have one that opens the form; \<open>swallows\<close> whether a removal
  that is refused is taken for done. Where it is not, nothing catches it, and nothing happens.\<close>

definition panel_step :: "('x \<Rightarrow> bool) \<Rightarrow> bool \<Rightarrow> bool \<Rightarrow> ('x \<Rightarrow> api_call) \<Rightarrow> 'x panel_event \<Rightarrow> 'x panel \<Rightarrow> 'x panel" where
  "panel_step locked edits swallows remove ev s =
     (case ev of
        PanelRead a \<Rightarrow> (case a of Inl msg \<Rightarrow> s\<lparr>pn_error := Some msg\<rparr> | Inr xs \<Rightarrow> s\<lparr>pn_items := xs\<rparr>)
      | PanelNew \<Rightarrow> s\<lparr>pn_form := Some None\<rparr>
      | PanelEdit x \<Rightarrow> (if edits \<and> x \<in> set (pn_items s) \<and> \<not> locked x then s\<lparr>pn_form := Some (Some x)\<rparr> else s)
      | PanelClosed \<Rightarrow> s\<lparr>pn_form := None\<rparr>
      | PanelSaved \<Rightarrow> (if pn_form s = None then s else panel_load (s\<lparr>pn_form := None\<rparr>))
      | PanelRemove x \<Rightarrow>
          (if x \<in> set (pn_items s) \<and> \<not> locked x
           then s\<lparr>pn_pending := Suc (pn_pending s), pn_sent := pn_sent s @ [remove x]\<rparr> else s)
      | PanelRemoved failure \<Rightarrow>
          (case pn_pending s of
             0 \<Rightarrow> s
           | Suc n \<Rightarrow> if failure = None \<or> swallows then panel_load (s\<lparr>pn_pending := n\<rparr>) else s\<lparr>pn_pending := n\<rparr>))"

definition panel_listed :: "'x panel_event list \<Rightarrow> 'x \<Rightarrow> bool" where
  "panel_listed evs x \<longleftrightarrow> (\<exists>xs. PanelRead (Inr xs) \<in> set evs \<and> x \<in> set xs)"

locale removable_panel =
  fixes locked :: "'x \<Rightarrow> bool"
    and edits :: bool
    and swallows :: bool
    and remove :: "'x \<Rightarrow> api_call"
    and key :: "'x \<Rightarrow> string"
    and about :: "api_call \<Rightarrow> string option"
  assumes remove_about: "about (remove x) = Some (key x)"
begin

definition panel_ok :: "'x panel_event list \<Rightarrow> 'x panel \<Rightarrow> bool" where
  "panel_ok evs s \<longleftrightarrow>
     (\<forall>x \<in> set (pn_items s). panel_listed evs x) \<and>
     (\<forall>c \<in> set (pn_sent s). \<exists>x. c = remove x \<and> about c = Some (key x) \<and> panel_listed evs x \<and> \<not> locked x \<and> PanelRemove x \<in> set evs)"

lemma panel_ok_step:
  assumes "panel_ok all s" and "ev \<in> set all"
  shows "panel_ok all (panel_step locked edits swallows remove ev s)"
proof (cases ev)
  case (PanelRead a)
  with assms show ?thesis by (auto simp: panel_step_def panel_ok_def panel_listed_def split: sum.split)
next
  case (PanelRemove x)
  with assms remove_about show ?thesis by (fastforce simp: panel_step_def panel_ok_def)
qed (use assms in \<open>auto simp: panel_step_def panel_ok_def panel_load_def split: nat.split\<close>)

lemma removed_rows_were_listed:
  assumes "c \<in> set (pn_sent (fold (panel_step locked edits swallows remove) evs panel_open))"
  shows "\<exists>x. c = remove x \<and> about c = Some (key x) \<and> panel_listed evs x \<and> \<not> locked x \<and> PanelRemove x \<in> set evs"
proof -
  have run: "panel_ok all s \<Longrightarrow> set es \<subseteq> set all \<Longrightarrow> panel_ok all (fold (panel_step locked edits swallows remove) es s)" for all es s
    by (induction es arbitrary: s) (simp_all add: panel_ok_step)
  have "panel_ok evs panel_open" by (simp add: panel_ok_def panel_open_def panel_load_def)
  from run [OF this, of evs] have "panel_ok evs (fold (panel_step locked edits swallows remove) evs panel_open)" by simp
  with assms show ?thesis unfolding panel_ok_def by blast
qed

text \<open>A refusal says nothing: it is a removal that was taken, or no event at all.\<close>

lemma refusal_says_nothing:
  "pn_error (panel_step locked edits swallows remove (PanelRemoved (Some msg)) s) \<in> {None, pn_error s}"
  by (auto simp: panel_step_def panel_load_def split: nat.split)

end

section \<open>Certificates that are trusted, and profiles\<close>

record trust_anchor =
  tx_id :: string
  tx_name :: string
  tx_subject :: string
  tx_is_ca :: bool

record profile_row = certificate_profile +
  cf_built_in :: bool

definition untrust :: "trust_anchor \<Rightarrow> api_call" where
  "untrust a = Call_ca (Ca_untrust (tx_id a))"

definition delete_profile :: "profile_row \<Rightarrow> api_call" where
  "delete_profile p = Call_ca (Ca_deleteProfile (ce_name p))"

definition trusted_step :: "trust_anchor panel_event \<Rightarrow> trust_anchor panel \<Rightarrow> trust_anchor panel" where
  "trusted_step = panel_step (\<lambda>a. False) False True untrust"

definition profiles_step :: "profile_row panel_event \<Rightarrow> profile_row panel \<Rightarrow> profile_row panel" where
  "profiles_step = panel_step cf_built_in True False delete_profile"

text \<open>The form of the profile that is edited, or of a new one; its name is only typed where it is new.\<close>

definition profile_form_shown :: "profile_row panel \<Rightarrow> (bool \<times> profile_form) option" where
  "profile_form_shown s =
     (case pn_form s of
        None \<Rightarrow> None
      | Some existing \<Rightarrow> Some (existing \<noteq> None, profile_open (map_option certificate_profile.truncate existing)))"

datatype (plugins only: code size) profile_edit =
    ProfileName string
  | ProfileDescription string
  | ProfilePurpose string
  | ProfileDays string
  | ProfileKeySize string

definition profile_edit :: "bool \<Rightarrow> string list \<Rightarrow> profile_edit \<Rightarrow> profile_form \<Rightarrow> profile_form" where
  "profile_edit editing purposes e f =
     (case e of
        ProfileName v \<Rightarrow> (if editing then f else profile_form.pr_name_update (\<lambda>_. v) f)
      | ProfileDescription v \<Rightarrow> profile_form.pr_description_update (\<lambda>_. v) f
      | ProfilePurpose p \<Rightarrow> purpose_click purposes p f
      | ProfileDays v \<Rightarrow> f\<lparr>pr_days := js_Number v\<rparr>
      | ProfileKeySize v \<Rightarrow> (if v \<in> set KEY_SIZES then f\<lparr>pr_key_size := v\<rparr> else f))"

definition trust_about :: "api_call \<Rightarrow> string option" where
  "trust_about c = (case c of Call_ca (Ca_untrust i) \<Rightarrow> Some i | _ \<Rightarrow> None)"

definition profile_about :: "api_call \<Rightarrow> string option" where
  "profile_about c = (case c of Call_ca (Ca_deleteProfile n) \<Rightarrow> Some n | _ \<Rightarrow> None)"

interpretation trusted: removable_panel "\<lambda>a. False" False True untrust tx_id trust_about
  by unfold_locales (simp add: untrust_def trust_about_def)

interpretation profiles: removable_panel cf_built_in True False delete_profile ce_name profile_about
  by unfold_locales (simp add: delete_profile_def profile_about_def)

interpretation issue_dialog: one_call_dialog issue_step "\<lambda>f. Some (issue_submit f)" "\<lambda>c. \<exists>b. c = Call_ca (Ca_issue b)"
  by unfold_locales (auto simp: issue_submit_def)

interpretation profile_dialog: one_call_dialog "profile_edit editing purposes" "\<lambda>f. Some (profile_submit f)" "\<lambda>c. \<exists>b. c = Call_ca (Ca_saveProfile b)"
  for editing purposes
  by unfold_locales (auto simp: profile_submit_def)

section \<open>Roles\<close>

record roles_page =
  ro_available :: "role_descriptor list"
  ro_installed :: "role_instance list"
  ro_open :: "role_descriptor option"
  ro_installing :: "role_descriptor option"
  ro_controllers :: "string list"
  ro_error :: "string option"
  ro_loads :: nat
  ro_pending :: nat
  ro_sent :: "api_call list"

definition roles_load :: "roles_page \<Rightarrow> roles_page" where
  "roles_load s = s\<lparr>ro_error := None, ro_loads := Suc (ro_loads s)\<rparr>"

definition roles_open :: roles_page where
  "roles_open =
     roles_load \<lparr>ro_available = [], ro_installed = [], ro_open = None, ro_installing = None, ro_controllers = [], ro_error = None,
                 ro_loads = 0, ro_pending = 0, ro_sent = []\<rparr>"

datatype (plugins only: code size) roles_event =
    RolesRead "string + role_descriptor list \<times> role_instance list"
  | ControllersRead "string + string list"
  | RolesLive
  | RolesTimer
  | RoleOpened role_descriptor
  | RoleClosed
  | RoleSubmitted
  | InstallClosed
  | InstallStarted
  | RoleRemoved role_instance bool
  | RoleRemovalDone "string option"

definition instances_shown :: "roles_page \<Rightarrow> role_instance list" where
  "instances_shown s = (case ro_open s of None \<Rightarrow> [] | Some r \<Rightarrow> nodesFor (rl_name r) (ro_installed s))"

definition roles_step :: "roles_event \<Rightarrow> roles_page \<Rightarrow> roles_page" where
  "roles_step ev s =
     (case ev of
        RolesRead a \<Rightarrow>
          (case a of Inl msg \<Rightarrow> s\<lparr>ro_error := Some msg\<rparr> | Inr (rs, is) \<Rightarrow> s\<lparr>ro_available := rs, ro_installed := is\<rparr>)
      | ControllersRead a \<Rightarrow> s\<lparr>ro_controllers := (case a of Inl msg \<Rightarrow> [] | Inr cs \<Rightarrow> cs)\<rparr>
      | RolesLive \<Rightarrow> roles_load s
      | RolesTimer \<Rightarrow> (if installing_now (ro_installed s) then roles_load s else s)
      | RoleOpened r \<Rightarrow> (if r \<in> set (ro_available s) then s\<lparr>ro_open := Some r\<rparr> else s)
      | RoleClosed \<Rightarrow> s\<lparr>ro_open := None\<rparr>
      | RoleSubmitted \<Rightarrow>
          (case ro_open s of
             None \<Rightarrow> s
           | Some r \<Rightarrow> if rl_core r then s\<lparr>ro_open := None\<rparr> else s\<lparr>ro_installing := Some r, ro_open := None\<rparr>)
      | InstallClosed \<Rightarrow> s\<lparr>ro_installing := None\<rparr>
      | InstallStarted \<Rightarrow> (if ro_installing s = None then s else roles_load (s\<lparr>ro_installing := None\<rparr>))
      | RoleRemoved i yes \<Rightarrow>
          (if i \<in> set (instances_shown s)
           then (case remove_pressed yes i of
                   None \<Rightarrow> s
                 | Some c \<Rightarrow> s\<lparr>ro_pending := Suc (ro_pending s), ro_sent := ro_sent s @ [c]\<rparr>)
           else s)
      | RoleRemovalDone failure \<Rightarrow> (case ro_pending s of 0 \<Rightarrow> s | Suc n \<Rightarrow> roles_load (s\<lparr>ro_pending := n\<rparr>)))"

definition instances_empty :: "roles_page \<Rightarrow> string option" where
  "instances_empty s =
     (case ro_open s of
        None \<Rightarrow> None
      | Some r \<Rightarrow>
          if instances_shown s = [] \<and> \<not> (rl_core r \<and> ro_controllers s \<noteq> [])
          then Some (if rl_core r then ''No controller has reported in yet.'' else ''Not installed on any server.'') else None)"

interpretation install: one_call_dialog "install_step r" "\<lambda>f. Some (install_submit r f)"
    "\<lambda>c. \<exists>node config. c = Call_roles (Role_install (rl_name r) node config)" for r
  by unfold_locales (auto simp: install_submit_def)

section \<open>Sites\<close>

record site =
  st_name :: string
  st_subnets :: "string list"
  st_controllers :: "string list"

record controller =
  ct_dn :: string
  ct_name :: string
  ct_fqdn :: string

datatype (plugins only: code size) site_work = SiteRemoval | SubnetRemoval | SiteAdding | SubnetAdding | Assigning

record sites_page =
  si_sites :: "site list"
  si_unplaced :: nat
  si_adding :: bool
  si_subnet_for :: "string option"
  si_assign_for :: "string option"
  si_notice :: "string option"
  si_error :: "string option"
  si_loads :: nat
  si_works :: "site_work list"
  si_sent :: "api_call list"

definition sites_load :: "sites_page \<Rightarrow> sites_page" where
  "sites_load s = s\<lparr>si_error := None, si_loads := Suc (si_loads s)\<rparr>"

definition sites_open :: sites_page where
  "sites_open =
     sites_load \<lparr>si_sites = [], si_unplaced = 0, si_adding = False, si_subnet_for = None, si_assign_for = None, si_notice = None,
                 si_error = None, si_loads = 0, si_works = [], si_sent = []\<rparr>"

datatype (plugins only: code size) sites_event =
    SitesRead "string + site list \<times> nat"
  | NewSite
  | SubnetWanted site
  | AssignWanted site
  | SiteDialogsClosed
  | SiteRemoved site
  | SubnetRemoved string
  | SiteTyped string string
  | SubnetTyped string string
  | ControllerChosen controller
  | SiteAnswered nat "string + string \<times> string list"

definition site_ask :: "site_work \<Rightarrow> sites_call \<Rightarrow> sites_page \<Rightarrow> sites_page" where
  "site_ask w c s = s\<lparr>si_works := si_works s @ [w], si_sent := si_sent s @ [Call_sites c]\<rparr>"

text \<open>What an answer does. A refused site or subnet stays in its dialog, which says why; a refused removal or assignment is
  taken for done.\<close>

definition site_answered :: "site_work \<Rightarrow> string + string \<times> string list \<Rightarrow> sites_page \<Rightarrow> sites_page" where
  "site_answered w a s =
     (case w of
        SiteRemoval \<Rightarrow> sites_load s
      | SubnetRemoval \<Rightarrow> sites_load s
      | Assigning \<Rightarrow> sites_load (s\<lparr>si_assign_for := None\<rparr>)
      | SiteAdding \<Rightarrow> (case a of Inl msg \<Rightarrow> s | Inr r \<Rightarrow> sites_load (s\<lparr>si_adding := False\<rparr>))
      | SubnetAdding \<Rightarrow>
          (case a of
             Inl msg \<Rightarrow> s
           | Inr (cidr, overlaps) \<Rightarrow> sites_load (s\<lparr>si_subnet_for := None, si_notice := overlap_notice cidr overlaps\<rparr>)))"

definition sites_step :: "controller list \<Rightarrow> sites_event \<Rightarrow> sites_page \<Rightarrow> sites_page" where
  "sites_step controllers ev s =
     (case ev of
        SitesRead a \<Rightarrow>
          (case a of Inl msg \<Rightarrow> s\<lparr>si_error := Some msg\<rparr> | Inr (xs, n) \<Rightarrow> s\<lparr>si_sites := xs, si_unplaced := n\<rparr>)
      | NewSite \<Rightarrow> s\<lparr>si_adding := True\<rparr>
      | SubnetWanted x \<Rightarrow> (if x \<in> set (si_sites s) then s\<lparr>si_subnet_for := Some (st_name x)\<rparr> else s)
      | AssignWanted x \<Rightarrow> (if x \<in> set (si_sites s) then s\<lparr>si_assign_for := Some (st_name x)\<rparr> else s)
      | SiteDialogsClosed \<Rightarrow> s\<lparr>si_adding := False, si_subnet_for := None, si_assign_for := None\<rparr>
      | SiteRemoved x \<Rightarrow> (if x \<in> set (si_sites s) then site_ask SiteRemoval (Site_remove (st_name x)) s else s)
      | SubnetRemoved cidr \<Rightarrow>
          (if cidr \<in> set (concat (map st_subnets (si_sites s))) then site_ask SubnetRemoval (Site_removeSubnet cidr) s else s)
      | SiteTyped v d \<Rightarrow> (if si_adding s \<and> v \<noteq> [] then site_ask SiteAdding (Site_create (js_trim v) d) s else s)
      | SubnetTyped v d \<Rightarrow>
          (case si_subnet_for s of
             None \<Rightarrow> s
           | Some x \<Rightarrow> if v \<noteq> [] then site_ask SubnetAdding (Site_addSubnet (js_trim v) x d) s else s)
      | ControllerChosen c \<Rightarrow>
          (case si_assign_for s of
             None \<Rightarrow> s
           | Some x \<Rightarrow> if c \<in> set controllers then site_ask Assigning (Site_assign (ct_dn c) x (ct_fqdn c)) s else s)
      | SiteAnswered i a \<Rightarrow> (if length (si_works s) \<le> i then s else site_answered (si_works s ! i) a s))"

definition site_controllers :: "site \<Rightarrow> string" where
  "site_controllers x = (let t = join_with '', '' (st_controllers x) in if t \<noteq> [] then t else ''None assigned'')"

text \<open>The page around them: which tab is shown, what was read of the controllers, and the dialog of another one.\<close>

datatype (plugins only: code size) controllers_tab = ControllersShown | SitesShown | AgentsShown

record controllers_page =
  cp_tab :: controllers_tab
  cp_overview :: "controller list option"
  cp_adding :: bool
  cp_error :: "string option"
  cp_loads :: nat

definition controllers_open :: controllers_page where
  "controllers_open = \<lparr>cp_tab = ControllersShown, cp_overview = None, cp_adding = False, cp_error = None, cp_loads = 1\<rparr>"

datatype (plugins only: code size) controllers_event =
    ControllersAnswered "string + controller list"
  | ControllersRefreshed
  | ControllersTab controllers_tab
  | AddingController bool

definition controllers_step :: "controllers_event \<Rightarrow> controllers_page \<Rightarrow> controllers_page" where
  "controllers_step ev s =
     (case ev of
        ControllersAnswered a \<Rightarrow> (case a of Inl msg \<Rightarrow> s\<lparr>cp_error := Some msg\<rparr> | Inr cs \<Rightarrow> s\<lparr>cp_overview := Some cs\<rparr>)
      | ControllersRefreshed \<Rightarrow> s\<lparr>cp_error := None, cp_loads := Suc (cp_loads s)\<rparr>
      | ControllersTab t \<Rightarrow> s\<lparr>cp_tab := t\<rparr>
      | AddingController b \<Rightarrow> s\<lparr>cp_adding := b\<rparr>)"

definition controllers_offered :: "controllers_page \<Rightarrow> controller list" where
  "controllers_offered s = (case cp_overview s of None \<Rightarrow> [] | Some cs \<Rightarrow> cs)"

section \<open>Properties\<close>

text \<open>A built-in profile is never deleted, and what is deleted or no longer trusted was listed.\<close>

theorem built_in_profiles_stay:
  assumes "c \<in> set (pn_sent (fold profiles_step evs panel_open))"
  shows "\<exists>p. c = Call_ca (Ca_deleteProfile (ce_name p)) \<and> panel_listed evs p \<and> \<not> cf_built_in p \<and> PanelRemove p \<in> set evs"
  using profiles.removed_rows_were_listed [OF assms [unfolded profiles_step_def]] by (auto simp: delete_profile_def)

theorem trust_is_taken_from_listed_certificates:
  assumes "c \<in> set (pn_sent (fold trusted_step evs panel_open))"
  shows "\<exists>a. c = Call_ca (Ca_untrust (tx_id a)) \<and> panel_listed evs a \<and> PanelRemove a \<in> set evs"
  using trusted.removed_rows_were_listed [OF assms [unfolded trusted_step_def]] by (auto simp: untrust_def)

text \<open>A removal that is refused is never said to be: not of a profile, where nothing happens at all, nor of a certificate or of a
  site, a subnet or a role, where the page goes on as if it had been done.\<close>

theorem refused_server_removals_say_nothing:
  "pn_error (profiles_step (PanelRemoved (Some msg)) s) \<in> {None, pn_error s} \<and>
   pn_error (trusted_step (PanelRemoved (Some msg)) t) \<in> {None, pn_error t} \<and>
   site_answered SiteRemoval (Inl msg) u = site_answered SiteRemoval (Inr r) u \<and>
   site_answered Assigning (Inl msg) u = site_answered Assigning (Inr r) u \<and>
   roles_step (RoleRemovalDone (Some msg)) v = roles_step (RoleRemovalDone None) v"
  unfolding profiles_step_def trusted_step_def
  by (intro conjI profiles.refusal_says_nothing trusted.refusal_says_nothing) (simp_all add: site_answered_def roles_step_def)

text \<open>The core role is what a controller is: it is never offered to be installed, and a role is removed only where the question
  about it was answered with yes, on a server the page lists it on, and not twice while it is being removed.\<close>

definition roles_ok :: "roles_page \<Rightarrow> bool" where
  "roles_ok s \<longleftrightarrow> (\<forall>r. ro_installing s = Some r \<longrightarrow> \<not> rl_core r)"

lemma roles_ok_step: "roles_ok s \<Longrightarrow> roles_ok (roles_step ev s)"
  by (cases ev) (auto simp: roles_ok_def roles_step_def roles_load_def split: sum.split prod.split option.split nat.split)

theorem core_role_is_not_installed: "ro_installing (fold roles_step evs roles_open) = Some r \<Longrightarrow> \<not> rl_core r"
proof -
  have "roles_ok s \<Longrightarrow> roles_ok (fold roles_step evs s)" for s
    by (induction evs arbitrary: s) (simp_all add: roles_ok_step)
  from this [of roles_open] show "ro_installing (fold roles_step evs roles_open) = Some r \<Longrightarrow> \<not> rl_core r"
    by (simp add: roles_ok_def roles_open_def roles_load_def)
qed

theorem roles_are_removed_when_confirmed:
  assumes "ro_sent (roles_step ev s) \<noteq> ro_sent s"
  shows "\<exists>i. ev = RoleRemoved i True \<and> i \<in> set (ro_installed s) \<and> ri_state i \<notin> {''removing'', ''removed''} \<and>
             ro_sent (roles_step ev s) = ro_sent s @ [Call_roles (Role_remove (ri_id i))]"
  using assms
  by (cases ev)
     (auto simp: roles_step_def roles_load_def remove_pressed_def instances_shown_def nodesFor_def
           split: sum.splits prod.splits option.splits nat.splits if_splits)

text \<open>A subnet is added to the site its dialog names, which was listed, and a controller assigned to it is one of those offered.\<close>

definition site_named :: "sites_event list \<Rightarrow> string \<Rightarrow> bool" where
  "site_named evs n \<longleftrightarrow> (\<exists>xs k x. SitesRead (Inr (xs, k)) \<in> set evs \<and> x \<in> set xs \<and> st_name x = n)"

definition site_about :: "api_call \<Rightarrow> string option" where
  "site_about c =
     (case c of
        Call_sites (Site_addSubnet v n d) \<Rightarrow> Some n
      | Call_sites (Site_assign dn n fqdn) \<Rightarrow> Some n
      | Call_sites (Site_remove n) \<Rightarrow> Some n
      | _ \<Rightarrow> None)"

definition sites_ok :: "sites_event list \<Rightarrow> sites_page \<Rightarrow> bool" where
  "sites_ok evs s \<longleftrightarrow>
     (\<forall>x \<in> set (si_sites s). site_named evs (st_name x)) \<and>
     (\<forall>n. si_subnet_for s = Some n \<or> si_assign_for s = Some n \<longrightarrow> site_named evs n) \<and>
     (\<forall>c \<in> set (si_sent s). \<forall>n. site_about c = Some n \<longrightarrow> site_named evs n)"

lemma sites_ok_step:
  assumes "sites_ok all s" and "ev \<in> set all"
  shows "sites_ok all (sites_step cs ev s)"
proof (cases ev)
  case (SitesRead a)
  show ?thesis
  proof (cases a)
    case (Inr r)
    obtain xs k where r: "r = (xs, k)" by (cases r)
    with assms(2) SitesRead Inr have "\<forall>x \<in> set xs. site_named all (st_name x)" by (auto simp: site_named_def)
    with assms(1) SitesRead Inr r show ?thesis by (simp add: sites_step_def sites_ok_def)
  qed (use assms SitesRead in \<open>simp add: sites_step_def sites_ok_def\<close>)
next
  case (SiteAnswered i a)
  with assms show ?thesis
    by (auto simp: sites_step_def site_answered_def sites_load_def sites_ok_def split: site_work.split sum.split)
qed (use assms in \<open>auto simp: sites_step_def site_ask_def sites_ok_def site_about_def split: option.split\<close>)

theorem sites_asked_about_were_listed:
  assumes "c \<in> set (si_sent (fold (sites_step cs) evs sites_open))" and "site_about c = Some n"
  shows "\<exists>xs k x. SitesRead (Inr (xs, k)) \<in> set evs \<and> x \<in> set xs \<and> st_name x = n"
proof -
  have run: "sites_ok all s \<Longrightarrow> set es \<subseteq> set all \<Longrightarrow> sites_ok all (fold (sites_step cs) es s)" for all es s
    by (induction es arbitrary: s) (simp_all add: sites_ok_step)
  have "sites_ok evs sites_open" by (simp add: sites_ok_def sites_open_def sites_load_def)
  from run [OF this, of evs] have "sites_ok evs (fold (sites_step cs) evs sites_open)" by simp
  with assms have "site_named evs n" unfolding sites_ok_def by blast
  then show ?thesis by (simp add: site_named_def)
qed

end
