(* ===== verification/OverviewPage.thy ===== *)
theory OverviewPage
  imports Overview
begin

text \<open>
  The page over \<open>Overview\<close> (\<^verbatim>\<open>pages/Overview.tsx\<close>): its tabs and what each of them reads, replication on demand, a backup taken now
  and followed while it runs, and the security baseline. Reading is a closure over the tab it was made in, so that an answer
  fills the tab it was asked for.
\<close>

section \<open>The page\<close>

datatype (plugins only: code size) overview_tab = HealthTab | ReplicationTab | BackupsTab | BaselineTab | ConfigurationTab

record inbound =
  in_context :: string
  in_partner :: string
  in_succeeded :: bool
  in_failures :: nat

record replication =
  re_server :: string
  re_controllers :: "string list"
  re_inbound :: "inbound list"

record backups =
  bk_configured :: bool
  bk_states :: "string list"

record overview_page =
  ov_tab :: overview_tab
  ov_report :: "health_report option"
  ov_replication :: "replication option"
  ov_backups :: "backups option"
  ov_error :: "string option"
  ov_notice :: "string option"
  ov_loads :: "overview_tab list"
  ov_replicating :: "string list"
  ov_sent :: "api_call list"

definition tab_read :: "overview_tab \<Rightarrow> operations_call option" where
  "tab_read t =
     (case t of
        HealthTab \<Rightarrow> Some Ops_health
      | ReplicationTab \<Rightarrow> Some Ops_replication
      | BackupsTab \<Rightarrow> Some Ops_backups
      | BaselineTab \<Rightarrow> None
      | ConfigurationTab \<Rightarrow> None)"

definition overview_load :: "overview_tab \<Rightarrow> overview_page \<Rightarrow> overview_page" where
  "overview_load t s =
     (case tab_read t of
        None \<Rightarrow> s\<lparr>ov_error := None\<rparr>
      | Some c \<Rightarrow> s\<lparr>ov_error := None, ov_loads := ov_loads s @ [t], ov_sent := ov_sent s @ [Call_operations c]\<rparr>)"

definition overview_open :: overview_page where
  "overview_open =
     overview_load HealthTab \<lparr>ov_tab = HealthTab, ov_report = None, ov_replication = None, ov_backups = None, ov_error = None,
       ov_notice = None, ov_loads = [], ov_replicating = [], ov_sent = []\<rparr>"

datatype (plugins only: code size) overview_answer = HealthAnswer health_report | ReplicationAnswer replication | BackupsAnswer backups

datatype (plugins only: code size) overview_event =
    OverviewAnswered nat "string + overview_answer"
  | OverviewTab overview_tab
  | OverviewRefreshed
  | OverviewTimer
  | ReplicatePressed inbound
  | ReplicateDone nat "string option"
  | BackUpPressed
  | BackUpDone "string option"

definition answer_fills :: "overview_tab \<Rightarrow> overview_answer \<Rightarrow> overview_page \<Rightarrow> overview_page" where
  "answer_fills t a s =
     (case (t, a) of
        (HealthTab, HealthAnswer r) \<Rightarrow> s\<lparr>ov_report := Some r\<rparr>
      | (ReplicationTab, ReplicationAnswer r) \<Rightarrow> s\<lparr>ov_replication := Some r\<rparr>
      | (BackupsTab, BackupsAnswer b) \<Rightarrow> s\<lparr>ov_backups := Some b\<rparr>
      | _ \<Rightarrow> s)"

definition backup_runs :: "overview_page \<Rightarrow> bool" where
  "backup_runs s \<longleftrightarrow> ov_tab s = BackupsTab \<and> (case ov_backups s of None \<Rightarrow> False | Some b \<Rightarrow> follows_backup (bk_states b))"

definition overview_step :: "overview_event \<Rightarrow> overview_page \<Rightarrow> overview_page" where
  "overview_step ev s =
     (case ev of
        OverviewAnswered i a \<Rightarrow>
          (if length (ov_loads s) \<le> i then s
           else (case a of Inl msg \<Rightarrow> s\<lparr>ov_error := Some msg\<rparr> | Inr r \<Rightarrow> answer_fills (ov_loads s ! i) r s))
      | OverviewTab t \<Rightarrow> (if t = ov_tab s then s else overview_load t (s\<lparr>ov_tab := t\<rparr>))
      | OverviewRefreshed \<Rightarrow> overview_load (ov_tab s) s
      | OverviewTimer \<Rightarrow> (if backup_runs s then overview_load BackupsTab s else s)
      | ReplicatePressed e \<Rightarrow>
          (case ov_replication s of
             None \<Rightarrow> s
           | Some r \<Rightarrow>
               if ov_tab s = ReplicationTab \<and> e \<in> set (re_inbound r)
               then s\<lparr>ov_notice := None, ov_error := None, ov_replicating := ov_replicating s @ [in_context e],
                      ov_sent := ov_sent s @ [replicate_now (re_server r) (in_partner e) (in_context e)]\<rparr>
               else s)
      | ReplicateDone i failure \<Rightarrow>
          (if length (ov_replicating s) \<le> i then s
           else (case failure of
                   Some msg \<Rightarrow> s\<lparr>ov_error := Some msg\<rparr>
                 | None \<Rightarrow> overview_load ReplicationTab (s\<lparr>ov_notice := Some (''Replicated '' @ ov_replicating s ! i @ ''.'')\<rparr>)))
      | BackUpPressed \<Rightarrow>
          (case ov_backups s of
             None \<Rightarrow> s
           | Some b \<Rightarrow>
               if ov_tab s = BackupsTab \<and> bk_configured b
               then s\<lparr>ov_notice := None, ov_sent := ov_sent s @ [Call_operations Ops_takeBackup]\<rparr> else s)
      | BackUpDone failure \<Rightarrow>
          (case failure of
             Some msg \<Rightarrow> s\<lparr>ov_error := Some msg\<rparr>
           | None \<Rightarrow> s\<lparr>ov_notice := Some ''Backup started. It appears below when it finishes.''\<rparr>))"

definition inbound_state :: "inbound \<Rightarrow> string" where
  "inbound_state e = (if in_succeeded e then ''ok'' else show_nat (in_failures e) @ '' failures'')"

definition inbound_heading :: "replication \<Rightarrow> string" where
  "inbound_heading r =
     (if length (re_controllers r) < 2 then ''Inbound replication'' else ''Inbound replication on '' @ re_server r)"

definition inbound_empty :: "replication \<Rightarrow> string option" where
  "inbound_empty r =
     (if re_inbound r \<noteq> [] then None
      else Some (if length (re_controllers r) < 2
                 then ''One controller. Nothing to replicate '' @ em_dash @ '' add a second under Domain Controllers.''
                 else ''No inbound partnerships.''))"

section \<open>The security baseline\<close>

record baseline_check =
  bc_key :: string
  bc_severity :: string
  bc_detail :: "string list"

record baseline_tab =
  bl_report :: "baseline_check list option"
  bl_loading :: bool
  bl_error :: "string option"
  bl_open :: "string set"

definition baseline_open :: baseline_tab where
  "baseline_open = \<lparr>bl_report = None, bl_loading = True, bl_error = None, bl_open = {}\<rparr>"

datatype (plugins only: code size) baseline_event = BaselineRead "string + baseline_check list" | CheckClicked string

text \<open>It is read once, when the tab is opened: nothing reads it again.\<close>

definition baseline_step :: "baseline_event \<Rightarrow> baseline_tab \<Rightarrow> baseline_tab" where
  "baseline_step ev s =
     (case ev of
        BaselineRead a \<Rightarrow>
          (if \<not> bl_loading s then s
           else (case a of
                   Inl msg \<Rightarrow> s\<lparr>bl_error := Some msg, bl_loading := False\<rparr>
                 | Inr cs \<Rightarrow> s\<lparr>bl_report := Some cs, bl_loading := False\<rparr>))
      | CheckClicked k \<Rightarrow>
          (case bl_report s of
             None \<Rightarrow> s
           | Some cs \<Rightarrow> if bl_error s = None \<and> k \<in> bc_key ` set cs then s\<lparr>bl_open := check_clicked k (bl_open s)\<rparr> else s))"

definition check_shown :: "baseline_tab \<Rightarrow> baseline_check \<Rightarrow> string" where
  "check_shown s c =
     (if bc_detail c = [] then [] else if bc_key c \<in> bl_open s then join_with [CHR 0x0A] (bc_detail c) else ''Click to see which.'')"

section \<open>Properties\<close>

lemma answer_keeps [simp]:
  "ov_sent (answer_fills t a s) = ov_sent s" "ov_loads (answer_fills t a s) = ov_loads s" "ov_notice (answer_fills t a s) = ov_notice s"
  by (cases t; cases a; simp add: answer_fills_def)+

lemma answer_fills_report: "ov_report (answer_fills t a s) \<noteq> ov_report s \<Longrightarrow> t = HealthTab"
  by (cases t; cases a; simp add: answer_fills_def)

lemma load_sent:
  "ov_sent (overview_load t s) = ov_sent s @ (case tab_read t of None \<Rightarrow> [] | Some c \<Rightarrow> [Call_operations c])"
  by (simp add: overview_load_def split: option.split)

lemma tab_reads_nothing_else: "Some (Ops_replicate server host context) \<noteq> tab_read t"
  by (cases t) (simp_all add: tab_read_def)

text \<open>Replication is asked for between the server that answered and a partner it listed, by the button of its row.\<close>

theorem replication_is_of_a_listed_partner:
  assumes "Call_operations (Ops_replicate server host context) \<in> set (ov_sent (overview_step ev s))"
  shows "Call_operations (Ops_replicate server host context) \<in> set (ov_sent s) \<or>
         (\<exists>r e. ev = ReplicatePressed e \<and> ov_replication s = Some r \<and> e \<in> set (re_inbound r) \<and> re_server r = server \<and>
                partner_host (in_partner e) = host \<and> in_context e = context)"
  using assms
  by (cases ev)
     (auto simp: overview_step_def load_sent tab_reads_nothing_else replicate_now_def split: sum.splits option.splits if_splits)

text \<open>An answer fills the tab it was asked for, whatever tab is shown when it comes, and a tab keeps what it had when its reading
  fails.\<close>

theorem answers_fill_their_own_tab:
  "ov_report (overview_step (OverviewAnswered i (Inr r)) s) \<noteq> ov_report s \<Longrightarrow> i < length (ov_loads s) \<and> ov_loads s ! i = HealthTab"
  using answer_fills_report [of "ov_loads s ! i" r s] by (auto simp: overview_step_def split: if_splits)

theorem failed_reading_keeps_what_was_read:
  "let t = overview_step (OverviewAnswered i (Inl msg)) s
   in ov_report t = ov_report s \<and> ov_replication t = ov_replication s \<and> ov_backups t = ov_backups s"
  by (simp add: overview_step_def)

text \<open>A backup that was started from the page is not followed: as long as no backup was running when the list was read, the
  timer reads nothing, and neither does the start.\<close>

theorem started_backup_is_not_followed:
  assumes "\<not> backup_runs s" and "\<forall>ev \<in> set evs. ev \<in> {BackUpPressed, OverviewTimer, BackUpDone None}"
  shows "ov_loads (fold overview_step evs s) = ov_loads s \<and> ov_backups (fold overview_step evs s) = ov_backups s"
  using assms
proof (induction evs arbitrary: s)
  case (Cons ev evs)
  let ?t = "overview_step ev s"
  from Cons.prems(2) consider "ev = BackUpPressed" | "ev = OverviewTimer" | "ev = BackUpDone None" by auto
  then have "ov_loads ?t = ov_loads s \<and> ov_backups ?t = ov_backups s \<and> ov_tab ?t = ov_tab s"
    using Cons.prems(1) by cases (simp_all add: overview_step_def split: option.split)
  moreover from this have "\<not> backup_runs ?t" using Cons.prems(1) by (simp add: backup_runs_def)
  ultimately show ?case using Cons.IH [of ?t] Cons.prems(2) by simp
qed simp

text \<open>A notice stays while the tabs are changed: that a partner was replicated is still said over the health of the domain.\<close>

theorem notices_outlive_their_tab:
  assumes "\<forall>ev \<in> set evs. \<exists>t. ev = OverviewTab t"
  shows "ov_notice (fold overview_step evs s) = ov_notice s"
  using assms
proof (induction evs arbitrary: s)
  case (Cons ev evs)
  then have "ov_notice (overview_step ev s) = ov_notice s"
    by (auto simp: overview_step_def overview_load_def split: option.split)
  with Cons show ?case by simp
qed simp

text \<open>A baseline that could not be read is never read again.\<close>

theorem failed_baseline_stays_failed:
  "bl_error (fold baseline_step (BaselineRead (Inl msg) # evs) baseline_open) = Some msg"
proof -
  have "bl_error s = Some msg \<and> \<not> bl_loading s \<Longrightarrow> bl_error (fold baseline_step evs s) = Some msg" for s
  proof (induction evs arbitrary: s)
    case (Cons ev evs)
    then have "bl_error (baseline_step ev s) = Some msg \<and> \<not> bl_loading (baseline_step ev s)"
      by (auto simp: baseline_step_def split: baseline_event.split option.split)
    with Cons.IH show ?case by simp
  qed simp
  then show ?thesis by (simp add: baseline_step_def baseline_open_def)
qed

end
