(* ===== verification/Charts.thy ===== *)
theory Charts
  imports Monitoring
begin

text \<open>
  What a dashboard is drawn from (\<^verbatim>\<open>components/monitor/Dashboard.tsx\<close>): the columns of a chart, aligned onto one axis, the
  names of its series and the rows of the other widgets; the screen of a dashboard that is shared (\<^verbatim>\<open>pages/MonitorView.tsx\<close>);
  and the page around the tabs of the monitoring (\<^verbatim>\<open>pages/Monitor.tsx\<close>). The plot itself is a library's.
\<close>

section \<open>Charts\<close>

record series =
  sr_host :: string
  sr_metric :: string
  sr_points :: "(int \<times> rat) list"

text \<open>One axis for all series: the union of their stamps, in order. A column has a place for each stamp; \<open>index\<close> is the map from a
  stamp to its place.\<close>

definition chart_stamps :: "series list \<Rightarrow> int list" where
  "chart_stamps ss = sort (remdups (concat (map (\<lambda>s. map fst (sr_points s)) ss)))"

definition chart_index :: "int list \<Rightarrow> int \<Rightarrow> nat option" where
  "chart_index stamps t = map_of (zip stamps [0..<length stamps]) t"

fun chart_fill :: "int list \<Rightarrow> (int \<times> rat) list \<Rightarrow> rat option list \<Rightarrow> rat option list" where
  "chart_fill stamps [] column = column"
| "chart_fill stamps ((t, v) # ps) column =
     chart_fill stamps ps (case chart_index stamps t of None \<Rightarrow> column | Some i \<Rightarrow> column[i := Some v])"

definition chart_column :: "int list \<Rightarrow> series \<Rightarrow> rat option list" where
  "chart_column stamps s = chart_fill stamps (sr_points s) (replicate (length stamps) None)"

definition chart_columns :: "series list \<Rightarrow> rat option list list" where
  "chart_columns ss = map (chart_column (chart_stamps ss)) ss"

text \<open>An address stays whole; a name loses its domain.\<close>

definition shortHost :: "string \<Rightarrow> string" where
  "shortHost host =
     (let parts = split_on (CHR ''.'') host in
      if length parts = 4 \<and> list_all (\<lambda>p. p \<noteq> [] \<and> list_all is_digit p) parts then host else hd parts)"

definition metric_part :: "string \<Rightarrow> string option" where
  "metric_part metric =
     (if CHR '':'' \<in> set metric then Some (join_with '':'' (tl (split_on (CHR '':'') metric))) else None)"

definition series_label :: "series list \<Rightarrow> series \<Rightarrow> string" where
  "series_label ss s =
     (if list_all (\<lambda>x. sr_host x = sr_host s) ss
      then (case metric_part (sr_metric s) of Some p \<Rightarrow> p | None \<Rightarrow> shortHost (sr_host s))
      else (case metric_part (sr_metric s) of
              Some p \<Rightarrow> shortHost (sr_host s) @ '' '' @ p
            | None \<Rightarrow> shortHost (sr_host s)))"

definition PALETTE :: "string list" where
  "PALETTE = [''#4f46e5'', ''#0891b2'', ''#16a34a'', ''#d97706'', ''#dc2626'', ''#7c3aed'', ''#0d9488'', ''#be185d'']"

definition series_colour :: "nat \<Rightarrow> string" where
  "series_colour i = PALETTE ! (i mod length PALETTE)"

definition legend_shown :: "series list \<Rightarrow> bool" where
  "legend_shown ss \<longleftrightarrow> length ss \<le> 8"

section \<open>The other widgets\<close>

definition stat_cell :: "string \<Rightarrow> string \<times> string \<times> rat \<Rightarrow> string \<times> string" where
  "stat_cell unit e =
     (case e of (host, metric, v) \<Rightarrow>
        (formatValue (Some v) unit, shortHost host @ (case metric_part metric of Some p \<Rightarrow> '' '' @ p | None \<Rightarrow> [])))"

record monitored =
  mh_host :: string
  mh_up :: bool
  mh_probe_only :: bool
  mh_age :: rat
  mh_metrics :: "(string \<times> rat) list"
  mh_disks :: "(string \<times> rat) list"

definition degrees :: string where
  "degrees = [CHR 0xC2, CHR 0xB0] @ ''C''"

definition host_row :: "monitored \<Rightarrow> string list" where
  "host_row h =
     [shortHost (mh_host h), formatValue (map_of (mh_metrics h) ''cpu_percent'') ''%'', formatValue (map_of (mh_metrics h) ''mem_percent'') ''%'',
      formatValue (map_of (mh_disks h) ''/'') ''%'', formatValue (map_of (mh_metrics h) ''temp_c'') degrees,
      (if mh_up h then ''now'' else show_int \<lfloor>mh_age h / 60 + 1 / 2\<rfloor> @ '' min ago'')]"

definition host_rows :: "monitored list \<Rightarrow> string list list" where
  "host_rows hs = map host_row (filter (\<lambda>h. \<not> mh_probe_only h) hs)"

definition alert_text :: "string \<Rightarrow> string \<Rightarrow> bool \<Rightarrow> string" where
  "alert_text rule message suppressed =
     rule @ '' '' @ em_dash @ '' '' @ message @ (if suppressed then '' (maintenance)'' else [])"

definition widget_height :: "widget \<Rightarrow> nat" where
  "widget_height w = (if w_h w = 1 then 120 else if w_h w = 2 then 220 else 340)"

definition widget_title :: "widget \<Rightarrow> string" where
  "widget_title w =
     (if w_title w \<noteq> [] then w_title w else if w_metric w \<noteq> [] then fst (metricMeta (w_metric w)) else w_type w)"

text \<open>What a widget says when there is nothing to draw; a text says what it was given, and a type that is not known, nothing.\<close>

definition widget_empty :: "widget \<Rightarrow> string option" where
  "widget_empty w =
     (if w_type w = ''chart'' \<or> w_type w = ''stat'' then Some ''No data yet.''
      else if w_type w = ''hosts'' then Some ''No machine has reported yet.''
      else if w_type w = ''alerts'' then Some ''Nothing is firing.''
      else if w_type w = ''text'' then Some (w_text w) else None)"

section \<open>A screen on a wall\<close>

record wall =
  wl_dashboard :: "(string \<times> widget list) option"
  wl_error :: "string option"
  wl_updated :: "int option"
  wl_loads :: nat

definition wall_open :: wall where
  "wall_open = \<lparr>wl_dashboard = None, wl_error = None, wl_updated = None, wl_loads = 1\<rparr>"

text \<open>The milliseconds between two readings.\<close>

definition WALL_EVERY :: nat where
  "WALL_EVERY = 15000"

datatype (plugins only: code size) wall_event =
    WallAnswered int "(nat \<times> string) + string \<times> widget list"
  | WallTimer

definition wall_step :: "wall_event \<Rightarrow> wall \<Rightarrow> wall" where
  "wall_step ev s =
     (case ev of
        WallAnswered now a \<Rightarrow>
          (case a of
             Inl (code, words) \<Rightarrow>
               s\<lparr>wl_error := Some (if code = 404 then ''This dashboard is not shared, or the link has been withdrawn.'' else words)\<rparr>
           | Inr d \<Rightarrow> s\<lparr>wl_dashboard := Some d, wl_updated := Some now, wl_error := None\<rparr>)
      | WallTimer \<Rightarrow> s\<lparr>wl_loads := Suc (wl_loads s)\<rparr>)"

section \<open>The page of the monitoring\<close>

record monitor_overview =
  mo_active :: bool
  mo_hosts :: nat
  mo_down :: nat
  mo_critical :: nat
  mo_warning :: nat

record monitor_page =
  mn_tab :: "string option"
  mn_overview :: "monitor_overview option"
  mn_error :: "string option"
  mn_loads :: nat

definition MONITOR_TABS :: "string list" where
  "MONITOR_TABS = [''dashboards'', ''hosts'', ''alerts'', ''rules'', ''channels'', ''maintenance'', ''probes'']"

definition monitor_open :: "string option \<Rightarrow> monitor_page" where
  "monitor_open tab = \<lparr>mn_tab = tab, mn_overview = None, mn_error = None, mn_loads = 1\<rparr>"

datatype (plugins only: code size) monitor_event =
    OverviewArrived "string + monitor_overview"
  | MonitorLive
  | MonitorTab string

definition monitor_step :: "monitor_event \<Rightarrow> monitor_page \<Rightarrow> monitor_page" where
  "monitor_step ev s =
     (case ev of
        OverviewArrived a \<Rightarrow> (case a of Inl msg \<Rightarrow> s\<lparr>mn_error := Some msg\<rparr> | Inr r \<Rightarrow> s\<lparr>mn_overview := Some r, mn_error := None\<rparr>)
      | MonitorLive \<Rightarrow> s\<lparr>mn_loads := Suc (mn_loads s)\<rparr>
      | MonitorTab t \<Rightarrow> (if t \<in> set MONITOR_TABS then s\<lparr>mn_tab := Some t\<rparr> else s))"

text \<open>The address says which tab is shown; without one it is the first. What is no tab shows none.\<close>

definition monitor_tab :: "monitor_page \<Rightarrow> string" where
  "monitor_tab s = (case mn_tab s of None \<Rightarrow> ''dashboards'' | Some t \<Rightarrow> if t = [] then ''dashboards'' else t)"

definition monitor_stats :: "monitor_page \<Rightarrow> (string \<times> nat \<times> bool) list" where
  "monitor_stats s =
     (case mn_overview s of
        None \<Rightarrow> []
      | Some r \<Rightarrow>
          if mo_active r
          then [(''Machines reporting'', mo_hosts r, False), (''Not heard from'', mo_down r, mo_down r \<noteq> 0),
                (''Critical alerts'', mo_critical r, mo_critical r \<noteq> 0), (''Warnings'', mo_warning r, False)]
          else [])"

section \<open>Lemmas\<close>

lemma length_chart_fill [simp]: "length (chart_fill stamps ps column) = length column"
  by (induction stamps ps column rule: chart_fill.induct) (simp_all split: option.split)

lemma chart_index_nth:
  assumes "distinct stamps" and "i < length stamps"
  shows "chart_index stamps t = Some i \<longleftrightarrow> stamps ! i = t"
proof -
  have d: "distinct (map fst (zip stamps [0..<length stamps]))" using assms(1) by simp
  show ?thesis
    unfolding chart_index_def map_of_eq_Some_iff [OF d] using assms by (auto simp: set_zip nth_eq_iff_index_eq)
qed

lemma chart_index_found:
  assumes "distinct stamps" and "t \<in> set stamps"
  shows "\<exists>i < length stamps. chart_index stamps t = Some i \<and> stamps ! i = t"
  using assms chart_index_nth by (metis in_set_conv_nth)

lemma chart_fill_nth:
  assumes "distinct stamps" and "fst ` set ps \<subseteq> set stamps" and "length column = length stamps" and "i < length stamps"
  shows "chart_fill stamps ps column ! i = (case map_of (rev ps) (stamps ! i) of None \<Rightarrow> column ! i | Some v \<Rightarrow> Some v)"
  using assms(2,3)
proof (induction ps arbitrary: column)
  case (Cons p ps)
  obtain t v where p: "p = (t, v)" by (cases p)
  with Cons.prems(1) obtain j where j: "j < length stamps" "chart_index stamps t = Some j" "stamps ! j = t"
    using chart_index_found [OF assms(1), of t] by auto
  have same: "stamps ! i = t \<longleftrightarrow> i = j" using j assms(1,4) nth_eq_iff_index_eq by blast
  have "chart_fill stamps (p # ps) column ! i = chart_fill stamps ps (column[j := Some v]) ! i" using p j by simp
  also have "\<dots> = (case map_of (rev ps) (stamps ! i) of None \<Rightarrow> column[j := Some v] ! i | Some w \<Rightarrow> Some w)"
    by (rule Cons.IH) (use Cons.prems in auto)
  also have "\<dots> = (case map_of (rev (p # ps)) (stamps ! i) of None \<Rightarrow> column ! i | Some w \<Rightarrow> Some w)"
    using p same j(1) Cons.prems(2) by (auto simp: map_add_def nth_list_update split: option.split)
  finally show ?case .
qed simp

lemma set_chart_stamps: "set (chart_stamps ss) = (\<Union>s \<in> set ss. fst ` set (sr_points s))"
  by (auto simp: chart_stamps_def)

section \<open>Properties\<close>

definition reference_column :: "int list \<Rightarrow> series \<Rightarrow> rat option list" where
  "reference_column axis s = map (map_of (rev (sr_points s))) axis"

definition reference_axis :: "series list \<Rightarrow> int list" where
  "reference_axis ss = sorted_list_of_set (\<Union>s \<in> set ss. fst ` set (sr_points s))"

text \<open>C37: The columns of a chart are those of a reference: the axis has every stamp of every series once, in order, and a series has at
  each stamp the last of its values there, or a gap where it has none.\<close>

theorem charts_are_aligned:
  "chart_stamps ss = reference_axis ss \<and> chart_columns ss = map (reference_column (reference_axis ss)) ss"
proof -
  have axis: "chart_stamps ss = reference_axis ss"
    unfolding reference_axis_def set_chart_stamps [symmetric]
    by (rule sorted_distinct_set_unique) (simp_all add: chart_stamps_def)
  have "chart_column (chart_stamps ss) s = reference_column (chart_stamps ss) s" if s: "s \<in> set ss" for s
  proof (rule nth_equalityI)
    show "length (chart_column (chart_stamps ss) s) = length (reference_column (chart_stamps ss) s)"
      by (simp add: chart_column_def reference_column_def)
    fix i
    assume "i < length (chart_column (chart_stamps ss) s)"
    then have i: "i < length (chart_stamps ss)" by (simp add: chart_column_def)
    have "distinct (chart_stamps ss)" "fst ` set (sr_points s) \<subseteq> set (chart_stamps ss)"
      using s unfolding set_chart_stamps by (auto simp: chart_stamps_def)
    from chart_fill_nth [OF this _ i, of "replicate (length (chart_stamps ss)) None"] i
    show "chart_column (chart_stamps ss) s ! i = reference_column (chart_stamps ss) s ! i"
      by (simp add: chart_column_def reference_column_def split: option.split)
  qed
  with axis show ?thesis by (simp add: chart_columns_def)
qed

text \<open>Two series of one chart can have one name: of two machines whose names differ only in their domain.\<close>

theorem series_of_two_domains_share_a_name:
  assumes "CHR ''.'' \<notin> set name" and "a \<noteq> b" and "CHR '':'' \<notin> set metric"
    and "length (split_on (CHR ''.'') (name @ CHR ''.'' # a)) \<noteq> 4" and "length (split_on (CHR ''.'') (name @ CHR ''.'' # b)) \<noteq> 4"
  shows "let x = \<lparr>sr_host = name @ CHR ''.'' # a, sr_metric = metric, sr_points = p\<rparr>;
             y = \<lparr>sr_host = name @ CHR ''.'' # b, sr_metric = metric, sr_points = q\<rparr>
         in series_label [x, y] x = name \<and> series_label [x, y] y = name"
proof -
  have "hd (split_on (CHR ''.'') (name @ CHR ''.'' # t)) = name" for t
    using assms(1) by (simp add: split_append_sep)
  with assms(3-5) show ?thesis by (simp add: series_label_def shortHost_def metric_part_def Let_def)
qed

text \<open>Eight colours and no more: the ninth series is drawn in the first's.\<close>

theorem colours_come_round: "series_colour (i + 8) = series_colour i"
  by (simp add: series_colour_def PALETTE_def)

text \<open>A dashboard whose link was withdrawn stays on the screen with what it last showed, under the sentence that it is not shared.\<close>

theorem withdrawn_dashboard_stays_shown:
  assumes "\<forall>ev \<in> set evs. \<forall>now d. ev \<noteq> WallAnswered now (Inr d)" and "wl_dashboard s = Some d"
  shows "wl_dashboard (fold wall_step (WallAnswered now (Inl (404, words)) # evs) s) = Some d \<and>
         wl_error (fold wall_step (WallAnswered now (Inl (404, words)) # evs) s) \<noteq> None"
proof -
  have "wl_dashboard t = Some d \<and> wl_error t \<noteq> None \<Longrightarrow> wl_dashboard (fold wall_step evs t) = Some d \<and> wl_error (fold wall_step evs t) \<noteq> None" for t
    using assms(1)
  proof (induction evs arbitrary: t)
    case (Cons ev evs)
    then have "wl_dashboard (wall_step ev t) = Some d \<and> wl_error (wall_step ev t) \<noteq> None"
      by (cases ev) (auto simp: wall_step_def split: sum.split)
    with Cons show ?case by simp
  qed simp
  with assms(2) show ?thesis by (simp add: wall_step_def)
qed

text \<open>The tab shown is one of the seven, unless the address names another.\<close>

theorem tab_shown_is_a_tab:
  assumes "monitor_tab (monitor_open tab) \<in> set MONITOR_TABS"
  shows "monitor_tab (fold monitor_step evs (monitor_open tab)) \<in> set MONITOR_TABS"
proof -
  have "monitor_tab s \<in> set MONITOR_TABS \<Longrightarrow> monitor_tab (fold monitor_step evs s) \<in> set MONITOR_TABS" for s
  proof (induction evs arbitrary: s)
    case (Cons ev evs)
    have "monitor_tab (monitor_step ev s) \<in> set MONITOR_TABS"
      using Cons.prems by (cases ev) (auto simp: monitor_step_def monitor_tab_def MONITOR_TABS_def split: sum.split)
    with Cons.IH show ?case by simp
  qed simp
  from this [OF assms] show ?thesis .
qed

end
