(* ===== verification/PolicyFields.thy ===== *)
theory PolicyFields
  imports SettingEditors SettingsTree
begin

text \<open>
  What surrounds the single editors of \<^verbatim>\<open>SettingsEditor.tsx\<close>: which editor is drawn for the setting that is selected in the tree,
  and the fields that keep a state of their own, the certificate filled in from the domain's authority, the places chosen on
  a share, the text of JSON and a file too large to be read byte by byte. \<open>JSON.parse\<close> is a parameter.
\<close>

section \<open>The editor of the selected setting\<close>

datatype (plugins only: code size) editor_shown = ShowsRows category_spec | ShowsSingle string

text \<open>The comparisons with \<open>selected\<close>, in the order they are written.\<close>

definition EDITORS :: "string list" where
  "EDITORS =
     [''updates'', ''login_screen'', ''always_on_vpn'', ''certificates'', ''local_administrator'', ''graphics_drivers'', ''grub'', ''agent_update'',
      ''remote_desktop_session'', ''local_password_policy'', ''roaming_profile'', ''power'', ''screen_lock'', ''regional'', ''firefox_policy'',
      ''chromium_policy'', ''computer_names'', ''device_control'', ''password_manager'', ''firmware_updates'', ''removable_storage'',
      ''desktop_theme'', ''second_factor'', ''software_control'', ''first_run'', ''fonts'', ''custom_packages'', ''wallpaper'', ''browser'',
      ''admx'']"

definition editors_shown :: "string \<Rightarrow> editor_shown list" where
  "editors_shown selected =
     (case find (\<lambda>c. categoryId c = selected) CATEGORIES of None \<Rightarrow> [] | Some c \<Rightarrow> [ShowsRows c]) @
     map ShowsSingle (filter (\<lambda>k. k = selected) EDITORS)"

record settings_view =
  sv_selected :: string
  sv_folders :: jsobj

text \<open>What is stored of the folders is read once; what cannot be read, or is empty, is as if nothing had been stored.\<close>

definition recallOpenFolders :: "(string \<Rightarrow> jsobj option) \<Rightarrow> string option \<Rightarrow> jsobj" where
  "recallOpenFolders parse stored =
     (case stored of
        None \<Rightarrow> []
      | Some t \<Rightarrow> if t = [] then [] else (case parse t of None \<Rightarrow> [] | Some ps \<Rightarrow> ps))"

definition view_open :: "(string \<Rightarrow> jsobj option) \<Rightarrow> string option \<Rightarrow> settings_view" where
  "view_open parse stored = \<lparr>sv_selected = categoryId (hd CATEGORIES), sv_folders = recallOpenFolders parse stored\<rparr>"

datatype (plugins only: code size) view_event = EntrySelected string | FolderToggled string bool

definition view_step :: "jsobj \<Rightarrow> view_event \<Rightarrow> settings_view \<Rightarrow> settings_view" where
  "view_step settings ev s =
     (case ev of
        EntrySelected k \<Rightarrow> (if k \<in> te_key ` set (tree_shown settings) then s\<lparr>sv_selected := k\<rparr> else s)
      | FolderToggled name is_open \<Rightarrow> s\<lparr>sv_folders := toggleFolder name is_open (sv_folders s)\<rparr>)"

section \<open>Fields with a state of their own\<close>

record certificate_field =
  cd_value :: string
  cd_busy :: bool
  cd_error :: "string option"

datatype (plugins only: code size) certificate_event =
    CertificateTyped string
  | RootPressed
  | RootArrived "(nat option \<times> string) + string"

text \<open>A refusal is the status of an answer, where there was one, and its words. Typing goes on while the root is fetched.\<close>

definition certificate_step :: "certificate_event \<Rightarrow> certificate_field \<Rightarrow> certificate_field" where
  "certificate_step ev s =
     (case ev of
        CertificateTyped t \<Rightarrow> s\<lparr>cd_value := t\<rparr>
      | RootPressed \<Rightarrow> (if cd_busy s then s else s\<lparr>cd_busy := True, cd_error := None\<rparr>)
      | RootArrived a \<Rightarrow>
          (if \<not> cd_busy s then s
           else (case a of
                   Inr pem \<Rightarrow> s\<lparr>cd_value := js_trim pem @ [CHR 0x0A], cd_busy := False\<rparr>
                 | Inl (code, words) \<Rightarrow>
                     s\<lparr>cd_error := Some (if code = Some 404 then ''This domain has no certificate authority yet.'' else words),
                       cd_busy := False\<rparr>)))"

text \<open>A place chosen on a share: as the start of an address a picture is read from, and as the directory of everybody's profile.\<close>

definition picture_location :: "string \<Rightarrow> string" where
  "picture_location unc = ''smb:'' @ unc @ ''/''"

definition profile_path :: "string \<Rightarrow> string" where
  "profile_path unc = unc @ ''/%username%''"

definition picture_shown :: "string \<Rightarrow> string \<times> bool" where
  "picture_shown v =
     (if js_startsWith v ''data:image/'' then (''Uploaded picture'', True) else (v, False))"

text \<open>The text of an object is its own until it is left; only what can be read is taken.\<close>

definition json_left :: "(string \<Rightarrow> jsval option) \<Rightarrow> string \<Rightarrow> jsval option" where
  "json_left parse t = parse (if t = [] then ''{}'' else t)"

text \<open>What follows the first comma of a data address, or all of it where there is none.\<close>

definition after_comma :: "string \<Rightarrow> string" where
  "after_comma result = (if CHR '','' \<in> set result then tl (dropWhile (\<lambda>c. c \<noteq> CHR '','') result) else result)"

section \<open>Properties\<close>

definition one_editor :: "string \<Rightarrow> bool" where
  "one_editor k \<longleftrightarrow> length (editors_shown k) = 1"

lemma editors_of_the_switch: "set EDITORS = insert ''browser'' (set (map s_key SPECIAL)) \<and> distinct EDITORS"
proof -
  have "list_all (\<lambda>k. k \<in> set (''browser'' # map s_key SPECIAL)) EDITORS" by code_simp
  moreover have "list_all (\<lambda>k. k \<in> set EDITORS) (''browser'' # map s_key SPECIAL)" by code_simp
  ultimately have "set EDITORS = set (''browser'' # map s_key SPECIAL)" unfolding list_all_iff by (intro equalityI subsetI; blast)
  moreover have "distinct EDITORS" by code_simp
  ultimately show ?thesis by simp
qed

lemma found_once: "distinct xs \<Longrightarrow> length (filter (\<lambda>x. x = k) xs) = (if k \<in> set xs then 1 else 0)"
  by (induction xs) auto

lemma tables_have_editors:
  assumes "k \<in> set (map categoryId CATEGORIES @ map s_key SPECIAL @ [''browser''])"
  shows "one_editor k"
proof -
  have apart: "set (map categoryId CATEGORIES) \<inter> set EDITORS = {}"
    using tree_keys_distinct editors_of_the_switch by auto
  have "length (filter (\<lambda>x. x = k) EDITORS) = (if k \<in> set EDITORS then 1 else 0)"
    using editors_of_the_switch by (intro found_once) simp
  moreover have "(find (\<lambda>c. categoryId c = k) CATEGORIES = None) \<longleftrightarrow> k \<notin> set (map categoryId CATEGORIES)"
    by (auto simp: find_None_iff)
  moreover have "k \<in> set (map categoryId CATEGORIES) \<or> k \<in> set EDITORS"
    using assms editors_of_the_switch by auto
  ultimately show ?thesis using apart by (auto simp: one_editor_def editors_shown_def split: option.split)
qed

text \<open>C36: Every setting of the tree has exactly one editor, whatever the object holds, and so has the one that is selected, whatever was
  clicked.\<close>

theorem every_setting_has_its_editor:
  "list_all one_editor (map te_key (tree_shown settings)) \<and>
   one_editor (sv_selected (fold (view_step settings) evs (view_open parse stored)))"
proof -
  have keys: "te_key ` set (tree_shown settings) \<subseteq> set (map categoryId CATEGORIES @ map s_key SPECIAL @ [''browser''])"
  proof -
    have "te_key ` set (tree_shown settings) = set (map te_key (tree_entries settings))"
      using tree_shown_all [of settings] by (metis image_set set_mset_mset)
    then show ?thesis by (auto simp: tree_entries_keys)
  qed
  have all: "\<forall>k \<in> te_key ` set (tree_shown settings). one_editor k"
    using keys tables_have_editors by blast
  have step: "one_editor (sv_selected s) \<Longrightarrow> one_editor (sv_selected (fold (view_step settings) evs s))" for s
  proof (induction evs arbitrary: s)
    case (Cons ev evs)
    have "one_editor (sv_selected (view_step settings ev s))"
      using Cons.prems all by (cases ev) (auto simp: view_step_def)
    with Cons.IH show ?case by simp
  qed simp
  have "CATEGORIES \<noteq> []" by (simp add: CATEGORIES_def)
  then have "one_editor (categoryId (hd CATEGORIES))"
    by (intro tables_have_editors) (simp add: CATEGORIES_def)
  with step [of "view_open parse stored"] all show ?thesis by (auto simp: list_all_iff view_open_def)
qed

text \<open>What is typed while the root is fetched is lost when it arrives.\<close>

theorem certificate_typed_meanwhile_is_lost:
  assumes "\<not> cd_busy s"
  shows "cd_value (fold certificate_step [RootPressed, CertificateTyped t, RootArrived (Inr pem)] s) = js_trim pem @ [CHR 0x0A]"
  using assms by (simp add: certificate_step_def)

text \<open>A share is chosen as an address in the form of the protocol: two slashes, the server and the share, and the slash the name
  of the file follows.\<close>

theorem picture_location_of_a_share:
  "picture_location (''//'' @ server @ ''/'' @ share) = ''smb://'' @ server @ ''/'' @ share @ ''/''"
  by (simp add: picture_location_def)

text \<open>The content of a file is all that follows its description, since a description has no comma and the content neither.\<close>

theorem content_of_a_data_address:
  assumes "CHR '','' \<notin> set description"
  shows "after_comma (description @ CHR '','' # content) = content"
proof -
  have "dropWhile (\<lambda>c. c \<noteq> CHR '','') (description @ CHR '','' # content) = CHR '','' # content"
    using assms by (induction description) auto
  then show ?thesis by (simp add: after_comma_def)
qed

end
