(* ===== verification/Previews.thy ===== *)
theory Previews
  imports History Secrets
begin

text \<open>
  Two dialogs over one object: what would change for it if a policy object were linked (\<^verbatim>\<open>ModelChange\<close> of
  \<^verbatim>\<open>components/RsopDialog.tsx\<close>) with the reports beside it, and the enrolment tokens of a container
  (\<^verbatim>\<open>components/EnrolmentTokens.tsx\<close>), over the forms of \<open>History\<close> and \<open>Secrets\<close>.
\<close>

section \<open>Modelling a change\<close>

record change_shown =
  cs_category :: string
  cs_state :: string
  cs_before :: nat
  cs_after :: nat

record model_change =
  mc_dn :: string
  mc_open :: bool
  mc_gpos :: "(string \<times> string) list"
  mc_guid :: string
  mc_target :: string
  mc_result :: "change_shown list option"
  mc_error :: "string option"
  mc_busy :: bool
  mc_asked :: "(string \<times> string \<times> string) list"
  mc_lists :: nat

definition model_open :: "string \<Rightarrow> model_change" where
  "model_open dn =
     \<lparr>mc_dn = dn, mc_open = False, mc_gpos = [], mc_guid = [], mc_target = [], mc_result = None, mc_error = None, mc_busy = False,
      mc_asked = [], mc_lists = 0\<rparr>"

datatype (plugins only: code size) model_event =
    ModelObject string
  | ModelOpened
  | ModelClosed
  | GposListed "string + (string \<times> string) list"
  | GpoPicked string
  | TargetPicked string
  | ShowMe
  | Modelled "string + change_shown list"

text \<open>The objects are listed when it is opened and none are known yet. The result is that of the last answer: neither another
  choice nor another object takes it away.\<close>

definition model_step :: "model_event \<Rightarrow> model_change \<Rightarrow> model_change" where
  "model_step ev s =
     (case ev of
        ModelObject dn \<Rightarrow> s\<lparr>mc_dn := dn\<rparr>
      | ModelOpened \<Rightarrow>
          (if mc_open s then s
           else if mc_gpos s = [] then s\<lparr>mc_open := True, mc_lists := Suc (mc_lists s)\<rparr> else s\<lparr>mc_open := True\<rparr>)
      | ModelClosed \<Rightarrow> s\<lparr>mc_open := False\<rparr>
      | GposListed a \<Rightarrow> s\<lparr>mc_gpos := (case a of Inl msg \<Rightarrow> [] | Inr gs \<Rightarrow> gs)\<rparr>
      | GpoPicked g \<Rightarrow> (if mc_open s \<and> (g = [] \<or> g \<in> fst ` set (mc_gpos s)) then s\<lparr>mc_guid := g\<rparr> else s)
      | TargetPicked t \<Rightarrow> (if mc_open s \<and> (t = [] \<or> t \<in> set (rsop_chain (mc_dn s))) then s\<lparr>mc_target := t\<rparr> else s)
      | ShowMe \<Rightarrow>
          (if mc_open s \<and> model_call (mc_dn s) (mc_guid s) (mc_target s) (mc_busy s) \<noteq> None
           then s\<lparr>mc_busy := True, mc_error := None, mc_asked := mc_asked s @ [(mc_dn s, mc_guid s, mc_target s)]\<rparr> else s)
      | Modelled a \<Rightarrow>
          (if \<not> mc_busy s then s
           else (case a of
                   Inl msg \<Rightarrow> s\<lparr>mc_error := Some msg, mc_busy := False\<rparr>
                 | Inr cs \<Rightarrow> s\<lparr>mc_result := Some cs, mc_busy := False\<rparr>)))"

definition change_row :: "change_shown \<Rightarrow> string list" where
  "change_row c = [cs_category c, cs_state c, show_nat (cs_before c) @ '' '' @ [CHR 0xE2, CHR 0x86, CHR 0x92] @ '' '' @ show_nat (cs_after c)]"

definition changes_shown :: "model_change \<Rightarrow> string list list option" where
  "changes_shown s =
     (if \<not> mc_open s then None
      else map_option (\<lambda>cs. if cs = [] then [[''Nothing would change. The object is already applied here, filtered out, or sets nothing this object does not already get.'']]
                            else map change_row cs) (mc_result s))"

section \<open>The reports beside it\<close>

text \<open>A computer's reports are asked for by its name, a person's sessions by the account, where there is one.\<close>

definition reports_call :: "bool \<Rightarrow> string \<Rightarrow> string option \<Rightarrow> api_call option" where
  "reports_call is_computer dn account =
     (if is_computer then Some (Call_policy (Pol_reports (Some dn)))
      else (case account of None \<Rightarrow> None | Some a \<Rightarrow> if a = [] then None else Some (Call_policy (Pol_sessionReports a))))"

definition result_badge :: "string \<Rightarrow> string" where
  "result_badge st = (if st = ''failed'' then ''failure'' else ''success'')"

definition report_line :: "string \<Rightarrow> string \<Rightarrow> string \<Rightarrow> string option \<Rightarrow> nat \<Rightarrow> string" where
  "report_line whenever version serial current failures =
     join_with ('' '' @ middle_dot @ '' '')
       [whenever, ''agent '' @ (if version \<noteq> [] then version else ''unknown''), report_currency serial current, show_nat failures @ '' failed'']"

section \<open>Enrolment tokens\<close>

record join_token =
  jt_id :: string
  jt_label :: string
  jt_container :: string
  jt_spent :: nat
  jt_allowed :: nat

record tokens_page =
  tk_container :: string
  tk_tokens :: "join_token list"
  tk_form :: token_form
  tk_busy :: bool
  tk_error :: "string option"
  tk_loaded :: bool
  tk_loads :: nat
  tk_revoking :: nat
  tk_sent :: "api_call list"

definition tokens_open :: "string \<Rightarrow> tokens_page" where
  "tokens_open container =
     \<lparr>tk_container = container, tk_tokens = [], tk_form = token_open, tk_busy = False, tk_error = None, tk_loaded = False, tk_loads = 1,
      tk_revoking = 0, tk_sent = []\<rparr>"

definition tokens_load :: "string + join_token list \<Rightarrow> tokens_page \<Rightarrow> tokens_page" where
  "tokens_load a s = (case a of Inl msg \<Rightarrow> s\<lparr>tk_error := Some msg\<rparr> | Inr ts \<Rightarrow> s\<lparr>tk_tokens := ts, tk_loaded := True\<rparr>)"

datatype (plugins only: code size) tokens_event =
    TokensRead "string + join_token list"
  | TokenLabel string
  | TokenUses string
  | TokenTtl string
  | TokenAsked
  | TokenRefused string
  | TokenMade string string
  | TokensReadAfter "string + join_token list"
  | TokenRevoked join_token
  | TokenRevocation "string option"

text \<open>The dialog is busy until the list has been read once more for the token that was made (\<open>TokensReadAfter\<close>); the other
  readings are those of the start and of a revocation, whose failure is dropped. \<open>tk_loads\<close> counts the readings.\<close>

definition tokens_step :: "tokens_event \<Rightarrow> tokens_page \<Rightarrow> tokens_page" where
  "tokens_step ev s =
     (case ev of
        TokensRead a \<Rightarrow> tokens_load a s
      | TokenLabel v \<Rightarrow> s\<lparr>tk_form := (tk_form s)\<lparr>et_label := v\<rparr>\<rparr>
      | TokenUses v \<Rightarrow> s\<lparr>tk_form := (tk_form s)\<lparr>et_uses := js_Number v\<rparr>\<rparr>
      | TokenTtl v \<Rightarrow> s\<lparr>tk_form := (tk_form s)\<lparr>et_ttl := js_Number v\<rparr>\<rparr>
      | TokenAsked \<Rightarrow>
          (if tk_busy s then s
           else s\<lparr>tk_busy := True, tk_error := None, tk_sent := tk_sent s @ [token_submit (tk_container s) (tk_form s)]\<rparr>)
      | TokenRefused msg \<Rightarrow> (if tk_busy s then s\<lparr>tk_error := Some msg, tk_busy := False\<rparr> else s)
      | TokenMade token command \<Rightarrow>
          (if tk_busy s then s\<lparr>tk_form := token_issued token command (tk_form s), tk_loads := Suc (tk_loads s)\<rparr> else s)
      | TokensReadAfter a \<Rightarrow> (if tk_busy s then (tokens_load a s)\<lparr>tk_busy := False\<rparr> else s)
      | TokenRevoked t \<Rightarrow>
          (if t \<in> set (tk_tokens s)
           then s\<lparr>tk_revoking := Suc (tk_revoking s), tk_sent := tk_sent s @ [Call_join (Join_revokeToken (jt_id t))]\<rparr> else s)
      | TokenRevocation failure \<Rightarrow>
          (case tk_revoking s of 0 \<Rightarrow> s | Suc n \<Rightarrow> s\<lparr>tk_revoking := n, tk_loads := Suc (tk_loads s)\<rparr>))"

definition tokens_empty :: "tokens_page \<Rightarrow> string option" where
  "tokens_empty s = (if tk_loaded s \<and> tk_tokens s = [] then Some ''No active tokens.'' else None)"

definition token_row :: "join_token \<Rightarrow> string list" where
  "token_row t =
     [(if jt_label t \<noteq> [] then jt_label t else em_dash), jt_container t, show_nat (jt_spent t) @ '' / '' @ show_nat (jt_allowed t)]"

section \<open>Properties\<close>

text \<open>Every change modelled is of a policy object and a container that were picked.\<close>

definition modelled_ok :: "string \<times> string \<times> string \<Rightarrow> bool" where
  "modelled_ok x = (case x of (d, g, t) \<Rightarrow> g \<noteq> [] \<and> t \<noteq> [])"

lemma model_asked_step: "list_all modelled_ok (mc_asked s) \<Longrightarrow> list_all modelled_ok (mc_asked (model_step ev s))"
  by (cases ev) (auto simp: model_step_def model_call_def modelled_ok_def split: sum.splits if_splits)

theorem modelled_changes_were_picked: "list_all modelled_ok (mc_asked (fold model_step evs (model_open dn)))"
proof -
  have "list_all modelled_ok (mc_asked s) \<Longrightarrow> list_all modelled_ok (mc_asked (fold model_step evs s))" for s
    by (induction evs arbitrary: s) (simp_all add: model_asked_step)
  then show ?thesis by (simp add: model_open_def)
qed

text \<open>What was shown for a choice stays shown under any other choice, until another answer comes.\<close>

definition model_picking :: "model_event \<Rightarrow> bool" where
  "model_picking ev = (case ev of GpoPicked g \<Rightarrow> True | TargetPicked t \<Rightarrow> True | ModelObject d \<Rightarrow> True | ShowMe \<Rightarrow> True | Modelled (Inl m) \<Rightarrow> True | _ \<Rightarrow> False)"

lemma model_picking_keeps:
  assumes "model_picking ev"
  shows "mc_result (model_step ev s) = mc_result s" "mc_open (model_step ev s) = mc_open s"
  using assms by (cases ev; auto simp: model_step_def model_picking_def split: sum.splits)+

theorem preview_of_an_earlier_choice_stays:
  assumes "list_all model_picking evs"
  shows "changes_shown (fold model_step evs s) = changes_shown s"
  using assms
proof (induction evs arbitrary: s)
  case (Cons ev evs)
  then have "changes_shown (fold model_step evs (model_step ev s)) = changes_shown (model_step ev s)" by simp
  moreover have "changes_shown (model_step ev s) = changes_shown s" using Cons.prems by (simp add: changes_shown_def model_picking_keeps)
  ultimately show ?case by simp
qed simp

text \<open>A container picked for one object is still the one asked about for another, above which it need not be.\<close>

theorem container_picked_for_another_object:
  "let s = fold model_step [ModelOpened, GposListed (Inr [(''{1}'', ''Base'')]), GpoPicked ''{1}'', TargetPicked ''OU=a,DC=x'',
             ModelObject ''CN=w,OU=b,DC=x'', ShowMe] (model_open ''CN=v,OU=a,DC=x'')
   in mc_asked s = [(''CN=w,OU=b,DC=x'', ''{1}'', ''OU=a,DC=x'')] \<and> ''OU=a,DC=x'' \<notin> set (rsop_chain ''CN=w,OU=b,DC=x'')"
  by code_simp

text \<open>Tokens are made for the container the dialog was opened at; the ones revoked were in the list.\<close>

lemma tokens_load_keeps:
  "tk_sent (tokens_load a s) = tk_sent s" "tk_container (tokens_load a s) = tk_container s" "tk_form (tokens_load a s) = tk_form s"
  "tk_busy (tokens_load a s) = tk_busy s"
  by (simp_all add: tokens_load_def split: sum.splits)

lemma tokens_container [simp]: "tk_container (tokens_step ev s) = tk_container s"
  by (cases ev) (auto simp: tokens_step_def tokens_load_keeps split: nat.splits)

definition token_call_ok :: "string \<Rightarrow> string set \<Rightarrow> api_call \<Rightarrow> bool" where
  "token_call_ok container ids c = ((\<exists>f. c = token_submit container f) \<or> (\<exists>i \<in> ids. c = Call_join (Join_revokeToken i)))"

definition tokens_read :: "tokens_event \<Rightarrow> string set" where
  "tokens_read ev = (case ev of TokensRead (Inr ts) \<Rightarrow> jt_id ` set ts | TokensReadAfter (Inr ts) \<Rightarrow> jt_id ` set ts | _ \<Rightarrow> {})"

definition tokens_inv :: "string \<Rightarrow> string set \<Rightarrow> tokens_page \<Rightarrow> bool" where
  "tokens_inv container ids s =
     (tk_container s = container \<and> jt_id ` set (tk_tokens s) \<subseteq> ids \<and> list_all (token_call_ok container ids) (tk_sent s))"

lemma token_call_mono: "token_call_ok container ids c \<Longrightarrow> ids \<subseteq> ids' \<Longrightarrow> token_call_ok container ids' c"
  by (auto simp: token_call_ok_def)

lemma tokens_step_inv:
  assumes "tokens_inv container ids s"
  shows "tokens_inv container (ids \<union> tokens_read ev) (tokens_step ev s)"
proof -
  have mono: "list_all (token_call_ok container (ids \<union> x)) (tk_sent s)" for x
    using assms unfolding tokens_inv_def list_all_iff by (meson Un_upper1 token_call_mono)
  show ?thesis
    using assms mono
    by (cases ev) (auto simp: tokens_inv_def tokens_step_def tokens_load_def tokens_read_def token_call_ok_def split: sum.splits nat.splits)
qed

theorem tokens_are_of_the_container:
  "tokens_inv container (\<Union> (set (map tokens_read evs))) (fold tokens_step evs (tokens_open container))"
proof -
  have "tokens_inv container ids s \<Longrightarrow> tokens_inv container (ids \<union> \<Union> (set (map tokens_read evs))) (fold tokens_step evs s)" for ids s
  proof (induction evs arbitrary: ids s)
    case (Cons ev evs)
    from Cons.IH [OF tokens_step_inv [OF Cons.prems]] show ?case by (simp add: Un_assoc)
  qed simp
  from this [of "{}" "tokens_open container"] show ?thesis by (simp add: tokens_open_def tokens_inv_def)
qed

text \<open>A token once made stays on the screen through a refusal of the next one, so both are read there: the command of the
  first and the reason the second does not exist.\<close>

theorem earlier_token_beside_a_refusal:
  assumes "et_issued (tk_form s) = Some i" "\<not> tk_busy s"
  shows "let s' = fold tokens_step [TokenAsked, TokenRefused msg] s in et_issued (tk_form s') = Some i \<and> tk_error s' = Some msg"
  using assms by (simp add: tokens_step_def Let_def)

text \<open>A revocation that was refused leaves the dialog as it was: the list is read again, nothing is said.\<close>

theorem refused_revocation_says_nothing:
  assumes "tk_revoking s = Suc n"
  shows "tokens_step (TokenRevocation (Some msg)) s = tokens_step (TokenRevocation None) s"
  using assms by (simp add: tokens_step_def)

end
