(* ===== verification/Cards.thy ===== *)
theory Cards
  imports MachineTabs Overview Templates Pictures
begin

text \<open>
  What is drawn from an answer: the cards of a computer (\<^verbatim>\<open>pages/ObjectDetail.tsx\<close>), its hardware, drives, updates, work and files,
  and the question before it restarts; the tiles of the overview (\<^verbatim>\<open>pages/Overview.tsx\<close>); and the dialog of the
  administrative templates (\<^verbatim>\<open>components/TemplateManager.tsx\<close>) as one machine. A text or a number the answer leaves out is
  empty or nought here, as the page takes both alike.
\<close>

section \<open>The cards of a computer\<close>

record hardware =
  hw_vendor :: string
  hw_model :: string
  hw_serial :: string
  hw_chassis :: string
  hw_bios_version :: string
  hw_bios_date :: string
  hw_cpu :: string
  hw_cores :: nat
  hw_memory_mb :: nat

definition or_dash :: "string \<Rightarrow> string" where
  "or_dash t = (if t = [] then em_dash else t)"

definition memory_shown :: "nat \<Rightarrow> string" where
  "memory_shown mb = (if mb = 0 then em_dash else show_int (js_round (of_nat mb / 1024)) @ '' GB'')"

definition hardware_card :: "hardware \<Rightarrow> (string \<times> string) list option" where
  "hardware_card h =
     (if hw_model h = [] \<and> hw_cpu h = [] then None
      else Some (
        [(''Model'', or_dash (join_with '' '' (nonempty [hw_vendor h, hw_model h])) @
                     (if hw_chassis h = [] then [] else '' ('' @ hw_chassis h @ '')''))] @
        (if hw_serial h = [] then [] else [(''Serial'', hw_serial h)]) @
        [(''Processor'', or_dash (hw_cpu h) @ (if hw_cores h = 0 then [] else DOT @ show_nat (hw_cores h) @ '' threads'')),
         (''Memory'', memory_shown (hw_memory_mb h))] @
        (if hw_bios_version h = [] then []
         else [(''Firmware'', hw_bios_version h @ (if hw_bios_date h = [] then [] else DOT @ hw_bios_date h))])))"

record drive =
  dv_device :: string
  dv_model :: string
  dv_serial :: string
  dv_size_gb :: nat
  dv_health :: string
  dv_power_on_hours :: nat
  dv_temperature :: int
  dv_reallocated :: nat
  dv_percentage_used :: nat

datatype (plugins only: code size) drive_mark = Passed | Failing | NotReported | Reallocated nat | Worn nat

definition drive_marks :: "drive \<Rightarrow> drive_mark list" where
  "drive_marks d =
     (if dv_health d = ''passed'' then [Passed] else []) @
     (if dv_health d = ''failing'' then [Failing] else []) @
     (if dv_health d = [] then [NotReported] else []) @
     (if dv_reallocated d > 0 then [Reallocated (dv_reallocated d)] else []) @
     (if dv_percentage_used d \<ge> 80 then [Worn (dv_percentage_used d)] else [])"

fun mark_badge :: "drive_mark \<Rightarrow> string" where
  "mark_badge Passed = ''badge ok''"
| "mark_badge Failing = ''badge failure''"
| "mark_badge NotReported = ''muted''"
| "mark_badge (Reallocated n) = ''badge failure''"
| "mark_badge (Worn n) = ''badge failure''"

definition drive_row :: "drive \<Rightarrow> string list" where
  "drive_row d =
     [dv_device d, or_dash (dv_model d), (if dv_size_gb d = 0 then em_dash else show_nat (dv_size_gb d) @ '' GB''),
      (if dv_power_on_hours d = 0 then em_dash else show_int (js_round (of_nat (dv_power_on_hours d) / 24)) @ '' days''),
      (if dv_temperature d = 0 then em_dash else show_int (dv_temperature d) @ '' '' @ [CHR 0xC2, CHR 0xB0] @ ''C'')]"

definition agent_line :: "string \<Rightarrow> string \<Rightarrow> string \<times> string" where
  "agent_line installed available =
     (if installed = [] then ''not reported yet'' else installed,
      if available = [] then ''this console has none to hand out'' else available)"

definition agent_button :: "string \<Rightarrow> bool \<Rightarrow> bool \<Rightarrow> string \<times> bool" where
  "agent_button available behind busy =
     (if behind then ''Update to '' @ available else ''Reinstall the agent'', \<not> busy \<and> available \<noteq> [])"

definition updates_waiting :: "nat \<Rightarrow> nat \<Rightarrow> string" where
  "updates_waiting pending security =
     (if pending = 0 then ''Up to date'' else show_nat pending @ '' packages, '' @ show_nat security @ '' from security'')"

definition power_question :: "string \<Rightarrow> string \<Rightarrow> string list \<Rightarrow> string list" where
  "power_question action host users =
     [(if action = ''restart'' then ''Restart this machine?'' else ''Shut this machine down?''),
      host @ '' '' @ (if action = ''restart'' then ''restarts'' else ''shuts down'') @
        '' a minute after its agent picks this up. Anyone signed in loses their session.''] @
     (if users = [] then [] else [show_nat (length users) @ '' signed in right now: '' @ join_with '', '' users]) @
     (if action = ''shutdown'' then [''A machine that is off cannot be started again from here.''] else [])"

section \<open>Its files and its journal\<close>

text \<open>A size is divided until it is below the next unit, or there is none.\<close>

fun scaled :: "rat \<Rightarrow> string \<Rightarrow> string list \<Rightarrow> rat \<times> string" where
  "scaled v u [] = (v, u)"
| "scaled v u (w # ws) = (if v \<ge> 1024 then scaled (v / 1024) w ws else (v, u))"

definition file_size :: "nat \<Rightarrow> string" where
  "file_size bytes =
     (let (v, u) = scaled (of_nat bytes) ''B'' [''kB'', ''MB'', ''GB'', ''TB'']
      in (if u = ''B'' then show_nat bytes else to_fixed 1 v) @ '' '' @ u)"

definition file_row :: "nat \<Rightarrow> file_entry \<Rightarrow> string list" where
  "file_row bytes e =
     [fe_name e, (if fe_directory e then em_dash else file_size bytes),
      (case fe_owner e of None \<Rightarrow> em_dash | Some t \<Rightarrow> t), (case fe_group e of None \<Rightarrow> em_dash | Some t \<Rightarrow> t),
      (case fe_mode e of None \<Rightarrow> em_dash | Some t \<Rightarrow> t)]"

definition journal_count :: "log_group \<Rightarrow> string option" where
  "journal_count g =
     (if lg_errors g > 0 then Some (show_nat (lg_errors g) @ (if lg_errors g = 1 then '' error'' else '' errors'')) else None)"

definition journal_empty :: "bool \<Rightarrow> bool \<Rightarrow> string \<Rightarrow> log_group list \<Rightarrow> string option" where
  "journal_empty loading errorsOnly needle groups =
     (if loading \<or> log_shown errorsOnly needle groups \<noteq> [] then None
      else if errorsOnly \<and> groups \<noteq> [] then Some ''No errors in this period. Untick to see warnings as well.''
      else Some ''Nothing at warning level or worse. The agent sends these on its check-in.'')"

section \<open>The tiles of the overview\<close>

record tile =
  tl_value :: string
  tl_label :: string
  tl_note :: "string option"
  tl_attention :: bool

definition health_tiles :: "jsobj \<Rightarrow> jsobj \<Rightarrow> jsobj \<Rightarrow> tile list" where
  "health_tiles directory agents certificates =
     (let soon = count_of (obj_get certificates ''expiring_soon'')
      in [\<lparr>tl_value = (if obj_get directory ''available'' = JBool False then em_dash
                      else to_string (or_else (obj_get directory ''controllers'') (JNum 0))),
           tl_label = ''Domain controllers'', tl_note = None, tl_attention = False\<rparr>,
          \<lparr>tl_value = to_string (obj_get agents ''fresh'') @ ''/'' @ to_string (obj_get agents ''checked_in''),
           tl_label = ''Agents reporting'', tl_note = Some (''within '' @ to_string (obj_get agents ''stale_after_minutes'') @ '' min''),
           tl_attention = count_of (obj_get agents ''stale'') > 0\<rparr>,
          \<lparr>tl_value = to_string (obj_get agents ''failing_settings''), tl_label = ''Settings failing'', tl_note = None,
           tl_attention = count_of (obj_get agents ''failing_settings'') > 0\<rparr>,
          \<lparr>tl_value = (if truthy (obj_get certificates ''initialised'')
                      then to_string (or_else (obj_get certificates ''expiring_soon'') (JNum 0)) else em_dash),
           tl_label = ''Certificates expiring'', tl_note = Some ''within 30 days'', tl_attention = soon > 0\<rparr>])"

section \<open>The administrative templates\<close>

record template_row =
  tr_id :: string
  tr_namespace :: string
  tr_display_name :: string
  tr_file_name :: string
  tr_policies :: nat
  tr_applicable :: nat

text \<open>The two inputs keep the name they were given: they are the inputs' own, not the dialog's.\<close>

record templates_dialog =
  td_form :: template_form
  td_rows :: "template_row list"
  td_admx_name :: "string option"
  td_adml_name :: "string option"
  td_loads :: nat
  td_removing :: nat
  td_sent :: "api_call list"

definition templates_open :: templates_dialog where
  "templates_open =
     \<lparr>td_form = \<lparr>tm_admx = None, tm_adml = None, tm_busy = False, tm_error = None, tm_imported = None\<rparr>, td_rows = [], td_admx_name = None,
      td_adml_name = None, td_loads = 1, td_removing = 0, td_sent = []\<rparr>"

definition templates_load :: "string + template_row list \<Rightarrow> templates_dialog \<Rightarrow> templates_dialog" where
  "templates_load a s =
     (case a of Inl msg \<Rightarrow> s\<lparr>td_form := (td_form s)\<lparr>tm_error := Some msg\<rparr>\<rparr> | Inr rows \<Rightarrow> s\<lparr>td_rows := rows\<rparr>)"

datatype (plugins only: code size) templates_event =
    TemplatesRead "string + template_row list"
  | AdmxPicked string string
  | AdmlPicked string string
  | TemplateImport
  | TemplateImported "string + (string \<times> nat \<times> nat)"
  | TemplatesReadAfter "string + template_row list"
  | TemplateRemove template_row
  | TemplateRemoved "string option"

text \<open>The dialog is busy until the list was read once more after an import (\<open>TemplatesReadAfter\<close>). A file is picked with its name
  and its base-64 text.\<close>

definition templates_step :: "templates_event \<Rightarrow> templates_dialog \<Rightarrow> templates_dialog" where
  "templates_step ev s =
     (case ev of
        TemplatesRead a \<Rightarrow> templates_load a s
      | AdmxPicked name t \<Rightarrow> s\<lparr>td_form := (td_form s)\<lparr>tm_admx := Some (name, t)\<rparr>, td_admx_name := Some name\<rparr>
      | AdmlPicked name t \<Rightarrow> s\<lparr>td_form := (td_form s)\<lparr>tm_adml := Some t\<rparr>, td_adml_name := Some name\<rparr>
      | TemplateImport \<Rightarrow>
          (if tm_busy (td_form s) then s
           else (case template_submit (td_form s) of
                   (f, None) \<Rightarrow> s
                 | (f, Some c) \<Rightarrow> s\<lparr>td_form := f, td_sent := td_sent s @ [c]\<rparr>))
      | TemplateImported a \<Rightarrow>
          (if \<not> tm_busy (td_form s) then s
           else (case a of
                   Inl msg \<Rightarrow> s\<lparr>td_form := template_done a (td_form s)\<rparr>
                 | Inr r \<Rightarrow> s\<lparr>td_form := (template_done a (td_form s))\<lparr>tm_busy := True\<rparr>, td_loads := Suc (td_loads s)\<rparr>))
      | TemplatesReadAfter a \<Rightarrow>
          (if tm_busy (td_form s)
           then (let t = templates_load a s in t\<lparr>td_form := (td_form t)\<lparr>tm_busy := False\<rparr>\<rparr>) else s)
      | TemplateRemove r \<Rightarrow>
          (if r \<in> set (td_rows s)
           then s\<lparr>td_form := (td_form s)\<lparr>tm_error := None\<rparr>, td_removing := Suc (td_removing s),
                  td_sent := td_sent s @ [Call_admx (Admx_removeTemplate (tr_id r))]\<rparr> else s)
      | TemplateRemoved failure \<Rightarrow>
          (case td_removing s of
             0 \<Rightarrow> s
           | Suc n \<Rightarrow>
               (case failure of
                  Some msg \<Rightarrow> s\<lparr>td_removing := n, td_form := (td_form s)\<lparr>tm_error := Some msg\<rparr>\<rparr>
                | None \<Rightarrow> s\<lparr>td_removing := n, td_loads := Suc (td_loads s)\<rparr>)))"

definition template_shown :: "template_row \<Rightarrow> string list" where
  "template_shown r =
     [(if tr_display_name r \<noteq> [] then tr_display_name r else tr_file_name r), tr_namespace r, show_nat (tr_policies r), show_nat (tr_applicable r)]"

section \<open>Properties\<close>

text \<open>A drive is marked in red exactly when it fails, has sectors moved, or has used four fifths of its life, also one that passed
  its own test.\<close>

theorem drives_are_marked_when_they_should_be:
  "(\<exists>m \<in> set (drive_marks d). mark_badge m = ''badge failure'') \<longleftrightarrow>
   dv_health d = ''failing'' \<or> dv_reallocated d > 0 \<or> dv_percentage_used d \<ge> 80"
  by (auto simp: drive_marks_def)

text \<open>Of a health in another word than the two, the row says nothing.\<close>

theorem other_health_is_not_said:
  assumes "dv_health d \<notin> {[], ''passed'', ''failing''}" and "m \<in> set (drive_marks d)"
  shows "\<exists>n. m = Reallocated n \<or> m = Worn n"
  using assms by (auto simp: drive_marks_def split: if_splits)

text \<open>Less than half a gigabyte is shown as none of it.\<close>

theorem small_memory_is_shown_as_none:
  assumes "0 < mb" and "mb < 512"
  shows "memory_shown mb = ''0 GB''"
proof -
  have "\<lfloor>(of_nat mb :: rat) / 1024 + 1 / 2\<rfloor> = 0"
    using assms by (intro floor_unique) (simp_all add: field_simps)
  moreover have "show_int 0 = ''0''" by code_simp
  ultimately show ?thesis using assms by (simp add: memory_shown_def js_round_def)
qed

text \<open>A machine that has never looked for updates is said to be up to date: all the page has is a nought.\<close>

theorem nothing_waiting_is_up_to_date: "updates_waiting pending security = ''Up to date'' \<longleftrightarrow> pending = 0"
proof -
  have "CHR '','' \<in> set (show_nat pending @ '' packages, '' @ show_nat security @ '' from security'')" by simp
  moreover have "CHR '','' \<notin> set ''Up to date''" by simp
  ultimately have "show_nat pending @ '' packages, '' @ show_nat security @ '' from security'' \<noteq> ''Up to date''" by metis
  then show ?thesis by (simp add: updates_waiting_def)
qed

text \<open>Everybody who is signed in is named before the machine is restarted or shut down.\<close>

lemma joined_holds: "x \<in> set xs \<Longrightarrow> \<exists>a b. join_with sep xs = a @ x @ b"
proof (induction xs)
  case (Cons y ys)
  show ?case
  proof (cases "x = y")
    case True
    have "join_with sep (y # ys) = [] @ y @ (if ys = [] then [] else sep @ join_with sep ys)" by (cases ys) simp_all
    with True show ?thesis by blast
  next
    case False
    with Cons.prems have "x \<in> set ys" by simp
    with Cons.IH obtain a b where ys: "join_with sep ys = a @ x @ b" by blast
    from \<open>x \<in> set ys\<close> have "ys \<noteq> []" by auto
    with ys have "join_with sep (y # ys) = (y @ sep @ a) @ x @ b" by (cases ys) simp_all
    then show ?thesis by blast
  qed
qed simp

theorem everybody_signed_in_is_named:
  assumes "u \<in> set users"
  shows "\<exists>line \<in> set (power_question action host users). js_includes line u"
proof -
  from joined_holds [OF assms] obtain a b where j: "join_with '', '' users = a @ u @ b" by blast
  let ?line = "show_nat (length users) @ '' signed in right now: '' @ join_with '', '' users"
  have "?line = (show_nat (length users) @ '' signed in right now: '' @ a) @ u @ b" by (simp add: j)
  then have "js_includes ?line u" unfolding js_includes_iff by blast
  moreover have "?line \<in> set (power_question action host users)" using assms by (auto simp: power_question_def)
  ultimately show ?thesis by blast
qed

text \<open>The size of a file is its bytes over a power of 1024, the least that leaves less than 1024 of the unit, as far as the units
  go.\<close>

definition SIZE_UNITS :: "string list" where
  "SIZE_UNITS = [''B'', ''kB'', ''MB'', ''GB'', ''TB'']"

lemma scaled_correct:
  "scaled v u ws = (x, w) \<Longrightarrow>
   \<exists>k \<le> length ws. w = (u # ws) ! k \<and> x * 1024 ^ k = v \<and> (k > 0 \<longrightarrow> 1 \<le> x) \<and> (k < length ws \<longrightarrow> x < 1024)"
proof (induction v u ws rule: scaled.induct)
  case (1 v u)
  then show ?case by (intro exI [of _ 0]) simp
next
  case (2 v u w' ws)
  show ?case
  proof (cases "v \<ge> 1024")
    case True
    with 2 obtain k where k: "k \<le> length ws" "w = (w' # ws) ! k" "x * 1024 ^ k = v / 1024" "k > 0 \<longrightarrow> 1 \<le> x"
      "k < length ws \<longrightarrow> x < 1024" by auto
    moreover have "1 \<le> x" using k(3,4) True by (cases k) auto
    ultimately show ?thesis by (intro exI [of _ "Suc k"]) auto
  next
    case False
    with 2 show ?thesis by (intro exI [of _ 0]) auto
  qed
qed

theorem sizes_are_in_the_largest_unit:
  assumes "scaled (of_nat bytes) ''B'' [''kB'', ''MB'', ''GB'', ''TB''] = (v, u)"
  shows "\<exists>k \<le> 4. u = SIZE_UNITS ! k \<and> v * 1024 ^ k = of_nat bytes \<and> (k > 0 \<longrightarrow> 1 \<le> v) \<and> (k < 4 \<longrightarrow> v < 1024)"
  using scaled_correct [OF assms] by (simp add: SIZE_UNITS_def eval_nat_numeral)

text \<open>The tile of the certificates asks for attention exactly when the service does, where there is an authority.\<close>

theorem certificate_tile_agrees_with_the_service:
  assumes "truthy (obj_get c ''initialised'')"
  shows "tl_attention (health_tiles d a c ! 3) \<longleftrightarrow> fst (authority_service day c) = ServiceAttention"
  using assms by (simp add: health_tiles_def authority_service_def Let_def)

text \<open>Everything the dialog of the templates sends is the import of a file that was picked, or the removal of a template that was
  listed.\<close>

definition templates_listed :: "templates_event list \<Rightarrow> template_row \<Rightarrow> bool" where
  "templates_listed evs r \<longleftrightarrow>
     (\<exists>rows. r \<in> set rows \<and> (TemplatesRead (Inr rows) \<in> set evs \<or> TemplatesReadAfter (Inr rows) \<in> set evs))"

definition template_call_ok :: "templates_event list \<Rightarrow> api_call \<Rightarrow> bool" where
  "template_call_ok evs c \<longleftrightarrow>
     (\<exists>name t l. c = Call_admx (Admx_upload name t l) \<and> AdmxPicked name t \<in> set evs \<and>
        (\<forall>x. l = Some x \<longrightarrow> (\<exists>n. AdmlPicked n x \<in> set evs))) \<or>
     (\<exists>r. c = Call_admx (Admx_removeTemplate (tr_id r)) \<and> templates_listed evs r \<and> TemplateRemove r \<in> set evs)"

definition templates_ok :: "templates_event list \<Rightarrow> templates_dialog \<Rightarrow> bool" where
  "templates_ok evs s \<longleftrightarrow>
     (\<forall>r \<in> set (td_rows s). templates_listed evs r) \<and>
     (\<forall>n t. tm_admx (td_form s) = Some (n, t) \<longrightarrow> AdmxPicked n t \<in> set evs) \<and>
     (\<forall>x. tm_adml (td_form s) = Some x \<longrightarrow> (\<exists>n. AdmlPicked n x \<in> set evs)) \<and>
     (\<forall>c \<in> set (td_sent s). template_call_ok evs c)"

lemma templates_ok_step:
  assumes ok: "templates_ok evs s" and ev: "ev \<in> set evs"
  shows "templates_ok evs (templates_step ev s)"
proof (cases ev)
  case TemplateImport
  show ?thesis
  proof (cases "tm_admx (td_form s)")
    case (Some f)
    obtain n t where f: "f = (n, t)" by (cases f)
    with Some ok have "template_call_ok evs (Call_admx (Admx_upload n t (tm_adml (td_form s))))"
      by (simp add: templates_ok_def template_call_ok_def)
    with ok TemplateImport Some f show ?thesis by (simp add: templates_ok_def templates_step_def template_submit_def)
  qed (use ok TemplateImport in \<open>simp add: templates_ok_def templates_step_def template_submit_def\<close>)
next
  case (TemplateRemove r)
  with ok ev have "r \<in> set (td_rows s) \<Longrightarrow> template_call_ok evs (Call_admx (Admx_removeTemplate (tr_id r)))"
    by (auto simp: templates_ok_def template_call_ok_def)
  with ok TemplateRemove show ?thesis by (simp add: templates_ok_def templates_step_def)
next
  case (TemplateImported a)
  with ok show ?thesis by (auto simp: templates_ok_def templates_step_def template_done_def split: sum.split prod.split)
qed (use ok ev in \<open>auto simp: templates_ok_def templates_step_def templates_load_def templates_listed_def Let_def
      split: sum.split nat.split option.split\<close>)

theorem templates_sent_were_picked_or_listed:
  assumes "c \<in> set (td_sent (fold templates_step evs templates_open))"
  shows "template_call_ok evs c"
proof -
  have run: "templates_ok all s \<Longrightarrow> set es \<subseteq> set all \<Longrightarrow> templates_ok all (fold templates_step es s)" for all es s
    by (induction es arbitrary: s) (simp_all add: templates_ok_step)
  have "templates_ok evs templates_open" by (simp add: templates_ok_def templates_open_def)
  from run [OF this, of evs] have "templates_ok evs (fold templates_step evs templates_open)" by simp
  with assms show ?thesis by (simp add: templates_ok_def)
qed

text \<open>After an import the inputs still show the names of the files imported while the dialog holds none: Import sends nothing, and a
  template picked then goes out without the language file whose name is shown.\<close>

theorem names_shown_are_not_sent:
  assumes "tm_busy (td_form s)" and "td_adml_name s = Some old"
  shows "let t = fold templates_step [TemplateImported (Inr r), TemplatesReadAfter rows] s in
         td_admx_name t = td_admx_name s \<and> templates_step TemplateImport t = t \<and>
         (let u = fold templates_step [AdmxPicked name x, TemplateImport] t in
          td_adml_name u = Some old \<and> td_sent u = td_sent t @ [Call_admx (Admx_upload name x None)])"
  using assms
  by (cases r; cases rows)
    (simp_all add: templates_step_def templates_load_def template_done_def template_submit_def Let_def)

end
