(* ===== verification/Spec2Isabelle.thy ===== *)
theory Spec2Isabelle
  imports Client Live Policy Csv Widgets Pictures SignIn Dhcp Monitoring ObjectPage MachineTabs Membership Activity Sessions Navigation WikiPages Pickers DnsZones Remote Resources Delegation Secrets ServerRoles Certificates Overview Controllers Templates History SettingsTyped DirectoryPage PolicyPage ObjectDialogs MachinePage MonitorTabs DhcpPage ResourcePages RemotePages ServerPages OverviewPage Charts PolicyFields Previews Cards
begin

text \<open>
  The web console of Open Directory Manager: the TypeScript program under \<^verbatim>\<open>src/web/src\<close>, which draws the
  pages of the directory, the policies, the machines and their monitoring, and asks the control plane (a
  Python program behind \<^verbatim>\<open>/api/v1\<close>) for everything it shows and changes. This development models what the
  console computes and what it sends: how a form becomes a request, how an answer becomes a screen, and what
  happens when clicks, answers and timers come in an unlucky order.

  \<^bold>\<open>The parts of the program and their theories.\<close>

  \<^item> \<^theory_text>\<open>Prelude\<close>, \<^theory_text>\<open>JsValue\<close>, \<^theory_text>\<open>JsNumber\<close>: the language. Strings are lists of bytes (UTF-8), with the
    operations of \<^verbatim>\<open>String\<close> and \<^verbatim>\<open>Array\<close> the console uses; JSON values, objects with their members in
    order, and \<open>undefined\<close>; \<^verbatim>\<open>Number(text)\<close>. The prelude holds the collections \<open>js_string\<close>, \<open>js_frame\<close>
    and \<open>js_inv\<close> and the interfaces \<open>escape_codec\<close> and \<open>machine\<close>.
  \<^item> \<^theory_text>\<open>Loaders\<close>: the interface of a component that reads something from the API whenever what it is about
    changes, with and without showing the last answer meanwhile.
  \<^item> \<^theory_text>\<open>Url\<close>, \<^theory_text>\<open>Api\<close>, \<^theory_text>\<open>Endpoints\<close>, \<^theory_text>\<open>Client\<close>: \<^verbatim>\<open>api.ts\<close>. Query strings and path components; the function
    \<^verbatim>\<open>request\<close> with its token and its errors; every method of the object \<^verbatim>\<open>api\<close> as a constructor of
    \<open>api_call\<close> and the request it makes. The other theories state what is sent as such a call.
  \<^item> \<^theory_text>\<open>Live\<close>: \<^verbatim>\<open>live.ts\<close>, the one change stream all pages share.
  \<^item> \<^theory_text>\<open>SignIn\<close>, \<^theory_text>\<open>Navigation\<close>: \<^verbatim>\<open>App.tsx\<close>, \<^verbatim>\<open>Login.tsx\<close>, \<^verbatim>\<open>Shell.tsx\<close>, the session and what it may see.
  \<^item> \<^theory_text>\<open>Directory\<close>, \<^theory_text>\<open>ObjectPage\<close>, \<^theory_text>\<open>Membership\<close>, \<^theory_text>\<open>MachineTabs\<close>, \<^theory_text>\<open>Csv\<close>, \<^theory_text>\<open>Pictures\<close>: the tree of the directory,
    the page of one object with its tabs, the nested membership, creation and import, pictures.
  \<^item> \<^theory_text>\<open>SettingsTable\<close>, \<^theory_text>\<open>Settings\<close>, \<^theory_text>\<open>SettingsTree\<close>, \<^theory_text>\<open>SettingEditors\<close>, \<^theory_text>\<open>Uploads\<close>, \<^theory_text>\<open>Policy\<close>:
    \<^verbatim>\<open>SettingsEditor.tsx\<close> and \<^verbatim>\<open>Policy.tsx\<close>. The tables \<^verbatim>\<open>CATEGORIES\<close> and \<^verbatim>\<open>SPECIAL\<close> are written out entry by
    entry; rows, dialogs and single editors are operations on the object of settings.
  \<^item> \<^theory_text>\<open>Widgets\<close>, \<^theory_text>\<open>Monitoring\<close>, \<^theory_text>\<open>Dhcp\<close>, \<^theory_text>\<open>Activity\<close>, \<^theory_text>\<open>Sessions\<close>, \<^theory_text>\<open>WikiPages\<close>: the form widgets, the
    monitoring pages, DHCP, the table of activity, terminal and shared screen, the documentation.
  \<^item> \<^theory_text>\<open>Pickers\<close>, \<^theory_text>\<open>DnsZones\<close>, \<^theory_text>\<open>Remote\<close>, \<^theory_text>\<open>Resources\<close>: the dialogs that choose an object, a folder, an account
    or networks; DNS; tunnels and remote desktop; shares, printers and network access.
  \<^item> \<^theory_text>\<open>Choices\<close>, \<^theory_text>\<open>Delegation\<close>, \<^theory_text>\<open>Secrets\<close>, \<^theory_text>\<open>ServerRoles\<close>, \<^theory_text>\<open>Certificates\<close>: ticked boxes; who may do what; the
    password manager, the second factor and enrolment; the roles of servers; the authority and what it issues.
  \<^item> \<^theory_text>\<open>Overview\<close>, \<^theory_text>\<open>Controllers\<close>, \<^theory_text>\<open>Templates\<close>, \<^theory_text>\<open>History\<close>: the state of the domain, its backups and the import
    of a configuration; controllers and sites; administrative templates; deleted objects, audit, resultant policy.
  \<^item> \<^theory_text>\<open>PolicySchema\<close>, \<^theory_text>\<open>SettingsTyped\<close>: the shapes the control plane takes as a policy's settings
    (\<^verbatim>\<open>api/odm/policy_schema.py\<close>), and that every editor saves within them.
  \<^item> \<^theory_text>\<open>DirectoryPage\<close>, \<^theory_text>\<open>ObjectDialogs\<close>, \<^theory_text>\<open>MachinePage\<close>, \<^theory_text>\<open>PolicyPage\<close>, \<^theory_text>\<open>PolicyFields\<close>: whole pages over the theories
    above, each as one machine of everything that is pressed and answered: the tree with its listing, selection and menus;
    the dialogs that are a form and one call; the tabs of a computer that act on it; the list of policy objects
    with the one that is open; the editors drawn for what is selected and the fields with a state of their own.
  \<^item> \<^theory_text>\<open>MonitorTabs\<close>, \<^theory_text>\<open>Charts\<close>: the seven tabs of the monitoring, the page around them, what a dashboard is drawn
    from and the shared screen.
  \<^item> \<^theory_text>\<open>DhcpPage\<close>, \<^theory_text>\<open>ResourcePages\<close>, \<^theory_text>\<open>RemotePages\<close>, \<^theory_text>\<open>ServerPages\<close>, \<^theory_text>\<open>OverviewPage\<close>, \<^theory_text>\<open>Previews\<close>, \<^theory_text>\<open>Cards\<close>: the pages of DHCP, of
    shares, printers and network access, of remote desktop and tunnels, of trusted certificates, profiles, roles and
    sites, the overview; the change modelled for an object and the dialog of the enrolment tokens; what is drawn from an
    answer, and the dialog of the templates.

  \<^bold>\<open>How state and time are modelled.\<close> A component of React is the record of its state and a step function
  over a datatype of events: what somebody does, an answer that arrives, a timer that fires, a socket that
  closes. A run is a \<open>fold\<close> of steps, so every interleaving of clicks and answers is an event list, and a
  statement about all lists is one about all orders. An answer names the request it belongs to by its place
  among those made; an effect's closure (\<^verbatim>\<open>live\<close>, \<^verbatim>\<open>current\<close>) is the comparison with the last place. What is
  sent is a list of \<open>api_call\<close> in the state. Errors are the left of a sum, as the sentence that is shown.

  \<^bold>\<open>The interfaces.\<close> \<open>escape_codec\<close> is an escaping of text that can be undone, provided by both encodings of
  \<^theory_text>\<open>Url\<close>; \<open>keyed_store\<close> a store one member of which is changed, provided by the objects of \<^theory_text>\<open>JsValue\<close>;
  \<open>list_view\<close> a list edited through the part of it that is shown, provided by each category of \<^theory_text>\<open>Settings\<close>;
  \<open>machine\<close> a step function with an invariant, provided by \<^theory_text>\<open>Live\<close>, \<^theory_text>\<open>Uploads\<close>, \<^theory_text>\<open>SignIn\<close>, \<^theory_text>\<open>Pictures\<close>,
  \<^theory_text>\<open>Membership\<close> and \<^theory_text>\<open>Sessions\<close>; \<open>latest_loader\<close> and \<open>clearing_loader\<close> the loaders that ask whether an answer is still wanted, provided by
  \<^theory_text>\<open>MachineTabs\<close> and \<^theory_text>\<open>Membership\<close>; \<open>eager_loader\<close> the one that takes every answer as it comes, provided by
  \<^theory_text>\<open>Pickers\<close>, \<^theory_text>\<open>DnsZones\<close>, \<^theory_text>\<open>Remote\<close>, \<^theory_text>\<open>Delegation\<close>, \<^theory_text>\<open>Certificates\<close>, \<^theory_text>\<open>Templates\<close>, \<^theory_text>\<open>History\<close>,
  \<^theory_text>\<open>DirectoryPage\<close>, \<^theory_text>\<open>MachinePage\<close>, \<^theory_text>\<open>MonitorTabs\<close>, \<^theory_text>\<open>ResourcePages\<close> and \<^theory_text>\<open>RemotePages\<close>; \<open>one_call_dialog\<close> a form
  that makes one call and is closed by its answer, provided by the dialogs of \<^theory_text>\<open>ObjectDialogs\<close>, \<^theory_text>\<open>DhcpPage\<close>, \<^theory_text>\<open>ResourcePages\<close>,
  \<^theory_text>\<open>RemotePages\<close> and \<^theory_text>\<open>ServerPages\<close>; \<open>listed_tab\<close> a list with one form and removals, provided by five tabs of \<^theory_text>\<open>MonitorTabs\<close>;
  \<open>shelf_page\<close> a list whose rows are removed after a question, provided by shares and printers; \<open>removable_panel\<close> one whose
  rows are removed at once, provided by trusted certificates and profiles;
  \<open>ticked_boxes\<close> a row of boxes whose ticked ones are kept in a list, provided by \<^theory_text>\<open>Delegation\<close> and \<^theory_text>\<open>Certificates\<close>.

  \<^bold>\<open>What the lemmas show.\<close> Of the client: every call has a well-formed target and body, the token goes out
  with changes only and is the last one given, a refusal always becomes a sentence. Of the policies: an edit
  changes the rows it names and nothing else in the object, the tree shows every setting once, a line reads
  back as the value it was written from. Of the pages: what is saved is what was changed, what is listed is
  what was asked for, paging and nesting end, and what is written (names, queries, CSV) reads back. Of both
  sides of the interface: what the editors save has the shape the control plane takes. Where the
  code does not do what it means to, the theorem states what it does: a name with a comma, a filter split at
  its commas, an answer that comes late, a member taken out and put back, a scope with two pools.

  \<^bold>\<open>Bounds.\<close> Every recursion is structural or has a measure; there is no fuel, except the number of sizes the
  picture converter tries, which is the source's own. Numbers of JSON are integers and decimals without
  rounding; a double is a rational where only its order and its sums matter; \<^verbatim>\<open>userAccountControl\<close> is
  a 32-bit word, as the operator \<^verbatim>\<open>&\<close> makes it.

  \<^bold>\<open>Not modelled.\<close> Markup, placing, focus and icons; the browser (fetch, sockets, canvas, local storage, the
  terminal emulator and the VNC viewer), of which the model has the events and answers; UTF-16 (a character
  outside ASCII is its UTF-8 bytes, which no operation here looks into) and locale order; the text of the
  documentation pages. The control plane, the agent and the deployment are other programs; of the control plane
  only the shapes of a policy's settings are written out, without the lengths, patterns and checks it adds.
\<close>

end
